(* ===== verification/V2V_Prelude.thy ===== *)
theory V2V_Prelude
  imports "HOL-Library.Word" "HOL-Library.Finite_Map" "HOL-Library.Multiset"
begin

text \<open>
  Shared vocabulary of the development: the machine types of the Go code, the outcome of a call
  (a return value, a run-time panic, or a goroutine that waits for ever for a lock), finite maps
  for Go maps, big-endian integer encoding (package encoding/binary), hexadecimal text (package
  encoding/hex), reader/writer locks (sync.RWMutex), IEEE comparison for the few float64 tests,
  and the interface of the cryptographic library go-ethereum/crypto, which is not part of the
  repository and therefore a parameter.
\<close>

section \<open>Lemma collections\<close>

named_theorems bytes_simps \<open>lengths and contents of byte encodings\<close>
named_theorems gomap_simps \<open>lookup, insertion and size of Go maps\<close>

section \<open>Machine types\<close>

type_synonym byte = "8 word"
type_synonym bytes = "byte list"
type_synonym u8 = "8 word"
type_synonym u32 = "32 word"
type_synonym u64 = "64 word"
type_synonym i64 = "64 word" \<comment> \<open>int64: compared through \<open>sint\<close>, arithmetic wraps\<close>
type_synonym hash = "256 word" \<comment> \<open>\<open>[32]byte\<close>, read big-endian\<close>
type_synonym address = "160 word" \<comment> \<open>\<open>[20]byte\<close>, read big-endian\<close>

section \<open>Outcomes of a call\<close>

text \<open>
  \<open>Done v\<close>: the call returns \<open>v\<close>. \<open>Blocked\<close>: the calling goroutine waits for a lock that it
  holds itself, so the call never returns. \<open>Panic\<close>: the Go runtime panics (index out of range,
  slice bounds, nil dereference).
\<close>

datatype 'a outcome = Done 'a | Blocked | Panic

fun obind :: "'a outcome \<Rightarrow> ('a \<Rightarrow> 'b outcome) \<Rightarrow> 'b outcome" where
  "obind (Done x) f = f x"
| "obind Blocked f = Blocked"
| "obind Panic f = Panic"

lemma obind_eq_Done:
  "obind m f = Done y \<longleftrightarrow> (\<exists>x. m = Done x \<and> f x = Done y)"
  by (cases m) auto

fun is_Inr :: "'e + 'a \<Rightarrow> bool" where
  "is_Inr (Inl _) = False"
| "is_Inr (Inr _) = True"

lemma is_Inr_iff: "is_Inr r \<longleftrightarrow> (\<exists>x. r = Inr x)"
  by (cases r) auto

section \<open>Go maps\<close>

abbreviation mget :: "('k, 'v) fmap \<Rightarrow> 'k \<Rightarrow> 'v option" where
  "mget m k \<equiv> fmlookup m k"

abbreviation mput :: "('k, 'v) fmap \<Rightarrow> 'k \<Rightarrow> 'v \<Rightarrow> ('k, 'v) fmap" where
  "mput m k v \<equiv> fmupd k v m"

abbreviation mdel :: "('k, 'v) fmap \<Rightarrow> 'k \<Rightarrow> ('k, 'v) fmap" where
  "mdel m k \<equiv> fmdrop k m"

definition mlen :: "('k, 'v) fmap \<Rightarrow> nat" where
  "mlen m = fcard (fmdom m)"

definition mhas :: "('k, 'v) fmap \<Rightarrow> 'k \<Rightarrow> bool" where
  "mhas m k \<longleftrightarrow> fmlookup m k \<noteq> None"

lemma mlen_empty [simp, gomap_simps]: "mlen fmempty = 0"
  by (simp add: mlen_def)

lemma mhas_dom: "mhas m k \<longleftrightarrow> k |\<in>| fmdom m"
  by (simp add: mhas_def fmlookup_dom_iff)

lemma mlen_put [gomap_simps]:
  "mlen (mput m k v) = (if mhas m k then mlen m else Suc (mlen m))"
  by (simp add: mlen_def mhas_dom fcard_finsert_if finsert_absorb)

lemma mlen_del [gomap_simps]:
  "mlen (mdel m k) = (if mhas m k then mlen m - 1 else mlen m)"
  by (auto simp: mlen_def mhas_dom fcard_fminus_fsingleton)

lemma mhas_put [simp, gomap_simps]: "mhas (mput m k v) j \<longleftrightarrow> j = k \<or> mhas m j"
  by (simp add: mhas_def)

lemma mhas_del [simp, gomap_simps]: "mhas (mdel m k) j \<longleftrightarrow> j \<noteq> k \<and> mhas m j"
  by (simp add: mhas_def)

lemma mhas_empty [simp, gomap_simps]: "\<not> mhas fmempty k"
  by (simp add: mhas_def)

lemma mhasI [intro]: "mget m k = Some v \<Longrightarrow> mhas m k"
  by (simp add: mhas_def)

lemma mlen_filter_le: "mlen (fmfilter P m) \<le> mlen m"
  unfolding mlen_def by (intro fcard_mono) (auto simp: fmlookup_dom_iff split: if_splits)

lemma mlen_pos: "mget m k = Some v \<Longrightarrow> 0 < mlen m"
  by (metis fcard_0_eq fmdomI fempty_iff gr0I mlen_def)

section \<open>Big-endian integers (encoding/binary)\<close>

fun nat_be :: "nat \<Rightarrow> nat \<Rightarrow> bytes" where
  "nat_be 0 x = []"
| "nat_be (Suc n) x = nat_be n (x div 256) @ [of_nat (x mod 256)]"

definition be_nat :: "bytes \<Rightarrow> nat" where
  "be_nat bs = foldl (\<lambda>a b. 256 * a + unat b) 0 bs"

definition put_be :: "'a::len word \<Rightarrow> bytes" where
  "put_be w = nat_be (LENGTH('a) div 8) (unat w)"

definition get_be :: "bytes \<Rightarrow> 'a::len word" where
  "get_be bs = of_nat (be_nat bs)"

lemma length_nat_be [simp, bytes_simps]: "length (nat_be n x) = n"
  by (induction n arbitrary: x) auto

lemma length_put_be [simp, bytes_simps]:
  "length (put_be (w :: 'a::len word)) = LENGTH('a) div 8"
  by (simp add: put_be_def)

lemma be_nat_Nil [simp]: "be_nat [] = 0"
  by (simp add: be_nat_def)

lemma be_nat_snoc [simp]: "be_nat (bs @ [b]) = 256 * be_nat bs + unat b"
  by (simp add: be_nat_def)

lemma unat_bound: "unat (w :: 'a::len word) < 2 ^ LENGTH('a)"
  by (rule unsigned_less)

lemma unat_byte_bound: "unat (b :: byte) < 256"
  using unat_bound [of b] by simp

lemma unat_byte_of_mod: "unat (of_nat (x mod 256) :: byte) = x mod 256"
  by (simp add: unat_of_nat)

lemma be_nat_nat_be: "be_nat (nat_be n x) = x mod 256 ^ n"
proof (induction n arbitrary: x)
  case 0
  then show ?case by simp
next
  case (Suc n)
  have "x mod (256 * 256 ^ n) = 256 * (x div 256 mod 256 ^ n) + x mod 256"
    by (simp add: mod_mult2_eq)
  with Suc show ?case by (simp add: unat_byte_of_mod)
qed

lemma nat_be_be_nat: "nat_be (length bs) (be_nat bs) = bs"
proof (induction bs rule: rev_induct)
  case Nil
  then show ?case by simp
next
  case (snoc b bs)
  have b: "unat b < 256" by (rule unat_byte_bound)
  then have "(256 * be_nat bs + unat b) div 256 = be_nat bs"
    and "(256 * be_nat bs + unat b) mod 256 = unat b" by auto
  with snoc show ?case by simp
qed

lemma be_nat_bound: "be_nat bs < 256 ^ length bs"
proof -
  have "be_nat bs = be_nat bs mod 256 ^ length bs"
    using be_nat_nat_be [of "length bs" "be_nat bs"] by (simp add: nat_be_be_nat)
  then show ?thesis by (metis mod_less_divisor zero_less_numeral zero_less_power)
qed

lemma pow_256: "(256::nat) ^ n = 2 ^ (8 * n)"
  by (simp add: power_mult)

lemma get_put_be:
  assumes "8 dvd LENGTH('a)"
  shows "get_be (put_be (w :: 'a::len word)) = w"
proof -
  have "be_nat (put_be w) = unat w mod 2 ^ LENGTH('a)"
    using assms by (simp add: put_be_def be_nat_nat_be pow_256)
  also have "\<dots> = unat w" using unat_bound [of w] by simp
  finally show ?thesis by (simp add: get_be_def)
qed

lemma put_get_be:
  assumes "length bs = LENGTH('a) div 8" and "8 dvd LENGTH('a::len)"
  shows "put_be (get_be bs :: 'a word) = bs"
proof -
  have "be_nat bs < 2 ^ LENGTH('a)"
    using be_nat_bound [of bs] assms by (simp add: pow_256)
  then have "unat (of_nat (be_nat bs) :: 'a word) = be_nat bs"
    by (simp add: unat_of_nat)
  then show ?thesis
    using nat_be_be_nat [of bs] assms(1) by (simp add: put_be_def get_be_def)
qed

lemma put_be_inject [simp]:
  assumes "8 dvd LENGTH('a)"
  shows "put_be (v :: 'a::len word) = put_be w \<longleftrightarrow> v = w"
  using get_put_be [OF assms] by metis

text \<open>\<open>copy(dst[:], src)\<close> into a zeroed array of \<open>n\<close> bytes.\<close>

definition copy_into :: "nat \<Rightarrow> bytes \<Rightarrow> bytes" where
  "copy_into n bs = take n bs @ replicate (n - length bs) 0"

lemma copy_into_same [simp, bytes_simps]: "length bs = n \<Longrightarrow> copy_into n bs = bs"
  by (simp add: copy_into_def)

lemma length_copy_into [simp, bytes_simps]: "length (copy_into n bs) = n"
  by (simp add: copy_into_def)

section \<open>Hexadecimal text (encoding/hex)\<close>

definition hex_digit :: "nat \<Rightarrow> char" where
  "hex_digit n = (if n < 10 then char_of (48 + n) else char_of (87 + n))"

definition hex_val :: "char \<Rightarrow> nat option" where
  "hex_val c = (let k = (of_char c :: nat) in
     if 48 \<le> k \<and> k \<le> 57 then Some (k - 48)
     else if 97 \<le> k \<and> k \<le> 102 then Some (k - 87)
     else if 65 \<le> k \<and> k \<le> 70 then Some (k - 55)
     else None)"

fun hex_encode :: "bytes \<Rightarrow> string" where
  "hex_encode [] = []"
| "hex_encode (b # bs) = hex_digit (unat b div 16) # hex_digit (unat b mod 16) # hex_encode bs"

fun hex_decode :: "string \<Rightarrow> bytes option" where
  "hex_decode [] = Some []"
| "hex_decode [c] = None"
| "hex_decode (c # d # cs) =
     (case (hex_val c, hex_val d, hex_decode cs) of
        (Some x, Some y, Some bs) \<Rightarrow> Some (of_nat (16 * x + y) # bs)
      | _ \<Rightarrow> None)"

lemma sint_u64:
  "sint (w :: u64) = (if unat w < 2 ^ 63 then int (unat w) else - int (2 ^ 64 - unat w))"
proof -
  let ?u = "uint w"
  have u: "0 \<le> ?u" "?u < 2 ^ 64" using uint_lt2p [of w] by simp_all
  have b: "bit ?u 63 \<longleftrightarrow> 2 ^ 63 \<le> ?u"
  proof (cases "2 ^ 63 \<le> ?u")
    case True
    with u have "?u div 2 ^ 63 = 1" by (intro int_div_pos_eq [of _ _ _ "?u - 2 ^ 63"]) simp_all
    with True show ?thesis by (simp add: bit_iff_odd)
  qed (use u in \<open>simp add: bit_iff_odd\<close>)
  have t: "take_bit 64 ?u = ?u" using u by (simp add: take_bit_eq_mod)
  have n: "int (unat w) = ?u" "unat w < 2 ^ 64" using unat_bound [of w] by simp_all
  have "sint w = (if 2 ^ 63 \<le> ?u then ?u - 2 ^ 64 else ?u)"
    using b t by (simp add: sint_uint signed_take_bit_eq_take_bit_minus)
  moreover have "int (unat w) < 2 ^ 63 \<longleftrightarrow> unat w < 2 ^ 63" by (simp only: of_nat_less_numeral_iff of_nat_less_numeral_power_cancel_iff)
  ultimately show ?thesis unfolding n(1) [symmetric] using n(2)
    by (cases "unat w < 2 ^ 63") (simp_all add: of_nat_diff)
qed

lemma unat_of_nat_u64 [simp]: "n < 2 ^ 64 \<Longrightarrow> unat (of_nat n :: u64) = n"
  by (simp add: unat_of_nat)

lemma of_nat_u64_eq:
  "m < 2 ^ 64 \<Longrightarrow> n < 2 ^ 64 \<Longrightarrow> (of_nat m :: u64) = of_nat n \<longleftrightarrow> m = n"
  by (metis unat_of_nat_u64)

lemma of_char_char_of_small: "n < 256 \<Longrightarrow> (of_char (char_of n :: char) :: nat) = n"
  by simp

lemma hex_val_digit: "n < 16 \<Longrightarrow> hex_val (hex_digit n) = Some n"
  by (auto simp: hex_val_def hex_digit_def Let_def of_char_char_of_small simp del: of_char_of)

lemma hex_decode_encode: "hex_decode (hex_encode bs) = Some bs"
proof (induction bs)
  case Nil
  then show ?case by simp
next
  case (Cons b bs)
  have b: "unat b < 256" by (rule unat_byte_bound)
  then have "hex_val (hex_digit (unat b div 16)) = Some (unat b div 16)"
    and "hex_val (hex_digit (unat b mod 16)) = Some (unat b mod 16)"
    by (intro hex_val_digit; simp; fail)+
  with Cons show ?case by simp
qed

lemma length_hex_encode [simp, bytes_simps]: "length (hex_encode bs) = 2 * length bs"
  by (induction bs) auto

lemma hex_decode_length: "hex_decode s = Some bs \<Longrightarrow> length s = 2 * length bs"
  by (induction s arbitrary: bs rule: hex_decode.induct) (auto split: option.splits)

text \<open>\<open>[]byte(s)\<close> for an ASCII string.\<close>

text \<open>\<open>%d\<close> of an unsigned integer.\<close>

fun decimal :: "nat \<Rightarrow> string" where
  "decimal n = (if n < 10 then [hex_digit n] else decimal (n div 10) @ [hex_digit (n mod 10)])"

declare decimal.simps [simp del]

definition string_bytes :: "string \<Rightarrow> bytes" where
  "string_bytes s = map of_char s"

lemma length_string_bytes [simp, bytes_simps]: "length (string_bytes s) = length s"
  by (simp add: string_bytes_def)

lemma of_char_byte_inject: "(of_char c :: byte) = of_char d \<longleftrightarrow> c = d"
proof
  assume "(of_char c :: byte) = of_char d"
  then have "unat (of_nat (of_char c) :: byte) = unat (of_nat (of_char d) :: byte)"
    by (simp only: of_nat_of_char)
  moreover have "(of_char x :: nat) < 256" for x by simp
  ultimately have "(of_char c :: nat) = of_char d" by (simp add: unat_of_nat)
  then show "c = d" by simp
qed simp

lemma string_bytes_inject [simp]: "string_bytes s = string_bytes t \<longleftrightarrow> s = t"
  unfolding string_bytes_def by (intro inj_map_eq_map injI) (simp add: of_char_byte_inject)

section \<open>Reader/writer locks (sync.RWMutex)\<close>

text \<open>
  The state of a lock as one goroutine sees it while it runs alone: held for writing, and the
  number of read acquisitions it has not released. \<open>Lock\<close> and \<open>RLock\<close> return \<open>None\<close> where the
  goroutine would wait for itself.
\<close>

record rwlock =
  writer_held :: bool
  readers_held :: nat

definition free_lock :: rwlock where
  "free_lock = \<lparr>writer_held = False, readers_held = 0\<rparr>"

definition lock_free :: "rwlock \<Rightarrow> bool" where
  "lock_free l \<longleftrightarrow> \<not> writer_held l \<and> readers_held l = 0"

definition rw_Lock :: "rwlock \<Rightarrow> rwlock option" where
  "rw_Lock l = (if writer_held l \<or> 0 < readers_held l then None else Some (l\<lparr>writer_held := True\<rparr>))"

definition rw_Unlock :: "rwlock \<Rightarrow> rwlock" where
  "rw_Unlock l = l\<lparr>writer_held := False\<rparr>"

definition rw_RLock :: "rwlock \<Rightarrow> rwlock option" where
  "rw_RLock l = (if writer_held l then None else Some (l\<lparr>readers_held := Suc (readers_held l)\<rparr>))"

definition rw_RUnlock :: "rwlock \<Rightarrow> rwlock" where
  "rw_RUnlock l = l\<lparr>readers_held := readers_held l - 1\<rparr>"

lemma lock_free_free_lock [simp]: "lock_free free_lock"
  by (simp add: lock_free_def free_lock_def)

lemma lock_freeE: "lock_free l \<Longrightarrow> l = free_lock"
  by (cases l) (simp add: lock_free_def free_lock_def)

lemma rw_RUnlock_RLock: "rw_RLock l = Some l' \<Longrightarrow> rw_RUnlock l' = l"
  by (auto simp: rw_RLock_def rw_RUnlock_def split: if_splits)

section \<open>Durations\<close>

text \<open>\<open>t.Sub(u)\<close>: the difference in nanoseconds, kept within the range of a Duration.\<close>

definition go_time_sub :: "int \<Rightarrow> int \<Rightarrow> int" where
  "go_time_sub t u = max (- (2 ^ 63)) (min (2 ^ 63 - 1) (t - u))"

section \<open>Comparison of float64 values\<close>

text \<open>A float64 is a finite rational, an infinity or NaN; every comparison with NaN is false.\<close>

datatype float64 = Fin rat | PosInf | NegInf | NaN

fun fl_less :: "float64 \<Rightarrow> float64 \<Rightarrow> bool" where
  "fl_less NaN _ = False"
| "fl_less _ NaN = False"
| "fl_less (Fin x) (Fin y) = (x < y)"
| "fl_less NegInf NegInf = False"
| "fl_less NegInf _ = True"
| "fl_less _ NegInf = False"
| "fl_less PosInf _ = False"
| "fl_less (Fin _) PosInf = True"

section \<open>The cryptographic library\<close>

text \<open>
  go-ethereum/crypto and crypto/sha256. Keccak256 and Sum256 return 32 bytes; ToECDSA parses a
  private key; Sign signs a 32-byte digest; SigToPub recovers the public key of a signature;
  PubkeyToAddress derives the 20-byte address.
\<close>

type_synonym privkey = bytes
type_synonym pubkey = bytes

record crypto =
  keccak256 :: "bytes \<Rightarrow> hash"
  sum256 :: "bytes \<Rightarrow> hash"
  to_ecdsa :: "bytes \<Rightarrow> privkey option"
  ecdsa_sign :: "hash \<Rightarrow> privkey \<Rightarrow> bytes option"
  sig_to_pub :: "hash \<Rightarrow> bytes \<Rightarrow> pubkey option"
  pubkey_to_address :: "pubkey \<Rightarrow> address"

section \<open>Lists\<close>

text \<open>Removal by swapping with the last element and truncating, a Go idiom of the code.\<close>

definition swap_remove :: "nat \<Rightarrow> 'a list \<Rightarrow> 'a list" where
  "swap_remove i xs = butlast (xs[i := last xs])"

definition slice_remove :: "nat \<Rightarrow> 'a list \<Rightarrow> 'a list" where
  "slice_remove i xs = take i xs @ drop (Suc i) xs"

text \<open>The index at which a loop over a slice finds its value, and an update of the first match.\<close>

fun find_index :: "'a \<Rightarrow> 'a list \<Rightarrow> nat \<Rightarrow> nat option" where
  "find_index x [] i = None"
| "find_index x (y # ys) i = (if y = x then Some i else find_index x ys (Suc i))"

lemma find_index_Some:
  "find_index x ys i = Some k \<Longrightarrow> i \<le> k \<and> k < i + length ys \<and> ys ! (k - i) = x"
proof (induction ys arbitrary: i)
  case (Cons y ys)
  show ?case
  proof (cases "y = x")
    case False
    with Cons.IH [of "Suc i"] Cons.prems
    have k: "Suc i \<le> k" "k < Suc i + length ys" "ys ! (k - Suc i) = x" by simp_all
    then have "k - i = Suc (k - Suc i)" by simp
    with k show ?thesis by simp
  qed (use Cons.prems in auto)
qed simp

lemma find_index_None: "find_index x ys i = None \<longleftrightarrow> x \<notin> set ys"
  by (induction ys arbitrary: i) auto

fun upd_first :: "('a \<Rightarrow> bool) \<Rightarrow> ('a \<Rightarrow> 'a) \<Rightarrow> 'a list \<Rightarrow> 'a list" where
  "upd_first P f [] = []"
| "upd_first P f (x # xs) = (if P x then f x # xs else x # upd_first P f xs)"

lemma length_upd_first [simp]: "length (upd_first P f xs) = length xs"
  by (induction xs) auto

lemma map_upd_first: "(\<And>x. g (f x) = g x) \<Longrightarrow> map g (upd_first P f xs) = map g xs"
  by (induction xs) auto

lemma slice_remove_mset:
  assumes "i < length xs"
  shows "mset (slice_remove i xs) = mset xs - {#xs ! i#}"
proof -
  have "mset xs = mset (take i xs @ xs ! i # drop (Suc i) xs)"
    using assms by (simp add: id_take_nth_drop [symmetric])
  then show ?thesis by (simp add: slice_remove_def)
qed

lemma swap_remove_mset:
  assumes "i < length xs"
  shows "mset (swap_remove i xs) = mset xs - {#xs ! i#}"
proof (cases "xs = []")
  case False
  let ?ys = "xs[i := last xs]"
  have ne: "?ys \<noteq> []" using False by simp
  have last: "last ?ys = last xs"
    using False by (simp add: last_list_update)
  have "?ys = butlast ?ys @ [last xs]"
    using ne last by (metis append_butlast_last_id)
  then have "mset ?ys = add_mset (last xs) (mset (butlast ?ys))"
    by (metis mset.simps(2) mset_append union_mset_add_mset_right add.right_neutral mset.simps(1))
  then have "mset (butlast ?ys) = mset ?ys - {#last xs#}" by simp
  also have "mset ?ys = add_mset (last xs) (mset xs - {#xs ! i#})"
    using assms by (simp add: mset_update)
  finally show ?thesis by (simp add: swap_remove_def)
qed (use assms in simp)

lemma mset_remove_distinct:
  assumes "mset ys = mset xs - {#x#}" and "distinct xs" and "x \<in> set xs"
  shows "distinct ys \<and> set ys = set xs - {x} \<and> length xs = Suc (length ys)"
proof -
  from assms(3) have mx: "mset xs = add_mset x (mset ys)"
    using assms(1) by simp
  then have "mset xs = mset (x # ys)" by simp
  then have "distinct (x # ys)" and "set xs = set (x # ys)" and "length xs = length (x # ys)"
    using assms(2) mset_eq_imp_distinct_iff mset_eq_setD mset_eq_length by blast+
  then show ?thesis by auto
qed

end
