(* ===== verification/Go_JSON.thy ===== *)
theory Go_JSON
  imports V2V_Prelude "HOL-Library.Countable"
begin

text \<open>
  Package encoding/json as the repository uses it. A JSON text is represented by its value tree;
  numbers are unbounded integers (every integer field of the repository is a Go integer), and
  \<open>[]byte\<close>, which Go writes as a base64 string, is a leaf of its own. Objects keep the order in
  which Marshal writes the fields. Unmarshal looks a field up by its tag and leaves the zero value
  where the field is missing; a value of the wrong kind or out of range is an error.
\<close>

datatype json =
    JNull
  | JBool bool
  | JNum int
  | JFloat float64
  | JStr string
  | JB64 bytes
  | JArr "json list"
  | JObj "(string \<times> json) list"

type_synonym 'a decoder = "json \<Rightarrow> 'a option"

fun jfield :: "json \<Rightarrow> string \<Rightarrow> json option" where
  "jfield (JObj fs) k = map_of fs k"
| "jfield _ k = None"

fun is_obj :: "json \<Rightarrow> bool" where
  "is_obj (JObj _) = True"
| "is_obj _ = False"

definition jget :: "json \<Rightarrow> string \<Rightarrow> 'a decoder \<Rightarrow> 'a \<Rightarrow> 'a option" where
  "jget j k dec zero = (case jfield j k of None \<Rightarrow> Some zero | Some v \<Rightarrow> dec v)"

fun dec_bool :: "bool decoder" where
  "dec_bool (JBool b) = Some b"
| "dec_bool JNull = Some False"
| "dec_bool _ = None"

fun dec_string :: "string decoder" where
  "dec_string (JStr s) = Some s"
| "dec_string JNull = Some []"
| "dec_string _ = None"

fun dec_bytes :: "bytes decoder" where
  "dec_bytes (JB64 b) = Some b"
| "dec_bytes JNull = Some []"
| "dec_bytes _ = None"

fun dec_uint :: "'a::len word decoder" where
  "dec_uint (JNum n) = (if 0 \<le> n \<and> n < 2 ^ LENGTH('a) then Some (of_int n) else None)"
| "dec_uint JNull = Some 0"
| "dec_uint _ = None"

fun dec_sint :: "'a::len word decoder" where
  "dec_sint (JNum n) =
     (if - (2 ^ (LENGTH('a) - 1)) \<le> n \<and> n < 2 ^ (LENGTH('a) - 1) then Some (of_int n) else None)"
| "dec_sint JNull = Some 0"
| "dec_sint _ = None"

fun dec_int :: "int decoder" where
  "dec_int (JNum n) = (if - (2 ^ 63) \<le> n \<and> n < 2 ^ 63 then Some n else None)"
| "dec_int JNull = Some 0"
| "dec_int _ = None"

fun dec_float :: "float64 decoder" where
  "dec_float (JFloat x) = Some x"
| "dec_float (JNum n) = Some (Fin (of_int n))"
| "dec_float JNull = Some (Fin 0)"
| "dec_float _ = None"

fun dec_all :: "'a decoder \<Rightarrow> json list \<Rightarrow> 'a list option" where
  "dec_all dec [] = Some []"
| "dec_all dec (j # js) =
     (case (dec j, dec_all dec js) of (Some x, Some xs) \<Rightarrow> Some (x # xs) | _ \<Rightarrow> None)"

fun dec_list :: "'a decoder \<Rightarrow> 'a list decoder" where
  "dec_list dec (JArr js) = dec_all dec js"
| "dec_list dec JNull = Some []"
| "dec_list dec _ = None"

definition enc_uint :: "'a::len word \<Rightarrow> json" where
  "enc_uint w = JNum (uint w)"

definition enc_sint :: "'a::len word \<Rightarrow> json" where
  "enc_sint w = JNum (sint w)"

definition enc_list :: "('a \<Rightarrow> json) \<Rightarrow> 'a list \<Rightarrow> json" where
  "enc_list enc xs = JArr (map enc xs)"

lemma dec_enc_uint [simp]: "dec_uint (enc_uint w) = Some w"
  by (simp add: enc_uint_def)

lemma dec_enc_sint [simp]: "dec_sint (enc_sint w) = Some w"
  using sint_lt [of w] sint_ge [of w] by (simp add: enc_sint_def)

lemma dec_all_map: "(\<And>x. x \<in> set xs \<Longrightarrow> dec (enc x) = Some x) \<Longrightarrow> dec_all dec (map enc xs) = Some xs"
  by (induction xs) auto

lemma dec_enc_list [simp]:
  "(\<And>x. dec (enc x) = Some x) \<Longrightarrow> dec_list dec (enc_list enc xs) = Some xs"
  by (simp add: enc_list_def dec_all_map)

lemma jget_Some [simp]: "jfield j k = Some v \<Longrightarrow> jget j k dec zero = dec v"
  by (simp add: jget_def)

lemma jget_None [simp]: "jfield j k = None \<Longrightarrow> jget j k dec zero = Some zero"
  by (simp add: jget_def)

section \<open>Text\<close>

text \<open>
  The text of a value tree (the output of Marshal and the input of Unmarshal) belongs to the
  library and is a parameter; what the code relies on is that parsing inverts printing.
\<close>

record json_lib =
  js_text :: "json \<Rightarrow> bytes"
  js_parse :: "bytes \<Rightarrow> json option"

definition json_ok :: "json_lib \<Rightarrow> bool" where
  "json_ok J \<longleftrightarrow> (\<forall>j. js_parse J (js_text J j) = Some j)"

lemma json_okD [simp]: "json_ok J \<Longrightarrow> js_parse J (js_text J j) = Some j"
  by (simp add: json_ok_def)

lemma json_ok_inject: "json_ok J \<Longrightarrow> js_text J i = js_text J j \<longleftrightarrow> i = j"
  by (metis json_okD option.inject)

definition unmarshal :: "json_lib \<Rightarrow> 'a decoder \<Rightarrow> bytes \<Rightarrow> 'a option" where
  "unmarshal J dec data = (case js_parse J data of None \<Rightarrow> None | Some j \<Rightarrow> dec j)"

lemma unmarshal_text [simp]: "json_ok J \<Longrightarrow> unmarshal J dec (js_text J j) = dec j"
  by (simp add: unmarshal_def)

text \<open>An instance for witnesses: the trees are countable, so they can be numbered.\<close>

instance float64 :: countable
  by countable_datatype

instance json :: countable
  by countable_datatype

definition demo_json :: json_lib where
  "demo_json = \<lparr>js_text = (\<lambda>j. replicate (to_nat j) 0), js_parse = (\<lambda>b. Some (from_nat (length b)))\<rparr>"

lemma demo_json_ok: "json_ok demo_json"
  by (simp add: json_ok_def demo_json_def)

end
