(* ===== verification/Merkle_Scheme.thy ===== *)
theory Merkle_Scheme
  imports V2V_Prelude
begin

text \<open>
  The pairing loop that the code writes four times: over transaction hashes
  (blockchain/types.go), over tree nodes (blockchain/merkle.go) and over audit hashes
  (state/service.go, twice). One level pads an odd list by repeating its last element and hashes
  neighbours; levels are taken until one element is left. The locale \<open>merkle_scheme\<close> states the
  two laws every one of these loops obeys and proves the facts that follow from them once; the
  components interpret it with their own pairing function.
\<close>

section \<open>One level\<close>

definition pad_last :: "'a list \<Rightarrow> 'a list" where
  "pad_last xs = (if odd (length xs) then xs @ [last xs] else xs)"

fun pair_up :: "('a \<Rightarrow> 'a \<Rightarrow> 'b) \<Rightarrow> 'a list \<Rightarrow> 'b list" where
  "pair_up f (x # y # zs) = f x y # pair_up f zs"
| "pair_up f _ = []"

definition merkle_level :: "('a \<Rightarrow> 'a \<Rightarrow> 'a) \<Rightarrow> 'a list \<Rightarrow> 'a list" where
  "merkle_level f xs = pair_up f (pad_last xs)"

lemma length_pair_up [simp]: "length (pair_up f xs) = length xs div 2"
  by (induction f xs rule: pair_up.induct) auto

lemma length_pad_last: "length (pad_last xs) = 2 * ((length xs + 1) div 2)"
  by (auto simp: pad_last_def elim!: oddE)

lemma even_pad_last [simp]: "even (length (pad_last xs))"
  by (simp add: length_pad_last)

lemma length_merkle_level [simp]: "length (merkle_level f xs) = (length xs + 1) div 2"
  by (simp add: merkle_level_def length_pad_last)

lemma pad_last_even [simp]: "even (length xs) \<Longrightarrow> pad_last xs = xs"
  by (simp add: pad_last_def)

lemma pad_last_idem: "pad_last (pad_last xs) = pad_last xs"
  by (simp add: pad_last_even)

lemma pad_last_inject:
  assumes "length xs = length ys" and "pad_last xs = pad_last ys"
  shows "xs = ys"
  using assms by (auto simp: pad_last_def split: if_splits)

lemma pad_last_nth: "i < length xs \<Longrightarrow> pad_last xs ! i = xs ! i"
  by (simp add: pad_last_def nth_append)

lemma pair_up_nth: "i < length xs div 2 \<Longrightarrow> pair_up f xs ! i = f (xs ! (2 * i)) (xs ! (2 * i + 1))"
proof (induction f xs arbitrary: i rule: pair_up.induct)
  case (1 f x y zs)
  then show ?case by (cases i) auto
qed auto

lemma pair_up_map: "pair_up f (map h xs) = pair_up (\<lambda>x y. f (h x) (h y)) xs"
  by (induction "\<lambda>x y. f (h x) (h y)" xs rule: pair_up.induct) auto

lemma map_pair_up: "map h (pair_up f xs) = pair_up (\<lambda>x y. h (f x y)) xs"
  by (induction f xs rule: pair_up.induct) auto

lemma pad_last_map: "pad_last (map h xs) = map h (pad_last xs)"
  by (cases "xs = []") (auto simp: pad_last_def last_map)

lemma pair_up_inject:
  assumes "pair_up f xs = pair_up f ys" and "length xs = length ys" and "even (length xs)"
    and "inj_on (\<lambda>(a, b). f a b) (set (pair_up Pair xs) \<union> set (pair_up Pair ys))"
  shows "xs = ys"
  using assms
proof (induction f xs arbitrary: ys rule: pair_up.induct)
  case (1 f x y zs)
  from "1.prems"(2) obtain u v ws where ys: "ys = u # v # ws"
    by (cases ys; cases "tl ys") auto
  with "1.prems"(2) have len: "length zs = length ws" by simp
  have "(\<lambda>(a, b). f a b) (x, y) = (\<lambda>(a, b). f a b) (u, v)"
    using "1.prems"(1) ys by simp
  moreover have "(x, y) \<in> set (pair_up Pair (x # y # zs)) \<union> set (pair_up Pair ys)"
    and "(u, v) \<in> set (pair_up Pair (x # y # zs)) \<union> set (pair_up Pair ys)"
    using ys by auto
  ultimately have "(x, y) = (u, v)"
    using "1.prems"(4) by (meson inj_onD)
  moreover have "zs = ws"
  proof (rule "1.IH")
    show "inj_on (\<lambda>(a, b). f a b) (set (pair_up Pair zs) \<union> set (pair_up Pair ws))"
      using "1.prems"(4) by (rule inj_on_subset) (auto simp: ys)
  qed (use "1.prems" ys len in auto)
  ultimately show ?case using ys by simp
qed (auto simp: length_Suc_conv)

section \<open>The loop\<close>

function merkle_loop :: "('a \<Rightarrow> 'a \<Rightarrow> 'a) \<Rightarrow> 'a list \<Rightarrow> 'a list" where
  "merkle_loop f xs = (if 1 < length xs then merkle_loop f (merkle_level f xs) else xs)"
  by pat_completeness auto
termination
  by (relation "measure (\<lambda>(f, xs). length xs)") auto

declare merkle_loop.simps [simp del]

lemma merkle_loop_step: "1 < length xs \<Longrightarrow> merkle_loop f xs = merkle_loop f (merkle_level f xs)"
  by (subst merkle_loop.simps) simp

lemma merkle_loop_stop: "length xs \<le> 1 \<Longrightarrow> merkle_loop f xs = xs"
  by (subst merkle_loop.simps) simp

lemma length_merkle_loop: "xs \<noteq> [] \<Longrightarrow> length (merkle_loop f xs) = 1"
proof (induction f xs rule: merkle_loop.induct)
  case (1 f xs)
  show ?case
  proof (cases "1 < length xs")
    case True
    moreover from True have "merkle_level f xs \<noteq> []"
      by (auto simp flip: length_greater_0_conv)
    ultimately show ?thesis using "1.IH" by (simp add: merkle_loop_step)
  next
    case False
    with "1.prems" show ?thesis by (cases xs) (auto simp: merkle_loop_stop)
  qed
qed

text \<open>The pairs that the loop hashes, level by level.\<close>

function merkle_inputs :: "('a \<Rightarrow> 'a \<Rightarrow> 'a) \<Rightarrow> 'a list \<Rightarrow> ('a \<times> 'a) list" where
  "merkle_inputs f xs =
     (if 1 < length xs then pair_up Pair (pad_last xs) @ merkle_inputs f (merkle_level f xs) else [])"
  by pat_completeness auto
termination
  by (relation "measure (\<lambda>(f, xs). length xs)") auto

declare merkle_inputs.simps [simp del]

section \<open>The interface: a root function over a pairing function\<close>

locale merkle_scheme =
  fixes pair :: "'a \<Rightarrow> 'a \<Rightarrow> 'a"
    and root :: "'a list \<Rightarrow> 'a option"
  assumes root_single: "root [x] = Some x"
    and root_level: "1 < length xs \<Longrightarrow> root xs = root (merkle_level pair xs)"
begin

lemma root_pair: "root [x, y] = Some (pair x y)"
  by (subst root_level) (auto simp: merkle_level_def root_single)

text \<open>A root exists for every non-empty list.\<close>

lemma root_defined: "xs \<noteq> [] \<Longrightarrow> \<exists>r. root xs = Some r"
proof (induction "length xs" arbitrary: xs rule: less_induct)
  case less
  show ?case
  proof (cases "1 < length xs")
    case True
    then have "merkle_level pair xs \<noteq> []" and "length (merkle_level pair xs) < length xs"
      by (auto simp flip: length_greater_0_conv)
    with less True show ?thesis by (auto simp: root_level)
  next
    case False
    with less.prems obtain x where "xs = [x]" by (cases xs) auto
    then show ?thesis by (simp add: root_single)
  qed
qed

text \<open>Repeating the last leaf of an odd list of leaves does not change the root.\<close>

lemma root_duplicate_last:
  assumes "odd (length xs)" and "1 < length xs"
  shows "root (xs @ [last xs]) = root xs"
proof -
  have "merkle_level pair (xs @ [last xs]) = merkle_level pair xs"
    using assms(1) by (simp add: merkle_level_def pad_last_def)
  moreover have "root (xs @ [last xs]) = root (merkle_level pair (xs @ [last xs]))"
    using assms(2) by (intro root_level) auto
  moreover have "root xs = root (merkle_level pair xs)"
    using assms(2) by (rule root_level)
  ultimately show ?thesis by simp
qed

text \<open>
  Binding: two lists of the same length with the same root are equal, unless the pairing function
  collides on two of the pairs that the two computations hash.
\<close>

lemma root_binding:
  assumes "length xs = length ys" and "xs \<noteq> []" and "root xs = root ys"
    and "inj_on (\<lambda>(a, b). pair a b) (set (merkle_inputs pair xs) \<union> set (merkle_inputs pair ys))"
  shows "xs = ys"
  using assms
proof (induction "length xs" arbitrary: xs ys rule: less_induct)
  case less
  show ?case
  proof (cases "1 < length xs")
    case True
    let ?f = "\<lambda>(a, b). pair a b"
    have ix: "merkle_inputs pair xs
        = pair_up Pair (pad_last xs) @ merkle_inputs pair (merkle_level pair xs)"
      and iy: "merkle_inputs pair ys
        = pair_up Pair (pad_last ys) @ merkle_inputs pair (merkle_level pair ys)"
      using True less.prems(1) by (subst merkle_inputs.simps, simp)+
    have "merkle_level pair xs = merkle_level pair ys"
    proof (rule less.hyps)
      show "length (merkle_level pair xs) < length xs" using True by simp
      show "length (merkle_level pair xs) = length (merkle_level pair ys)"
        using less.prems(1) by simp
      show "merkle_level pair xs \<noteq> []"
        using True by (auto simp flip: length_greater_0_conv)
      show "root (merkle_level pair xs) = root (merkle_level pair ys)"
        using True less.prems by (simp flip: root_level)
      show "inj_on ?f (set (merkle_inputs pair (merkle_level pair xs))
          \<union> set (merkle_inputs pair (merkle_level pair ys)))"
        using less.prems(4) by (rule inj_on_subset) (auto simp: ix iy)
    qed
    then have "pad_last xs = pad_last ys"
      unfolding merkle_level_def
    proof (rule pair_up_inject)
      show "inj_on ?f (set (pair_up Pair (pad_last xs)) \<union> set (pair_up Pair (pad_last ys)))"
        using less.prems(4) by (rule inj_on_subset) (auto simp: ix iy)
    qed (use less.prems(1) in \<open>auto simp: length_pad_last\<close>)
    then show ?thesis using less.prems(1) by (rule pad_last_inject [rotated])
  next
    case False
    with less.prems obtain x y where "xs = [x]" and "ys = [y]"
      by (cases xs; cases ys) auto
    with less.prems(3) show ?thesis by (simp add: root_single)
  qed
qed

end

text \<open>Two schemes related by a map that commutes with pairing have related roots.\<close>

locale merkle_morphism =
  src: merkle_scheme pair root + dst: merkle_scheme pair' root'
  for pair :: "'a \<Rightarrow> 'a \<Rightarrow> 'a" and root :: "'a list \<Rightarrow> 'a option"
    and pair' :: "'b \<Rightarrow> 'b \<Rightarrow> 'b" and root' :: "'b list \<Rightarrow> 'b option" +
  fixes h :: "'a \<Rightarrow> 'b"
  assumes h_pair: "h (pair x y) = pair' (h x) (h y)"
begin

lemma map_level: "map h (merkle_level pair xs) = merkle_level pair' (map h xs)"
  by (simp add: merkle_level_def map_pair_up pad_last_map pair_up_map h_pair)

lemma root_map: "xs \<noteq> [] \<Longrightarrow> map_option h (root xs) = root' (map h xs)"
proof (induction "length xs" arbitrary: xs rule: less_induct)
  case less
  show ?case
  proof (cases "1 < length xs")
    case True
    then have "merkle_level pair xs \<noteq> []" and "length (merkle_level pair xs) < length xs"
      by (auto simp flip: length_greater_0_conv)
    with less have "map_option h (root (merkle_level pair xs))
        = root' (map h (merkle_level pair xs))" by blast
    with True show ?thesis
      by (simp add: src.root_level dst.root_level map_level)
  next
    case False
    with less.prems obtain x where "xs = [x]" by (cases xs) auto
    then show ?thesis by (simp add: src.root_single dst.root_single)
  qed
qed

end

section \<open>The loop is a scheme\<close>

definition loop_root :: "('a \<Rightarrow> 'a \<Rightarrow> 'a) \<Rightarrow> 'a list \<Rightarrow> 'a option" where
  "loop_root f xs = (if xs = [] then None else Some (hd (merkle_loop f xs)))"

lemma loop_root_single [simp]: "loop_root f [x] = Some x"
  by (simp add: loop_root_def merkle_loop_stop)

lemma loop_root_level: "1 < length xs \<Longrightarrow> loop_root f xs = loop_root f (merkle_level f xs)"
proof -
  assume n: "1 < length xs"
  then have "merkle_level f xs \<noteq> []" and "xs \<noteq> []"
    by (auto simp flip: length_greater_0_conv)
  with n show ?thesis by (simp add: loop_root_def merkle_loop_step)
qed

end
