(* ===== verification/Crypto_Laws.thy ===== *)
theory Crypto_Laws
  imports V2V_Prelude
begin

text \<open>
  What the proofs may assume of go-ethereum/crypto, as named predicates on the parameter
  \<open>crypto\<close>, and one concrete instance \<open>demo_crypto\<close> that satisfies them. The instance is used by
  witnesses only.

  \<open>ecdsa_correct\<close>: a signature is not empty and recovers, with the digest that was signed, to the
  signer's public key. \<open>ecdsa_binding\<close>: where one signature recovers to one key with two digests,
  the digests agree modulo the order of the group. ECDSA reads the digest as a number modulo that
  order, and the key recovered from a signature (r, s) is (s R - e G) / r, where e is that number and
  G has that order (SEC 1, section 4.1.6); so it is fixed by the digest modulo the order, and fixes it.
\<close>

text \<open>The order of the group of secp256k1 (SEC 2), the curve of go-ethereum/crypto.\<close>

definition secp256k1_n :: int where
  "secp256k1_n = 115792089237316195423570985008687907852837564279074904382605163141518161494337"

definition same_scalar :: "hash \<Rightarrow> hash \<Rightarrow> bool" where
  "same_scalar h h' \<longleftrightarrow> uint h mod secp256k1_n = uint h' mod secp256k1_n"

definition ecdsa_correct :: "crypto \<Rightarrow> (privkey \<Rightarrow> pubkey) \<Rightarrow> bool" where
  "ecdsa_correct C pub_of \<longleftrightarrow>
     (\<forall>h k s. ecdsa_sign C h k = Some s \<longrightarrow> s \<noteq> [] \<and> sig_to_pub C h s = Some (pub_of k))"

definition ecdsa_binding :: "crypto \<Rightarrow> bool" where
  "ecdsa_binding C \<longleftrightarrow>
     (\<forall>h h' s p. sig_to_pub C h s = Some p \<longrightarrow> sig_to_pub C h' s = Some p \<longrightarrow> same_scalar h h')"

definition scalar_collision :: "crypto \<Rightarrow> bytes \<Rightarrow> bytes \<Rightarrow> bool" where
  "scalar_collision C x y \<longleftrightarrow> x \<noteq> y \<and> same_scalar (keccak256 C x) (keccak256 C y)"

lemma ecdsa_correctD:
  "ecdsa_correct C pub_of \<Longrightarrow> ecdsa_sign C h k = Some s \<Longrightarrow>
     s \<noteq> [] \<and> sig_to_pub C h s = Some (pub_of k)"
  by (simp add: ecdsa_correct_def)

lemma ecdsa_bindingD:
  "ecdsa_binding C \<Longrightarrow> sig_to_pub C h s = Some p \<Longrightarrow> sig_to_pub C h' s = Some p \<Longrightarrow> same_scalar h h'"
  by (auto simp: ecdsa_binding_def)

text \<open>
  The instance: a digest that tells inputs of different lengths apart, signatures that carry the digest and the key,
  addresses that are the last 20 bytes of the key.
\<close>

definition demo_hash :: "bytes \<Rightarrow> hash" where
  "demo_hash bs = of_nat (length bs)"

definition demo_crypto :: crypto where
  "demo_crypto = \<lparr>
     keccak256 = demo_hash,
     sum256 = demo_hash,
     to_ecdsa = (\<lambda>k. if length k = 32 then Some k else None),
     ecdsa_sign = (\<lambda>h k. if length k = 32 then Some (put_be h @ k @ [0]) else None),
     sig_to_pub = (\<lambda>h s. if length s = 65 \<and> take 32 s = put_be h
                         then Some (take 32 (drop 32 s)) else None),
     pubkey_to_address = (\<lambda>p. get_be (drop 12 p))\<rparr>"

lemma demo_correct: "ecdsa_correct demo_crypto (\<lambda>k. k)"
  by (simp add: ecdsa_correct_def demo_crypto_def)

lemma demo_binding: "ecdsa_binding demo_crypto"
  by (simp add: ecdsa_binding_def demo_crypto_def same_scalar_def split: if_splits)

definition demo_key :: privkey where
  "demo_key = replicate 31 0 @ [7]"

definition demo_address :: address where
  "demo_address = 7"

lemma be_nat_replicate_0 [simp]: "be_nat (replicate n 0) = 0"
  by (induction n) (auto simp: be_nat_def)

lemma demo_key_address: "pubkey_to_address demo_crypto demo_key = demo_address"
proof -
  have "drop 12 demo_key = replicate 19 0 @ [7]"
    by (simp add: demo_key_def)
  then have "be_nat (drop 12 demo_key) = 7" by simp
  then show ?thesis by (simp add: demo_crypto_def demo_address_def get_be_def)
qed

end
