(* ===== verification/Chain_Types.thy ===== *)
theory Chain_Types
  imports Go_JSON Merkle_Scheme Crypto_Laws
begin

text \<open>
  The data of the chain (blockchain/types.go, blockchain/hash.go): hashes and addresses with their
  hexadecimal text, headers, transactions and blocks, their wire format, their hashes and
  signatures, and the Merkle root of a block. \<open>Transaction\<close> and \<open>BlockHeader\<close> pointers are taken
  to be non-nil.
\<close>

section \<open>Hashes and addresses\<close>

datatype types_error =
    HexError
  | InvalidHashLength nat
  | InvalidAddressLength nat
  | InsufficientData
  | InvalidDataLength

definition Hash_Bytes :: "hash \<Rightarrow> bytes" where
  "Hash_Bytes h = put_be h"

definition Hash_String :: "hash \<Rightarrow> string" where
  "Hash_String h = hex_encode (put_be h)"

definition HexToHash :: "string \<Rightarrow> types_error + hash" where
  "HexToHash s =
     (case hex_decode s of
        None \<Rightarrow> Inl HexError
      | Some b \<Rightarrow> if length b \<noteq> 32 then Inl (InvalidHashLength (length b)) else Inr (get_be b))"

definition Address_Bytes :: "address \<Rightarrow> bytes" where
  "Address_Bytes a = put_be a"

definition Address_String :: "address \<Rightarrow> string" where
  "Address_String a = hex_encode (put_be a)"

definition HexToAddress :: "string \<Rightarrow> types_error + address" where
  "HexToAddress s =
     (case hex_decode s of
        None \<Rightarrow> Inl HexError
      | Some b \<Rightarrow> if length b \<noteq> 20 then Inl (InvalidAddressLength (length b)) else Inr (get_be b))"

definition Keccak256Hash :: "crypto \<Rightarrow> bytes \<Rightarrow> hash" where
  "Keccak256Hash C data = keccak256 C data"

definition DoubleHash :: "crypto \<Rightarrow> bytes \<Rightarrow> hash" where
  "DoubleHash C data = keccak256 C (put_be (keccak256 C data))"

definition HashItems :: "crypto \<Rightarrow> bytes list \<Rightarrow> hash" where
  "HashItems C items = Keccak256Hash C (concat items)"

definition EmptyHash :: hash where
  "EmptyHash = 0"

definition Hash_IsEmpty :: "hash \<Rightarrow> bool" where
  "Hash_IsEmpty h \<longleftrightarrow> h = 0"

definition Hash_Equals :: "hash \<Rightarrow> hash \<Rightarrow> bool" where
  "Hash_Equals h other \<longleftrightarrow> h = other"

definition Hash_Xor :: "hash \<Rightarrow> hash \<Rightarrow> hash" where
  "Hash_Xor h other = get_be (map2 xor (put_be h) (put_be other))"

lemmas hash_defs = Keccak256Hash_def Hash_IsEmpty_def Hash_Equals_def EmptyHash_def

section \<open>Headers, transactions, blocks\<close>

type_synonym TxType = u8

record header =
  hdr_Hash :: hash
  hdr_PrevHash :: hash
  hdr_Timestamp :: i64
  hdr_MerkleRoot :: hash
  hdr_Validator :: address
  hdr_Signature :: bytes
  hdr_TxCount :: u32
  hdr_Height :: u64
  hdr_Nonce :: u64

record tx =
  tx_Hash :: hash
  tx_From :: address
  tx_To :: address
  tx_Type :: TxType
  tx_Nonce :: u64
  tx_GasPrice :: u64
  tx_GasLimit :: u64
  tx_Value :: u64
  tx_Data :: bytes
  tx_Signature :: bytes
  tx_Timestamp :: i64

record block =
  blk_Header :: header
  blk_Transactions :: "tx list"

definition TxTypeTransfer :: TxType where "TxTypeTransfer = 0"
definition TxTypeRegister :: TxType where "TxTypeRegister = 1"
definition TxTypePlatoonCreate :: TxType where "TxTypePlatoonCreate = 2"
definition TxTypePlatoonJoin :: TxType where "TxTypePlatoonJoin = 3"
definition TxTypePlatoonLeave :: TxType where "TxTypePlatoonLeave = 4"
definition TxTypePlatoonDissolve :: TxType where "TxTypePlatoonDissolve = 5"
definition TxTypeValidatorAdd :: TxType where "TxTypeValidatorAdd = 6"
definition TxTypeValidatorRemove :: TxType where "TxTypeValidatorRemove = 7"
definition TxTypeCertificateUpdate :: TxType where "TxTypeCertificateUpdate = 8"
definition TxTypeMessage :: TxType where "TxTypeMessage = 9"

lemmas TxType_defs = TxTypeTransfer_def TxTypeRegister_def TxTypePlatoonCreate_def
  TxTypePlatoonJoin_def TxTypePlatoonLeave_def TxTypePlatoonDissolve_def TxTypeValidatorAdd_def
  TxTypeValidatorRemove_def TxTypeCertificateUpdate_def TxTypeMessage_def

definition TxType_String :: "TxType \<Rightarrow> string" where
  "TxType_String t =
     (if t = TxTypeTransfer then ''transfer''
      else if t = TxTypeRegister then ''register''
      else if t = TxTypePlatoonCreate then ''platoon_create''
      else if t = TxTypePlatoonJoin then ''platoon_join''
      else if t = TxTypePlatoonLeave then ''platoon_leave''
      else if t = TxTypePlatoonDissolve then ''platoon_dissolve''
      else if t = TxTypeValidatorAdd then ''validator_add''
      else if t = TxTypeValidatorRemove then ''validator_remove''
      else if t = TxTypeCertificateUpdate then ''certificate_update''
      else if t = TxTypeMessage then ''message''
      else ''unknown'')"

section \<open>Wire format of headers\<close>

definition BlockHeader_SerializeWithoutHash :: "header \<Rightarrow> bytes" where
  "BlockHeader_SerializeWithoutHash h =
     put_be (hdr_PrevHash h) @ put_be (hdr_Timestamp h) @ put_be (hdr_MerkleRoot h)
     @ put_be (hdr_Validator h) @ hdr_Signature h @ put_be (hdr_TxCount h)
     @ put_be (hdr_Height h) @ put_be (hdr_Nonce h)"

definition BlockHeader_CalculateHash :: "crypto \<Rightarrow> header \<Rightarrow> hash" where
  "BlockHeader_CalculateHash C h = keccak256 C (BlockHeader_SerializeWithoutHash h)"

definition BlockHeader_Serialize :: "header \<Rightarrow> bytes" where
  "BlockHeader_Serialize h = put_be (hdr_Hash h) @ BlockHeader_SerializeWithoutHash h"

text \<open>
  \<open>data[lo:hi]\<close>, which panics past the end of the slice (the capacity is taken to be the length,
  as for the bytes read from a message or from the database).
\<close>

definition go_slice :: "bytes \<Rightarrow> nat \<Rightarrow> nat \<Rightarrow> bytes outcome" where
  "go_slice data lo hi = (if hi \<le> length data then Done (take (hi - lo) (drop lo data)) else Panic)"

definition BlockHeader_Deserialize :: "bytes \<Rightarrow> (types_error + header) outcome" where
  "BlockHeader_Deserialize data =
     (if length data < 32 then Done (Inl InsufficientData)
      else obind (go_slice data 0 32) (\<lambda>hash.
        obind (go_slice data 32 64) (\<lambda>prev.
        obind (go_slice data 64 72) (\<lambda>ts.
        obind (go_slice data 72 104) (\<lambda>root.
        obind (go_slice data 104 124) (\<lambda>val.
          let sigLen = int (length data) - 124 - 20 in
          if sigLen < 0 then Done (Inl InvalidDataLength)
          else let offset = 124 + nat sigLen in
            obind (go_slice data 124 offset) (\<lambda>sig.
            obind (go_slice data offset (offset + 4)) (\<lambda>cnt.
            obind (go_slice data (offset + 4) (offset + 12)) (\<lambda>hgt.
            obind (go_slice data (offset + 12) (offset + 20)) (\<lambda>non.
              Done (Inr \<lparr>hdr_Hash = get_be hash, hdr_PrevHash = get_be prev,
                hdr_Timestamp = get_be ts, hdr_MerkleRoot = get_be root,
                hdr_Validator = get_be val, hdr_Signature = sig, hdr_TxCount = get_be cnt,
                hdr_Height = get_be hgt, hdr_Nonce = get_be non\<rparr>)))))))))))"

section \<open>Wire format of transactions\<close>

definition Transaction_Serialize :: "tx \<Rightarrow> bytes" where
  "Transaction_Serialize tx =
     put_be (tx_From tx) @ put_be (tx_To tx) @ [tx_Type tx] @ put_be (tx_Nonce tx)
     @ put_be (tx_GasPrice tx) @ put_be (tx_GasLimit tx) @ put_be (tx_Value tx)
     @ put_be (of_nat (length (tx_Data tx)) :: u32) @ tx_Data tx @ put_be (tx_Timestamp tx)"

definition Transaction_CalculateHash :: "crypto \<Rightarrow> tx \<Rightarrow> hash" where
  "Transaction_CalculateHash C tx = keccak256 C (Transaction_Serialize tx)"

datatype sign_error = BadPrivateKey | SignFailed

definition Transaction_Sign :: "crypto \<Rightarrow> tx \<Rightarrow> bytes \<Rightarrow> tx \<times> sign_error option" where
  "Transaction_Sign C tx privKey =
     (let tx' = tx\<lparr>tx_Hash := Transaction_CalculateHash C tx\<rparr> in
      case to_ecdsa C privKey of
        None \<Rightarrow> (tx', Some BadPrivateKey)
      | Some key \<Rightarrow>
          (case ecdsa_sign C (tx_Hash tx') key of
             None \<Rightarrow> (tx', Some SignFailed)
           | Some sig \<Rightarrow> (tx'\<lparr>tx_Signature := sig\<rparr>, None)))"

definition Transaction_VerifySignature :: "crypto \<Rightarrow> tx \<Rightarrow> bool" where
  "Transaction_VerifySignature C tx =
     (if length (tx_Signature tx) = 0 then False
      else case sig_to_pub C (Transaction_CalculateHash C tx) (tx_Signature tx) of
             None \<Rightarrow> False
           | Some pub \<Rightarrow> tx_From tx = pubkey_to_address C pub)"

section \<open>Merkle root of a block\<close>

definition hashPair :: "crypto \<Rightarrow> hash \<Rightarrow> hash \<Rightarrow> hash" where
  "hashPair C left right = sum256 C (put_be left @ put_be right)"

definition CalculateMerkleRoot :: "crypto \<Rightarrow> tx list \<Rightarrow> hash" where
  "CalculateMerkleRoot C txs =
     (if length txs = 0 then 0
      else hd (merkle_loop (\<lambda>l r. sum256 C (put_be l @ put_be r))
                 (map (Transaction_CalculateHash C) txs)))"

section \<open>Blocks\<close>

definition NewBlock :: "crypto \<Rightarrow> i64 \<Rightarrow> u64 \<Rightarrow> hash \<Rightarrow> address \<Rightarrow> tx list \<Rightarrow> block" where
  "NewBlock C now height prevHash validator txs =
     (let h0 = \<lparr>hdr_Hash = 0, hdr_PrevHash = prevHash, hdr_Timestamp = now, hdr_MerkleRoot = 0,
                hdr_Validator = validator, hdr_Signature = [], hdr_TxCount = of_nat (length txs),
                hdr_Height = height, hdr_Nonce = 0\<rparr>;
          h1 = h0\<lparr>hdr_MerkleRoot := CalculateMerkleRoot C txs\<rparr>;
          h2 = h1\<lparr>hdr_Hash := BlockHeader_CalculateHash C h1\<rparr>
      in \<lparr>blk_Header = h2, blk_Transactions = txs\<rparr>)"

definition NewGenesisBlock :: "crypto \<Rightarrow> i64 \<Rightarrow> address \<Rightarrow> block" where
  "NewGenesisBlock C now validator = NewBlock C now 0 0 validator []"

definition Block_Sign :: "crypto \<Rightarrow> block \<Rightarrow> bytes \<Rightarrow> block \<times> sign_error option" where
  "Block_Sign C b privKey =
     (let digest = keccak256 C (BlockHeader_SerializeWithoutHash (blk_Header b)) in
      case to_ecdsa C privKey of
        None \<Rightarrow> (b, Some BadPrivateKey)
      | Some key \<Rightarrow>
          (case ecdsa_sign C digest key of
             None \<Rightarrow> (b, Some SignFailed)
           | Some sig \<Rightarrow>
               (let h1 = (blk_Header b)\<lparr>hdr_Signature := sig\<rparr>;
                    h2 = h1\<lparr>hdr_Hash := BlockHeader_CalculateHash C h1\<rparr>
                in (b\<lparr>blk_Header := h2\<rparr>, None))))"

definition Block_VerifySignature :: "crypto \<Rightarrow> block \<Rightarrow> bool" where
  "Block_VerifySignature C b =
     (let h = blk_Header b in
      if length (hdr_Signature h) = 0 then False
      else case sig_to_pub C (keccak256 C (BlockHeader_SerializeWithoutHash h)) (hdr_Signature h) of
             None \<Rightarrow> False
           | Some pub \<Rightarrow> hdr_Validator h = pubkey_to_address C pub)"

definition Block_BlockSize :: "block \<Rightarrow> nat" where
  "Block_BlockSize b =
     foldl (\<lambda>size tx. size + (length (Transaction_Serialize tx) + length (tx_Signature tx)))
       (length (BlockHeader_Serialize (blk_Header b))) (blk_Transactions b)"

definition Block_IsGenesis :: "block \<Rightarrow> bool" where
  "Block_IsGenesis b \<longleftrightarrow> hdr_Height (blk_Header b) = 0"

section \<open>Lengths\<close>

lemma length_header [simp, bytes_simps]:
  "length (BlockHeader_SerializeWithoutHash h) = 112 + length (hdr_Signature h)"
  by (simp add: BlockHeader_SerializeWithoutHash_def)

lemma length_header_full [simp, bytes_simps]:
  "length (BlockHeader_Serialize h) = 144 + length (hdr_Signature h)"
  by (simp add: BlockHeader_Serialize_def)

lemma length_tx [simp, bytes_simps]:
  "length (Transaction_Serialize tx) = 85 + length (tx_Data tx)"
  by (simp add: Transaction_Serialize_def)

lemma Block_BlockSize_sum:
  "Block_BlockSize b = 144 + length (hdr_Signature (blk_Header b))
     + (\<Sum>tx\<leftarrow>blk_Transactions b. 85 + length (tx_Data tx) + length (tx_Signature tx))"
proof -
  have "foldl (\<lambda>size tx. size + (length (Transaction_Serialize tx) + length (tx_Signature tx))) n txs
      = n + (\<Sum>tx\<leftarrow>txs. 85 + length (tx_Data tx) + length (tx_Signature tx))" for n txs
    by (induction txs arbitrary: n) auto
  then show ?thesis by (simp add: Block_BlockSize_def)
qed

section \<open>Hexadecimal text\<close>

lemma put_be_lengths [simp]:
  "length (put_be (h :: hash)) = 32" "length (put_be (a :: address)) = 20"
  "length (put_be (x :: u64)) = 8" "length (put_be (y :: u32)) = 4"
  by simp_all

lemma get_put_be_fixed [simp]:
  "get_be (put_be (h :: hash)) = h" "get_be (put_be (a :: address)) = a"
  "get_be (put_be (x :: u64)) = x" "get_be (put_be (y :: u32)) = y"
  by (simp_all add: get_put_be)

lemma put_be_inject_fixed [simp]:
  "put_be (h :: hash) = put_be h' \<longleftrightarrow> h = h'" "put_be (a :: address) = put_be a' \<longleftrightarrow> a = a'"
  "put_be (x :: u64) = put_be x' \<longleftrightarrow> x = x'" "put_be (y :: u32) = put_be y' \<longleftrightarrow> y = y'"
  by simp_all

lemma HexToHash_String [simp]: "HexToHash (Hash_String h) = Inr h"
  by (simp add: HexToHash_def Hash_String_def hex_decode_encode)

lemma HexToAddress_String [simp]: "HexToAddress (Address_String a) = Inr a"
  by (simp add: HexToAddress_def Address_String_def hex_decode_encode)

lemma HexToHash_length: "HexToHash s = Inr h \<Longrightarrow> length s = 64"
  by (auto simp: HexToHash_def dest!: hex_decode_length split: option.splits if_splits)

lemma Hash_Xor_bytes: "put_be (Hash_Xor h g) = map2 xor (put_be h) (put_be g)"
  by (simp add: Hash_Xor_def put_get_be)

lemma map2_xor_cancel:
  fixes xs ys :: bytes
  shows "length xs = length ys \<Longrightarrow> map2 xor (map2 xor xs ys) ys = xs"
  by (induction xs ys rule: list_induct2) (auto simp: xor.assoc)

lemma Hash_Xor_cancel: "Hash_Xor (Hash_Xor h g) g = h"
proof -
  have "put_be (Hash_Xor (Hash_Xor h g) g) = put_be h"
    by (simp add: Hash_Xor_bytes map2_xor_cancel)
  then show ?thesis by simp
qed

section \<open>Round trip and injectivity of the wire formats\<close>

lemma BlockHeader_roundtrip: "BlockHeader_Deserialize (BlockHeader_Serialize h) = Done (Inr h)"
  by (simp add: BlockHeader_Deserialize_def BlockHeader_Serialize_def
      BlockHeader_SerializeWithoutHash_def go_slice_def Let_def)

lemma BlockHeader_SerializeWithoutHash_inject:
  assumes "BlockHeader_SerializeWithoutHash h = BlockHeader_SerializeWithoutHash h'"
    and "hdr_Hash h = hdr_Hash h'"
  shows "h = h'"
proof -
  have "BlockHeader_Serialize h = BlockHeader_Serialize h'"
    using assms by (simp add: BlockHeader_Serialize_def)
  then have "Done (Inr h) = (Done (Inr h') :: (types_error + header) outcome)"
    by (metis BlockHeader_roundtrip)
  then show ?thesis by simp
qed

lemma Transaction_Serialize_inject:
  assumes "Transaction_Serialize t = Transaction_Serialize t'"
  shows "tx_From t = tx_From t' \<and> tx_To t = tx_To t' \<and> tx_Type t = tx_Type t'
    \<and> tx_Nonce t = tx_Nonce t' \<and> tx_GasPrice t = tx_GasPrice t' \<and> tx_GasLimit t = tx_GasLimit t'
    \<and> tx_Value t = tx_Value t' \<and> tx_Data t = tx_Data t' \<and> tx_Timestamp t = tx_Timestamp t'"
proof -
  have "length (Transaction_Serialize t) = length (Transaction_Serialize t')"
    using assms by simp
  then have "length (tx_Data t) = length (tx_Data t')" by simp
  with assms show ?thesis by (simp add: Transaction_Serialize_def)
qed


lemma go_slice_Done:
  "go_slice data lo hi = Done x \<longleftrightarrow> hi \<le> length data \<and> x = take (hi - lo) (drop lo data)"
  by (auto simp: go_slice_def)

lemma take_drop_chain:
  "a \<le> b \<Longrightarrow> take (b - a) (drop a xs) @ drop b xs = drop a xs"
  by (metis append_take_drop_id drop_drop le_add_diff_inverse2)

lemma BlockHeader_Deserialize_long:
  assumes "length data = 144 + k"
  shows "BlockHeader_Deserialize data = Done (Inr
    \<lparr>hdr_Hash = get_be (take 32 data), hdr_PrevHash = get_be (take 32 (drop 32 data)),
     hdr_Timestamp = get_be (take 8 (drop 64 data)),
     hdr_MerkleRoot = get_be (take 32 (drop 72 data)),
     hdr_Validator = get_be (take 20 (drop 104 data)),
     hdr_Signature = take k (drop 124 data),
     hdr_TxCount = get_be (take 4 (drop (124 + k) data)),
     hdr_Height = get_be (take 8 (drop (128 + k) data)),
     hdr_Nonce = get_be (drop (136 + k) data)\<rparr>)"
proof -
  have "nat (int (length data) - 124 - 20) = k" and "\<not> int (length data) - 124 - 20 < 0"
    and "take 8 (drop (136 + k) data) = drop (136 + k) data" using assms by simp_all
  then show ?thesis
    using assms by (simp add: BlockHeader_Deserialize_def go_slice_def Let_def add.commute)
qed

lemma BlockHeader_Deserialize_inverse:
  assumes "BlockHeader_Deserialize data = Done (Inr h)"
  shows "data = BlockHeader_Serialize h"
proof -
  have "144 \<le> length data"
    using assms by (auto simp: BlockHeader_Deserialize_def go_slice_def Let_def split: if_splits)
  then obtain k where k: "length data = 144 + k" by (metis le_iff_add)
  have "BlockHeader_Serialize h = take 32 data @ take 32 (drop 32 data) @ take 8 (drop 64 data)
      @ take 32 (drop 72 data) @ take 20 (drop 104 data) @ take k (drop 124 data)
      @ take 4 (drop (124 + k) data) @ take 8 (drop (128 + k) data) @ drop (136 + k) data"
    using assms k unfolding BlockHeader_Deserialize_long [OF k]
    by (auto simp: BlockHeader_Serialize_def BlockHeader_SerializeWithoutHash_def put_get_be)
  also have "take 8 (drop (128 + k) data) @ drop (136 + k) data = drop (128 + k) data"
    using take_drop_chain [of "128 + k" "136 + k" data] by simp
  also have "take 4 (drop (124 + k) data) @ drop (128 + k) data = drop (124 + k) data"
    using take_drop_chain [of "124 + k" "128 + k" data] by simp
  also have "take k (drop 124 data) @ drop (124 + k) data = drop 124 data"
    using take_drop_chain [of 124 "124 + k" data] by simp
  also have "take 20 (drop 104 data) @ drop 124 data = drop 104 data"
    using take_drop_chain [of 104 124 data] by simp
  also have "take 32 (drop 72 data) @ drop 104 data = drop 72 data"
    using take_drop_chain [of 72 104 data] by simp
  also have "take 8 (drop 64 data) @ drop 72 data = drop 64 data"
    using take_drop_chain [of 64 72 data] by simp
  also have "take 32 (drop 32 data) @ drop 64 data = drop 32 data"
    using take_drop_chain [of 32 64 data] by simp
  also have "take 32 data @ drop 32 data = data" by simp
  finally show ?thesis by simp
qed

text \<open>
  C20. The wire format of headers is a bijection: Deserialize returns a header exactly on the bytes
  that Serialize writes for it, so nothing is lost, reordered or accepted twice.
\<close>

theorem header_wire_bijection:
  "BlockHeader_Deserialize data = Done (Inr h) \<longleftrightarrow> data = BlockHeader_Serialize h"
  using BlockHeader_Deserialize_inverse BlockHeader_roundtrip by blast

text \<open>
  What Deserialize does with bytes that are no header: an error below 32 bytes, a run-time
  panic (slice bounds out of range) from 32 to 123 bytes, an error from 124 to 143 bytes, a header
  from 144 bytes on.
\<close>

theorem header_deserialize_errors:
  "(BlockHeader_Deserialize data = Done (Inl InsufficientData) \<longleftrightarrow> length data < 32)
   \<and> (BlockHeader_Deserialize data = Panic \<longleftrightarrow> 32 \<le> length data \<and> length data < 124)
   \<and> (BlockHeader_Deserialize data = Done (Inl InvalidDataLength)
        \<longleftrightarrow> 124 \<le> length data \<and> length data < 144)
   \<and> ((\<exists>h. BlockHeader_Deserialize data = Done (Inr h)) \<longleftrightarrow> 144 \<le> length data)"
proof -
  consider "length data < 32" | "32 \<le> length data" "length data < 124"
    | "124 \<le> length data" "length data < 144" | k where "length data = 144 + k"
    by (metis le_iff_add not_less)
  then show ?thesis
  proof cases
    case (4 k)
    then show ?thesis by (simp add: BlockHeader_Deserialize_long)
  qed (simp_all add: BlockHeader_Deserialize_def go_slice_def Let_def)
qed

section \<open>Signing\<close>

lemma Transaction_Sign_cases:
  assumes "Transaction_Sign C tx privKey = (tx', None)"
  obtains key sig where "to_ecdsa C privKey = Some key"
    and "ecdsa_sign C (Transaction_CalculateHash C tx) key = Some sig"
    and "tx' = tx\<lparr>tx_Hash := Transaction_CalculateHash C tx, tx_Signature := sig\<rparr>"
  using assms by (auto simp: Transaction_Sign_def Let_def split: option.splits)

lemma Transaction_CalculateHash_signed [simp]:
  "Transaction_CalculateHash C (tx\<lparr>tx_Hash := x, tx_Signature := s\<rparr>) = Transaction_CalculateHash C tx"
  by (simp add: Transaction_CalculateHash_def Transaction_Serialize_def)

lemma Block_Sign_cases:
  assumes "Block_Sign C b privKey = (b', None)"
  obtains key sig where "to_ecdsa C privKey = Some key"
    and "ecdsa_sign C (keccak256 C (BlockHeader_SerializeWithoutHash (blk_Header b))) key = Some sig"
    and "hdr_Signature (blk_Header b') = sig"
    and "hdr_Validator (blk_Header b') = hdr_Validator (blk_Header b)"
    and "hdr_Hash (blk_Header b') = BlockHeader_CalculateHash C (blk_Header b')"
    and "blk_Transactions b' = blk_Transactions b"
  using assms by (auto simp: Block_Sign_def Let_def BlockHeader_CalculateHash_def
      BlockHeader_SerializeWithoutHash_def split: option.splits)

text \<open>
  Signing a transaction works: the signed transaction carries its own hash, and its signature
  verifies exactly when the sender field is the address of the signing key.
\<close>

theorem transaction_sign_verify:
  assumes "ecdsa_correct C pub_of" and "Transaction_Sign C tx privKey = (tx', None)"
  shows "\<exists>key. to_ecdsa C privKey = Some key
    \<and> tx_Hash tx' = Transaction_CalculateHash C tx'
    \<and> (Transaction_VerifySignature C tx' \<longleftrightarrow> tx_From tx' = pubkey_to_address C (pub_of key))"
proof -
  from assms(2) obtain key sig where k: "to_ecdsa C privKey = Some key"
    and s: "ecdsa_sign C (Transaction_CalculateHash C tx) key = Some sig"
    and t: "tx' = tx\<lparr>tx_Hash := Transaction_CalculateHash C tx, tx_Signature := sig\<rparr>"
    by (rule Transaction_Sign_cases)
  from ecdsa_correctD [OF assms(1) s] k t show ?thesis
    by (simp add: Transaction_VerifySignature_def)
qed

definition demo_tx :: tx where
  "demo_tx = \<lparr>tx_Hash = 0, tx_From = demo_address, tx_To = 9, tx_Type = TxTypeTransfer,
     tx_Nonce = 1, tx_GasPrice = 2, tx_GasLimit = 3, tx_Value = 4, tx_Data = [1, 2],
     tx_Signature = [], tx_Timestamp = 100\<rparr>"

theorem transaction_sign_verify_witness:
  "\<exists>tx'. Transaction_Sign demo_crypto demo_tx demo_key = (tx', None)
     \<and> Transaction_VerifySignature demo_crypto tx'"
proof -
  obtain tx' where s: "Transaction_Sign demo_crypto demo_tx demo_key = (tx', None)"
    and f: "tx_From tx' = demo_address"
    by (simp add: Transaction_Sign_def demo_crypto_def demo_key_def Let_def demo_tx_def)
  have "pubkey_to_address demo_crypto demo_key = demo_address"
    by (rule demo_key_address)
  then show ?thesis
    using transaction_sign_verify [OF demo_correct s] s f
    by (auto simp: demo_crypto_def split: if_splits)
qed

lemma Block_Sign_rejected:
  assumes "ecdsa_correct C pub_of" and "ecdsa_binding C"
    and "hdr_Signature (blk_Header b) = []"
    and "Block_Sign C b privKey = (b', None)"
    and "\<not> same_scalar (keccak256 C (BlockHeader_SerializeWithoutHash (blk_Header b)))
                      (keccak256 C (BlockHeader_SerializeWithoutHash (blk_Header b')))"
  shows "\<exists>key. to_ecdsa C privKey = Some key
    \<and> sig_to_pub C (keccak256 C (BlockHeader_SerializeWithoutHash (blk_Header b')))
        (hdr_Signature (blk_Header b')) \<noteq> Some (pub_of key)
    \<and> (Block_VerifySignature C b' \<longleftrightarrow>
         (\<exists>p. p \<noteq> pub_of key
            \<and> sig_to_pub C (keccak256 C (BlockHeader_SerializeWithoutHash (blk_Header b')))
                (hdr_Signature (blk_Header b')) = Some p
            \<and> pubkey_to_address C p = hdr_Validator (blk_Header b)))"
proof -
  let ?d = "BlockHeader_SerializeWithoutHash (blk_Header b)"
  let ?d' = "BlockHeader_SerializeWithoutHash (blk_Header b')"
  from assms(4) obtain key sig where k: "to_ecdsa C privKey = Some key"
    and s: "ecdsa_sign C (keccak256 C ?d) key = Some sig"
    and b': "hdr_Signature (blk_Header b') = sig"
      "hdr_Validator (blk_Header b') = hdr_Validator (blk_Header b)"
    by (rule Block_Sign_cases)
  from ecdsa_correctD [OF assms(1) s] have ne: "sig \<noteq> []"
    and r: "sig_to_pub C (keccak256 C ?d) sig = Some (pub_of key)" by auto
  have nr: "sig_to_pub C (keccak256 C ?d') sig \<noteq> Some (pub_of key)"
    using ecdsa_bindingD [OF assms(2) r] assms(5) by blast
  show ?thesis
    using k nr b' ne by (auto simp: Block_VerifySignature_def Let_def split: option.splits)
qed

lemma Block_Sign_longer:
  assumes "ecdsa_correct C pub_of" and "hdr_Signature (blk_Header b) = []" and "Block_Sign C b privKey = (b', None)"
  shows "BlockHeader_SerializeWithoutHash (blk_Header b) \<noteq> BlockHeader_SerializeWithoutHash (blk_Header b')"
proof -
  obtain key sig where s: "ecdsa_sign C (keccak256 C (BlockHeader_SerializeWithoutHash (blk_Header b))) key = Some sig"
    and b': "hdr_Signature (blk_Header b') = sig"
    using assms(3) by (rule Block_Sign_cases)
  have "sig \<noteq> []" using ecdsa_correctD [OF assms(1) s] by simp
  with b' assms(2) have "length (BlockHeader_SerializeWithoutHash (blk_Header b))
      \<noteq> length (BlockHeader_SerializeWithoutHash (blk_Header b'))" by simp
  then show ?thesis by metis
qed

text \<open>
  Signing a block does not work: Sign signs the header bytes without the new signature, and
  VerifySignature hashes the header bytes with it, which are longer. Whenever the digests of the two
  byte strings differ modulo the order of the group, the key that VerifySignature recovers is not the signer's, so the freshly signed
  block is rejected unless another recovered key happens to have the validator's address.
\<close>

theorem block_sign_not_verified:
  assumes "ecdsa_correct C pub_of" and "ecdsa_binding C"
    and "hdr_Signature (blk_Header b) = []"
    and "Block_Sign C b privKey = (b', None)"
    and "\<not> same_scalar (keccak256 C (BlockHeader_SerializeWithoutHash (blk_Header b)))
                      (keccak256 C (BlockHeader_SerializeWithoutHash (blk_Header b')))"
  shows "\<exists>key. to_ecdsa C privKey = Some key
    \<and> sig_to_pub C (keccak256 C (BlockHeader_SerializeWithoutHash (blk_Header b')))
        (hdr_Signature (blk_Header b')) \<noteq> Some (pub_of key)
    \<and> (Block_VerifySignature C b' \<longleftrightarrow>
         (\<exists>p. p \<noteq> pub_of key
            \<and> sig_to_pub C (keccak256 C (BlockHeader_SerializeWithoutHash (blk_Header b')))
                (hdr_Signature (blk_Header b')) = Some p
            \<and> pubkey_to_address C p = hdr_Validator (blk_Header b)))"
  by (rule Block_Sign_rejected [OF assms])

definition demo_block :: block where
  "demo_block = NewBlock demo_crypto 100 1 5 demo_address []"

definition demo_signed :: block where
  "demo_signed = fst (Block_Sign demo_crypto demo_block demo_key)"

lemma demo_signed_facts:
  shows demo_unsigned: "hdr_Signature (blk_Header demo_block) = []"
    and demo_Sign: "Block_Sign demo_crypto demo_block demo_key = (demo_signed, None)"
    and demo_Sign_scalar: "\<not> same_scalar (keccak256 demo_crypto (BlockHeader_SerializeWithoutHash (blk_Header demo_block)))
      (keccak256 demo_crypto (BlockHeader_SerializeWithoutHash (blk_Header demo_signed)))"
    and demo_Sign_unrecovered: "sig_to_pub demo_crypto (keccak256 demo_crypto
      (BlockHeader_SerializeWithoutHash (blk_Header demo_signed))) (hdr_Signature (blk_Header demo_signed)) = None"
proof -
  let ?d = "BlockHeader_SerializeWithoutHash (blk_Header demo_block)"
  let ?d' = "BlockHeader_SerializeWithoutHash (blk_Header demo_signed)"
  have k: "to_ecdsa demo_crypto demo_key = Some demo_key"
    and g: "ecdsa_sign demo_crypto h demo_key = Some (put_be h @ demo_key @ [0])" for h
    by (simp_all add: demo_crypto_def demo_key_def)
  show e: "hdr_Signature (blk_Header demo_block) = []"
    by (simp add: demo_block_def NewBlock_def Let_def)
  show "Block_Sign demo_crypto demo_block demo_key = (demo_signed, None)"
    by (simp add: Block_Sign_def k g Let_def demo_signed_def)
  have sig: "hdr_Signature (blk_Header demo_signed)
      = put_be (keccak256 demo_crypto ?d) @ demo_key @ [0]"
    by (simp add: Block_Sign_def k g Let_def demo_signed_def)
  have ne: "keccak256 demo_crypto ?d \<noteq> keccak256 demo_crypto ?d'"
    using sig by (simp add: demo_crypto_def demo_hash_def e demo_key_def)
  show "\<not> same_scalar (keccak256 demo_crypto ?d) (keccak256 demo_crypto ?d')"
    using sig by (simp add: same_scalar_def secp256k1_n_def demo_crypto_def demo_hash_def e demo_key_def)
  show "sig_to_pub demo_crypto (keccak256 demo_crypto ?d') (hdr_Signature (blk_Header demo_signed)) = None"
    using ne by (simp add: sig) (simp add: demo_crypto_def)
qed

theorem block_sign_not_verified_witness:
  "Block_Sign demo_crypto demo_block demo_key = (demo_signed, None)
   \<and> \<not> Block_VerifySignature demo_crypto demo_signed"
  using block_sign_not_verified [OF demo_correct demo_binding demo_unsigned demo_Sign demo_Sign_scalar]
    demo_Sign demo_Sign_unrecovered by simp

end
