(* ===== verification/KV_Storage.thy ===== *)
theory KV_Storage
  imports V2V_Prelude
begin

text \<open>
  The storage layer (infra/storage/leveldb.go). The LevelDB handle is a parameter, a record of its
  operations over an unknown state type; \<open>db_spec\<close> is what its documentation promises. The wrapper
  translates LevelDB's not-found error, collects batches and writes them in one step.
\<close>

datatype batchOp = opPut bytes bytes | opDelete bytes

type_synonym batch = "batchOp list"

datatype ldb_error = LdbNotFound | LdbOther nat

record 's db =
  db_Put :: "'s \<Rightarrow> bytes \<Rightarrow> bytes \<Rightarrow> 's \<times> ldb_error option"
  db_Get :: "'s \<Rightarrow> bytes \<Rightarrow> ldb_error + bytes"
  db_Delete :: "'s \<Rightarrow> bytes \<Rightarrow> 's \<times> ldb_error option"
  db_Has :: "'s \<Rightarrow> bytes \<Rightarrow> ldb_error + bool"
  db_Write :: "'s \<Rightarrow> batch \<Rightarrow> 's \<times> ldb_error option"

section \<open>LevelDBStorage\<close>

datatype storage_error = ErrNotFound | StorageFailure nat

fun storage_error_of :: "ldb_error \<Rightarrow> storage_error" where
  "storage_error_of LdbNotFound = ErrNotFound"
| "storage_error_of (LdbOther n) = StorageFailure n"

definition Storage_Put :: "'s db \<Rightarrow> 's \<Rightarrow> bytes \<Rightarrow> bytes \<Rightarrow> 's \<times> storage_error option" where
  "Storage_Put L s key value =
     (let (s', e) = db_Put L s key value in (s', map_option storage_error_of e))"

definition Storage_Get :: "'s db \<Rightarrow> 's \<Rightarrow> bytes \<Rightarrow> storage_error + bytes" where
  "Storage_Get L s key =
     (case db_Get L s key of
        Inl LdbNotFound \<Rightarrow> Inl ErrNotFound
      | Inl e \<Rightarrow> Inl (storage_error_of e)
      | Inr v \<Rightarrow> Inr v)"

definition Storage_Delete :: "'s db \<Rightarrow> 's \<Rightarrow> bytes \<Rightarrow> 's \<times> storage_error option" where
  "Storage_Delete L s key =
     (let (s', e) = db_Delete L s key in (s', map_option storage_error_of e))"

definition Storage_Has :: "'s db \<Rightarrow> 's \<Rightarrow> bytes \<Rightarrow> storage_error + bool" where
  "Storage_Has L s key =
     (case db_Has L s key of Inl e \<Rightarrow> Inl (storage_error_of e) | Inr b \<Rightarrow> Inr b)"

definition NewBatch :: batch where
  "NewBatch = []"

definition Batch_Put :: "batch \<Rightarrow> bytes \<Rightarrow> bytes \<Rightarrow> batch" where
  "Batch_Put ops key value = ops @ [opPut key value]"

definition Batch_Delete :: "batch \<Rightarrow> bytes \<Rightarrow> batch" where
  "Batch_Delete ops key = ops @ [opDelete key]"

definition Batch_Reset :: "batch \<Rightarrow> batch" where
  "Batch_Reset ops = []"

definition Batch_Len :: "batch \<Rightarrow> nat" where
  "Batch_Len ops = length ops"

text \<open>WriteBatch copies the operations one by one into a LevelDB batch and writes it.\<close>

definition Storage_WriteBatch :: "'s db \<Rightarrow> 's \<Rightarrow> batch \<Rightarrow> 's \<times> storage_error option" where
  "Storage_WriteBatch L s ops =
     (let ldbBatch = foldl (\<lambda>b op. case op of opPut k v \<Rightarrow> b @ [opPut k v]
                                            | opDelete k \<Rightarrow> b @ [opDelete k]) [] ops;
          (s', e) = db_Write L s ldbBatch
      in (s', map_option storage_error_of e))"

section \<open>Key prefixes\<close>

definition PrefixBlock :: bytes where "PrefixBlock = string_bytes ''b''"
definition PrefixBlockHeader :: bytes where "PrefixBlockHeader = string_bytes ''h''"
definition PrefixBlockHeight :: bytes where "PrefixBlockHeight = string_bytes ''n''"
definition PrefixTransaction :: bytes where "PrefixTransaction = string_bytes ''t''"
definition PrefixState :: bytes where "PrefixState = string_bytes ''s''"
definition PrefixMetadata :: bytes where "PrefixMetadata = string_bytes ''m''"
definition PrefixIdentity :: bytes where "PrefixIdentity = string_bytes ''i''"
definition PrefixPlatoon :: bytes where "PrefixPlatoon = string_bytes ''p''"
definition PrefixAuditLog :: bytes where "PrefixAuditLog = string_bytes ''a''"

lemmas prefix_defs = PrefixBlock_def PrefixBlockHeader_def PrefixBlockHeight_def
  PrefixTransaction_def PrefixState_def PrefixMetadata_def PrefixIdentity_def PrefixPlatoon_def
  PrefixAuditLog_def string_bytes_def

section \<open>What LevelDB promises\<close>

fun apply_op :: "(bytes \<rightharpoonup> bytes) \<Rightarrow> batchOp \<Rightarrow> (bytes \<rightharpoonup> bytes)" where
  "apply_op m (opPut k v) = m(k \<mapsto> v)"
| "apply_op m (opDelete k) = m(k := None)"

definition db_spec :: "'s db \<Rightarrow> ('s \<Rightarrow> (bytes \<rightharpoonup> bytes)) \<Rightarrow> bool" where
  "db_spec L contents \<longleftrightarrow>
     (\<forall>s k. db_Get L s k = (case contents s k of None \<Rightarrow> Inl LdbNotFound | Some v \<Rightarrow> Inr v))
   \<and> (\<forall>s k. db_Has L s k = Inr (contents s k \<noteq> None))
   \<and> (\<forall>s k v s' e. db_Put L s k v = (s', e) \<longrightarrow>
        contents s' = (if e = None then (contents s)(k \<mapsto> v) else contents s))
   \<and> (\<forall>s k s' e. db_Delete L s k = (s', e) \<longrightarrow>
        contents s' = (if e = None then (contents s)(k := None) else contents s))
   \<and> (\<forall>s ops s' e. db_Write L s ops = (s', e) \<longrightarrow>
        contents s' = (if e = None then foldl apply_op (contents s) ops else contents s))"

lemma Storage_Get_spec:
  "db_spec L contents \<Longrightarrow>
     Storage_Get L s k = (case contents s k of None \<Rightarrow> Inl ErrNotFound | Some v \<Rightarrow> Inr v)"
  by (simp add: Storage_Get_def db_spec_def split: option.split)

lemma Storage_Has_spec: "db_spec L contents \<Longrightarrow> Storage_Has L s k = Inr (contents s k \<noteq> None)"
  by (simp add: Storage_Has_def db_spec_def)

lemma Storage_Put_spec:
  "db_spec L contents \<Longrightarrow> Storage_Put L s k v = (s', e) \<Longrightarrow>
     contents s' = (if e = None then (contents s)(k \<mapsto> v) else contents s)"
  unfolding db_spec_def Storage_Put_def by (auto split: prod.splits; metis)

lemma batch_copy: "foldl (\<lambda>b op. case op of opPut k v \<Rightarrow> b @ [opPut k v]
    | opDelete k \<Rightarrow> b @ [opDelete k]) acc ops = acc @ ops"
  by (induction ops arbitrary: acc) (auto split: batchOp.splits)

lemma Storage_WriteBatch_spec:
  "db_spec L contents \<Longrightarrow> Storage_WriteBatch L s ops = (s', e) \<Longrightarrow>
     contents s' = (if e = None then foldl apply_op (contents s) ops else contents s)"
  unfolding db_spec_def Storage_WriteBatch_def batch_copy append_Nil
  by (auto simp: Let_def split: prod.splits; metis)

text \<open>After a batch, the last operation on a key decides; keys of no operation are unchanged.\<close>

fun op_key :: "batchOp \<Rightarrow> bytes" where
  "op_key (opPut k v) = k"
| "op_key (opDelete k) = k"

lemma batch_other: "k \<notin> op_key ` set ops \<Longrightarrow> foldl apply_op m ops k = m k"
proof (induction ops arbitrary: m)
  case (Cons op ops)
  then show ?case by (cases op) auto
qed simp

lemma batch_put_last:
  assumes "k \<notin> op_key ` set after"
  shows "foldl apply_op m (before @ opPut k v # after) k = Some v"
  using batch_other [OF assms] by simp

section \<open>An instance for witnesses\<close>

text \<open>A handle that keeps the map itself and never fails.\<close>

definition map_db :: "(bytes \<rightharpoonup> bytes) db" where
  "map_db = \<lparr>db_Put = (\<lambda>s k v. (s(k \<mapsto> v), None)),
     db_Get = (\<lambda>s k. case s k of None \<Rightarrow> Inl LdbNotFound | Some v \<Rightarrow> Inr v),
     db_Delete = (\<lambda>s k. (s(k := None), None)),
     db_Has = (\<lambda>s k. Inr (s k \<noteq> None)),
     db_Write = (\<lambda>s ops. (foldl apply_op s ops, None))\<rparr>"

lemma map_db_spec: "db_spec map_db (\<lambda>s. s)"
  by (simp add: db_spec_def map_db_def)

end
