(* ===== verification/Block_Storage.thy ===== *)
theory Block_Storage
  imports Chain_Types KV_Storage
begin

text \<open>
  Block storage (blockchain/storage.go): the JSON form of headers, transactions and block bodies,
  the keys under which they are stored, and the operations of \<open>BlockStorage\<close> over the storage layer.
\<close>

section \<open>JSON forms\<close>

fun dec_hash :: "hash decoder" where
  "dec_hash (JStr s) = (case HexToHash s of Inl _ \<Rightarrow> None | Inr h \<Rightarrow> Some h)"
| "dec_hash JNull = None"
| "dec_hash _ = None"

fun dec_address :: "address decoder" where
  "dec_address (JStr s) = (case HexToAddress s of Inl _ \<Rightarrow> None | Inr a \<Rightarrow> Some a)"
| "dec_address JNull = None"
| "dec_address _ = None"

definition enc_hash :: "hash \<Rightarrow> json" where
  "enc_hash h = JStr (Hash_String h)"

definition enc_address :: "address \<Rightarrow> json" where
  "enc_address a = JStr (Address_String a)"

lemma dec_enc_hash [simp]: "dec_hash (enc_hash h) = Some h"
  by (simp add: enc_hash_def)

lemma dec_enc_address [simp]: "dec_address (enc_address a) = Some a"
  by (simp add: enc_address_def)

definition zero_header :: header where
  "zero_header = \<lparr>hdr_Hash = 0, hdr_PrevHash = 0, hdr_Timestamp = 0, hdr_MerkleRoot = 0,
     hdr_Validator = 0, hdr_Signature = [], hdr_TxCount = 0, hdr_Height = 0, hdr_Nonce = 0\<rparr>"

definition enc_header :: "header \<Rightarrow> json" where
  "enc_header h = JObj
     [(''hash'', enc_hash (hdr_Hash h)), (''prev_hash'', enc_hash (hdr_PrevHash h)),
      (''timestamp'', enc_sint (hdr_Timestamp h)), (''merkle_root'', enc_hash (hdr_MerkleRoot h)),
      (''validator'', enc_address (hdr_Validator h)), (''signature'', JB64 (hdr_Signature h)),
      (''tx_count'', enc_uint (hdr_TxCount h)), (''height'', enc_uint (hdr_Height h)),
      (''nonce'', enc_uint (hdr_Nonce h))]"

definition dec_header :: "header decoder" where
  "dec_header j =
     (if j = JNull then Some zero_header else if \<not> is_obj j then None
      else Option.bind (jget j ''hash'' dec_hash 0) (\<lambda>hash.
        Option.bind (jget j ''prev_hash'' dec_hash 0) (\<lambda>prev.
        Option.bind (jget j ''timestamp'' dec_sint 0) (\<lambda>ts.
        Option.bind (jget j ''merkle_root'' dec_hash 0) (\<lambda>root.
        Option.bind (jget j ''validator'' dec_address 0) (\<lambda>val.
        Option.bind (jget j ''signature'' dec_bytes []) (\<lambda>sig.
        Option.bind (jget j ''tx_count'' dec_uint 0) (\<lambda>cnt.
        Option.bind (jget j ''height'' dec_uint 0) (\<lambda>hgt.
        Option.bind (jget j ''nonce'' dec_uint 0) (\<lambda>non.
          Some \<lparr>hdr_Hash = hash, hdr_PrevHash = prev, hdr_Timestamp = ts, hdr_MerkleRoot = root,
            hdr_Validator = val, hdr_Signature = sig, hdr_TxCount = cnt, hdr_Height = hgt,
            hdr_Nonce = non\<rparr>))))))))))"

lemma dec_enc_header [simp]: "dec_header (enc_header h) = Some h"
  by (simp add: dec_header_def enc_header_def jget_def)

definition zero_tx :: tx where
  "zero_tx = \<lparr>tx_Hash = 0, tx_From = 0, tx_To = 0, tx_Type = 0, tx_Nonce = 0, tx_GasPrice = 0,
     tx_GasLimit = 0, tx_Value = 0, tx_Data = [], tx_Signature = [], tx_Timestamp = 0\<rparr>"

definition enc_tx :: "tx \<Rightarrow> json" where
  "enc_tx t = JObj
     [(''hash'', enc_hash (tx_Hash t)), (''from'', enc_address (tx_From t)),
      (''to'', enc_address (tx_To t)), (''type'', enc_uint (tx_Type t)),
      (''nonce'', enc_uint (tx_Nonce t)), (''gas_price'', enc_uint (tx_GasPrice t)),
      (''gas_limit'', enc_uint (tx_GasLimit t)), (''value'', enc_uint (tx_Value t)),
      (''data'', JB64 (tx_Data t)), (''signature'', JB64 (tx_Signature t)),
      (''timestamp'', enc_sint (tx_Timestamp t))]"

definition dec_tx :: "tx decoder" where
  "dec_tx j =
     (if j = JNull then Some zero_tx else if \<not> is_obj j then None
      else Option.bind (jget j ''hash'' dec_hash 0) (\<lambda>hash.
        Option.bind (jget j ''from'' dec_address 0) (\<lambda>from.
        Option.bind (jget j ''to'' dec_address 0) (\<lambda>to.
        Option.bind (jget j ''type'' dec_uint 0) (\<lambda>ty.
        Option.bind (jget j ''nonce'' dec_uint 0) (\<lambda>nonce.
        Option.bind (jget j ''gas_price'' dec_uint 0) (\<lambda>price.
        Option.bind (jget j ''gas_limit'' dec_uint 0) (\<lambda>limit.
        Option.bind (jget j ''value'' dec_uint 0) (\<lambda>val.
        Option.bind (jget j ''data'' dec_bytes []) (\<lambda>data.
        Option.bind (jget j ''signature'' dec_bytes []) (\<lambda>sig.
        Option.bind (jget j ''timestamp'' dec_sint 0) (\<lambda>ts.
          Some \<lparr>tx_Hash = hash, tx_From = from, tx_To = to, tx_Type = ty, tx_Nonce = nonce,
            tx_GasPrice = price, tx_GasLimit = limit, tx_Value = val, tx_Data = data,
            tx_Signature = sig, tx_Timestamp = ts\<rparr>))))))))))))"

lemma dec_enc_tx [simp]: "dec_tx (enc_tx t) = Some t"
  by (simp add: dec_tx_def enc_tx_def jget_def)

text \<open>A block, and a pointer, which \<open>null\<close> leaves nil.\<close>

definition enc_block :: "block \<Rightarrow> json" where
  "enc_block b = JObj [(''header'', enc_header (blk_Header b)),
     (''transactions'', enc_list enc_tx (blk_Transactions b))]"

definition dec_ptr :: "'a decoder \<Rightarrow> 'a option decoder" where
  "dec_ptr dec j = (if j = JNull then Some None else map_option Some (dec j))"

record block_data =
  bd_HeaderHash :: hash
  bd_Transactions :: "tx list"

definition enc_block_data :: "block_data \<Rightarrow> json" where
  "enc_block_data d = JObj [(''header_hash'', enc_hash (bd_HeaderHash d)),
     (''transactions'', enc_list enc_tx (bd_Transactions d))]"

definition dec_block_data :: "block_data decoder" where
  "dec_block_data j =
     (if j = JNull then Some \<lparr>bd_HeaderHash = 0, bd_Transactions = []\<rparr>
      else if \<not> is_obj j then None
      else Option.bind (jget j ''header_hash'' dec_hash 0) (\<lambda>hash.
        Option.bind (jget j ''transactions'' (dec_list dec_tx) []) (\<lambda>txs.
          Some \<lparr>bd_HeaderHash = hash, bd_Transactions = txs\<rparr>)))"

lemma dec_enc_block_data [simp]: "dec_block_data (enc_block_data d) = Some d"
  by (simp add: dec_block_data_def enc_block_data_def jget_def)

section \<open>Operations\<close>

datatype blockstore_error =
    BlockNotFound hash
  | BlockNotFoundAtHeight u64
  | BlockStorageErr storage_error
  | UnmarshalBlock
  | HeaderNotFound storage_error
  | UnmarshalHeader
  | NoBlocksInStore
  | InvalidHeightData
  | TxNotFound hash
  | UnmarshalTx

definition headerKey :: "hash \<Rightarrow> bytes" where
  "headerKey h = PrefixBlockHeader @ put_be h"

definition blockKey :: "hash \<Rightarrow> bytes" where
  "blockKey h = PrefixBlock @ put_be h"

definition heightKey :: "u64 \<Rightarrow> bytes" where
  "heightKey n = PrefixBlockHeight @ put_be n"

definition txKey :: "hash \<Rightarrow> bytes" where
  "txKey h = PrefixTransaction @ put_be h"

definition latestHeightKey :: bytes where
  "latestHeightKey = PrefixMetadata @ string_bytes ''latest_height''"

definition PutBlock :: "json_lib \<Rightarrow> 's db \<Rightarrow> 's \<Rightarrow> block \<Rightarrow> 's \<times> storage_error option" where
  "PutBlock J L s block =
     (let h = blk_Header block;
          b1 = Batch_Put NewBatch (headerKey (hdr_Hash h)) (js_text J (enc_header h));
          blockData = \<lparr>bd_HeaderHash = hdr_Hash h, bd_Transactions = blk_Transactions block\<rparr>;
          b2 = Batch_Put b1 (blockKey (hdr_Hash h)) (js_text J (enc_block_data blockData));
          b3 = Batch_Put b2 (heightKey (hdr_Height h)) (put_be (hdr_Hash h));
          b4 = foldl (\<lambda>b tx. Batch_Put b (txKey (tx_Hash tx)) (js_text J (enc_tx tx)))
                 b3 (blk_Transactions block)
      in Storage_WriteBatch L s b4)"

definition GetBlock :: "json_lib \<Rightarrow> 's db \<Rightarrow> 's \<Rightarrow> hash \<Rightarrow> blockstore_error + block" where
  "GetBlock J L s hash =
     (case Storage_Get L s (blockKey hash) of
        Inl ErrNotFound \<Rightarrow> Inl (BlockNotFound hash)
      | Inl e \<Rightarrow> Inl (BlockStorageErr e)
      | Inr blockData \<Rightarrow>
          (case unmarshal J dec_block_data blockData of
             None \<Rightarrow> Inl UnmarshalBlock
           | Some data \<Rightarrow>
               (case Storage_Get L s (headerKey hash) of
                  Inl e \<Rightarrow> Inl (HeaderNotFound e)
                | Inr headerData \<Rightarrow>
                    (case unmarshal J dec_header headerData of
                       None \<Rightarrow> Inl UnmarshalHeader
                     | Some header \<Rightarrow>
                         Inr \<lparr>blk_Header = header, blk_Transactions = bd_Transactions data\<rparr>))))"

definition BS_GetBlockByHeight ::
  "json_lib \<Rightarrow> 's db \<Rightarrow> 's \<Rightarrow> u64 \<Rightarrow> blockstore_error + block" where
  "BS_GetBlockByHeight J L s height =
     (case Storage_Get L s (heightKey height) of
        Inl ErrNotFound \<Rightarrow> Inl (BlockNotFoundAtHeight height)
      | Inl e \<Rightarrow> Inl (BlockStorageErr e)
      | Inr hashBytes \<Rightarrow> GetBlock J L s (get_be (copy_into 32 hashBytes)))"

definition BS_GetLatestHeight :: "'s db \<Rightarrow> 's \<Rightarrow> blockstore_error + u64" where
  "BS_GetLatestHeight L s =
     (case Storage_Get L s latestHeightKey of
        Inl ErrNotFound \<Rightarrow> Inr 0
      | Inl e \<Rightarrow> Inl (BlockStorageErr e)
      | Inr data \<Rightarrow> if length data \<noteq> 8 then Inl InvalidHeightData else Inr (get_be data))"

definition BS_GetLatestBlock :: "json_lib \<Rightarrow> 's db \<Rightarrow> 's \<Rightarrow> blockstore_error + block" where
  "BS_GetLatestBlock J L s =
     (case BS_GetLatestHeight L s of
        Inl e \<Rightarrow> Inl e
      | Inr height \<Rightarrow> if height = 0 then Inl NoBlocksInStore else BS_GetBlockByHeight J L s height)"

definition SetLatestHeight :: "'s db \<Rightarrow> 's \<Rightarrow> u64 \<Rightarrow> 's \<times> storage_error option" where
  "SetLatestHeight L s height = Storage_Put L s latestHeightKey (put_be height)"

definition BS_GetTransaction :: "json_lib \<Rightarrow> 's db \<Rightarrow> 's \<Rightarrow> hash \<Rightarrow> blockstore_error + tx" where
  "BS_GetTransaction J L s hash =
     (case Storage_Get L s (txKey hash) of
        Inl ErrNotFound \<Rightarrow> Inl (TxNotFound hash)
      | Inl e \<Rightarrow> Inl (BlockStorageErr e)
      | Inr txData \<Rightarrow>
          (case unmarshal J dec_tx txData of None \<Rightarrow> Inl UnmarshalTx | Some tx \<Rightarrow> Inr tx))"

definition BS_HasBlock :: "'s db \<Rightarrow> 's \<Rightarrow> hash \<Rightarrow> bool" where
  "BS_HasBlock L s hash = (case Storage_Has L s (blockKey hash) of Inl _ \<Rightarrow> False | Inr b \<Rightarrow> b)"

definition BS_HasTransaction :: "'s db \<Rightarrow> 's \<Rightarrow> hash \<Rightarrow> bool" where
  "BS_HasTransaction L s hash = (case Storage_Has L s (txKey hash) of Inl _ \<Rightarrow> False | Inr b \<Rightarrow> b)"

section \<open>Keys never clash\<close>

lemmas key_defs = headerKey_def blockKey_def heightKey_def txKey_def latestHeightKey_def

lemma keys_inject [simp]:
  "headerKey h = headerKey h' \<longleftrightarrow> h = h'" "blockKey h = blockKey h' \<longleftrightarrow> h = h'"
  "heightKey n = heightKey n' \<longleftrightarrow> n = n'" "txKey h = txKey h' \<longleftrightarrow> h = h'"
  by (simp_all add: key_defs)

lemma keys_distinct [simp]:
  "headerKey h \<noteq> blockKey h'" "headerKey h \<noteq> heightKey n" "headerKey h \<noteq> txKey h'"
  "headerKey h \<noteq> latestHeightKey" "blockKey h \<noteq> heightKey n" "blockKey h \<noteq> txKey h'"
  "blockKey h \<noteq> latestHeightKey" "heightKey n \<noteq> txKey h" "heightKey n \<noteq> latestHeightKey"
  "txKey h \<noteq> latestHeightKey"
  by (simp_all add: key_defs prefix_defs)

lemmas keys_distinct' [simp] = keys_distinct [symmetric]

section \<open>Effect of the operations on the contents of the store\<close>

definition PutBlock_ops :: "json_lib \<Rightarrow> block \<Rightarrow> batch" where
  "PutBlock_ops J b =
     [opPut (headerKey (hdr_Hash (blk_Header b))) (js_text J (enc_header (blk_Header b))),
      opPut (blockKey (hdr_Hash (blk_Header b))) (js_text J (enc_block_data
        \<lparr>bd_HeaderHash = hdr_Hash (blk_Header b), bd_Transactions = blk_Transactions b\<rparr>)),
      opPut (heightKey (hdr_Height (blk_Header b))) (put_be (hdr_Hash (blk_Header b)))]
     @ map (\<lambda>tx. opPut (txKey (tx_Hash tx)) (js_text J (enc_tx tx))) (blk_Transactions b)"

lemma PutBlock_batch: "PutBlock J L s b = Storage_WriteBatch L s (PutBlock_ops J b)"
proof -
  have "foldl (\<lambda>b tx. Batch_Put b (txKey (tx_Hash tx)) (js_text J (enc_tx tx))) acc txs
      = acc @ map (\<lambda>tx. opPut (txKey (tx_Hash tx)) (js_text J (enc_tx tx))) txs" for acc txs
    by (induction txs arbitrary: acc) (auto simp: Batch_Put_def)
  then show ?thesis
    by (simp add: PutBlock_def PutBlock_ops_def Batch_Put_def NewBatch_def Let_def)
qed

lemma foldl_apply_puts:
  "foldl apply_op m (map (\<lambda>x. opPut (kf x) (vf x)) xs) k
     = (case find (\<lambda>x. kf x = k) (rev xs) of None \<Rightarrow> m k | Some x \<Rightarrow> Some (vf x))"
  by (induction xs rule: rev_induct) (auto)

lemma find_False [simp]: "find (\<lambda>x. False) xs = None"
  by (induction xs) auto

lemma PutBlock_contents:
  assumes "db_spec L contents" and "PutBlock J L s b = (s', None)"
  shows "contents s' (headerKey h) = (if h = hdr_Hash (blk_Header b)
           then Some (js_text J (enc_header (blk_Header b))) else contents s (headerKey h))"
    and "contents s' (blockKey h) = (if h = hdr_Hash (blk_Header b)
           then Some (js_text J (enc_block_data
             \<lparr>bd_HeaderHash = hdr_Hash (blk_Header b), bd_Transactions = blk_Transactions b\<rparr>))
           else contents s (blockKey h))"
    and "contents s' (heightKey n) = (if n = hdr_Height (blk_Header b)
           then Some (put_be (hdr_Hash (blk_Header b))) else contents s (heightKey n))"
    and "contents s' (txKey h) = (case find (\<lambda>tx. tx_Hash tx = h) (rev (blk_Transactions b)) of
           None \<Rightarrow> contents s (txKey h) | Some tx \<Rightarrow> Some (js_text J (enc_tx tx)))"
    and "contents s' latestHeightKey = contents s latestHeightKey"
  using Storage_WriteBatch_spec [OF assms(1), of s "PutBlock_ops J b" s' None] assms(2)
  by (simp_all add: PutBlock_batch PutBlock_ops_def foldl_apply_puts split: option.split)

lemma PutBlock_failed:
  assumes "db_spec L contents" and "PutBlock J L s b = (s', Some e)"
  shows "contents s' = contents s"
  using Storage_WriteBatch_spec [OF assms(1), of s "PutBlock_ops J b" s' "Some e"] assms(2)
  by (simp add: PutBlock_batch)

lemma GetBlock_cong:
  assumes "db_spec L contents" and "contents s' (blockKey h) = contents s (blockKey h)"
    and "contents s' (headerKey h) = contents s (headerKey h)"
  shows "GetBlock J L s' h = GetBlock J L s h"
  unfolding GetBlock_def Storage_Get_spec [OF assms(1)] assms(2,3) ..

lemma GetBlock_PutBlock:
  assumes "db_spec L contents" and "json_ok J" and "PutBlock J L s b = (s', None)"
  shows "GetBlock J L s' h = (if h = hdr_Hash (blk_Header b) then Inr b else GetBlock J L s h)"
proof (cases "h = hdr_Hash (blk_Header b)")
  case True
  from PutBlock_contents(1,2) [OF assms(1,3), of "hdr_Hash (blk_Header b)"]
  show ?thesis
    unfolding True GetBlock_def by (simp add: Storage_Get_spec [OF assms(1)] assms(2))
next
  case False
  with PutBlock_contents(1,2) [OF assms(1,3), of h]
  have "GetBlock J L s' h = GetBlock J L s h"
    by (intro GetBlock_cong [OF assms(1)]) simp_all
  with False show ?thesis by simp
qed

lemma GetBlockByHeight_PutBlock_same:
  assumes "db_spec L contents" and "json_ok J" and "PutBlock J L s b = (s', None)"
  shows "BS_GetBlockByHeight J L s' (hdr_Height (blk_Header b)) = Inr b"
  using PutBlock_contents(3) [OF assms(1,3), of "hdr_Height (blk_Header b)"]
    GetBlock_PutBlock [OF assms, of "hdr_Hash (blk_Header b)"]
  by (simp add: BS_GetBlockByHeight_def Storage_Get_spec [OF assms(1)])

lemma GetBlockByHeight_PutBlock_other:
  assumes "db_spec L contents" and "json_ok J" and "PutBlock J L s b = (s', None)"
    and "n \<noteq> hdr_Height (blk_Header b)"
    and "contents s (heightKey n) \<noteq> Some (put_be (hdr_Hash (blk_Header b)))"
    and "\<And>v. contents s (heightKey n) = Some v \<Longrightarrow> length v = 32"
  shows "BS_GetBlockByHeight J L s' n = BS_GetBlockByHeight J L s n"
proof (cases "contents s (heightKey n)")
  case (Some v)
  with assms(6) have "length v = 32" by blast
  then have "put_be (get_be v :: hash) = v" by (intro put_get_be) simp_all
  with assms(5) Some have "(get_be v :: hash) \<noteq> hdr_Hash (blk_Header b)" by metis
  with Some \<open>length v = 32\<close> assms(4) show ?thesis
    using PutBlock_contents(3) [OF assms(1,3)] GetBlock_PutBlock [OF assms(1-3)]
    by (simp add: BS_GetBlockByHeight_def Storage_Get_spec [OF assms(1)])
qed (use PutBlock_contents(3) [OF assms(1,3)] assms(4) in
      \<open>simp add: BS_GetBlockByHeight_def Storage_Get_spec [OF assms(1)]\<close>)

text \<open>The value under the hash of a transaction is the last one in the block that has it.\<close>

lemma GetTransaction_PutBlock_last:
  assumes "db_spec L contents" and "json_ok J" and "PutBlock J L s b = (s', None)"
    and "blk_Transactions b = xs @ t # ys" and "tx_Hash t \<notin> tx_Hash ` set ys"
  shows "BS_GetTransaction J L s' (tx_Hash t) = Inr t"
proof -
  have last: "find P (zs @ t # ws) = Some t" if "P t" "\<forall>z \<in> set zs. \<not> P z" for P zs ws
    using that by (induction zs) auto
  have "\<forall>z \<in> set (rev ys). tx_Hash z \<noteq> tx_Hash t" using assms(5) by (auto simp: image_iff)
  then have "find (\<lambda>tx. tx_Hash tx = tx_Hash t) (rev (blk_Transactions b)) = Some t"
    unfolding assms(4) rev_append rev.simps append_assoc append_Cons append_Nil by (intro last) simp_all
  with PutBlock_contents(4) [OF assms(1,3), of "tx_Hash t"] assms(2) show ?thesis
    by (simp add: BS_GetTransaction_def Storage_Get_spec [OF assms(1)])
qed

text \<open>No other key changes.\<close>

lemma PutBlock_frame:
  assumes "db_spec L contents" and "PutBlock J L s b = (s', None)"
    and "k \<notin> {headerKey (hdr_Hash (blk_Header b)), blockKey (hdr_Hash (blk_Header b)),
      heightKey (hdr_Height (blk_Header b))} \<union> (\<lambda>t. txKey (tx_Hash t)) ` set (blk_Transactions b)"
  shows "contents s' k = contents s k"
proof -
  have "find (\<lambda>t. txKey (tx_Hash t) = k) (rev (blk_Transactions b)) = None"
    using assms(3) by (auto simp: find_None_iff)
  with Storage_WriteBatch_spec [OF assms(1), of s "PutBlock_ops J b" s' None] assms(2,3) show ?thesis
    by (simp add: PutBlock_batch PutBlock_ops_def foldl_apply_puts)
qed

lemma GetLatestHeight_Set:
  assumes "db_spec L contents" and "SetLatestHeight L s n = (s', None)"
  shows "BS_GetLatestHeight L s' = Inr n"
  using Storage_Put_spec [OF assms(1) assms(2) [unfolded SetLatestHeight_def]]
  by (simp add: BS_GetLatestHeight_def Storage_Get_spec [OF assms(1)])

lemma SetLatestHeight_frame:
  assumes "db_spec L contents" and "SetLatestHeight L s n = (s', e)" and "k \<noteq> latestHeightKey"
  shows "contents s' k = contents s k"
  using Storage_Put_spec [OF assms(1) assms(2) [unfolded SetLatestHeight_def]] assms(3) by simp

section \<open>Properties\<close>

text \<open>
  C11. A stored block is read back unchanged, by hash, by height and transaction by transaction; of several
  transactions in it with the same hash the last one is read back. Nothing else changes: every key of the store other
  than the header, the block, the height and the transactions of this block has the value it had, so every other
  block, height entry and transaction and the recorded chain height are read as before. A failed write changes nothing.
\<close>

theorem put_get_block:
  assumes "db_spec L contents" and "json_ok J" and "PutBlock J L s b = (s', e)"
    and "own = {headerKey (hdr_Hash (blk_Header b)), blockKey (hdr_Hash (blk_Header b)),
      heightKey (hdr_Height (blk_Header b))} \<union> (\<lambda>t. txKey (tx_Hash t)) ` set (blk_Transactions b)"
  shows "if e = None
    then GetBlock J L s' (hdr_Hash (blk_Header b)) = Inr b
      \<and> BS_GetBlockByHeight J L s' (hdr_Height (blk_Header b)) = Inr b
      \<and> (\<forall>xs t ys. blk_Transactions b = xs @ t # ys \<longrightarrow> tx_Hash t \<notin> tx_Hash ` set ys \<longrightarrow>
           BS_GetTransaction J L s' (tx_Hash t) = Inr t)
      \<and> (\<forall>h. h \<noteq> hdr_Hash (blk_Header b) \<longrightarrow> GetBlock J L s' h = GetBlock J L s h)
      \<and> (\<forall>h. h \<notin> tx_Hash ` set (blk_Transactions b) \<longrightarrow> BS_GetTransaction J L s' h = BS_GetTransaction J L s h)
      \<and> BS_GetLatestHeight L s' = BS_GetLatestHeight L s
      \<and> (\<forall>k. k \<notin> own \<longrightarrow> contents s' k = contents s k)
    else contents s' = contents s"
proof (cases e)
  case None
  with assms(3) have p: "PutBlock J L s b = (s', None)" by simp
  have "BS_GetTransaction J L s' (tx_Hash t) = Inr t"
    if "blk_Transactions b = xs @ t # ys" and "tx_Hash t \<notin> tx_Hash ` set ys" for xs t ys
    using that GetTransaction_PutBlock_last [OF assms(1,2) p] by blast
  moreover have "BS_GetTransaction J L s' h = BS_GetTransaction J L s h" if "h \<notin> tx_Hash ` set (blk_Transactions b)" for h
  proof -
    have "contents s' (txKey h) = contents s (txKey h)" using that by (intro PutBlock_frame [OF assms(1) p]) auto
    then show ?thesis unfolding BS_GetTransaction_def Storage_Get_spec [OF assms(1)] by simp
  qed
  moreover have "BS_GetLatestHeight L s' = BS_GetLatestHeight L s"
    using PutBlock_contents(5) [OF assms(1) p] by (simp add: BS_GetLatestHeight_def Storage_Get_spec [OF assms(1)])
  moreover have "\<forall>k. k \<notin> own \<longrightarrow> contents s' k = contents s k"
    using PutBlock_frame [OF assms(1) p] unfolding assms(4) by blast
  ultimately show ?thesis
    using GetBlock_PutBlock [OF assms(1,2) p] GetBlockByHeight_PutBlock_same [OF assms(1,2) p] None by simp
next
  case (Some x)
  with PutBlock_failed [OF assms(1)] assms(3) show ?thesis by simp
qed

theorem put_get_block_witness:
  "\<exists>s'. PutBlock demo_json map_db [latestHeightKey \<mapsto> put_be (7 :: u64)] (demo_block\<lparr>blk_Transactions := [demo_tx]\<rparr>) = (s', None)
     \<and> GetBlock demo_json map_db s' (hdr_Hash (blk_Header demo_block)) = Inr (demo_block\<lparr>blk_Transactions := [demo_tx]\<rparr>)
     \<and> BS_GetTransaction demo_json map_db s' (tx_Hash demo_tx) = Inr demo_tx
     \<and> s' latestHeightKey = Some (put_be (7 :: u64))"
proof -
  let ?s = "[latestHeightKey \<mapsto> put_be (7 :: u64)]" and ?b = "demo_block\<lparr>blk_Transactions := [demo_tx]\<rparr>"
  obtain s' where p: "PutBlock demo_json map_db ?s ?b = (s', None)"
    by (simp add: PutBlock_batch Storage_WriteBatch_def map_db_def Let_def)
  show ?thesis
    using put_get_block [OF map_db_spec demo_json_ok p refl] p
    by (intro exI [of _ s']) (auto dest: spec [of _ "[]"])
qed

end
