(* ===== verification/Hash_Chain.thy ===== *)
theory Hash_Chain
  imports V2V_Prelude
begin

text \<open>
  Hash-linked sequences: the contract shared by the block chain, the header chain of the light
  client and the audit log of the state service. \<open>linked\<close> says that each item names the digest of
  the one before it; the locale shows that the digest of the last item then determines the whole
  sequence as long as the hash function has no collision among the items compared.
\<close>

fun linked :: "('b \<Rightarrow> 'h) \<Rightarrow> ('b \<Rightarrow> 'h) \<Rightarrow> 'b list \<Rightarrow> bool" where
  "linked digest prev [] = True"
| "linked digest prev [b] = True"
| "linked digest prev (a # b # bs) = (prev b = digest a \<and> linked digest prev (b # bs))"

lemma linked_snoc:
  "linked digest prev (bs @ [b])
     \<longleftrightarrow> linked digest prev bs \<and> (bs \<noteq> [] \<longrightarrow> prev b = digest (last bs))"
  by (induction bs rule: induct_list012) auto

lemma linked_cong:
  "(\<And>b. b \<in> set bs \<Longrightarrow> digest b = digest' b) \<Longrightarrow> linked digest prev bs = linked digest' prev bs"
  by (induction bs rule: induct_list012) auto

lemma linked_map: "linked digest prev (map f bs) = linked (digest \<circ> f) (prev \<circ> f) bs"
  by (induction bs rule: induct_list012) auto

lemma linked_tl: "linked digest prev bs \<Longrightarrow> linked digest prev (tl bs)"
  by (cases "(digest, prev, bs)" rule: linked.cases) auto

lemma linked_drop: "linked digest prev bs \<Longrightarrow> linked digest prev (drop n bs)"
  by (induction n arbitrary: bs) (simp_all add: drop_Suc linked_tl)

lemma linked_nth:
  "linked digest prev bs \<Longrightarrow> Suc i < length bs \<Longrightarrow> prev (bs ! Suc i) = digest (bs ! i)"
proof (induction bs arbitrary: i rule: induct_list012)
  case (3 x y zs)
  then show ?case by (cases i) auto
qed auto

locale hash_chain =
  fixes H :: "'c \<Rightarrow> 'h"
    and content :: "'b \<Rightarrow> 'c"
    and digest :: "'b \<Rightarrow> 'h"
    and prev :: "'b \<Rightarrow> 'h"
  assumes digest_content: "digest b = H (content b)"
    and prev_content: "content a = content b \<Longrightarrow> prev a = prev b"
begin

lemma tamper_evident:
  assumes "length xs = length ys" and "linked digest prev xs" and "linked digest prev ys"
    and "xs \<noteq> [] \<Longrightarrow> digest (last xs) = digest (last ys)"
    and "inj_on H (content ` (set xs \<union> set ys))"
  shows "map content xs = map content ys"
  using assms
proof (induction xs arbitrary: ys rule: rev_induct)
  case (snoc x xs)
  then obtain y ys' where ys: "ys = ys' @ [y]"
    by (cases ys rule: rev_cases) auto
  from snoc.prems(4) ys have "H (content x) = H (content y)"
    by (simp add: digest_content)
  then have c: "content x = content y"
    by (intro inj_onD [OF snoc.prems(5)]) (simp_all add: ys)
  have "map content xs = map content ys'"
  proof (rule snoc.IH)
    assume "xs \<noteq> []"
    then show "digest (last xs) = digest (last ys')"
      using snoc.prems(1-3) ys prev_content [OF c] by (auto simp: linked_snoc)
  next
    show "inj_on H (content ` (set xs \<union> set ys'))"
      using snoc.prems(5) unfolding ys by (rule inj_on_subset) auto
  qed (use snoc.prems(1-3) ys in \<open>auto simp: linked_snoc\<close>)
  with c ys show ?case by simp
qed simp

end

end
