(* ===== verification/Chain.thy ===== *)
theory Chain
  imports Block_Storage Hash_Chain
begin

text \<open>
  The block chain (blockchain/chain.go): the chain head kept in memory over the block store, and the
  validation of a block before it is appended. The read/write lock \<open>bc.mu\<close> is part of the state, so
  that a call that waits for a lock its own goroutine holds is the outcome \<open>Blocked\<close>.
\<close>

section \<open>State\<close>

record chain_config =
  cc_MaxBlockSize :: int
  cc_MaxTxPerBlock :: int
  cc_GenesisBlock :: bool

record 's blockchain =
  bc_config :: chain_config
  bc_store :: 's
  bc_latestHash :: hash
  bc_latestHeight :: u64
  bc_mu :: rwlock

datatype chain_tx_error = TxExists | TxBadHash | TxBadSignature

datatype chain_error =
    StoreErr blockstore_error
  | PutErr storage_error
  | BlockExists
  | InvalidBlockHeight u64 u64
  | InvalidPrevHash
  | InvalidBlockHash
  | InvalidBlockSignature
  | InvalidTx nat chain_tx_error
  | InvalidMerkleRoot
  | BlockTooBig int int
  | TooManyTxs int int
  | NoBlocksInChain
  | InvalidRange
  | RangeErr u64 blockstore_error

section \<open>Locking\<close>

text \<open>\<open>mu.RLock(); defer mu.RUnlock()\<close> and \<open>mu.Lock(); defer mu.Unlock()\<close> around a body.\<close>

definition bc_with_RLock :: "'s blockchain \<Rightarrow> ('s blockchain \<Rightarrow> 'a outcome) \<Rightarrow> 'a outcome" where
  "bc_with_RLock bc f =
     (case rw_RLock (bc_mu bc) of None \<Rightarrow> Blocked | Some l \<Rightarrow> f (bc\<lparr>bc_mu := l\<rparr>))"

definition bc_with_Lock ::
  "'s blockchain \<Rightarrow> ('s blockchain \<Rightarrow> ('s blockchain \<times> 'a) outcome) \<Rightarrow> ('s blockchain \<times> 'a) outcome"
where
  "bc_with_Lock bc f =
     (case rw_Lock (bc_mu bc) of
        None \<Rightarrow> Blocked
      | Some l \<Rightarrow> obind (f (bc\<lparr>bc_mu := l\<rparr>))
                    (\<lambda>(bc', r). Done (bc'\<lparr>bc_mu := rw_Unlock (bc_mu bc')\<rparr>, r)))"

section \<open>Reading\<close>

definition GetBlockByHash ::
  "json_lib \<Rightarrow> 's db \<Rightarrow> 's blockchain \<Rightarrow> hash \<Rightarrow> (blockstore_error + block) outcome" where
  "GetBlockByHash J L bc hash = bc_with_RLock bc (\<lambda>bc. Done (GetBlock J L (bc_store bc) hash))"

definition GetBlockByHeight ::
  "json_lib \<Rightarrow> 's db \<Rightarrow> 's blockchain \<Rightarrow> u64 \<Rightarrow> (blockstore_error + block) outcome" where
  "GetBlockByHeight J L bc height =
     bc_with_RLock bc (\<lambda>bc. Done (BS_GetBlockByHeight J L (bc_store bc) height))"

definition GetLatestBlock ::
  "json_lib \<Rightarrow> 's db \<Rightarrow> 's blockchain \<Rightarrow> (chain_error + block) outcome" where
  "GetLatestBlock J L bc = bc_with_RLock bc (\<lambda>bc.
     if bc_latestHeight bc = 0 then Done (Inl NoBlocksInChain)
     else obind (GetBlockByHeight J L bc (bc_latestHeight bc))
            (\<lambda>r. Done (map_sum StoreErr id r)))"

definition GetLatestHeight :: "'s blockchain \<Rightarrow> u64 outcome" where
  "GetLatestHeight bc = bc_with_RLock bc (\<lambda>bc. Done (bc_latestHeight bc))"

definition GetLatestHash :: "'s blockchain \<Rightarrow> hash outcome" where
  "GetLatestHash bc = bc_with_RLock bc (\<lambda>bc. Done (bc_latestHash bc))"

definition GetTransaction ::
  "json_lib \<Rightarrow> 's db \<Rightarrow> 's blockchain \<Rightarrow> hash \<Rightarrow> (blockstore_error + tx) outcome" where
  "GetTransaction J L bc hash =
     bc_with_RLock bc (\<lambda>bc. Done (BS_GetTransaction J L (bc_store bc) hash))"

definition HasBlock :: "json_lib \<Rightarrow> 's db \<Rightarrow> 's blockchain \<Rightarrow> hash \<Rightarrow> bool outcome" where
  "HasBlock J L bc hash = obind (GetBlockByHash J L bc hash) (\<lambda>r. Done (is_Inr r))"

definition GetBlockCount :: "'s blockchain \<Rightarrow> u64 outcome" where
  "GetBlockCount bc = GetLatestHeight bc"

definition chain_IsEmpty :: "'s blockchain \<Rightarrow> bool outcome" where
  "chain_IsEmpty bc = obind (GetLatestHeight bc) (\<lambda>h. Done (h = 0))"

text \<open>
  The loop of \<open>GetBlocksRange\<close> counts an unsigned height up to \<open>end\<close>; for \<open>end = 2^64-1\<close> the
  comparison never fails, so not returning is the value \<open>None\<close>. \<open>make\<close> panics when the requested
  capacity exceeds the address space: \<open>maxAlloc\<close> is \<open>2^48\<close> bytes on linux/amd64, a pointer has 8.
\<close>

definition make_ptrs_ok :: "u64 \<Rightarrow> bool" where
  "make_ptrs_ok n \<longleftrightarrow> 8 * unat n \<le> 2 ^ 48"

partial_function (option) range_loop ::
  "(u64 \<Rightarrow> (blockstore_error + block) outcome) \<Rightarrow> u64 \<Rightarrow> u64 \<Rightarrow> block list
     \<Rightarrow> (chain_error + block list) outcome option" where
  "range_loop get height stop blocks =
     (if height \<le> stop
      then (case get height of
              Blocked \<Rightarrow> Some Blocked
            | Panic \<Rightarrow> Some Panic
            | Done (Inl e) \<Rightarrow> Some (Done (Inl (RangeErr height e)))
            | Done (Inr b) \<Rightarrow> range_loop get (height + 1) stop (blocks @ [b]))
      else Some (Done (Inr blocks)))"

definition GetBlocksRange ::
  "json_lib \<Rightarrow> 's db \<Rightarrow> 's blockchain \<Rightarrow> u64 \<Rightarrow> u64
     \<Rightarrow> (chain_error + block list) outcome option" where
  "GetBlocksRange J L bc start stop =
     (case rw_RLock (bc_mu bc) of
        None \<Rightarrow> Some Blocked
      | Some l \<Rightarrow>
          (let bc = bc\<lparr>bc_mu := l\<rparr> in
           if stop < start then Some (Done (Inl InvalidRange))
           else let stop = (if bc_latestHeight bc < stop then bc_latestHeight bc else stop) in
             if \<not> make_ptrs_ok (stop - start + 1) then Some Panic
             else range_loop (GetBlockByHeight J L bc) start stop []))"

definition CreateBlock ::
  "crypto \<Rightarrow> i64 \<Rightarrow> 's blockchain \<Rightarrow> tx list \<Rightarrow> address \<Rightarrow> block outcome" where
  "CreateBlock C now bc txs validator =
     bc_with_RLock bc (\<lambda>bc.
       Done (NewBlock C now (bc_latestHeight bc + 1) (bc_latestHash bc) validator txs))"

section \<open>Validating and appending\<close>

definition Blockchain_validateTransaction ::
  "crypto \<Rightarrow> json_lib \<Rightarrow> 's db \<Rightarrow> 's blockchain \<Rightarrow> tx \<Rightarrow> chain_tx_error option outcome" where
  "Blockchain_validateTransaction C J L bc tx =
     obind (GetTransaction J L bc (tx_Hash tx)) (\<lambda>r.
       if is_Inr r then Done (Some TxExists)
       else if \<not> Hash_Equals (Transaction_CalculateHash C tx) (tx_Hash tx) then Done (Some TxBadHash)
       else if 0 < length (tx_Signature tx) \<and> \<not> Transaction_VerifySignature C tx
         then Done (Some TxBadSignature)
       else Done None)"

fun validateTxs ::
  "crypto \<Rightarrow> json_lib \<Rightarrow> 's db \<Rightarrow> 's blockchain \<Rightarrow> nat \<Rightarrow> tx list \<Rightarrow> chain_error option outcome" where
  "validateTxs C J L bc i [] = Done None"
| "validateTxs C J L bc i (tx # txs) =
     obind (Blockchain_validateTransaction C J L bc tx) (\<lambda>r.
       case r of Some e \<Rightarrow> Done (Some (InvalidTx i e))
       | None \<Rightarrow> validateTxs C J L bc (Suc i) txs)"

definition validateBlock ::
  "crypto \<Rightarrow> json_lib \<Rightarrow> 's db \<Rightarrow> 's blockchain \<Rightarrow> block \<Rightarrow> chain_error option outcome" where
  "validateBlock C J L bc block =
     (let h = blk_Header block in
      obind (GetBlockByHash J L bc (hdr_Hash h)) (\<lambda>r.
      if is_Inr r then Done (Some BlockExists)
      else let expectedHeight = bc_latestHeight bc + 1 in
      if hdr_Height h \<noteq> expectedHeight
        then Done (Some (InvalidBlockHeight expectedHeight (hdr_Height h)))
      else if 1 < hdr_Height h \<and> \<not> Hash_Equals (hdr_PrevHash h) (bc_latestHash bc)
        then Done (Some InvalidPrevHash)
      else if \<not> Hash_Equals (BlockHeader_CalculateHash C h) (hdr_Hash h)
        then Done (Some InvalidBlockHash)
      else if 0 < length (hdr_Signature h) \<and> \<not> Block_VerifySignature C block
        then Done (Some InvalidBlockSignature)
      else obind (validateTxs C J L bc 0 (blk_Transactions block)) (\<lambda>r.
      case r of Some e \<Rightarrow> Done (Some e) | None \<Rightarrow>
      if \<not> Hash_Equals (CalculateMerkleRoot C (blk_Transactions block)) (hdr_MerkleRoot h)
        then Done (Some InvalidMerkleRoot)
      else let maxSize = cc_MaxBlockSize (bc_config bc); maxTx = cc_MaxTxPerBlock (bc_config bc) in
      if 0 < maxSize \<and> maxSize < int (Block_BlockSize block)
        then Done (Some (BlockTooBig (int (Block_BlockSize block)) maxSize))
      else if 0 < maxTx \<and> maxTx < int (length (blk_Transactions block))
        then Done (Some (TooManyTxs (int (length (blk_Transactions block))) maxTx))
      else Done None)))"

definition storeBlock ::
  "json_lib \<Rightarrow> 's db \<Rightarrow> 's blockchain \<Rightarrow> block \<Rightarrow> 's blockchain \<times> storage_error option" where
  "storeBlock J L bc block =
     (case PutBlock J L (bc_store bc) block of
        (s, Some e) \<Rightarrow> (bc\<lparr>bc_store := s\<rparr>, Some e)
      | (s, None) \<Rightarrow>
          (case SetLatestHeight L s (hdr_Height (blk_Header block)) of
             (s', r) \<Rightarrow> (bc\<lparr>bc_store := s'\<rparr>, r)))"

text \<open>The body of \<open>AddBlock\<close> between its \<open>Lock\<close> and its deferred \<open>Unlock\<close>.\<close>

definition AddBlock_body ::
  "crypto \<Rightarrow> json_lib \<Rightarrow> 's db \<Rightarrow> block \<Rightarrow> 's blockchain
     \<Rightarrow> ('s blockchain \<times> chain_error option) outcome" where
  "AddBlock_body C J L block bc =
     obind (validateBlock C J L bc block) (\<lambda>r.
       case r of Some e \<Rightarrow> Done (bc, Some e)
       | None \<Rightarrow>
           (case storeBlock J L bc block of
              (bc, Some e) \<Rightarrow> Done (bc, Some (PutErr e))
            | (bc, None) \<Rightarrow>
                Done (bc\<lparr>bc_latestHash := hdr_Hash (blk_Header block),
                         bc_latestHeight := hdr_Height (blk_Header block)\<rparr>, None)))"

definition AddBlock ::
  "crypto \<Rightarrow> json_lib \<Rightarrow> 's db \<Rightarrow> 's blockchain \<Rightarrow> block
     \<Rightarrow> ('s blockchain \<times> chain_error option) outcome" where
  "AddBlock C J L bc block = bc_with_Lock bc (AddBlock_body C J L block)"

definition createGenesisBlock ::
  "crypto \<Rightarrow> json_lib \<Rightarrow> 's db \<Rightarrow> i64 \<Rightarrow> 's blockchain
     \<Rightarrow> ('s blockchain \<times> chain_error option) outcome" where
  "createGenesisBlock C J L now bc = AddBlock C J L bc (NewGenesisBlock C now 0)"

definition NewBlockchain ::
  "crypto \<Rightarrow> json_lib \<Rightarrow> 's db \<Rightarrow> i64 \<Rightarrow> chain_config \<Rightarrow> 's
     \<Rightarrow> ('s \<times> (chain_error + 's blockchain)) outcome" where
  "NewBlockchain C J L now cfg store =
     (let bc = \<lparr>bc_config = cfg, bc_store = store, bc_latestHash = 0, bc_latestHeight = 0,
                bc_mu = free_lock\<rparr> in
      case BS_GetLatestHeight L store of
        Inl e \<Rightarrow> Done (store, Inl (StoreErr e))
      | Inr height \<Rightarrow>
          let bc = bc\<lparr>bc_latestHeight := height\<rparr> in
          (case (if 0 < height then map_sum id (\<lambda>b. hdr_Hash (blk_Header b)) (BS_GetLatestBlock J L store)
                 else Inr 0) of
             Inl e \<Rightarrow> Done (store, Inl (StoreErr e))
           | Inr latest \<Rightarrow>
               let bc = bc\<lparr>bc_latestHash := latest\<rparr> in
               if bc_latestHeight bc = 0 \<and> cc_GenesisBlock cfg
               then obind (createGenesisBlock C J L now bc) (\<lambda>(bc, r).
                      case r of Some e \<Rightarrow> Done (bc_store bc, Inl e)
                      | None \<Rightarrow> Done (bc_store bc, Inr bc))
               else Done (store, Inr bc)))"

section \<open>Locks\<close>

abbreviation readable :: "'s blockchain \<Rightarrow> bool" where
  "readable bc \<equiv> \<not> writer_held (bc_mu bc)"

lemma with_RLock_readable:
  "readable bc \<Longrightarrow>
     bc_with_RLock bc f = f (bc\<lparr>bc_mu := (bc_mu bc)\<lparr>readers_held := Suc (readers_held (bc_mu bc))\<rparr>\<rparr>)"
  by (simp add: bc_with_RLock_def rw_RLock_def)

lemma with_RLock_blocked: "\<not> readable bc \<Longrightarrow> bc_with_RLock bc f = Blocked"
  by (simp add: bc_with_RLock_def rw_RLock_def)

lemma reads_readable:
  assumes "readable bc"
  shows "GetBlockByHash J L bc h = Done (GetBlock J L (bc_store bc) h)"
    and "GetBlockByHeight J L bc n = Done (BS_GetBlockByHeight J L (bc_store bc) n)"
    and "GetTransaction J L bc h = Done (BS_GetTransaction J L (bc_store bc) h)"
    and "GetLatestHeight bc = Done (bc_latestHeight bc)"
    and "GetLatestHash bc = Done (bc_latestHash bc)"
  using assms
  by (simp_all add: GetBlockByHash_def GetBlockByHeight_def GetTransaction_def GetLatestHeight_def
      GetLatestHash_def with_RLock_readable)

lemma validateBlock_blocked: "\<not> readable bc \<Longrightarrow> validateBlock C J L bc b = Blocked"
  by (simp add: validateBlock_def GetBlockByHash_def with_RLock_blocked Let_def)

lemma AddBlock_blocked: "AddBlock C J L bc b = Blocked"
proof (cases "rw_Lock (bc_mu bc)")
  case (Some l)
  then have "\<not> readable (bc\<lparr>bc_mu := l\<rparr>)" by (auto simp: rw_Lock_def split: if_splits)
  with Some show ?thesis
    by (simp add: AddBlock_def bc_with_Lock_def AddBlock_body_def validateBlock_blocked)
qed (simp add: AddBlock_def bc_with_Lock_def)

section \<open>What a block must satisfy\<close>

definition chain_tx_valid :: "crypto \<Rightarrow> tx \<Rightarrow> bool" where
  "chain_tx_valid C tx \<longleftrightarrow> Transaction_CalculateHash C tx = tx_Hash tx
     \<and> (tx_Signature tx = [] \<or> Transaction_VerifySignature C tx)"

definition chain_block_valid :: "crypto \<Rightarrow> chain_config \<Rightarrow> block \<Rightarrow> bool" where
  "chain_block_valid C cfg b \<longleftrightarrow>
     BlockHeader_CalculateHash C (blk_Header b) = hdr_Hash (blk_Header b)
     \<and> (hdr_Signature (blk_Header b) = [] \<or> Block_VerifySignature C b)
     \<and> (\<forall>tx \<in> set (blk_Transactions b). chain_tx_valid C tx)
     \<and> CalculateMerkleRoot C (blk_Transactions b) = hdr_MerkleRoot (blk_Header b)
     \<and> (cc_MaxBlockSize cfg \<le> 0 \<or> int (Block_BlockSize b) \<le> cc_MaxBlockSize cfg)
     \<and> (cc_MaxTxPerBlock cfg \<le> 0 \<or> int (length (blk_Transactions b)) \<le> cc_MaxTxPerBlock cfg)"

lemma validateTxs_spec:
  assumes "readable bc"
  shows "\<exists>r. validateTxs C J L bc i txs = Done r
    \<and> (r = None \<longleftrightarrow> (\<forall>tx \<in> set txs. chain_tx_valid C tx
         \<and> \<not> is_Inr (BS_GetTransaction J L (bc_store bc) (tx_Hash tx))))"
proof (induction txs arbitrary: i)
  case (Cons tx txs)
  show ?case
    using Cons [of "Suc i"] assms
    by (auto simp: Blockchain_validateTransaction_def reads_readable hash_defs chain_tx_valid_def
        split: option.splits)
qed simp

lemma validateBlock_accepts:
  assumes "readable bc"
  shows "validateBlock C J L bc b = Done None \<longleftrightarrow>
    \<not> is_Inr (GetBlock J L (bc_store bc) (hdr_Hash (blk_Header b)))
    \<and> hdr_Height (blk_Header b) = bc_latestHeight bc + 1
    \<and> (1 < hdr_Height (blk_Header b) \<longrightarrow> hdr_PrevHash (blk_Header b) = bc_latestHash bc)
    \<and> chain_block_valid C (bc_config bc) b
    \<and> (\<forall>tx \<in> set (blk_Transactions b). \<not> is_Inr (BS_GetTransaction J L (bc_store bc) (tx_Hash tx)))"
proof -
  obtain r where r: "validateTxs C J L bc 0 (blk_Transactions b) = Done r"
    and n: "r = None \<longleftrightarrow> (\<forall>tx \<in> set (blk_Transactions b). chain_tx_valid C tx
       \<and> \<not> is_Inr (BS_GetTransaction J L (bc_store bc) (tx_Hash tx)))"
    using validateTxs_spec [OF assms] by blast
  show ?thesis
  proof (cases r)
    case None
    with n r show ?thesis
      by (auto simp: validateBlock_def reads_readable [OF assms] hash_defs chain_block_valid_def
          Let_def not_less)
  next
    case (Some e)
    with n r show ?thesis
      by (auto simp: validateBlock_def reads_readable [OF assms] hash_defs chain_block_valid_def
          Let_def)
  qed
qed

lemma validateBlock_returns:
  assumes "readable bc"
  shows "\<exists>r. validateBlock C J L bc b = Done r"
proof -
  obtain r where "validateTxs C J L bc 0 (blk_Transactions b) = Done r"
    using validateTxs_spec [OF assms] by blast
  then show ?thesis
    by (cases r) (auto simp: validateBlock_def reads_readable [OF assms] Let_def)
qed

section \<open>The chain held by the store\<close>

definition entry_ok ::
  "crypto \<Rightarrow> chain_config \<Rightarrow> json_lib \<Rightarrow> 's db \<Rightarrow> ('s \<Rightarrow> bytes \<Rightarrow> bytes option) \<Rightarrow> 's \<Rightarrow> u64 \<Rightarrow> block \<Rightarrow> bool"
where
  "entry_ok C cfg J L contents s n b \<longleftrightarrow>
     contents s (heightKey n) = Some (put_be (hdr_Hash (blk_Header b)))
     \<and> GetBlock J L s (hdr_Hash (blk_Header b)) = Inr b
     \<and> hdr_Height (blk_Header b) = n \<and> chain_block_valid C cfg b"

definition stored_chain ::
  "crypto \<Rightarrow> chain_config \<Rightarrow> json_lib \<Rightarrow> 's db \<Rightarrow> ('s \<Rightarrow> bytes \<Rightarrow> bytes option) \<Rightarrow> 's \<Rightarrow> block list \<Rightarrow> bool"
where
  "stored_chain C cfg J L contents s bs \<longleftrightarrow>
     length bs < 2 ^ 64
     \<and> (\<forall>i < length bs. entry_ok C cfg J L contents s (of_nat (Suc i)) (bs ! i))
     \<and> linked hdr_Hash hdr_PrevHash (map blk_Header bs)
     \<and> BS_GetLatestHeight L s = Inr (of_nat (length bs))"

definition chain_ok ::
  "crypto \<Rightarrow> json_lib \<Rightarrow> 's db \<Rightarrow> ('s \<Rightarrow> bytes \<Rightarrow> bytes option) \<Rightarrow> 's blockchain \<Rightarrow> block list \<Rightarrow> bool"
where
  "chain_ok C J L contents bc bs \<longleftrightarrow>
     stored_chain C (bc_config bc) J L contents (bc_store bc) bs
     \<and> bc_latestHeight bc = of_nat (length bs)
     \<and> (bs \<noteq> [] \<longrightarrow> bc_latestHash bc = hdr_Hash (blk_Header (last bs)))"

lemma entry_ok_cong:
  assumes "db_spec L contents" and "entry_ok C cfg J L contents s n b"
    and "contents s' (heightKey n) = contents s (heightKey n)"
    and "contents s' (blockKey (hdr_Hash (blk_Header b))) = contents s (blockKey (hdr_Hash (blk_Header b)))"
    and "contents s' (headerKey (hdr_Hash (blk_Header b))) = contents s (headerKey (hdr_Hash (blk_Header b)))"
  shows "entry_ok C cfg J L contents s' n b"
  using assms(2,3) GetBlock_cong [OF assms(1,4,5)] by (simp add: entry_ok_def)

lemma GetLatestHeight_cong:
  assumes "db_spec L contents" and "contents s' latestHeightKey = contents s latestHeightKey"
  shows "BS_GetLatestHeight L s' = BS_GetLatestHeight L s"
  unfolding BS_GetLatestHeight_def Storage_Get_spec [OF assms(1)] assms(2) ..

lemma entry_ok_PutBlock:
  assumes "db_spec L contents" and "PutBlock J L s b = (s', None)"
    and "entry_ok C cfg J L contents s n b'"
    and "\<not> is_Inr (GetBlock J L s (hdr_Hash (blk_Header b)))" and "n \<noteq> hdr_Height (blk_Header b)"
  shows "entry_ok C cfg J L contents s' n b'"
proof -
  have "hdr_Hash (blk_Header b') \<noteq> hdr_Hash (blk_Header b)"
    using assms(3,4) by (auto simp: entry_ok_def)
  with assms(5) PutBlock_contents [OF assms(1,2)] show ?thesis
    by (intro entry_ok_cong [OF assms(1,3)]) simp_all
qed

lemma entry_ok_new:
  assumes "db_spec L contents" and "json_ok J" and "PutBlock J L s b = (s', None)"
    and "chain_block_valid C cfg b"
  shows "entry_ok C cfg J L contents s' (hdr_Height (blk_Header b)) b"
  using assms PutBlock_contents(3) [OF assms(1,3)] GetBlock_PutBlock [OF assms(1-3)]
  by (simp add: entry_ok_def)

lemma entry_ok_SetLatest:
  assumes "db_spec L contents" and "SetLatestHeight L s m = (s', e)"
    and "entry_ok C cfg J L contents s n b"
  shows "entry_ok C cfg J L contents s' n b"
  by (intro entry_ok_cong [OF assms(1,3)] SetLatestHeight_frame [OF assms(1,2)]) simp_all

lemma SetLatestHeight_failed:
  assumes "db_spec L contents" and "SetLatestHeight L s n = (s', Some e)"
  shows "contents s' = contents s"
  using Storage_Put_spec [OF assms(1) assms(2) [unfolded SetLatestHeight_def]] by simp

lemma stored_chain_cong:
  assumes "db_spec L contents" and "stored_chain C cfg J L contents s bs"
    and "contents s' = contents s"
  shows "stored_chain C cfg J L contents s' bs"
proof -
  have "entry_ok C cfg J L contents s n b \<Longrightarrow> entry_ok C cfg J L contents s' n b" for n b
    by (rule entry_ok_cong [OF assms(1)]) (simp_all add: assms(3))
  with assms(2) GetLatestHeight_cong [OF assms(1), of s' s] assms(3) show ?thesis
    by (simp add: stored_chain_def)
qed

lemma storeBlock_chain:
  assumes "db_spec L contents" and "json_ok J" and "chain_ok C J L contents bc bs"
    and "Suc (length bs) < 2 ^ 64"
    and "validateBlock C J L bc b = Done None" and "readable bc"
    and "storeBlock J L bc b = (bc', r)"
  shows "bc_latestHeight bc' = bc_latestHeight bc \<and> bc_latestHash bc' = bc_latestHash bc
    \<and> bc_config bc' = bc_config bc \<and> bc_mu bc' = bc_mu bc
    \<and> stored_chain C (bc_config bc) J L contents (bc_store bc') (if r = None then bs @ [b] else bs)"
proof -
  let ?s = "bc_store bc"
  have v: "\<not> is_Inr (GetBlock J L ?s (hdr_Hash (blk_Header b)))"
    "hdr_Height (blk_Header b) = of_nat (Suc (length bs))"
    "1 < hdr_Height (blk_Header b) \<longrightarrow> hdr_PrevHash (blk_Header b) = bc_latestHash bc"
    "chain_block_valid C (bc_config bc) b"
    and st: "stored_chain C (bc_config bc) J L contents ?s bs"
    and hash: "bs \<noteq> [] \<longrightarrow> bc_latestHash bc = hdr_Hash (blk_Header (last bs))"
    using assms(3,5) validateBlock_accepts [OF assms(6)] by (auto simp: chain_ok_def)
  have ne: "(of_nat (Suc i) :: u64) \<noteq> hdr_Height (blk_Header b)" if "i < length bs" for i
    using that assms(4) unfolding v(2) by (subst of_nat_u64_eq) simp_all
  have gt: "bs \<noteq> [] \<longrightarrow> 1 < hdr_Height (blk_Header b)"
    using assms(4) unfolding v(2) word_less_nat_alt unat_of_nat_u64 [OF assms(4)] by simp
  obtain s1 r1 where p: "PutBlock J L ?s b = (s1, r1)" by (cases "PutBlock J L ?s b")
  show ?thesis
  proof (cases r1)
    case (Some e)
    with p assms(7) stored_chain_cong [OF assms(1) st PutBlock_failed [OF assms(1)]] show ?thesis
      by (auto simp: storeBlock_def)
  next
    case None
    with p have p1: "PutBlock J L ?s b = (s1, None)" by simp
    obtain s2 where w: "SetLatestHeight L s1 (hdr_Height (blk_Header b)) = (s2, r)"
      and bc': "bc' = bc\<lparr>bc_store := s2\<rparr>"
      using assms(7) p1 by (auto simp: storeBlock_def split: prod.splits)
    have old: "entry_ok C (bc_config bc) J L contents s2 (of_nat (Suc i)) (bs ! i)"
      if "i < length bs" for i
      using st that entry_ok_SetLatest [OF assms(1) w entry_ok_PutBlock [OF assms(1) p1 _ v(1) ne]]
      by (simp add: stored_chain_def)
    have new: "entry_ok C (bc_config bc) J L contents s2 (of_nat (Suc (length bs))) b"
      using entry_ok_SetLatest [OF assms(1) w entry_ok_new [OF assms(1,2) p1 v(4)]] v(2) by simp
    have link: "linked hdr_Hash hdr_PrevHash (map blk_Header (bs @ [b]))"
      using st hash gt v(3) by (simp add: stored_chain_def linked_snoc last_map)
    have "stored_chain C (bc_config bc) J L contents s2 (if r = None then bs @ [b] else bs)"
    proof (cases r)
      case None
      with w GetLatestHeight_Set [OF assms(1)] v(2)
      have "BS_GetLatestHeight L s2 = Inr (of_nat (length (bs @ [b])))" by simp
      with None old new link assms(4) show ?thesis
        by (simp add: stored_chain_def nth_append less_Suc_eq)
    next
      case (Some e)
      with w have "contents s2 latestHeightKey = contents ?s latestHeightKey"
        using SetLatestHeight_failed [OF assms(1)] PutBlock_contents(5) [OF assms(1) p1] by simp
      then have "BS_GetLatestHeight L s2 = BS_GetLatestHeight L ?s"
        by (rule GetLatestHeight_cong [OF assms(1)])
      with Some old st show ?thesis by (simp add: stored_chain_def)
    qed
    with bc' show ?thesis by simp
  qed
qed

lemma AddBlock_body_chain:
  assumes "db_spec L contents" and "json_ok J" and "chain_ok C J L contents bc bs"
    and "Suc (length bs) < 2 ^ 64" and "readable bc"
    and "AddBlock_body C J L b bc = Done (bc', r)"
  shows "chain_ok C J L contents bc' (if r = None then bs @ [b] else bs) \<and> bc_mu bc' = bc_mu bc
    \<and> (r = None \<longrightarrow> validateBlock C J L bc b = Done None)"
proof -
  obtain v where v: "validateBlock C J L bc b = Done v"
    using validateBlock_returns [OF assms(5)] by blast
  show ?thesis
  proof (cases v)
    case (Some e)
    with v assms(3,6) show ?thesis by (auto simp: AddBlock_body_def)
  next
    case None
    obtain bc1 r1 where w: "storeBlock J L bc b = (bc1, r1)" by (cases "storeBlock J L bc b")
    have val: "validateBlock C J L bc b = Done None" using v None by simp
    note s = storeBlock_chain [OF assms(1-4) val assms(5) w]
    have h: "hdr_Height (blk_Header b) = of_nat (Suc (length bs))"
      using val validateBlock_accepts [OF assms(5)] assms(3) by (auto simp: chain_ok_def)
    show ?thesis
    proof (cases r1)
      case None
      with assms(6) val w have "r = None"
        and "bc' = bc1\<lparr>bc_latestHash := hdr_Hash (blk_Header b),
                       bc_latestHeight := hdr_Height (blk_Header b)\<rparr>"
        by (simp_all add: AddBlock_body_def)
      moreover have "stored_chain C (bc_config bc) J L contents (bc_store bc1) (bs @ [b])"
        and "bc_config bc1 = bc_config bc" and "bc_mu bc1 = bc_mu bc"
        using s None by simp_all
      ultimately show ?thesis unfolding chain_ok_def using h val by simp
    next
      case (Some e)
      with assms(6) val w have "r = Some (PutErr e)" and "bc' = bc1"
        by (simp_all add: AddBlock_body_def)
      moreover have "stored_chain C (bc_config bc) J L contents (bc_store bc1) bs"
        using s Some by simp
      ultimately show ?thesis unfolding chain_ok_def using assms(3) s by (simp add: chain_ok_def)
    qed
  qed
qed

section \<open>Reading the chain back\<close>

lemma entry_ok_GetByHeight:
  assumes "db_spec L contents" and "entry_ok C cfg J L contents s n b"
  shows "BS_GetBlockByHeight J L s n = Inr b"
  using assms(2) by (simp add: entry_ok_def BS_GetBlockByHeight_def Storage_Get_spec [OF assms(1)])

lemma stored_chain_height:
  assumes "db_spec L contents" and "stored_chain C cfg J L contents s bs"
    and "0 < n" and "n \<le> length bs"
  shows "BS_GetBlockByHeight J L s (of_nat n) = Inr (bs ! (n - 1))"
proof -
  have "n - 1 < length bs" using assms(3,4) by simp
  then have "entry_ok C cfg J L contents s (of_nat (Suc (n - 1))) (bs ! (n - 1))"
    using assms(2) unfolding stored_chain_def by blast
  from entry_ok_GetByHeight [OF assms(1) this] assms(3) show ?thesis by simp
qed

lemma stored_chain_latest:
  assumes "db_spec L contents" and "stored_chain C cfg J L contents s bs" and "bs \<noteq> []"
  shows "BS_GetLatestBlock J L s = Inr (last bs)"
proof -
  have "(of_nat (length bs) :: u64) \<noteq> 0"
    using assms(2,3) of_nat_u64_eq [of "length bs" 0] by (simp add: stored_chain_def)
  with assms(2,3) stored_chain_height [OF assms(1,2), of "length bs"] show ?thesis
    by (simp add: BS_GetLatestBlock_def stored_chain_def last_conv_nth)
qed

lemma NewBlockchain_reopen:
  assumes "db_spec L contents" and "stored_chain C cfg J L contents s bs"
  shows "NewBlockchain C J L now cfg s =
    (if bs = [] \<and> cc_GenesisBlock cfg then Blocked
     else Done (s, Inr \<lparr>bc_config = cfg, bc_store = s,
       bc_latestHash = (if bs = [] then 0 else hdr_Hash (blk_Header (last bs))),
       bc_latestHeight = of_nat (length bs), bc_mu = free_lock\<rparr>))"
proof (cases "bs = []")
  case True
  with assms(2) show ?thesis
    by (simp add: NewBlockchain_def stored_chain_def createGenesisBlock_def AddBlock_blocked Let_def)
next
  case False
  have "(of_nat (length bs) :: u64) \<noteq> 0"
    using assms(2) False of_nat_u64_eq [of "length bs" 0] by (simp add: stored_chain_def)
  moreover from this have "0 < (of_nat (length bs) :: u64)" by (simp add: word_neq_0_conv)
  ultimately show ?thesis
    using False assms(2) stored_chain_latest [OF assms False]
    by (simp add: NewBlockchain_def stored_chain_def Let_def)
qed

lemma range_loop_reads:
  assumes "\<And>n. 0 < n \<Longrightarrow> n \<le> length bs \<Longrightarrow> get (of_nat n) = Done (Inr (bs ! (n - 1)))"
    and "Suc (length bs) < 2 ^ 64" and "0 < i" and "m \<le> length bs" and "i \<le> Suc m"
  shows "range_loop get (of_nat i) (of_nat m) acc = Some (Done (Inr (acc @ take (Suc m - i) (drop (i - 1) bs))))"
  using assms(3,5)
proof (induction "Suc m - i" arbitrary: i acc)
  case 0
  then have "i = Suc m" by simp
  moreover have "\<not> (of_nat (Suc m) :: u64) \<le> of_nat m"
    using assms(2,4) unfolding word_le_nat_alt by (subst (1 2) unat_of_nat_u64) simp_all
  ultimately show ?case by (subst range_loop.simps) simp
next
  case (Suc k)
  then have i: "i \<le> m" by simp
  then have le: "(of_nat i :: u64) \<le> of_nat m"
    using assms(2,4) unfolding word_le_nat_alt by (subst (1 2) unat_of_nat_u64) simp_all
  have "(of_nat i + 1 :: u64) = of_nat (Suc i)" by simp
  moreover have "take (Suc m - i) (drop (i - 1) bs)
      = (bs ! (i - 1)) # take (Suc m - Suc i) (drop (Suc i - 1) bs)"
  proof -
    have "drop (i - 1) bs = (bs ! (i - 1)) # drop i bs"
      using i assms(4) Suc.prems(1) Cons_nth_drop_Suc [of "i - 1" bs] by simp
    with i show ?thesis by (simp add: Suc_diff_le)
  qed
  ultimately show ?case
    using Suc.hyps(1) [of "Suc i" "acc @ [bs ! (i - 1)]"] Suc.hyps(2) Suc.prems i le assms(1,4)
    by (subst range_loop.simps) (simp add: add.commute)
qed

section \<open>The header chain as a hash chain\<close>

lemma header_content:
  assumes "BlockHeader_SerializeWithoutHash h = BlockHeader_SerializeWithoutHash h'"
  shows "h\<lparr>hdr_Hash := x\<rparr> = h'\<lparr>hdr_Hash := x\<rparr>"
  using assms
  by (intro BlockHeader_SerializeWithoutHash_inject) (simp_all add: BlockHeader_SerializeWithoutHash_def)

interpretation header_chain: hash_chain "keccak256 C" BlockHeader_SerializeWithoutHash
    "BlockHeader_CalculateHash C" hdr_PrevHash for C
proof
  show "hdr_PrevHash a = hdr_PrevHash b"
    if "BlockHeader_SerializeWithoutHash a = BlockHeader_SerializeWithoutHash b" for a b
    using header_content [OF that, of 0] by (metis header.ext_inject header.surjective header.update_convs(1))
qed (simp add: BlockHeader_CalculateHash_def)

lemma stored_chain_headers:
  assumes "stored_chain C cfg J L contents s bs"
  shows "linked (BlockHeader_CalculateHash C) hdr_PrevHash (map blk_Header bs)"
    and "\<And>h. h \<in> set (map blk_Header bs) \<Longrightarrow> BlockHeader_CalculateHash C h = hdr_Hash h"
proof -
  show h: "BlockHeader_CalculateHash C h = hdr_Hash h" if m: "h \<in> set (map blk_Header bs)" for h
  proof -
    from m obtain i where "i < length bs" and "h = blk_Header (bs ! i)"
      by (auto simp: in_set_conv_nth)
    with assms show ?thesis by (auto simp: stored_chain_def entry_ok_def chain_block_valid_def)
  qed
  have "linked hdr_Hash hdr_PrevHash (map blk_Header bs)" using assms by (simp add: stored_chain_def)
  with linked_cong h show "linked (BlockHeader_CalculateHash C) hdr_PrevHash (map blk_Header bs)"
    by blast
qed

lemma header_lists_determined:
  assumes "linked (BlockHeader_CalculateHash C) hdr_PrevHash hs" and "linked (BlockHeader_CalculateHash C) hdr_PrevHash hs'"
    and "\<And>h. h \<in> set hs \<union> set hs' \<Longrightarrow> BlockHeader_CalculateHash C h = hdr_Hash h"
    and "length hs = length hs'" and "hs \<noteq> [] \<Longrightarrow> hdr_Hash (last hs) = hdr_Hash (last hs')"
    and "inj_on (keccak256 C) (BlockHeader_SerializeWithoutHash ` (set hs \<union> set hs'))"
  shows "hs = hs'"
proof -
  have ne: "hs' \<noteq> []" if "hs \<noteq> []" using that assms(4) by auto
  have "map BlockHeader_SerializeWithoutHash hs = map BlockHeader_SerializeWithoutHash hs'"
    by (rule header_chain.tamper_evident) (use assms ne in simp_all)
  then have c: "BlockHeader_SerializeWithoutHash (hs ! i) = BlockHeader_SerializeWithoutHash (hs' ! i)"
    if "i < length hs" for i
    using that assms(4) by (metis nth_map)
  show ?thesis
  proof (rule nth_equalityI)
    fix i assume i: "i < length hs"
    then have "hs ! i \<in> set hs \<union> set hs'" "hs' ! i \<in> set hs \<union> set hs'" using assms(4) by auto
    from assms(3) [OF this(1)] assms(3) [OF this(2)] c [OF i] show "hs ! i = hs' ! i"
      by (intro BlockHeader_SerializeWithoutHash_inject) (simp_all add: BlockHeader_CalculateHash_def)
  qed (rule assms(4))
qed

lemma headers_determined:
  assumes "stored_chain C cfg J L contents s bs" and "stored_chain C' cfg' J' L' contents' s' bs'"
    and "C' = C" and "length bs = length bs'"
    and "bs \<noteq> [] \<Longrightarrow> hdr_Hash (blk_Header (last bs)) = hdr_Hash (blk_Header (last bs'))"
    and "inj_on (keccak256 C)
           (BlockHeader_SerializeWithoutHash ` (blk_Header ` (set bs \<union> set bs')))"
  shows "map blk_Header bs = map blk_Header bs'"
proof -
  have "bs' \<noteq> []" if "bs \<noteq> []" using that assms(4) by auto
  with stored_chain_headers [OF assms(1)] stored_chain_headers [OF assms(2)] assms(3-6) show ?thesis
    by (intro header_lists_determined) (auto simp: last_map image_Un)
qed

section \<open>Properties\<close>

text \<open>
  C7. AddBlock never returns: it takes the write lock of the chain and its validation then asks for
  the read lock of the same mutex. This holds for every block and every state, so no block can be
  appended through the exported interface.
\<close>

theorem add_block_never_returns: "AddBlock C J L bc block = Blocked"
  by (rule AddBlock_blocked)

definition demo_bc :: "(bytes \<Rightarrow> bytes option) blockchain" where
  "demo_bc = \<lparr>bc_config = \<lparr>cc_MaxBlockSize = 1000, cc_MaxTxPerBlock = 10, cc_GenesisBlock = False\<rparr>,
     bc_store = Map.empty, bc_latestHash = 0, bc_latestHeight = 0, bc_mu = free_lock\<rparr>"

lemma demo_bc_ok: "chain_ok demo_crypto demo_json map_db (\<lambda>s. s) demo_bc []"
  by (simp add: chain_ok_def stored_chain_def demo_bc_def BS_GetLatestHeight_def
      Storage_Get_spec [OF map_db_spec])

lemma demo_bc_accepts: "validateBlock demo_crypto demo_json map_db demo_bc demo_block = Done None"
proof -
  have "readable demo_bc" by (simp add: demo_bc_def free_lock_def)
  then show ?thesis
    by (subst validateBlock_accepts)
      (simp_all add: demo_bc_def demo_block_def NewBlock_def Let_def GetBlock_def
        Storage_Get_spec [OF map_db_spec] chain_block_valid_def Block_BlockSize_def
        CalculateMerkleRoot_def BlockHeader_CalculateHash_def BlockHeader_SerializeWithoutHash_def)
qed

lemma demo_bc_appends:
  "\<exists>bc'. AddBlock_body demo_crypto demo_json map_db demo_block demo_bc = Done (bc', None)"
proof -
  have "snd (Storage_WriteBatch map_db s ops) = None" "snd (SetLatestHeight map_db s n) = None" for s ops n
    by (simp_all add: Storage_WriteBatch_def Storage_Put_def SetLatestHeight_def map_db_def Let_def)
  then show ?thesis
    by (simp add: AddBlock_body_def demo_bc_accepts storeBlock_def PutBlock_batch
        split: prod.split option.split) (metis option.discI snd_conv)
qed

text \<open>
  C1. Reopening a store that holds a chain gives back exactly that chain: the head hash and height
  of its last block and a free lock. The exception is a first start with an empty store and genesis
  creation configured, which never returns (the genesis block is appended with AddBlock).
\<close>

theorem reopen_recovers_chain:
  assumes "db_spec L contents" and "stored_chain C cfg J L contents s bs"
  shows "if bs = [] \<and> cc_GenesisBlock cfg then NewBlockchain C J L now cfg s = Blocked
    else \<exists>bc. NewBlockchain C J L now cfg s = Done (s, Inr bc)
           \<and> chain_ok C J L contents bc bs \<and> bc_store bc = s \<and> lock_free (bc_mu bc)"
  using assms(2) by (auto simp: NewBlockchain_reopen [OF assms] chain_ok_def)

theorem reopen_recovers_chain_witness:
  "NewBlockchain demo_crypto demo_json map_db 5
     \<lparr>cc_MaxBlockSize = 1000, cc_MaxTxPerBlock = 10, cc_GenesisBlock = True\<rparr> Map.empty = Blocked
   \<and> (\<exists>s bc. NewBlockchain demo_crypto demo_json map_db 5 (bc_config demo_bc) s = Done (s, Inr bc)
        \<and> bc_latestHash bc = hdr_Hash (blk_Header demo_block))"
proof
  let ?g = "\<lparr>cc_MaxBlockSize = 1000, cc_MaxTxPerBlock = 10, cc_GenesisBlock = True\<rparr> :: chain_config"
  have "stored_chain demo_crypto ?g demo_json map_db (\<lambda>s. s) Map.empty []"
    by (simp add: stored_chain_def BS_GetLatestHeight_def Storage_Get_spec [OF map_db_spec])
  from reopen_recovers_chain [OF map_db_spec this, of 5]
  show "NewBlockchain demo_crypto demo_json map_db 5 ?g Map.empty = Blocked" by simp
  obtain bc' where a: "AddBlock_body demo_crypto demo_json map_db demo_block demo_bc = Done (bc', None)"
    using demo_bc_appends by blast
  have r: "readable demo_bc" by (simp add: demo_bc_def free_lock_def)
  have c: "chain_ok demo_crypto demo_json map_db (\<lambda>s. s) bc' [demo_block]"
    using AddBlock_body_chain [OF map_db_spec demo_json_ok demo_bc_ok _ r a] by simp
  have "bc_config bc' = bc_config demo_bc"
    using storeBlock_chain [OF map_db_spec demo_json_ok demo_bc_ok _ demo_bc_accepts r] a
    by (auto simp: AddBlock_body_def demo_bc_accepts split: prod.splits option.splits)
  with c have "stored_chain demo_crypto (bc_config demo_bc) demo_json map_db (\<lambda>s. s) (bc_store bc') [demo_block]"
    by (simp add: chain_ok_def)
  from reopen_recovers_chain [OF map_db_spec this, of 5]
  show "\<exists>s bc. NewBlockchain demo_crypto demo_json map_db 5 (bc_config demo_bc) s = Done (s, Inr bc)
        \<and> bc_latestHash bc = hdr_Hash (blk_Header demo_block)"
    by (auto simp: chain_ok_def)
qed

text \<open>
  GetBlocksRange returns exactly the stored blocks from \<open>start\<close> to the smaller of \<open>end\<close> and the
  head, and an error for \<open>end < start\<close>. A start more than one above the head panics: after the end
  is cut to the head, \<open>end-start+1\<close> wraps to a capacity that \<open>make\<close> refuses.
\<close>

theorem blocks_range_result:
  assumes "db_spec L contents" and "chain_ok C J L contents bc bs" and "\<not> writer_held (bc_mu bc)"
    and "length bs < 2 ^ 45" and "0 < start" and "start < 2 ^ 63" and "stop < 2 ^ 64"
  shows "GetBlocksRange J L bc (of_nat start) (of_nat stop) = Some
    (if stop < start then Done (Inl InvalidRange)
     else if Suc (length bs) < start then Panic
     else Done (Inr (take (Suc (min stop (length bs)) - start) (drop (start - 1) bs))))"
proof -
  let ?n = "length bs"
  define m where "m = min stop ?n"
  let ?bc = "bc\<lparr>bc_mu := (bc_mu bc)\<lparr>readers_held := Suc (readers_held (bc_mu bc))\<rparr>\<rparr>"
  have l: "rw_RLock (bc_mu bc) = Some (bc_mu ?bc)" and r: "readable ?bc"
    using assms(3) by (simp_all add: rw_RLock_def)
  have h: "bc_latestHeight bc = of_nat ?n" and st: "stored_chain C (bc_config bc) J L contents (bc_store bc) bs"
    using assms(2) by (simp_all add: chain_ok_def)
  have less: "(of_nat stop :: u64) < of_nat start \<longleftrightarrow> stop < start"
    "(of_nat ?n :: u64) < of_nat stop \<longleftrightarrow> ?n < stop"
    using assms(4,6,7) unfolding word_less_nat_alt by (subst (1 2) unat_of_nat_u64; simp)+
  have m: "(if (of_nat ?n :: u64) < of_nat stop then of_nat ?n else of_nat stop) = (of_nat m :: u64)"
    unfolding less m_def by (simp add: min_def)
  have loop: "range_loop (GetBlockByHeight J L ?bc) (of_nat start) (of_nat m) []
      = Some (Done (Inr (take (Suc m - start) (drop (start - 1) bs))))" if "start \<le> Suc m"
    using range_loop_reads [of bs "GetBlockByHeight J L ?bc" start m "[]"] that assms(4,5)
      stored_chain_height [OF assms(1) st] by (simp add: reads_readable [OF r] m_def)
  have cap: "make_ptrs_ok ((of_nat m :: u64) - of_nat start + 1) \<longleftrightarrow> start \<le> Suc m"
  proof (cases "start \<le> Suc m")
    case True
    then have eq: "(of_nat m :: u64) - of_nat start + 1 = of_nat (Suc m - start)"
      by (simp add: of_nat_diff)
    have "Suc m - start < 2 ^ 45" using assms(4,5) by (simp add: m_def)
    then have "make_ptrs_ok (of_nat (Suc m - start))"
      unfolding make_ptrs_ok_def by (subst unat_of_nat_u64) simp_all
    with True show ?thesis unfolding eq by simp
  next
    case False
    have eq: "(of_nat m :: u64) - of_nat start + 1 = of_nat (2 ^ 64 + Suc m - start)"
      using False assms(6) by (simp add: of_nat_diff)
    have "2 ^ 64 + Suc m - start < 2 ^ 64" using False by simp
    then have "\<not> make_ptrs_ok (of_nat (2 ^ 64 + Suc m - start))"
      unfolding make_ptrs_ok_def using assms(6) by (subst unat_of_nat_u64) simp_all
    with False show ?thesis unfolding eq by simp
  qed
  show ?thesis
    using loop cap m l less(1) by (auto simp: GetBlocksRange_def h m_def Let_def)
qed

theorem blocks_range_result_witness:
  "GetBlocksRange demo_json map_db demo_bc 1 5 = Some (Done (Inr []))
   \<and> GetBlocksRange demo_json map_db demo_bc 3 5 = Some Panic"
proof -
  have r: "readable demo_bc" by (simp add: demo_bc_def free_lock_def)
  show ?thesis
    using blocks_range_result [OF map_db_spec demo_bc_ok r, of 1 5]
      blocks_range_result [OF map_db_spec demo_bc_ok r, of 3 5] by simp
qed

text \<open>
  C6. The head hash fixes the history: two nodes whose stores hold chains of the same length and
  with the same last block hash have the same header at every height, unless Keccak-256 collides on
  two of the headers they store.
\<close>

theorem head_hash_fixes_history:
  assumes "chain_ok C J L contents bc bs" and "chain_ok C J L contents bc' bs'"
    and "bc_latestHeight bc = bc_latestHeight bc'" and "bc_latestHash bc = bc_latestHash bc'"
    and "inj_on (keccak256 C)
           (BlockHeader_SerializeWithoutHash ` (blk_Header ` (set bs \<union> set bs')))"
  shows "map blk_Header bs = map blk_Header bs'"
proof -
  have len: "length bs = length bs'"
    using assms(1-3) of_nat_u64_eq [of "length bs" "length bs'"]
    by (simp add: chain_ok_def stored_chain_def)
  show ?thesis
    by (rule headers_determined [of C "bc_config bc" J L contents "bc_store bc" _ C "bc_config bc'"
          J L contents "bc_store bc'"])
      (use assms len in \<open>auto simp: chain_ok_def\<close>)
qed

theorem head_hash_fixes_history_witness:
  "\<exists>bc. chain_ok demo_crypto demo_json map_db (\<lambda>s. s) bc [demo_block]
     \<and> map blk_Header [demo_block] = map blk_Header [demo_block]"
proof -
  obtain bc where a: "AddBlock_body demo_crypto demo_json map_db demo_block demo_bc = Done (bc, None)"
    using demo_bc_appends by blast
  have "readable demo_bc" by (simp add: demo_bc_def free_lock_def)
  from AddBlock_body_chain [OF map_db_spec demo_json_ok demo_bc_ok _ this a]
  have c: "chain_ok demo_crypto demo_json map_db (\<lambda>s. s) bc [demo_block]" by simp
  have "map blk_Header [demo_block] = map blk_Header [demo_block]"
    by (rule head_hash_fixes_history [OF c c refl refl]) simp
  with c show ?thesis by blast
qed

end
