(* ===== verification/Chain_State.thy ===== *)
theory Chain_State
  imports Chain
begin

text \<open>
  The chain state manager (blockchain/state.go): the head of the chain, the number of transactions, the
  two caches and the snapshot in the store. The key that Go visits first when a full cache evicts an
  entry is chosen by the argument \<open>pick\<close>, from the number of insertions so far in the same call and the
  keys of the cache. Every method takes the mutex once and calls no other method while it
  holds it, so the mutex is left out, and so are the averages of GetStats, which are floating-point quotients.
\<close>

section \<open>State\<close>

record 's chain_state =
  cs_latestHeight :: u64
  cs_latestHash :: hash
  cs_latestBlock :: "block option"
  cs_totalTxCount :: u64
  cs_difficulty :: u64
  cs_blockCache :: "(hash, block) fmap"
  cs_txCache :: "(hash, tx) fmap"
  cs_maxCacheSize :: int
  cs_storage :: 's

partial_function (option) count_loop ::
  "json_lib \<Rightarrow> 's db \<Rightarrow> 's \<Rightarrow> u64 \<Rightarrow> u64 \<Rightarrow> u64 \<Rightarrow> u64 option" where
  "count_loop J L s latest height n =
     (if height \<le> latest
      then case BS_GetBlockByHeight J L s height of
        Inl e \<Rightarrow> count_loop J L s latest (height + 1) n
      | Inr block \<Rightarrow> count_loop J L s latest (height + 1) (n + of_nat (length (blk_Transactions block)))
      else Some n)"

definition calculateTotalTxCount :: "json_lib \<Rightarrow> 's db \<Rightarrow> 's chain_state \<Rightarrow> u64 option" where
  "calculateTotalTxCount J L cs = count_loop J L (cs_storage cs) (cs_latestHeight cs) 1 0"

definition loadState ::
  "json_lib \<Rightarrow> 's db \<Rightarrow> 's chain_state \<Rightarrow> ('s chain_state \<times> blockstore_error option) option" where
  "loadState J L cs =
     (case BS_GetLatestHeight L (cs_storage cs) of
        Inl e \<Rightarrow> Some (cs, Some e)
      | Inr height \<Rightarrow>
          let cs = cs\<lparr>cs_latestHeight := height\<rparr> in
          if 0 < height
          then case BS_GetLatestBlock J L (cs_storage cs) of
              Inl e \<Rightarrow> Some (cs, Some e)
            | Inr latestBlock \<Rightarrow>
                let cs = cs\<lparr>cs_latestHash := hdr_Hash (blk_Header latestBlock), cs_latestBlock := Some latestBlock\<rparr> in
                map_option (\<lambda>n. (cs\<lparr>cs_totalTxCount := n\<rparr>, None)) (calculateTotalTxCount J L cs)
          else Some (cs, None))"

text \<open>An error of loadState is logged; the state is returned as far as it was loaded.\<close>

definition empty_state :: "'s \<Rightarrow> 's chain_state" where
  "empty_state store = \<lparr>cs_latestHeight = 0, cs_latestHash = 0, cs_latestBlock = None, cs_totalTxCount = 0,
     cs_difficulty = 0, cs_blockCache = fmempty, cs_txCache = fmempty, cs_maxCacheSize = 1000, cs_storage = store\<rparr>"

definition NewChainState :: "json_lib \<Rightarrow> 's db \<Rightarrow> 's \<Rightarrow> 's chain_state option" where
  "NewChainState J L store = map_option fst (loadState J L (empty_state store))"

section \<open>Caches and updates\<close>

definition cache_add :: "(hash fset \<Rightarrow> hash) \<Rightarrow> int \<Rightarrow> (hash, 'v) fmap \<Rightarrow> hash \<Rightarrow> 'v \<Rightarrow> (hash, 'v) fmap" where
  "cache_add pick maxSize m k v =
     (let m = (if maxSize \<le> int (mlen m) \<and> mlen m \<noteq> 0 then mdel m (pick (fmdom m)) else m) in mput m k v)"

definition addBlockToCache :: "(hash fset \<Rightarrow> hash) \<Rightarrow> 's chain_state \<Rightarrow> block \<Rightarrow> 's chain_state" where
  "addBlockToCache pick cs b =
     cs\<lparr>cs_blockCache := cache_add pick (cs_maxCacheSize cs) (cs_blockCache cs) (hdr_Hash (blk_Header b)) b\<rparr>"

definition addTxToCache :: "(hash fset \<Rightarrow> hash) \<Rightarrow> 's chain_state \<Rightarrow> tx \<Rightarrow> 's chain_state" where
  "addTxToCache pick cs tx =
     cs\<lparr>cs_txCache := cache_add pick (cs_maxCacheSize cs) (cs_txCache cs) (tx_Hash tx) tx\<rparr>"

fun cache_txs :: "(nat \<Rightarrow> hash fset \<Rightarrow> hash) \<Rightarrow> nat \<Rightarrow> 's chain_state \<Rightarrow> tx list \<Rightarrow> 's chain_state" where
  "cache_txs pick n cs [] = cs"
| "cache_txs pick n cs (tx # txs) = cache_txs pick (Suc n) (addTxToCache (pick n) cs tx) txs"

definition UpdateLatestBlock :: "(nat \<Rightarrow> hash fset \<Rightarrow> hash) \<Rightarrow> 's chain_state \<Rightarrow> block \<Rightarrow> 's chain_state" where
  "UpdateLatestBlock pick cs block =
     (let cs = cs\<lparr>cs_latestHeight := hdr_Height (blk_Header block), cs_latestHash := hdr_Hash (blk_Header block),
                  cs_latestBlock := Some block,
                  cs_totalTxCount := cs_totalTxCount cs + of_nat (length (blk_Transactions block))\<rparr>;
          cs = addBlockToCache (pick 0) cs block
      in cache_txs pick 1 cs (blk_Transactions block))"

definition cs_GetLatestHeight :: "'s chain_state \<Rightarrow> u64" where "cs_GetLatestHeight cs = cs_latestHeight cs"
definition cs_GetLatestHash :: "'s chain_state \<Rightarrow> hash" where "cs_GetLatestHash cs = cs_latestHash cs"
definition cs_GetLatestBlock :: "'s chain_state \<Rightarrow> block option" where "cs_GetLatestBlock cs = cs_latestBlock cs"
definition GetTotalTxCount :: "'s chain_state \<Rightarrow> u64" where "GetTotalTxCount cs = cs_totalTxCount cs"
definition GetDifficulty :: "'s chain_state \<Rightarrow> u64" where "GetDifficulty cs = cs_difficulty cs"

definition SetDifficulty :: "'s chain_state \<Rightarrow> u64 \<Rightarrow> 's chain_state" where
  "SetDifficulty cs d = cs\<lparr>cs_difficulty := d\<rparr>"

definition GetBlockFromCache :: "'s chain_state \<Rightarrow> hash \<Rightarrow> block option" where
  "GetBlockFromCache cs h = mget (cs_blockCache cs) h"

definition GetTxFromCache :: "'s chain_state \<Rightarrow> hash \<Rightarrow> tx option" where
  "GetTxFromCache cs h = mget (cs_txCache cs) h"

definition ClearCache :: "'s chain_state \<Rightarrow> 's chain_state" where
  "ClearCache cs = cs\<lparr>cs_blockCache := fmempty, cs_txCache := fmempty\<rparr>"

definition GetCacheStats :: "'s chain_state \<Rightarrow> nat \<times> nat" where
  "GetCacheStats cs = (mlen (cs_blockCache cs), mlen (cs_txCache cs))"

definition cs_Reset :: "'s chain_state \<Rightarrow> 's chain_state" where
  "cs_Reset cs = cs\<lparr>cs_latestHeight := 0, cs_latestHash := 0, cs_latestBlock := None, cs_totalTxCount := 0,
     cs_difficulty := 0, cs_blockCache := fmempty, cs_txCache := fmempty\<rparr>"

section \<open>Snapshots\<close>

record state_snapshot =
  ss_LatestHeight :: u64
  ss_LatestHash :: string
  ss_TotalTxCount :: u64
  ss_Difficulty :: u64
  ss_Timestamp :: i64

definition enc_snapshot :: "state_snapshot \<Rightarrow> json" where
  "enc_snapshot p = JObj [(''latest_height'', enc_uint (ss_LatestHeight p)), (''latest_hash'', JStr (ss_LatestHash p)),
     (''total_tx_count'', enc_uint (ss_TotalTxCount p)), (''difficulty'', enc_uint (ss_Difficulty p)),
     (''timestamp'', enc_sint (ss_Timestamp p))]"

definition zero_snapshot :: state_snapshot where
  "zero_snapshot = \<lparr>ss_LatestHeight = 0, ss_LatestHash = [], ss_TotalTxCount = 0, ss_Difficulty = 0, ss_Timestamp = 0\<rparr>"

definition dec_snapshot :: "state_snapshot decoder" where
  "dec_snapshot j =
     (if j = JNull then Some zero_snapshot else if \<not> is_obj j then None
      else Option.bind (jget j ''latest_height'' dec_uint 0) (\<lambda>n.
        Option.bind (jget j ''latest_hash'' dec_string []) (\<lambda>h.
        Option.bind (jget j ''total_tx_count'' dec_uint 0) (\<lambda>c.
        Option.bind (jget j ''difficulty'' dec_uint 0) (\<lambda>d.
        Option.bind (jget j ''timestamp'' dec_sint 0) (\<lambda>t.
          Some \<lparr>ss_LatestHeight = n, ss_LatestHash = h, ss_TotalTxCount = c, ss_Difficulty = d, ss_Timestamp = t\<rparr>))))))"

lemma dec_enc_snapshot [simp]: "dec_snapshot (enc_snapshot p) = Some p"
  by (simp add: dec_snapshot_def enc_snapshot_def jget_def)

definition GetSnapshot :: "'s chain_state \<Rightarrow> state_snapshot" where
  "GetSnapshot cs = \<lparr>ss_LatestHeight = cs_latestHeight cs, ss_LatestHash = Hash_String (cs_latestHash cs),
     ss_TotalTxCount = cs_totalTxCount cs, ss_Difficulty = cs_difficulty cs, ss_Timestamp = 0\<rparr>"

definition snapshotKey :: bytes where
  "snapshotKey = string_bytes ''state_'' @ string_bytes ''snapshot''"

definition SaveSnapshot :: "json_lib \<Rightarrow> 's db \<Rightarrow> 's chain_state \<Rightarrow> 's chain_state \<times> storage_error option" where
  "SaveSnapshot J L cs =
     (case Storage_Put L (cs_storage cs) snapshotKey (js_text J (enc_snapshot (GetSnapshot cs))) of
        (s, e) \<Rightarrow> (cs\<lparr>cs_storage := s\<rparr>, e))"

datatype snapshot_error = NoSnapshot | SnapshotStorage storage_error | SnapshotUnmarshal

definition LoadSnapshot :: "json_lib \<Rightarrow> 's db \<Rightarrow> 's chain_state \<Rightarrow> snapshot_error + state_snapshot" where
  "LoadSnapshot J L cs =
     (case Storage_Get L (cs_storage cs) snapshotKey of
        Inl ErrNotFound \<Rightarrow> Inl NoSnapshot
      | Inl e \<Rightarrow> Inl (SnapshotStorage e)
      | Inr data \<Rightarrow> (case unmarshal J dec_snapshot data of None \<Rightarrow> Inl SnapshotUnmarshal | Some p \<Rightarrow> Inr p))"

section \<open>The state of a stored chain\<close>

text \<open>The number of transactions of a list of blocks, as the counter holds it.\<close>

definition tx_total :: "block list \<Rightarrow> u64" where
  "tx_total bs = of_nat (\<Sum>b\<leftarrow>bs. length (blk_Transactions b))"

definition tracks :: "'s chain_state \<Rightarrow> block list \<Rightarrow> bool" where
  "tracks cs bs \<longleftrightarrow> cs_latestHeight cs = of_nat (length bs) \<and> cs_totalTxCount cs = tx_total bs
     \<and> cs_latestBlock cs = (if bs = [] then None else Some (last bs))
     \<and> cs_latestHash cs = (if bs = [] then 0 else hdr_Hash (blk_Header (last bs)))"

lemma count_loop_reads:
  assumes "\<And>n. 0 < n \<Longrightarrow> n \<le> length bs \<Longrightarrow> BS_GetBlockByHeight J L s (of_nat n) = Inr (bs ! (n - 1))"
    and "Suc (length bs) < 2 ^ 64" and "0 < i" and "i \<le> Suc (length bs)"
  shows "count_loop J L s (of_nat (length bs)) (of_nat i) n = Some (n + tx_total (drop (i - 1) bs))"
  using assms(3,4)
proof (induction "Suc (length bs) - i" arbitrary: i n)
  case 0
  then have "i = Suc (length bs)" by simp
  moreover have "\<not> (of_nat (Suc (length bs)) :: u64) \<le> of_nat (length bs)"
    using assms(2) unfolding word_le_nat_alt by (subst (1 2) unat_of_nat_u64) simp_all
  ultimately show ?case by (subst count_loop.simps) (simp add: tx_total_def)
next
  case (Suc k)
  then have i: "i \<le> length bs" by simp
  then have le: "(of_nat i :: u64) \<le> of_nat (length bs)"
    using assms(2) unfolding word_le_nat_alt by (subst (1 2) unat_of_nat_u64) simp_all
  have "drop (i - 1) bs = (bs ! (i - 1)) # drop i bs"
    using i Suc.prems(1) Cons_nth_drop_Suc [of "i - 1" bs] by simp
  then have d: "tx_total (drop (i - 1) bs) = of_nat (length (blk_Transactions (bs ! (i - 1)))) + tx_total (drop i bs)"
    by (simp add: tx_total_def)
  have "(of_nat i + 1 :: u64) = of_nat (Suc i)" by simp
  with Suc.hyps(1) [of "Suc i"] Suc.hyps(2) Suc.prems i le assms(1) [of i] show ?case
    by (subst count_loop.simps) (simp add: d [simplified] add.assoc add.commute [of "word_of_nat i" "1 :: u64"])
qed

lemma loadState_tracks:
  assumes "db_spec L contents" and "stored_chain C cfg J L contents s bs" and "Suc (length bs) < 2 ^ 64"
  shows "\<exists>cs. NewChainState J L s = Some cs \<and> tracks cs bs"
proof (cases "bs = []")
  case True
  with assms(2) show ?thesis
    by (simp add: NewChainState_def loadState_def empty_state_def stored_chain_def tracks_def tx_total_def Let_def)
next
  case False
  have ne: "(of_nat (length bs) :: u64) \<noteq> 0"
    using assms(2) False of_nat_u64_eq [of "length bs" 0] by (simp add: stored_chain_def)
  then have pos: "0 < (of_nat (length bs) :: u64)" by (simp add: word_neq_0_conv)
  have "count_loop J L s (of_nat (length bs)) (of_nat 1) 0 = Some (0 + tx_total (drop (1 - 1) bs))"
    using stored_chain_height [OF assms(1,2)] assms(3) by (intro count_loop_reads) simp_all
  then have "count_loop J L s (of_nat (length bs)) 1 0 = Some (tx_total bs)" by simp
  with assms(2) pos False stored_chain_latest [OF assms(1,2) False] show ?thesis
    by (simp add: NewChainState_def loadState_def calculateTotalTxCount_def empty_state_def stored_chain_def tracks_def Let_def)
qed

lemma cache_txs_frame [simp]:
  "cs_latestHeight (cache_txs pick n cs txs) = cs_latestHeight cs"
  "cs_latestHash (cache_txs pick n cs txs) = cs_latestHash cs"
  "cs_latestBlock (cache_txs pick n cs txs) = cs_latestBlock cs"
  "cs_totalTxCount (cache_txs pick n cs txs) = cs_totalTxCount cs"
  "cs_blockCache (cache_txs pick n cs txs) = cs_blockCache cs"
  "cs_maxCacheSize (cache_txs pick n cs txs) = cs_maxCacheSize cs"
  "cs_storage (cache_txs pick n cs txs) = cs_storage cs"
  by (induction txs arbitrary: n cs) (simp_all add: addTxToCache_def)

lemma UpdateLatestBlock_tracks:
  assumes "tracks cs bs" and "hdr_Height (blk_Header b) = of_nat (Suc (length bs))"
  shows "tracks (UpdateLatestBlock pick cs b) (bs @ [b])"
  using assms by (simp add: tracks_def UpdateLatestBlock_def addBlockToCache_def tx_total_def Let_def)

section \<open>The caches\<close>

text \<open>A choice of the entry to evict is one of the keys.\<close>

definition picks_key :: "(nat \<Rightarrow> hash fset \<Rightarrow> hash) \<Rightarrow> bool" where
  "picks_key pick \<longleftrightarrow> (\<forall>n K. K \<noteq> {||} \<longrightarrow> pick n K |\<in>| K)"

definition cache_ok :: "('v \<Rightarrow> hash) \<Rightarrow> ('v \<Rightarrow> bool) \<Rightarrow> (hash, 'v) fmap \<Rightarrow> bool" where
  "cache_ok hash_of P m \<longleftrightarrow> mlen m \<le> 1000 \<and> (\<forall>k v. mget m k = Some v \<longrightarrow> hash_of v = k \<and> P v)"

lemma cache_add_ok:
  assumes "cache_ok hash_of P m" and "P v" and "\<And>K. K \<noteq> {||} \<Longrightarrow> pick K |\<in>| K"
  shows "cache_ok hash_of P (cache_add pick 1000 m (hash_of v) v)"
proof (cases "mlen m < 1000")
  case True
  with assms(1,2) show ?thesis by (auto simp: cache_ok_def cache_add_def mlen_put)
next
  case False
  with assms(1) have full: "mlen m = 1000" by (simp add: cache_ok_def)
  then have "fmdom m \<noteq> {||}" by (metis fcard_fempty mlen_def numeral_eq_iff zero_neq_numeral)
  with assms(3) have "mhas m (pick (fmdom m))" by (simp add: mhas_dom)
  with full have "mlen (mdel m (pick (fmdom m))) = 999" by (simp add: mlen_del)
  with assms(1,2) full show ?thesis by (auto simp: cache_ok_def cache_add_def mlen_put split: if_splits)
qed

lemma cache_ok_mono: "cache_ok hash_of P m \<Longrightarrow> (\<And>v. P v \<Longrightarrow> Q v) \<Longrightarrow> cache_ok hash_of Q m"
  by (auto simp: cache_ok_def)

lemma cache_ok_empty [simp]: "cache_ok hash_of P fmempty"
  by (simp add: cache_ok_def)

lemma cache_txs_ok:
  assumes "cache_ok tx_Hash P (cs_txCache cs)" and "cs_maxCacheSize cs = 1000" and "picks_key pick" and "\<forall>tx \<in> set txs. P tx"
  shows "cache_ok tx_Hash P (cs_txCache (cache_txs pick n cs txs))"
  using assms(1,2,4)
proof (induction txs arbitrary: n cs)
  case (Cons tx txs)
  have "cache_ok tx_Hash P (cache_add (pick n) 1000 (cs_txCache cs) (tx_Hash tx) tx)"
    using Cons.prems assms(3) by (intro cache_add_ok) (simp_all add: picks_key_def)
  with Cons.prems show ?case by (auto intro!: Cons.IH simp: addTxToCache_def)
qed simp

text \<open>Any sequence of calls, with the blocks that were handed to UpdateLatestBlock so far.\<close>

inductive state_run :: "json_lib \<Rightarrow> 's db \<Rightarrow> 's chain_state \<Rightarrow> block list \<Rightarrow> bool" for J L where
  start: "NewChainState J L s = Some cs \<Longrightarrow> state_run J L cs []"
| update: "state_run J L cs bs \<Longrightarrow> picks_key pick \<Longrightarrow> state_run J L (UpdateLatestBlock pick cs b) (bs @ [b])"
| difficulty: "state_run J L cs bs \<Longrightarrow> state_run J L (SetDifficulty cs d) bs"
| clear: "state_run J L cs bs \<Longrightarrow> state_run J L (ClearCache cs) bs"
| reset: "state_run J L cs bs \<Longrightarrow> state_run J L (cs_Reset cs) bs"
| snapshot: "state_run J L cs bs \<Longrightarrow> state_run J L (fst (SaveSnapshot J L cs)) bs"

lemma NewChainState_fresh:
  "NewChainState J L s = Some cs \<Longrightarrow> cs_blockCache cs = fmempty \<and> cs_txCache cs = fmempty \<and> cs_maxCacheSize cs = 1000"
  by (auto simp: NewChainState_def loadState_def empty_state_def Let_def split: sum.splits if_splits)

lemma state_run_caches:
  assumes "state_run J L cs bs"
  shows "cs_maxCacheSize cs = 1000 \<and> cache_ok (\<lambda>b. hdr_Hash (blk_Header b)) (\<lambda>b. b \<in> set bs) (cs_blockCache cs)
    \<and> cache_ok tx_Hash (\<lambda>tx. \<exists>b \<in> set bs. tx \<in> set (blk_Transactions b)) (cs_txCache cs)"
  using assms
proof (induction rule: state_run.induct)
  case (start s cs)
  then show ?case using NewChainState_fresh by fastforce
next
  case (update cs bs pick b)
  let ?cs = "UpdateLatestBlock pick cs b"
  from update have size: "cs_maxCacheSize cs = 1000" by simp
  have "cs_blockCache ?cs = cache_add (pick 0) 1000 (cs_blockCache cs) (hdr_Hash (blk_Header b)) b"
    by (simp add: UpdateLatestBlock_def addBlockToCache_def size Let_def)
  moreover have "cache_ok (\<lambda>b. hdr_Hash (blk_Header b)) (\<lambda>x. x \<in> set (bs @ [b]))
      (cache_add (pick 0) 1000 (cs_blockCache cs) (hdr_Hash (blk_Header b)) b)"
    using update by (intro cache_add_ok) (auto simp: picks_key_def elim: cache_ok_mono)
  moreover have "cache_ok tx_Hash (\<lambda>tx. \<exists>x \<in> set (bs @ [b]). tx \<in> set (blk_Transactions x)) (cs_txCache ?cs)"
    unfolding UpdateLatestBlock_def Let_def
    using update by (intro cache_txs_ok) (auto simp: addBlockToCache_def elim: cache_ok_mono)
  moreover have "cs_maxCacheSize ?cs = 1000"
    by (simp add: UpdateLatestBlock_def addBlockToCache_def size Let_def)
  ultimately show ?case by simp
qed (auto simp: SetDifficulty_def ClearCache_def cs_Reset_def SaveSnapshot_def split: prod.split)

lemma snapshotKey_new [simp]:
  "headerKey h \<noteq> snapshotKey" "blockKey h \<noteq> snapshotKey" "heightKey n \<noteq> snapshotKey" "latestHeightKey \<noteq> snapshotKey"
  by (simp_all add: snapshotKey_def key_defs prefix_defs)

section \<open>Properties\<close>

text \<open>
  C17. The state follows the chain. For a store that holds a chain, NewChainState returns and has the head
  of the chain and the number of its transactions; when AddBlock then appends a block, updating that
  state with the block gives the state that NewChainState would load from the new store.
\<close>

theorem chain_state_follows_chain:
  assumes "db_spec L contents" and "json_ok J" and "chain_ok C J L contents bc bs" and "Suc (Suc (length bs)) < 2 ^ 64"
    and "readable bc" and "AddBlock_body C J L b bc = Done (bc', None)"
  shows "\<exists>cs cs'. NewChainState J L (bc_store bc) = Some cs \<and> tracks cs bs
    \<and> NewChainState J L (bc_store bc') = Some cs' \<and> tracks cs' (bs @ [b])
    \<and> tracks (UpdateLatestBlock pick cs b) (bs @ [b])"
proof -
  from assms(4) have len: "Suc (length bs) < 2 ^ 64" by simp
  note step = AddBlock_body_chain [OF assms(1-3) len assms(5,6)]
  then have "stored_chain C (bc_config bc') J L contents (bc_store bc') (bs @ [b])" by (simp add: chain_ok_def)
  from loadState_tracks [OF assms(1) this] assms(4)
  obtain cs' where new: "NewChainState J L (bc_store bc') = Some cs'" "tracks cs' (bs @ [b])" by auto
  from assms(3) have "stored_chain C (bc_config bc) J L contents (bc_store bc) bs" by (simp add: chain_ok_def)
  from loadState_tracks [OF assms(1) this len]
  obtain cs where old: "NewChainState J L (bc_store bc) = Some cs" "tracks cs bs" by blast
  have "hdr_Height (blk_Header b) = of_nat (Suc (length bs))"
    using step assms(3) validateBlock_accepts [OF assms(5)] by (auto simp: chain_ok_def)
  from UpdateLatestBlock_tracks [OF old(2) this] old new show ?thesis by blast
qed

theorem chain_state_follows_chain_witness:
  "\<exists>cs bc'. AddBlock_body demo_crypto demo_json map_db demo_block demo_bc = Done (bc', None)
     \<and> NewChainState demo_json map_db (bc_store bc') = Some cs \<and> tracks cs [demo_block]"
proof -
  obtain bc' where a: "AddBlock_body demo_crypto demo_json map_db demo_block demo_bc = Done (bc', None)"
    using demo_bc_appends by blast
  have "readable demo_bc" by (simp add: demo_bc_def free_lock_def)
  from chain_state_follows_chain [OF map_db_spec demo_json_ok demo_bc_ok _ this a] a show ?thesis by auto
qed

text \<open>
  In every run of the state manager a cache holds at most 1000 entries, each under its own hash, and
  a cached block or transaction is one that UpdateLatestBlock was called with.
\<close>

theorem caches_bounded_and_sound:
  assumes "state_run J L cs bs"
  shows "fst (GetCacheStats cs) \<le> 1000 \<and> snd (GetCacheStats cs) \<le> 1000
    \<and> (\<forall>h b. GetBlockFromCache cs h = Some b \<longrightarrow> hdr_Hash (blk_Header b) = h \<and> b \<in> set bs)
    \<and> (\<forall>h tx. GetTxFromCache cs h = Some tx \<longrightarrow> tx_Hash tx = h \<and> (\<exists>b \<in> set bs. tx \<in> set (blk_Transactions b)))"
  using state_run_caches [OF assms] by (simp add: cache_ok_def GetCacheStats_def GetBlockFromCache_def GetTxFromCache_def)

definition demo_pick :: "nat \<Rightarrow> hash fset \<Rightarrow> hash" where
  "demo_pick n K = hd (sorted_list_of_fset K)"

lemma demo_pick_ok: "picks_key demo_pick"
proof -
  have "hd (sorted_list_of_fset K) |\<in>| K" if "K \<noteq> {||}" for K :: "hash fset"
    using that hd_in_set [of "sorted_list_of_fset K"] by (metis fset_of_list_elem list.set_sel(1) sorted_list_of_fset_simps(2) bot_fset.rep_eq fset_of_list_simps(1))
  then show ?thesis by (simp add: picks_key_def demo_pick_def)
qed

theorem caches_bounded_and_sound_witness:
  "\<exists>cs. state_run demo_json map_db cs [demo_block] \<and> fst (GetCacheStats cs) \<le> 1000
     \<and> GetBlockFromCache cs (hdr_Hash (blk_Header demo_block)) = Some demo_block"
proof -
  obtain cs where "NewChainState demo_json map_db Map.empty = Some cs"
    by (simp add: NewChainState_def loadState_def empty_state_def BS_GetLatestHeight_def
        Storage_Get_spec [OF map_db_spec] Let_def)
  from state_run.update [OF state_run.start [OF this] demo_pick_ok, of demo_block]
  have r: "state_run demo_json map_db (UpdateLatestBlock demo_pick cs demo_block) [demo_block]" by simp
  moreover have "GetBlockFromCache (UpdateLatestBlock demo_pick cs demo_block) (hdr_Hash (blk_Header demo_block)) = Some demo_block"
    by (simp add: UpdateLatestBlock_def GetBlockFromCache_def addBlockToCache_def cache_add_def Let_def)
  ultimately show ?thesis using caches_bounded_and_sound [OF r] by blast
qed

text \<open>
  A saved snapshot is loaded back as it was taken, by any later state manager over the same store,
  and saving it leaves the stored chain as it is.
\<close>

theorem snapshot_roundtrip:
  assumes "db_spec L contents" and "json_ok J" and "SaveSnapshot J L cs = (cs', None)"
    and "stored_chain C cfg J L contents (cs_storage cs) bs" and "cs_storage cs2 = cs_storage cs'"
  shows "LoadSnapshot J L cs2 = Inr (GetSnapshot cs) \<and> HexToHash (ss_LatestHash (GetSnapshot cs)) = Inr (cs_latestHash cs)
    \<and> stored_chain C cfg J L contents (cs_storage cs') bs"
proof -
  let ?s = "cs_storage cs" and ?s' = "cs_storage cs'"
  have "Storage_Put L ?s snapshotKey (js_text J (enc_snapshot (GetSnapshot cs))) = (?s', None)"
    using assms(3) by (auto simp: SaveSnapshot_def split: prod.splits)
  from Storage_Put_spec [OF assms(1) this]
  have c: "contents ?s' = (contents ?s)(snapshotKey \<mapsto> js_text J (enc_snapshot (GetSnapshot cs)))" by simp
  have "entry_ok C cfg J L contents ?s n b \<Longrightarrow> entry_ok C cfg J L contents ?s' n b" for n b
    by (rule entry_ok_cong [OF assms(1)]) (simp_all add: c)
  with assms(4) GetLatestHeight_cong [OF assms(1), of ?s' ?s] c
  have "stored_chain C cfg J L contents ?s' bs" by (simp add: stored_chain_def)
  moreover have "LoadSnapshot J L cs2 = Inr (GetSnapshot cs)"
    unfolding LoadSnapshot_def assms(5) by (simp add: Storage_Get_spec [OF assms(1)] c assms(2))
  ultimately show ?thesis by (simp add: GetSnapshot_def)
qed

theorem snapshot_roundtrip_witness:
  "\<exists>cs'. SaveSnapshot demo_json map_db (empty_state Map.empty) = (cs', None)
     \<and> LoadSnapshot demo_json map_db cs' = Inr (GetSnapshot (empty_state (Map.empty :: bytes \<rightharpoonup> bytes)))"
proof -
  obtain cs' where a: "SaveSnapshot demo_json map_db (empty_state Map.empty) = (cs', None)"
    by (simp add: SaveSnapshot_def Storage_Put_def map_db_def Let_def)
  have "stored_chain demo_crypto (bc_config demo_bc) demo_json map_db (\<lambda>s. s) (cs_storage (empty_state Map.empty)) []"
    using demo_bc_ok by (simp add: chain_ok_def demo_bc_def empty_state_def)
  from snapshot_roundtrip [OF map_db_spec demo_json_ok a this refl] a show ?thesis by blast
qed

text \<open>Without the block of the recorded height, the error of loadState is ignored and the height is kept.\<close>

lemma state_without_block:
  assumes "BS_GetLatestHeight L s = Inr n" and "0 < n" and "BS_GetLatestBlock J L s = Inl e"
  shows "NewChainState J L s = Some ((empty_state s)\<lparr>cs_latestHeight := n\<rparr>)"
  using assms by (simp add: NewChainState_def loadState_def empty_state_def Let_def)

end
