(* ===== verification/Merkle.thy ===== *)
theory Merkle
  imports Chain_Types
begin

text \<open>
  The Merkle tree of blockchain/merkle.go: building a tree from data or from hashes, inclusion
  proofs and their verification. Its pairing loop and the one of CalculateMerkleRoot are
  interpretations of \<open>merkle_scheme\<close>, related by the map that reads the hash of a node.
\<close>

section \<open>Trees and proofs\<close>

datatype MerkleNode =
  MerkleNode (mn_Left: "MerkleNode option") (mn_Right: "MerkleNode option")
    (mn_Hash: hash) (mn_Data: bytes) (mn_IsLeaf: bool)

record MerkleTree =
  mt_Root :: "MerkleNode option"
  mt_Leaves :: "MerkleNode list"

record MerkleProof =
  mp_Index :: int
  mp_Leaf :: hash
  mp_Hashes :: "hash list"
  mp_Flags :: "bool list"

datatype merkle_error = EmptyData | EmptyHashes | NoTransactions | IndexOutOfRange

definition parent_node :: "crypto \<Rightarrow> MerkleNode \<Rightarrow> MerkleNode \<Rightarrow> MerkleNode" where
  "parent_node C l r = MerkleNode (Some l) (Some r) (hashPair C (mn_Hash l) (mn_Hash r)) [] False"

function buildTree :: "crypto \<Rightarrow> MerkleNode list \<Rightarrow> MerkleNode option" where
  "buildTree C nodes =
     (if length nodes = 0 then None
      else if length nodes = 1 then Some (nodes ! 0)
      else buildTree C (pair_up (parent_node C) (pad_last nodes)))"
  by pat_completeness auto
termination
proof (relation "measure (\<lambda>(C, nodes). length nodes)")
  fix C and nodes :: "MerkleNode list"
  assume "length nodes \<noteq> 0" and "length nodes \<noteq> 1"
  then have "(length nodes + 1) div 2 < length nodes" by linarith
  then show "((C, pair_up (parent_node C) (pad_last nodes)), C, nodes)
      \<in> measure (\<lambda>(C, nodes). length nodes)"
    by (simp add: length_pad_last)
qed simp

declare buildTree.simps [simp del]

definition NewMerkleTree :: "crypto \<Rightarrow> bytes list \<Rightarrow> merkle_error + MerkleTree" where
  "NewMerkleTree C data =
     (if length data = 0 then Inl EmptyData
      else let leaves = map (\<lambda>item. MerkleNode None None (sum256 C item) item True) data
           in Inr \<lparr>mt_Root = buildTree C leaves, mt_Leaves = leaves\<rparr>)"

definition NewMerkleTreeFromHashes :: "crypto \<Rightarrow> hash list \<Rightarrow> merkle_error + MerkleTree" where
  "NewMerkleTreeFromHashes C hashes =
     (if length hashes = 0 then Inl EmptyHashes
      else let leaves = map (\<lambda>h. MerkleNode None None h [] True) hashes
           in Inr \<lparr>mt_Root = buildTree C leaves, mt_Leaves = leaves\<rparr>)"

definition GetRoot :: "MerkleTree \<Rightarrow> hash" where
  "GetRoot mt = (case mt_Root mt of None \<Rightarrow> 0 | Some n \<Rightarrow> mn_Hash n)"

function GetProof_loop ::
  "crypto \<Rightarrow> MerkleNode list \<Rightarrow> nat \<Rightarrow> hash list \<Rightarrow> bool list \<Rightarrow> hash list \<times> bool list" where
  "GetProof_loop C currentLevel index hashes flags =
     (if 1 < length currentLevel then
        let level = pad_last currentLevel;
            parentLevel = pair_up (parent_node C) level
        in if even index
           then GetProof_loop C parentLevel (index div 2)
                  (hashes @ [mn_Hash (level ! (index + 1))]) (flags @ [True])
           else GetProof_loop C parentLevel (index div 2)
                  (hashes @ [mn_Hash (level ! (index - 1))]) (flags @ [False])
      else (hashes, flags))"
  by pat_completeness auto
termination
  by (relation "measure (\<lambda>(C, lvl, i, hs, fs). length lvl)") (auto simp: length_pad_last)

declare GetProof_loop.simps [simp del]

definition GetProof :: "crypto \<Rightarrow> MerkleTree \<Rightarrow> int \<Rightarrow> merkle_error + MerkleProof" where
  "GetProof C mt index =
     (if index < 0 \<or> int (length (mt_Leaves mt)) \<le> index then Inl IndexOutOfRange
      else let (hashes, flags) = GetProof_loop C (mt_Leaves mt) (nat index) [] []
           in Inr \<lparr>mp_Index = index, mp_Leaf = mn_Hash (mt_Leaves mt ! nat index),
                   mp_Hashes = hashes, mp_Flags = flags\<rparr>)"

fun Verify_loop :: "crypto \<Rightarrow> hash \<Rightarrow> hash list \<Rightarrow> bool list \<Rightarrow> hash outcome" where
  "Verify_loop C hash [] flags = Done hash"
| "Verify_loop C hash (sib # sibs) [] = Panic"
| "Verify_loop C hash (sib # sibs) (flag # flags) =
     Verify_loop C (if flag then hashPair C hash sib else hashPair C sib hash) sibs flags"

definition MerkleProof_Verify :: "crypto \<Rightarrow> MerkleProof \<Rightarrow> hash \<Rightarrow> bool outcome" where
  "MerkleProof_Verify C mp root =
     obind (Verify_loop C (mp_Leaf mp) (mp_Hashes mp) (mp_Flags mp)) (\<lambda>hash. Done (hash = root))"

text \<open>The flag bits, eight to a byte, least significant first; a byte is written when full or last.\<close>

fun pack_flags :: "bool list \<Rightarrow> nat \<Rightarrow> byte \<Rightarrow> bytes" where
  "pack_flags [] i flagByte = []"
| "pack_flags (flag # flags) i flagByte =
     (let b = (if flag then or flagByte (push_bit (i mod 8) 1) else flagByte) in
      if (i + 1) mod 8 = 0 \<or> flags = [] then b # pack_flags flags (i + 1) 0
      else pack_flags flags (i + 1) b)"

definition MerkleProof_Serialize :: "MerkleProof \<Rightarrow> bytes" where
  "MerkleProof_Serialize mp =
     put_be (of_int (mp_Index mp) :: u32) @ put_be (mp_Leaf mp)
     @ [of_nat (length (mp_Hashes mp))] @ concat (map put_be (mp_Hashes mp))
     @ pack_flags (mp_Flags mp) 0 0"

definition MerkleTreeFromTransactions :: "crypto \<Rightarrow> tx list \<Rightarrow> merkle_error + MerkleTree" where
  "MerkleTreeFromTransactions C txs =
     (if length txs = 0 then Inl NoTransactions
      else NewMerkleTreeFromHashes C (map (Transaction_CalculateHash C) txs))"

definition MerkleTree_VerifyTransaction :: "crypto \<Rightarrow> MerkleTree \<Rightarrow> tx \<Rightarrow> bool" where
  "MerkleTree_VerifyTransaction C mt tx \<longleftrightarrow>
     (\<exists>leaf \<in> set (mt_Leaves mt). mn_Hash leaf = Transaction_CalculateHash C tx)"

definition GetLeafCount :: "MerkleTree \<Rightarrow> nat" where
  "GetLeafCount mt = length (mt_Leaves mt)"

definition GetLeafHash :: "MerkleTree \<Rightarrow> int \<Rightarrow> merkle_error + hash" where
  "GetLeafHash mt index =
     (if index < 0 \<or> int (length (mt_Leaves mt)) \<le> index then Inl IndexOutOfRange
      else Inr (mn_Hash (mt_Leaves mt ! nat index)))"

section \<open>Both pairing loops are Merkle schemes\<close>

lemma mn_Hash_parent [simp]: "mn_Hash (parent_node C l r) = hashPair C (mn_Hash l) (mn_Hash r)"
  by (simp add: parent_node_def)

definition hashes_root :: "crypto \<Rightarrow> hash list \<Rightarrow> hash option" where
  "hashes_root C hs = loop_root (hashPair C) hs"

lemma CalculateMerkleRoot_hashes:
  "txs \<noteq> [] \<Longrightarrow> hashes_root C (map (Transaction_CalculateHash C) txs) = Some (CalculateMerkleRoot C txs)"
  by (simp add: CalculateMerkleRoot_def hashes_root_def loop_root_def hashPair_def [abs_def])

interpretation hash_scheme: merkle_scheme "hashPair C" "hashes_root C" for C
  by unfold_locales (auto simp: hashes_root_def loop_root_level)

interpretation tree_scheme: merkle_scheme "parent_node C" "buildTree C" for C
proof unfold_locales
  show "buildTree C [x] = Some x" for x by (subst buildTree.simps) simp
  show "1 < length xs \<Longrightarrow> buildTree C xs = buildTree C (merkle_level (parent_node C) xs)" for xs
    by (subst buildTree.simps) (auto simp: merkle_level_def)
qed

interpretation node_hash: merkle_morphism "parent_node C" "buildTree C" "hashPair C" "hashes_root C" mn_Hash
  for C
  by unfold_locales simp

section \<open>Inclusion proofs\<close>

lemma GetProof_loop_acc:
  "GetProof_loop C lvl i hs fs =
     (hs @ fst (GetProof_loop C lvl i [] []), fs @ snd (GetProof_loop C lvl i [] []))"
proof (induction "length lvl" arbitrary: lvl i hs fs rule: less_induct)
  case less
  show ?case
  proof (cases "1 < length lvl")
    case True
    let ?p = "pair_up (parent_node C) (pad_last lvl)"
    have len: "length ?p < length lvl" using True by (simp add: length_pad_last)
    show ?thesis
      using less [OF len, of "i div 2" "hs @ [_]" "fs @ [_]"] less [OF len, of "i div 2" "[_]" "[_]"] True
      by (subst (1 2 3) GetProof_loop.simps) (simp add: Let_def)
  next
    case False
    then show ?thesis by (subst (1 2 3) GetProof_loop.simps) simp
  qed
qed

lemma GetProof_loop_stop: "length lvl \<le> 1 \<Longrightarrow> GetProof_loop C lvl i hs fs = (hs, fs)"
  by (subst GetProof_loop.simps) simp

lemma GetProof_loop_verifies:
  assumes "i < length lvl"
  shows "\<exists>n. buildTree C lvl = Some n
    \<and> Verify_loop C (mn_Hash (lvl ! i)) (fst (GetProof_loop C lvl i [] []))
        (snd (GetProof_loop C lvl i [] [])) = Done (mn_Hash n)"
  using assms
proof (induction "length lvl" arbitrary: lvl i rule: less_induct)
  case less
  show ?case
  proof (cases "1 < length lvl")
    case True
    let ?l = "pad_last lvl" and ?p = "merkle_level (parent_node C) lvl"
    define sib where "sib = mn_Hash (?l ! (if even i then i + 1 else i - 1))"
    have i2: "i div 2 < length ?p" and len: "length ?p < length lvl" using True less.prems by auto
    have step: "GetProof_loop C lvl i [] [] = GetProof_loop C ?p (i div 2) [sib] [even i]"
      using True by (subst GetProof_loop.simps) (simp add: Let_def merkle_level_def sib_def)
    have nth: "?p ! (i div 2) = parent_node C (?l ! (2 * (i div 2))) (?l ! (2 * (i div 2) + 1))"
      unfolding merkle_level_def using i2 by (intro pair_up_nth) (simp add: length_pad_last)
    have li: "?l ! i = lvl ! i" using less.prems by (rule pad_last_nth)
    have up: "(if even i then hashPair C (mn_Hash (lvl ! i)) sib
               else hashPair C sib (mn_Hash (lvl ! i))) = mn_Hash (?p ! (i div 2))"
      unfolding nth sib_def by (cases "even i") (auto simp: li elim!: evenE oddE)
    from less.hyps [OF len i2] obtain n where "buildTree C ?p = Some n"
      and "Verify_loop C (mn_Hash (?p ! (i div 2))) (fst (GetProof_loop C ?p (i div 2) [] []))
        (snd (GetProof_loop C ?p (i div 2) [] [])) = Done (mn_Hash n)" by blast
    moreover have "buildTree C lvl = buildTree C ?p"
      using True by (rule tree_scheme.root_level)
    ultimately show ?thesis
      using up by (simp add: step GetProof_loop_acc [of C ?p "i div 2" "[sib]" "[even i]"])
  next
    case False
    with less.prems have "lvl = [lvl ! 0]" and "i = 0" by (cases lvl; simp)+
    with False show ?thesis
      by (metis GetProof_loop_stop Verify_loop.simps(1) fst_conv not_less tree_scheme.root_single)
  qed
qed

text \<open>The byte strings that Verify hashes.\<close>

fun Verify_inputs :: "crypto \<Rightarrow> hash \<Rightarrow> hash list \<Rightarrow> bool list \<Rightarrow> bytes list" where
  "Verify_inputs C hash (sib # sibs) (flag # flags) =
     (let pre = (if flag then put_be hash @ put_be sib else put_be sib @ put_be hash)
      in pre # Verify_inputs C (sum256 C pre) sibs flags)"
| "Verify_inputs C hash _ _ = []"

lemma Verify_loop_binding:
  assumes "Verify_loop C x xs fs = Done r" and "Verify_loop C y ys fs = Done r"
    and "length xs = length ys"
    and "inj_on (sum256 C) (set (Verify_inputs C x xs fs) \<union> set (Verify_inputs C y ys fs))"
  shows "x = y \<and> xs = ys"
  using assms
proof (induction C x xs fs arbitrary: y ys rule: Verify_loop.induct)
  case (3 C x a xs f fs)
  from "3.prems"(3) obtain b ys' where ys: "ys = b # ys'" and len: "length xs = length ys'"
    by (cases ys) auto
  let ?px = "if f then put_be x @ put_be a else put_be a @ put_be x"
  let ?py = "if f then put_be y @ put_be b else put_be b @ put_be y"
  have hx: "(if f then hashPair C x a else hashPair C a x) = sum256 C ?px"
    and hy: "(if f then hashPair C y b else hashPair C b y) = sum256 C ?py"
    by (simp_all add: hashPair_def)
  have vx: "Verify_loop C (sum256 C ?px) xs fs = Done r"
    and vy: "Verify_loop C (sum256 C ?py) ys' fs = Done r"
    using "3.prems"(1,2) by (simp_all add: ys hx hy)
  have "inj_on (sum256 C) (set (Verify_inputs C (sum256 C ?px) xs fs)
      \<union> set (Verify_inputs C (sum256 C ?py) ys' fs))"
    using "3.prems"(4) by (rule inj_on_subset) (auto simp: ys Let_def)
  with "3.IH" [unfolded hx, OF vx vy len] have eq: "sum256 C ?px = sum256 C ?py" and "xs = ys'"
    by auto
  have mx: "?px \<in> set (Verify_inputs C x (a # xs) (f # fs)) \<union> set (Verify_inputs C y ys (f # fs))"
    and my: "?py \<in> set (Verify_inputs C x (a # xs) (f # fs)) \<union> set (Verify_inputs C y ys (f # fs))"
    by (auto simp: ys Let_def)
  have "?px = ?py" by (rule inj_onD [OF "3.prems"(4) eq mx my])
  then have "x = y \<and> a = b" by (auto split: if_splits)
  with \<open>xs = ys'\<close> ys show ?case by simp
qed auto

lemma length_pack_flags:
  "length (pack_flags fs i b) = (if fs = [] then 0 else (i mod 8 + length fs + 7) div 8)"
proof (induction fs i b rule: pack_flags.induct)
  case (2 f fs i b)
  then show ?case
    by (simp add: Let_def; cases "(i + 1) mod 8 = 0") (auto simp: mod_Suc split: if_splits)
qed simp


section \<open>Soundness of inclusion proofs\<close>

text \<open>The byte strings that building the tree over a list of nodes hashes, all levels together.\<close>

definition tree_inputs :: "crypto \<Rightarrow> MerkleNode list \<Rightarrow> bytes set" where
  "tree_inputs C lvl =
     (\<lambda>(a, b). put_be a @ put_be b) ` set (merkle_inputs (hashPair C) (map mn_Hash lvl))"

lemma tree_inputs_parents:
  "1 < length lvl \<Longrightarrow> tree_inputs C (merkle_level (parent_node C) lvl) \<subseteq> tree_inputs C lvl"
  unfolding tree_inputs_def node_hash.map_level by (subst (2) merkle_inputs.simps) auto

lemma tree_inputs_pair:
  assumes "k < length (merkle_level f lvl)" and "1 < length lvl"
  shows "put_be (mn_Hash (pad_last lvl ! (2 * k))) @ put_be (mn_Hash (pad_last lvl ! (2 * k + 1)))
    \<in> tree_inputs C lvl"
proof -
  let ?l = "pad_last lvl"
  have k: "k < length (pair_up Pair (map mn_Hash ?l))"
    using assms(1) by (simp add: length_pad_last)
  then have "pair_up Pair (map mn_Hash ?l) ! k = (mn_Hash (?l ! (2 * k)), mn_Hash (?l ! (2 * k + 1)))"
    by (subst pair_up_nth) (auto simp: length_pad_last)
  with nth_mem [OF k] have "(mn_Hash (?l ! (2 * k)), mn_Hash (?l ! (2 * k + 1)))
      \<in> set (merkle_inputs (hashPair C) (map mn_Hash lvl))"
    using assms(2) by (subst merkle_inputs.simps) (simp add: pad_last_map)
  then show ?thesis by (force simp: tree_inputs_def)
qed

lemma set_pad_last: "xs \<noteq> [] \<Longrightarrow> set (pad_last xs) = set xs"
  by (auto simp: pad_last_def)

lemma parent_level_nth:
  assumes "k < length (merkle_level (parent_node C) lvl)"
  shows "mn_Hash (merkle_level (parent_node C) lvl ! k)
    = sum256 C (put_be (mn_Hash (pad_last lvl ! (2 * k))) @ put_be (mn_Hash (pad_last lvl ! (2 * k + 1))))"
  using assms unfolding merkle_level_def by (simp add: pair_up_nth length_pad_last hashPair_def)

lemma GetProof_loop_level:
  assumes "1 < length lvl"
  shows "GetProof_loop C lvl i [] [] =
     (mn_Hash (pad_last lvl ! (if even i then i + 1 else i - 1))
        # fst (GetProof_loop C (merkle_level (parent_node C) lvl) (i div 2) [] []),
      even i # snd (GetProof_loop C (merkle_level (parent_node C) lvl) (i div 2) [] []))"
  using assms GetProof_loop_acc [of C "merkle_level (parent_node C) lvl" "i div 2" "[_]" "[_]"]
  by (subst GetProof_loop.simps) (auto simp: Let_def merkle_level_def)

text \<open>A proof of full length ends at a leaf.\<close>

lemma Verify_loop_leaf:
  assumes "i < length lvl" and "buildTree C lvl = Some n"
    and "Verify_loop C x hs fs = Done (mn_Hash n)"
    and "length hs = length (fst (GetProof_loop C lvl i [] []))"
    and "inj_on (sum256 C) (set (Verify_inputs C x hs fs) \<union> tree_inputs C lvl)"
  shows "x \<in> mn_Hash ` set lvl"
  using assms
proof (induction "length lvl" arbitrary: lvl i x hs fs rule: less_induct)
  case less
  show ?case
  proof (cases "1 < length lvl")
    case True
    let ?p = "merkle_level (parent_node C) lvl" and ?l = "pad_last lvl"
    from less.prems(4) True obtain sib hs' where hs: "hs = sib # hs'"
      and len: "length hs' = length (fst (GetProof_loop C ?p (i div 2) [] []))"
      by (cases hs) (auto simp: GetProof_loop_level)
    from less.prems(3) hs obtain f fs' where fs: "fs = f # fs'" by (cases fs) auto
    define pre where "pre = (if f then put_be x @ put_be sib else put_be sib @ put_be x)"
    have inputs: "Verify_inputs C x hs fs = pre # Verify_inputs C (sum256 C pre) hs' fs'"
      by (simp add: hs fs pre_def Let_def)
    have "sum256 C pre \<in> mn_Hash ` set ?p"
    proof (rule less.hyps [of ?p "i div 2" _ hs' fs'])
      show "Verify_loop C (sum256 C pre) hs' fs' = Done (mn_Hash n)"
        using less.prems(3) by (auto simp: hs fs pre_def hashPair_def split: if_splits)
      show "buildTree C ?p = Some n"
        using less.prems(2) tree_scheme.root_level [OF True] by simp
      show "inj_on (sum256 C) (set (Verify_inputs C (sum256 C pre) hs' fs') \<union> tree_inputs C ?p)"
        using less.prems(5) tree_inputs_parents [OF True] by (elim inj_on_subset) (auto simp: inputs)
    qed (use True less.prems(1) len in auto)
    then obtain k where k: "k < length ?p" and eq: "sum256 C pre = mn_Hash (?p ! k)"
      by (auto simp: in_set_conv_nth)
    let ?pair = "put_be (mn_Hash (?l ! (2 * k))) @ put_be (mn_Hash (?l ! (2 * k + 1)))"
    have "sum256 C pre = sum256 C ?pair" using eq parent_level_nth [OF k] by simp
    then have "pre = ?pair"
      using less.prems(5) tree_inputs_pair [OF k True] by (elim inj_onD) (auto simp: inputs)
    then have "x = mn_Hash (?l ! (2 * k)) \<or> x = mn_Hash (?l ! (2 * k + 1))"
      by (auto simp: pre_def split: if_splits)
    moreover have "2 * k + 1 < length ?l" using k by (simp add: length_pad_last)
    moreover have "set ?l = set lvl" using True by (intro set_pad_last) auto
    ultimately show ?thesis using nth_mem [of "2 * k" ?l] nth_mem [of "2 * k + 1" ?l] by auto
  next
    case False
    with less.prems(1) obtain m where "lvl = [m]" by (cases lvl) auto
    with less.prems show ?thesis by (auto simp: GetProof_loop_stop tree_scheme.root_single)
  qed
qed

text \<open>Verifying a proof of GetProof hashes strings of the tree only.\<close>

lemma GetProof_loop_inputs:
  assumes "i < length lvl"
  shows "set (Verify_inputs C (mn_Hash (lvl ! i)) (fst (GetProof_loop C lvl i [] []))
      (snd (GetProof_loop C lvl i [] []))) \<subseteq> tree_inputs C lvl"
  using assms
proof (induction "length lvl" arbitrary: lvl i rule: less_induct)
  case less
  show ?case
  proof (cases "1 < length lvl")
    case True
    let ?p = "merkle_level (parent_node C) lvl" and ?l = "pad_last lvl"
    let ?pair = "put_be (mn_Hash (?l ! (2 * (i div 2)))) @ put_be (mn_Hash (?l ! (2 * (i div 2) + 1)))"
    have k: "i div 2 < length ?p" and lt: "length ?p < length lvl" using True less.prems by auto
    have pre: "(if even i then put_be (mn_Hash (lvl ! i)) @ put_be (mn_Hash (?l ! (i + 1)))
        else put_be (mn_Hash (?l ! (i - 1))) @ put_be (mn_Hash (lvl ! i))) = ?pair"
      using pad_last_nth [OF less.prems] by (cases "even i") (auto elim!: evenE oddE)
    have "set (Verify_inputs C (sum256 C ?pair) (fst (GetProof_loop C ?p (i div 2) [] []))
        (snd (GetProof_loop C ?p (i div 2) [] []))) \<subseteq> tree_inputs C ?p"
      using less.hyps [OF lt k] parent_level_nth [OF k] by simp
    with tree_inputs_parents [OF True] tree_inputs_pair [OF k True] pre show ?thesis
      by (cases "even i") (auto simp: GetProof_loop_level [OF True] Let_def)
  qed (simp add: GetProof_loop_stop)
qed

section \<open>Properties\<close>

lemma NewMerkleTreeFromHashes_Inr:
  assumes "hs \<noteq> []"
  obtains mt where "NewMerkleTreeFromHashes C hs = Inr mt"
    and "mt_Root mt = buildTree C (mt_Leaves mt)" and "map mn_Hash (mt_Leaves mt) = hs"
  using assms by (simp add: NewMerkleTreeFromHashes_def Let_def o_def)

lemma GetRoot_hashes_root:
  assumes "mt_Root mt = buildTree C (mt_Leaves mt)" and "mt_Leaves mt \<noteq> []"
  shows "hashes_root C (map mn_Hash (mt_Leaves mt)) = Some (GetRoot mt)"
  using node_hash.root_map [OF assms(2), of C] tree_scheme.root_defined [OF assms(2), of C] assms(1)
  by (auto simp: GetRoot_def)

text \<open>
  C9. The two Merkle computations agree: the tree of merkle.go over the transactions of a block has
  the root that CalculateMerkleRoot puts into the header, and one leaf for each transaction; the
  tree is refused exactly when there are no transactions.
\<close>

theorem merkle_tree_root_agrees:
  "case MerkleTreeFromTransactions C txs of
     Inl e \<Rightarrow> txs = [] \<and> e = NoTransactions
   | Inr mt \<Rightarrow> GetRoot mt = CalculateMerkleRoot C txs
       \<and> map mn_Hash (mt_Leaves mt) = map (Transaction_CalculateHash C) txs"
proof (cases "txs = []")
  case False
  let ?hs = "map (Transaction_CalculateHash C) txs"
  have "?hs \<noteq> []" using False by simp
  then obtain mt where mt: "NewMerkleTreeFromHashes C ?hs = Inr mt"
    and r: "mt_Root mt = buildTree C (mt_Leaves mt)" and l: "map mn_Hash (mt_Leaves mt) = ?hs"
    by (rule NewMerkleTreeFromHashes_Inr)
  have "hashes_root C ?hs = Some (GetRoot mt)"
    using GetRoot_hashes_root [OF r] l False by force
  with CalculateMerkleRoot_hashes [OF False] mt l False show ?thesis
    by (simp add: MerkleTreeFromTransactions_def)
qed (simp add: MerkleTreeFromTransactions_def)

lemma GetProof_complete:
  assumes "i < length txs"
  shows "\<exists>mt p. MerkleTreeFromTransactions C txs = Inr mt \<and> GetProof C mt (int i) = Inr p
    \<and> mp_Leaf p = Transaction_CalculateHash C (txs ! i)
    \<and> MerkleProof_Verify C p (CalculateMerkleRoot C txs) = Done True"
proof -
  let ?hs = "map (Transaction_CalculateHash C) txs"
  have ne: "txs \<noteq> []" and ne': "?hs \<noteq> []" using assms by auto
  from ne' obtain mt where mt: "NewMerkleTreeFromHashes C ?hs = Inr mt"
    and r: "mt_Root mt = buildTree C (mt_Leaves mt)" and l: "map mn_Hash (mt_Leaves mt) = ?hs"
    by (rule NewMerkleTreeFromHashes_Inr)
  have len: "length (mt_Leaves mt) = length txs"
    using arg_cong [OF l, of length] by simp
  have leaf: "mn_Hash (mt_Leaves mt ! i) = Transaction_CalculateHash C (txs ! i)"
    using arg_cong [OF l, of "\<lambda>xs. xs ! i"] len assms by simp
  have root: "GetRoot mt = CalculateMerkleRoot C txs"
    using GetRoot_hashes_root [OF r] CalculateMerkleRoot_hashes [OF ne, of C] l ne len by force
  from assms len have "i < length (mt_Leaves mt)" by simp
  from GetProof_loop_verifies [OF this, of C] obtain n where "mt_Root mt = Some n"
    and "Verify_loop C (mn_Hash (mt_Leaves mt ! i)) (fst (GetProof_loop C (mt_Leaves mt) i [] []))
       (snd (GetProof_loop C (mt_Leaves mt) i [] [])) = Done (mn_Hash n)" by (auto simp: r)
  with assms len leaf root mt ne show ?thesis
    by (auto simp: MerkleTreeFromTransactions_def GetProof_def MerkleProof_Verify_def GetRoot_def
        split: prod.splits)
qed

text \<open>
  Inclusion proofs are complete: for every transaction of a block, GetProof returns a proof for
  its hash, Verify never panics on it, and it verifies against the Merkle root of the block.
\<close>

theorem merkle_proof_complete:
  assumes "i < length txs"
  shows "\<exists>mt p. MerkleTreeFromTransactions C txs = Inr mt \<and> GetProof C mt (int i) = Inr p
    \<and> mp_Leaf p = Transaction_CalculateHash C (txs ! i)
    \<and> MerkleProof_Verify C p (CalculateMerkleRoot C txs) = Done True"
  by (rule GetProof_complete [OF assms])

theorem merkle_proof_complete_witness:
  "\<exists>mt p. MerkleTreeFromTransactions demo_crypto [demo_tx, demo_tx, demo_tx] = Inr mt
     \<and> GetProof demo_crypto mt 2 = Inr p
     \<and> MerkleProof_Verify demo_crypto p (CalculateMerkleRoot demo_crypto [demo_tx, demo_tx, demo_tx])
         = Done True"
  using merkle_proof_complete [of 2 "[demo_tx, demo_tx, demo_tx]" demo_crypto] by auto

text \<open>
  C10. Inclusion proofs are sound: a proof that verifies against the root of the tree over a block's
  transactions, and lists as many siblings as the proofs of this tree do, is a proof of a leaf of the
  tree: its leaf is the hash of one of the transactions, so MerkleTree.VerifyTransaction accepts that
  transaction. If moreover its left/right flags are those of the proof that GetProof returns for
  index i, its leaf is the hash of transaction i and its siblings are those of GetProof. The number of
  siblings has to be compared by the caller: Verify does not look at it, and a shorter proof shows
  an inner node. SHA-256 is assumed not to collide on the strings that Verify and the tree hash.
\<close>

theorem merkle_proof_sound:
  assumes "MerkleTreeFromTransactions C txs = Inr mt" and "GetProof C mt i = Inr q"
    and "length (mp_Hashes p) = length (mp_Hashes q)"
    and "MerkleProof_Verify C p (GetRoot mt) = Done True"
    and "inj_on (sum256 C)
      (set (Verify_inputs C (mp_Leaf p) (mp_Hashes p) (mp_Flags p)) \<union> tree_inputs C (mt_Leaves mt))"
  shows "(\<exists>tx \<in> set txs. mp_Leaf p = Transaction_CalculateHash C tx \<and> MerkleTree_VerifyTransaction C mt tx)
    \<and> (mp_Flags p = mp_Flags q \<longrightarrow>
         mp_Leaf p = Transaction_CalculateHash C (txs ! nat i) \<and> mp_Hashes p = mp_Hashes q)"
proof -
  let ?ls = "mt_Leaves mt"
  from assms(1) have r: "mt_Root mt = buildTree C ?ls"
    and l: "map mn_Hash ?ls = map (Transaction_CalculateHash C) txs"
    by (auto simp: MerkleTreeFromTransactions_def NewMerkleTreeFromHashes_def Let_def o_def
        split: if_splits)
  from assms(2) have i: "nat i < length ?ls" and q: "mp_Leaf q = mn_Hash (?ls ! nat i)"
    "mp_Hashes q = fst (GetProof_loop C ?ls (nat i) [] [])"
    "mp_Flags q = snd (GetProof_loop C ?ls (nat i) [] [])"
    by (auto simp: GetProof_def split: if_splits prod.splits)
  from GetProof_loop_verifies [OF i, of C] obtain n where n: "buildTree C ?ls = Some n"
    and vq: "Verify_loop C (mp_Leaf q) (mp_Hashes q) (mp_Flags q) = Done (mn_Hash n)"
    by (auto simp: q)
  from assms(4) n have vp: "Verify_loop C (mp_Leaf p) (mp_Hashes p) (mp_Flags p) = Done (mn_Hash n)"
    by (auto simp: MerkleProof_Verify_def GetRoot_def r obind_eq_Done)
  have "mp_Leaf p \<in> mn_Hash ` set ?ls"
    using assms(3,5) by (intro Verify_loop_leaf [OF i n vp]) (simp_all add: q)
  then have "mp_Leaf p \<in> set (map (Transaction_CalculateHash C) txs)" by (simp flip: l)
  moreover have "MerkleTree_VerifyTransaction C mt tx \<longleftrightarrow>
      Transaction_CalculateHash C tx \<in> set (map mn_Hash ?ls)" for tx
    unfolding MerkleTree_VerifyTransaction_def set_map image_iff by metis
  ultimately have "\<exists>tx \<in> set txs. mp_Leaf p = Transaction_CalculateHash C tx
      \<and> MerkleTree_VerifyTransaction C mt tx" by (auto simp: l)
  moreover have "mp_Leaf p = mp_Leaf q \<and> mp_Hashes p = mp_Hashes q" if "mp_Flags p = mp_Flags q"
  proof (rule Verify_loop_binding [OF vp _ assms(3)])
    show "Verify_loop C (mp_Leaf q) (mp_Hashes q) (mp_Flags p) = Done (mn_Hash n)"
      using vq that by simp
    show "inj_on (sum256 C) (set (Verify_inputs C (mp_Leaf p) (mp_Hashes p) (mp_Flags p))
        \<union> set (Verify_inputs C (mp_Leaf q) (mp_Hashes q) (mp_Flags p)))"
      using assms(5) GetProof_loop_inputs [OF i, of C] that
      by (elim inj_on_subset) (auto simp: q)
  qed
  moreover have "mn_Hash (?ls ! nat i) = Transaction_CalculateHash C (txs ! nat i)"
    using arg_cong [OF l, of "\<lambda>xs. xs ! nat i"] arg_cong [OF l, of length] i by simp
  ultimately show ?thesis by (simp add: q)
qed

text \<open>A block of three transactions, the third paired with itself.\<close>

definition demo_block_txs :: "tx list" where
  "demo_block_txs = [demo_tx\<lparr>tx_Data := []\<rparr>, demo_tx\<lparr>tx_Data := [1]\<rparr>, demo_tx]"

definition pair_crypto :: crypto where
  "pair_crypto = demo_crypto\<lparr>sum256 := \<lambda>bs. 3 * get_be (take 32 bs) + get_be (drop 32 bs)\<rparr>"

definition demo_proof :: MerkleProof where
  "demo_proof = \<lparr>mp_Index = 1, mp_Leaf = 86, mp_Hashes = [85, 348], mp_Flags = [False, True]\<rparr>"

lemma demo_block_tree:
  obtains mt where "MerkleTreeFromTransactions pair_crypto demo_block_txs = Inr mt" and "GetRoot mt = 1371"
    and "map mn_Hash (mt_Leaves mt) = [85, 86, 87]"
proof -
  let ?hs = "map (Transaction_CalculateHash pair_crypto) demo_block_txs"
  have n: "?hs = [85, 86, 87]"
    by (simp add: demo_block_txs_def pair_crypto_def demo_crypto_def demo_hash_def
        Transaction_CalculateHash_def Transaction_Serialize_def demo_tx_def)
  then obtain mt where mt: "NewMerkleTreeFromHashes pair_crypto ?hs = Inr mt"
    and r: "mt_Root mt = buildTree pair_crypto (mt_Leaves mt)" and l: "map mn_Hash (mt_Leaves mt) = [85, 86, 87]"
    by (metis NewMerkleTreeFromHashes_Inr list.distinct(1))
  have "hashes_root pair_crypto [85, 86, 87] = Some (GetRoot mt)" using GetRoot_hashes_root [OF r] l by force
  moreover have "hashes_root pair_crypto [85, 86, 87] = Some 1371"
    by (simp add: hashes_root_def loop_root_level merkle_level_def pad_last_def hashPair_def pair_crypto_def)
  ultimately show thesis
    by (intro that [of mt]) (use mt l in \<open>simp_all add: MerkleTreeFromTransactions_def demo_block_txs_def\<close>)
qed

theorem merkle_proof_sound_witness:
  "\<exists>mt. MerkleTreeFromTransactions pair_crypto demo_block_txs = Inr mt
     \<and> MerkleProof_Verify pair_crypto demo_proof (GetRoot mt) = Done True
     \<and> (\<exists>tx \<in> set demo_block_txs. mp_Leaf demo_proof = Transaction_CalculateHash pair_crypto tx)"
proof -
  obtain mt where mt: "MerkleTreeFromTransactions pair_crypto demo_block_txs = Inr mt" and r: "GetRoot mt = 1371"
    and l: "map mn_Hash (mt_Leaves mt) = [85, 86, 87]" by (rule demo_block_tree)
  have len: "length (mt_Leaves mt) = 3" using arg_cong [OF l, of length] by simp
  then obtain q where q: "GetProof pair_crypto mt 0 = Inr q" and "length (mp_Hashes q) = 2"
    by (auto simp: GetProof_def GetProof_loop_level length_pad_last GetProof_loop_stop split: prod.splits)
  then have d: "length (mp_Hashes demo_proof) = length (mp_Hashes q)" by (simp add: demo_proof_def)
  have v: "MerkleProof_Verify pair_crypto demo_proof (GetRoot mt) = Done True"
    by (simp add: MerkleProof_Verify_def demo_proof_def r hashPair_def pair_crypto_def)
  have inj: "inj_on (sum256 pair_crypto)
      (set (Verify_inputs pair_crypto (mp_Leaf demo_proof) (mp_Hashes demo_proof) (mp_Flags demo_proof))
       \<union> tree_inputs pair_crypto (mt_Leaves mt))"
    unfolding tree_inputs_def l
    by (simp add: demo_proof_def merkle_inputs.simps [of _ "_ # _"] merkle_level_def pad_last_def hashPair_def
        pair_crypto_def Let_def insert_Diff_if)
  from merkle_proof_sound [OF mt q d v inj] mt v show ?thesis by auto
qed

text \<open>
  The Merkle root does not determine the list of transactions: repeating the last transaction
  of an odd block keeps the root, so two blocks with different bodies share a header root.
\<close>

theorem merkle_root_duplicate_last:
  assumes "odd (length txs)" and "1 < length txs"
  shows "CalculateMerkleRoot C (txs @ [last txs]) = CalculateMerkleRoot C txs"
proof -
  let ?h = "Transaction_CalculateHash C"
  have ne: "txs \<noteq> []" using assms(2) by auto
  have "hashes_root C (map ?h txs @ [last (map ?h txs)]) = hashes_root C (map ?h txs)"
    using assms by (intro hash_scheme.root_duplicate_last) auto
  then have "hashes_root C (map ?h (txs @ [last txs])) = hashes_root C (map ?h txs)"
    using ne by (simp add: last_map)
  then show ?thesis
    using CalculateMerkleRoot_hashes [OF ne, of C]
      CalculateMerkleRoot_hashes [of "txs @ [last txs]" C] by simp
qed

theorem merkle_root_duplicate_last_witness:
  "CalculateMerkleRoot demo_crypto [demo_tx, demo_tx, demo_tx\<lparr>tx_Data := []\<rparr>, demo_tx\<lparr>tx_Data := []\<rparr>]
   = CalculateMerkleRoot demo_crypto [demo_tx, demo_tx, demo_tx\<lparr>tx_Data := []\<rparr>]"
  using merkle_root_duplicate_last [of "[demo_tx, demo_tx, demo_tx\<lparr>tx_Data := []\<rparr>]" demo_crypto]
  by simp

text \<open>
  For a fixed number of transactions the root is binding: blocks with equally many transactions
  and the same root hold transactions with the same signed contents in the same order, unless
  SHA-256 or Keccak-256 collides on the inputs of the two computations.
\<close>

theorem merkle_root_binding:
  assumes "length txs = length txs'"
    and "CalculateMerkleRoot C txs = CalculateMerkleRoot C txs'"
    and "inj_on (\<lambda>(a, b). hashPair C a b)
      (set (merkle_inputs (hashPair C) (map (Transaction_CalculateHash C) txs))
       \<union> set (merkle_inputs (hashPair C) (map (Transaction_CalculateHash C) txs')))"
    and "inj_on (keccak256 C) (Transaction_Serialize ` (set txs \<union> set txs'))"
  shows "map Transaction_Serialize txs = map Transaction_Serialize txs'"
proof (cases "txs = []")
  case False
  let ?h = "Transaction_CalculateHash C"
  have eq: "map ?h txs = map ?h txs'"
  proof (rule hash_scheme.root_binding)
    show "hashes_root C (map ?h txs) = hashes_root C (map ?h txs')"
      using assms(1,2) False CalculateMerkleRoot_hashes [of txs C] CalculateMerkleRoot_hashes [of txs' C]
      by force
  qed (use assms False in auto)
  show ?thesis
  proof (rule nth_equalityI)
    show "length (map Transaction_Serialize txs) = length (map Transaction_Serialize txs')"
      using assms(1) by simp
    fix i assume "i < length (map Transaction_Serialize txs)"
    then have i: "i < length txs" "i < length txs'" using assms(1) by auto
    have "keccak256 C (Transaction_Serialize (txs ! i)) = keccak256 C (Transaction_Serialize (txs' ! i))"
      using arg_cong [OF eq, of "\<lambda>xs. xs ! i"] i
      by (simp add: Transaction_CalculateHash_def)
    then have "Transaction_Serialize (txs ! i) = Transaction_Serialize (txs' ! i)"
      using i by (intro inj_onD [OF assms(4)]) auto
    with i show "map Transaction_Serialize txs ! i = map Transaction_Serialize txs' ! i" by simp
  qed
qed (use assms in simp)

theorem merkle_root_binding_witness:
  "map Transaction_Serialize [demo_tx, demo_tx]
   = map Transaction_Serialize [demo_tx\<lparr>tx_Hash := 5\<rparr>, demo_tx]"
proof -
  have ser: "Transaction_Serialize (demo_tx\<lparr>tx_Hash := 5\<rparr>) = Transaction_Serialize demo_tx"
    by (simp add: Transaction_Serialize_def)
  then have h: "Transaction_CalculateHash demo_crypto (demo_tx\<lparr>tx_Hash := 5\<rparr>)
      = Transaction_CalculateHash demo_crypto demo_tx"
    by (simp add: Transaction_CalculateHash_def)
  have root: "CalculateMerkleRoot demo_crypto [demo_tx, demo_tx]
      = CalculateMerkleRoot demo_crypto [demo_tx\<lparr>tx_Hash := 5\<rparr>, demo_tx]"
    by (simp add: CalculateMerkleRoot_def h)
  let ?g = "hashPair demo_crypto" and ?H = "Transaction_CalculateHash demo_crypto demo_tx"
  have m: "map (Transaction_CalculateHash demo_crypto) [demo_tx, demo_tx] = [?H, ?H]"
    "map (Transaction_CalculateHash demo_crypto) [demo_tx\<lparr>tx_Hash := 5\<rparr>, demo_tx] = [?H, ?H]"
    by (simp_all add: h)
  have inj: "inj_on (\<lambda>(a, b). ?g a b)
      (set (merkle_inputs ?g (map (Transaction_CalculateHash demo_crypto) [demo_tx, demo_tx]))
       \<union> set (merkle_inputs ?g (map (Transaction_CalculateHash demo_crypto)
           [demo_tx\<lparr>tx_Hash := 5\<rparr>, demo_tx])))"
    unfolding m
    by (simp add: merkle_inputs.simps [of ?g "[?H, ?H]"] merkle_inputs.simps [of ?g "[?g ?H ?H]"]
        merkle_level_def)
  have inj': "inj_on (keccak256 demo_crypto) (Transaction_Serialize `
      (set [demo_tx, demo_tx] \<union> set [demo_tx\<lparr>tx_Hash := 5\<rparr>, demo_tx]))"
    by (simp add: ser)
  show ?thesis
    by (rule merkle_root_binding [OF _ root inj inj']) simp
qed

end
