(* ===== verification/Block_Validator.thy ===== *)
theory Block_Validator
  imports Merkle
begin

text \<open>
  The stand-alone block validator (blockchain/validator.go). Instants are nanoseconds since the year 1,
  the zero of Go's \<open>time.Time\<close>; the clock is an argument, read as one instant per call.
\<close>

section \<open>Configuration and time\<close>

record validation_config =
  vc_MaxBlockSize :: int
  vc_MaxTxPerBlock :: int
  vc_MaxBlockTimeDrift :: int
  vc_MinBlockInterval :: int

definition DefaultValidationConfig :: validation_config where
  "DefaultValidationConfig = \<lparr>vc_MaxBlockSize = 10 * 1024 * 1024, vc_MaxTxPerBlock = 10000,
     vc_MaxBlockTimeDrift = 2 * 60 * 10 ^ 9, vc_MinBlockInterval = 10 ^ 9\<rparr>"

definition NewBlockValidator :: "validation_config option \<Rightarrow> validation_config" where
  "NewBlockValidator cfg = (case cfg of None \<Rightarrow> DefaultValidationConfig | Some c \<Rightarrow> c)"

text \<open>\<open>time.Unix(sec, 0)\<close> adds the seconds from the year 1 to 1970 in 64 bits.\<close>

definition go_Unix :: "i64 \<Rightarrow> int" where
  "go_Unix sec = sint (sec + 62135596800) * 10 ^ 9"

datatype validation_error =
    GenesisPrevHash
  | MissingPrevHash
  | BlockInFuture
  | BlockTooOld
  | BadBlockHash
  | BlockSignatureMissing
  | BlockSignatureLength nat
  | BlockRecoverFailed
  | BlockSignerMismatch
  | TooManyTransactions nat
  | DuplicateTransaction nat
  | TxInvalid nat validation_error
  | BadTxHash
  | TxSignatureMissing
  | TxSignatureLength nat
  | TxRecoverFailed
  | TxSenderMismatch
  | ZeroGasLimit
  | TxTooOld
  | TxInFuture
  | BadMerkleRoot
  | BlockTooLarge nat
  | BadParentHash
  | BadHeight
  | TimestampNotAfterParent
  | IntervalTooShort
  | NotHeightZero
  | GenesisHasTransactions

section \<open>The checks\<close>

definition validateTimestamp :: "validation_config \<Rightarrow> int \<Rightarrow> header \<Rightarrow> validation_error option" where
  "validateTimestamp v now h =
     (let blockTime = go_Unix (hdr_Timestamp h) in
      if now + vc_MaxBlockTimeDrift v < blockTime then Some BlockInFuture
      else if 0 < hdr_Height h \<and> vc_MaxBlockTimeDrift v < go_time_sub now blockTime then Some BlockTooOld
      else None)"

definition ValidateHeader :: "validation_config \<Rightarrow> int \<Rightarrow> header \<Rightarrow> validation_error option" where
  "ValidateHeader v now h =
     (if hdr_Height h = 0 \<and> \<not> Hash_IsEmpty (hdr_PrevHash h) then Some GenesisPrevHash
      else if 0 < hdr_Height h \<and> Hash_IsEmpty (hdr_PrevHash h) then Some MissingPrevHash
      else validateTimestamp v now h)"

definition validateBlockHash :: "crypto \<Rightarrow> block \<Rightarrow> validation_error option" where
  "validateBlockHash C b =
     (if \<not> Hash_Equals (BlockHeader_CalculateHash C (blk_Header b)) (hdr_Hash (blk_Header b))
      then Some BadBlockHash else None)"

definition validateBlockSignature :: "crypto \<Rightarrow> block \<Rightarrow> validation_error option" where
  "validateBlockSignature C b =
     (let h = blk_Header b; sg = hdr_Signature h in
      if length sg = 0 then Some BlockSignatureMissing
      else if length sg \<noteq> 65 then Some (BlockSignatureLength (length sg))
      else case sig_to_pub C (keccak256 C (BlockHeader_SerializeWithoutHash h)) sg of
        None \<Rightarrow> Some BlockRecoverFailed
      | Some pubKey \<Rightarrow> if hdr_Validator h \<noteq> pubkey_to_address C pubKey then Some BlockSignerMismatch else None)"

definition validator_validateTransaction :: "crypto \<Rightarrow> validation_config \<Rightarrow> int \<Rightarrow> tx \<Rightarrow> validation_error option" where
  "validator_validateTransaction C v now tx =
     (if \<not> Hash_Equals (Transaction_CalculateHash C tx) (tx_Hash tx) then Some BadTxHash
      else if length (tx_Signature tx) = 0 then Some TxSignatureMissing
      else if length (tx_Signature tx) \<noteq> 65 then Some (TxSignatureLength (length (tx_Signature tx)))
      else case sig_to_pub C (tx_Hash tx) (tx_Signature tx) of
        None \<Rightarrow> Some TxRecoverFailed
      | Some pubKey \<Rightarrow>
          if tx_From tx \<noteq> pubkey_to_address C pubKey then Some TxSenderMismatch
          else if tx_GasLimit tx = 0 then Some ZeroGasLimit
          else let txTime = go_Unix (tx_Timestamp tx) in
            if vc_MaxBlockTimeDrift v < go_time_sub now txTime then Some TxTooOld
            else if now + vc_MaxBlockTimeDrift v < txTime then Some TxInFuture
            else None)"

fun validate_each ::
  "crypto \<Rightarrow> validation_config \<Rightarrow> int \<Rightarrow> nat \<Rightarrow> hash fset \<Rightarrow> tx list \<Rightarrow> validation_error option" where
  "validate_each C v now i seen [] = None"
| "validate_each C v now i seen (tx # txs) =
     (if tx_Hash tx |\<in>| seen then Some (DuplicateTransaction i)
      else case validator_validateTransaction C v now tx of
        Some e \<Rightarrow> Some (TxInvalid i e)
      | None \<Rightarrow> validate_each C v now (Suc i) (finsert (tx_Hash tx) seen) txs)"

definition validateTransactions :: "crypto \<Rightarrow> validation_config \<Rightarrow> int \<Rightarrow> tx list \<Rightarrow> validation_error option" where
  "validateTransactions C v now txs =
     (if vc_MaxTxPerBlock v < int (length txs) then Some (TooManyTransactions (length txs))
      else validate_each C v now 0 {||} txs)"

definition validateMerkleRoot :: "crypto \<Rightarrow> block \<Rightarrow> validation_error option" where
  "validateMerkleRoot C b =
     (if \<not> Hash_Equals (CalculateMerkleRoot C (blk_Transactions b)) (hdr_MerkleRoot (blk_Header b))
      then Some BadMerkleRoot else None)"

definition validateBlockSize :: "validation_config \<Rightarrow> block \<Rightarrow> validation_error option" where
  "validateBlockSize v b =
     (if vc_MaxBlockSize v < int (Block_BlockSize b) then Some (BlockTooLarge (Block_BlockSize b)) else None)"

definition validateBlockLink :: "validation_config \<Rightarrow> block \<Rightarrow> block \<Rightarrow> validation_error option" where
  "validateBlockLink v b parent =
     (let h = blk_Header b; p = blk_Header parent in
      if \<not> Hash_Equals (hdr_PrevHash h) (hdr_Hash p) then Some BadParentHash
      else if hdr_Height h \<noteq> hdr_Height p + 1 then Some BadHeight
      else if sint (hdr_Timestamp h) \<le> sint (hdr_Timestamp p) then Some TimestampNotAfterParent
      else if go_time_sub (go_Unix (hdr_Timestamp h)) (go_Unix (hdr_Timestamp p)) < vc_MinBlockInterval v
        then Some IntervalTooShort
      else None)"

definition ValidateBlock ::
  "crypto \<Rightarrow> validation_config \<Rightarrow> int \<Rightarrow> block \<Rightarrow> block option \<Rightarrow> validation_error option" where
  "ValidateBlock C v now b parent =
     (case ValidateHeader v now (blk_Header b) of Some e \<Rightarrow> Some e | None \<Rightarrow>
      case validateBlockHash C b of Some e \<Rightarrow> Some e | None \<Rightarrow>
      case validateBlockSignature C b of Some e \<Rightarrow> Some e | None \<Rightarrow>
      case validateTransactions C v now (blk_Transactions b) of Some e \<Rightarrow> Some e | None \<Rightarrow>
      case validateMerkleRoot C b of Some e \<Rightarrow> Some e | None \<Rightarrow>
      case validateBlockSize v b of Some e \<Rightarrow> Some e | None \<Rightarrow>
      (case parent of None \<Rightarrow> None | Some p \<Rightarrow> validateBlockLink v b p))"

definition ValidateGenesisBlock :: "crypto \<Rightarrow> block \<Rightarrow> validation_error option" where
  "ValidateGenesisBlock C b =
     (if hdr_Height (blk_Header b) \<noteq> 0 then Some NotHeightZero
      else if \<not> Hash_IsEmpty (hdr_PrevHash (blk_Header b)) then Some GenesisPrevHash
      else if length (blk_Transactions b) \<noteq> 0 then Some GenesisHasTransactions
      else validateBlockHash C b)"

record validation_result =
  vres_Valid :: bool
  vres_Errors :: "validation_error list"
  vres_Warnings :: "validation_error list"

definition ValidateBlockDetailed ::
  "crypto \<Rightarrow> validation_config \<Rightarrow> int \<Rightarrow> block \<Rightarrow> block option \<Rightarrow> validation_result" where
  "ValidateBlockDetailed C v now b parent =
     (case ValidateBlock C v now b parent of
        None \<Rightarrow> \<lparr>vres_Valid = True, vres_Errors = [], vres_Warnings = []\<rparr>
      | Some e \<Rightarrow> \<lparr>vres_Valid = False, vres_Errors = [e], vres_Warnings = []\<rparr>)"

section \<open>What the checks accept\<close>

definition tx_acceptable :: "crypto \<Rightarrow> validation_config \<Rightarrow> int \<Rightarrow> tx \<Rightarrow> bool" where
  "tx_acceptable C v now tx \<longleftrightarrow> Transaction_CalculateHash C tx = tx_Hash tx \<and> length (tx_Signature tx) = 65
     \<and> (\<exists>k. sig_to_pub C (tx_Hash tx) (tx_Signature tx) = Some k \<and> pubkey_to_address C k = tx_From tx)
     \<and> tx_GasLimit tx \<noteq> 0 \<and> \<bar>now - go_Unix (tx_Timestamp tx)\<bar> \<le> vc_MaxBlockTimeDrift v"

text \<open>A drift below the range of a Duration, so that the saturated difference decides like the exact one.\<close>

definition drift_ok :: "validation_config \<Rightarrow> bool" where
  "drift_ok v \<longleftrightarrow> 0 \<le> vc_MaxBlockTimeDrift v \<and> vc_MaxBlockTimeDrift v < 2 ^ 63 - 1"

lemma go_time_sub_less: "drift_ok v \<Longrightarrow> vc_MaxBlockTimeDrift v < go_time_sub a b \<longleftrightarrow> vc_MaxBlockTimeDrift v < a - b"
  by (auto simp: drift_ok_def go_time_sub_def)

lemma go_time_sub_future: "drift_ok v \<Longrightarrow> \<bar>a - b\<bar> \<le> vc_MaxBlockTimeDrift v \<longleftrightarrow>
    \<not> vc_MaxBlockTimeDrift v < go_time_sub a b \<and> \<not> a + vc_MaxBlockTimeDrift v < b"
  by (auto simp only: go_time_sub_less abs_le_iff)

lemma validateTransaction_accepts:
  assumes "drift_ok v"
  shows "validator_validateTransaction C v now tx = None \<longleftrightarrow> tx_acceptable C v now tx"
  unfolding validator_validateTransaction_def tx_acceptable_def go_time_sub_future [OF assms] Hash_Equals_def Let_def
  by (cases "sig_to_pub C (tx_Hash tx) (tx_Signature tx)") auto

lemma validate_each_accepts:
  assumes "drift_ok v"
  shows "validate_each C v now i seen txs = None \<longleftrightarrow> distinct (map tx_Hash txs)
    \<and> (\<forall>tx \<in> set txs. tx_Hash tx |\<notin>| seen \<and> tx_acceptable C v now tx)"
proof (induction txs arbitrary: i seen)
  case (Cons tx txs)
  show ?case
  proof (cases "tx_Hash tx |\<in>| seen \<or> \<not> tx_acceptable C v now tx")
    case True
    with validateTransaction_accepts [OF assms, of C now tx] show ?thesis by (auto split: option.split)
  next
    case False
    with validateTransaction_accepts [OF assms, of C now tx] Cons.IH [of "Suc i" "finsert (tx_Hash tx) seen"]
    show ?thesis by (auto simp: image_iff)
  qed
qed simp

text \<open>What a whole block has to satisfy, as one predicate.\<close>

definition block_acceptable :: "crypto \<Rightarrow> validation_config \<Rightarrow> int \<Rightarrow> block \<Rightarrow> bool" where
  "block_acceptable C v now b \<longleftrightarrow>
     (let h = blk_Header b; txs = blk_Transactions b in
      (hdr_Height h = 0 \<longleftrightarrow> hdr_PrevHash h = 0)
      \<and> go_Unix (hdr_Timestamp h) - now \<le> vc_MaxBlockTimeDrift v
      \<and> (hdr_Height h \<noteq> 0 \<longrightarrow> now - go_Unix (hdr_Timestamp h) \<le> vc_MaxBlockTimeDrift v)
      \<and> BlockHeader_CalculateHash C h = hdr_Hash h \<and> length (hdr_Signature h) = 65
      \<and> (\<exists>k. sig_to_pub C (BlockHeader_CalculateHash C h) (hdr_Signature h) = Some k \<and> pubkey_to_address C k = hdr_Validator h)
      \<and> int (length txs) \<le> vc_MaxTxPerBlock v \<and> distinct (map tx_Hash txs) \<and> (\<forall>tx \<in> set txs. tx_acceptable C v now tx)
      \<and> CalculateMerkleRoot C txs = hdr_MerkleRoot h \<and> int (Block_BlockSize b) \<le> vc_MaxBlockSize v)"

definition follows :: "validation_config \<Rightarrow> block \<Rightarrow> block \<Rightarrow> bool" where
  "follows v b parent \<longleftrightarrow>
     (let h = blk_Header b; p = blk_Header parent in
      hdr_PrevHash h = hdr_Hash p \<and> hdr_Height h = hdr_Height p + 1 \<and> sint (hdr_Timestamp p) < sint (hdr_Timestamp h)
      \<and> vc_MinBlockInterval v \<le> go_time_sub (go_Unix (hdr_Timestamp h)) (go_Unix (hdr_Timestamp p)))"

lemma ValidateHeader_accepts:
  assumes "drift_ok v"
  shows "ValidateHeader v now h = None \<longleftrightarrow> (hdr_Height h = 0 \<longleftrightarrow> hdr_PrevHash h = 0)
    \<and> go_Unix (hdr_Timestamp h) - now \<le> vc_MaxBlockTimeDrift v
    \<and> (hdr_Height h \<noteq> 0 \<longrightarrow> now - go_Unix (hdr_Timestamp h) \<le> vc_MaxBlockTimeDrift v)"
  unfolding ValidateHeader_def validateTimestamp_def go_time_sub_less [OF assms] Hash_IsEmpty_def EmptyHash_def Let_def
  by (cases "hdr_Height h = 0") (auto simp: word_gt_0)

lemma signature_accepts:
  "validateBlockSignature C b = None \<longleftrightarrow> length (hdr_Signature (blk_Header b)) = 65
     \<and> (\<exists>k. sig_to_pub C (BlockHeader_CalculateHash C (blk_Header b)) (hdr_Signature (blk_Header b)) = Some k
          \<and> pubkey_to_address C k = hdr_Validator (blk_Header b))"
  unfolding validateBlockSignature_def BlockHeader_CalculateHash_def Let_def
  by (cases "sig_to_pub C (keccak256 C (BlockHeader_SerializeWithoutHash (blk_Header b))) (hdr_Signature (blk_Header b))") auto

lemma VerifySignature_necessary: "\<not> Block_VerifySignature C b \<Longrightarrow> \<exists>e. validateBlockSignature C b = Some e"
  by (cases "sig_to_pub C (keccak256 C (BlockHeader_SerializeWithoutHash (blk_Header b))) (hdr_Signature (blk_Header b))")
    (auto simp: validateBlockSignature_def Block_VerifySignature_def Let_def split: if_splits)

lemma link_accepts: "validateBlockLink v b p = None \<longleftrightarrow> follows v b p"
  by (auto simp: validateBlockLink_def follows_def Hash_Equals_def Let_def)

lemma ValidateBlock_None:
  "ValidateBlock C v now b parent = None \<longleftrightarrow> ValidateHeader v now (blk_Header b) = None \<and> validateBlockHash C b = None
     \<and> validateBlockSignature C b = None \<and> validateTransactions C v now (blk_Transactions b) = None
     \<and> validateMerkleRoot C b = None \<and> validateBlockSize v b = None
     \<and> (\<forall>p. parent = Some p \<longrightarrow> validateBlockLink v b p = None)"
  by (simp add: ValidateBlock_def split: option.split)

lemma ValidateBlock_iff:
  assumes "drift_ok v"
  shows "ValidateBlock C v now b parent = None \<longleftrightarrow> block_acceptable C v now b \<and> (\<forall>p. parent = Some p \<longrightarrow> follows v b p)"
  unfolding ValidateBlock_None ValidateHeader_accepts [OF assms] signature_accepts link_accepts block_acceptable_def Let_def
    validateBlockHash_def validateTransactions_def validateMerkleRoot_def validateBlockSize_def Hash_Equals_def
  by (auto simp: validate_each_accepts [OF assms])

section \<open>Properties\<close>

text \<open>
  C16. What ValidateBlock accepts: exactly the blocks whose own hash, signature and Merkle root are
  right, whose transactions are distinct, signed by their senders, with a gas limit and at most the
  permitted drift from the clock, that keep the limits on size and number, and that follow the parent,
  if there is one, in hash, height and time. The count of transactions in the header is not among the
  checks, although the comment in ValidateHeader says it is: the check of the header gives the same
  answer for every count, and a block that is accepted may name any.
\<close>

theorem validate_block_result:
  assumes "0 \<le> vc_MaxBlockTimeDrift v" and "vc_MaxBlockTimeDrift v < 2 ^ 63 - 1"
  shows "(ValidateBlock C v now b parent = None \<longleftrightarrow>
      block_acceptable C v now b \<and> (\<forall>p. parent = Some p \<longrightarrow> follows v b p))
    \<and> ValidateHeader v now ((blk_Header b)\<lparr>hdr_TxCount := n\<rparr>) = ValidateHeader v now (blk_Header b)"
  using assms by (intro conjI ValidateBlock_iff) (simp_all add: drift_ok_def ValidateHeader_def validateTimestamp_def Let_def)

text \<open>A block that is accepted although it has no transaction and its header counts seven.\<close>

definition demo_counted :: block where
  "demo_counted = (let h = (blk_Header demo_block)\<lparr>hdr_TxCount := 7, hdr_Signature := replicate 65 0\<rparr>;
       d = BlockHeader_CalculateHash demo_crypto h
     in demo_block\<lparr>blk_Header := h\<lparr>hdr_Hash := d, hdr_Signature := put_be d @ demo_key @ [0]\<rparr>\<rparr>)"

theorem validate_block_result_witness:
  "ValidateBlock demo_crypto DefaultValidationConfig (go_Unix 100) demo_counted None = None
   \<and> hdr_TxCount (blk_Header demo_counted) \<noteq> of_nat (length (blk_Transactions demo_counted))"
proof -
  have "length demo_key = 32" by (simp add: demo_key_def)
  then have "block_acceptable demo_crypto DefaultValidationConfig (go_Unix 100) demo_counted"
    using demo_key_address
    by (simp add: block_acceptable_def demo_counted_def demo_block_def NewBlock_def Let_def DefaultValidationConfig_def
        BlockHeader_CalculateHash_def demo_crypto_def demo_hash_def Block_BlockSize_def CalculateMerkleRoot_def)
  with validate_block_result [of DefaultValidationConfig demo_crypto "go_Unix 100" demo_counted None] show ?thesis
    by (simp add: DefaultValidationConfig_def demo_counted_def demo_block_def NewBlock_def Let_def)
qed

text \<open>
  C29. A block that Sign has signed is refused by VerifySignature and by the validator, because Sign
  signs the header text without the signature and both verify the text with it. The only ways out are
  those of the cryptography: the digests of the two texts, which always differ, agree modulo the order
  of the group, or the signature recovers with the wrong digest to a second key that also has the
  address of the validator.
\<close>

theorem honest_blocks_refused:
  assumes "ecdsa_correct C pub_of" and "ecdsa_binding C" and "hdr_Signature (blk_Header b) = []"
    and "Block_Sign C b privKey = (b', None)"
  shows "(\<not> Block_VerifySignature C b' \<and> ValidateBlock C v now b' parent \<noteq> None)
    \<or> scalar_collision C (BlockHeader_SerializeWithoutHash (blk_Header b)) (BlockHeader_SerializeWithoutHash (blk_Header b'))
    \<or> (\<exists>key p. to_ecdsa C privKey = Some key \<and> p \<noteq> pub_of key
        \<and> sig_to_pub C (BlockHeader_CalculateHash C (blk_Header b')) (hdr_Signature (blk_Header b')) = Some p
        \<and> pubkey_to_address C p = hdr_Validator (blk_Header b))"
proof (cases "Block_VerifySignature C b'
    \<and> \<not> scalar_collision C (BlockHeader_SerializeWithoutHash (blk_Header b)) (BlockHeader_SerializeWithoutHash (blk_Header b'))")
  case True
  then show ?thesis
    using Block_Sign_rejected [OF assms] Block_Sign_longer [OF assms(1,3,4)]
    unfolding BlockHeader_CalculateHash_def scalar_collision_def by blast
next
  case False
  then show ?thesis using VerifySignature_necessary [of C b'] by (auto simp: ValidateBlock_None)
qed

theorem honest_blocks_refused_witness:
  "\<not> Block_VerifySignature demo_crypto demo_signed
   \<and> ValidateBlock demo_crypto DefaultValidationConfig 0 demo_signed None \<noteq> None"
  using honest_blocks_refused [OF demo_correct demo_binding demo_unsigned demo_Sign, of DefaultValidationConfig 0 None]
    demo_Sign_scalar demo_Sign_unrecovered
  by (simp add: BlockHeader_CalculateHash_def scalar_collision_def)

text \<open>A block is too old two minutes after it was made: no chain can be validated later.\<close>

lemma history_not_valid:
  assumes "vc_MaxBlockTimeDrift v < go_time_sub now (go_Unix (hdr_Timestamp (blk_Header b)))" and "hdr_Height (blk_Header b) \<noteq> 0"
  shows "ValidateBlock C v now b parent \<noteq> None"
  using assms by (auto simp: ValidateBlock_None ValidateHeader_def validateTimestamp_def Let_def word_gt_0)

end
