(* ===== verification/Light_Client.thy ===== *)
theory Light_Client
  imports Chain Merkle
begin

text \<open>
  The light client (blockchain/lightclient.go): block headers without transactions, kept in memory by
  height and by hash, written to the store but never read back. A client that has evicted nothing
  refines a growing list of linked headers (\<open>lc_chain\<close>). The mutex is released before any other call.
\<close>

section \<open>State\<close>

record lc_config =
  lcc_MaxHeadersInMemory :: int
  lcc_VerifySignatures :: bool
  lcc_VerifyTimestamps :: bool

definition DefaultLightClientConfig :: lc_config where
  "DefaultLightClientConfig = \<lparr>lcc_MaxHeadersInMemory = 10000, lcc_VerifySignatures = True,
     lcc_VerifyTimestamps = True\<rparr>"

record 's light_client =
  lc_headers :: "(u64, header) fmap"
  lc_hashToHeight :: "(hash, u64) fmap"
  lc_latestHeight :: u64
  lc_latestHash :: hash
  lc_storage :: 's
  lc_config :: lc_config

datatype lc_error =
    HeaderExists
  | ConflictingHeader u64
  | ParentNotFound u64
  | InvalidPrevLink
  | InvalidHeaderHash
  | InvalidHeaderSignature
  | HeaderNotFound
  | InvalidHeaderRange
  | ProofRequired
  | InvalidProof

definition loadHeaders :: "'s light_client \<Rightarrow> 's light_client" where
  "loadHeaders lc = lc"

definition NewLightClient :: "'s \<Rightarrow> lc_config option \<Rightarrow> 's light_client" where
  "NewLightClient store cfg =
     (let cfg = (case cfg of None \<Rightarrow> DefaultLightClientConfig | Some c \<Rightarrow> c)
      in loadHeaders \<lparr>lc_headers = fmempty, lc_hashToHeight = fmempty, lc_latestHeight = 0,
           lc_latestHash = 0, lc_storage = store, lc_config = cfg\<rparr>)"

section \<open>Adding a header\<close>

definition verifyHeaderSignature :: "crypto \<Rightarrow> header \<Rightarrow> bool" where
  "verifyHeaderSignature C header = Block_VerifySignature C \<lparr>blk_Header = header, blk_Transactions = []\<rparr>"

definition validateHeader :: "crypto \<Rightarrow> 's light_client \<Rightarrow> header \<Rightarrow> lc_error option" where
  "validateHeader C lc header =
     (let height = hdr_Height header in
      case mget (lc_headers lc) height of
        Some existing \<Rightarrow>
          Some (if Hash_Equals (hdr_Hash existing) (hdr_Hash header) then HeaderExists else ConflictingHeader height)
      | None \<Rightarrow>
          if 0 < height \<and> \<not> mhas (lc_headers lc) (height - 1) then Some (ParentNotFound height)
          else if 0 < height \<and> \<not> Hash_Equals (hdr_PrevHash header) (hdr_Hash (the (mget (lc_headers lc) (height - 1))))
            then Some InvalidPrevLink
          else if \<not> Hash_Equals (BlockHeader_CalculateHash C header) (hdr_Hash header) then Some InvalidHeaderHash
          else if lcc_VerifySignatures (lc_config lc) \<and> 0 < length (hdr_Signature header)
               \<and> \<not> verifyHeaderSignature C header then Some InvalidHeaderSignature
          else None)"

text \<open>The loop over the heights from 1, which stops below the latest height.\<close>

function evict_loop ::
  "u64 \<Rightarrow> u64 \<Rightarrow> int \<Rightarrow> (u64, header) fmap \<Rightarrow> (hash, u64) fmap \<Rightarrow> (u64, header) fmap \<times> (hash, u64) fmap" where
  "evict_loop latest height toRemove hs idx =
     (if 0 < toRemove \<and> height < latest
      then (case mget hs height of
              Some header \<Rightarrow>
                evict_loop latest (height + 1) (toRemove - 1) (mdel hs height) (mdel idx (hdr_Hash header))
            | None \<Rightarrow> evict_loop latest (height + 1) toRemove hs idx)
      else (hs, idx))"
  by pat_completeness auto
termination
proof (relation "measure (\<lambda>(latest, height, _). unat (latest - height))")
  have less: "unat (latest - (height + 1)) < unat (latest - height)" if "height < latest" for latest height :: u64
  proof -
    have "latest - height = latest - (height + 1) + 1" and "latest - height \<noteq> 0" using that by simp_all
    then show ?thesis by (metis unatSuc lessI diff_add_cancel add.commute)
  qed
  show "((latest, height + 1, toRemove - 1, mdel hs height, mdel idx (hdr_Hash header)),
      (latest, height, toRemove, hs, idx)) \<in> measure (\<lambda>(latest, height, _). unat (latest - height))"
    if "0 < toRemove \<and> height < latest" for latest height :: u64 and toRemove hs idx header
    using less that by simp
  show "((latest, height + 1, toRemove, hs, idx), (latest, height, toRemove, hs, idx))
      \<in> measure (\<lambda>(latest, height, _). unat (latest - height))"
    if "0 < toRemove \<and> height < latest" for latest height :: u64 and toRemove and hs :: "(u64, header) fmap" and idx :: "(hash, u64) fmap"
    using less that by simp
qed simp

declare evict_loop.simps [simp del]

definition evictOldHeaders :: "'s light_client \<Rightarrow> 's light_client" where
  "evictOldHeaders lc =
     (let n = int (mlen (lc_headers lc)); m = lcc_MaxHeadersInMemory (lc_config lc) in
      if n \<le> m then lc
      else case evict_loop (lc_latestHeight lc) 1 (n - m) (lc_headers lc) (lc_hashToHeight lc) of
             (hs, idx) \<Rightarrow> lc\<lparr>lc_headers := hs, lc_hashToHeight := idx\<rparr>)"

definition lightHeaderKey :: "u64 \<Rightarrow> bytes" where
  "lightHeaderKey height = string_bytes ''light_header_'' @ string_bytes (decimal (unat height))"

definition persistHeader :: "json_lib \<Rightarrow> 's db \<Rightarrow> 's light_client \<Rightarrow> header \<Rightarrow> 's light_client \<times> storage_error option" where
  "persistHeader J L lc header =
     (case Storage_Put L (lc_storage lc) (lightHeaderKey (hdr_Height header)) (js_text J (enc_header header)) of
        (s, r) \<Rightarrow> (lc\<lparr>lc_storage := s\<rparr>, r))"

definition AddHeader ::
  "crypto \<Rightarrow> json_lib \<Rightarrow> 's db \<Rightarrow> 's light_client \<Rightarrow> header \<Rightarrow> 's light_client \<times> lc_error option" where
  "AddHeader C J L lc header =
     (case validateHeader C lc header of
        Some e \<Rightarrow> (lc, Some e)
      | None \<Rightarrow>
          let lc = lc\<lparr>lc_headers := mput (lc_headers lc) (hdr_Height header) header,
                      lc_hashToHeight := mput (lc_hashToHeight lc) (hdr_Hash header) (hdr_Height header)\<rparr>;
              lc = (if lc_latestHeight lc < hdr_Height header
                    then lc\<lparr>lc_latestHeight := hdr_Height header, lc_latestHash := hdr_Hash header\<rparr> else lc);
              lc = evictOldHeaders lc;
              (lc, _) = persistHeader J L lc header
          in (lc, None))"

section \<open>Reading\<close>

definition GetHeader :: "'s light_client \<Rightarrow> u64 \<Rightarrow> lc_error + header" where
  "GetHeader lc height = (case mget (lc_headers lc) height of None \<Rightarrow> Inl HeaderNotFound | Some h \<Rightarrow> Inr h)"

text \<open>A hash whose height is no longer stored gives a nil header and no error.\<close>

definition GetHeaderByHash :: "'s light_client \<Rightarrow> hash \<Rightarrow> lc_error + header option" where
  "GetHeaderByHash lc hash =
     (case mget (lc_hashToHeight lc) hash of
        None \<Rightarrow> Inl HeaderNotFound | Some height \<Rightarrow> Inr (mget (lc_headers lc) height))"

definition GetLatestHeader :: "'s light_client \<Rightarrow> header option" where
  "GetLatestHeader lc = mget (lc_headers lc) (lc_latestHeight lc)"

definition lc_GetLatestHeight :: "'s light_client \<Rightarrow> u64" where
  "lc_GetLatestHeight lc = lc_latestHeight lc"

definition lc_GetLatestHash :: "'s light_client \<Rightarrow> hash" where
  "lc_GetLatestHash lc = lc_latestHash lc"

partial_function (option) headers_loop ::
  "(u64, header) fmap \<Rightarrow> u64 \<Rightarrow> u64 \<Rightarrow> header list \<Rightarrow> header list option" where
  "headers_loop hs height stop headers =
     (if height \<le> stop
      then headers_loop hs (height + 1) stop
             (case mget hs height of Some h \<Rightarrow> headers @ [h] | None \<Rightarrow> headers)
      else Some headers)"

definition GetHeadersRange :: "'s light_client \<Rightarrow> u64 \<Rightarrow> u64 \<Rightarrow> (lc_error + header list) outcome option" where
  "GetHeadersRange lc start stop =
     (if stop < start then Some (Done (Inl InvalidHeaderRange))
      else let stop = (if lc_latestHeight lc < stop then lc_latestHeight lc else stop) in
        if \<not> make_ptrs_ok (stop - start + 1) then Some Panic
        else map_option (\<lambda>hs. Done (Inr hs)) (headers_loop (lc_headers lc) start stop []))"

definition HasHeader :: "'s light_client \<Rightarrow> u64 \<Rightarrow> bool" where
  "HasHeader lc height = mhas (lc_headers lc) height"

definition HasHeaderByHash :: "'s light_client \<Rightarrow> hash \<Rightarrow> bool" where
  "HasHeaderByHash lc hash = mhas (lc_hashToHeight lc) hash"

definition GetHeaderCount :: "'s light_client \<Rightarrow> nat" where
  "GetHeaderCount lc = mlen (lc_headers lc)"

definition lc_VerifyTransaction ::
  "crypto \<Rightarrow> 's light_client \<Rightarrow> hash \<Rightarrow> u64 \<Rightarrow> MerkleProof option \<Rightarrow> (lc_error + bool) outcome" where
  "lc_VerifyTransaction C lc txHash blockHeight merkleProof =
     (case GetHeader lc blockHeight of
        Inl e \<Rightarrow> Done (Inl e)
      | Inr header \<Rightarrow>
          (case merkleProof of
             None \<Rightarrow> Done (Inl ProofRequired)
           | Some p \<Rightarrow> obind (MerkleProof_Verify C p (hdr_MerkleRoot header)) (\<lambda>ok.
               if \<not> ok then Done (Inl InvalidProof) else Done (Inr True))))"

record sync_status =
  sy_LatestHeight :: u64
  sy_StoredHeaders :: nat
  sy_IsSynced :: bool
  sy_TargetHeight :: u64

definition GetSyncStatus :: "'s light_client \<Rightarrow> sync_status" where
  "GetSyncStatus lc = \<lparr>sy_LatestHeight = lc_latestHeight lc, sy_StoredHeaders = mlen (lc_headers lc),
     sy_IsSynced = True, sy_TargetHeight = 0\<rparr>"

definition lc_Reset :: "'s light_client \<Rightarrow> 's light_client" where
  "lc_Reset lc = lc\<lparr>lc_headers := fmempty, lc_hashToHeight := fmempty, lc_latestHeight := 0, lc_latestHash := 0\<rparr>"

record lc_stats =
  ls_TotalHeaders :: nat
  ls_LatestHeight :: u64
  ls_MemoryUsed :: nat
  ls_OldestHeight :: u64

definition lc_GetStats :: "'s light_client \<Rightarrow> lc_stats" where
  "lc_GetStats lc =
     (let oldest = (if 0 < mlen (lc_headers lc)
                    then fold (\<lambda>height oldest. if height < oldest then height else oldest)
                           (sorted_list_of_fset (fmdom (lc_headers lc))) (lc_latestHeight lc)
                    else 0)
      in \<lparr>ls_TotalHeaders = mlen (lc_headers lc), ls_LatestHeight = lc_latestHeight lc,
          ls_MemoryUsed = mlen (lc_headers lc) * 400, ls_OldestHeight = oldest\<rparr>)"

section \<open>The abstract chain of headers\<close>

text \<open>
  The specification: a list of headers of the heights 0, 1, ..., each linked to the one before. A
  header extends the list if it has the next height, names the last hash, carries its own hash, and
  its signature, if there is one and signatures are checked, verifies. Its timestamp does not matter:
  the code never reads VerifyTimestamps.
\<close>

definition header_valid :: "crypto \<Rightarrow> bool \<Rightarrow> header \<Rightarrow> bool" where
  "header_valid C sigs h \<longleftrightarrow> BlockHeader_CalculateHash C h = hdr_Hash h
     \<and> (sigs \<longrightarrow> hdr_Signature h \<noteq> [] \<longrightarrow> verifyHeaderSignature C h)"

definition extends :: "crypto \<Rightarrow> bool \<Rightarrow> header list \<Rightarrow> header \<Rightarrow> bool" where
  "extends C sigs hs h \<longleftrightarrow> unat (hdr_Height h) = length hs
     \<and> (hs \<noteq> [] \<longrightarrow> hdr_PrevHash h = hdr_Hash (last hs)) \<and> header_valid C sigs h"

definition header_list :: "crypto \<Rightarrow> bool \<Rightarrow> header list \<Rightarrow> bool" where
  "header_list C sigs hs \<longleftrightarrow> linked hdr_Hash hdr_PrevHash hs \<and> (\<forall>h \<in> set hs. header_valid C sigs h)
     \<and> (\<forall>i < length hs. unat (hdr_Height (hs ! i)) = i)"

lemma header_list_Nil: "header_list C sigs []"
  by (simp add: header_list_def)

lemma header_list_snoc: "header_list C sigs (hs @ [h]) \<longleftrightarrow> header_list C sigs hs \<and> extends C sigs hs h"
  by (auto simp: header_list_def extends_def linked_snoc nth_append less_Suc_eq)

text \<open>The state of a client that has evicted nothing stands for such a list.\<close>

definition lc_chain :: "crypto \<Rightarrow> 's light_client \<Rightarrow> header list \<Rightarrow> bool" where
  "lc_chain C lc hs \<longleftrightarrow> header_list C (lcc_VerifySignatures (lc_config lc)) hs
     \<and> (\<forall>n. mget (lc_headers lc) n = (if unat n < length hs then Some (hs ! unat n) else None))
     \<and> mlen (lc_headers lc) = length hs
     \<and> unat (lc_latestHeight lc) = length hs - 1
     \<and> lc_latestHash lc = (if length hs \<le> 1 then 0 else hdr_Hash (last hs))
     \<and> (\<forall>x n. mget (lc_hashToHeight lc) x = Some n \<longrightarrow> unat n < length hs \<and> hdr_Hash (hs ! unat n) = x)
     \<and> (\<forall>h \<in> set hs. mhas (lc_hashToHeight lc) (hdr_Hash h))"

lemma lc_chain_new: "lc_chain C (NewLightClient store cfg) []"
  by (simp add: lc_chain_def NewLightClient_def loadHeaders_def header_list_Nil Let_def)

lemma validateHeader_iff:
  assumes "lc_chain C lc hs"
  shows "validateHeader C lc h = None \<longleftrightarrow> extends C (lcc_VerifySignatures (lc_config lc)) hs h"
proof -
  let ?n = "hdr_Height h"
  have get: "mget (lc_headers lc) n = (if unat n < length hs then Some (hs ! unat n) else None)" for n
    using assms by (simp add: lc_chain_def)
  consider "unat ?n < length hs" | "?n = 0" "hs = []" | "0 < ?n" "length hs \<le> unat ?n"
    using word_gt_0 by fastforce
  then show ?thesis
  proof cases
    case 1
    then show ?thesis by (simp add: validateHeader_def get Let_def extends_def)
  next
    case 2
    then show ?thesis
      by (auto simp: validateHeader_def get Let_def extends_def header_valid_def Hash_Equals_def)
  next
    case 3
    then have p: "unat (?n - 1) = unat ?n - 1" and pos: "0 < unat ?n"
      by (simp_all add: unat_minus_one word_gt_0 unat_gt_0)
    show ?thesis
    proof (cases "unat ?n = length hs")
      case True
      with 3 pos have "hs \<noteq> []" "unat (?n - 1) < length hs" "hs ! unat (?n - 1) = last hs"
        by (auto simp: p last_conv_nth)
      with 3 True show ?thesis
        by (auto simp: validateHeader_def get Let_def extends_def header_valid_def Hash_Equals_def mhas_def)
    next
      case False
      with 3 pos p have "\<not> unat (?n - 1) < length hs" by linarith
      with 3 False show ?thesis
        by (simp add: validateHeader_def get Let_def extends_def mhas_def)
    qed
  qed
qed

lemma AddHeader_refines:
  assumes c: "lc_chain C lc hs" and room: "int (length hs) < lcc_MaxHeadersInMemory (lc_config lc)"
    and a: "AddHeader C J L lc h = (lc', r)"
  shows "(r = None \<longleftrightarrow> extends C (lcc_VerifySignatures (lc_config lc)) hs h)
    \<and> (r \<noteq> None \<longrightarrow> lc' = lc) \<and> (r = None \<longrightarrow> lc_chain C lc' (hs @ [h])) \<and> lc_config lc' = lc_config lc"
proof (cases "validateHeader C lc h")
  case (Some e)
  with a validateHeader_iff [OF c, of h] show ?thesis by (auto simp: AddHeader_def)
next
  case None
  let ?n = "hdr_Height h"
  have e: "extends C (lcc_VerifySignatures (lc_config lc)) hs h" using validateHeader_iff [OF c] None by blast
  then have n: "unat ?n = length hs" by (simp add: extends_def)
  let ?hs = "mput (lc_headers lc) ?n h" and ?idx = "mput (lc_hashToHeight lc) (hdr_Hash h) ?n"
  have get: "mget (lc_headers lc) m = (if unat m < length hs then Some (hs ! unat m) else None)" for m
    using c by (simp add: lc_chain_def)
  have len: "mlen ?hs = Suc (length hs)"
    using c n by (simp add: mlen_put mhas_def get) (simp add: lc_chain_def)
  obtain s where lc': "lc' = lc\<lparr>lc_headers := ?hs, lc_hashToHeight := ?idx,
      lc_latestHeight := (if lc_latestHeight lc < ?n then ?n else lc_latestHeight lc),
      lc_latestHash := (if lc_latestHeight lc < ?n then hdr_Hash h else lc_latestHash lc), lc_storage := s\<rparr>" and r: "r = None"
    using a None room len
    by (auto simp: AddHeader_def evictOldHeaders_def persistHeader_def Let_def split: prod.splits if_splits)
  have latest: "lc_latestHeight lc < ?n \<longleftrightarrow> hs \<noteq> []"
    using c n by (cases hs) (auto simp: lc_chain_def word_less_nat_alt)
  have eq: "m = ?n \<longleftrightarrow> unat m = length hs" for m
    using n by (metis word_unat_eq_iff)
  have idx: "\<forall>x m. mget (lc_hashToHeight lc) x = Some m \<longrightarrow> unat m < length hs \<and> hdr_Hash (hs ! unat m) = x"
    and idx': "\<forall>h \<in> set hs. mhas (lc_hashToHeight lc) (hdr_Hash h)" and lst: "unat (lc_latestHeight lc) = length hs - 1"
    and hl: "header_list C (lcc_VerifySignatures (lc_config lc)) hs" and lh: "hs = [] \<Longrightarrow> lc_latestHash lc = 0"
    using c by (auto simp: lc_chain_def)
  have "lc_chain C lc' (hs @ [h])"
    unfolding lc_chain_def
  proof (intro conjI)
    show "header_list C (lcc_VerifySignatures (lc_config lc')) (hs @ [h])"
      using hl e by (simp add: lc' header_list_snoc)
    show "\<forall>m. mget (lc_headers lc') m = (if unat m < length (hs @ [h]) then Some ((hs @ [h]) ! unat m) else None)"
    proof
      fix m
      show "mget (lc_headers lc') m = (if unat m < length (hs @ [h]) then Some ((hs @ [h]) ! unat m) else None)"
        using eq [of m] n by (cases "m = ?n") (simp_all add: lc' get nth_append less_Suc_eq)
    qed
    show "mlen (lc_headers lc') = length (hs @ [h])" using len by (simp add: lc')
    show "unat (lc_latestHeight lc') = length (hs @ [h]) - 1"
      using n latest lst by (simp add: lc')
    show "lc_latestHash lc' = (if length (hs @ [h]) \<le> 1 then 0 else hdr_Hash (last (hs @ [h])))"
      using latest lh by (cases hs) (simp_all add: lc')
    show "\<forall>x m. mget (lc_hashToHeight lc') x = Some m \<longrightarrow> unat m < length (hs @ [h]) \<and> hdr_Hash ((hs @ [h]) ! unat m) = x"
      using idx n by (auto simp: lc' nth_append less_Suc_eq)
    show "\<forall>h' \<in> set (hs @ [h]). mhas (lc_hashToHeight lc') (hdr_Hash h')"
      using idx' by (auto simp: lc')
  qed
  with e lc' r show ?thesis by simp
qed

section \<open>Eviction\<close>

lemma validateHeader_height:
  "validateHeader C lc h = None \<Longrightarrow> mget (lc_headers lc) (hdr_Height h) = None"
  by (auto simp: validateHeader_def Let_def split: option.splits)

text \<open>
  With a full memory, a header for the evicted height 1 is accepted if it follows the header of height 0,
  whatever header had that height before. Memory ends up with the same headers, and the stored header of
  height 1 is replaced.
\<close>

lemma evicted_header_replaced:
  assumes v: "validateHeader C lc h = None" and one: "hdr_Height h = 1"
    and full: "int (mlen (lc_headers lc)) = lcc_MaxHeadersInMemory (lc_config lc)" and lat: "1 < lc_latestHeight lc"
    and L: "db_spec L contents"
  shows "snd (AddHeader C J L lc h) = None \<and> lc_headers (fst (AddHeader C J L lc h)) = lc_headers lc
    \<and> (\<forall>s. Storage_Put L (lc_storage lc) (lightHeaderKey 1) (js_text J (enc_header h)) = (s, None) \<longrightarrow>
         contents (lc_storage (fst (AddHeader C J L lc h))) = (contents (lc_storage lc))(lightHeaderKey 1 \<mapsto> js_text J (enc_header h)))"
proof -
  let ?hs = "mput (lc_headers lc) 1 h" and ?idx = "mput (lc_hashToHeight lc) (hdr_Hash h) 1"
  have no: "mget (lc_headers lc) 1 = None" using validateHeader_height [OF v] one by simp
  then have len: "int (mlen ?hs) - lcc_MaxHeadersInMemory (lc_config lc) = 1"
    using full by (simp add: mlen_put mhas_def)
  have del: "mdel ?hs 1 = lc_headers lc" using no by (intro fmap_ext) simp
  have loop: "evict_loop (lc_latestHeight lc) 1 1 ?hs ?idx = (lc_headers lc, mdel ?idx (hdr_Hash h))"
    using lat by (subst evict_loop.simps, subst (2) evict_loop.simps) (simp add: del)
  have "\<not> int (mlen ?hs) \<le> lcc_MaxHeadersInMemory (lc_config lc)" "lc_latestHeight lc \<noteq> 0" using len lat by auto
  with v one len loop have a: "AddHeader C J L lc h =
      (lc\<lparr>lc_headers := lc_headers lc, lc_hashToHeight := mdel ?idx (hdr_Hash h),
         lc_storage := fst (Storage_Put L (lc_storage lc) (lightHeaderKey 1) (js_text J (enc_header h)))\<rparr>, None)"
    by (simp add: AddHeader_def evictOldHeaders_def persistHeader_def Let_def split: prod.split)
  from a Storage_Put_spec [OF L] show ?thesis by (auto simp: a)
qed

section \<open>Ranges\<close>

lemma headers_loop_result:
  assumes "stop \<noteq> -1"
  shows "headers_loop hs height stop acc
    = Some (acc @ List.map_filter (\<lambda>n. mget hs (of_nat n)) [unat height..<Suc (unat stop)])"
proof (induction "Suc (unat stop) - unat height" arbitrary: height acc)
  case 0
  then have "\<not> height \<le> stop" by (simp add: word_le_nat_alt)
  with 0 show ?case by (subst headers_loop.simps) (simp add: map_filter_def)
next
  case (Suc k)
  then have le: "height \<le> stop" by (simp add: word_le_nat_alt)
  have "height \<noteq> -1" using le assms by (metis word_order.extremum_unique)
  then have "1 + height \<noteq> 0" by (metis add.commute add_eq_0_iff2 add.inverse_inverse)
  then have nx: "unat (height + 1) = Suc (unat height)" using unatSuc [of height] by (simp add: add.commute)
  have up: "[unat height..<Suc (unat stop)] = unat height # [Suc (unat height)..<Suc (unat stop)]"
    using le by (simp add: word_le_nat_alt upt_conv_Cons)
  from Suc nx have "headers_loop hs (height + 1) stop xs
      = Some (xs @ List.map_filter (\<lambda>n. mget hs (of_nat n)) [Suc (unat height)..<Suc (unat stop)])" for xs
    by (metis diff_Suc_1 diff_Suc_Suc Suc_diff_Suc zero_less_Suc zero_less_diff)
  with le show ?case by (subst headers_loop.simps) (simp add: up map_filter_simps del: upt_Suc split: option.split)
qed

lemma filter_indices:
  "List.map_filter (\<lambda>n. if n < length xs then Some (xs ! n) else None) [a..<b] = drop a (take b xs)"
proof (induction b)
  case (Suc b)
  have app: "List.map_filter f (ys @ [y]) = List.map_filter f ys @ (case f y of None \<Rightarrow> [] | Some z \<Rightarrow> [z])"
    for f :: "nat \<Rightarrow> 'a option" and ys y
    by (simp add: List.map_filter_def split: option.split)
  show ?case
  proof (cases "a \<le> b \<and> b < length xs")
    case True
    then show ?thesis by (simp add: app Suc.IH take_Suc_conv_app_nth)
  next
    case False
    then show ?thesis by (cases "a \<le> b") (simp_all add: app Suc.IH map_filter_simps)
  qed
qed (simp add: map_filter_simps)

lemma map_filter_congr:
  "(\<And>x. x \<in> set xs \<Longrightarrow> f x = g x) \<Longrightarrow> List.map_filter f xs = List.map_filter g xs"
  by (induction xs) (simp_all add: map_filter_simps split: option.split)

lemma headers_selected:
  assumes "lc_chain C lc hs"
  shows "List.map_filter (\<lambda>n. mget (lc_headers lc) (of_nat n)) [a..<Suc (unat (b :: u64))] = drop a (take (Suc (unat b)) hs)"
proof -
  have "unat (of_nat n :: u64) = n" if "n \<le> unat b" for n
    using that by (rule le_unat_uoi)
  then have "List.map_filter (\<lambda>n. mget (lc_headers lc) (of_nat n)) [a..<Suc (unat b)]
      = List.map_filter (\<lambda>n. if n < length hs then Some (hs ! n) else None) [a..<Suc (unat b)]"
    using assms by (intro map_filter_congr) (auto simp: lc_chain_def)
  then show ?thesis by (simp only: filter_indices)
qed

lemma wrapped_length:
  assumes "unat a + 1 < unat b" and "unat b < unat a + 2 ^ 63"
  shows "\<not> make_ptrs_ok (a - b + 1)"
proof -
  define d where "d = int (unat a) - int (unat b) + 1"
  have "unat b < unat a + 9223372036854775808" using assms(2) by simp
  then have d: "d < 0" "- 9223372036854775808 < d" using assms(1) unfolding d_def by linarith+
  have "a - b + 1 = word_of_int d" by (simp add: d_def)
  then have "uint (a - b + 1) = d mod 2 ^ 64" by (simp only: uint_word_of_int) simp
  also have "\<dots> = (d + 2 ^ 64) mod 2 ^ 64" by simp
  also have "\<dots> = d + 2 ^ 64" using d by (intro mod_pos_pos_trivial) simp_all
  finally have "int (unat (a - b + 1)) = d + 18446744073709551616" by simp
  with d have "35184372088832 < unat (a - b + 1)" by linarith
  then show ?thesis by (simp add: make_ptrs_ok_def)
qed

lemma AddHeader_answer: "snd (AddHeader C J L lc h) = validateHeader C lc h"
  by (simp add: AddHeader_def Let_def case_prod_unfold split: option.split)

lemma timestamps_unread:
  "snd (AddHeader C J L (lc\<lparr>lc_config := (lc_config lc)\<lparr>lcc_VerifyTimestamps := t\<rparr>\<rparr>) h) = snd (AddHeader C J L lc h)"
  unfolding AddHeader_answer by (cases "mget (lc_headers lc) (hdr_Height h)") (simp_all add: validateHeader_def Let_def)

section \<open>Properties\<close>

text \<open>
  C13. As long as nothing has to be evicted, the light client implements an append-only list of linked
  headers: AddHeader accepts a header exactly when it extends the list, the new state stands for the
  list with the header at its end, the header is then found by its height and by its hash, and no
  other height changes. A refused header changes nothing. No timestamp is verified, whatever the
  comment on VerifyTimestamps in the configuration says: the answer is the same with the switch on and
  off, and the list may be extended by a header of any timestamp.
\<close>

theorem light_client_refines_chain:
  assumes "lc_chain C lc hs" and "int (length hs) < lcc_MaxHeadersInMemory (lc_config lc)"
    and "AddHeader C J L lc h = (lc', r)"
  shows "(r = None \<longleftrightarrow> extends C (lcc_VerifySignatures (lc_config lc)) hs h)
    \<and> (r \<noteq> None \<longrightarrow> lc' = lc)
    \<and> (r = None \<longrightarrow> lc_chain C lc' (hs @ [h]) \<and> GetHeaderByHash lc' (hdr_Hash h) = Inr (Some h)
         \<and> (\<forall>n. GetHeader lc' n = (if n = hdr_Height h then Inr h else GetHeader lc n)))
    \<and> snd (AddHeader C J L (lc\<lparr>lc_config := (lc_config lc)\<lparr>lcc_VerifyTimestamps := t\<rparr>\<rparr>) h) = r"
proof -
  note R = AddHeader_refines [OF assms]
  have "GetHeaderByHash lc' (hdr_Hash h) = Inr (Some h) \<and> (\<forall>n. GetHeader lc' n = (if n = hdr_Height h then Inr h else GetHeader lc n))"
    if "r = None"
  proof -
    have "validateHeader C lc h = None" using assms(3) that by (auto simp: AddHeader_def split: option.splits prod.splits)
    moreover have "mlen (lc_headers lc) = length hs" using assms(1) by (simp add: lc_chain_def)
    ultimately have "lc_headers lc' = mput (lc_headers lc) (hdr_Height h) h
        \<and> lc_hashToHeight lc' = mput (lc_hashToHeight lc) (hdr_Hash h) (hdr_Height h)"
      using assms(2,3) validateHeader_height [of C lc h]
      by (auto simp: AddHeader_def evictOldHeaders_def persistHeader_def Let_def mlen_put mhas_def split: prod.splits if_splits)
    then show ?thesis by (auto simp: GetHeaderByHash_def GetHeader_def)
  qed
  with R show ?thesis using timestamps_unread [of C J L _ lc h] assms(3) by auto
qed

definition demo_headers :: "header list" where
  "demo_headers = (let g = blk_Header (NewBlock demo_crypto 0 0 0 0 []);
       h = (blk_Header (NewBlock demo_crypto 0 1 (hdr_Hash g) 0 []))\<lparr>hdr_Signature := [1]\<rparr>
     in [g, h\<lparr>hdr_Hash := BlockHeader_CalculateHash demo_crypto h\<rparr>])"

definition demo_lc_config :: lc_config where
  "demo_lc_config = DefaultLightClientConfig\<lparr>lcc_VerifySignatures := False\<rparr>"

definition demo_light :: "(bytes \<Rightarrow> bytes option) light_client" where
  "demo_light = fst (AddHeader demo_crypto demo_json map_db (NewLightClient (\<lambda>_. None) (Some demo_lc_config)) (demo_headers ! 0))"

lemma demo_extends:
  "extends demo_crypto False [] (demo_headers ! 0)" "extends demo_crypto False [demo_headers ! 0] (demo_headers ! 1)"
  by (simp_all add: extends_def header_valid_def demo_headers_def NewBlock_def Let_def BlockHeader_CalculateHash_def
      BlockHeader_SerializeWithoutHash_def)

lemma demo_no_sigs: "lcc_VerifySignatures demo_lc_config = False" "lcc_MaxHeadersInMemory demo_lc_config = 10000"
  by (simp_all add: demo_lc_config_def DefaultLightClientConfig_def)

lemma demo_light_chain: "lc_chain demo_crypto demo_light [demo_headers ! 0]"
  "lc_config demo_light = demo_lc_config"
proof -
  obtain lc r where a: "AddHeader demo_crypto demo_json map_db (NewLightClient (\<lambda>_. None) (Some demo_lc_config)) (demo_headers ! 0) = (lc, r)"
    by (meson surj_pair)
  have m: "int (length ([] :: header list)) < lcc_MaxHeadersInMemory (lc_config (NewLightClient (\<lambda>_. None) (Some demo_lc_config)))"
    by (simp add: NewLightClient_def loadHeaders_def DefaultLightClientConfig_def demo_lc_config_def)
  have cfg: "lc_config (NewLightClient (\<lambda>_. None) (Some demo_lc_config)) = demo_lc_config"
    by (simp add: NewLightClient_def loadHeaders_def)
  from AddHeader_refines [OF lc_chain_new m a, unfolded cfg demo_no_sigs] demo_extends(1) a
  show "lc_chain demo_crypto demo_light [demo_headers ! 0]" "lc_config demo_light = demo_lc_config"
    by (auto simp: demo_light_def)
qed

theorem light_client_refines_chain_witness:
  "\<exists>lc'. AddHeader demo_crypto demo_json map_db demo_light (demo_headers ! 1) = (lc', None)
    \<and> lc_chain demo_crypto lc' [demo_headers ! 0, demo_headers ! 1]"
proof -
  obtain lc r where a: "AddHeader demo_crypto demo_json map_db demo_light (demo_headers ! 1) = (lc, r)"
    by (meson surj_pair)
  have m: "int (length [demo_headers ! 0]) < lcc_MaxHeadersInMemory (lc_config demo_light)"
    by (simp add: demo_light_chain(2) demo_no_sigs)
  from light_client_refines_chain [OF demo_light_chain(1) m a] demo_extends(2) a show ?thesis
    by (auto simp: demo_light_chain(2) demo_no_sigs)
qed

text \<open>
  The latest hash of a light client fixes everything it knows: two clients that have evicted
  nothing and agree on the latest height, above 0, and on the latest hash hold the same headers at
  every height, unless Keccak-256 collides on two of those headers.
\<close>

theorem light_client_head_fixes_headers:
  assumes "lc_chain C lc hs" and "lc_chain C lc' hs'"
    and "lc_latestHeight lc = lc_latestHeight lc'" and "lc_latestHash lc = lc_latestHash lc'" and "0 < lc_latestHeight lc"
    and "inj_on (keccak256 C) (BlockHeader_SerializeWithoutHash ` (set hs \<union> set hs'))"
  shows "GetHeader lc n = GetHeader lc' n"
proof -
  have "0 < unat (lc_latestHeight lc)" using assms(5) by (simp add: word_less_nat_alt)
  then have two: "1 < length hs" "length hs = length hs'" using assms(1-3) by (auto simp: lc_chain_def)
  have cong: "linked (BlockHeader_CalculateHash C) hdr_PrevHash xs \<and> (\<forall>h \<in> set xs. BlockHeader_CalculateHash C h = hdr_Hash h)"
    if "lc_chain C l xs" for l :: "'s light_client" and xs
    using that linked_cong [of xs "BlockHeader_CalculateHash C" hdr_Hash hdr_PrevHash]
    by (auto simp: lc_chain_def header_list_def header_valid_def)
  have "hs = hs'"
  proof (rule header_lists_determined [of C])
    show "hdr_Hash (last hs) = hdr_Hash (last hs')" using assms(1,2,4) two by (auto simp: lc_chain_def)
  qed (use cong [OF assms(1)] cong [OF assms(2)] assms(6) two in auto)
  with assms(1,2) show ?thesis by (simp add: GetHeader_def lc_chain_def)
qed

theorem light_client_head_fixes_headers_witness:
  "\<exists>lc :: (bytes \<Rightarrow> bytes option) light_client. lc_chain demo_crypto lc demo_headers \<and> 0 < lc_latestHeight lc \<and> GetHeader lc 1 = GetHeader lc 1"
proof -
  obtain lc r where a: "AddHeader demo_crypto demo_json map_db demo_light (demo_headers ! 1) = (lc, r)"
    by (meson surj_pair)
  have m: "int (length [demo_headers ! 0]) < lcc_MaxHeadersInMemory (lc_config demo_light)"
    by (simp add: demo_light_chain(2) demo_no_sigs)
  have d: "[demo_headers ! 0, demo_headers ! 1] = demo_headers" by (simp add: demo_headers_def Let_def)
  from AddHeader_refines [OF demo_light_chain(1) m a] demo_extends(2) d
  have c: "lc_chain demo_crypto lc demo_headers" by (auto simp: demo_light_chain(2) demo_no_sigs)
  have "unat (lc_latestHeight lc) = 1" using c by (simp add: lc_chain_def demo_headers_def Let_def)
  then have p: "0 < lc_latestHeight lc" by (simp add: word_less_nat_alt)
  have i: "inj_on (keccak256 demo_crypto) (BlockHeader_SerializeWithoutHash ` (set demo_headers \<union> set demo_headers))"
    by (auto simp: inj_on_def demo_headers_def Let_def NewBlock_def demo_crypto_def demo_hash_def
        BlockHeader_SerializeWithoutHash_def)
  from light_client_head_fixes_headers [OF c c refl refl p i, of 1] c p show ?thesis by blast
qed

text \<open>
  VerifyTransaction of the light client ignores the transaction: its answer is that of the Merkle
  proof alone, so with a proof of any transaction of the block it confirms every transaction hash.
\<close>

theorem light_client_confirms_any_transaction:
  assumes "i < length txs" and "GetHeader lc n = Inr h" and "hdr_MerkleRoot h = CalculateMerkleRoot C txs"
  shows "\<exists>mt p. MerkleTreeFromTransactions C txs = Inr mt \<and> GetProof C mt (int i) = Inr p
    \<and> (\<forall>txHash. lc_VerifyTransaction C lc txHash n (Some p) = Done (Inr True))"
  using GetProof_complete [OF assms(1), of C] assms(2,3) by (auto simp: lc_VerifyTransaction_def)

theorem light_client_confirms_any_transaction_witness:
  "\<exists>lc p. \<forall>txHash. lc_VerifyTransaction demo_crypto (lc :: (bytes \<Rightarrow> bytes option) light_client) txHash 0 (Some p) = Done (Inr True)"
proof -
  let ?h = "blk_Header (NewBlock demo_crypto 0 0 0 0 [demo_tx])"
  let ?lc = "NewLightClient (\<lambda>_. None) None\<lparr>lc_headers := mput fmempty 0 ?h\<rparr>"
  have "GetHeader ?lc 0 = Inr ?h" "hdr_MerkleRoot ?h = CalculateMerkleRoot demo_crypto [demo_tx]"
    by (simp_all add: GetHeader_def NewBlock_def Let_def)
  from light_client_confirms_any_transaction [OF _ this, of 0] show ?thesis by auto
qed

text \<open>
  GetHeadersRange gives the stored headers from \<open>start\<close> to the smaller of \<open>end\<close> and the latest
  height. A range that lies beyond the latest height by more than one is not empty but a run-time
  panic, as its length wraps around.
\<close>

theorem headers_range_result:
  assumes "lc_chain C lc hs" and "lc_latestHeight lc \<noteq> -1" and "start \<le> stop"
  shows "GetHeadersRange lc start stop =
      (let last = min stop (lc_latestHeight lc) in
       if \<not> make_ptrs_ok (last - start + 1) then Some Panic
       else Some (Done (Inr (drop (unat start) (take (Suc (unat last)) hs)))))
    \<and> (unat (lc_latestHeight lc) + 1 < unat start \<and> unat start < unat (lc_latestHeight lc) + 2 ^ 63 \<longrightarrow>
        GetHeadersRange lc start stop = Some Panic)"
proof (intro conjI impI)
  define last where "last = min stop (lc_latestHeight lc)"
  have "last \<le> lc_latestHeight lc" by (simp add: last_def)
  then have "last \<noteq> -1" using assms(2) by (metis word_order.extremum_unique)
  from headers_loop_result [OF this] headers_selected [OF assms(1)]
  have loop: "headers_loop (lc_headers lc) start last [] = Some (drop (unat start) (take (Suc (unat last)) hs))" by simp
  have last': "(if lc_latestHeight lc < stop then lc_latestHeight lc else stop) = last" by (auto simp: last_def min_def)
  show eq: "GetHeadersRange lc start stop = (let last = min stop (lc_latestHeight lc) in
       if \<not> make_ptrs_ok (last - start + 1) then Some Panic
       else Some (Done (Inr (drop (unat start) (take (Suc (unat last)) hs)))))"
    using assms(3) by (simp add: GetHeadersRange_def last' loop flip: last_def)
  assume far: "unat (lc_latestHeight lc) + 1 < unat start \<and> unat start < unat (lc_latestHeight lc) + 2 ^ 63"
  then have "lc_latestHeight lc \<le> stop" using assms(3) by (simp add: word_le_nat_alt)
  then have l: "min stop (lc_latestHeight lc) = lc_latestHeight lc" by simp
  show "GetHeadersRange lc start stop = Some Panic"
    using wrapped_length [of "lc_latestHeight lc" start] far by (simp add: eq l)
qed

theorem headers_range_result_witness:
  "GetHeadersRange demo_light 0 5 = Some (Done (Inr [demo_headers ! 0])) \<and> GetHeadersRange demo_light 5 9 = Some Panic"
proof -
  have "unat (lc_latestHeight demo_light) = 0" using demo_light_chain(1) by (simp add: lc_chain_def)
  then have "lc_latestHeight demo_light = 0" by (simp add: unat_eq_0)
  with headers_range_result [OF demo_light_chain(1), of 0 5] headers_range_result [OF demo_light_chain(1), of 5 9]
  show ?thesis by (simp add: make_ptrs_ok_def)
qed

end
