(* ===== verification/Header_Sync.thy ===== *)
theory Header_Sync
  imports Light_Client
begin

text \<open>
  Header synchronisation (blockchain/sync.go) over the light client. The source has no peers yet:
  RequestHeaders checks its range and returns no headers. What the selects of a call see (a closed stop
  channel, a cancelled context) is an argument; loops over unsigned heights may not end and are partial.
\<close>

section \<open>State\<close>

record sync_config =
  sc_BatchSize :: int
  sc_MaxRetries :: int
  sc_RetryInterval :: int
  sc_Timeout :: int
  sc_MinPeers :: int
  sc_CheckpointInterval :: u64

text \<open>Durations are in nanoseconds.\<close>

definition DefaultSyncConfig :: sync_config where
  "DefaultSyncConfig = \<lparr>sc_BatchSize = 100, sc_MaxRetries = 3, sc_RetryInterval = 5 * 10 ^ 9,
     sc_Timeout = 30 * 10 ^ 9, sc_MinPeers = 1, sc_CheckpointInterval = 1000\<rparr>"

record 's header_sync =
  hs_lightClient :: "'s light_client"
  hs_isSyncing :: bool
  hs_config :: sync_config
  hs_stopClosed :: bool

datatype sync_error =
    SyncNotStarted
  | ContextDone
  | SyncStopped
  | SyncInvalidRange
  | RangeTooLarge
  | NotInOrder nat
  | ChainBroken nat
  | AddFailed u64 lc_error
  | FetchFailed sync_error
  | ProcessFailed sync_error
  | NoCheckpoints

definition NewHeaderSync :: "'s light_client \<Rightarrow> sync_config option \<Rightarrow> 's header_sync" where
  "NewHeaderSync lc cfg = \<lparr>hs_lightClient = lc, hs_isSyncing = False,
     hs_config = (case cfg of None \<Rightarrow> DefaultSyncConfig | Some c \<Rightarrow> c), hs_stopClosed = False\<rparr>"

definition sync_Start :: "'s header_sync \<Rightarrow> 's header_sync" where
  "sync_Start hs = (if hs_isSyncing hs then hs else hs\<lparr>hs_isSyncing := True\<rparr>)"

text \<open>Closing a channel that is closed panics.\<close>

definition sync_Stop :: "'s header_sync \<Rightarrow> 's header_sync outcome" where
  "sync_Stop hs =
     (if \<not> hs_isSyncing hs then Done hs
      else if hs_stopClosed hs then Panic
      else Done (hs\<lparr>hs_stopClosed := True, hs_isSyncing := False\<rparr>))"

definition batch_u64 :: "'s header_sync \<Rightarrow> u64" where
  "batch_u64 hs = of_int (sc_BatchSize (hs_config hs))"

section \<open>Periodic synchronisation\<close>

definition fetchAndProcessHeaders :: "bool \<Rightarrow> u64 \<Rightarrow> u64 \<Rightarrow> sync_error option" where
  "fetchAndProcessHeaders ctxDone start stop = (if ctxDone then Some ContextDone else None)"

partial_function (option) fetch_loop ::
  "(nat \<Rightarrow> bool) \<Rightarrow> u64 \<Rightarrow> u64 \<Rightarrow> nat \<Rightarrow> u64 \<Rightarrow> sync_error option option" where
  "fetch_loop ctxDone batch target k start =
     (if start \<le> target
      then (let stop = start + batch - 1; stop = (if target < stop then target else stop) in
            case fetchAndProcessHeaders (ctxDone k) start stop of
              Some e \<Rightarrow> Some (Some (FetchFailed e))
            | None \<Rightarrow> fetch_loop ctxDone batch target (Suc k) (start + batch))
      else Some None)"

definition SyncOnce :: "(nat \<Rightarrow> bool) \<Rightarrow> 's header_sync \<Rightarrow> sync_error option option" where
  "SyncOnce ctxDone hs =
     (if \<not> hs_isSyncing hs then Some (Some SyncNotStarted)
      else let localHeight = lc_GetLatestHeight (hs_lightClient hs);
               targetHeight = localHeight + batch_u64 hs
           in fetch_loop ctxDone (batch_u64 hs) targetHeight 0 (localHeight + 1))"

section \<open>Requesting and processing headers\<close>

definition RequestHeaders :: "'s header_sync \<Rightarrow> u64 \<Rightarrow> u64 \<Rightarrow> sync_error + header list" where
  "RequestHeaders hs from to =
     (if to < from then Inl SyncInvalidRange
      else if batch_u64 hs < to - from + 1 then Inl RangeTooLarge
      else Inr [])"

fun headers_in_order :: "nat \<Rightarrow> header list \<Rightarrow> sync_error option" where
  "headers_in_order i (a # b # rest) =
     (if hdr_Height b \<noteq> hdr_Height a + 1 then Some (NotInOrder i)
      else if \<not> Hash_Equals (hdr_PrevHash b) (hdr_Hash a) then Some (ChainBroken i)
      else headers_in_order (Suc i) (b # rest))"
| "headers_in_order i hs = None"

fun add_headers ::
  "crypto \<Rightarrow> json_lib \<Rightarrow> 's db \<Rightarrow> 's light_client \<Rightarrow> header list \<Rightarrow> 's light_client \<times> sync_error option" where
  "add_headers C J L lc [] = (lc, None)"
| "add_headers C J L lc (h # rest) =
     (case AddHeader C J L lc h of
        (lc, Some e) \<Rightarrow> (lc, Some (AddFailed (hdr_Height h) e))
      | (lc, None) \<Rightarrow> add_headers C J L lc rest)"

definition ProcessHeaders ::
  "crypto \<Rightarrow> json_lib \<Rightarrow> 's db \<Rightarrow> 's header_sync \<Rightarrow> header list \<Rightarrow> 's header_sync \<times> sync_error option" where
  "ProcessHeaders C J L hs headers =
     (if headers = [] then (hs, None)
      else case headers_in_order 1 headers of
        Some e \<Rightarrow> (hs, Some e)
      | None \<Rightarrow>
          (case add_headers C J L (hs_lightClient hs) headers of
             (lc, r) \<Rightarrow> (hs\<lparr>hs_lightClient := lc\<rparr>, r)))"

definition IsSyncing :: "'s header_sync \<Rightarrow> bool" where
  "IsSyncing hs = hs_isSyncing hs"

section \<open>Full and fast synchronisation\<close>

text \<open>What the select at the start of a batch sees, and the retries of one request.\<close>

datatype poll = PollStop | PollDone | PollNone

fun fetch_retry ::
  "'s header_sync \<Rightarrow> (nat \<Rightarrow> bool) \<Rightarrow> u64 \<Rightarrow> u64 \<Rightarrow> nat \<Rightarrow> nat \<Rightarrow> header list \<times> sync_error option
     \<Rightarrow> sync_error + header list \<times> sync_error option" where
  "fetch_retry hs ctxDone start stop 0 retry res = Inr res"
| "fetch_retry hs ctxDone start stop (Suc n) retry res =
     (case RequestHeaders hs start stop of
        Inr headers \<Rightarrow> Inr (headers, None)
      | Inl e \<Rightarrow> if ctxDone retry then Inl ContextDone
                else fetch_retry hs ctxDone start stop n (Suc retry) ([], Some e))"

partial_function (option) full_sync_loop ::
  "crypto \<Rightarrow> json_lib \<Rightarrow> 's db \<Rightarrow> (nat \<Rightarrow> poll) \<Rightarrow> (nat \<Rightarrow> nat \<Rightarrow> bool) \<Rightarrow> u64 \<Rightarrow> nat \<Rightarrow> u64 \<Rightarrow> 's header_sync
     \<Rightarrow> ('s header_sync \<times> sync_error option) option" where
  "full_sync_loop C J L polls ctxDone target k start hs =
     (if start \<le> target
      then (let stop = start + batch_u64 hs - 1; stop = (if target < stop then target else stop) in
            case polls k of
              PollStop \<Rightarrow> Some (hs, Some SyncStopped)
            | PollDone \<Rightarrow> Some (hs, Some ContextDone)
            | PollNone \<Rightarrow>
                (case fetch_retry hs (ctxDone k) start stop (nat (sc_MaxRetries (hs_config hs))) 0 ([], None) of
                   Inl e \<Rightarrow> Some (hs, Some e)
                 | Inr fetched \<Rightarrow>
                     (case snd fetched of
                        Some e \<Rightarrow> Some (hs, Some (FetchFailed e))
                      | None \<Rightarrow>
                          (case ProcessHeaders C J L hs (fst fetched) of
                             (hs', r) \<Rightarrow>
                               (case r of
                                  Some e \<Rightarrow> Some (hs', Some (ProcessFailed e))
                                | None \<Rightarrow> full_sync_loop C J L polls ctxDone target (Suc k) (start + batch_u64 hs') hs')))))
      else Some (hs, None))"

definition FullSync ::
  "crypto \<Rightarrow> json_lib \<Rightarrow> 's db \<Rightarrow> (nat \<Rightarrow> poll) \<Rightarrow> (nat \<Rightarrow> nat \<Rightarrow> bool) \<Rightarrow> 's header_sync \<Rightarrow> u64
     \<Rightarrow> ('s header_sync \<times> sync_error option) option" where
  "FullSync C J L polls ctxDone hs targetHeight =
     (let localHeight = lc_GetLatestHeight (hs_lightClient hs) in
      if targetHeight \<le> localHeight then Some (hs, None)
      else full_sync_loop C J L polls ctxDone targetHeight 0 (localHeight + 1) hs)"

definition FastSync ::
  "crypto \<Rightarrow> json_lib \<Rightarrow> 's db \<Rightarrow> (nat \<Rightarrow> poll) \<Rightarrow> (nat \<Rightarrow> nat \<Rightarrow> bool) \<Rightarrow> 's header_sync \<Rightarrow> header list
     \<Rightarrow> ('s header_sync \<times> sync_error option) option" where
  "FastSync C J L polls ctxDone hs checkpoints =
     (if checkpoints = [] then Some (hs, Some NoCheckpoints)
      else case add_headers C J L (hs_lightClient hs) checkpoints of
        (lc, Some e) \<Rightarrow> Some (hs\<lparr>hs_lightClient := lc\<rparr>, Some e)
      | (lc, None) \<Rightarrow>
          FullSync C J L polls ctxDone (hs\<lparr>hs_lightClient := lc\<rparr>) (hdr_Height (last checkpoints) + 1000))"

record sync_stats =
  sst_TotalSynced :: u64
  sst_FailedAttempts :: nat
  sst_AverageLatency :: int
  sst_LastSyncTime :: int

definition sync_GetStats :: "int \<Rightarrow> 's header_sync \<Rightarrow> sync_stats" where
  "sync_GetStats now hs = \<lparr>sst_TotalSynced = lc_GetLatestHeight (hs_lightClient hs), sst_FailedAttempts = 0,
     sst_AverageLatency = 0, sst_LastSyncTime = now\<rparr>"

section \<open>Batches of headers\<close>

lemma header_list_prefix: "header_list C sigs (xs @ ys) \<Longrightarrow> header_list C sigs xs"
  by (induction ys rule: rev_induct) (simp_all flip: append_assoc add: header_list_snoc)

lemma add_headers_refines:
  assumes "lc_chain C lc hs" and "int (length hs + length headers) \<le> lcc_MaxHeadersInMemory (lc_config lc)"
    and "add_headers C J L lc headers = (lc', r)"
  shows "(r = None \<longleftrightarrow> header_list C (lcc_VerifySignatures (lc_config lc)) (hs @ headers))
    \<and> (\<exists>k \<le> length headers. lc_chain C lc' (hs @ take k headers) \<and> (r = None \<longrightarrow> k = length headers))"
  using assms
proof (induction headers arbitrary: lc hs)
  case Nil
  then show ?case by (simp add: lc_chain_def)
next
  case (Cons h rest)
  obtain lc1 r1 where a: "AddHeader C J L lc h = (lc1, r1)" by (meson surj_pair)
  have "int (length hs) < lcc_MaxHeadersInMemory (lc_config lc)" using Cons.prems(2) by simp
  note R = AddHeader_refines [OF Cons.prems(1) this a]
  have hl: "header_list C (lcc_VerifySignatures (lc_config lc)) hs" using Cons.prems(1) by (simp add: lc_chain_def)
  show ?case
  proof (cases r1)
    case (Some e)
    with R Cons.prems(3) a have "lc' = lc" "r \<noteq> None" by auto
    moreover have "\<not> header_list C (lcc_VerifySignatures (lc_config lc)) (hs @ h # rest)"
      using R Some header_list_prefix [of C _ "hs @ [h]" rest] header_list_snoc by auto
    ultimately show ?thesis using Cons.prems(1) by (intro conjI exI [of _ 0]) auto
  next
    case None
    with R have c: "lc_chain C lc1 (hs @ [h])" "lc_config lc1 = lc_config lc" by auto
    have ah: "add_headers C J L lc1 rest = (lc', r)" using Cons.prems(3) a None by simp
    have len: "int (length (hs @ [h]) + length rest) \<le> lcc_MaxHeadersInMemory (lc_config lc1)"
      using Cons.prems(2) c(2) by simp
    have i: "(r = None \<longleftrightarrow> header_list C (lcc_VerifySignatures (lc_config lc)) ((hs @ [h]) @ rest))
      \<and> (\<exists>k \<le> length rest. lc_chain C lc' ((hs @ [h]) @ take k rest) \<and> (r = None \<longrightarrow> k = length rest))"
      using Cons.IH [OF c(1) len ah] unfolding c(2) .
    then obtain k where "k \<le> length rest" "lc_chain C lc' ((hs @ [h]) @ take k rest)" "r = None \<longrightarrow> k = length rest" by blast
    with i show ?thesis by (intro conjI exI [of _ "Suc k"]) auto
  qed
qed

lemma header_list_in_order:
  "header_list C sigs (hs @ headers) \<Longrightarrow> headers_in_order i headers = None"
proof (induction i headers arbitrary: hs rule: headers_in_order.induct)
  case (1 i a b rest)
  have "header_list C sigs ((hs @ [a]) @ b # rest)" using 1(2) by simp
  note IH = 1(1) [OF _ _ this]
  have "header_list C sigs ((hs @ [a]) @ [b])" using header_list_prefix [of C sigs "hs @ [a, b]" rest] 1(2) by simp
  then have e: "extends C sigs (hs @ [a]) b" and "header_list C sigs (hs @ [a])" by (simp_all only: header_list_snoc)
  then have "extends C sigs hs a" by (simp only: header_list_snoc)
  with e have "unat (hdr_Height b) = Suc (unat (hdr_Height a))" "hdr_PrevHash b = hdr_Hash a"
    by (simp_all add: extends_def)
  moreover have "hdr_Height b = of_nat (unat (hdr_Height b))" by simp
  then have "hdr_Height b = hdr_Height a + 1" unfolding calculation(1) by simp
  ultimately show ?case using IH by (simp add: Hash_Equals_def)
qed auto

section \<open>Properties\<close>

text \<open>
  A batch of headers is accepted as a whole exactly when it continues the chain of the light client.
  Otherwise ProcessHeaders returns an error and the client has kept a prefix of the batch, so that it
  always stands for a linked chain.
\<close>

theorem process_headers_result:
  assumes "lc_chain C (hs_lightClient s) hs"
    and "int (length hs + length headers) \<le> lcc_MaxHeadersInMemory (lc_config (hs_lightClient s))"
    and "ProcessHeaders C J L s headers = (s', r)"
  shows "(r = None \<longleftrightarrow> header_list C (lcc_VerifySignatures (lc_config (hs_lightClient s))) (hs @ headers))
    \<and> (\<exists>k \<le> length headers. lc_chain C (hs_lightClient s') (hs @ take k headers) \<and> (r = None \<longrightarrow> k = length headers))"
proof (cases "headers = []")
  case True
  with assms show ?thesis by (simp add: ProcessHeaders_def) (simp add: lc_chain_def)
next
  case ne: False
  show ?thesis
  proof (cases "headers_in_order 1 headers")
    case (Some e)
    with ne assms(3) have "s' = s" "r = Some e" by (simp_all add: ProcessHeaders_def)
    moreover have "\<not> header_list C sigs (hs @ headers)" for sigs
      using header_list_in_order [of C sigs hs headers 1] Some by auto
    ultimately show ?thesis using assms(1) by (intro conjI exI [of _ 0]) auto
  next
    case None
    with ne assms(3) obtain lc where a: "add_headers C J L (hs_lightClient s) headers = (lc, r)"
      and s': "s' = s\<lparr>hs_lightClient := lc\<rparr>"
      by (auto simp: ProcessHeaders_def split: prod.splits)
    have "hs_lightClient s' = lc" by (simp add: s')
    from add_headers_refines [OF assms(1,2) a] show ?thesis unfolding \<open>hs_lightClient s' = lc\<close> .
  qed
qed

theorem process_headers_result_witness:
  "\<exists>s'. ProcessHeaders demo_crypto demo_json map_db (NewHeaderSync demo_light None) [demo_headers ! 1] = (s', None)
    \<and> lc_chain demo_crypto (hs_lightClient s') [demo_headers ! 0, demo_headers ! 1]"
proof -
  let ?s = "NewHeaderSync demo_light None"
  have lc: "hs_lightClient ?s = demo_light" by (simp add: NewHeaderSync_def)
  obtain s' r where p: "ProcessHeaders demo_crypto demo_json map_db ?s [demo_headers ! 1] = (s', r)" by (meson surj_pair)
  have c: "lc_chain demo_crypto (hs_lightClient ?s) [demo_headers ! 0]" by (simp only: lc demo_light_chain)
  have m: "int (length [demo_headers ! 0] + length [demo_headers ! 1]) \<le> lcc_MaxHeadersInMemory (lc_config (hs_lightClient ?s))"
    by (simp add: lc demo_light_chain(2) demo_no_sigs)
  have "header_list demo_crypto False ([demo_headers ! 0] @ [demo_headers ! 1])"
    using demo_extends header_list_snoc [of demo_crypto False "[]" "demo_headers ! 0"]
      header_list_snoc [of demo_crypto False "[demo_headers ! 0]" "demo_headers ! 1"] header_list_Nil by simp
  with process_headers_result [OF c m p] p show ?thesis by (auto simp: lc demo_light_chain(2) demo_no_sigs)
qed

lemma request_returns_nothing:
  assumes "start \<le> target" and "0 < unat (batch_u64 s)" and "unat target + unat (batch_u64 s) < 2 ^ 64"
  shows "RequestHeaders s start (if target < start + batch_u64 s - 1 then target else start + batch_u64 s - 1) = Inr []"
    and "unat (start + batch_u64 s) = unat start + unat (batch_u64 s)"
proof -
  let ?b = "batch_u64 s" and ?e = "start + batch_u64 s - 1"
  have le: "unat start \<le> unat target" using assms(1) by (simp add: word_le_nat_alt)
  with assms(3) show add: "unat (start + ?b) = unat start + unat ?b" by (intro unat_add_lem [THEN iffD1]) simp
  have "start + ?b \<noteq> 0" using add assms(2) by (metis add_is_0 not_gr0 unat_0)
  then have e: "unat ?e = unat start + unat ?b - 1" using add by (simp add: unat_minus_one)
  then have "start \<le> ?e" using assms(2) by (simp add: word_le_nat_alt)
  moreover have "?e - start + 1 = ?b" by simp
  moreover have "target - start + 1 \<le> ?b" if "target < ?e"
  proof -
    have "unat (target - start) = unat target - unat start" using assms(1) by (rule unat_sub)
    moreover have "unat target < unat start + unat ?b - 1" using that e by (simp add: word_less_nat_alt)
    ultimately have "unat (target - start) + 1 \<le> unat ?b" using le by simp
    moreover from this have "unat (target - start + 1) = unat (target - start) + 1"
      using assms(3) unat_add_lem [of "target - start" 1] by simp
    ultimately show ?thesis by (simp add: word_le_nat_alt)
  qed
  ultimately show "RequestHeaders s start (if target < ?e then target else ?e) = Inr []"
    using assms(1) by (cases "target < ?e") (simp_all only: RequestHeaders_def if_True if_False, auto simp: not_less)
qed

lemma fetch_retry_nothing:
  "RequestHeaders s start stop = Inr [] \<Longrightarrow> fetch_retry s ctxDone start stop n r ([], None) = Inr ([], None)"
  by (cases n) simp_all

lemma full_sync_loop_unchanged:
  assumes "0 < unat (batch_u64 s)" and "unat target + unat (batch_u64 s) < 2 ^ 64" and "\<And>k. polls k = PollNone"
  shows "full_sync_loop C J L polls ctxDone target k start s = Some (s, None)"
proof (induction "Suc (unat target) - unat start" arbitrary: k start rule: less_induct)
  case less
  show ?case
  proof (cases "start \<le> target")
    case False
    then show ?thesis by (subst full_sync_loop.simps) simp
  next
    case True
    note R = request_returns_nothing [OF True assms(1,2)]
    have "full_sync_loop C J L polls ctxDone target (Suc k) (start + batch_u64 s) s = Some (s, None)"
      by (rule less) (use True assms(1) R(2) in \<open>simp add: word_le_nat_alt\<close>)
    with True show ?thesis
      by (subst full_sync_loop.simps) (simp add: assms(3) Let_def fetch_retry_nothing [OF R(1)] ProcessHeaders_def)
  qed
qed

text \<open>
  C27. FullSync always ends if the target height leaves room for one more batch below \<open>2^64\<close>, and when it
  is not stopped it reports success without having fetched anything: the requests return no headers,
  so the light client is what it was, below the target height.
\<close>

theorem full_sync_completes_unchanged:
  assumes "0 < sc_BatchSize (hs_config s)" and "uint target + sc_BatchSize (hs_config s) < 2 ^ 64"
    and "\<And>k. polls k = PollNone"
  shows "FullSync C J L polls ctxDone s target = Some (s, None)"
proof -
  have b: "uint (batch_u64 s) = sc_BatchSize (hs_config s)"
  proof -
    have "sc_BatchSize (hs_config s) < 2 ^ 64" using assms(2) uint_nonnegative [of target] by linarith
    with assms(1) show ?thesis
      unfolding batch_u64_def by (simp only: uint_word_of_int) (auto intro!: mod_pos_pos_trivial)
  qed
  have "int (unat w) = uint w" for w :: u64 by simp
  with b assms(1,2) have "0 < int (unat (batch_u64 s))" "int (unat target) + int (unat (batch_u64 s)) < 18446744073709551616"
    by (simp_all only: power_numeral) simp_all
  then have "0 < unat (batch_u64 s)" "unat target + unat (batch_u64 s) < 18446744073709551616" by linarith+
  then have "0 < unat (batch_u64 s)" "unat target + unat (batch_u64 s) < 2 ^ 64" by simp_all
  from full_sync_loop_unchanged [OF this assms(3)] show ?thesis by (simp add: FullSync_def Let_def)
qed

theorem full_sync_completes_unchanged_witness:
  "FullSync demo_crypto demo_json map_db (\<lambda>_. PollNone) (\<lambda>_ _. False) (NewHeaderSync demo_light None) 500
    = Some (NewHeaderSync demo_light None, None)"
  by (rule full_sync_completes_unchanged) (simp_all add: NewHeaderSync_def DefaultSyncConfig_def)

text \<open>A second Stop after a second Start closes the channel again.\<close>

lemma restart_then_stop_panics:
  assumes "sync_Stop (sync_Start hs) = Done hs'"
  shows "sync_Stop (sync_Start hs') = Panic"
  using assms by (auto simp: sync_Stop_def sync_Start_def split: if_splits)

end
