(* ===== verification/Fork.thy ===== *)
theory Fork
  imports Chain
begin

text \<open>
  Fork detection (blockchain/fork.go) over the block chain. The detector keeps the fork records by
  height; every question about the main chain goes through the chain's own lock. The order in which Go
  visits the map of forks, and sort.Slice on more than twelve items, are arguments.
\<close>

section \<open>State\<close>

record fork =
  fk_Height :: u64
  fk_Hash :: hash
  fk_ParentHash :: hash
  fk_Timestamp :: i64
  fk_Difficulty :: u64
  fk_IsMainChain :: bool
  fk_Children :: "hash list"

record fork_config =
  fc_MaxForkDepth :: int
  fc_ConfirmationDepth :: int
  fc_ReorgLimit :: int

definition DefaultForkConfig :: fork_config where
  "DefaultForkConfig = \<lparr>fc_MaxForkDepth = 100, fc_ConfirmationDepth = 6, fc_ReorgLimit = 50\<rparr>"

record 's fork_detector =
  fd_forks :: "(u64, fork list) fmap"
  fd_mainChain :: "'s blockchain"
  fd_config :: fork_config

datatype fork_error =
    NoForksAtHeight
  | MainBlockMissing blockstore_error
  | NoCommonAncestor
  | ReorgTooDeep nat int

definition NewForkDetector :: "'s blockchain \<Rightarrow> fork_config option \<Rightarrow> 's fork_detector" where
  "NewForkDetector mainChain cfg = \<lparr>fd_forks = fmempty, fd_mainChain = mainChain,
     fd_config = (case cfg of None \<Rightarrow> DefaultForkConfig | Some c \<Rightarrow> c)\<rparr>"

definition forks_at :: "'s fork_detector \<Rightarrow> u64 \<Rightarrow> fork list" where
  "forks_at fd height = (case mget (fd_forks fd) height of None \<Rightarrow> [] | Some fs \<Rightarrow> fs)"

definition AddFork :: "'s fork_detector \<Rightarrow> fork \<Rightarrow> 's fork_detector" where
  "AddFork fd f = fd\<lparr>fd_forks := mput (fd_forks fd) (fk_Height f) (forks_at fd (fk_Height f) @ [f])\<rparr>"

section \<open>Detection\<close>

definition DetectFork ::
  "json_lib \<Rightarrow> 's db \<Rightarrow> 's fork_detector \<Rightarrow> block \<Rightarrow> ('s fork_detector \<times> fork option) outcome" where
  "DetectFork J L fd block =
     (let h = blk_Header block; parentHeight = hdr_Height h - 1 in
      if parentHeight = 0 then Done (fd, None)
      else obind (GetBlockByHash J L (fd_mainChain fd) (hdr_PrevHash h)) (\<lambda>_.
        obind (GetBlockByHeight J L (fd_mainChain fd) (hdr_Height h)) (\<lambda>r.
          case r of
            Inl e \<Rightarrow> Done (fd, None)
          | Inr existing \<Rightarrow>
              if \<not> Hash_Equals (hdr_Hash (blk_Header existing)) (hdr_Hash h)
              then (let f = \<lparr>fk_Height = hdr_Height h, fk_Hash = hdr_Hash h, fk_ParentHash = hdr_PrevHash h,
                             fk_Timestamp = hdr_Timestamp h, fk_Difficulty = 1, fk_IsMainChain = False,
                             fk_Children = []\<rparr>
                    in Done (AddFork fd f, Some f))
              else Done (fd, None))))"

section \<open>Resolution\<close>

text \<open>
  sort.Slice sorts up to twelve items by insertion, which moves an item to the left while it is less
  than its neighbour; longer slices are left to the argument \<open>pdq\<close>.
\<close>

fun insert_left :: "('a \<Rightarrow> 'a \<Rightarrow> bool) \<Rightarrow> 'a \<Rightarrow> 'a list \<Rightarrow> 'a list" where
  "insert_left lt x [] = [x]"
| "insert_left lt x (y # rest) = (if lt x y then y # insert_left lt x rest else x # y # rest)"

definition sort_Slice :: "('a list \<Rightarrow> 'a list) \<Rightarrow> ('a \<Rightarrow> 'a \<Rightarrow> bool) \<Rightarrow> 'a list \<Rightarrow> 'a list" where
  "sort_Slice pdq lt xs = (if length xs \<le> 12 then rev (fold (insert_left lt) xs []) else pdq xs)"

definition calculateChainScore :: "hash \<Rightarrow> u64" where
  "calculateChainScore h = 1"

definition ResolveFork ::
  "json_lib \<Rightarrow> 's db \<Rightarrow> ((fork \<times> u64) list \<Rightarrow> (fork \<times> u64) list) \<Rightarrow> 's fork_detector \<Rightarrow> u64 \<Rightarrow> (fork_error + fork) outcome" where
  "ResolveFork J L pdq fd height =
     (if forks_at fd height = [] then Done (Inl NoForksAtHeight)
      else obind (GetBlockByHeight J L (fd_mainChain fd) height) (\<lambda>r.
        case r of
          Inl e \<Rightarrow> Done (Inl (MainBlockMissing e))
        | Inr mainBlock \<Rightarrow>
            let mainHash = hdr_Hash (blk_Header mainBlock);
                mainFork = \<lparr>fk_Height = height, fk_Hash = mainHash, fk_ParentHash = 0, fk_Timestamp = 0,
                            fk_Difficulty = 0, fk_IsMainChain = False, fk_Children = []\<rparr>;
                scores = (mainFork, calculateChainScore mainHash)
                           # map (\<lambda>f. (f, calculateChainScore (fk_Hash f))) (forks_at fd height);
                scores = sort_Slice pdq (\<lambda>a b. snd b < snd a) scores
            in Done (Inr (fst (hd scores)))))"

section \<open>Reorganisation\<close>

partial_function (option) new_chain_loop ::
  "json_lib \<Rightarrow> 's db \<Rightarrow> 's blockchain \<Rightarrow> hash \<Rightarrow> hash list \<Rightarrow> hash list outcome option" where
  "new_chain_loop J L bc current newChain =
     (case GetBlockByHash J L bc current of
        Blocked \<Rightarrow> Some Blocked
      | Panic \<Rightarrow> Some Panic
      | Done (Inl e) \<Rightarrow> Some (Done newChain)
      | Done (Inr block) \<Rightarrow>
          if hdr_Height (blk_Header block) = 0 then Some (Done newChain)
          else new_chain_loop J L bc (hdr_PrevHash (blk_Header block)) (newChain @ [hdr_PrevHash (blk_Header block)]))"

partial_function (option) old_chain_loop ::
  "json_lib \<Rightarrow> 's db \<Rightarrow> 's blockchain \<Rightarrow> hash list \<Rightarrow> hash \<Rightarrow> hash list
     \<Rightarrow> (fork_error + hash \<times> hash list \<times> hash list) outcome option" where
  "old_chain_loop J L bc newChain current oldChain =
     (if current \<in> set newChain then Some (Done (Inr (current, oldChain, newChain)))
      else case GetBlockByHash J L bc current of
        Blocked \<Rightarrow> Some Blocked
      | Panic \<Rightarrow> Some Panic
      | Done (Inl e) \<Rightarrow> Some (Done (Inl NoCommonAncestor))
      | Done (Inr block) \<Rightarrow>
          if hdr_Height (blk_Header block) = 0 then Some (Done (Inl NoCommonAncestor))
          else old_chain_loop J L bc newChain (hdr_PrevHash (blk_Header block)) (oldChain @ [current]))"

definition findCommonAncestor ::
  "json_lib \<Rightarrow> 's db \<Rightarrow> 's fork_detector \<Rightarrow> hash \<Rightarrow> (fork_error + hash \<times> hash list \<times> hash list) outcome option" where
  "findCommonAncestor J L fd newHead =
     (case new_chain_loop J L (fd_mainChain fd) newHead [newHead] of
        None \<Rightarrow> None
      | Some Blocked \<Rightarrow> Some Blocked
      | Some Panic \<Rightarrow> Some Panic
      | Some (Done newChain) \<Rightarrow>
          (case GetLatestHash (fd_mainChain fd) of
             Blocked \<Rightarrow> Some Blocked
           | Panic \<Rightarrow> Some Panic
           | Done latestHash \<Rightarrow> old_chain_loop J L (fd_mainChain fd) newChain latestHash []))"

definition HandleReorganization ::
  "json_lib \<Rightarrow> 's db \<Rightarrow> 's fork_detector \<Rightarrow> hash \<Rightarrow> fork_error option outcome option" where
  "HandleReorganization J L fd newHead =
     map_option (\<lambda>o'. obind o' (\<lambda>r.
       case r of
         Inl e \<Rightarrow> Done (Some e)
       | Inr (commonAncestor, oldChain, newChain) \<Rightarrow>
           if fc_ReorgLimit (fd_config fd) < int (length oldChain)
           then Done (Some (ReorgTooDeep (length oldChain) (fc_ReorgLimit (fd_config fd))))
           else Done None)) (findCommonAncestor J L fd newHead)"

section \<open>Queries and pruning\<close>

definition GetForksAtHeight :: "'s fork_detector \<Rightarrow> u64 \<Rightarrow> fork list" where
  "GetForksAtHeight fd height = forks_at fd height"

definition GetAllForks :: "u64 list \<Rightarrow> 's fork_detector \<Rightarrow> fork list" where
  "GetAllForks order fd = concat (map (forks_at fd) order)"

definition IsConfirmed :: "'s fork_detector \<Rightarrow> u64 \<Rightarrow> bool outcome" where
  "IsConfirmed fd height =
     obind (GetLatestHeight (fd_mainChain fd)) (\<lambda>latestHeight.
       Done (of_int (fc_ConfirmationDepth (fd_config fd)) \<le> latestHeight - height))"

definition PruneOldForks :: "'s fork_detector \<Rightarrow> ('s fork_detector \<times> nat) outcome" where
  "PruneOldForks fd =
     obind (GetLatestHeight (fd_mainChain fd)) (\<lambda>latestHeight.
       let kept = fmfilter (\<lambda>height. \<not> fc_MaxForkDepth (fd_config fd) < sint (latestHeight - height)) (fd_forks fd)
       in Done (fd\<lparr>fd_forks := kept\<rparr>, mlen (fd_forks fd) - mlen kept))"

record fork_stats =
  fst_TotalForks :: nat
  fst_MaxForkHeight :: u64
  fst_ActiveForks :: nat
  fst_ResolvedForks :: nat
  fst_ForksByHeight :: "(u64, nat) fmap"

definition count_forks :: "'s fork_detector \<Rightarrow> u64 \<Rightarrow> fork_stats \<Rightarrow> fork_stats" where
  "count_forks fd height st =
     (let forks = forks_at fd height in
      st\<lparr>fst_TotalForks := fst_TotalForks st + length forks,
         fst_ForksByHeight := mput (fst_ForksByHeight st) height (length forks),
         fst_MaxForkHeight := (if fst_MaxForkHeight st < height then height else fst_MaxForkHeight st),
         fst_ActiveForks := fst_ActiveForks st + length (filter (\<lambda>f. \<not> fk_IsMainChain f) forks)\<rparr>)"

definition fork_GetStats :: "'s fork_detector \<Rightarrow> fork_stats" where
  "fork_GetStats fd = fold (count_forks fd) (sorted_list_of_fset (fmdom (fd_forks fd)))
     \<lparr>fst_TotalForks = 0, fst_MaxForkHeight = 0, fst_ActiveForks = 0, fst_ResolvedForks = 0, fst_ForksByHeight = fmempty\<rparr>"

definition ClearForks :: "'s fork_detector \<Rightarrow> 's fork_detector" where
  "ClearForks fd = fd\<lparr>fd_forks := fmempty\<rparr>"

section \<open>Walking down the chain\<close>

text \<open>The hash of the block of height \<open>i\<close>; at 0, the hash the first block names as its parent.\<close>

definition hash_at :: "block list \<Rightarrow> nat \<Rightarrow> hash" where
  "hash_at bs i = (if i = 0 then hdr_PrevHash (blk_Header (hd bs)) else hdr_Hash (blk_Header (bs ! (i - 1))))"

definition rooted_chain ::
  "crypto \<Rightarrow> json_lib \<Rightarrow> 's db \<Rightarrow> ('s \<Rightarrow> bytes \<Rightarrow> bytes option) \<Rightarrow> 's blockchain \<Rightarrow> block list \<Rightarrow> bool" where
  "rooted_chain C J L contents bc bs \<longleftrightarrow> chain_ok C J L contents bc bs \<and> readable bc \<and> bs \<noteq> []
     \<and> \<not> is_Inr (GetBlock J L (bc_store bc) (hash_at bs 0))"

lemma rooted_step:
  assumes "rooted_chain C J L contents bc bs" and "0 < i" and "i \<le> length bs"
  shows "GetBlockByHash J L bc (hash_at bs i) = Done (Inr (bs ! (i - 1)))"
    and "hdr_Height (blk_Header (bs ! (i - 1))) = of_nat i" and "hdr_Height (blk_Header (bs ! (i - 1))) \<noteq> 0"
    and "hdr_PrevHash (blk_Header (bs ! (i - 1))) = hash_at bs (i - 1)"
proof -
  have i: "i - 1 < length bs" using assms(2,3) by simp
  have sc: "stored_chain C (bc_config bc) J L contents (bc_store bc) bs" and r: "readable bc"
    using assms(1) by (auto simp: rooted_chain_def chain_ok_def)
  then have e: "entry_ok C (bc_config bc) J L contents (bc_store bc) (of_nat (Suc (i - 1))) (bs ! (i - 1))"
    using i unfolding stored_chain_def by blast
  with r assms(2) show "GetBlockByHash J L bc (hash_at bs i) = Done (Inr (bs ! (i - 1)))"
    and h: "hdr_Height (blk_Header (bs ! (i - 1))) = of_nat i"
    by (simp_all add: reads_readable entry_ok_def hash_at_def)
  have "length bs < 2 ^ 64" using sc by (simp add: stored_chain_def)
  then have "(of_nat i :: u64) \<noteq> of_nat 0" using assms(2,3) of_nat_u64_eq [of i 0] by simp
  with h show "hdr_Height (blk_Header (bs ! (i - 1))) \<noteq> 0" by simp
  have "linked hdr_Hash hdr_PrevHash (map blk_Header bs)" using sc by (simp add: stored_chain_def)
  from linked_nth [OF this, of "i - 2"] i assms(2)
  show "hdr_PrevHash (blk_Header (bs ! (i - 1))) = hash_at bs (i - 1)"
    by (cases "i = 1") (auto simp: hash_at_def hd_conv_nth rooted_chain_def assms Suc_diff_Suc numeral_2_eq_2
        intro: arg_cong [where f = "\<lambda>b. hdr_PrevHash (blk_Header b)"])
qed

lemma rooted_latest:
  assumes "rooted_chain C J L contents bc bs"
  shows "GetLatestHash bc = Done (hash_at bs (length bs))"
  using assms by (simp add: rooted_chain_def chain_ok_def reads_readable hash_at_def last_conv_nth)

lemma rooted_bottom:
  assumes "rooted_chain C J L contents bc bs"
  shows "\<exists>e. GetBlockByHash J L bc (hash_at bs 0) = Done (Inl e)"
  using assms by (cases "GetBlock J L (bc_store bc) (hash_at bs 0)") (auto simp: rooted_chain_def reads_readable)

lemma hash_at_inj:
  assumes r: "rooted_chain C J L contents bc bs" and "i \<le> length bs" and "j \<le> length bs" and "hash_at bs i = hash_at bs j"
  shows "i = j"
proof (cases "i = 0 \<or> j = 0")
  case True
  with rooted_bottom [OF r] rooted_step(1) [OF r, of i] rooted_step(1) [OF r, of j] assms(2-4) show ?thesis
    by (metis old.sum.distinct(1) outcome.inject(1) gr0I)
next
  case False
  with rooted_step(1) [OF r, of i] rooted_step(1) [OF r, of j] assms(2-4) have "bs ! (i - 1) = bs ! (j - 1)" by simp
  with False rooted_step(2) [OF r, of i] rooted_step(2) [OF r, of j] assms(2,3) have "(of_nat i :: u64) = of_nat j" by simp
  moreover have "length bs < 2 ^ 64" using r by (simp add: rooted_chain_def chain_ok_def stored_chain_def)
  ultimately show ?thesis using of_nat_u64_eq [of i j] assms(2,3) by simp
qed

lemma new_chain_down:
  assumes "rooted_chain C J L contents bc bs" and "i \<le> length bs"
  shows "new_chain_loop J L bc (hash_at bs i) acc = Some (Done (acc @ map (hash_at bs) (rev [0..<i])))"
  using assms(2)
proof (induction i arbitrary: acc)
  case 0
  then show ?case using rooted_bottom [OF assms(1)] by (subst new_chain_loop.simps) auto
next
  case (Suc i)
  note st = rooted_step [OF assms(1), of "Suc i"]
  from Suc st show ?case by (subst new_chain_loop.simps) simp
qed

lemma old_chain_down:
  assumes "rooted_chain C J L contents bc bs" and "m \<le> i" and "i \<le> length bs"
    and "\<And>j. m < j \<Longrightarrow> j \<le> i \<Longrightarrow> hash_at bs j \<notin> set newChain"
  shows "old_chain_loop J L bc newChain (hash_at bs i) acc
    = old_chain_loop J L bc newChain (hash_at bs m) (acc @ map (hash_at bs) (rev [Suc m..<Suc i]))"
  using assms(2-4)
proof (induction i arbitrary: acc)
  case (Suc i)
  show ?case
  proof (cases "m = Suc i")
    case False
    with Suc.prems have "hash_at bs (Suc i) \<notin> set newChain" "m \<le> i" by auto
    moreover note st = rooted_step [OF assms(1), of "Suc i"]
    ultimately have "old_chain_loop J L bc newChain (hash_at bs (Suc i)) acc
        = old_chain_loop J L bc newChain (hash_at bs i) (acc @ [hash_at bs (Suc i)])"
      using Suc.prems(2) by (subst old_chain_loop.simps) simp
    with Suc \<open>m \<le> i\<close> show ?thesis by simp
  qed simp
qed simp

lemma findCommonAncestor_result:
  assumes r: "rooted_chain C J L contents (fd_mainChain fd) bs"
  shows "i \<le> length bs \<Longrightarrow> findCommonAncestor J L fd (hash_at bs i) = Some (Done (Inr (hash_at bs i,
      map (hash_at bs) (rev [Suc i..<Suc (length bs)]), map (hash_at bs) (rev [0..<Suc i]))))"
    and "\<not> is_Inr (GetBlock J L (bc_store (fd_mainChain fd)) x) \<Longrightarrow> x \<noteq> hash_at bs 0 \<Longrightarrow>
      findCommonAncestor J L fd x = Some (Done (Inl NoCommonAncestor))"
proof -
  assume i: "i \<le> length bs"
  let ?nc = "map (hash_at bs) (rev [0..<Suc i])"
  have n: "new_chain_loop J L (fd_mainChain fd) (hash_at bs i) [hash_at bs i] = Some (Done ?nc)"
    using new_chain_down [OF r i] by simp
  have out: "hash_at bs j \<notin> set ?nc" if "i < j" "j \<le> length bs" for j
  proof
    assume "hash_at bs j \<in> set ?nc"
    then obtain k where k: "k \<le> i" "hash_at bs j = hash_at bs k" by (auto simp: less_Suc_eq_le simp del: upt_Suc)
    from hash_at_inj [OF r that(2) _ k(2)] k(1) i that(1) show False by simp
  qed
  have "old_chain_loop J L (fd_mainChain fd) ?nc (hash_at bs (length bs)) []
      = old_chain_loop J L (fd_mainChain fd) ?nc (hash_at bs i) (map (hash_at bs) (rev [Suc i..<Suc (length bs)]))"
    by (subst old_chain_down [OF r i order_refl]) (use out in simp_all)
  also have "\<dots> = Some (Done (Inr (hash_at bs i, map (hash_at bs) (rev [Suc i..<Suc (length bs)]), ?nc)))"
    by (subst old_chain_loop.simps) simp
  finally show "findCommonAncestor J L fd (hash_at bs i) = Some (Done (Inr (hash_at bs i,
      map (hash_at bs) (rev [Suc i..<Suc (length bs)]), ?nc)))"
    by (simp add: findCommonAncestor_def n rooted_latest [OF r])
next
  assume x: "\<not> is_Inr (GetBlock J L (bc_store (fd_mainChain fd)) x)" "x \<noteq> hash_at bs 0"
  have rd: "readable (fd_mainChain fd)" using r by (simp add: rooted_chain_def)
  obtain e where e: "GetBlockByHash J L (fd_mainChain fd) x = Done (Inl e)"
    using x(1) by (cases "GetBlock J L (bc_store (fd_mainChain fd)) x") (auto simp: reads_readable [OF rd])
  have n: "new_chain_loop J L (fd_mainChain fd) x [x] = Some (Done [x])"
    by (subst new_chain_loop.simps) (simp add: e)
  have no: "hash_at bs j \<notin> set [x]" if "j \<le> length bs" for j
    using rooted_step(1) [OF r _ that] e x(2) by (cases "j = 0") auto
  have "old_chain_loop J L (fd_mainChain fd) [x] (hash_at bs (length bs)) []
      = old_chain_loop J L (fd_mainChain fd) [x] (hash_at bs 0) (map (hash_at bs) (rev [Suc 0..<Suc (length bs)]))"
    by (subst old_chain_down [OF r le0 order_refl]) (use no in simp_all)
  also have "\<dots> = Some (Done (Inl NoCommonAncestor))"
    using rooted_bottom [OF r] no [of 0] by (subst old_chain_loop.simps) auto
  finally show "findCommonAncestor J L fd x = Some (Done (Inl NoCommonAncestor))"
    by (simp add: findCommonAncestor_def n rooted_latest [OF r])
qed

section \<open>Sorting equal scores\<close>

lemma ResolveFork_few:
  assumes "readable (fd_mainChain fd)" and "BS_GetBlockByHeight J L (bc_store (fd_mainChain fd)) n = Inr b"
    and "forks_at fd n \<noteq> []" and "length (forks_at fd n) \<le> 11"
  shows "\<exists>f. ResolveFork J L pdq fd n = Done (Inr f) \<and> fk_Height f = n \<and> fk_Hash f = hdr_Hash (blk_Header b)"
proof -
  have len: "length (map (\<lambda>f. (f, calculateChainScore (fk_Hash f))) (forks_at fd n)) \<le> 11" using assms(4) by simp
  have "fst (hd (sort_Slice pdq (\<lambda>a b. snd b < snd a) ((x, 1) # map (\<lambda>f. (f, 1)) fs))) = x"
    if "length fs \<le> 11" for fs and x :: fork
  proof -
    let ?xs = "(x, 1 :: u64) # map (\<lambda>f. (f, 1)) fs"
    have f: "fold (insert_left (\<lambda>a b. snd b < snd a)) xs ys = rev xs @ ys"
      if "\<forall>p \<in> set (xs @ ys). snd p = (1 :: u64)" for xs ys :: "(fork \<times> u64) list"
      using that
    proof (induction xs arbitrary: ys)
      case (Cons p xs)
      then have "insert_left (\<lambda>a b. snd b < snd a) p ys = p # ys" by (cases ys) auto
      with Cons show ?case by simp
    qed simp
    have "fold (insert_left (\<lambda>a b. snd b < snd a)) ?xs [] = rev ?xs @ []" by (rule f) auto
    with that show ?thesis by (simp only: sort_Slice_def) simp
  qed
  from this [OF assms(4)] assms(1-3) show ?thesis
    by (simp add: ResolveFork_def reads_readable calculateChainScore_def Let_def)
qed

section \<open>Properties\<close>

text \<open>
  HandleReorganization ends on every stored chain and never moves to another branch. For a hash of
  the main chain the common ancestor is that block itself, and the only error is a block deeper than
  the limit; a head that is not stored, such as that of a competing branch, has no common ancestor.
\<close>

theorem handle_reorganization_result:
  assumes "rooted_chain C J L contents (fd_mainChain fd) bs"
  shows "(i \<le> length bs \<longrightarrow> HandleReorganization J L fd (hash_at bs i) = Some (Done
      (if fc_ReorgLimit (fd_config fd) < int (length bs - i)
       then Some (ReorgTooDeep (length bs - i) (fc_ReorgLimit (fd_config fd))) else None)))
    \<and> (\<not> is_Inr (GetBlock J L (bc_store (fd_mainChain fd)) newHead) \<and> newHead \<noteq> hash_at bs 0 \<longrightarrow>
        HandleReorganization J L fd newHead = Some (Done (Some NoCommonAncestor)))"
proof (intro conjI impI)
  assume "i \<le> length bs"
  from findCommonAncestor_result(1) [OF assms this]
  show "HandleReorganization J L fd (hash_at bs i) = Some (Done
      (if fc_ReorgLimit (fd_config fd) < int (length bs - i)
       then Some (ReorgTooDeep (length bs - i) (fc_ReorgLimit (fd_config fd))) else None))"
    by (simp add: HandleReorganization_def del: upt_Suc)
next
  assume "\<not> is_Inr (GetBlock J L (bc_store (fd_mainChain fd)) newHead) \<and> newHead \<noteq> hash_at bs 0"
  with findCommonAncestor_result(2) [OF assms]
  show "HandleReorganization J L fd newHead = Some (Done (Some NoCommonAncestor))"
    by (simp add: HandleReorganization_def)
qed

lemma demo_rooted: "\<exists>bc. rooted_chain demo_crypto demo_json map_db (\<lambda>s. s) bc [demo_block]"
proof -
  have rd: "readable demo_bc" by (simp add: demo_bc_def free_lock_def)
  obtain bc where a: "AddBlock_body demo_crypto demo_json map_db demo_block demo_bc = Done (bc, None)"
    using demo_bc_appends by blast
  have "Suc (length ([] :: block list)) < 2 ^ 64" by simp
  from AddBlock_body_chain [OF map_db_spec demo_json_ok demo_bc_ok this rd a]
  have c: "chain_ok demo_crypto demo_json map_db (\<lambda>s. s) bc [demo_block]" and mu: "bc_mu bc = bc_mu demo_bc"
    by simp_all
  obtain s1 n where p: "PutBlock demo_json map_db (bc_store demo_bc) demo_block = (s1, None)"
    and h: "SetLatestHeight map_db s1 n = (bc_store bc, None)"
    using a by (auto simp: AddBlock_body_def demo_bc_accepts storeBlock_def split: prod.splits option.splits)
  have "GetBlock demo_json map_db (bc_store bc) 5 = GetBlock demo_json map_db s1 5"
    by (intro GetBlock_cong [OF map_db_spec] SetLatestHeight_frame [OF map_db_spec h]) simp_all
  also have "\<dots> = GetBlock demo_json map_db (bc_store demo_bc) 5"
    using GetBlock_PutBlock [OF map_db_spec demo_json_ok p, of 5]
    by (simp add: demo_block_def NewBlock_def Let_def BlockHeader_CalculateHash_def demo_crypto_def demo_hash_def)
  finally have "\<not> is_Inr (GetBlock demo_json map_db (bc_store bc) (hash_at [demo_block] 0))"
    by (simp add: hash_at_def demo_block_def NewBlock_def Let_def demo_bc_def GetBlock_def Storage_Get_spec [OF map_db_spec])
  with c rd mu show ?thesis by (auto simp: rooted_chain_def)
qed

theorem handle_reorganization_result_witness:
  "\<exists>fd :: (bytes \<Rightarrow> bytes option) fork_detector.
     HandleReorganization demo_json map_db fd (hash_at [demo_block] 0) = Some (Done None)"
proof -
  obtain bc where "rooted_chain demo_crypto demo_json map_db (\<lambda>s. s) bc [demo_block]" using demo_rooted by blast
  then have "rooted_chain demo_crypto demo_json map_db (\<lambda>s. s) (fd_mainChain (NewForkDetector bc None)) [demo_block]"
    by (simp add: NewForkDetector_def)
  from handle_reorganization_result [OF this, of 0] show ?thesis
    by (intro exI) (auto simp: NewForkDetector_def DefaultForkConfig_def)
qed

text \<open>
  ResolveFork never chooses a fork: all scores are equal, and with up to eleven forks at a height
  the sort leaves the block of the main chain in front, whatever the forks are. Nothing changes.
\<close>

theorem resolve_fork_keeps_main:
  assumes "chain_ok C J L contents (fd_mainChain fd) bs" and "db_spec L contents" and "readable (fd_mainChain fd)"
    and "0 < n" and "n \<le> length bs" and "forks_at fd (of_nat n) \<noteq> []" and "length (forks_at fd (of_nat n)) \<le> 11"
  shows "\<exists>f. ResolveFork J L pdq fd (of_nat n) = Done (Inr f) \<and> fk_Hash f = hdr_Hash (blk_Header (bs ! (n - 1)))"
proof -
  have "BS_GetBlockByHeight J L (bc_store (fd_mainChain fd)) (of_nat n) = Inr (bs ! (n - 1))"
    using assms(1) by (intro stored_chain_height [OF assms(2) _ assms(4,5)]) (auto simp: chain_ok_def)
  from ResolveFork_few [OF assms(3) this assms(6,7)] show ?thesis by blast
qed

definition demo_fork :: fork where
  "demo_fork = \<lparr>fk_Height = 1, fk_Hash = 99, fk_ParentHash = 0, fk_Timestamp = 0, fk_Difficulty = 1,
     fk_IsMainChain = False, fk_Children = []\<rparr>"

theorem resolve_fork_keeps_main_witness:
  "\<exists>(fd :: (bytes \<Rightarrow> bytes option) fork_detector) f. forks_at fd 1 = [demo_fork]
     \<and> ResolveFork demo_json map_db (\<lambda>xs. xs) fd 1 = Done (Inr f) \<and> fk_Hash f = hdr_Hash (blk_Header demo_block)"
proof -
  obtain bc where r: "rooted_chain demo_crypto demo_json map_db (\<lambda>s. s) bc [demo_block]" using demo_rooted by blast
  let ?fd = "AddFork (NewForkDetector bc None) demo_fork"
  have f: "forks_at ?fd 1 = [demo_fork]" "fd_mainChain ?fd = bc"
    by (simp_all add: AddFork_def NewForkDetector_def forks_at_def demo_fork_def)
  have "\<exists>f. ResolveFork demo_json map_db (\<lambda>xs. xs) ?fd (of_nat 1) = Done (Inr f)
      \<and> fk_Hash f = hdr_Hash (blk_Header ([demo_block] ! (1 - 1)))"
    by (rule resolve_fork_keeps_main [of demo_crypto _ _ "\<lambda>s. s"])
      (use r f map_db_spec in \<open>simp_all add: rooted_chain_def f\<close>)
  with f show ?thesis by auto
qed

text \<open>
  IsConfirmed confirms blocks that do not exist: for a height above the head the unsigned difference
  wraps around, so the answer is yes; up to the head it is whether the block is deep enough.
\<close>

theorem is_confirmed_result:
  assumes "readable (fd_mainChain fd)" and "0 \<le> fc_ConfirmationDepth (fd_config fd)"
    and "fc_ConfirmationDepth (fd_config fd) < 2 ^ 62" and "uint height < 2 ^ 62"
  shows "IsConfirmed fd height = Done (bc_latestHeight (fd_mainChain fd) < height
    \<or> fc_ConfirmationDepth (fd_config fd) \<le> uint (bc_latestHeight (fd_mainChain fd)) - uint height)"
proof -
  let ?d = "fc_ConfirmationDepth (fd_config fd)" and ?l = "bc_latestHeight (fd_mainChain fd)"
  have d: "uint (of_int ?d :: u64) = ?d"
    using assms(2,3) by (simp only: uint_word_of_int) (auto intro!: mod_pos_pos_trivial)
  have "uint (?l - height) = (if ?l < height then uint ?l - uint height + 2 ^ 64 else uint ?l - uint height)"
    using uint_sub_if' [of ?l height] by (auto simp: word_less_def not_less)
  moreover have "?d < 4611686018427387904" "uint height < 4611686018427387904" using assms(3,4) by simp_all
  then have "?d \<le> uint ?l - uint height + 18446744073709551616" using uint_nonnegative [of ?l] by linarith
  ultimately have "of_int ?d \<le> ?l - height \<longleftrightarrow> ?l < height \<or> ?d \<le> uint ?l - uint height"
    by (simp add: word_le_def d)
  with assms(1) show ?thesis by (simp add: IsConfirmed_def reads_readable)
qed

theorem is_confirmed_result_witness:
  "IsConfirmed (NewForkDetector demo_bc None) 5 = Done True"
proof -
  have "readable (fd_mainChain (NewForkDetector demo_bc None))" by (simp add: NewForkDetector_def demo_bc_def free_lock_def)
  from is_confirmed_result [OF this, of 5] show ?thesis
    by (simp add: NewForkDetector_def DefaultForkConfig_def demo_bc_def)
qed

text \<open>A block of height 1 is never a fork, whatever the main chain holds.\<close>

lemma fork_below_height_two_missed:
  "hdr_Height (blk_Header b) = 1 \<Longrightarrow> DetectFork J L fd b = Done (fd, None)"
  by (simp add: DetectFork_def Let_def)

end
