(* ===== verification/Consensus_Types.thy ===== *)
theory Consensus_Types
  imports Block_Storage
begin

text \<open>
  Data of the PBFT engine (consensus/types.go): messages with their signatures, payloads with their
  JSON form, validator sets with quorum arithmetic, and the per-sequence vote records. A locale
  states what a quorum rule must give (any two quorums share more validators than can be faulty,
  and the correct ones can form a quorum); the code's rule is its interpretation.
\<close>

section \<open>Enumerations\<close>

datatype NodeState = StateIdle | StatePrePrepared | StatePrepared | StateCommitted | StateViewChanging

fun NodeState_num :: "NodeState \<Rightarrow> nat" where
  "NodeState_num StateIdle = 0"
| "NodeState_num StatePrePrepared = 1"
| "NodeState_num StatePrepared = 2"
| "NodeState_num StateCommitted = 3"
| "NodeState_num StateViewChanging = 4"

text \<open>The order of the Go constants.\<close>

instantiation NodeState :: linorder
begin

definition less_eq_NodeState :: "NodeState \<Rightarrow> NodeState \<Rightarrow> bool" where
  "less_eq_NodeState s t \<longleftrightarrow> NodeState_num s \<le> NodeState_num t"

definition less_NodeState :: "NodeState \<Rightarrow> NodeState \<Rightarrow> bool" where
  "less_NodeState s t \<longleftrightarrow> NodeState_num s < NodeState_num t"

instance
proof
  fix s t :: NodeState
  assume "s \<le> t" and "t \<le> s"
  then show "s = t" by (cases s; cases t) (simp_all add: less_eq_NodeState_def)
qed (auto simp: less_eq_NodeState_def less_NodeState_def)

end

datatype NodeRole = RoleUnknown | RolePrimary | RoleReplica | RoleFollower

fun NodeState_String :: "NodeState \<Rightarrow> string" where
  "NodeState_String StateIdle = ''idle''"
| "NodeState_String StatePrePrepared = ''pre-prepared''"
| "NodeState_String StatePrepared = ''prepared''"
| "NodeState_String StateCommitted = ''committed''"
| "NodeState_String StateViewChanging = ''view-changing''"

fun NodeRole_String :: "NodeRole \<Rightarrow> string" where
  "NodeRole_String RolePrimary = ''primary''"
| "NodeRole_String RoleReplica = ''replica''"
| "NodeRole_String RoleFollower = ''follower''"
| "NodeRole_String RoleUnknown = ''unknown''"

type_synonym MessageType = u8

definition MsgRequest :: MessageType where "MsgRequest = 0"
definition MsgPrePrepare :: MessageType where "MsgPrePrepare = 1"
definition MsgPrepare :: MessageType where "MsgPrepare = 2"
definition MsgCommit :: MessageType where "MsgCommit = 3"
definition MsgViewChange :: MessageType where "MsgViewChange = 4"
definition MsgNewView :: MessageType where "MsgNewView = 5"
definition MsgCheckpoint :: MessageType where "MsgCheckpoint = 6"

lemmas Msg_defs = MsgRequest_def MsgPrePrepare_def MsgPrepare_def MsgCommit_def MsgViewChange_def
  MsgNewView_def MsgCheckpoint_def

definition MessageType_String :: "MessageType \<Rightarrow> string" where
  "MessageType_String t =
     (if t = MsgRequest then ''request''
      else if t = MsgPrePrepare then ''pre-prepare''
      else if t = MsgPrepare then ''prepare''
      else if t = MsgCommit then ''commit''
      else if t = MsgViewChange then ''view-change''
      else if t = MsgNewView then ''new-view''
      else if t = MsgCheckpoint then ''checkpoint''
      else ''unknown'')"

section \<open>Messages and their signatures\<close>

record View =
  view_Number :: u64
  view_Primary :: address
  view_Timestamp :: i64

record PBFTMessage =
  pm_Type :: MessageType
  pm_View :: u64
  pm_SeqNumber :: u64
  pm_Sender :: address
  pm_Payload :: bytes
  pm_Digest :: hash
  pm_Signature :: bytes
  pm_Timestamp :: i64

definition enc_for_sign :: "PBFTMessage \<Rightarrow> json" where
  "enc_for_sign m = JObj
     [(''type'', enc_uint (pm_Type m)), (''view'', enc_uint (pm_View m)),
      (''seq_number'', enc_uint (pm_SeqNumber m)), (''sender'', enc_address (pm_Sender m)),
      (''payload'', JB64 (pm_Payload m)), (''digest'', enc_hash (pm_Digest m)),
      (''timestamp'', enc_sint (pm_Timestamp m))]"

definition serializeForSign :: "json_lib \<Rightarrow> PBFTMessage \<Rightarrow> bytes" where
  "serializeForSign J m = js_text J (enc_for_sign m)"

definition CalculateDigest :: "crypto \<Rightarrow> json_lib \<Rightarrow> PBFTMessage \<Rightarrow> hash" where
  "CalculateDigest C J m = keccak256 C (serializeForSign J m)"

definition PBFTMessage_Sign ::
  "crypto \<Rightarrow> json_lib \<Rightarrow> PBFTMessage \<Rightarrow> bytes \<Rightarrow> PBFTMessage \<times> sign_error option" where
  "PBFTMessage_Sign C J m privKey =
     (let m = (if pm_Digest m = 0 then m\<lparr>pm_Digest := CalculateDigest C J m\<rparr> else m);
          h = keccak256 C (serializeForSign J m) in
      case to_ecdsa C privKey of
        None \<Rightarrow> (m, Some BadPrivateKey)
      | Some key \<Rightarrow>
          (case ecdsa_sign C h key of
             None \<Rightarrow> (m, Some SignFailed)
           | Some sig \<Rightarrow> (m\<lparr>pm_Signature := sig\<rparr>, None)))"

datatype verify_error = DigestMismatch | RecoverFailed | SenderMismatch

definition PBFTMessage_Verify :: "crypto \<Rightarrow> json_lib \<Rightarrow> PBFTMessage \<Rightarrow> verify_error option" where
  "PBFTMessage_Verify C J m =
     (if \<not> Hash_Equals (CalculateDigest C J m) (pm_Digest m) then Some DigestMismatch
      else case sig_to_pub C (keccak256 C (serializeForSign J m)) (pm_Signature m) of
             None \<Rightarrow> Some RecoverFailed
           | Some pub \<Rightarrow>
               if pubkey_to_address C pub \<noteq> pm_Sender m then Some SenderMismatch else None)"

definition enc_msg :: "PBFTMessage \<Rightarrow> json" where
  "enc_msg m = JObj
     [(''type'', enc_uint (pm_Type m)), (''view'', enc_uint (pm_View m)),
      (''seq_number'', enc_uint (pm_SeqNumber m)), (''sender'', enc_address (pm_Sender m)),
      (''payload'', JB64 (pm_Payload m)), (''digest'', enc_hash (pm_Digest m)),
      (''signature'', JB64 (pm_Signature m)), (''timestamp'', enc_sint (pm_Timestamp m))]"

definition dec_msg :: "PBFTMessage decoder" where
  "dec_msg j = (if \<not> is_obj j then None else
     Option.bind (jget j ''type'' dec_uint 0) (\<lambda>ty.
     Option.bind (jget j ''view'' dec_uint 0) (\<lambda>v.
     Option.bind (jget j ''seq_number'' dec_uint 0) (\<lambda>n.
     Option.bind (jget j ''sender'' dec_address 0) (\<lambda>a.
     Option.bind (jget j ''payload'' dec_bytes []) (\<lambda>p.
     Option.bind (jget j ''digest'' dec_hash 0) (\<lambda>d.
     Option.bind (jget j ''signature'' dec_bytes []) (\<lambda>s.
     Option.bind (jget j ''timestamp'' dec_sint 0) (\<lambda>t.
       Some \<lparr>pm_Type = ty, pm_View = v, pm_SeqNumber = n, pm_Sender = a, pm_Payload = p,
             pm_Digest = d, pm_Signature = s, pm_Timestamp = t\<rparr>)))))))))"

lemma dec_enc_msg [simp]: "dec_msg (enc_msg m) = Some m"
  by (simp add: dec_msg_def enc_msg_def jget_def)

section \<open>Payloads\<close>

text \<open>A block pointer received from the network may have no header.\<close>

record block_ptr =
  bp_Header :: "header option"
  bp_Transactions :: "tx list"

record PrePreparePayload =
  pp_BlockHash :: hash
  pp_BlockData :: "block_ptr option"
  pp_Validator :: address

record Proof =
  pr_View :: u64
  pr_SeqNumber :: u64
  pr_BlockHash :: hash
  pr_Signatures :: "bytes list"

record ViewChangePayload =
  vp_NewViewNumber :: u64
  vp_LastStableCheckpoint :: u64
  vp_PreparedProofs :: "Proof list"

record NewViewPayload =
  np_NewViewNumber :: u64
  np_ViewChangeProofs :: "Proof list"
  np_PrePrepareMsgs :: "PBFTMessage list"

definition dec_block :: "block_ptr decoder" where
  "dec_block j = (if \<not> is_obj j then None else
     Option.bind (jget j ''header'' (dec_ptr dec_header) None) (\<lambda>h.
     Option.bind (jget j ''transactions'' (dec_list dec_tx) []) (\<lambda>txs.
       Some \<lparr>bp_Header = h, bp_Transactions = txs\<rparr>)))"

definition enc_preprepare :: "hash \<Rightarrow> block \<Rightarrow> address \<Rightarrow> json" where
  "enc_preprepare h b a = JObj [(''block_hash'', enc_hash h), (''block_data'', enc_block b),
     (''validator'', enc_address a)]"

definition dec_preprepare :: "PrePreparePayload decoder" where
  "dec_preprepare j =
     (if j = JNull then Some \<lparr>pp_BlockHash = 0, pp_BlockData = None, pp_Validator = 0\<rparr>
      else if \<not> is_obj j then None
      else Option.bind (jget j ''block_hash'' dec_hash 0) (\<lambda>h.
        Option.bind (jget j ''block_data'' (dec_ptr dec_block) None) (\<lambda>b.
        Option.bind (jget j ''validator'' dec_address 0) (\<lambda>a.
          Some \<lparr>pp_BlockHash = h, pp_BlockData = b, pp_Validator = a\<rparr>))))"

text \<open>\<open>PreparePayload\<close> and \<open>CommitPayload\<close> both hold one block hash.\<close>

definition enc_vote :: "hash \<Rightarrow> json" where
  "enc_vote h = JObj [(''block_hash'', enc_hash h)]"

definition dec_vote :: "hash decoder" where
  "dec_vote j = (if j = JNull then Some 0 else if \<not> is_obj j then None
     else jget j ''block_hash'' dec_hash 0)"

definition enc_proof :: "Proof \<Rightarrow> json" where
  "enc_proof p = JObj [(''view'', enc_uint (pr_View p)), (''seq_number'', enc_uint (pr_SeqNumber p)),
     (''block_hash'', enc_hash (pr_BlockHash p)), (''signatures'', enc_list JB64 (pr_Signatures p))]"

definition dec_proof :: "Proof decoder" where
  "dec_proof j =
     (if j = JNull then Some \<lparr>pr_View = 0, pr_SeqNumber = 0, pr_BlockHash = 0, pr_Signatures = []\<rparr>
      else if \<not> is_obj j then None
      else Option.bind (jget j ''view'' dec_uint 0) (\<lambda>v.
        Option.bind (jget j ''seq_number'' dec_uint 0) (\<lambda>n.
        Option.bind (jget j ''block_hash'' dec_hash 0) (\<lambda>h.
        Option.bind (jget j ''signatures'' (dec_list dec_bytes) []) (\<lambda>s.
          Some \<lparr>pr_View = v, pr_SeqNumber = n, pr_BlockHash = h, pr_Signatures = s\<rparr>)))))"

definition enc_viewchange :: "ViewChangePayload \<Rightarrow> json" where
  "enc_viewchange p = JObj [(''new_view_number'', enc_uint (vp_NewViewNumber p)),
     (''last_stable_checkpoint'', enc_uint (vp_LastStableCheckpoint p)),
     (''prepared_proofs'', enc_list enc_proof (vp_PreparedProofs p))]"

definition dec_viewchange :: "ViewChangePayload decoder" where
  "dec_viewchange j =
     (if j = JNull
      then Some \<lparr>vp_NewViewNumber = 0, vp_LastStableCheckpoint = 0, vp_PreparedProofs = []\<rparr>
      else if \<not> is_obj j then None
      else Option.bind (jget j ''new_view_number'' dec_uint 0) (\<lambda>v.
        Option.bind (jget j ''last_stable_checkpoint'' dec_uint 0) (\<lambda>c.
        Option.bind (jget j ''prepared_proofs'' (dec_list dec_proof) []) (\<lambda>ps.
          Some \<lparr>vp_NewViewNumber = v, vp_LastStableCheckpoint = c, vp_PreparedProofs = ps\<rparr>))))"

definition enc_newview :: "NewViewPayload \<Rightarrow> json" where
  "enc_newview p = JObj [(''new_view_number'', enc_uint (np_NewViewNumber p)),
     (''view_change_proofs'', enc_list enc_proof (np_ViewChangeProofs p)),
     (''pre_prepare_msgs'', enc_list enc_msg (np_PrePrepareMsgs p))]"

definition dec_newview :: "NewViewPayload decoder" where
  "dec_newview j =
     (if j = JNull
      then Some \<lparr>np_NewViewNumber = 0, np_ViewChangeProofs = [], np_PrePrepareMsgs = []\<rparr>
      else if \<not> is_obj j then None
      else Option.bind (jget j ''new_view_number'' dec_uint 0) (\<lambda>v.
        Option.bind (jget j ''view_change_proofs'' (dec_list dec_proof) []) (\<lambda>ps.
        Option.bind (jget j ''pre_prepare_msgs'' (dec_list dec_msg) []) (\<lambda>ms.
          Some \<lparr>np_NewViewNumber = v, np_ViewChangeProofs = ps, np_PrePrepareMsgs = ms\<rparr>))))"

lemma enc_not_null [simp]: "enc_header h \<noteq> JNull" "enc_block b \<noteq> JNull"
  by (simp_all add: enc_header_def enc_block_def)

lemma dec_enc_block [simp]:
  "dec_block (enc_block b) = Some \<lparr>bp_Header = Some (blk_Header b), bp_Transactions = blk_Transactions b\<rparr>"
proof -
  have "dec_ptr dec_header (enc_header h) = Some (Some h)" for h by (simp add: dec_ptr_def)
  then show ?thesis by (simp add: dec_block_def enc_block_def jget_def)
qed

lemma dec_enc_vote [simp]: "dec_vote (enc_vote x) = Some x"
  by (simp add: dec_vote_def enc_vote_def jget_def)

lemma dec_enc_proof [simp]: "dec_proof (enc_proof p) = Some p"
  by (simp add: dec_proof_def enc_proof_def jget_def)

lemma dec_enc_preprepare [simp]:
  "dec_preprepare (enc_preprepare x b a) = Some \<lparr>pp_BlockHash = x,
     pp_BlockData = Some \<lparr>bp_Header = Some (blk_Header b), bp_Transactions = blk_Transactions b\<rparr>,
     pp_Validator = a\<rparr>"
proof -
  have "dec_ptr dec_block (enc_block b)
      = Some (Some \<lparr>bp_Header = Some (blk_Header b), bp_Transactions = blk_Transactions b\<rparr>)"
    by (simp add: dec_ptr_def)
  then show ?thesis by (simp add: dec_preprepare_def enc_preprepare_def jget_def)
qed

lemma dec_enc_viewchange [simp]: "dec_viewchange (enc_viewchange p) = Some p"
  by (simp add: dec_viewchange_def enc_viewchange_def jget_def)

lemma dec_enc_newview [simp]: "dec_newview (enc_newview p) = Some p"
  by (simp add: dec_newview_def enc_newview_def jget_def)

section \<open>Validator sets\<close>

record ValidatorSet =
  vs_Validators :: "address list"
  vs_PrimaryIdx :: int
  vs_ViewNumber :: u64

definition vs_Size :: "ValidatorSet \<Rightarrow> nat" where
  "vs_Size vs = length (vs_Validators vs)"

definition Quorum :: "ValidatorSet \<Rightarrow> nat" where
  "Quorum vs = length (vs_Validators vs) * 2 div 3 + 1"

text \<open>Go's \<open>(n-1)/3\<close> truncates toward zero, so an empty set gives \<open>-1/3 = 0\<close>, as below.\<close>

definition FaultTolerance :: "ValidatorSet \<Rightarrow> nat" where
  "FaultTolerance vs = (length (vs_Validators vs) - 1) div 3"

text \<open>
  \<open>int(ViewNumber) % n\<close>: the conversion reads the 64 bits as a signed number and Go's remainder has
  the sign of the dividend, so the index is negative for most view numbers from \<open>2^63\<close> on.
\<close>

definition go_rem :: "int \<Rightarrow> int \<Rightarrow> int" where
  "go_rem a b = (if 0 \<le> a then a mod b else - ((- a) mod b))"

definition GetPrimary :: "ValidatorSet \<Rightarrow> address outcome" where
  "GetPrimary vs =
     (if length (vs_Validators vs) = 0 then Done 0
      else let idx = go_rem (sint (vs_ViewNumber vs)) (int (length (vs_Validators vs))) in
        if idx < 0 then Panic else Done (vs_Validators vs ! nat idx))"

definition vs_IsValidator :: "ValidatorSet \<Rightarrow> address \<Rightarrow> bool" where
  "vs_IsValidator vs addr = list_ex (\<lambda>v. v = addr) (vs_Validators vs)"

definition UpdateView :: "ValidatorSet \<Rightarrow> u64 \<Rightarrow> ValidatorSet" where
  "UpdateView vs viewNumber = vs\<lparr>vs_ViewNumber := viewNumber\<rparr>"

datatype valset_error = ValidatorExists | ValidatorNotFound

definition vs_AddValidator :: "ValidatorSet \<Rightarrow> address \<Rightarrow> ValidatorSet \<times> valset_error option" where
  "vs_AddValidator vs addr =
     (if vs_IsValidator vs addr then (vs, Some ValidatorExists)
      else (vs\<lparr>vs_Validators := vs_Validators vs @ [addr]\<rparr>, None))"

definition vs_RemoveValidator :: "ValidatorSet \<Rightarrow> address \<Rightarrow> ValidatorSet \<times> valset_error option" where
  "vs_RemoveValidator vs addr =
     (case find_index addr (vs_Validators vs) 0 of
        None \<Rightarrow> (vs, Some ValidatorNotFound)
      | Some i \<Rightarrow> (vs\<lparr>vs_Validators := swap_remove i (vs_Validators vs)\<rparr>, None))"

lemma IsValidator_iff: "vs_IsValidator vs a \<longleftrightarrow> a \<in> set (vs_Validators vs)"
  by (auto simp: vs_IsValidator_def list_ex_iff)

lemma AddValidator_spec:
  "vs_AddValidator vs a = (vs', e) \<Longrightarrow> (e = None \<longleftrightarrow> a \<notin> set (vs_Validators vs))
     \<and> set (vs_Validators vs') = insert a (set (vs_Validators vs))
     \<and> (distinct (vs_Validators vs) \<longrightarrow> distinct (vs_Validators vs'))"
  by (auto simp: vs_AddValidator_def IsValidator_iff split: if_splits)

lemma RemoveValidator_spec:
  assumes "vs_RemoveValidator vs a = (vs', e)" and "distinct (vs_Validators vs)"
  shows "(e = None \<longleftrightarrow> a \<in> set (vs_Validators vs)) \<and> distinct (vs_Validators vs')
    \<and> set (vs_Validators vs') = set (vs_Validators vs) - {a}
    \<and> vs_ViewNumber vs' = vs_ViewNumber vs"
proof (cases "find_index a (vs_Validators vs) 0")
  case None
  with assms show ?thesis by (auto simp: vs_RemoveValidator_def find_index_None)
next
  case (Some i)
  with find_index_Some [OF Some] have i: "i < length (vs_Validators vs)" "vs_Validators vs ! i = a"
    by auto
  then have m: "a \<in> set (vs_Validators vs)" by (metis nth_mem)
  have "mset (swap_remove i (vs_Validators vs)) = mset (vs_Validators vs) - {#a#}"
    using swap_remove_mset [OF i(1)] i(2) by simp
  note r = mset_remove_distinct [OF this assms(2) m]
  have "vs' = vs\<lparr>vs_Validators := swap_remove i (vs_Validators vs)\<rparr>" and "e = None"
    using assms(1) by (simp_all add: vs_RemoveValidator_def Some)
  with r m show ?thesis by auto
qed

section \<open>Quorums\<close>

locale quorum_rule =
  fixes size_of :: "'vs \<Rightarrow> nat" and quorum :: "'vs \<Rightarrow> nat" and faulty :: "'vs \<Rightarrow> nat"
  assumes overlap: "size_of vs + faulty vs < 2 * quorum vs"
    and available: "0 < size_of vs \<Longrightarrow> quorum vs + faulty vs \<le> size_of vs"
begin

lemma intersection:
  assumes "finite V" and "card V = size_of vs" and "A \<subseteq> V" and "B \<subseteq> V"
    and "quorum vs \<le> card A" and "quorum vs \<le> card B"
  shows "faulty vs < card (A \<inter> B)"
proof -
  have fin: "finite A" "finite B" using assms(1,3,4) finite_subset by auto
  have "card (A \<union> B) \<le> size_of vs"
    using assms(1-4) by (metis Un_least card_mono)
  moreover have "card A + card B = card (A \<union> B) + card (A \<inter> B)"
    by (rule card_Un_Int [OF fin])
  ultimately show ?thesis using overlap [of vs] assms(5,6) by linarith
qed

text \<open>
  Two quorums that voted for \<open>x\<close> and for \<open>y\<close> agree, when at most the tolerated number of validators
  votes twice.
\<close>

lemma agreement:
  assumes "finite V" and "card V = size_of vs" and "A \<subseteq> V" and "B \<subseteq> V"
    and "quorum vs \<le> card A" and "quorum vs \<le> card B"
    and "card Z \<le> faulty vs" and "finite Z"
    and "\<And>a. a \<in> A \<Longrightarrow> vote a x" and "\<And>b. b \<in> B \<Longrightarrow> vote b y"
    and "\<And>a. a \<in> V - Z \<Longrightarrow> vote a x \<Longrightarrow> vote a y \<Longrightarrow> x = y"
  shows "x = y"
proof -
  have "card Z < card (A \<inter> B)" using intersection [OF assms(1-6)] assms(7) by linarith
  then have "\<not> A \<inter> B \<subseteq> Z" using assms(8) by (metis card_mono not_le)
  then obtain a where "a \<in> A" "a \<in> B" "a \<notin> Z" by blast
  with assms(3,9-11) show ?thesis by blast
qed

lemma correct_form_quorum:
  assumes "finite V" and "card V = size_of vs" and "V \<noteq> {}" and "card Z \<le> faulty vs" and "finite Z"
  shows "quorum vs \<le> card (V - Z)"
proof -
  have "card V \<le> card (V - Z) + card Z"
    using assms(1,5) by (metis card_Diff_subset_Int card_mono diff_le_mono2 finite_Int inf_le2 le_diff_conv)
  moreover have "0 < size_of vs" using assms(1-3) by (metis card_gt_0_iff)
  ultimately show ?thesis using available [of vs] assms(2,4) by linarith
qed

end

interpretation pbft_quorum: quorum_rule vs_Size Quorum FaultTolerance
proof
  fix vs :: ValidatorSet
  let ?n = "length (vs_Validators vs)"
  show "vs_Size vs + FaultTolerance vs < 2 * Quorum vs"
    unfolding vs_Size_def FaultTolerance_def Quorum_def by (cases ?n) presburger+
  show "Quorum vs + FaultTolerance vs \<le> vs_Size vs" if "0 < vs_Size vs"
    using that unfolding vs_Size_def FaultTolerance_def Quorum_def by presburger
qed

section \<open>Vote records\<close>

record ConsensusState =
  cs_View :: u64
  cs_SeqNumber :: u64
  cs_BlockHash :: hash
  cs_PrePrepareMsg :: "PBFTMessage option"
  cs_PrepareMsgs :: "(address, PBFTMessage) fmap"
  cs_CommitMsgs :: "(address, PBFTMessage) fmap"
  cs_State :: NodeState

definition NewConsensusState :: "u64 \<Rightarrow> u64 \<Rightarrow> ConsensusState" where
  "NewConsensusState view seqNum =
     \<lparr>cs_View = view, cs_SeqNumber = seqNum, cs_BlockHash = 0, cs_PrePrepareMsg = None,
      cs_PrepareMsgs = fmempty, cs_CommitMsgs = fmempty, cs_State = StateIdle\<rparr>"

definition AddPrepareMsg :: "ConsensusState \<Rightarrow> PBFTMessage \<Rightarrow> ConsensusState" where
  "AddPrepareMsg cs msg = cs\<lparr>cs_PrepareMsgs := mput (cs_PrepareMsgs cs) (pm_Sender msg) msg\<rparr>"

definition AddCommitMsg :: "ConsensusState \<Rightarrow> PBFTMessage \<Rightarrow> ConsensusState" where
  "AddCommitMsg cs msg = cs\<lparr>cs_CommitMsgs := mput (cs_CommitMsgs cs) (pm_Sender msg) msg\<rparr>"

definition GetPrepareCount :: "ConsensusState \<Rightarrow> nat" where
  "GetPrepareCount cs = mlen (cs_PrepareMsgs cs)"

definition GetCommitCount :: "ConsensusState \<Rightarrow> nat" where
  "GetCommitCount cs = mlen (cs_CommitMsgs cs)"

definition HasPrepared :: "ConsensusState \<Rightarrow> nat \<Rightarrow> bool" where
  "HasPrepared cs quorum =
     (if cs_PrePrepareMsg cs = None then False
      else int quorum - 1 \<le> int (mlen (cs_PrepareMsgs cs)))"

definition HasCommitted :: "ConsensusState \<Rightarrow> nat \<Rightarrow> bool" where
  "HasCommitted cs quorum \<longleftrightarrow> quorum \<le> mlen (cs_CommitMsgs cs)"

record ViewChangeState =
  vcs_NewViewNumber :: u64
  vcs_ViewChanges :: "(address, PBFTMessage) fmap"

definition NewViewChangeState :: "u64 \<Rightarrow> ViewChangeState" where
  "NewViewChangeState newView = \<lparr>vcs_NewViewNumber = newView, vcs_ViewChanges = fmempty\<rparr>"

definition AddViewChange :: "ViewChangeState \<Rightarrow> PBFTMessage \<Rightarrow> ViewChangeState" where
  "AddViewChange vcs msg =
     vcs\<lparr>vcs_ViewChanges := mput (vcs_ViewChanges vcs) (pm_Sender msg) msg\<rparr>"

definition vcs_HasQuorum :: "ViewChangeState \<Rightarrow> nat \<Rightarrow> bool" where
  "vcs_HasQuorum vcs quorum \<longleftrightarrow> quorum \<le> mlen (vcs_ViewChanges vcs)"

definition IsValidValidator :: "address \<Rightarrow> ValidatorSet \<Rightarrow> bool" where
  "IsValidValidator sender validators = vs_IsValidator validators sender"

definition RequestBatch_CalculateHash :: "crypto \<Rightarrow> json_lib \<Rightarrow> tx list \<Rightarrow> hash" where
  "RequestBatch_CalculateHash C J txs = keccak256 C (js_text J (enc_list enc_tx txs))"

section \<open>Signed messages fail verification\<close>

lemma serializeForSign_inject:
  assumes "json_ok J" and "serializeForSign J m = serializeForSign J m'"
  shows "pm_Digest m = pm_Digest m'"
proof -
  have "enc_for_sign m = enc_for_sign m'"
    using assms by (simp add: serializeForSign_def json_ok_inject)
  then have "enc_hash (pm_Digest m) = enc_hash (pm_Digest m')" by (simp add: enc_for_sign_def)
  then have "Some (pm_Digest m) = Some (pm_Digest m')" by (metis dec_enc_hash)
  then show ?thesis by simp
qed

lemma serializeForSign_signature [simp]:
  "serializeForSign J (m\<lparr>pm_Signature := s\<rparr>) = serializeForSign J m"
  by (simp add: serializeForSign_def enc_for_sign_def)

text \<open>Sign fixes the digest of the message with an empty digest field, then fills the field in.\<close>

definition digested :: "crypto \<Rightarrow> json_lib \<Rightarrow> PBFTMessage \<Rightarrow> PBFTMessage" where
  "digested C J m = m\<lparr>pm_Digest := CalculateDigest C J m\<rparr>"

lemma PBFTMessage_Sign_cases:
  assumes "PBFTMessage_Sign C J m privKey = (m', None)" and "pm_Digest m = 0"
  shows "\<exists>sig. m' = (digested C J m)\<lparr>pm_Signature := sig\<rparr>"
  using assms by (auto simp: PBFTMessage_Sign_def digested_def Let_def split: option.splits)

lemma digest_mismatch:
  assumes "json_ok J" and "pm_Digest m = 0" and "CalculateDigest C J m \<noteq> 0"
    and "inj_on (keccak256 C) {serializeForSign J m, serializeForSign J (digested C J m)}"
  shows "PBFTMessage_Verify C J ((digested C J m)\<lparr>pm_Signature := sig\<rparr>) = Some DigestMismatch"
proof -
  let ?a = "serializeForSign J m" and ?b = "serializeForSign J (digested C J m)"
  have "?a \<noteq> ?b"
  proof
    assume "?a = ?b"
    then have "pm_Digest m = pm_Digest (digested C J m)"
      by (rule serializeForSign_inject [OF assms(1)])
    with assms(2,3) show False by (simp add: digested_def)
  qed
  with assms(4) have "keccak256 C ?b \<noteq> keccak256 C ?a" by (auto simp: inj_on_def)
  then show ?thesis
    by (simp add: PBFTMessage_Verify_def Hash_Equals_def CalculateDigest_def) (simp add: digested_def CalculateDigest_def)
qed

section \<open>Properties\<close>

text \<open>
  C8. Agreement: two commit quorums among distinct validators, one for block hash \<open>x\<close> and one for
  \<open>y\<close>, are for the same hash whenever no more validators than FaultTolerance vote for two hashes;
  they share more than FaultTolerance validators, and the validators that do not misbehave are
  enough for a quorum.
\<close>

theorem commit_quorums_agree:
  assumes "distinct (vs_Validators vs)" and "vs_Validators vs \<noteq> []"
    and "Z \<subseteq> set (vs_Validators vs)" and "card Z \<le> FaultTolerance vs"
    and "A \<subseteq> set (vs_Validators vs)" and "B \<subseteq> set (vs_Validators vs)"
    and "Quorum vs \<le> card A" and "Quorum vs \<le> card B"
    and "\<And>a. a \<in> A \<Longrightarrow> vote a x" and "\<And>b. b \<in> B \<Longrightarrow> vote b y"
    and "\<And>a. a \<in> set (vs_Validators vs) - Z \<Longrightarrow> vote a x \<Longrightarrow> vote a y \<Longrightarrow> x = y"
  shows "x = y \<and> FaultTolerance vs < card (A \<inter> B) \<and> Quorum vs \<le> card (set (vs_Validators vs) - Z)"
proof (intro conjI)
  let ?V = "set (vs_Validators vs)"
  have V: "finite ?V" "card ?V = vs_Size vs" "?V \<noteq> {}" and Z: "finite Z"
    using assms(1-3) by (auto simp: vs_Size_def distinct_card finite_subset)
  show "x = y"
    by (rule pbft_quorum.agreement [OF V(1,2) assms(5-8) assms(4) Z, of vote]) (use assms in auto)
  show "FaultTolerance vs < card (A \<inter> B)"
    by (rule pbft_quorum.intersection [OF V(1,2) assms(5-8)])
  show "Quorum vs \<le> card (?V - Z)"
    by (rule pbft_quorum.correct_form_quorum [OF V assms(4) Z])
qed

definition demo_vs :: ValidatorSet where
  "demo_vs = \<lparr>vs_Validators = [1, 2, 3, 7], vs_PrimaryIdx = 0, vs_ViewNumber = 0\<rparr>"

theorem commit_quorums_agree_witness:
  "Quorum demo_vs = 3 \<and> FaultTolerance demo_vs = 1 \<and> FaultTolerance demo_vs < card ({1, 2, 3} \<inter> {1, 2, 7 :: address})"
proof -
  have "(5 :: hash) = 5 \<and> FaultTolerance demo_vs < card ({1, 2, 3} \<inter> {1, 2, 7 :: address})
      \<and> Quorum demo_vs \<le> card (set (vs_Validators demo_vs) - {7})"
    by (rule commit_quorums_agree [where vote = "\<lambda>_ h. h = 5"])
      (simp_all add: demo_vs_def Quorum_def FaultTolerance_def)
  then show ?thesis by (simp add: demo_vs_def Quorum_def FaultTolerance_def)
qed

text \<open>
  The size of a quorum is \<open>2f+1\<close>, as the comment on Quorum says, exactly for an empty set and
  for \<open>n = 3f+1\<close> validators; otherwise it is larger: \<open>2f+3\<close> when 3 divides \<open>n\<close>, \<open>2f+2\<close> when \<open>n\<close> is
  \<open>3f+2\<close>.
\<close>

theorem quorum_size:
  "Quorum vs = (if vs_Size vs = 0 \<or> vs_Size vs mod 3 = 1 then 2 * FaultTolerance vs + 1
     else if vs_Size vs mod 3 = 2 then 2 * FaultTolerance vs + 2 else 2 * FaultTolerance vs + 3)"
proof -
  obtain k r where n: "length (vs_Validators vs) = 3 * k + r" and r: "r < 3"
    using mult_div_mod_eq [of 3 "length (vs_Validators vs)"] mod_less_divisor [of 3]
    by (metis zero_less_numeral)
  from r consider "r = 0" | "r = 1" | "r = 2" by linarith
  then show ?thesis
  proof cases
    case 1
    with n show ?thesis by (cases k) (simp_all add: vs_Size_def FaultTolerance_def Quorum_def)
  next
    case 2
    have "(3 * k + 1) * 2 div 3 = 2 * k" by presburger
    with n 2 show ?thesis by (simp add: vs_Size_def FaultTolerance_def Quorum_def)
  next
    case 3
    have "(3 * k + 2) * 2 div 3 = 2 * k + 1" "(3 * k + 2 - 1) div 3 = k" "(3 * k + 2) mod 3 = 2"
      by presburger+
    with n 3 show ?thesis unfolding vs_Size_def FaultTolerance_def Quorum_def by simp
  qed
qed

text \<open>
  GetPrimary rotates through the validators in order for view numbers below \<open>2^63\<close>. From \<open>2^63\<close>
  on the conversion to int makes the index negative, so it panics, except where the size of the set
  divides \<open>2^64 - view\<close>.
\<close>

theorem get_primary_rotation:
  "GetPrimary vs =
    (let n = length (vs_Validators vs); v = unat (vs_ViewNumber vs) in
     if n = 0 then Done 0
     else if v < 2 ^ 63 then Done (vs_Validators vs ! (v mod n))
     else if n dvd 2 ^ 64 - v then Done (vs_Validators vs ! 0) else Panic)"
proof -
  let ?n = "length (vs_Validators vs)" and ?w = "vs_ViewNumber vs"
  note s = sint_u64 [of ?w]
  have lt: "unat ?w < 2 ^ 64" using unat_bound [of ?w] by simp
  show ?thesis
  proof (cases "?n = 0")
    case ne: False
    show ?thesis
    proof (cases "unat ?w < 2 ^ 63")
      case True
      then have "go_rem (sint ?w) (int ?n) = int (unat ?w mod ?n)"
        by (simp only: s go_rem_def if_True zmod_int of_nat_0_le_iff)
      with ne True show ?thesis by (simp add: GetPrimary_def Let_def del: of_nat_mod)
    next
      case False
      define d where "d = 2 ^ 64 - unat ?w"
      have "0 < d" using lt by (simp add: d_def)
      moreover have "sint ?w = - int d" unfolding s d_def using False by (simp only: if_False)
      ultimately have idx: "go_rem (sint ?w) (int ?n) = - int (d mod ?n)"
        by (simp add: go_rem_def zmod_int)
      have "GetPrimary vs = (if d mod ?n = 0 then Done (vs_Validators vs ! 0) else Panic)"
        unfolding GetPrimary_def Let_def idx using ne by simp
      moreover have "?n dvd 2 ^ 64 - unat ?w \<longleftrightarrow> d mod ?n = 0"
        unfolding d_def by (rule dvd_eq_mod_eq_0)
      ultimately show ?thesis unfolding Let_def using ne False by simp
    qed
  qed (simp add: GetPrimary_def)
qed

text \<open>
  A message signed by Sign never passes Verify, whoever verifies it: Sign hashes the message
  with an empty digest field and then stores the hash in the field that Verify hashes as well.
  Verify reports the digest mismatch before it looks at the signature, unless Keccak-256 collides
  on the two texts or the digest is zero.
\<close>

theorem signed_message_not_verified:
  assumes "json_ok J" and "pm_Digest m = 0" and "CalculateDigest C J m \<noteq> 0"
    and "inj_on (keccak256 C) {serializeForSign J m, serializeForSign J (digested C J m)}"
    and "PBFTMessage_Sign C J m privKey = (m', None)"
  shows "PBFTMessage_Verify C J m' = Some DigestMismatch"
  using digest_mismatch [OF assms(1-4)] PBFTMessage_Sign_cases [OF assms(5,2)] by auto

definition demo_msg :: PBFTMessage where
  "demo_msg = \<lparr>pm_Type = MsgPrepare, pm_View = 0, pm_SeqNumber = 1, pm_Sender = demo_address,
     pm_Payload = [], pm_Digest = 0, pm_Signature = [], pm_Timestamp = 100\<rparr>"

definition demo_crypto2 :: crypto where
  "demo_crypto2 = demo_crypto
     \<lparr>keccak256 := \<lambda>bs. if bs = serializeForSign demo_json demo_msg then 1 else 2\<rparr>"

theorem signed_message_not_verified_witness:
  "\<exists>m'. PBFTMessage_Sign demo_crypto2 demo_json demo_msg demo_key = (m', None)
     \<and> PBFTMessage_Verify demo_crypto2 demo_json m' = Some DigestMismatch"
proof -
  have z: "pm_Digest demo_msg = 0" by (simp add: demo_msg_def)
  have d: "CalculateDigest demo_crypto2 demo_json demo_msg = 1"
    by (simp add: CalculateDigest_def demo_crypto2_def)
  have ne: "serializeForSign demo_json (digested demo_crypto2 demo_json demo_msg)
      \<noteq> serializeForSign demo_json demo_msg"
    using serializeForSign_inject [OF demo_json_ok, of "digested demo_crypto2 demo_json demo_msg" demo_msg]
    by (auto simp: digested_def d z)
  have i: "inj_on (keccak256 demo_crypto2) {serializeForSign demo_json demo_msg,
      serializeForSign demo_json (digested demo_crypto2 demo_json demo_msg)}"
    using ne by (simp add: inj_on_def demo_crypto2_def)
  have "\<exists>m'. PBFTMessage_Sign demo_crypto2 demo_json demo_msg demo_key = (m', None)"
    by (simp add: PBFTMessage_Sign_def z d Let_def demo_crypto2_def demo_crypto_def demo_key_def)
  then obtain m' where s: "PBFTMessage_Sign demo_crypto2 demo_json demo_msg demo_key = (m', None)"
    by blast
  with signed_message_not_verified [OF demo_json_ok z _ i s] d show ?thesis by simp
qed

end
