(* ===== verification/PBFT.thy ===== *)
theory PBFT
  imports Consensus_Types Chain
begin

text \<open>
  The PBFT engine (consensus/pbft.go) and its checkpoint manager (consensus/checkpoint.go). A
  handler takes the engine and returns it with an optional error; waiting for a lock that the
  calling goroutine holds is \<open>Blocked\<close>, a run-time panic is \<open>Panic\<close>. The message handler that the
  engine calls for its own messages is a parameter; \<open>wired\<close> connects it to \<open>HandleMessage\<close> as
  cmd/v2v-node/start.go does, with fuel for the recursion. Messages given to the network and blocks
  given to the commit handler are collected in lists. Locks taken and released with no call in
  between (\<open>viewMu\<close>, \<open>valSetMu\<close>, \<open>requestPoolMu\<close>, the metrics lock) cannot block a sequential caller
  and are left out; timers only start the calls that are modelled here.
\<close>

section \<open>State\<close>

record 's pbft =
  pe_address :: address
  pe_privateKey :: bytes
  pe_role :: NodeRole
  pe_bc :: "'s blockchain"
  pe_validators :: ValidatorSet
  pe_view :: View
  pe_states :: "(u64, ConsensusState) fmap"
  pe_statesMu :: rwlock
  pe_lastCheckpoint :: u64
  pe_viewChangeState :: "ViewChangeState option"
  pe_vcMu :: bool
  pe_requestPool :: "tx list"
  pe_highPriorityPool :: "tx list"
  pe_broadcastSet :: bool
  pe_sent :: "bytes list"
  pe_toHandler :: "block list"
  pe_MaxTxPerBlock :: int
  pe_BlocksCommitted :: u64

datatype pbft_error =
    VerifyFailed verify_error
  | NotValidator
  | UnknownMessageType MessageType
  | ViewMismatch u64 u64
  | NotFromPrimary
  | BadPayload
  | NilBlock
  | SignErr sign_error
  | LocalHandlerErr pbft_error
  | NoPrePrepare
  | PrepareHashMismatch
  | NoConsensusState
  | CommitHashMismatch
  | CommitWithoutPrePrepare
  | AddBlockErr chain_error
  | OnlyPrimaryProposes
  | NoPendingTxs
  | WrongNewPrimary
  | TooFewProofs
  | TxAlreadyInPool

type_synonym 's pbft_result = "('s pbft \<times> pbft_error option) outcome"
type_synonym 's handler = "'s pbft \<Rightarrow> PBFTMessage \<Rightarrow> 's pbft_result"

definition NewPBFTEngine ::
  "address \<Rightarrow> bytes \<Rightarrow> 's blockchain \<Rightarrow> address list \<Rightarrow> int \<Rightarrow> 's pbft outcome" where
  "NewPBFTEngine addr privKey bc validators maxTx =
     (case validators of
        [] \<Rightarrow> Panic
      | v # _ \<Rightarrow>
          let vs = \<lparr>vs_Validators = validators, vs_PrimaryIdx = 0, vs_ViewNumber = 0\<rparr> in
          Done \<lparr>pe_address = addr, pe_privateKey = privKey,
            pe_role = (if v = addr then RolePrimary
                       else if vs_IsValidator vs addr then RoleReplica else RoleFollower),
            pe_bc = bc, pe_validators = vs,
            pe_view = \<lparr>view_Number = 0, view_Primary = v, view_Timestamp = 0\<rparr>,
            pe_states = fmempty, pe_statesMu = free_lock, pe_lastCheckpoint = 0,
            pe_viewChangeState = None, pe_vcMu = False, pe_requestPool = [],
            pe_highPriorityPool = [], pe_broadcastSet = False, pe_sent = [], pe_toHandler = [],
            pe_MaxTxPerBlock = maxTx, pe_BlocksCommitted = 0\<rparr>)"

section \<open>The request pool\<close>

definition pbft_SubmitTransaction ::
  "'s pbft \<Rightarrow> tx \<Rightarrow> bool \<Rightarrow> 's pbft \<times> pbft_error option" where
  "pbft_SubmitTransaction e tx highPriority =
     (if list_ex (\<lambda>existing. tx_Hash existing = tx_Hash tx) (pe_requestPool e)
      then (e, Some TxAlreadyInPool)
      else if highPriority then (e\<lparr>pe_highPriorityPool := pe_highPriorityPool e @ [tx]\<rparr>, None)
      else (e\<lparr>pe_requestPool := pe_requestPool e @ [tx]\<rparr>, None))"

text \<open>The two counting loops: take a prefix while fewer than the wanted number are taken.\<close>

fun take_loop :: "tx list \<Rightarrow> int \<Rightarrow> tx list" where
  "take_loop [] n = []"
| "take_loop (t # ts) n = (if 0 < n then t # take_loop ts (n - 1) else [])"

definition GetPendingTransactions :: "'s pbft \<Rightarrow> int \<Rightarrow> ('s pbft \<times> tx list) outcome" where
  "GetPendingTransactions e limit =
     (if limit < 0 then Panic
      else let txs = take_loop (pe_highPriorityPool e) limit;
               e = (if 0 < length txs
                    then e\<lparr>pe_highPriorityPool := drop (length txs) (pe_highPriorityPool e)\<rparr> else e);
               remaining = limit - int (length txs);
               txs = txs @ take_loop (pe_requestPool e) remaining;
               e = (if 0 < remaining \<and> 0 < length (pe_requestPool e)
                    then let count = (if int (length (pe_requestPool e)) < remaining
                                      then int (length (pe_requestPool e)) else remaining)
                         in e\<lparr>pe_requestPool := drop (nat count) (pe_requestPool e)\<rparr>
                    else e)
           in Done (e, txs))"

section \<open>Sending\<close>

definition broadcastToNetwork :: "json_lib \<Rightarrow> 's pbft \<Rightarrow> PBFTMessage \<Rightarrow> 's pbft" where
  "broadcastToNetwork J e msg =
     (if \<not> pe_broadcastSet e then e else e\<lparr>pe_sent := pe_sent e @ [js_text J (enc_msg msg)]\<rparr>)"

text \<open>Sign, give to the network (an error there is only logged), give to the local handler.\<close>

definition sign_and_send ::
  "crypto \<Rightarrow> json_lib \<Rightarrow> 's handler option \<Rightarrow> 's pbft \<Rightarrow> PBFTMessage \<Rightarrow> 's pbft_result" where
  "sign_and_send C J H e msg =
     (case PBFTMessage_Sign C J msg (pe_privateKey e) of
        (m, Some err) \<Rightarrow> Done (e, Some (SignErr err))
      | (m, None) \<Rightarrow>
          let e = broadcastToNetwork J e m in
          (case H of
             None \<Rightarrow> Done (e, None)
           | Some h \<Rightarrow> obind (h e m) (\<lambda>(e, r). Done (e, map_option LocalHandlerErr r))))"

definition new_msg :: "MessageType \<Rightarrow> u64 \<Rightarrow> u64 \<Rightarrow> address \<Rightarrow> bytes \<Rightarrow> i64 \<Rightarrow> PBFTMessage" where
  "new_msg ty view seq sender payload now =
     \<lparr>pm_Type = ty, pm_View = view, pm_SeqNumber = seq, pm_Sender = sender, pm_Payload = payload,
      pm_Digest = 0, pm_Signature = [], pm_Timestamp = now\<rparr>"

definition broadcastPrepare ::
  "crypto \<Rightarrow> json_lib \<Rightarrow> 's handler option \<Rightarrow> i64 \<Rightarrow> 's pbft \<Rightarrow> u64 \<Rightarrow> hash \<Rightarrow> 's pbft_result" where
  "broadcastPrepare C J H now e seqNum blockHash =
     sign_and_send C J H e (new_msg MsgPrepare (view_Number (pe_view e)) seqNum (pe_address e)
       (js_text J (enc_vote blockHash)) now)"

definition broadcastCommit ::
  "crypto \<Rightarrow> json_lib \<Rightarrow> 's handler option \<Rightarrow> i64 \<Rightarrow> 's pbft \<Rightarrow> u64 \<Rightarrow> hash \<Rightarrow> 's pbft_result" where
  "broadcastCommit C J H now e seqNum blockHash =
     sign_and_send C J H e (new_msg MsgCommit (view_Number (pe_view e)) seqNum (pe_address e)
       (js_text J (enc_vote blockHash)) now)"

section \<open>Handling the three phases\<close>

definition with_statesMu :: "'s pbft \<Rightarrow> ('s pbft \<Rightarrow> 's pbft_result) \<Rightarrow> 's pbft_result" where
  "with_statesMu e f =
     (case rw_Lock (pe_statesMu e) of
        None \<Rightarrow> Blocked
      | Some l \<Rightarrow> obind (f (e\<lparr>pe_statesMu := l\<rparr>))
                    (\<lambda>(e', r). Done (e'\<lparr>pe_statesMu := rw_Unlock (pe_statesMu e')\<rparr>, r)))"

definition put_state :: "'s pbft \<Rightarrow> u64 \<Rightarrow> ConsensusState \<Rightarrow> 's pbft" where
  "put_state e seq cs = e\<lparr>pe_states := mput (pe_states e) seq cs\<rparr>"

definition get_or_new :: "'s pbft \<Rightarrow> PBFTMessage \<Rightarrow> ConsensusState" where
  "get_or_new e msg =
     (case mget (pe_states e) (pm_SeqNumber msg) of
        Some cs \<Rightarrow> cs | None \<Rightarrow> NewConsensusState (pm_View msg) (pm_SeqNumber msg))"

definition handlePrePrepare ::
  "crypto \<Rightarrow> json_lib \<Rightarrow> 's handler option \<Rightarrow> i64 \<Rightarrow> 's pbft \<Rightarrow> PBFTMessage \<Rightarrow> 's pbft_result" where
  "handlePrePrepare C J H now e msg =
     (let currentView = view_Number (pe_view e) in
      if pm_View msg \<noteq> currentView then Done (e, Some (ViewMismatch currentView (pm_View msg)))
      else obind (GetPrimary (pe_validators e)) (\<lambda>primary.
      if pm_Sender msg \<noteq> primary then Done (e, Some NotFromPrimary)
      else case unmarshal J dec_preprepare (pm_Payload msg) of
        None \<Rightarrow> Done (e, Some BadPayload)
      | Some payload \<Rightarrow>
          if pp_BlockData payload = None then Done (e, Some NilBlock)
          else obind (with_statesMu e (\<lambda>e.
                 Done (put_state e (pm_SeqNumber msg)
                   ((get_or_new e msg)\<lparr>cs_PrePrepareMsg := Some msg,
                                       cs_BlockHash := pp_BlockHash payload\<rparr>), None))) (\<lambda>(e, _).
          if pe_role e = RoleReplica \<or> pe_role e = RolePrimary
          then broadcastPrepare C J H now e (pm_SeqNumber msg) (pp_BlockHash payload)
          else Done (e, None))))"

text \<open>The bodies of \<open>handlePrepare\<close> and \<open>handleCommit\<close> run with the lock held.\<close>

definition handlePrepare_body ::
  "crypto \<Rightarrow> json_lib \<Rightarrow> 's handler option \<Rightarrow> i64 \<Rightarrow> PBFTMessage \<Rightarrow> 's pbft \<Rightarrow> 's pbft_result" where
  "handlePrepare_body C J H now msg e =
    (let seq = pm_SeqNumber msg; cs = get_or_new e msg; e = put_state e seq cs in
     if cs_PrePrepareMsg cs = None then Done (e, Some NoPrePrepare)
     else case unmarshal J dec_vote (pm_Payload msg) of
       None \<Rightarrow> Done (e, Some BadPayload)
     | Some voted \<Rightarrow>
         if \<not> Hash_Equals voted (cs_BlockHash cs) then Done (e, Some PrepareHashMismatch)
         else let cs = AddPrepareMsg cs msg; quorum = Quorum (pe_validators e) in
           if cs_State cs < StatePrepared \<and> HasPrepared cs quorum
           then let cs = cs\<lparr>cs_State := StatePrepared\<rparr> in
             broadcastCommit C J H now (put_state e seq cs) seq (cs_BlockHash cs)
           else Done (put_state e seq cs, None))"

definition handlePrepare ::
  "crypto \<Rightarrow> json_lib \<Rightarrow> 's handler option \<Rightarrow> i64 \<Rightarrow> 's pbft \<Rightarrow> PBFTMessage \<Rightarrow> 's pbft_result" where
  "handlePrepare C J H now e msg = with_statesMu e (handlePrepare_body C J H now msg)"

text \<open>\<open>AddBlock\<close> on a pointer: a block with no header is dereferenced inside the chain's lock.\<close>

definition ptr_block :: "block_ptr option \<Rightarrow> block option" where
  "ptr_block p = Option.bind p (\<lambda>bp. map_option (\<lambda>h.
     \<lparr>blk_Header = h, blk_Transactions = bp_Transactions bp\<rparr>) (bp_Header bp))"

definition AddBlock_ptr ::
  "crypto \<Rightarrow> json_lib \<Rightarrow> 's db \<Rightarrow> 's blockchain \<Rightarrow> block_ptr option
     \<Rightarrow> ('s blockchain \<times> chain_error option) outcome" where
  "AddBlock_ptr C J L bc p =
     (case ptr_block p of
        Some b \<Rightarrow> AddBlock C J L bc b
      | None \<Rightarrow> if rw_Lock (bc_mu bc) = None then Blocked else Panic)"

definition commitBlock ::
  "crypto \<Rightarrow> json_lib \<Rightarrow> 's db \<Rightarrow> 's pbft \<Rightarrow> u64 \<Rightarrow> 's pbft_result" where
  "commitBlock C J L e seqNum =
     (case rw_RLock (pe_statesMu e) of
        None \<Rightarrow> Blocked
      | Some l \<Rightarrow>
          (case Option.bind (mget (pe_states e) seqNum) cs_PrePrepareMsg of
             None \<Rightarrow> Done (e, Some CommitWithoutPrePrepare)
           | Some msg \<Rightarrow>
               (case unmarshal J dec_preprepare (pm_Payload msg) of
                  None \<Rightarrow> Done (e, Some BadPayload)
                | Some payload \<Rightarrow>
                    obind (AddBlock_ptr C J L (pe_bc e) (pp_BlockData payload)) (\<lambda>(bc, r).
                    let e = e\<lparr>pe_bc := bc\<rparr> in
                    case r of
                      Some err \<Rightarrow> Done (e, Some (AddBlockErr err))
                    | None \<Rightarrow>
                        Done (e\<lparr>pe_toHandler := pe_toHandler e @
                               (case ptr_block (pp_BlockData payload) of Some b \<Rightarrow> [b] | None \<Rightarrow> []),
                             pe_BlocksCommitted := pe_BlocksCommitted e + 1\<rparr>, None)))))"

definition handleCommit_body ::
  "crypto \<Rightarrow> json_lib \<Rightarrow> 's db \<Rightarrow> PBFTMessage \<Rightarrow> 's pbft \<Rightarrow> 's pbft_result" where
  "handleCommit_body C J L msg e =
    (case mget (pe_states e) (pm_SeqNumber msg) of
       None \<Rightarrow> Done (e, Some NoConsensusState)
     | Some cs \<Rightarrow>
         (case unmarshal J dec_vote (pm_Payload msg) of
            None \<Rightarrow> Done (e, Some BadPayload)
          | Some voted \<Rightarrow>
              if \<not> Hash_Equals voted (cs_BlockHash cs) then Done (e, Some CommitHashMismatch)
              else let cs = AddCommitMsg cs msg; quorum = Quorum (pe_validators e) in
                if cs_State cs < StateCommitted \<and> HasCommitted cs quorum
                then commitBlock C J L
                       (put_state e (pm_SeqNumber msg) (cs\<lparr>cs_State := StateCommitted\<rparr>))
                       (pm_SeqNumber msg)
                else Done (put_state e (pm_SeqNumber msg) cs, None)))"

definition handleCommit ::
  "crypto \<Rightarrow> json_lib \<Rightarrow> 's db \<Rightarrow> 's pbft \<Rightarrow> PBFTMessage \<Rightarrow> 's pbft_result" where
  "handleCommit C J L e msg = with_statesMu e (handleCommit_body C J L msg)"

section \<open>Changing the view\<close>

text \<open>Go visits a map in no fixed order; the proofs are collected here in the order of addresses.\<close>

definition viewchange_proofs :: "ViewChangeState \<Rightarrow> Proof list" where
  "viewchange_proofs vcs = List.map_filter (\<lambda>a. map_option (\<lambda>msg.
       \<lparr>pr_View = pm_View msg, pr_SeqNumber = pm_SeqNumber msg, pr_BlockHash = 0,
        pr_Signatures = [pm_Signature msg]\<rparr>) (mget (vcs_ViewChanges vcs) a))
     (sorted_list_of_fset (fmdom (vcs_ViewChanges vcs)))"

definition broadcastNewView ::
  "crypto \<Rightarrow> json_lib \<Rightarrow> 's handler option \<Rightarrow> i64 \<Rightarrow> 's pbft \<Rightarrow> ViewChangeState \<Rightarrow> 's pbft_result" where
  "broadcastNewView C J H now e vcs =
     sign_and_send C J H e (new_msg MsgNewView (vcs_NewViewNumber vcs) 0 (pe_address e)
       (js_text J (enc_newview \<lparr>np_NewViewNumber = vcs_NewViewNumber vcs,
          np_ViewChangeProofs = viewchange_proofs vcs, np_PrePrepareMsgs = []\<rparr>)) now)"

definition handleViewChange ::
  "crypto \<Rightarrow> json_lib \<Rightarrow> 's handler option \<Rightarrow> i64 \<Rightarrow> 's pbft \<Rightarrow> PBFTMessage \<Rightarrow> 's pbft_result" where
  "handleViewChange C J H now e msg =
     (if pe_vcMu e then Blocked
      else let e = e\<lparr>pe_vcMu := True\<rparr> in
        obind
          (case unmarshal J dec_viewchange (pm_Payload msg) of
             None \<Rightarrow> Done (e, Some BadPayload)
           | Some payload \<Rightarrow>
               let new = vp_NewViewNumber payload;
                   vcs = (case pe_viewChangeState e of
                            Some v \<Rightarrow> if vcs_NewViewNumber v \<noteq> new then NewViewChangeState new else v
                          | None \<Rightarrow> NewViewChangeState new);
                   vcs = AddViewChange vcs msg;
                   e = e\<lparr>pe_viewChangeState := Some vcs\<rparr>;
                   quorum = Quorum (pe_validators e) in
               if vcs_HasQuorum vcs quorum
               then let e = e\<lparr>pe_validators := UpdateView (pe_validators e) new\<rparr> in
                 obind (GetPrimary (pe_validators e)) (\<lambda>newPrimary.
                   if newPrimary = pe_address e then broadcastNewView C J H now e vcs
                   else Done (e, None))
               else Done (e, None))
          (\<lambda>(e, r). Done (e\<lparr>pe_vcMu := False\<rparr>, r)))"

definition handleNewView :: "json_lib \<Rightarrow> i64 \<Rightarrow> 's pbft \<Rightarrow> PBFTMessage \<Rightarrow> 's pbft_result" where
  "handleNewView J now e msg =
     (case unmarshal J dec_newview (pm_Payload msg) of
        None \<Rightarrow> Done (e, Some BadPayload)
      | Some payload \<Rightarrow>
          let new = np_NewViewNumber payload;
              e = e\<lparr>pe_validators := UpdateView (pe_validators e) new\<rparr> in
          obind (GetPrimary (pe_validators e)) (\<lambda>newPrimary.
          if pm_Sender msg \<noteq> newPrimary then Done (e, Some WrongNewPrimary)
          else if length (np_ViewChangeProofs payload) < Quorum (pe_validators e)
            then Done (e, Some TooFewProofs)
          else let e = e\<lparr>pe_view := \<lparr>view_Number = new, view_Primary = newPrimary,
                                     view_Timestamp = now\<rparr>,
                        pe_role := (if newPrimary = pe_address e then RolePrimary
                                    else if vs_IsValidator (pe_validators e) (pe_address e)
                                    then RoleReplica else pe_role e)\<rparr> in
            if pe_vcMu e then Blocked else Done (e\<lparr>pe_viewChangeState := None\<rparr>, None)))"

definition initiateViewChange ::
  "crypto \<Rightarrow> json_lib \<Rightarrow> 's handler option \<Rightarrow> i64 \<Rightarrow> 's pbft \<Rightarrow> 's pbft outcome" where
  "initiateViewChange C J H now e =
     (case rw_RLock (pe_statesMu e) of
        None \<Rightarrow> Blocked
      | Some l \<Rightarrow>
          let currentView = view_Number (pe_view e);
              newView = currentView + 1;
              proofs = List.map_filter (\<lambda>s. case mget (pe_states e) s of
                  None \<Rightarrow> None
                | Some cs \<Rightarrow> if StatePrepared \<le> cs_State cs
                    then Some \<lparr>pr_View = cs_View cs, pr_SeqNumber = cs_SeqNumber cs,
                               pr_BlockHash = cs_BlockHash cs, pr_Signatures = []\<rparr> else None)
                (sorted_list_of_fset (fmdom (pe_states e)));
              msg = new_msg MsgViewChange currentView 0 (pe_address e)
                (js_text J (enc_viewchange \<lparr>vp_NewViewNumber = newView,
                   vp_LastStableCheckpoint = pe_lastCheckpoint e, vp_PreparedProofs = proofs\<rparr>)) now in
          (case PBFTMessage_Sign C J msg (pe_privateKey e) of
             (m, Some err) \<Rightarrow> Done e
           | (m, None) \<Rightarrow>
               obind (case H of None \<Rightarrow> Done (broadcastToNetwork J e m, None)
                      | Some h \<Rightarrow> h (broadcastToNetwork J e m) m)
                 (\<lambda>(e, r). Done (e\<lparr>pe_viewChangeState :=
                    Some (AddViewChange (NewViewChangeState newView) m)\<rparr>))))"

section \<open>Dispatch and proposal\<close>

definition HandleMessage ::
  "crypto \<Rightarrow> json_lib \<Rightarrow> 's db \<Rightarrow> 's handler option \<Rightarrow> i64 \<Rightarrow> 's pbft \<Rightarrow> PBFTMessage \<Rightarrow> 's pbft_result" where
  "HandleMessage C J L H now e msg =
     (case PBFTMessage_Verify C J msg of
        Some err \<Rightarrow> Done (e, Some (VerifyFailed err))
      | None \<Rightarrow>
          if \<not> vs_IsValidator (pe_validators e) (pm_Sender msg) then Done (e, Some NotValidator)
          else if pm_Type msg = MsgPrePrepare then handlePrePrepare C J H now e msg
          else if pm_Type msg = MsgPrepare then handlePrepare C J H now e msg
          else if pm_Type msg = MsgCommit then handleCommit C J L e msg
          else if pm_Type msg = MsgViewChange then handleViewChange C J H now e msg
          else if pm_Type msg = MsgNewView then handleNewView J now e msg
          else Done (e, Some (UnknownMessageType (pm_Type msg))))"

primrec wired :: "crypto \<Rightarrow> json_lib \<Rightarrow> 's db \<Rightarrow> i64 \<Rightarrow> nat \<Rightarrow> 's handler" where
  "wired C J L now 0 = (\<lambda>e msg. Blocked)"
| "wired C J L now (Suc n) = HandleMessage C J L (Some (wired C J L now n)) now"

definition ProposeBlock ::
  "crypto \<Rightarrow> json_lib \<Rightarrow> 's db \<Rightarrow> 's handler option \<Rightarrow> i64 \<Rightarrow> 's pbft \<Rightarrow> 's pbft_result" where
  "ProposeBlock C J L H now e =
     (if pe_role e \<noteq> RolePrimary then Done (e, Some OnlyPrimaryProposes)
      else obind (GetPendingTransactions e (pe_MaxTxPerBlock e)) (\<lambda>(e, txs).
      if length txs = 0 then Done (e, Some NoPendingTxs)
      else obind (GetLatestHeight (pe_bc e)) (\<lambda>latestHeight.
      obind (CreateBlock C now (pe_bc e) txs (pe_address e)) (\<lambda>block.
      case Block_Sign C block (pe_privateKey e) of
        (block, Some err) \<Rightarrow> Done (e, Some (SignErr err))
      | (block, None) \<Rightarrow>
          sign_and_send C J H e (new_msg MsgPrePrepare (view_Number (pe_view e)) (latestHeight + 1)
            (pe_address e)
            (js_text J (enc_preprepare (hdr_Hash (blk_Header block)) block (pe_address e))) now)))))"

section \<open>Accessors and membership\<close>

definition GetView :: "'s pbft \<Rightarrow> View" where
  "GetView e = pe_view e"

definition GetRole :: "'s pbft \<Rightarrow> NodeRole" where
  "GetRole e = pe_role e"

definition GetValidatorSet :: "'s pbft \<Rightarrow> ValidatorSet" where
  "GetValidatorSet e =
     \<lparr>vs_Validators = replicate (length (vs_Validators (pe_validators e))) 0, vs_PrimaryIdx = 0,
      vs_ViewNumber = vs_ViewNumber (pe_validators e)\<rparr>"

definition pbft_AddValidator :: "'s pbft \<Rightarrow> address \<Rightarrow> 's pbft \<times> valset_error option" where
  "pbft_AddValidator e addr =
     (case vs_AddValidator (pe_validators e) addr of (vs, r) \<Rightarrow> (e\<lparr>pe_validators := vs\<rparr>, r))"

definition pbft_RemoveValidator :: "'s pbft \<Rightarrow> address \<Rightarrow> 's pbft \<times> valset_error option" where
  "pbft_RemoveValidator e addr =
     (case vs_RemoveValidator (pe_validators e) addr of (vs, r) \<Rightarrow> (e\<lparr>pe_validators := vs\<rparr>, r))"

definition pbft_IsValidator :: "'s pbft \<Rightarrow> address \<Rightarrow> bool" where
  "pbft_IsValidator e addr = vs_IsValidator (pe_validators e) addr"

section \<open>Checkpoints\<close>

record Checkpoint =
  cp_SeqNumber :: u64
  cp_BlockHash :: hash
  cp_Timestamp :: i64

text \<open>The channel \<open>checkpointCh\<close> is a queue of at most 10 requests.\<close>

record CheckpointManager =
  cm_checkpoints :: "(u64, Checkpoint) fmap"
  cm_lastStable :: u64
  cm_checkpointCh :: "u64 list"

definition NewCheckpointManager :: CheckpointManager where
  "NewCheckpointManager = \<lparr>cm_checkpoints = fmempty, cm_lastStable = 0, cm_checkpointCh = []\<rparr>"

definition garbageCollectOldCheckpoints :: "CheckpointManager \<Rightarrow> u64 \<Rightarrow> CheckpointManager" where
  "garbageCollectOldCheckpoints cm currentStable =
     cm\<lparr>cm_checkpoints := fmfilter (\<lambda>seqNum. \<not> seqNum < currentStable) (cm_checkpoints cm),
        cm_lastStable := currentStable\<rparr>"

definition createCheckpoint ::
  "json_lib \<Rightarrow> 's db \<Rightarrow> i64 \<Rightarrow> 's blockchain \<Rightarrow> CheckpointManager \<Rightarrow> u64 \<Rightarrow> CheckpointManager outcome" where
  "createCheckpoint J L now bc cm seqNum =
     obind (GetBlockByHeight J L bc seqNum) (\<lambda>r.
       case r of Inl _ \<Rightarrow> Done cm
       | Inr block \<Rightarrow>
           Done (garbageCollectOldCheckpoints
             (cm\<lparr>cm_checkpoints := mput (cm_checkpoints cm) seqNum
                \<lparr>cp_SeqNumber = seqNum, cp_BlockHash = hdr_Hash (blk_Header block),
                 cp_Timestamp = now\<rparr>\<rparr>) seqNum))"

definition checkpointLoop_step ::
  "json_lib \<Rightarrow> 's db \<Rightarrow> i64 \<Rightarrow> 's blockchain \<Rightarrow> CheckpointManager \<Rightarrow> CheckpointManager outcome" where
  "checkpointLoop_step J L now bc cm =
     (case cm_checkpointCh cm of
        [] \<Rightarrow> Done cm
      | seqNum # rest \<Rightarrow> createCheckpoint J L now bc (cm\<lparr>cm_checkpointCh := rest\<rparr>) seqNum)"

definition GetCheckpoint :: "CheckpointManager \<Rightarrow> u64 \<Rightarrow> Checkpoint option" where
  "GetCheckpoint cm seqNum = mget (cm_checkpoints cm) seqNum"

definition GetLastStableCheckpoint :: "CheckpointManager \<Rightarrow> Checkpoint option" where
  "GetLastStableCheckpoint cm = mget (cm_checkpoints cm) (cm_lastStable cm)"

definition RequestCheckpoint :: "CheckpointManager \<Rightarrow> u64 \<Rightarrow> CheckpointManager" where
  "RequestCheckpoint cm seqNum =
     (if length (cm_checkpointCh cm) < 10
      then cm\<lparr>cm_checkpointCh := cm_checkpointCh cm @ [seqNum]\<rparr> else cm)"

section \<open>The invariant of the vote records\<close>

definition vote_ok ::
  "crypto \<Rightarrow> json_lib \<Rightarrow> address list \<Rightarrow> u64 \<Rightarrow> MessageType \<Rightarrow> address \<Rightarrow> PBFTMessage \<Rightarrow> bool" where
  "vote_ok C J V seq ty a m \<longleftrightarrow> pm_Sender m = a \<and> a \<in> set V \<and> pm_SeqNumber m = seq
     \<and> pm_Type m = ty \<and> PBFTMessage_Verify C J m = None"

definition cs_ok :: "crypto \<Rightarrow> json_lib \<Rightarrow> address list \<Rightarrow> u64 \<Rightarrow> ConsensusState \<Rightarrow> bool" where
  "cs_ok C J V seq cs \<longleftrightarrow>
     (\<forall>a m. mget (cs_PrepareMsgs cs) a = Some m \<longrightarrow> vote_ok C J V seq MsgPrepare a m)
     \<and> (\<forall>a m. mget (cs_CommitMsgs cs) a = Some m \<longrightarrow> vote_ok C J V seq MsgCommit a m)
     \<and> (\<forall>m. cs_PrePrepareMsg cs = Some m \<longrightarrow> vote_ok C J V seq MsgPrePrepare (pm_Sender m) m)
     \<and> (cs_State cs = StateIdle \<or> cs_State cs = StatePrepared \<and> cs_PrePrepareMsg cs \<noteq> None
          \<and> length V * 2 div 3 \<le> mlen (cs_PrepareMsgs cs))
     \<and> mlen (cs_CommitMsgs cs) \<le> length V * 2 div 3"

definition pbft_core ::
  "crypto \<Rightarrow> json_lib \<Rightarrow> address list \<Rightarrow> 's blockchain \<Rightarrow> 's pbft \<Rightarrow> bool" where
  "pbft_core C J V bc0 e \<longleftrightarrow>
     vs_Validators (pe_validators e) = V \<and> pe_bc e = bc0 \<and> pe_BlocksCommitted e = 0
     \<and> pe_toHandler e = []
     \<and> (\<forall>seq cs. mget (pe_states e) seq = Some cs \<longrightarrow> cs_ok C J V seq cs)"

definition keeps ::
  "crypto \<Rightarrow> json_lib \<Rightarrow> address list \<Rightarrow> 's blockchain \<Rightarrow> 's pbft \<Rightarrow> 's pbft \<Rightarrow> bool" where
  "keeps C J V bc0 e e' \<longleftrightarrow> (pbft_core C J V bc0 e \<longrightarrow> pbft_core C J V bc0 e'
     \<and> pe_statesMu e' = pe_statesMu e \<and> pe_vcMu e' = pe_vcMu e)"

lemma keeps_refl [simp]: "keeps C J V bc0 e e"
  by (simp add: keeps_def)

lemma keeps_trans [trans]: "keeps C J V bc0 e e' \<Longrightarrow> keeps C J V bc0 e' e'' \<Longrightarrow> keeps C J V bc0 e e''"
  by (simp add: keeps_def)

text \<open>Changes to the other fields keep the invariant.\<close>

lemma keeps_other [simp]:
  "keeps C J V bc0 e (e\<lparr>pe_sent := s\<rparr>)"
  "keeps C J V bc0 e (e\<lparr>pe_viewChangeState := v\<rparr>)"
  "keeps C J V bc0 e (e\<lparr>pe_view := w, pe_role := r\<rparr>)"
  "keeps C J V bc0 e (e\<lparr>pe_requestPool := p\<rparr>)"
  "keeps C J V bc0 e (e\<lparr>pe_highPriorityPool := p\<rparr>)"
  "keeps C J V bc0 e (e\<lparr>pe_validators := UpdateView (pe_validators e) n\<rparr>)"
  by (simp_all add: keeps_def pbft_core_def UpdateView_def)

lemma keeps_broadcast [simp]: "keeps C J V bc0 e (broadcastToNetwork J' e m)"
  by (simp add: broadcastToNetwork_def)

lemma keeps_put_state:
  "(pbft_core C J V bc0 e \<Longrightarrow> cs_ok C J V seq cs) \<Longrightarrow> keeps C J V bc0 e (put_state e seq cs)"
  by (simp add: keeps_def pbft_core_def put_state_def)

lemma put_state_simps [simp]:
  "pe_validators (put_state e seq cs) = pe_validators e" "pe_role (put_state e seq cs) = pe_role e"
  "pe_statesMu (put_state e seq cs) = pe_statesMu e" "pe_view (put_state e seq cs) = pe_view e"
  "pe_bc (put_state e seq cs) = pe_bc e"
  "put_state (put_state e seq cs) seq cs' = put_state e seq cs'"
  by (simp_all add: put_state_def)

lemma cs_ok_get_or_new:
  "pbft_core C J V bc0 e \<Longrightarrow> cs_ok C J V (pm_SeqNumber m) (get_or_new e m)"
  by (auto simp: pbft_core_def get_or_new_def cs_ok_def NewConsensusState_def split: option.split)

lemma with_statesMu_Done:
  assumes "with_statesMu e f = Done (e', r)"
  obtains e1 where "lock_free (pe_statesMu e)"
    and "f (e\<lparr>pe_statesMu := \<lparr>writer_held = True, readers_held = 0\<rparr>\<rparr>) = Done (e1, r)"
    and "e' = e1\<lparr>pe_statesMu := rw_Unlock (pe_statesMu e1)\<rparr>"
  using assms
  by (auto simp: with_statesMu_def rw_Lock_def lock_free_def obind_eq_Done split: option.splits if_splits)
    (metis (full_types) rwlock.surjective rwlock.update_convs(1) old.unit.exhaust)

lemma with_statesMu_keeps:
  assumes "with_statesMu e f = Done (e', r)"
    and "\<And>e1 e2. pbft_core C J V bc0 e1 \<Longrightarrow> f e1 = Done (e2, r) \<Longrightarrow> writer_held (pe_statesMu e1)
           \<Longrightarrow> keeps C J V bc0 e1 e2"
  shows "keeps C J V bc0 e e'"
proof -
  let ?l = "\<lparr>writer_held = True, readers_held = 0\<rparr>"
  from assms(1) obtain e1 where f: "lock_free (pe_statesMu e)"
    and s: "f (e\<lparr>pe_statesMu := ?l\<rparr>) = Done (e1, r)"
    and e': "e' = e1\<lparr>pe_statesMu := rw_Unlock (pe_statesMu e1)\<rparr>" by (rule with_statesMu_Done)
  have "keeps C J V bc0 (e\<lparr>pe_statesMu := ?l\<rparr>) e1"
    using assms(2) [OF _ s] by (auto simp: keeps_def)
  moreover have "rw_Unlock ?l = pe_statesMu e"
    using lock_freeE [OF f] by (simp add: rw_Unlock_def free_lock_def)
  ultimately show ?thesis
    unfolding e' by (simp add: keeps_def pbft_core_def)
qed

lemma vote_put:
  assumes "\<forall>a m. mget M a = Some m \<longrightarrow> vote_ok C J V seq ty a m"
    and "vote_ok C J V seq ty (pm_Sender msg) msg"
  shows "\<forall>a m. mget (mput M (pm_Sender msg) msg) a = Some m \<longrightarrow> vote_ok C J V seq ty a m"
  using assms by simp

lemma NodeState_less_simps [simp]:
  "StateIdle < StatePrepared" "\<not> StatePrepared < StatePrepared" "StateIdle < StateCommitted"
  "StatePrepared < StateCommitted"
  by (simp_all add: less_NodeState_def)

section \<open>What the engine relies on from its message handler\<close>

locale message_handler =
  fixes C :: crypto and J :: json_lib and V :: "address list" and bc0 :: "'s blockchain"
    and H :: "'s handler option"
  assumes handler_keeps: "H = Some h \<Longrightarrow> h e m = Done (e', r) \<Longrightarrow> keeps C J V bc0 e e'"
begin

lemma sign_and_send_keeps:
  assumes "sign_and_send C J H e msg = Done (e', r)"
  shows "keeps C J V bc0 e e'"
proof -
  obtain m s where s: "PBFTMessage_Sign C J msg (pe_privateKey e) = (m, s)" by (meson surj_pair)
  show ?thesis
  proof (cases "s = None \<and> H \<noteq> None")
    case True
    then obtain h where h: "H = Some h" by auto
    with assms s True obtain r1 where "h (broadcastToNetwork J e m) m = Done (e', r1)"
      by (auto simp: sign_and_send_def obind_eq_Done Let_def)
    from handler_keeps [OF h this] keeps_broadcast show ?thesis by (rule keeps_trans [rotated])
  next
    case False
    with assms s show ?thesis by (auto simp: sign_and_send_def Let_def split: option.splits)
  qed
qed

lemma handlePrePrepare_keeps:
  assumes "handlePrePrepare C J H now e msg = Done (e', r)"
    and "pbft_core C J V bc0 e \<Longrightarrow> vote_ok C J V (pm_SeqNumber msg) MsgPrePrepare (pm_Sender msg) msg"
  shows "keeps C J V bc0 e e'"
proof -
  have st: "keeps C J V bc0 e e1"
    if w: "with_statesMu e (\<lambda>e. Done (put_state e (pm_SeqNumber msg)
        ((get_or_new e msg)\<lparr>cs_PrePrepareMsg := Some msg, cs_BlockHash := h\<rparr>), None)) = Done (e1, r1)"
    for e1 r1 h
  proof -
    let ?l = "\<lparr>writer_held = True, readers_held = 0\<rparr>"
    from w obtain e2 where f: "lock_free (pe_statesMu e)"
      and e2: "e2 = put_state (e\<lparr>pe_statesMu := ?l\<rparr>) (pm_SeqNumber msg)
         ((get_or_new (e\<lparr>pe_statesMu := ?l\<rparr>) msg)\<lparr>cs_PrePrepareMsg := Some msg, cs_BlockHash := h\<rparr>)"
      and e1: "e1 = e2\<lparr>pe_statesMu := rw_Unlock (pe_statesMu e2)\<rparr>"
      by (elim with_statesMu_Done) simp
    have g: "get_or_new (e\<lparr>pe_statesMu := ?l\<rparr>) msg = get_or_new e msg" by (simp add: get_or_new_def)
    have "e1 = put_state e (pm_SeqNumber msg)
        ((get_or_new e msg)\<lparr>cs_PrePrepareMsg := Some msg, cs_BlockHash := h\<rparr>)"
      unfolding e1 e2 g using lock_freeE [OF f]
      by (simp add: put_state_def rw_Unlock_def free_lock_def)
    moreover have "cs_ok C J V (pm_SeqNumber msg)
        ((get_or_new e msg)\<lparr>cs_PrePrepareMsg := Some msg, cs_BlockHash := h\<rparr>)"
      if "pbft_core C J V bc0 e"
      using cs_ok_get_or_new [OF that, of msg] assms(2) [OF that] by (auto simp: cs_ok_def)
    ultimately show ?thesis using keeps_put_state by metis
  qed
  from assms(1) show ?thesis
    by (auto simp: handlePrePrepare_def obind_eq_Done Let_def broadcastPrepare_def
        dest!: st sign_and_send_keeps split: option.splits if_splits intro: keeps_trans)
qed

lemma handlePrepare_keeps:
  assumes "handlePrepare C J H now e msg = Done (e', r)"
    and "vote_ok C J V (pm_SeqNumber msg) MsgPrepare (pm_Sender msg) msg"
  shows "keeps C J V bc0 e e'"
  using assms(1) unfolding handlePrepare_def
proof (rule with_statesMu_keeps)
  fix e1 e2 :: "'s pbft"
  let ?seq = "pm_SeqNumber msg" and ?cs = "get_or_new e1 msg"
  let ?cs' = "AddPrepareMsg ?cs msg"
  have ok: "cs_ok C J V ?seq ?cs'" if "pbft_core C J V bc0 e1"
    using cs_ok_get_or_new [OF that, of msg] assms(2) mlen_put [where m = "cs_PrepareMsgs ?cs" and k = "pm_Sender msg" and v = msg]
    by (auto simp: cs_ok_def AddPrepareMsg_def split: if_splits)
  have k0: "keeps C J V bc0 e1 (put_state e1 ?seq ?cs)"
    using cs_ok_get_or_new by (rule keeps_put_state)
  have k1: "keeps C J V bc0 e1 (put_state e1 ?seq ?cs')" using ok by (rule keeps_put_state)
  have k2: "keeps C J V bc0 e1 (put_state e1 ?seq (?cs'\<lparr>cs_State := StatePrepared\<rparr>))"
    if "HasPrepared ?cs' (Quorum (pe_validators e1))"
  proof (rule keeps_put_state)
    assume c: "pbft_core C J V bc0 e1"
    have "cs_PrePrepareMsg ?cs' \<noteq> None" and "length V * 2 div 3 \<le> mlen (cs_PrepareMsgs ?cs')"
      using that c by (auto simp: HasPrepared_def Quorum_def pbft_core_def split: if_splits)
    with ok [OF c] show "cs_ok C J V ?seq (?cs'\<lparr>cs_State := StatePrepared\<rparr>)"
      by (auto simp: cs_ok_def)
  qed
  assume "handlePrepare_body C J H now msg e1 = Done (e2, r)"
  then show "keeps C J V bc0 e1 e2"
    using k0 k1 k2
    by (auto simp: handlePrepare_body_def Let_def broadcastCommit_def dest!: sign_and_send_keeps
        split: option.splits if_splits intro: keeps_trans)
qed

lemma handleViewChange_keeps:
  assumes "handleViewChange C J H now e msg = Done (e', r)"
  shows "keeps C J V bc0 e e'"
proof -
  define e0 where "e0 = e\<lparr>pe_vcMu := True\<rparr>"
  have vc: "\<not> pe_vcMu e" using assms by (auto simp: handleViewChange_def)
  have unlock: "keeps C J V bc0 e (e1\<lparr>pe_vcMu := False\<rparr>)" if "keeps C J V bc0 e0 e1" for e1
    using that vc by (simp add: keeps_def pbft_core_def e0_def)
  have upd: "keeps C J V bc0 e0 (e0\<lparr>pe_viewChangeState := v, pe_validators := UpdateView (pe_validators e0) n\<rparr>)"
    "keeps C J V bc0 e0 (e0\<lparr>pe_viewChangeState := v\<rparr>)" for v n
    by (simp_all add: keeps_def pbft_core_def UpdateView_def)
  from assms vc show ?thesis
    unfolding handleViewChange_def e0_def [symmetric]
    by (auto simp: obind_eq_Done Let_def broadcastNewView_def intro!: unlock
        dest!: sign_and_send_keeps split: option.splits if_splits intro: upd keeps_trans [OF upd(1)])
qed

lemma handleNewView_keeps:
  assumes "handleNewView J' now e msg = Done (e', r)"
  shows "keeps C J V bc0 e e'"
  using assms
  by (auto simp: handleNewView_def obind_eq_Done Let_def keeps_def pbft_core_def UpdateView_def
      split: option.splits if_splits)

lemma handleCommit_keeps:
  assumes "handleCommit C J L e msg = Done (e', r)"
    and "vote_ok C J V (pm_SeqNumber msg) MsgCommit (pm_Sender msg) msg"
  shows "keeps C J V bc0 e e'"
  using assms(1) unfolding handleCommit_def
proof (rule with_statesMu_keeps)
  fix e1 e2 :: "'s pbft"
  assume core: "pbft_core C J V bc0 e1" and b: "handleCommit_body C J L msg e1 = Done (e2, r)"
    and w: "writer_held (pe_statesMu e1)"
  show "keeps C J V bc0 e1 e2"
  proof (cases "mget (pe_states e1) (pm_SeqNumber msg)")
    case None
    with b show ?thesis by (simp add: handleCommit_body_def)
  next
    case (Some cs)
    let ?cs = "AddCommitMsg cs msg"
    have cs: "cs_ok C J V (pm_SeqNumber msg) cs" using core Some by (simp add: pbft_core_def)
    have k: "keeps C J V bc0 e1 (put_state e1 (pm_SeqNumber msg) ?cs)"
      if "\<not> HasCommitted ?cs (Quorum (pe_validators e1))"
      using that cs assms(2) core
      by (intro keeps_put_state)
        (auto simp: cs_ok_def AddCommitMsg_def HasCommitted_def Quorum_def pbft_core_def)
    have "cs_State ?cs < StateCommitted" using cs by (auto simp: cs_ok_def AddCommitMsg_def)
    with b w Some k show ?thesis
      by (auto simp: handleCommit_body_def Let_def commitBlock_def rw_RLock_def
          split: option.splits if_splits)
  qed
qed

lemma HandleMessage_keeps:
  assumes "HandleMessage C J L H now e msg = Done (e', r)"
  shows "keeps C J V bc0 e e'"
proof (cases "PBFTMessage_Verify C J msg = None \<and> vs_IsValidator (pe_validators e) (pm_Sender msg)")
  case True
  have vote: "vote_ok C J V (pm_SeqNumber msg) (pm_Type msg) (pm_Sender msg) msg"
    if "pbft_core C J V bc0 e"
    using that True by (auto simp: vote_ok_def pbft_core_def IsValidator_iff)
  show ?thesis
  proof (cases "pbft_core C J V bc0 e")
    case core: True
    from assms True vote [OF core] show ?thesis
      by (auto simp: HandleMessage_def split: if_splits dest: handlePrePrepare_keeps
          handlePrepare_keeps handleCommit_keeps handleViewChange_keeps handleNewView_keeps)
  qed (simp add: keeps_def)
next
  case False
  with assms show ?thesis by (auto simp: HandleMessage_def split: option.splits if_splits)
qed

end

section \<open>The wired engine\<close>

lemma wired_handler: "message_handler C J V bc0 (Some (wired C J L now n))"
proof (induction n)
  case (Suc n)
  show ?case
  proof
    show "keeps C J V bc0 e e'"
      if "Some (wired C J L now (Suc n)) = Some h" and "h e m = Done (e', r)" for h e m e' r
      using message_handler.HandleMessage_keeps [OF Suc, of L now e m e' r] that by simp
  qed
qed (unfold_locales, auto)

interpretation engine: message_handler C J V bc0 "Some (wired C J L now n)" for C J V bc0 L now n
  by (rule wired_handler)

text \<open>The fuel: a Pre-Prepare is answered by a Prepare, that by a Commit, a View-Change by a New-View.\<close>

definition msg_rank :: "MessageType \<Rightarrow> nat" where
  "msg_rank ty = (if ty = MsgPrePrepare then 3 else if ty = MsgPrepare \<or> ty = MsgViewChange then 2 else 1)"

lemma PBFTMessage_Sign_type: "pm_Type (fst (PBFTMessage_Sign C J m k)) = pm_Type m"
  by (simp add: PBFTMessage_Sign_def Let_def split: option.splits)

lemma sign_and_send_cong:
  assumes "\<And>e m. pm_Type m = pm_Type msg \<Longrightarrow> h e m = h' e m"
  shows "sign_and_send C J (Some h) e msg = sign_and_send C J (Some h') e msg"
proof -
  obtain m s where s: "PBFTMessage_Sign C J msg (pe_privateKey e) = (m, s)" by (meson surj_pair)
  then have "pm_Type m = pm_Type msg" by (metis PBFTMessage_Sign_type fst_conv)
  with s assms show ?thesis by (simp add: sign_and_send_def split: option.split)
qed

lemma HandleMessage_cong:
  assumes "\<And>e m. msg_rank (pm_Type m) < msg_rank (pm_Type msg) \<Longrightarrow> h e m = h' e m"
  shows "HandleMessage C J L (Some h) now e msg = HandleMessage C J L (Some h') now e msg"
proof -
  have p: "broadcastPrepare C J (Some h) now e1 n b = broadcastPrepare C J (Some h') now e1 n b"
    if "pm_Type msg = MsgPrePrepare" for e1 n b
    unfolding broadcastPrepare_def
    by (rule sign_and_send_cong, rule assms) (simp add: that new_msg_def msg_rank_def Msg_defs)
  have c: "broadcastCommit C J (Some h) now e1 n b = broadcastCommit C J (Some h') now e1 n b"
    if "pm_Type msg = MsgPrepare" for e1 n b
    unfolding broadcastCommit_def
    by (rule sign_and_send_cong, rule assms) (simp add: that new_msg_def msg_rank_def Msg_defs)
  have v: "broadcastNewView C J (Some h) now e1 vcs = broadcastNewView C J (Some h') now e1 vcs"
    if "pm_Type msg = MsgViewChange" for e1 vcs
    unfolding broadcastNewView_def
    by (rule sign_and_send_cong, rule assms) (simp add: that new_msg_def msg_rank_def Msg_defs)
  have 1: "handlePrePrepare C J (Some h) now e msg = handlePrePrepare C J (Some h') now e msg"
    if "pm_Type msg = MsgPrePrepare"
    unfolding handlePrePrepare_def p [OF that] ..
  have 2: "handlePrepare C J (Some h) now e msg = handlePrepare C J (Some h') now e msg"
    if "pm_Type msg = MsgPrepare"
    unfolding handlePrepare_def handlePrepare_body_def c [OF that] ..
  have 3: "handleViewChange C J (Some h) now e msg = handleViewChange C J (Some h') now e msg"
    if "pm_Type msg = MsgViewChange"
    unfolding handleViewChange_def v [OF that] ..
  show ?thesis
    by (cases "PBFTMessage_Verify C J msg") (simp_all add: HandleMessage_def 1 2 3)
qed

lemma msg_rank_bounds: "0 < msg_rank ty" "msg_rank ty \<le> 3"
  by (simp_all add: msg_rank_def)

lemma wired_fuel:
  "msg_rank (pm_Type msg) \<le> n \<Longrightarrow> wired C J L now n e msg = wired C J L now (msg_rank (pm_Type msg)) e msg"
proof (induction "msg_rank (pm_Type msg)" arbitrary: n e msg rule: less_induct)
  case less
  obtain r where r: "msg_rank (pm_Type msg) = Suc r" using msg_rank_bounds(1) by (metis Suc_pred)
  then obtain k where n: "n = Suc k" using less.prems by (metis Suc_le_D)
  have "wired C J L now k e' m = wired C J L now r e' m"
    if "msg_rank (pm_Type m) < msg_rank (pm_Type msg)" for e' m
  proof -
    have "msg_rank (pm_Type m) \<le> k" "msg_rank (pm_Type m) \<le> r" using that less.prems r n by simp_all
    with less.hyps [OF that] show ?thesis by metis
  qed
  then show ?case unfolding n r wired.simps by (intro HandleMessage_cong) (simp add: r)
qed

section \<open>Runs of the engine\<close>

inductive pbft_step :: "crypto \<Rightarrow> json_lib \<Rightarrow> 's db \<Rightarrow> 's pbft \<Rightarrow> 's pbft \<Rightarrow> bool"
  for C :: crypto and J :: json_lib and L :: "'s db" where
  receive: "wired C J L now n e msg = Done (e', r) \<Longrightarrow> pbft_step C J L e e'"
| propose: "ProposeBlock C J L (Some (wired C J L now n)) now e = Done (e', r) \<Longrightarrow> pbft_step C J L e e'"
| time_out: "initiateViewChange C J (Some (wired C J L now n)) now e = Done e' \<Longrightarrow> pbft_step C J L e e'"
| submit: "pbft_SubmitTransaction e tx hp = (e', r) \<Longrightarrow> pbft_step C J L e e'"
| take_txs: "GetPendingTransactions e limit = Done (e', txs) \<Longrightarrow> pbft_step C J L e e'"

inductive_cases pbft_stepE: "pbft_step C J L e e'"

lemma GetPending_keeps:
  assumes "GetPendingTransactions e limit = Done (e', txs)"
  shows "keeps C J V bc0 e e'"
  using assms by (auto simp: GetPendingTransactions_def Let_def keeps_def pbft_core_def split: if_splits)

lemma initiateViewChange_keeps:
  assumes "initiateViewChange C J (Some (wired C J L now n)) now' e = Done e'"
  shows "keeps C J V bc0 e e'"
proof -
  have v: "keeps C J V bc0 e (e1\<lparr>pe_viewChangeState := v\<rparr>)"
    if "wired C J L now n (broadcastToNetwork J e m) m = Done (e1, r)" for e1 r m v
    using keeps_trans [OF keeps_broadcast keeps_trans [OF engine.handler_keeps [OF refl that] keeps_other(2)]] .
  from assms show ?thesis
    by (auto simp: initiateViewChange_def Let_def obind_eq_Done split: option.splits prod.splits dest: v)
qed

lemma ProposeBlock_keeps:
  assumes "ProposeBlock C J L (Some (wired C J L now n)) now' e = Done (e', r)"
  shows "keeps C J V bc0 e e'"
proof (cases "pe_role e = RolePrimary")
  case False
  with assms show ?thesis by (simp add: ProposeBlock_def)
next
  case True
  with assms obtain e1 txs where g: "GetPendingTransactions e (pe_MaxTxPerBlock e) = Done (e1, txs)"
    by (auto simp: ProposeBlock_def obind_eq_Done)
  have "keeps C J V bc0 e1 e'"
  proof (cases "txs = []")
    case True
    with assms g \<open>pe_role e = RolePrimary\<close> show ?thesis by (simp add: ProposeBlock_def)
  next
    case False
    with assms g True obtain h b where
      p: "(case Block_Sign C b (pe_privateKey e1) of
        (block, Some err) \<Rightarrow> Done (e1, Some (SignErr err))
      | (block, None) \<Rightarrow>
          sign_and_send C J (Some (wired C J L now n)) e1 (new_msg MsgPrePrepare (view_Number (pe_view e1)) (h + 1)
            (pe_address e1)
            (js_text J (enc_preprepare (hdr_Hash (blk_Header block)) block (pe_address e1))) now'))
        = Done (e', r)"
      by (auto simp: ProposeBlock_def obind_eq_Done)
    then show ?thesis
      by (cases "Block_Sign C b (pe_privateKey e1)")
        (auto dest: engine.sign_and_send_keeps split: option.splits)
  qed
  with GetPending_keeps [OF g] show ?thesis by (rule keeps_trans)
qed

lemma pbft_step_keeps: "pbft_step C J L e e' \<Longrightarrow> keeps C J V bc0 e e'"
  by (erule pbft_stepE)
    (auto dest: engine.handler_keeps [OF refl] ProposeBlock_keeps initiateViewChange_keeps GetPending_keeps
      simp: pbft_SubmitTransaction_def split: if_splits)

lemma pbft_run_keeps:
  assumes "(pbft_step C J L)\<^sup>*\<^sup>* e e'"
  shows "keeps C J V bc0 e e'"
  using assms by (induction rule: rtranclp_induct) (auto dest: pbft_step_keeps intro: keeps_trans)

lemma NewPBFTEngine_core:
  assumes "NewPBFTEngine addr privKey bc V maxTx = Done e"
  shows "pbft_core C J V bc e \<and> lock_free (pe_statesMu e) \<and> \<not> pe_vcMu e"
  using assms by (auto simp: NewPBFTEngine_def pbft_core_def Let_def split: list.splits)

section \<open>Results of single handlers\<close>

lemma with_statesMu_free:
  "lock_free (pe_statesMu e) \<Longrightarrow> with_statesMu e f
     = obind (f (e\<lparr>pe_statesMu := \<lparr>writer_held = True, readers_held = 0\<rparr>\<rparr>))
         (\<lambda>(e', r). Done (e'\<lparr>pe_statesMu := rw_Unlock (pe_statesMu e')\<rparr>, r))"
  by (cases "pe_statesMu e") (simp add: with_statesMu_def rw_Lock_def lock_free_def)

lemma take_loop_take: "take_loop ts n = take (nat n) ts"
proof (induction ts arbitrary: n)
  case (Cons t ts)
  then show ?case by (cases "nat n") (auto simp: nat_diff_distrib')
qed simp

lemma prepared_by_too_few:
  assumes "HasPrepared cs q" and "mlen (cs_PrepareMsgs cs) = q - 1" and "mhas (cs_PrepareMsgs cs) primary"
    and "0 < q"
  shows "Suc (card (insert primary (fset (fmdom (cs_PrepareMsgs cs))))) = q"
proof -
  have "insert primary (fset (fmdom (cs_PrepareMsgs cs))) = fset (fmdom (cs_PrepareMsgs cs))"
    using assms(3) by (auto simp: mhas_dom)
  then show ?thesis using assms(2,4) by (simp add: mlen_def fcard.rep_eq)
qed

lemma GetValidatorSet_zeroes:
  "vs_Validators (GetValidatorSet e) = replicate (length (vs_Validators (pe_validators e))) 0"
  by (simp add: GetValidatorSet_def)

lemma createCheckpoint_gc:
  assumes "createCheckpoint J L now bc cm n = Done cm'"
    and "GetBlockByHeight J L bc n = Done (Inr b)"
  shows "GetLastStableCheckpoint cm' = Some \<lparr>cp_SeqNumber = n, cp_BlockHash = hdr_Hash (blk_Header b),
      cp_Timestamp = now\<rparr>
    \<and> (\<forall>k. k < n \<longrightarrow> GetCheckpoint cm' k = None)
    \<and> (\<forall>k. n < k \<longrightarrow> GetCheckpoint cm' k = GetCheckpoint cm k)"
  using assms
  by (auto simp: createCheckpoint_def garbageCollectOldCheckpoints_def GetLastStableCheckpoint_def
      GetCheckpoint_def)

section \<open>A run for witnesses\<close>

definition demo_crypto3 :: crypto where
  "demo_crypto3 = demo_crypto\<lparr>keccak256 := \<lambda>_. 5\<rparr>"

definition demo_sig :: bytes where
  "demo_sig = put_be (5 :: hash) @ demo_key @ [0]"

definition demo_pp :: "hash \<Rightarrow> PBFTMessage" where
  "demo_pp h = \<lparr>pm_Type = MsgPrePrepare, pm_View = 0, pm_SeqNumber = 1, pm_Sender = demo_address,
     pm_Payload = js_text demo_json (enc_preprepare h demo_block demo_address),
     pm_Digest = 5, pm_Signature = demo_sig, pm_Timestamp = 0\<rparr>"

definition demo_engine :: "(bytes \<Rightarrow> bytes option) pbft" where
  "demo_engine = (case NewPBFTEngine 8 demo_key demo_bc [demo_address, 1, 2, 3] 10 of Done e \<Rightarrow> e)"

lemma demo_engine_new: "NewPBFTEngine 8 demo_key demo_bc [demo_address, 1, 2, 3] 10 = Done demo_engine"
  by (simp add: demo_engine_def NewPBFTEngine_def Let_def)

lemma demo_engine_simps [simp]:
  "pe_role demo_engine = RoleFollower" "pe_statesMu demo_engine = free_lock"
  "pe_view demo_engine = \<lparr>view_Number = 0, view_Primary = demo_address, view_Timestamp = 0\<rparr>"
  "pe_validators demo_engine = \<lparr>vs_Validators = [demo_address, 1, 2, 3], vs_PrimaryIdx = 0, vs_ViewNumber = 0\<rparr>"
  "pe_states demo_engine = fmempty" "pe_vcMu demo_engine = False"
  by (simp_all add: demo_engine_def NewPBFTEngine_def Let_def vs_IsValidator_def demo_address_def)

lemma demo_pp_simps [simp]:
  "pm_Type (demo_pp h) = MsgPrePrepare" "pm_View (demo_pp h) = 0" "pm_SeqNumber (demo_pp h) = 1"
  "pm_Sender (demo_pp h) = demo_address"
  "unmarshal demo_json dec_preprepare (pm_Payload (demo_pp h)) = Some \<lparr>pp_BlockHash = h,
     pp_BlockData = Some \<lparr>bp_Header = Some (blk_Header demo_block),
       bp_Transactions = blk_Transactions demo_block\<rparr>, pp_Validator = demo_address\<rparr>"
  by (simp_all add: demo_pp_def demo_json_ok)

lemma demo_verify: "PBFTMessage_Verify demo_crypto3 demo_json (demo_pp h) = None"
proof -
  have "sig_to_pub demo_crypto3 5 demo_sig = Some demo_key"
    by (simp add: demo_crypto3_def demo_crypto_def demo_sig_def demo_key_def)
  moreover have "pubkey_to_address demo_crypto3 demo_key = demo_address"
    using demo_key_address by (simp add: demo_crypto3_def demo_crypto_def)
  moreover have "keccak256 demo_crypto3 x = 5" for x by (simp add: demo_crypto3_def)
  ultimately show ?thesis
    by (simp add: PBFTMessage_Verify_def Hash_Equals_def CalculateDigest_def demo_pp_def)
qed

definition demo_engine1 :: "(bytes \<Rightarrow> bytes option) pbft" where
  "demo_engine1 = put_state demo_engine 1
     ((NewConsensusState 0 1)\<lparr>cs_PrePrepareMsg := Some (demo_pp 4), cs_BlockHash := 4\<rparr>)"

lemma demo_engine_receives: "wired demo_crypto3 demo_json map_db 0 1 demo_engine (demo_pp 4) = Done (demo_engine1, None)"
proof -
  have p: "GetPrimary \<lparr>vs_Validators = [demo_address, 1, 2, 3], vs_PrimaryIdx = 0, vs_ViewNumber = 0\<rparr>
      = Done demo_address"
    by (simp add: GetPrimary_def go_rem_def Let_def)
  have l: "rw_Unlock \<lparr>writer_held = True, readers_held = 0\<rparr> = free_lock"
    by (simp add: rw_Unlock_def free_lock_def)
  have e: "demo_engine\<lparr>pe_statesMu := free_lock\<rparr> = demo_engine" by (simp flip: demo_engine_simps(2))
  show ?thesis
    by (simp add: HandleMessage_def demo_verify vs_IsValidator_def handlePrePrepare_def p
        with_statesMu_free l get_or_new_def demo_engine1_def put_state_def e)
qed

lemma demo_run: "(pbft_step demo_crypto3 demo_json map_db)\<^sup>*\<^sup>* demo_engine demo_engine1"
  by (rule r_into_rtranclp, rule pbft_step.receive, rule demo_engine_receives)

section \<open>Properties\<close>

text \<open>
  C3. In every state that a newly made engine reaches by receiving messages, proposing, timing out
  and queueing transactions, each recorded vote was cast for its sequence number by a validator
  under its own address and passed signature verification (so no sender counts twice), and a record
  is in the Prepared state only with a verified pre-prepare and a quorum minus one of prepare votes.
\<close>

theorem vote_records_sound:
  assumes "NewPBFTEngine addr privKey bc V maxTx = Done e0" and "(pbft_step C J L)\<^sup>*\<^sup>* e0 e"
    and "mget (pe_states e) seq = Some cs"
  shows "(\<forall>a m. mget (cs_PrepareMsgs cs) a = Some m \<longrightarrow> a \<in> set V \<and> pm_Sender m = a
         \<and> pm_SeqNumber m = seq \<and> pm_Type m = MsgPrepare \<and> PBFTMessage_Verify C J m = None)
    \<and> (\<forall>a m. mget (cs_CommitMsgs cs) a = Some m \<longrightarrow> a \<in> set V \<and> pm_Sender m = a
         \<and> pm_SeqNumber m = seq \<and> pm_Type m = MsgCommit \<and> PBFTMessage_Verify C J m = None)
    \<and> (cs_State cs = StatePrepared \<longrightarrow>
         (\<exists>m. cs_PrePrepareMsg cs = Some m \<and> PBFTMessage_Verify C J m = None)
         \<and> Quorum (pe_validators e) \<le> Suc (mlen (cs_PrepareMsgs cs)))"
proof -
  have c: "pbft_core C J V bc e"
    using NewPBFTEngine_core [OF assms(1)] pbft_run_keeps [OF assms(2)] by (simp add: keeps_def)
  with assms(3) have "cs_ok C J V seq cs" and "vs_Validators (pe_validators e) = V"
    by (simp_all add: pbft_core_def)
  then show ?thesis by (auto simp: cs_ok_def vote_ok_def Quorum_def)
qed

theorem vote_records_sound_witness:
  "\<exists>cs. mget (pe_states demo_engine1) 1 = Some cs \<and> cs_PrePrepareMsg cs = Some (demo_pp 4)
     \<and> (cs_State cs \<noteq> StatePrepared \<or> Quorum (pe_validators demo_engine1) \<le> Suc (mlen (cs_PrepareMsgs cs)))"
proof -
  let ?cs = "(NewConsensusState 0 1)\<lparr>cs_PrePrepareMsg := Some (demo_pp 4), cs_BlockHash := 4\<rparr>"
  have m: "mget (pe_states demo_engine1) 1 = Some ?cs" by (simp add: demo_engine1_def put_state_def)
  from vote_records_sound [OF demo_engine_new demo_run m] m show ?thesis by auto
qed

text \<open>
  C2. No block is ever committed: in every reachable state the chain and the commit counter are
  those of the start, no block has been given to the executor, no record is Committed and every
  record holds fewer commit votes than a quorum. The vote that would complete a quorum makes
  handleCommit wait for the lock it holds, so it leads to no further state.
\<close>

theorem no_block_is_committed:
  assumes "NewPBFTEngine addr privKey bc V maxTx = Done e0" and "(pbft_step C J L)\<^sup>*\<^sup>* e0 e"
  shows "pe_bc e = bc \<and> pe_BlocksCommitted e = 0 \<and> pe_toHandler e = []
    \<and> (\<forall>seq cs. mget (pe_states e) seq = Some cs \<longrightarrow>
         cs_State cs \<noteq> StateCommitted \<and> \<not> HasCommitted cs (Quorum (pe_validators e)))
    \<and> lock_free (pe_statesMu e) \<and> \<not> pe_vcMu e"
proof -
  have c: "pbft_core C J V bc e" and l: "pe_statesMu e = pe_statesMu e0" "pe_vcMu e = pe_vcMu e0"
    using NewPBFTEngine_core [OF assms(1)] pbft_run_keeps [OF assms(2), of V bc]
    by (simp_all add: keeps_def)
  have "cs_State cs \<noteq> StateCommitted \<and> \<not> HasCommitted cs (Quorum (pe_validators e))"
    if "mget (pe_states e) seq = Some cs" for seq cs
  proof -
    from c that have "cs_ok C J V seq cs" and "vs_Validators (pe_validators e) = V"
      by (simp_all add: pbft_core_def)
    then show ?thesis by (auto simp: cs_ok_def HasCommitted_def Quorum_def)
  qed
  with c l NewPBFTEngine_core [OF assms(1), of C J] show ?thesis by (simp add: pbft_core_def)
qed

theorem no_block_is_committed_witness:
  "pe_BlocksCommitted demo_engine1 = 0 \<and> pe_bc demo_engine1 = demo_bc"
  using no_block_is_committed [OF demo_engine_new demo_run] by simp

text \<open>
  What handleCommit does with a vote for the block of its sequence number: below the quorum it
  records the vote under the sender; the vote that reaches the quorum deadlocks, because
  commitBlock asks for the read lock of \<open>statesMu\<close> that handleCommit holds for writing.
\<close>

theorem commit_vote_result:
  assumes "lock_free (pe_statesMu e)" and "mget (pe_states e) (pm_SeqNumber msg) = Some cs"
    and "unmarshal J dec_vote (pm_Payload msg) = Some (cs_BlockHash cs)"
    and "cs_State cs < StateCommitted"
  shows "handleCommit C J L e msg =
    (if Quorum (pe_validators e) \<le> mlen (mput (cs_CommitMsgs cs) (pm_Sender msg) msg) then Blocked
     else Done (put_state e (pm_SeqNumber msg) (AddCommitMsg cs msg), None))"
proof -
  have "(put_state (e\<lparr>pe_statesMu := l\<rparr>) n x)\<lparr>pe_statesMu := pe_statesMu e\<rparr> = put_state e n x" for l n x
    by (simp add: put_state_def)
  moreover have "rw_Unlock \<lparr>writer_held = True, readers_held = 0\<rparr> = pe_statesMu e"
    using lock_freeE [OF assms(1)] by (simp add: rw_Unlock_def free_lock_def)
  ultimately show ?thesis
    using assms by (simp add: handleCommit_def with_statesMu_free handleCommit_body_def Let_def
        Hash_Equals_def HasCommitted_def commitBlock_def rw_RLock_def AddCommitMsg_def)
qed

definition demo_commit :: "address \<Rightarrow> PBFTMessage" where
  "demo_commit a = \<lparr>pm_Type = MsgCommit, pm_View = 0, pm_SeqNumber = 1, pm_Sender = a,
     pm_Payload = js_text demo_json (enc_vote 4), pm_Digest = 5, pm_Signature = demo_sig,
     pm_Timestamp = 0\<rparr>"

definition demo_voted :: ConsensusState where
  "demo_voted = AddCommitMsg (AddCommitMsg
     ((NewConsensusState 0 1)\<lparr>cs_PrePrepareMsg := Some (demo_pp 4), cs_BlockHash := 4\<rparr>)
     (demo_commit 1)) (demo_commit 2)"

lemma demo_voted_simps [simp]:
  "cs_State demo_voted = StateIdle" "cs_BlockHash demo_voted = 4" "mlen (cs_CommitMsgs demo_voted) = 2"
  "mhas (cs_CommitMsgs demo_voted) a \<longleftrightarrow> a = 1 \<or> a = 2"
  by (auto simp: demo_voted_def AddCommitMsg_def NewConsensusState_def mlen_put demo_commit_def)

theorem commit_vote_result_witness:
  "handleCommit demo_crypto3 demo_json map_db (put_state demo_engine 1 demo_voted) (demo_commit 3) = Blocked
   \<and> (\<exists>e. handleCommit demo_crypto3 demo_json map_db (put_state demo_engine 1 demo_voted) (demo_commit 2)
          = Done (e, None))"
proof -
  let ?e = "put_state demo_engine 1 demo_voted"
  have f: "lock_free (pe_statesMu ?e)" by simp
  have m: "mget (pe_states ?e) (pm_SeqNumber (demo_commit a)) = Some demo_voted" for a
    by (simp add: demo_commit_def put_state_def)
  have p: "unmarshal demo_json dec_vote (pm_Payload (demo_commit a)) = Some (cs_BlockHash demo_voted)" for a
    by (simp add: demo_commit_def demo_json_ok)
  have s: "pm_Sender (demo_commit a) = a" for a by (simp add: demo_commit_def)
  have q: "Quorum (pe_validators ?e) = 3" by (simp add: Quorum_def)
  from commit_vote_result [OF f m p, of demo_crypto3 map_db 3]
    commit_vote_result [OF f m p, of demo_crypto3 map_db 2] q show ?thesis
    by (simp add: mlen_put s)
qed

text \<open>
  A second pre-prepare of the primary for a sequence number replaces the block hash and keeps
  the votes: the commit and prepare votes counted for the first block (and a Prepared state) count
  for the second one, so commit votes for different blocks add up to one quorum. (Stated for an
  engine without a local handler; the record is what the handler is then called with.)
\<close>

theorem preprepare_keeps_old_votes:
  assumes "lock_free (pe_statesMu e)" and "mget (pe_states e) (pm_SeqNumber msg) = Some cs"
    and "pm_View msg = view_Number (pe_view e)"
    and "GetPrimary (pe_validators e) = Done (pm_Sender msg)"
    and "unmarshal J dec_preprepare (pm_Payload msg) = Some payload" and "pp_BlockData payload \<noteq> None"
  shows "\<exists>e' r. handlePrePrepare C J None now e msg = Done (e', r)
    \<and> mget (pe_states e') (pm_SeqNumber msg)
        = Some (cs\<lparr>cs_PrePrepareMsg := Some msg, cs_BlockHash := pp_BlockHash payload\<rparr>)"
proof -
  let ?cs = "cs\<lparr>cs_PrePrepareMsg := Some msg, cs_BlockHash := pp_BlockHash payload\<rparr>"
  let ?e = "put_state e (pm_SeqNumber msg) ?cs"
  have u: "(put_state (e\<lparr>pe_statesMu := l\<rparr>) n x)\<lparr>pe_statesMu := pe_statesMu e\<rparr> = put_state e n x" for l n x
    by (simp add: put_state_def)
  have l: "rw_Unlock \<lparr>writer_held = True, readers_held = 0\<rparr> = pe_statesMu e"
    using lock_freeE [OF assms(1)] by (simp add: rw_Unlock_def free_lock_def)
  have w: "handlePrePrepare C J None now e msg
      = (if pe_role e = RoleReplica \<or> pe_role e = RolePrimary
         then broadcastPrepare C J None now ?e (pm_SeqNumber msg) (pp_BlockHash payload)
         else Done (?e, None))"
    using assms(1-5) assms(6) [unfolded not_None_eq]
    by (auto simp: handlePrePrepare_def with_statesMu_free get_or_new_def u l)
  have "\<exists>e' r. broadcastPrepare C J None now ?e n h = Done (e', r) \<and> pe_states e' = pe_states ?e" for n h
    by (simp add: broadcastPrepare_def sign_and_send_def broadcastToNetwork_def Let_def
        split: prod.split option.split)
  then show ?thesis unfolding w by (force simp: put_state_def)
qed

theorem preprepare_keeps_old_votes_witness:
  "\<exists>e' r cs. handlePrePrepare demo_crypto3 demo_json None 0 (put_state demo_engine 1 demo_voted) (demo_pp 6)
        = Done (e', r)
     \<and> mget (pe_states e') 1 = Some cs \<and> cs_BlockHash cs = 6 \<and> cs_CommitMsgs cs = cs_CommitMsgs demo_voted"
proof -
  let ?e = "put_state demo_engine 1 demo_voted"
  have f: "lock_free (pe_statesMu ?e)" "pm_View (demo_pp 6) = view_Number (pe_view ?e)" by simp_all
  have m: "mget (pe_states ?e) (pm_SeqNumber (demo_pp 6)) = Some demo_voted" by (simp add: put_state_def)
  have g: "GetPrimary (pe_validators ?e) = Done (pm_Sender (demo_pp 6))"
    by (simp add: GetPrimary_def go_rem_def Let_def)
  show ?thesis
    using preprepare_keeps_old_votes [OF f(1) m f(2) g demo_pp_simps(5), of demo_crypto3 0] by auto
qed

text \<open>
  A New-View message moves the primary even when it is refused: the validator set takes over the
  view number of the message before the sender is compared with the new primary. A refused message
  of any validator therefore makes every node that receives it refuse the pre-prepares of the
  primary of the unchanged view.
\<close>

theorem refused_new_view_moves_primary:
  assumes "unmarshal J dec_newview (pm_Payload msg) = Some payload"
    and "GetPrimary (UpdateView (pe_validators e) (np_NewViewNumber payload)) = Done p"
    and "pm_Sender msg \<noteq> p"
    and "pm_View msg2 = view_Number (pe_view e)" and "pm_Sender msg2 = view_Primary (pe_view e)"
    and "view_Primary (pe_view e) \<noteq> p"
  shows "\<exists>e'. handleNewView J now e msg = Done (e', Some WrongNewPrimary) \<and> pe_view e' = pe_view e
    \<and> GetPrimary (pe_validators e') = Done p
    \<and> handlePrePrepare C J H now' e' msg2 = Done (e', Some NotFromPrimary)"
  using assms by (simp add: handleNewView_def handlePrePrepare_def Let_def)

definition demo_newview :: PBFTMessage where
  "demo_newview = \<lparr>pm_Type = MsgNewView, pm_View = 0, pm_SeqNumber = 0, pm_Sender = 2,
     pm_Payload = js_text demo_json (enc_newview
       \<lparr>np_NewViewNumber = 1, np_ViewChangeProofs = [], np_PrePrepareMsgs = []\<rparr>),
     pm_Digest = 5, pm_Signature = demo_sig, pm_Timestamp = 0\<rparr>"

theorem refused_new_view_moves_primary_witness:
  "\<exists>e'. handleNewView demo_json 0 demo_engine demo_newview = Done (e', Some WrongNewPrimary)
     \<and> handlePrePrepare demo_crypto3 demo_json None 0 e' (demo_pp 4) = Done (e', Some NotFromPrimary)"
proof -
  let ?p = "\<lparr>np_NewViewNumber = 1, np_ViewChangeProofs = [], np_PrePrepareMsgs = []\<rparr> :: NewViewPayload"
  have u: "unmarshal demo_json dec_newview (pm_Payload demo_newview) = Some ?p"
    by (simp add: demo_newview_def demo_json_ok)
  have g: "GetPrimary (UpdateView (pe_validators demo_engine) (np_NewViewNumber ?p)) = Done 1"
    by (simp add: GetPrimary_def go_rem_def Let_def UpdateView_def)
  have s: "pm_Sender demo_newview \<noteq> 1" "pm_View (demo_pp 4) = view_Number (pe_view demo_engine)"
    "pm_Sender (demo_pp 4) = view_Primary (pe_view demo_engine)" "view_Primary (pe_view demo_engine) \<noteq> 1"
    by (simp_all add: demo_newview_def demo_address_def)
  from refused_new_view_moves_primary [OF u g s, of 0 demo_crypto3 None 0] show ?thesis by auto
qed

text \<open>
  GetPendingTransactions hands out the high-priority transactions first and then the regular
  ones, in the order of submission and at most \<open>limit\<close> of them, and removes from the two pools
  exactly what it hands out; a negative limit panics.
\<close>

theorem get_pending_result:
  "GetPendingTransactions e limit =
    (if limit < 0 then Panic
     else let h = pe_highPriorityPool e; r = pe_requestPool e; k = nat limit in
       Done (e\<lparr>pe_highPriorityPool := drop k h, pe_requestPool := drop (k - length h) r\<rparr>,
             take k h @ take (k - length h) r))"
proof (cases "limit < 0")
  case False
  define k where "k = nat limit"
  have k: "limit = int k" using False by (simp add: k_def)
  have len: "min k (length h) = (if k \<le> length h then k else length h)" for h :: "tx list" by simp
  show ?thesis
    using False
    by (cases "k \<le> length (pe_highPriorityPool e)"; cases "pe_highPriorityPool e = []")
      (auto simp: GetPendingTransactions_def take_loop_take k Let_def nat_diff_distrib' min_def
        intro!: pbft.equality)
qed (simp add: GetPendingTransactions_def)

text \<open>
  The wired engine returns (or stops at a lock or a panic) after at most three nested calls of
  its own handler: more fuel gives the same result for every message.
\<close>

theorem wired_depth_three:
  "wired C J L now (3 + k) e msg = wired C J L now 3 e msg"
proof -
  have r: "msg_rank (pm_Type msg) \<le> 3" by (rule msg_rank_bounds)
  then have r': "msg_rank (pm_Type msg) \<le> 3 + k" by simp
  show ?thesis unfolding wired_fuel [OF r'] wired_fuel [OF r] ..
qed

end
