(* ===== verification/PBFT_Timers.thy ===== *)
theory PBFT_Timers
  imports PBFT
begin

text \<open>
  The running engine (consensus/pbft.go: the configuration, Start, Stop, mainLoop, the two timers and the
  setters): when the steps of theory PBFT are taken. A timer is a field of the state and its firing a step;
  instants are nanoseconds. The engine handles its own messages as cmd/v2v-node/start.go connects it, with
  the depth that \<open>wired_depth_three\<close> shows to be enough.
\<close>

section \<open>Configuration\<close>

record PBFTConfig =
  cf_ViewTimeout :: int
  cf_RequestTimeout :: int
  cf_CheckpointInterval :: u64
  cf_BlockInterval :: int
  cf_MaxTxPerBlock :: int

definition DefaultPBFTConfig :: PBFTConfig where
  "DefaultPBFTConfig = \<lparr>cf_ViewTimeout = 10 * 10 ^ 9, cf_RequestTimeout = 5 * 10 ^ 9, cf_CheckpointInterval = 100,
     cf_BlockInterval = 2 * 10 ^ 9, cf_MaxTxPerBlock = 100\<rparr>"

section \<open>The running engine\<close>

text \<open>
  \<open>rn_viewTimer\<close> is the instant at which the view-change timer fires, if it is armed; \<open>rn_blockTimer\<close> is
  whether the goroutine of the block timer exists. The commit and message handlers are always set.
\<close>

record 's running =
  rn_engine :: "'s pbft"
  rn_config :: PBFTConfig
  rn_viewTimer :: "int option"
  rn_blockTimer :: bool
  rn_cancelled :: bool

definition new_running ::
  "address \<Rightarrow> bytes \<Rightarrow> 's blockchain \<Rightarrow> address list \<Rightarrow> PBFTConfig option \<Rightarrow> 's running outcome" where
  "new_running addr privKey bc validators config =
     (let config = (case config of None \<Rightarrow> DefaultPBFTConfig | Some c \<Rightarrow> c) in
      obind (NewPBFTEngine addr privKey bc validators (cf_MaxTxPerBlock config)) (\<lambda>e.
        Done \<lparr>rn_engine = e, rn_config = config, rn_viewTimer = None, rn_blockTimer = False, rn_cancelled = False\<rparr>))"

definition SetBroadcastFunc :: "'s running \<Rightarrow> 's running" where
  "SetBroadcastFunc n = n\<lparr>rn_engine := (rn_engine n)\<lparr>pe_broadcastSet := True\<rparr>\<rparr>"

definition startBlockTimer :: "'s running \<Rightarrow> 's running" where
  "startBlockTimer n = n\<lparr>rn_blockTimer := True\<rparr>"

definition startViewChangeTimer :: "int \<Rightarrow> 's running \<Rightarrow> 's running" where
  "startViewChangeTimer now n = n\<lparr>rn_viewTimer := Some (now + cf_ViewTimeout (rn_config n))\<rparr>"

text \<open>Start runs mainLoop, which after the two timers only waits for the context.\<close>

definition mainLoop :: "int \<Rightarrow> 's running \<Rightarrow> 's running" where
  "mainLoop now n =
     (let n = (if pe_role (rn_engine n) = RolePrimary then startBlockTimer n else n)
      in startViewChangeTimer now n)"

definition engine_Start :: "int \<Rightarrow> 's running \<Rightarrow> 's running" where
  "engine_Start now n = mainLoop now n"

definition engine_Stop :: "'s running \<Rightarrow> 's running" where
  "engine_Stop n = n\<lparr>rn_cancelled := True, rn_blockTimer := False\<rparr>"

definition block_tick :: "crypto \<Rightarrow> json_lib \<Rightarrow> 's db \<Rightarrow> i64 \<Rightarrow> 's running \<Rightarrow> 's running outcome" where
  "block_tick C J L unix n =
     (if \<not> rn_blockTimer n \<or> rn_cancelled n then Done n
      else if pe_role (rn_engine n) = RolePrimary
      then obind (ProposeBlock C J L (Some (wired C J L unix 3)) unix (rn_engine n))
             (\<lambda>(e, _). Done (n\<lparr>rn_engine := e\<rparr>))
      else Done n)"

text \<open>The timer fires once; Stop does not stop it.\<close>

definition view_timer_fires ::
  "crypto \<Rightarrow> json_lib \<Rightarrow> 's db \<Rightarrow> int \<Rightarrow> i64 \<Rightarrow> 's running \<Rightarrow> 's running outcome" where
  "view_timer_fires C J L now unix n =
     (case rn_viewTimer n of
        None \<Rightarrow> Done n
      | Some d \<Rightarrow>
          if now < d then Done n
          else obind (initiateViewChange C J (Some (wired C J L unix 3)) unix (rn_engine n))
                 (\<lambda>e. Done (n\<lparr>rn_engine := e, rn_viewTimer := None\<rparr>)))"

text \<open>
  A message from the network. An accepted New-View starts the timer again; the engine's own New-View, which
  it handles while it still holds \<open>vcMu\<close>, is never accepted.
\<close>

definition receive_msg ::
  "crypto \<Rightarrow> json_lib \<Rightarrow> 's db \<Rightarrow> int \<Rightarrow> i64 \<Rightarrow> 's running \<Rightarrow> PBFTMessage \<Rightarrow> ('s running \<times> pbft_error option) outcome" where
  "receive_msg C J L now unix n msg =
     obind (wired C J L unix 3 (rn_engine n) msg) (\<lambda>(e, r).
       let n = n\<lparr>rn_engine := e\<rparr> in
       Done (if pm_Type msg = MsgNewView \<and> r = None then startViewChangeTimer now n else n, r))"

record engine_stats =
  st_view_changes :: u64
  st_blocks_committed :: u64
  st_current_view :: u64
  st_current_role :: string
  st_validators :: nat
  st_quorum :: nat

text \<open>Nothing in the program counts the view changes.\<close>

definition engine_GetStats :: "'s running \<Rightarrow> engine_stats" where
  "engine_GetStats n = (let e = rn_engine n in
     \<lparr>st_view_changes = 0, st_blocks_committed = pe_BlocksCommitted e, st_current_view = view_Number (pe_view e),
      st_current_role = NodeRole_String (pe_role e), st_validators = length (vs_Validators (pe_validators e)),
      st_quorum = Quorum (pe_validators e)\<rparr>)"

section \<open>What no handler touches\<close>

text \<open>
  The request pools and the identity of the engine change only in ProposeBlock and
  SubmitTransaction: no handler of a message and no view change touches them.
\<close>

definition same_pools :: "'s pbft \<Rightarrow> 's pbft \<Rightarrow> bool" where
  "same_pools e e' \<longleftrightarrow> pe_requestPool e' = pe_requestPool e \<and> pe_highPriorityPool e' = pe_highPriorityPool e
     \<and> pe_MaxTxPerBlock e' = pe_MaxTxPerBlock e \<and> pe_address e' = pe_address e \<and> pe_privateKey e' = pe_privateKey e"

lemma same_pools_refl [simp]: "same_pools e e"
  by (simp add: same_pools_def)

lemma same_pools_trans [trans]: "same_pools e e' \<Longrightarrow> same_pools e' e'' \<Longrightarrow> same_pools e e''"
  by (simp add: same_pools_def)

lemma same_pools_upd [simp]:
  "same_pools e (e'\<lparr>pe_sent := s\<rparr>) = same_pools e e'" "same_pools e (e'\<lparr>pe_viewChangeState := v\<rparr>) = same_pools e e'"
  "same_pools e (e'\<lparr>pe_view := w\<rparr>) = same_pools e e'" "same_pools e (e'\<lparr>pe_role := r\<rparr>) = same_pools e e'"
  "same_pools e (e'\<lparr>pe_validators := vs\<rparr>) = same_pools e e'" "same_pools e (e'\<lparr>pe_statesMu := l\<rparr>) = same_pools e e'"
  "same_pools e (e'\<lparr>pe_vcMu := b\<rparr>) = same_pools e e'" "same_pools e (e'\<lparr>pe_bc := bc\<rparr>) = same_pools e e'"
  "same_pools e (e'\<lparr>pe_toHandler := bl\<rparr>) = same_pools e e'" "same_pools e (e'\<lparr>pe_BlocksCommitted := c\<rparr>) = same_pools e e'"
  "same_pools e (put_state e' q cs) = same_pools e e'" "same_pools e (broadcastToNetwork J e' m) = same_pools e e'"
  "same_pools (e\<lparr>pe_statesMu := l\<rparr>) e' = same_pools e e'" "same_pools (e\<lparr>pe_vcMu := b\<rparr>) e' = same_pools e e'"
  "same_pools (put_state e q cs) e' = same_pools e e'" "same_pools (broadcastToNetwork J e m) e' = same_pools e e'"
  "same_pools (e\<lparr>pe_viewChangeState := v\<rparr>) e' = same_pools e e'" "same_pools (e\<lparr>pe_validators := vs\<rparr>) e' = same_pools e e'"
  by (simp_all add: same_pools_def put_state_def broadcastToNetwork_def)

lemma with_statesMu_pools:
  assumes "with_statesMu e f = Done (e', r)" and "\<And>e1 e2. f e1 = Done (e2, r) \<Longrightarrow> same_pools e1 e2"
  shows "same_pools e e'"
  using assms(1) by (rule with_statesMu_Done) (auto dest!: assms(2))

locale quiet_handler =
  fixes H :: "'s handler option"
  assumes quiet: "H = Some h \<Longrightarrow> h e m = Done (e', r) \<Longrightarrow> same_pools e e'"
begin

lemma sign_and_send_quiet: "sign_and_send C J H e msg = Done (e', r) \<Longrightarrow> same_pools e e'"
  by (auto simp: sign_and_send_def obind_eq_Done Let_def split: option.splits prod.splits dest!: quiet [rotated])

lemma handlePrePrepare_quiet: "handlePrePrepare C J H now e msg = Done (e', r) \<Longrightarrow> same_pools e e'"
  by (auto simp: handlePrePrepare_def obind_eq_Done Let_def broadcastPrepare_def split: option.splits if_splits
      dest!: sign_and_send_quiet with_statesMu_pools intro: same_pools_trans)

lemma handlePrepare_quiet: "handlePrepare C J H now e msg = Done (e', r) \<Longrightarrow> same_pools e e'"
  unfolding handlePrepare_def
  by (erule with_statesMu_pools) (auto simp: handlePrepare_body_def Let_def broadcastCommit_def
      dest!: sign_and_send_quiet split: option.splits if_splits)

lemma handleViewChange_quiet: "handleViewChange C J H now e msg = Done (e', r) \<Longrightarrow> same_pools e e'"
  by (auto simp: handleViewChange_def obind_eq_Done Let_def broadcastNewView_def
      dest!: sign_and_send_quiet split: option.splits if_splits)

lemma handleNewView_quiet: "handleNewView J now e msg = Done (e', r) \<Longrightarrow> same_pools e e'"
  by (auto simp: handleNewView_def obind_eq_Done Let_def split: option.splits if_splits)

lemma commitBlock_quiet: "commitBlock C J L e n = Done (e', r) \<Longrightarrow> same_pools e e'"
  by (auto simp: commitBlock_def obind_eq_Done Let_def split: option.splits)

lemma handleCommit_quiet: "handleCommit C J L e msg = Done (e', r) \<Longrightarrow> same_pools e e'"
  unfolding handleCommit_def
  by (erule with_statesMu_pools) (auto simp: handleCommit_body_def Let_def dest!: commitBlock_quiet
      split: option.splits if_splits)

lemma HandleMessage_quiet: "HandleMessage C J L H now e msg = Done (e', r) \<Longrightarrow> same_pools e e'"
  by (auto simp: HandleMessage_def split: option.splits if_splits dest: handlePrePrepare_quiet handlePrepare_quiet
      handleCommit_quiet handleViewChange_quiet handleNewView_quiet)

end

lemma wired_quiet: "quiet_handler (Some (wired C J L now n))"
proof (induction n)
  case (Suc n)
  show ?case
    by unfold_locales (auto dest: quiet_handler.HandleMessage_quiet [OF Suc])
qed (unfold_locales, auto)

interpretation own: quiet_handler "Some (wired C J L now n)" for C J L now n
  by (rule wired_quiet)

lemma initiateViewChange_quiet:
  "initiateViewChange C J (Some (wired C J L now n)) now' e = Done e' \<Longrightarrow> same_pools e e'"
  by (auto simp: initiateViewChange_def Let_def obind_eq_Done split: option.splits prod.splits
      dest!: own.quiet [OF refl])

lemma ProposeBlock_empty:
  assumes "pe_requestPool e = []" and "pe_highPriorityPool e = []" and "0 \<le> pe_MaxTxPerBlock e"
  shows "ProposeBlock C J L H now e
    = Done (e, Some (if pe_role e = RolePrimary then NoPendingTxs else OnlyPrimaryProposes))"
  using assms by (simp add: ProposeBlock_def get_pending_result not_less)

section \<open>Runs\<close>

inductive node_event :: "crypto \<Rightarrow> json_lib \<Rightarrow> 's db \<Rightarrow> 's running \<Rightarrow> 's running \<Rightarrow> bool"
  for C :: crypto and J :: json_lib and L :: "'s db" where
  tick: "block_tick C J L unix n = Done n' \<Longrightarrow> node_event C J L n n'"
| view_timer: "view_timer_fires C J L now unix n = Done n' \<Longrightarrow> node_event C J L n n'"
| message: "receive_msg C J L now unix n msg = Done (n', r) \<Longrightarrow> node_event C J L n n'"
| transaction: "pbft_SubmitTransaction (rn_engine n) tx hp = (e', r2) \<Longrightarrow> node_event C J L n (n\<lparr>rn_engine := e'\<rparr>)"
| shut_down: "node_event C J L n (engine_Stop n)"

inductive_cases node_eventE: "node_event C J L n n'"

lemma node_event_timer: "node_event C J L n n' \<Longrightarrow> rn_blockTimer n' \<longrightarrow> rn_blockTimer n"
  by (erule node_eventE) (auto simp: block_tick_def view_timer_fires_def receive_msg_def startViewChangeTimer_def engine_Stop_def
      obind_eq_Done Let_def split: if_splits option.splits)

lemma node_run_timer: "(node_event C J L)\<^sup>*\<^sup>* n n' \<Longrightarrow> rn_blockTimer n' \<longrightarrow> rn_blockTimer n"
  by (induction rule: rtranclp_induct) (auto dest: node_event_timer)

text \<open>The view timer is armed again by an accepted New-View only.\<close>

lemma node_event_view_timer:
  assumes "node_event C J L n n'" and "rn_viewTimer n = None" and "rn_viewTimer n' \<noteq> None"
  shows "\<exists>now unix msg. receive_msg C J L now unix n msg = Done (n', None) \<and> pm_Type msg = MsgNewView"
  using assms(1)
proof (rule node_eventE)
  fix now unix msg r
  assume r: "receive_msg C J L now unix n msg = Done (n', r)"
  then have "pm_Type msg = MsgNewView \<and> r = None"
    using assms(2,3) by (auto simp: receive_msg_def obind_eq_Done Let_def split: if_splits)
  with r show ?thesis by blast
qed (use assms(2,3) in \<open>auto simp: block_tick_def view_timer_fires_def obind_eq_Done engine_Stop_def split: if_splits option.splits\<close>)

section \<open>Properties\<close>

text \<open>
  C37. Only the primary of the start ever proposes: a node that is a replica when it starts has no block
  timer, so the timer's step does nothing in any later state, even after a New-View has made the node the
  primary and with transactions in its pool.
\<close>

theorem promoted_primary_never_proposes:
  assumes "pe_role (rn_engine n0) \<noteq> RolePrimary" and "rn_blockTimer n0 = False"
    and "(node_event C J L)\<^sup>*\<^sup>* (engine_Start now n0) n"
  shows "block_tick C J L unix n = Done n"
proof -
  have "\<not> rn_blockTimer (engine_Start now n0)"
    using assms(1,2) by (simp add: engine_Start_def mainLoop_def startViewChangeTimer_def Let_def)
  with node_run_timer [OF assms(3)] show ?thesis by (simp add: block_tick_def)
qed

text \<open>A replica that becomes the primary of view 1 by its own New-View.\<close>

definition demo_replica :: "(bytes \<rightharpoonup> bytes) running" where
  "demo_replica = (case new_running demo_address demo_key demo_bc [1, demo_address, 2, 3] None of Done n \<Rightarrow> n)"

definition demo_takeover :: PBFTMessage where
  "demo_takeover = \<lparr>pm_Type = MsgNewView, pm_View = 1, pm_SeqNumber = 0, pm_Sender = demo_address,
     pm_Payload = js_text demo_json (enc_newview \<lparr>np_NewViewNumber = 1,
       np_ViewChangeProofs = replicate 3 \<lparr>pr_View = 0, pr_SeqNumber = 0, pr_BlockHash = 0, pr_Signatures = []\<rparr>,
       np_PrePrepareMsgs = []\<rparr>),
     pm_Digest = 5, pm_Signature = demo_sig, pm_Timestamp = 0\<rparr>"

lemma demo_replica_simps [simp]:
  "pe_role (rn_engine demo_replica) = RoleReplica" "rn_blockTimer demo_replica = False"
  "pe_address (rn_engine demo_replica) = demo_address" "pe_vcMu (rn_engine demo_replica) = False"
  "pe_validators (rn_engine demo_replica) = \<lparr>vs_Validators = [1, demo_address, 2, 3], vs_PrimaryIdx = 0, vs_ViewNumber = 0\<rparr>"
  by (simp_all add: demo_replica_def new_running_def NewPBFTEngine_def Let_def vs_IsValidator_def demo_address_def)

lemma demo_takeover_verify: "PBFTMessage_Verify demo_crypto3 demo_json demo_takeover = None"
proof -
  have "sig_to_pub demo_crypto3 5 demo_sig = Some demo_key"
    by (simp add: demo_crypto3_def demo_crypto_def demo_sig_def demo_key_def)
  moreover have "pubkey_to_address demo_crypto3 demo_key = demo_address"
    using demo_key_address by (simp add: demo_crypto3_def demo_crypto_def)
  moreover have "keccak256 demo_crypto3 x = 5" for x by (simp add: demo_crypto3_def)
  ultimately show ?thesis
    by (simp add: PBFTMessage_Verify_def Hash_Equals_def CalculateDigest_def demo_takeover_def)
qed

lemma demo_takeover_accepted:
  "\<exists>n. receive_msg demo_crypto3 demo_json map_db 5 0 (engine_Start 0 demo_replica) demo_takeover = Done (n, None)
     \<and> pe_role (rn_engine n) = RolePrimary"
proof -
  have e: "rn_engine (engine_Start 0 demo_replica) = rn_engine demo_replica"
    by (simp add: engine_Start_def mainLoop_def startViewChangeTimer_def Let_def)
  have u: "unmarshal demo_json dec_newview (pm_Payload demo_takeover) = Some \<lparr>np_NewViewNumber = 1,
       np_ViewChangeProofs = replicate 3 \<lparr>pr_View = 0, pr_SeqNumber = 0, pr_BlockHash = 0, pr_Signatures = []\<rparr>,
       np_PrePrepareMsgs = []\<rparr>"
    by (simp add: demo_takeover_def demo_json_ok)
  have s: "pm_Sender demo_takeover = demo_address" "pm_Type demo_takeover = MsgNewView"
    by (simp_all add: demo_takeover_def)
  have v: "vs_IsValidator (pe_validators (rn_engine demo_replica)) demo_address" by (simp add: vs_IsValidator_def)
  have "wired demo_crypto3 demo_json map_db 0 3 (rn_engine demo_replica) demo_takeover
      = handleNewView demo_json 0 (rn_engine demo_replica) demo_takeover"
    unfolding numeral_3_eq_3 wired.simps HandleMessage_def demo_takeover_verify s option.case
    using v by (simp add: Msg_defs)
  moreover have "GetPrimary (UpdateView (pe_validators (rn_engine demo_replica)) 1) = Done demo_address"
    by (simp add: GetPrimary_def go_rem_def UpdateView_def Let_def)
  then have "\<exists>e'. handleNewView demo_json 0 (rn_engine demo_replica) demo_takeover = Done (e', None) \<and> pe_role e' = RolePrimary"
    unfolding handleNewView_def u option.case Let_def by (simp add: s Quorum_def UpdateView_def)
  ultimately have "\<exists>e'. wired demo_crypto3 demo_json map_db 0 3 (rn_engine demo_replica) demo_takeover = Done (e', None)
      \<and> pe_role e' = RolePrimary" by simp
  then show ?thesis by (auto simp: receive_msg_def e s Let_def startViewChangeTimer_def)
qed

theorem promoted_primary_never_proposes_witness:
  "\<exists>n. (node_event demo_crypto3 demo_json map_db)\<^sup>*\<^sup>* (engine_Start 0 demo_replica) n
    \<and> pe_role (rn_engine n) = RolePrimary \<and> pe_requestPool (rn_engine n) \<noteq> []
    \<and> block_tick demo_crypto3 demo_json map_db 0 n = Done n"
proof -
  obtain n where r: "receive_msg demo_crypto3 demo_json map_db 5 0 (engine_Start 0 demo_replica) demo_takeover = Done (n, None)"
    and p: "pe_role (rn_engine n) = RolePrimary" using demo_takeover_accepted by blast
  obtain e' b where t: "pbft_SubmitTransaction (rn_engine n) demo_tx False = (e', b)" by (meson surj_pair)
  let ?n = "n\<lparr>rn_engine := e'\<rparr>"
  have run: "(node_event demo_crypto3 demo_json map_db)\<^sup>*\<^sup>* (engine_Start 0 demo_replica) ?n"
    using node_event.message [OF r] node_event.transaction [OF t] by (meson r_into_rtranclp rtranclp.rtrancl_into_rtrancl)
  have "pe_role (rn_engine ?n) = RolePrimary" "pe_requestPool (rn_engine ?n) \<noteq> []"
    using t p by (auto simp: pbft_SubmitTransaction_def split: if_splits)
  with run promoted_primary_never_proposes [OF _ _ run, of 0] show ?thesis by auto
qed

text \<open>
  After its view-change timer has fired, a node starts no further view change unless it accepts a New-View:
  if that view change finds no quorum, the node waits for ever in its view.
\<close>

theorem view_change_not_repeated:
  assumes "view_timer_fires C J L now unix n = Done n1" and "rn_viewTimer n = Some d" and "d \<le> now"
    and "(\<lambda>a b. node_event C J L a b
       \<and> \<not> (\<exists>t u msg. receive_msg C J L t u a msg = Done (b, None) \<and> pm_Type msg = MsgNewView))\<^sup>*\<^sup>* n1 n2"
  shows "view_timer_fires C J L now' unix' n2 = Done n2"
proof -
  have "rn_viewTimer n1 = None"
    using assms(1-3) by (auto simp: view_timer_fires_def obind_eq_Done)
  with assms(4) have "rn_viewTimer n2 = None"
    by (induction rule: rtranclp_induct) (use node_event_view_timer in blast)+
  then show ?thesis by (simp add: view_timer_fires_def)
qed

lemma wired_outsider:
  "\<not> vs_IsValidator (pe_validators e) (pm_Sender m) \<Longrightarrow> \<exists>r. wired C J L unix 3 e m = Done (e, r)"
  by (auto simp: numeral_3_eq_3 HandleMessage_def split: option.split)

text \<open>A follower's view change, which nobody else joins.\<close>

definition demo_follower :: "(bytes \<rightharpoonup> bytes) running" where
  "demo_follower = engine_Start 0 \<lparr>rn_engine = demo_engine, rn_config = DefaultPBFTConfig, rn_viewTimer = None,
     rn_blockTimer = False, rn_cancelled = False\<rparr>"

theorem view_change_not_repeated_witness:
  "\<exists>n. view_timer_fires demo_crypto3 demo_json map_db (20 * 10 ^ 9) 20 demo_follower = Done n
    \<and> pe_viewChangeState (rn_engine n) \<noteq> None
    \<and> view_timer_fires demo_crypto3 demo_json map_db (90 * 10 ^ 9) 90 n = Done n"
proof -
  let ?H = "Some (wired demo_crypto3 demo_json map_db 20 3)"
  have d: "rn_engine demo_follower = demo_engine" "rn_viewTimer demo_follower = Some (10 * 10 ^ 9)"
    by (simp_all add: demo_follower_def engine_Start_def mainLoop_def startViewChangeTimer_def DefaultPBFTConfig_def Let_def)
  have a: "pe_address demo_engine = 8" by (simp add: demo_engine_def NewPBFTEngine_def Let_def)
  have out: "\<exists>r. wired demo_crypto3 demo_json map_db 20 3 (broadcastToNetwork demo_json demo_engine m) m
      = Done (broadcastToNetwork demo_json demo_engine m, r)" if "pm_Sender m = 8" for m
    using that by (intro wired_outsider) (simp add: broadcastToNetwork_def vs_IsValidator_def demo_address_def)
  have sender: "pm_Sender (fst (PBFTMessage_Sign C J m k)) = pm_Sender m" for C J m k
    by (simp add: PBFTMessage_Sign_def Let_def split: option.split)
  have signed: "\<exists>m'. PBFTMessage_Sign demo_crypto3 demo_json m (pe_privateKey demo_engine) = (m', None)" for m
    by (simp add: PBFTMessage_Sign_def Let_def demo_engine_def NewPBFTEngine_def demo_crypto3_def demo_crypto_def demo_key_def)
  have go: "\<exists>e'. (case PBFTMessage_Sign demo_crypto3 demo_json m (pe_privateKey demo_engine) of
        (m, Some err) \<Rightarrow> Done demo_engine
      | (m, None) \<Rightarrow> obind (wired demo_crypto3 demo_json map_db 20 3 (broadcastToNetwork demo_json demo_engine m) m)
          (\<lambda>(e, r). Done (e\<lparr>pe_viewChangeState := Some (AddViewChange (NewViewChangeState v) m)\<rparr>))) = Done e'
      \<and> pe_viewChangeState e' \<noteq> None" if "pm_Sender m = 8" for m v
  proof -
    obtain m' where m': "PBFTMessage_Sign demo_crypto3 demo_json m (pe_privateKey demo_engine) = (m', None)" using signed by blast
    with sender [of demo_crypto3 demo_json m "pe_privateKey demo_engine"] that have "pm_Sender m' = 8" by simp
    from out [OF this] m' show ?thesis by auto
  qed
  have "\<exists>e'. initiateViewChange demo_crypto3 demo_json ?H 20 demo_engine = Done e' \<and> pe_viewChangeState e' \<noteq> None"
    unfolding initiateViewChange_def option.case Let_def
    by (simp add: rw_RLock_def free_lock_def del: not_None_eq) (rule go, simp add: new_msg_def a)
  then obtain n where n: "view_timer_fires demo_crypto3 demo_json map_db (20 * 10 ^ 9) 20 demo_follower = Done n"
    "pe_viewChangeState (rn_engine n) \<noteq> None"
    by (auto simp: view_timer_fires_def d)
  from view_change_not_repeated [OF n(1) d(2) _ rtranclp.rtrancl_refl, of "90 * 10 ^ 9" 90] n show ?thesis by auto
qed

end
