(* ===== verification/Go_Heap.thy ===== *)
theory Go_Heap
  imports V2V_Prelude
begin

text \<open>
  Package container/heap as the transaction pool uses it: a binary heap in a slice, with the loops
  \<open>up\<close> and \<open>down\<close> of the package over an arbitrary \<open>Less\<close>. The locale states what the client must give
  (a strict weak order) and proves what it gets: Push and Pop keep the heap and its elements, and
  Pop returns an element that no other element precedes.
\<close>

definition swap :: "'a list \<Rightarrow> nat \<Rightarrow> nat \<Rightarrow> 'a list" where
  "swap xs i j = xs[i := xs ! j, j := xs ! i]"

text \<open>The parent of 0 is 0: Go's \<open>(0-1)/2\<close> is 0.\<close>

abbreviation parent :: "nat \<Rightarrow> nat" where
  "parent j \<equiv> (j - 1) div 2"

function heap_up :: "('a \<Rightarrow> 'a \<Rightarrow> bool) \<Rightarrow> 'a list \<Rightarrow> nat \<Rightarrow> 'a list" where
  "heap_up lt xs j =
     (let i = parent j in
      if i = j \<or> \<not> lt (xs ! j) (xs ! i) then xs else heap_up lt (swap xs i j) i)"
  by pat_completeness auto
termination by (relation "measure (\<lambda>(lt, xs, j). j)") auto

text \<open>The child of \<open>i\<close> that comes first, among those below \<open>n\<close>.\<close>

definition heap_child :: "('a \<Rightarrow> 'a \<Rightarrow> bool) \<Rightarrow> 'a list \<Rightarrow> nat \<Rightarrow> nat \<Rightarrow> nat" where
  "heap_child lt xs i n =
     (let j1 = 2 * i + 1; j2 = j1 + 1 in if j2 < n \<and> lt (xs ! j2) (xs ! j1) then j2 else j1)"

lemma heap_child_bounds: "i < heap_child lt xs i n" "\<not> n \<le> 2 * i + 1 \<Longrightarrow> heap_child lt xs i n < n"
  by (auto simp: heap_child_def Let_def)

function heap_down :: "('a \<Rightarrow> 'a \<Rightarrow> bool) \<Rightarrow> 'a list \<Rightarrow> nat \<Rightarrow> nat \<Rightarrow> 'a list" where
  "heap_down lt xs i n =
     (if n \<le> 2 * i + 1 then xs
      else let j = heap_child lt xs i n in
        if \<not> lt (xs ! j) (xs ! i) then xs else heap_down lt (swap xs i j) j n)"
  by pat_completeness auto
termination
  by (relation "measure (\<lambda>(lt, xs, i, n). n - i)") (use heap_child_bounds(1) in \<open>auto intro!: diff_less_mono2\<close>)

declare heap_up.simps [simp del] heap_down.simps [simp del]

definition heap_Push :: "('a \<Rightarrow> 'a \<Rightarrow> bool) \<Rightarrow> 'a list \<Rightarrow> 'a \<Rightarrow> 'a list" where
  "heap_Push lt xs x = heap_up lt (xs @ [x]) (length xs)"

text \<open>Pop on an empty heap panics in Go; the pool only pops when the length is positive.\<close>

definition heap_Pop :: "('a \<Rightarrow> 'a \<Rightarrow> bool) \<Rightarrow> 'a list \<Rightarrow> 'a list \<times> 'a" where
  "heap_Pop lt xs =
     (let n = length xs - 1; ys = heap_down lt (swap xs 0 n) 0 n in (butlast ys, last ys))"

section \<open>Elements\<close>

lemma length_swap [simp]: "length (swap xs i j) = length xs"
  by (simp add: swap_def)

lemma mset_swap_eq: "i < length xs \<Longrightarrow> j < length xs \<Longrightarrow> mset (swap xs i j) = mset xs"
  unfolding swap_def by (rule mset_swap)

lemma nth_swap:
  "i < length xs \<Longrightarrow> j < length xs \<Longrightarrow>
     swap xs i j ! k = (if k = j then xs ! i else if k = i then xs ! j else xs ! k)"
  by (auto simp: swap_def nth_list_update)

lemma heap_up_mset: "j < length xs \<Longrightarrow> mset (heap_up lt xs j) = mset xs"
proof (induction lt xs j rule: heap_up.induct)
  case (1 lt xs j)
  show ?case
  proof (cases "parent j = j \<or> \<not> lt (xs ! j) (xs ! parent j)")
    case True
    then show ?thesis by (subst heap_up.simps) (simp add: Let_def)
  next
    case False
    have "parent j < length xs" using 1(2) by simp
    with False 1 mset_swap_eq [of "parent j" xs j] show ?thesis
      by (subst heap_up.simps) (simp add: Let_def)
  qed
qed

lemma heap_down_props:
  "n \<le> length xs \<Longrightarrow> i < n \<Longrightarrow> mset (heap_down lt xs i n) = mset xs
     \<and> (\<forall>k. n \<le> k \<longrightarrow> heap_down lt xs i n ! k = xs ! k)"
proof (induction lt xs i n rule: heap_down.induct)
  case (1 lt xs i n)
  let ?j = "heap_child lt xs i n"
  show ?case
  proof (cases "n \<le> 2 * i + 1 \<or> \<not> lt (xs ! ?j) (xs ! i)")
    case True
    then have "heap_down lt xs i n = xs" by (subst heap_down.simps) (auto simp: Let_def)
    then show ?thesis by simp
  next
    case False
    have j: "?j < n" using False by (intro heap_child_bounds) simp
    have s: "heap_down lt xs i n = heap_down lt (swap xs i ?j) ?j n"
      using False by (subst heap_down.simps) (simp add: Let_def)
    have "mset (heap_down lt (swap xs i ?j) ?j n) = mset (swap xs i ?j)
        \<and> (\<forall>k. n \<le> k \<longrightarrow> heap_down lt (swap xs i ?j) ?j n ! k = swap xs i ?j ! k)"
      using 1(1) [OF _ refl] False 1(2) j by simp
    moreover have "i < length xs" "?j < length xs" using 1(2,3) j by simp_all
    ultimately show ?thesis using 1(2,3) j s by (simp add: mset_swap_eq nth_swap)
  qed
qed

lemma heap_Push_mset: "mset (heap_Push lt xs x) = add_mset x (mset xs)"
  by (simp add: heap_Push_def heap_up_mset)

lemma heap_Pop_mset:
  assumes "xs \<noteq> []" and "heap_Pop lt xs = (ys, x)"
  shows "mset xs = add_mset x (mset ys) \<and> x = xs ! 0"
proof -
  let ?n = "length xs - 1"
  let ?zs = "heap_down lt (swap xs 0 ?n) 0 ?n"
  have n: "?n < length xs" using assms(1) by (cases xs) auto
  have z: "mset ?zs = mset xs \<and> ?zs ! ?n = xs ! 0"
  proof (cases "?n = 0")
    case True
    then have "?zs = swap xs 0 0" by (subst heap_down.simps) simp
    then show ?thesis using True by (simp add: swap_def)
  next
    case False
    then have "mset ?zs = mset (swap xs 0 ?n) \<and> ?zs ! ?n = swap xs 0 ?n ! ?n"
      using heap_down_props [of ?n "swap xs 0 ?n" 0 lt] by simp
    moreover have "mset (swap xs 0 ?n) = mset xs" "swap xs 0 ?n ! ?n = xs ! 0"
      using n assms(1) by (simp_all add: mset_swap_eq nth_swap)
    ultimately show ?thesis by simp
  qed
  then have len: "length ?zs = length xs" by (metis size_mset)
  with assms(1) have ne: "?zs \<noteq> []" by auto
  then have "last ?zs = xs ! 0" using z len by (simp add: last_conv_nth)
  moreover have "?zs = butlast ?zs @ [last ?zs]" using ne by simp
  moreover from this have "mset ?zs = add_mset (last ?zs) (mset (butlast ?zs))"
    by (metis mset.simps(2) mset_append add_mset_add_single union_commute mset_single_iff_right
        add.commute mset.simps(1))
  moreover have "ys = butlast ?zs" "x = last ?zs" using assms(2) by (simp_all add: heap_Pop_def Let_def)
  ultimately show ?thesis using z by simp
qed

section \<open>Order\<close>

definition heap_pre :: "('a \<Rightarrow> 'a \<Rightarrow> bool) \<Rightarrow> 'a list \<Rightarrow> nat \<Rightarrow> bool" where
  "heap_pre lt xs n \<longleftrightarrow> (\<forall>k. 0 < k \<and> k < n \<longrightarrow> \<not> lt (xs ! k) (xs ! parent k))"

definition is_heap :: "('a \<Rightarrow> 'a \<Rightarrow> bool) \<Rightarrow> 'a list \<Rightarrow> bool" where
  "is_heap lt xs \<longleftrightarrow> heap_pre lt xs (length xs)"

lemma is_heap_Nil [simp]: "is_heap lt []"
  by (simp add: is_heap_def heap_pre_def)

lemma parent_less: "0 < k \<Longrightarrow> parent k < k"
  by simp

lemma parent_eq: "0 < k \<Longrightarrow> parent k = i \<longleftrightarrow> k = 2 * i + 1 \<or> k = 2 * i + 2"
  by auto

locale heap_order =
  fixes lt :: "'a \<Rightarrow> 'a \<Rightarrow> bool"
  assumes asym: "lt a b \<Longrightarrow> \<not> lt b a"
    and negtrans: "\<not> lt a b \<Longrightarrow> \<not> lt b c \<Longrightarrow> \<not> lt a c"
begin

lemma heap_root:
  "heap_pre lt xs n \<Longrightarrow> k < n \<Longrightarrow> \<not> lt (xs ! k) (xs ! 0)"
proof (induction k rule: less_induct)
  case (less k)
  show ?case
  proof (cases "k = 0")
    case True
    then show ?thesis using asym by blast
  next
    case False
    then have "parent k < k" by simp
    with less False have "\<not> lt (xs ! parent k) (xs ! 0)" by simp
    moreover have "\<not> lt (xs ! k) (xs ! parent k)" using less False by (simp add: heap_pre_def)
    ultimately show ?thesis using negtrans by blast
  qed
qed

definition up_ok :: "'a list \<Rightarrow> nat \<Rightarrow> nat \<Rightarrow> bool" where
  "up_ok xs n j \<longleftrightarrow> j < n
     \<and> (\<forall>k. 0 < k \<and> k < n \<and> k \<noteq> j \<longrightarrow> \<not> lt (xs ! k) (xs ! parent k))
     \<and> (\<forall>k. 0 < j \<and> 0 < k \<and> k < n \<and> parent k = j \<longrightarrow> \<not> lt (xs ! k) (xs ! parent j))"

lemma up_ok_step:
  assumes u: "up_ok xs n j" and n: "n = length xs" and j: "0 < j" and l: "lt (xs ! j) (xs ! parent j)"
  shows "up_ok (swap xs (parent j) j) n (parent j)"
proof -
  let ?p = "parent j" and ?ys = "swap xs (parent j) j"
  have p: "?p < j" "?p < length xs" "j < length xs" using parent_less [OF j] u n by (simp_all add: up_ok_def)
  have y: "?ys ! k = (if k = j then xs ! ?p else if k = ?p then xs ! j else xs ! k)" for k
    using p by (simp add: nth_swap)
  have pj: "\<not> lt (xs ! ?p) (xs ! j)" using asym l by blast
  have U: "\<not> lt (xs ! k) (xs ! parent k)" if "0 < k" "k < n" "k \<noteq> j" for k
    using u that by (simp add: up_ok_def)
  have "\<not> lt (?ys ! k) (?ys ! parent k)" if k: "0 < k" "k < n" "k \<noteq> ?p" for k
  proof -
    have kp: "parent k < k" using k by simp
    consider "k = j" | "k \<noteq> j" "parent k = j" | "k \<noteq> j" "parent k = ?p" | "k \<noteq> j" "parent k \<noteq> j" "parent k \<noteq> ?p" by blast
    then show ?thesis
    proof cases
      case 2
      then have "\<not> lt (xs ! k) (xs ! ?p)" using u j k by (simp add: up_ok_def)
      with 2 k y show ?thesis by simp
    next
      case 3
      then have "\<not> lt (xs ! k) (xs ! ?p)" using U k by metis
      then have "\<not> lt (xs ! k) (xs ! j)" using pj negtrans by blast
      with 3 k y p show ?thesis by simp
    qed (use pj y k U p in \<open>simp_all\<close>)
  qed
  moreover have "\<not> lt (?ys ! k) (?ys ! parent ?p)" if k: "0 < ?p" "0 < k" "k < n" "parent k = ?p" for k
  proof -
    have a: "\<not> lt (xs ! ?p) (xs ! parent ?p)" using U [of ?p] k p n by simp
    have pp: "?ys ! parent ?p = xs ! parent ?p" using y [of "parent ?p"] p k(1) parent_less [OF k(1)] by simp
    have "k \<noteq> ?p" using k parent_less [of k] by simp
    show ?thesis
    proof (cases "k = j")
      case True
      then show ?thesis using a pp y [of k] by simp
    next
      case False
      then have "\<not> lt (xs ! k) (xs ! ?p)" using U [of k] k by simp
      with a have "\<not> lt (xs ! k) (xs ! parent ?p)" using negtrans by blast
      with False pp y [of k] \<open>k \<noteq> ?p\<close> show ?thesis by simp
    qed
  qed
  ultimately show ?thesis using p n unfolding up_ok_def by blast
qed

lemma heap_up_heap: "up_ok xs n j \<Longrightarrow> n = length xs \<Longrightarrow> heap_pre lt (heap_up lt xs j) n"
proof (induction j arbitrary: xs rule: less_induct)
  case (less j)
  show ?case
  proof (cases "parent j = j \<or> \<not> lt (xs ! j) (xs ! parent j)")
    case True
    then have "heap_up lt xs j = xs" by (subst heap_up.simps) (simp add: Let_def)
    moreover have "heap_pre lt xs n" unfolding heap_pre_def
    proof (intro allI impI)
      fix k assume k: "0 < k \<and> k < n"
      show "\<not> lt (xs ! k) (xs ! parent k)"
      proof (cases "k = j")
        case t: True
        then have "parent j \<noteq> j" using k parent_less by (metis less_irrefl)
        with True t show ?thesis by simp
      qed (use less.prems k in \<open>simp add: up_ok_def\<close>)
    qed
    ultimately show ?thesis by simp
  next
    case False
    then have "0 < j" by (cases j) auto
    with False up_ok_step [OF less.prems] less.IH [of "parent j" "swap xs (parent j) j"] less.prems(2)
    have "heap_pre lt (heap_up lt (swap xs (parent j) j) (parent j)) n" by simp
    with False show ?thesis by (subst heap_up.simps) (simp add: Let_def)
  qed
qed

lemma Push_heap:
  assumes "is_heap lt xs"
  shows "is_heap lt (heap_Push lt xs x)"
proof -
  let ?ys = "xs @ [x]"
  have "up_ok ?ys (length ?ys) (length xs)"
  proof -
    have "\<not> lt (?ys ! k) (?ys ! parent k)" if "0 < k" "k < length xs" for k
      using that assms parent_less [OF that(1)] by (simp add: is_heap_def heap_pre_def nth_append)
    moreover have "parent k \<noteq> length xs" if "0 < k" "k < length ?ys" for k
      using that parent_less [OF that(1)] by simp
    ultimately show ?thesis unfolding up_ok_def
      by (intro conjI) (simp, auto simp: less_Suc_eq)
  qed
  from heap_up_heap [OF this refl] have "heap_pre lt (heap_Push lt xs x) (length ?ys)"
    by (simp add: heap_Push_def)
  moreover have "length (heap_Push lt xs x) = length ?ys"
    using heap_Push_mset [of lt xs x] by (metis length_append_singleton size_add_mset size_mset)
  ultimately show ?thesis by (simp add: is_heap_def)
qed

definition down_ok :: "'a list \<Rightarrow> nat \<Rightarrow> nat \<Rightarrow> bool" where
  "down_ok xs n i \<longleftrightarrow>
     (\<forall>k. 0 < k \<and> k < n \<and> parent k \<noteq> i \<longrightarrow> \<not> lt (xs ! k) (xs ! parent k))
     \<and> (\<forall>k. 0 < i \<and> 0 < k \<and> k < n \<and> parent k = i \<longrightarrow> \<not> lt (xs ! k) (xs ! parent i))"

lemma child_first:
  assumes "\<not> n \<le> 2 * i + 1" and "0 < k" and "k < n" and "parent k = i"
  shows "\<not> lt (xs ! k) (xs ! heap_child lt xs i n)"
proof -
  have "k = 2 * i + 1 \<or> k = 2 * i + 2" using assms(2,4) parent_eq by blast
  then show ?thesis using assms(3) asym by (auto simp: heap_child_def Let_def)
qed

lemma child_parent: "0 < heap_child lt xs i n \<and> parent (heap_child lt xs i n) = i"
  by (auto simp: heap_child_def Let_def)

lemma down_ok_step:
  assumes d: "down_ok xs n i" and n: "n \<le> length xs" and c: "\<not> n \<le> 2 * i + 1"
    and l: "lt (xs ! heap_child lt xs i n) (xs ! i)"
  shows "down_ok (swap xs i (heap_child lt xs i n)) n (heap_child lt xs i n)"
proof -
  let ?j = "heap_child lt xs i n" and ?ys = "swap xs i (heap_child lt xs i n)"
  have j: "i < ?j" "?j < n" "0 < ?j" "parent ?j = i"
    using heap_child_bounds c child_parent by simp_all
  have y: "?ys ! k = (if k = ?j then xs ! i else if k = i then xs ! ?j else xs ! k)" for k
    using j n by (simp add: nth_swap)
  have ij: "\<not> lt (xs ! i) (xs ! ?j)" using asym l by blast
  have D: "\<not> lt (xs ! k) (xs ! parent k)" if "0 < k" "k < n" "parent k \<noteq> i" for k
    using d that by (simp add: down_ok_def)
  have "\<not> lt (?ys ! k) (?ys ! parent k)" if k: "0 < k" "k < n" "parent k \<noteq> ?j" for k
  proof -
    have kp: "parent k < k" using k by simp
    consider "k = ?j" | "k \<noteq> ?j" "parent k = i" | "k \<noteq> ?j" "k = i" | "k \<noteq> ?j" "k \<noteq> i" "parent k \<noteq> i" by blast
    then show ?thesis
    proof cases
      case 1
      then show ?thesis using ij y [of k] y [of i] j by simp
    next
      case 2
      then have "k \<noteq> i" using kp by simp
      with 2 child_first [OF c k(1,2) 2(2)] y [of k] y [of i] j show ?thesis by simp
    next
      case 3
      have "\<not> lt (xs ! ?j) (xs ! parent i)" using d j 3 k by (simp add: down_ok_def)
      with 3 kp y [of k] y [of "parent k"] j show ?thesis by simp
    next
      case 4
      with D k y [of k] y [of "parent k"] show ?thesis by simp
    qed
  qed
  moreover have "\<not> lt (?ys ! k) (?ys ! parent ?j)" if k: "0 < k" "k < n" "parent k = ?j" for k
  proof -
    have "?j < k" using k parent_less [of k] by simp
    moreover have "\<not> lt (xs ! k) (xs ! ?j)" using D [of k] k j by simp
    ultimately show ?thesis using y [of k] y [of i] j by simp
  qed
  ultimately show ?thesis unfolding down_ok_def by blast
qed

lemma heap_down_heap:
  "down_ok xs n i \<Longrightarrow> n \<le> length xs \<Longrightarrow> heap_pre lt (heap_down lt xs i n) n"
proof (induction "n - i" arbitrary: xs i rule: less_induct)
  case less
  let ?j = "heap_child lt xs i n"
  show ?case
  proof (cases "n \<le> 2 * i + 1 \<or> \<not> lt (xs ! ?j) (xs ! i)")
    case True
    then have "heap_down lt xs i n = xs" by (subst heap_down.simps) (auto simp: Let_def)
    moreover have "heap_pre lt xs n" unfolding heap_pre_def
    proof (intro allI impI)
      fix k assume k: "0 < k \<and> k < n"
      show "\<not> lt (xs ! k) (xs ! parent k)"
      proof (cases "parent k = i")
        case t: True
        then have c: "\<not> n \<le> 2 * i + 1" using k parent_eq [of k i] by auto
        with True have "\<not> lt (xs ! ?j) (xs ! i)" by blast
        with child_first [OF c _ _ t] k t show ?thesis using negtrans by blast
      qed (use less.prems k in \<open>simp add: down_ok_def\<close>)
    qed
    ultimately show ?thesis by simp
  next
    case False
    then have c: "\<not> n \<le> 2 * i + 1" by blast
    then have "n - ?j < n - i" using heap_child_bounds [where i = i and lt = lt and xs = xs and n = n] by simp
    with False down_ok_step [OF less.prems c] less.hyps [of ?j "swap xs i ?j"] less.prems(2)
    have "heap_pre lt (heap_down lt (swap xs i ?j) ?j n) n" by simp
    with False show ?thesis by (subst heap_down.simps) (simp add: Let_def)
  qed
qed

lemma Pop_heap:
  assumes "is_heap lt xs" and "xs \<noteq> []" and "heap_Pop lt xs = (ys, x)"
  shows "is_heap lt ys \<and> (\<forall>y \<in> set xs. \<not> lt y x)"
proof -
  let ?n = "length xs - 1"
  let ?zs = "heap_down lt (swap xs 0 ?n) 0 ?n"
  have n: "?n < length xs" using assms(2) by (cases xs) auto
  have h: "\<not> lt (xs ! k) (xs ! parent k)" if "0 < k" "k < length xs" for k
    using assms(1) that by (simp add: is_heap_def heap_pre_def)
  have "down_ok (swap xs 0 ?n) ?n 0"
  proof -
    have "\<not> lt (swap xs 0 ?n ! k) (swap xs 0 ?n ! parent k)" if "0 < k" "k < ?n" "parent k \<noteq> 0" for k
    proof -
      have y: "swap xs 0 ?n ! i = xs ! i" if "0 < i" "i < ?n" for i
        using that n assms(2) by (simp add: nth_swap)
      have "parent k < ?n" using that parent_less [of k] by simp
      then show ?thesis using y [of k] y [of "parent k"] that h [of k] by simp
    qed
    then show ?thesis by (simp add: down_ok_def)
  qed
  then have hp: "heap_pre lt ?zs ?n" by (rule heap_down_heap) (use n in simp)
  have ys: "ys = butlast ?zs" using assms(3) by (simp add: heap_Pop_def Let_def)
  have len: "length ys = ?n"
    using heap_Pop_mset [OF assms(2,3)] n by (metis One_nat_def Suc_pred' diff_Suc_1 size_add_mset size_mset gr_implies_not0 neq0_conv)
  have "\<not> lt (ys ! k) (ys ! parent k)" if k: "0 < k" "k < length ys" for k
  proof -
    have "parent k < length ys" using k parent_less [of k] by simp
    then have "ys ! k = ?zs ! k" "ys ! parent k = ?zs ! parent k"
      using k unfolding ys by (simp_all only: nth_butlast)
    with hp k len show ?thesis by (simp add: heap_pre_def)
  qed
  then have "is_heap lt ys" by (simp add: is_heap_def heap_pre_def)
  moreover have "\<not> lt y x" if "y \<in> set xs" for y
  proof -
    from that obtain k where "k < length xs" "y = xs ! k" by (auto simp: in_set_conv_nth)
    with heap_root assms(1) heap_Pop_mset [OF assms(2,3)] show ?thesis by (simp add: is_heap_def)
  qed
  ultimately show ?thesis by blast
qed

end

end
