(* ===== verification/Tx_Pool.thy ===== *)
theory Tx_Pool
  imports Chain_Types Go_Heap
begin

text \<open>
  The transaction pool (txpool/pool.go): pending transactions by hash and by sender and nonce, and
  three priority heaps. Every method holds the pool's mutex around code that takes no other lock,
  so one call is one step; the background loop only calls \<open>cleanupExpired\<close>. Times are nanoseconds.
\<close>

section \<open>State\<close>

record txitem =
  it_Tx :: tx
  it_AddedAt :: int
  it_Priority :: int

record pool_config =
  pc_MaxSize :: int
  pc_MaxTxPerAccount :: int
  pc_PriceBump :: int
  pc_MaxTxLifetime :: int

definition DefaultTxPoolConfig :: pool_config where
  "DefaultTxPoolConfig = \<lparr>pc_MaxSize = 5000, pc_MaxTxPerAccount = 100, pc_PriceBump = 10,
     pc_MaxTxLifetime = 30 * 60 * 1000000000\<rparr>"

record txpool =
  tp_config :: pool_config
  tp_pending :: "(hash, txitem) fmap"
  tp_all :: "(address, (u64, txitem) fmap) fmap"
  tp_high :: "txitem list"
  tp_normal :: "txitem list"
  tp_low :: "txitem list"

datatype pool_error = ErrTxAlreadyExists | ErrTxPoolFull | ErrInvalidTx

definition item_Less :: "txitem \<Rightarrow> txitem \<Rightarrow> bool" where
  "item_Less a b =
     (if it_Priority a \<noteq> it_Priority b then it_Priority b < it_Priority a
      else it_AddedAt a < it_AddedAt b)"

interpretation pool_heap: heap_order item_Less
  by unfold_locales (auto simp: item_Less_def split: if_splits)

definition NewTxPool :: "pool_config \<Rightarrow> txpool" where
  "NewTxPool config = \<lparr>tp_config = config, tp_pending = fmempty, tp_all = fmempty,
     tp_high = [], tp_normal = [], tp_low = []\<rparr>"

section \<open>Operations\<close>

definition sender_txs :: "txpool \<Rightarrow> address \<Rightarrow> (u64, txitem) fmap" where
  "sender_txs p a = (case mget (tp_all p) a of None \<Rightarrow> fmempty | Some m \<Rightarrow> m)"

definition validateTx :: "crypto \<Rightarrow> txpool \<Rightarrow> tx \<Rightarrow> pool_error option" where
  "validateTx C p tx =
     (if \<not> Hash_Equals (Transaction_CalculateHash C tx) (tx_Hash tx) then Some ErrInvalidTx
      else if 0 < length (tx_Signature tx) \<and> \<not> Transaction_VerifySignature C tx then Some ErrInvalidTx
      else if pc_MaxTxPerAccount (tp_config p) \<le> int (mlen (sender_txs p (tx_From tx)))
        then Some ErrTxPoolFull
      else None)"

definition AddTx :: "crypto \<Rightarrow> int \<Rightarrow> txpool \<Rightarrow> tx \<Rightarrow> int \<Rightarrow> txpool \<times> pool_error option" where
  "AddTx C now p tx priority =
     (if mhas (tp_pending p) (tx_Hash tx) then (p, Some ErrTxAlreadyExists)
      else if pc_MaxSize (tp_config p) \<le> int (mlen (tp_pending p)) then (p, Some ErrTxPoolFull)
      else case validateTx C p tx of
        Some e \<Rightarrow> (p, Some e)
      | None \<Rightarrow>
          let item = \<lparr>it_Tx = tx, it_AddedAt = now, it_Priority = priority\<rparr>;
              p = p\<lparr>tp_pending := mput (tp_pending p) (tx_Hash tx) item,
                    tp_all := mput (tp_all p) (tx_From tx)
                                (mput (sender_txs p (tx_From tx)) (tx_Nonce tx) item)\<rparr>
          in (if 10 \<le> priority then p\<lparr>tp_high := heap_Push item_Less (tp_high p) item\<rparr>
              else if 5 \<le> priority then p\<lparr>tp_normal := heap_Push item_Less (tp_normal p) item\<rparr>
              else p\<lparr>tp_low := heap_Push item_Less (tp_low p) item\<rparr>, None))"

lemma heap_Pop_length:
  assumes "xs \<noteq> []" and "heap_Pop lt xs = (ys, x)"
  shows "length ys < length xs"
  using heap_Pop_mset [OF assms] by (metis lessI size_add_mset size_mset)

text \<open>One of the three loops of GetPending: pop while the queue is not empty and there is room.\<close>

function pop_loop ::
  "(hash, txitem) fmap \<Rightarrow> int \<Rightarrow> txitem list \<Rightarrow> tx list \<Rightarrow> txitem list \<times> tx list" where
  "pop_loop pending limit q txs =
     (if q \<noteq> [] \<and> int (length txs) < limit
      then let (q', item) = heap_Pop item_Less q in
        pop_loop pending limit q'
          (if mhas pending (tx_Hash (it_Tx item)) then txs @ [it_Tx item] else txs)
      else (q, txs))"
  by pat_completeness auto

termination
  by (relation "measure (\<lambda>(pending, limit, q, txs). length q)")
    (auto dest: heap_Pop_length [OF _ sym])

declare pop_loop.simps [simp del]

definition TxPool_GetPending :: "txpool \<Rightarrow> int \<Rightarrow> (txpool \<times> tx list) outcome" where
  "TxPool_GetPending p limit =
     (if limit < 0 then Panic
      else let (h, txs) = pop_loop (tp_pending p) limit (tp_high p) [];
               (n, txs) = pop_loop (tp_pending p) limit (tp_normal p) txs;
               (l, txs) = pop_loop (tp_pending p) limit (tp_low p) txs
           in Done (p\<lparr>tp_high := h, tp_normal := n, tp_low := l\<rparr>, txs))"

text \<open>Deleting a pending item and its entry in the sender's nonce map.\<close>

definition delete_item :: "txpool \<Rightarrow> hash \<Rightarrow> txitem \<Rightarrow> txpool" where
  "delete_item p h item =
     (let p = p\<lparr>tp_pending := mdel (tp_pending p) h\<rparr>; from = tx_From (it_Tx item) in
      case mget (tp_all p) from of
        None \<Rightarrow> p
      | Some senderTxs \<Rightarrow>
          let senderTxs = mdel senderTxs (tx_Nonce (it_Tx item)) in
          if mlen senderTxs = 0 then p\<lparr>tp_all := mdel (tp_all p) from\<rparr>
          else p\<lparr>tp_all := mput (tp_all p) from senderTxs\<rparr>)"

definition RemoveTx :: "txpool \<Rightarrow> hash \<Rightarrow> txpool" where
  "RemoveTx p h = (case mget (tp_pending p) h of None \<Rightarrow> p | Some item \<Rightarrow> delete_item p h item)"

definition HasTx :: "txpool \<Rightarrow> hash \<Rightarrow> bool" where
  "HasTx p h = mhas (tp_pending p) h"

definition Size :: "txpool \<Rightarrow> nat" where
  "Size p = mlen (tp_pending p)"

definition GetTx :: "txpool \<Rightarrow> hash \<Rightarrow> tx option" where
  "GetTx p h = map_option it_Tx (mget (tp_pending p) h)"

definition TxPool_GetStats :: "txpool \<Rightarrow> (string \<times> int) list" where
  "TxPool_GetStats p =
     [(''pending_count'', int (mlen (tp_pending p))), (''high_priority'', int (length (tp_high p))),
      (''normal_priority'', int (length (tp_normal p))), (''low_priority'', int (length (tp_low p))),
      (''unique_senders'', int (mlen (tp_all p))), (''max_size'', pc_MaxSize (tp_config p))]"

text \<open>The order in which Go visits the map does not matter here; hashes are visited in increasing order.\<close>

definition cleanup_one :: "int \<Rightarrow> hash \<Rightarrow> txpool \<Rightarrow> txpool" where
  "cleanup_one now h p =
     (case mget (tp_pending p) h of
        None \<Rightarrow> p
      | Some item \<Rightarrow>
          if pc_MaxTxLifetime (tp_config p) < go_time_sub now (it_AddedAt item)
          then delete_item p h item else p)"

definition cleanupExpired :: "int \<Rightarrow> txpool \<Rightarrow> txpool" where
  "cleanupExpired now p = fold (cleanup_one now) (sorted_list_of_fset (fmdom (tp_pending p))) p"

section \<open>The invariant\<close>

definition pool_tx_ok :: "crypto \<Rightarrow> tx \<Rightarrow> bool" where
  "pool_tx_ok C tx \<longleftrightarrow> Transaction_CalculateHash C tx = tx_Hash tx
     \<and> (tx_Signature tx = [] \<or> Transaction_VerifySignature C tx)"

definition pending_ok :: "crypto \<Rightarrow> txpool \<Rightarrow> bool" where
  "pending_ok C p \<longleftrightarrow> int (mlen (tp_pending p)) \<le> max 0 (pc_MaxSize (tp_config p))
     \<and> (\<forall>h it. mget (tp_pending p) h = Some it \<longrightarrow> tx_Hash (it_Tx it) = h \<and> pool_tx_ok C (it_Tx it))"

definition all_ok :: "txpool \<Rightarrow> bool" where
  "all_ok p \<longleftrightarrow> (\<forall>a m. mget (tp_all p) a = Some m \<longrightarrow>
     0 < mlen m \<and> int (mlen m) \<le> max 0 (pc_MaxTxPerAccount (tp_config p))
     \<and> (\<forall>n it. mget m n = Some it \<longrightarrow> tx_From (it_Tx it) = a \<and> tx_Nonce (it_Tx it) = n
          \<and> mget (tp_pending p) (tx_Hash (it_Tx it)) = Some it))"

definition queues_ok :: "txpool \<Rightarrow> bool" where
  "queues_ok p \<longleftrightarrow>
     is_heap item_Less (tp_high p) \<and> is_heap item_Less (tp_normal p) \<and> is_heap item_Less (tp_low p)
     \<and> (\<forall>it \<in> set (tp_high p). 10 \<le> it_Priority it)
     \<and> (\<forall>it \<in> set (tp_normal p). 5 \<le> it_Priority it \<and> it_Priority it < 10)
     \<and> (\<forall>it \<in> set (tp_low p). it_Priority it < 5)"

definition pool_inv :: "crypto \<Rightarrow> txpool \<Rightarrow> bool" where
  "pool_inv C p \<longleftrightarrow> pending_ok C p \<and> all_ok p \<and> queues_ok p"

lemma NewTxPool_inv: "pool_inv C (NewTxPool cfg)"
  by (simp add: pool_inv_def NewTxPool_def pending_ok_def all_ok_def queues_ok_def)

lemma heap_Push_set: "set (heap_Push lt q x) = insert x (set q)"
  using heap_Push_mset [of lt q x] by (metis set_mset_add_mset_insert set_mset_mset)

lemma AddTx_cases:
  assumes "AddTx C now p tx priority = (p', r)"
  obtains (refused) e where "r = Some e" "p' = p"
  | (added) item where "r = None" "item = \<lparr>it_Tx = tx, it_AddedAt = now, it_Priority = priority\<rparr>"
      "\<not> mhas (tp_pending p) (tx_Hash tx)" "int (mlen (tp_pending p)) < pc_MaxSize (tp_config p)"
      "pool_tx_ok C tx" "int (mlen (sender_txs p (tx_From tx))) < pc_MaxTxPerAccount (tp_config p)"
      "tp_config p' = tp_config p" "tp_pending p' = mput (tp_pending p) (tx_Hash tx) item"
      "tp_all p' = mput (tp_all p) (tx_From tx) (mput (sender_txs p (tx_From tx)) (tx_Nonce tx) item)"
      "tp_high p' = (if 10 \<le> priority then heap_Push item_Less (tp_high p) item else tp_high p)"
      "tp_normal p' = (if 5 \<le> priority \<and> priority < 10 then heap_Push item_Less (tp_normal p) item
                       else tp_normal p)"
      "tp_low p' = (if priority < 5 then heap_Push item_Less (tp_low p) item else tp_low p)"
proof (cases r)
  case (Some e)
  with assms have "p' = p" by (auto simp: AddTx_def Let_def split: if_splits option.splits)
  with Some refused show ?thesis by blast
next
  case None
  let ?item = "\<lparr>it_Tx = tx, it_AddedAt = now, it_Priority = priority\<rparr>"
  from None assms have n: "\<not> mhas (tp_pending p) (tx_Hash tx)"
    "int (mlen (tp_pending p)) < pc_MaxSize (tp_config p)" "validateTx C p tx = None"
    by (auto simp: AddTx_def split: if_splits option.splits)
  from n(3) have v: "pool_tx_ok C tx"
    "int (mlen (sender_txs p (tx_From tx))) < pc_MaxTxPerAccount (tp_config p)"
    by (auto simp: validateTx_def pool_tx_ok_def Hash_Equals_def split: if_splits)
  show ?thesis
    by (rule added [of ?item]) (use None assms n v in \<open>auto simp: AddTx_def Let_def\<close>)
qed

lemma AddTx_inv:
  assumes "pool_inv C p" and "AddTx C now p tx priority = (p', r)"
  shows "pool_inv C p'"
  using assms(2)
proof (cases rule: AddTx_cases)
  case refused
  with assms(1) show ?thesis by simp
next
  case (added item)
  have item: "it_Tx item = tx" "it_Priority item = priority" using added(2) by simp_all
  have inv: "pending_ok C p" "all_ok p" "queues_ok p" using assms(1) by (simp_all add: pool_inv_def)
  have "pending_ok C p'"
    using inv(1) added item by (auto simp: pending_ok_def mlen_put)
  moreover have "all_ok p'" unfolding all_ok_def
  proof (intro allI impI)
    fix a m assume m: "mget (tp_all p') a = Some m"
    have old: "mget (tp_pending p') (tx_Hash (it_Tx it)) = Some it"
      if "mget (tp_pending p) (tx_Hash (it_Tx it)) = Some it" for it
      using that added(3,8) by (auto simp: mhas_def)
    have s: "\<forall>n it. mget (sender_txs p a) n = Some it \<longrightarrow> tx_From (it_Tx it) = a
        \<and> tx_Nonce (it_Tx it) = n \<and> mget (tp_pending p) (tx_Hash (it_Tx it)) = Some it" for a
      using inv(2) by (auto simp: all_ok_def sender_txs_def split: option.split)
    show "0 < mlen m \<and> int (mlen m) \<le> max 0 (pc_MaxTxPerAccount (tp_config p'))
     \<and> (\<forall>n it. mget m n = Some it \<longrightarrow> tx_From (it_Tx it) = a \<and> tx_Nonce (it_Tx it) = n
          \<and> mget (tp_pending p') (tx_Hash (it_Tx it)) = Some it)"
    proof (cases "a = tx_From tx")
      case True
      then have "m = mput (sender_txs p a) (tx_Nonce tx) item" using m added(9) by simp
      moreover have "0 < mlen m" using \<open>m = _\<close> mlen_pos [of m "tx_Nonce tx"] by simp
      ultimately show ?thesis
        using True s [of a] old added(6,7,8) item by (auto simp: mlen_put split: if_splits)
    next
      case False
      then have "mget (tp_all p) a = Some m" using m added(9) by simp
      with inv(2) old added(7) show ?thesis by (auto simp: all_ok_def)
    qed
  qed
  moreover have "queues_ok p'"
    using inv(3) added item pool_heap.Push_heap by (auto simp: queues_ok_def heap_Push_set)
  ultimately show ?thesis by (simp add: pool_inv_def)
qed

lemma delete_item_fields [simp]:
  "tp_pending (delete_item p h item) = mdel (tp_pending p) h"
  "tp_config (delete_item p h item) = tp_config p" "tp_high (delete_item p h item) = tp_high p"
  "tp_normal (delete_item p h item) = tp_normal p" "tp_low (delete_item p h item) = tp_low p"
  by (simp_all add: delete_item_def Let_def split: option.split)

lemma delete_item_all:
  "mget (tp_all (delete_item p h item)) a =
     (if a = tx_From (it_Tx item)
      then Option.bind (mget (tp_all p) a) (\<lambda>m. let m = mdel m (tx_Nonce (it_Tx item)) in
             if mlen m = 0 then None else Some m)
      else mget (tp_all p) a)"
  by (auto simp: delete_item_def Let_def split: option.split)

lemma delete_item_inv:
  assumes "pool_inv C p" and "mget (tp_pending p) h = Some item"
  shows "pool_inv C (delete_item p h item)"
proof -
  have inv: "pending_ok C p" "all_ok p" "queues_ok p" using assms(1) by (simp_all add: pool_inv_def)
  have h: "tx_Hash (it_Tx item) = h" using inv(1) assms(2) by (simp add: pending_ok_def)
  have "pending_ok C (delete_item p h item)"
    using inv(1) by (auto simp: pending_ok_def mlen_del split: if_splits)
  moreover have "queues_ok (delete_item p h item)" using inv(3) by (simp add: queues_ok_def)
  moreover have "all_ok (delete_item p h item)" unfolding all_ok_def
  proof (intro allI impI)
    fix a m assume m: "mget (tp_all (delete_item p h item)) a = Some m"
    have "\<exists>m0. mget (tp_all p) a = Some m0 \<and> (0 < mlen m0 \<longrightarrow> 0 < mlen m) \<and> mlen m \<le> mlen m0
      \<and> (\<forall>n it. mget m n = Some it \<longrightarrow> mget m0 n = Some it
           \<and> \<not> (a = tx_From (it_Tx item) \<and> n = tx_Nonce (it_Tx item)))"
    proof (cases "a = tx_From (it_Tx item)")
      case True
      with m obtain m0 where "mget (tp_all p) a = Some m0" "m = mdel m0 (tx_Nonce (it_Tx item))"
        "0 < mlen m"
        by (auto simp: delete_item_all Let_def bind_eq_Some_conv split: if_splits)
      then show ?thesis by (intro exI [of _ m0]) (auto simp: mlen_del split: if_splits)
    qed (use m in \<open>simp add: delete_item_all\<close>)
    then obtain m0 where m0: "mget (tp_all p) a = Some m0" and pos: "0 < mlen m0 \<Longrightarrow> 0 < mlen m"
      and sub: "\<And>n it. mget m n = Some it \<Longrightarrow> mget m0 n = Some it
           \<and> \<not> (a = tx_From (it_Tx item) \<and> n = tx_Nonce (it_Tx item))"
      and len: "mlen m \<le> mlen m0" by metis
    have e: "tx_From (it_Tx it) = a \<and> tx_Nonce (it_Tx it) = n
        \<and> mget (tp_pending (delete_item p h item)) (tx_Hash (it_Tx it)) = Some it"
      if "mget m n = Some it" for n it
    proof -
      have o: "tx_From (it_Tx it) = a" "tx_Nonce (it_Tx it) = n"
        "mget (tp_pending p) (tx_Hash (it_Tx it)) = Some it"
        using inv(2) m0 sub [OF that] by (auto simp: all_ok_def)
      have "tx_Hash (it_Tx it) \<noteq> h" using o sub [OF that] assms(2) by auto
      with o show ?thesis by simp
    qed
    have "0 < mlen m0" "int (mlen m0) \<le> max 0 (pc_MaxTxPerAccount (tp_config p))"
      using inv(2) m0 by (auto simp: all_ok_def)
    with pos len e show "0 < mlen m
     \<and> int (mlen m) \<le> max 0 (pc_MaxTxPerAccount (tp_config (delete_item p h item)))
     \<and> (\<forall>n it. mget m n = Some it \<longrightarrow> tx_From (it_Tx it) = a \<and> tx_Nonce (it_Tx it) = n
          \<and> mget (tp_pending (delete_item p h item)) (tx_Hash (it_Tx it)) = Some it)" by simp
  qed
  ultimately show ?thesis by (simp add: pool_inv_def)
qed

lemma RemoveTx_inv: "pool_inv C p \<Longrightarrow> pool_inv C (RemoveTx p h)"
  by (simp add: RemoveTx_def delete_item_inv split: option.split)

lemma cleanup_one_inv: "pool_inv C p \<Longrightarrow> pool_inv C (cleanup_one now h p)"
  by (simp add: cleanup_one_def delete_item_inv split: option.split)

lemma cleanupExpired_inv: "pool_inv C p \<Longrightarrow> pool_inv C (cleanupExpired now p)"
proof -
  have "pool_inv C p \<Longrightarrow> pool_inv C (fold (cleanup_one now) hs p)" for hs
    by (induction hs arbitrary: p) (auto intro: cleanup_one_inv)
  then show "pool_inv C p \<Longrightarrow> pool_inv C (cleanupExpired now p)" by (simp add: cleanupExpired_def)
qed

section \<open>Popping\<close>

lemma pop_loop_spec:
  assumes "pop_loop pending limit q txs = (q', txs')" and "is_heap item_Less q"
  shows "\<exists>popped. mset q = mset popped + mset q'
    \<and> txs' = txs @ map it_Tx (filter (\<lambda>it. mhas pending (tx_Hash (it_Tx it))) popped)
    \<and> sorted_wrt (\<lambda>x y. \<not> item_Less y x) popped
    \<and> (\<forall>x \<in> set popped. \<forall>y \<in> set q'. \<not> item_Less y x)
    \<and> is_heap item_Less q' \<and> (q' = [] \<or> limit \<le> int (length txs'))
    \<and> (int (length txs) \<le> limit \<longrightarrow> int (length txs') \<le> limit)"
  using assms
proof (induction pending limit q txs arbitrary: q' txs' rule: pop_loop.induct)
  case (1 pending limit q txs)
  show ?case
  proof (cases "q \<noteq> [] \<and> int (length txs) < limit")
    case False
    with "1.prems" have "q' = q" "txs' = txs" by (subst (asm) pop_loop.simps; auto)+
    with False "1.prems"(2) show ?thesis by (intro exI [of _ "[]"]) auto
  next
    case True
    obtain q1 item where p: "heap_Pop item_Less q = (q1, item)" by (meson surj_pair)
    let ?txs = "if mhas pending (tx_Hash (it_Tx item)) then txs @ [it_Tx item] else txs"
    have r: "pop_loop pending limit q1 ?txs = (q', txs')"
      using "1.prems"(1) True p by (subst (asm) pop_loop.simps) simp
    have m: "mset q = add_mset item (mset q1)" using heap_Pop_mset [of q] p True by blast
    have h: "is_heap item_Less q1" "\<forall>y \<in> set q. \<not> item_Less y item"
      using pool_heap.Pop_heap [OF "1.prems"(2) _ p] True by blast+
    obtain popped where IH: "mset q1 = mset popped + mset q'"
      "txs' = ?txs @ map it_Tx (filter (\<lambda>it. mhas pending (tx_Hash (it_Tx it))) popped)"
      "sorted_wrt (\<lambda>x y. \<not> item_Less y x) popped"
      "\<forall>x \<in> set popped. \<forall>y \<in> set q'. \<not> item_Less y x"
      "is_heap item_Less q'" "q' = [] \<or> limit \<le> int (length txs')"
      "int (length ?txs) \<le> limit \<longrightarrow> int (length txs') \<le> limit"
      using "1.IH" [OF True p [symmetric] refl r h(1)] by blast
    have "set popped \<subseteq> set q" "set q' \<subseteq> set q"
      using m IH(1) by (metis mset_subset_eqD set_mset_mset subset_iff mset_subset_eq_add_left
          mset_subset_eq_add_right union_mset_add_mset_right add_mset_add_single union_assoc)+
    with h(2) m IH True show ?thesis
      by (intro exI [of _ "item # popped"]) auto
  qed
qed

lemma GetPending_cases:
  assumes "TxPool_GetPending p limit = Done (p', txs)" and "queues_ok p"
  obtains hs ns ls where "0 \<le> limit"
    and "mset (tp_high p) = mset hs + mset (tp_high p')"
    and "mset (tp_normal p) = mset ns + mset (tp_normal p')"
    and "mset (tp_low p) = mset ls + mset (tp_low p')"
    and "txs = map it_Tx (filter (\<lambda>it. mhas (tp_pending p) (tx_Hash (it_Tx it))) (hs @ ns @ ls))"
    and "sorted_wrt (\<lambda>x y. \<not> item_Less y x) hs" and "sorted_wrt (\<lambda>x y. \<not> item_Less y x) ns"
    and "sorted_wrt (\<lambda>x y. \<not> item_Less y x) ls"
    and "tp_high p' = [] \<and> tp_normal p' = [] \<and> tp_low p' = [] \<or> int (length txs) = limit"
    and "int (length txs) \<le> limit" and "queues_ok p'"
    and "tp_pending p' = tp_pending p" and "tp_all p' = tp_all p" and "tp_config p' = tp_config p"
proof -
  have l: "0 \<le> limit" using assms(1) by (auto simp: TxPool_GetPending_def split: if_splits)
  obtain h t1 where 1: "pop_loop (tp_pending p) limit (tp_high p) [] = (h, t1)" by (meson surj_pair)
  obtain n t2 where 2: "pop_loop (tp_pending p) limit (tp_normal p) t1 = (n, t2)" by (meson surj_pair)
  obtain w t3 where 3: "pop_loop (tp_pending p) limit (tp_low p) t2 = (w, t3)" by (meson surj_pair)
  have p': "p' = p\<lparr>tp_high := h, tp_normal := n, tp_low := w\<rparr>" "txs = t3"
    using assms(1) l 1 2 3 by (auto simp: TxPool_GetPending_def)
  have q: "is_heap item_Less (tp_high p)" "is_heap item_Less (tp_normal p)" "is_heap item_Less (tp_low p)"
    using assms(2) by (simp_all add: queues_ok_def)
  from pop_loop_spec [OF 1 q(1)] obtain hs where hs: "mset (tp_high p) = mset hs + mset h"
    "t1 = map it_Tx (filter (\<lambda>it. mhas (tp_pending p) (tx_Hash (it_Tx it))) hs)"
    "sorted_wrt (\<lambda>x y. \<not> item_Less y x) hs" "is_heap item_Less h"
    "h = [] \<or> limit \<le> int (length t1)" "int (length t1) \<le> limit" using l by auto
  from pop_loop_spec [OF 2 q(2)] obtain ns where ns: "mset (tp_normal p) = mset ns + mset n"
    "t2 = t1 @ map it_Tx (filter (\<lambda>it. mhas (tp_pending p) (tx_Hash (it_Tx it))) ns)"
    "sorted_wrt (\<lambda>x y. \<not> item_Less y x) ns" "is_heap item_Less n"
    "n = [] \<or> limit \<le> int (length t2)" "int (length t2) \<le> limit" using hs(6) by auto
  from pop_loop_spec [OF 3 q(3)] obtain ls where ls: "mset (tp_low p) = mset ls + mset w"
    "t3 = t2 @ map it_Tx (filter (\<lambda>it. mhas (tp_pending p) (tx_Hash (it_Tx it))) ls)"
    "sorted_wrt (\<lambda>x y. \<not> item_Less y x) ls" "is_heap item_Less w"
    "w = [] \<or> limit \<le> int (length t3)" "int (length t3) \<le> limit" using ns(6) by auto
  have sub: "set h \<subseteq> set (tp_high p)" "set n \<subseteq> set (tp_normal p)" "set w \<subseteq> set (tp_low p)"
    using hs(1) ns(1) ls(1) by (metis set_mset_mset set_mset_union Un_upper2)+
  have "queues_ok p'"
    using assms(2) sub hs(4) ns(4) ls(4) unfolding p' queues_ok_def by auto
  moreover have "length t1 \<le> length t2" "length t2 \<le> length t3" using ns(2) ls(2) by simp_all
  then have "h = [] \<and> n = [] \<and> w = [] \<or> int (length t3) = limit"
    using hs(5) ns(5) ls(5,6) by linarith
  ultimately show ?thesis
    using that [of hs ns ls] l hs ns ls p' by simp
qed

lemma GetPending_inv:
  assumes "pool_inv C p" and "TxPool_GetPending p limit = Done (p', txs)"
  shows "pool_inv C p'"
proof -
  have "queues_ok p" using assms(1) by (simp add: pool_inv_def)
  from assms(2) this show ?thesis
    by (rule GetPending_cases) (use assms(1) in \<open>simp add: pool_inv_def pending_ok_def all_ok_def\<close>)
qed

section \<open>Runs of the pool\<close>

inductive pool_step :: "crypto \<Rightarrow> txpool \<Rightarrow> txpool \<Rightarrow> bool" for C :: crypto where
  add: "AddTx C now p tx priority = (p', r) \<Longrightarrow> pool_step C p p'"
| get: "TxPool_GetPending p limit = Done (p', txs) \<Longrightarrow> pool_step C p p'"
| remove: "pool_step C p (RemoveTx p h)"
| cleanup: "pool_step C p (cleanupExpired now p)"

inductive_cases pool_stepE: "pool_step C p p'"

lemma pool_step_inv: "pool_step C p p' \<Longrightarrow> pool_inv C p \<Longrightarrow> pool_inv C p'"
  by (erule pool_stepE) (auto intro: AddTx_inv GetPending_inv RemoveTx_inv cleanupExpired_inv)

lemma pool_run_inv: "(pool_step C)\<^sup>*\<^sup>* p p' \<Longrightarrow> pool_inv C p \<Longrightarrow> pool_inv C p'"
  by (induction rule: rtranclp_induct) (auto intro: pool_step_inv)

definition queued :: "txpool \<Rightarrow> hash \<Rightarrow> bool" where
  "queued p h \<longleftrightarrow> h \<in> (\<lambda>it. tx_Hash (it_Tx it)) ` (set (tp_high p) \<union> set (tp_normal p) \<union> set (tp_low p))"

section \<open>Properties\<close>

text \<open>
  C5. In every state that the pool reaches from empty by adding, handing out, removing and expiring
  transactions: no more than MaxSize transactions are pending, each under its own valid hash and
  with a valid signature if signed; the nonce map of each sender is not empty, has at most
  MaxTxPerAccount entries and each entry is a pending transaction of that sender and nonce; the
  three queues are heaps and hold only items of their priority class.
\<close>

theorem pool_invariant:
  assumes "(pool_step C)\<^sup>*\<^sup>* (NewTxPool cfg) p"
  shows "pool_inv C p"
  using pool_run_inv [OF assms NewTxPool_inv] .

definition demo_pool_tx :: tx where
  "demo_pool_tx = demo_tx\<lparr>tx_Hash := Transaction_CalculateHash demo_crypto demo_tx\<rparr>"

definition demo_pool_cfg :: pool_config where
  "demo_pool_cfg = DefaultTxPoolConfig"

definition demo_pool1 :: txpool where
  "demo_pool1 = fst (AddTx demo_crypto 7 (NewTxPool demo_pool_cfg) demo_pool_tx 20)"

lemma demo_pool_add:
  "AddTx demo_crypto 7 (NewTxPool demo_pool_cfg) demo_pool_tx 20 = (demo_pool1, None)"
proof -
  have "Transaction_CalculateHash demo_crypto demo_pool_tx = tx_Hash demo_pool_tx"
    by (simp add: demo_pool_tx_def Transaction_CalculateHash_def Transaction_Serialize_def)
  then have "snd (AddTx demo_crypto 7 (NewTxPool demo_pool_cfg) demo_pool_tx 20) = None"
    by (simp add: AddTx_def NewTxPool_def validateTx_def Hash_Equals_def sender_txs_def Let_def
        demo_pool_cfg_def DefaultTxPoolConfig_def) (simp add: demo_pool_tx_def demo_tx_def)
  then show ?thesis by (simp add: demo_pool1_def prod_eq_iff)
qed

theorem pool_invariant_witness: "pool_inv demo_crypto demo_pool1"
  by (rule pool_invariant, rule r_into_rtranclp, rule pool_step.add, rule demo_pool_add)

text \<open>
  C19. GetPending hands out pending transactions in order of priority: from the high queue, then the
  normal, then the low one, and within a queue no item before one that Less puts first. It returns
  at most \<open>limit\<close> of them, and fewer only when all queues are empty; the pending set is unchanged.
\<close>

theorem get_pending_priority_order:
  assumes "pool_inv C p" and "TxPool_GetPending p limit = Done (p', txs)"
  shows "\<exists>hs ns ls. txs = map it_Tx (filter (\<lambda>it. HasTx p (tx_Hash (it_Tx it))) (hs @ ns @ ls))
    \<and> mset (tp_high p) = mset hs + mset (tp_high p')
    \<and> mset (tp_normal p) = mset ns + mset (tp_normal p')
    \<and> mset (tp_low p) = mset ls + mset (tp_low p')
    \<and> sorted_wrt (\<lambda>x y. \<not> item_Less y x) (hs @ ns @ ls)
    \<and> int (length txs) \<le> limit
    \<and> (int (length txs) = limit \<or> tp_high p' = [] \<and> tp_normal p' = [] \<and> tp_low p' = [])
    \<and> tp_pending p' = tp_pending p"
proof -
  have q: "queues_ok p" using assms(1) by (simp add: pool_inv_def)
  from assms(2) this show ?thesis
  proof (rule GetPending_cases)
    fix hs ns ls
    assume m: "mset (tp_high p) = mset hs + mset (tp_high p')"
      "mset (tp_normal p) = mset ns + mset (tp_normal p')" "mset (tp_low p) = mset ls + mset (tp_low p')"
      and s: "sorted_wrt (\<lambda>x y. \<not> item_Less y x) hs" "sorted_wrt (\<lambda>x y. \<not> item_Less y x) ns"
        "sorted_wrt (\<lambda>x y. \<not> item_Less y x) ls"
      and r: "txs = map it_Tx (filter (\<lambda>it. mhas (tp_pending p) (tx_Hash (it_Tx it))) (hs @ ns @ ls))"
        "tp_high p' = [] \<and> tp_normal p' = [] \<and> tp_low p' = [] \<or> int (length txs) = limit"
        "int (length txs) \<le> limit" "tp_pending p' = tp_pending p"
    have "set hs \<subseteq> set (tp_high p)" "set ns \<subseteq> set (tp_normal p)" "set ls \<subseteq> set (tp_low p)"
      using m by (metis set_mset_mset set_mset_union Un_upper1)+
    then have "\<forall>it \<in> set hs. 10 \<le> it_Priority it"
      "\<forall>it \<in> set ns. 5 \<le> it_Priority it \<and> it_Priority it < 10" "\<forall>it \<in> set ls. it_Priority it < 5"
      using q by (auto simp: queues_ok_def)
    then have "sorted_wrt (\<lambda>x y. \<not> item_Less y x) (hs @ ns @ ls)"
      using s by (fastforce simp: sorted_wrt_append item_Less_def)
    with m r show ?thesis by (auto simp: HasTx_def)
  qed
qed

definition demo_item :: txitem where
  "demo_item = \<lparr>it_Tx = demo_pool_tx, it_AddedAt = 7, it_Priority = 20\<rparr>"

lemma demo_pool1_fields:
  "tp_high demo_pool1 = [demo_item]" "tp_normal demo_pool1 = []" "tp_low demo_pool1 = []"
  "HasTx demo_pool1 (tx_Hash demo_pool_tx)"
proof -
  have p: "heap_Push item_Less [] x = [x]" for x
    by (simp add: heap_Push_def heap_up.simps Let_def)
  from demo_pool_add show "tp_high demo_pool1 = [demo_item]" "tp_normal demo_pool1 = []"
    "tp_low demo_pool1 = []" "HasTx demo_pool1 (tx_Hash demo_pool_tx)"
    by (cases rule: AddTx_cases; simp add: NewTxPool_def p demo_item_def HasTx_def)+
qed

lemma demo_pool_get:
  "TxPool_GetPending demo_pool1 5 = Done (demo_pool1\<lparr>tp_high := []\<rparr>, [demo_pool_tx])"
proof -
  have pop: "heap_Pop item_Less [x] = ([], x)" for x
    by (simp add: heap_Pop_def heap_down.simps swap_def)
  have h: "mhas (tp_pending demo_pool1) (tx_Hash demo_pool_tx)" using demo_pool1_fields(4) by (simp add: HasTx_def)
  have "pop_loop (tp_pending demo_pool1) 5 [demo_item] [] = ([], [demo_pool_tx])"
    by (subst pop_loop.simps, subst pop_loop.simps) (simp add: pop h demo_item_def)
  moreover have "pop_loop (tp_pending demo_pool1) 5 [] txs = ([], txs)" for txs
    by (subst pop_loop.simps) simp
  moreover have "demo_pool1\<lparr>tp_high := [], tp_normal := [], tp_low := []\<rparr> = demo_pool1\<lparr>tp_high := []\<rparr>"
    using demo_pool1_fields by (intro txpool.equality) simp_all
  ultimately show ?thesis by (simp add: TxPool_GetPending_def demo_pool1_fields)
qed

theorem get_pending_priority_order_witness:
  "TxPool_GetPending demo_pool1 5 = Done (demo_pool1\<lparr>tp_high := []\<rparr>, [demo_pool_tx])
   \<and> (\<exists>hs :: txitem list. [demo_pool_tx] = map it_Tx hs)"
proof -
  have "pool_inv demo_crypto demo_pool1"
    using AddTx_inv [OF NewTxPool_inv demo_pool_add] .
  from get_pending_priority_order [OF this demo_pool_get] obtain hs :: "txitem list" where
    "[demo_pool_tx] = map it_Tx (filter (\<lambda>it. HasTx demo_pool1 (tx_Hash (it_Tx it))) hs)"
    by (elim exE conjE) (rule that)
  with demo_pool_get show ?thesis by (intro conjI exI) assumption+
qed

text \<open>
  A pending transaction that is in no queue (as every one is that GetPending has handed out and
  that was queued once) is stuck while it stays pending: GetPending does not hand it out, AddTx
  refuses to add it again, and no call to either puts it back in a queue.
\<close>

theorem handed_out_stays_out:
  assumes "queues_ok p" and "HasTx p h" and "\<not> queued p h"
  shows "(\<forall>C now tx prio p' r. AddTx C now p tx prio = (p', r) \<longrightarrow>
       (tx_Hash tx = h \<longrightarrow> r = Some ErrTxAlreadyExists) \<and> HasTx p' h \<and> \<not> queued p' h)
    \<and> (\<forall>limit p' txs. TxPool_GetPending p limit = Done (p', txs) \<longrightarrow>
         h \<notin> tx_Hash ` set txs \<and> HasTx p' h \<and> \<not> queued p' h)"
proof (intro conjI allI impI)
  fix C now tx prio p' r
  assume a: "AddTx C now p tx prio = (p', r)"
  have x: "tx_Hash tx = h \<Longrightarrow> r = Some ErrTxAlreadyExists \<and> p' = p"
    using a assms(2) by (simp add: AddTx_def HasTx_def)
  then show "tx_Hash tx = h \<Longrightarrow> r = Some ErrTxAlreadyExists" by blast
  from a have "HasTx p' h \<and> \<not> queued p' h"
  proof (cases rule: AddTx_cases)
    case (added item)
    with x have "tx_Hash tx \<noteq> h" by auto
    with added assms show ?thesis by (auto simp: HasTx_def queued_def heap_Push_set)
  qed (use assms in simp)
  then show "HasTx p' h" and "\<not> queued p' h" by blast+
next
  fix limit p' txs
  assume g: "TxPool_GetPending p limit = Done (p', txs)"
  have "h \<notin> tx_Hash ` set txs \<and> HasTx p' h \<and> \<not> queued p' h"
    using g assms(1)
  proof (rule GetPending_cases)
    fix hs ns ls
    assume m: "mset (tp_high p) = mset hs + mset (tp_high p')"
      "mset (tp_normal p) = mset ns + mset (tp_normal p')" "mset (tp_low p) = mset ls + mset (tp_low p')"
      and r: "txs = map it_Tx (filter (\<lambda>it. mhas (tp_pending p) (tx_Hash (it_Tx it))) (hs @ ns @ ls))"
        "tp_pending p' = tp_pending p"
    have "set (tp_high p) = set hs \<union> set (tp_high p')" "set (tp_normal p) = set ns \<union> set (tp_normal p')"
      "set (tp_low p) = set ls \<union> set (tp_low p')"
      using m by (metis set_mset_mset set_mset_union)+
    with assms(2,3) r show ?thesis by (auto simp: queued_def HasTx_def)
  qed
  then show "h \<notin> tx_Hash ` set txs" "HasTx p' h" "\<not> queued p' h" by blast+
qed

theorem handed_out_stays_out_witness:
  "\<exists>p. TxPool_GetPending demo_pool1 5 = Done (p, [demo_pool_tx]) \<and> HasTx p (tx_Hash demo_pool_tx)
     \<and> snd (AddTx demo_crypto 8 p demo_pool_tx 20) = Some ErrTxAlreadyExists"
proof -
  let ?p = "demo_pool1\<lparr>tp_high := []\<rparr>"
  have q: "queues_ok ?p" by (simp add: queues_ok_def demo_pool1_fields)
  have h: "HasTx ?p (tx_Hash demo_pool_tx)" using demo_pool1_fields(4) by (simp add: HasTx_def)
  have n: "\<not> queued ?p (tx_Hash demo_pool_tx)" by (simp add: queued_def demo_pool1_fields)
  obtain p' r where a: "AddTx demo_crypto 8 ?p demo_pool_tx 20 = (p', r)" by (meson surj_pair)
  with handed_out_stays_out [OF q h n] have "r = Some ErrTxAlreadyExists" by blast
  with a h demo_pool_get show ?thesis by auto
qed

text \<open>
  The limit per account bounds nonces, not transactions: a valid transaction that reuses a nonce
  of its sender is accepted whenever the pool has room and the sender is below the limit, takes over
  the entry of the nonce map, and leaves the sender's count and all older transactions pending.
\<close>

theorem same_nonce_not_counted:
  assumes "\<not> HasTx p (tx_Hash tx)" and "int (Size p) < pc_MaxSize (tp_config p)" and "pool_tx_ok C tx"
    and "mget (tp_all p) (tx_From tx) = Some m" and "mhas m (tx_Nonce tx)"
    and "int (mlen m) < pc_MaxTxPerAccount (tp_config p)"
  shows "\<exists>p'. AddTx C now p tx prio = (p', None) \<and> Size p' = Suc (Size p)
    \<and> mlen (sender_txs p' (tx_From tx)) = mlen (sender_txs p (tx_From tx))
    \<and> (\<forall>h. HasTx p h \<longrightarrow> HasTx p' h)"
proof -
  have v: "validateTx C p tx = None"
    using assms(3,4,6) by (auto simp: validateTx_def pool_tx_ok_def Hash_Equals_def sender_txs_def)
  have "snd (AddTx C now p tx prio) = None"
    using assms(1,2) v by (simp add: AddTx_def HasTx_def Size_def Let_def)
  then obtain p' where a: "AddTx C now p tx prio = (p', None)" by (metis prod.collapse)
  then show ?thesis
  proof (cases rule: AddTx_cases)
    case (added item)
    with a assms(4,5) show ?thesis
      by (intro exI [of _ p']) (auto simp: Size_def HasTx_def mlen_put sender_txs_def)
  qed simp
qed

theorem same_nonce_not_counted_witness:
  "\<exists>p'. AddTx demo_crypto 8 demo_pool1 (demo_pool_tx\<lparr>tx_Data := [1, 2, 3], tx_Hash := 88\<rparr>) 1 = (p', None)
     \<and> Size p' = Suc (Size demo_pool1)"
proof -
  let ?t = "demo_pool_tx\<lparr>tx_Data := [1, 2, 3], tx_Hash := 88\<rparr>"
  have ok: "pool_tx_ok demo_crypto ?t"
    by (simp add: pool_tx_ok_def Transaction_CalculateHash_def demo_crypto_def demo_hash_def
        demo_pool_tx_def demo_tx_def)
  have h: "tx_Hash demo_pool_tx = 87"
    by (simp add: demo_pool_tx_def Transaction_CalculateHash_def demo_crypto_def demo_hash_def demo_tx_def)
  have f: "tp_config demo_pool1 = DefaultTxPoolConfig"
    "tp_pending demo_pool1 = mput fmempty 87 demo_item"
    "tp_all demo_pool1 = mput fmempty (tx_From ?t) (mput fmempty (tx_Nonce ?t) demo_item)"
    using demo_pool_add
    by (cases rule: AddTx_cases; simp add: NewTxPool_def demo_pool_cfg_def demo_item_def h sender_txs_def)+
  show ?thesis
    using same_nonce_not_counted [of demo_pool1 ?t demo_crypto "mput fmempty (tx_Nonce ?t) demo_item" 8 1] ok
    by (auto simp: HasTx_def Size_def f mlen_put DefaultTxPoolConfig_def)
qed

end
