(* ===== verification/KV_Iterator.thy ===== *)
theory KV_Iterator
  imports KV_Storage "HOL-Library.AList"
begin

text \<open>
  Opening the database and iterating over it (infra/storage/leveldb.go). leveldb.OpenFile and os.MkdirAll are
  parameters, and so are the entries that LevelDB lists for a prefix; \<open>iter_spec\<close> is what it documents: all
  entries whose key has the prefix, each once, in the order of the keys.
\<close>

section \<open>Opening and closing\<close>

record leveldb_options =
  op_BlockCacheCapacity :: int
  op_OpenFilesCacheCapacity :: int
  op_BloomFilterBits :: int
  op_Snappy :: bool

datatype open_error = CreateDirFailed | OpenFailed

definition MiB :: int where
  "MiB = 1048576"

definition NewLevelDBStorage ::
  "(string \<Rightarrow> bool) \<Rightarrow> (string \<Rightarrow> leveldb_options \<Rightarrow> 's option) \<Rightarrow> string \<Rightarrow> int \<Rightarrow> bool \<Rightarrow> open_error + 's" where
  "NewLevelDBStorage mkdirAll openFile path cacheSize compression =
     (if \<not> mkdirAll path then Inl CreateDirFailed
      else let options = \<lparr>op_BlockCacheCapacity = cacheSize * MiB, op_OpenFilesCacheCapacity = 64,
                          op_BloomFilterBits = 10, op_Snappy = True\<rparr>;
               options = (if \<not> compression then options\<lparr>op_Snappy := False\<rparr> else options)
        in (case openFile path options of None \<Rightarrow> Inl OpenFailed | Some db \<Rightarrow> Inr db))"

text \<open>Close of a storage without a handle does nothing.\<close>

definition Storage_Close :: "('s \<Rightarrow> ldb_error option) \<Rightarrow> 's option \<Rightarrow> ldb_error option" where
  "Storage_Close close db = (case db of Some s \<Rightarrow> close s | None \<Rightarrow> None)"

section \<open>Iterators\<close>

record levelDBIterator =
  it_rest :: "(bytes \<times> bytes) list"
  it_current :: "(bytes \<times> bytes) option"
  it_error :: "ldb_error option"

type_synonym 's entries = "'s \<Rightarrow> bytes \<Rightarrow> (bytes \<times> bytes) list \<times> ldb_error option"

definition NewIterator :: "'s entries \<Rightarrow> 's \<Rightarrow> bytes \<Rightarrow> levelDBIterator" where
  "NewIterator I s prefix = (case I s prefix of (es, e) \<Rightarrow> \<lparr>it_rest = es, it_current = None, it_error = e\<rparr>)"

definition it_Next :: "levelDBIterator \<Rightarrow> levelDBIterator \<times> bool" where
  "it_Next it = (case it_rest it of
     [] \<Rightarrow> (it\<lparr>it_current := None\<rparr>, False)
   | e # es \<Rightarrow> (it\<lparr>it_rest := es, it_current := Some e\<rparr>, True))"

definition it_Key :: "levelDBIterator \<Rightarrow> bytes" where
  "it_Key it = (case it_current it of None \<Rightarrow> [] | Some (k, v) \<Rightarrow> k)"

definition it_Value :: "levelDBIterator \<Rightarrow> bytes" where
  "it_Value it = (case it_current it of None \<Rightarrow> [] | Some (k, v) \<Rightarrow> v)"

text \<open>The loop \<open>for iter.Next() { body }\<close>.\<close>

function for_each :: "(levelDBIterator \<Rightarrow> 'a \<Rightarrow> 'a) \<Rightarrow> levelDBIterator \<Rightarrow> 'a \<Rightarrow> levelDBIterator \<times> 'a" where
  "for_each body it x =
     (case it_Next it of (it', found) \<Rightarrow> if found then for_each body it' (body it' x) else (it', x))"
  by pat_completeness auto

termination
  by (relation "measure (\<lambda>(body, it, x). length (it_rest it))") (auto simp: it_Next_def split: list.splits)

declare for_each.simps [simp del]

definition prefix_of :: "bytes \<Rightarrow> bytes \<Rightarrow> bool" where
  "prefix_of p k \<longleftrightarrow> take (length p) k = p"

definition iter_spec :: "'s entries \<Rightarrow> ('s \<Rightarrow> (bytes \<rightharpoonup> bytes)) \<Rightarrow> bool" where
  "iter_spec I contents \<longleftrightarrow> (\<forall>s p es e. I s p = (es, e) \<longrightarrow> e = None \<and> distinct (map fst es)
     \<and> (\<forall>k v. (k, v) \<in> set es \<longleftrightarrow> prefix_of p k \<and> contents s k = Some v))"

text \<open>The values a loop over the iterator sees.\<close>

definition iter_values :: "'s entries \<Rightarrow> 's \<Rightarrow> bytes \<Rightarrow> bytes list" where
  "iter_values I s p = map snd (fst (I s p))"

lemma for_each_rest:
  assumes "\<And>it k v x. it_current it = Some (k, v) \<Longrightarrow> body it x = f v x"
  shows "snd (for_each body it x) = fold f (map snd (it_rest it)) x"
proof (induction "it_rest it" arbitrary: it x)
  case Nil
  then show ?case by (subst for_each.simps) (simp add: it_Next_def)
next
  case (Cons e es)
  obtain k v where e: "e = (k, v)" by (cases e)
  let ?it = "it\<lparr>it_rest := es, it_current := Some e\<rparr>"
  have "snd (for_each body it x) = snd (for_each body ?it (body ?it x))"
    using Cons.hyps(2) [symmetric] by (subst for_each.simps) (simp add: it_Next_def)
  also have "\<dots> = fold f (map snd es) (f v x)"
    using Cons.hyps(1) [of ?it "body ?it x"] assms [of ?it k v x] by (simp add: e)
  finally show ?case using Cons.hyps(2) [symmetric] by (simp add: e)
qed

lemma for_each_values:
  assumes "\<And>it k v x. it_current it = Some (k, v) \<Longrightarrow> body it x = f v x"
  shows "snd (for_each body (NewIterator I s p) x) = fold f (iter_values I s p) x"
  using for_each_rest [of body f, OF assms] by (simp add: NewIterator_def iter_values_def split_beta)

lemma for_each_error: "it_error (fst (for_each body it x)) = it_error it"
proof (induction "it_rest it" arbitrary: it x)
  case Nil
  then show ?case by (subst for_each.simps) (simp add: it_Next_def)
next
  case (Cons e es)
  from Cons.hyps(1) [of "it\<lparr>it_rest := es, it_current := Some e\<rparr>"] Cons.hyps(2) [symmetric]
  show ?case by (subst for_each.simps) (simp add: it_Next_def)
qed

lemma iter_values_sound:
  "iter_spec I contents \<Longrightarrow> v \<in> set (iter_values I s p) \<Longrightarrow> \<exists>k. prefix_of p k \<and> contents s k = Some v"
  unfolding iter_spec_def iter_values_def by (cases "I s p") force

lemma iter_values_complete:
  "iter_spec I contents \<Longrightarrow> prefix_of p k \<Longrightarrow> contents s k = Some v \<Longrightarrow> v \<in> set (iter_values I s p)"
  unfolding iter_spec_def iter_values_def by (cases "I s p") force

section \<open>An instance for witnesses\<close>

text \<open>An association list, of which the newest entry of a key counts.\<close>

fun alist_op :: "(bytes \<times> bytes) list \<Rightarrow> batchOp \<Rightarrow> (bytes \<times> bytes) list" where
  "alist_op al (opPut k v) = AList.update k v al"
| "alist_op al (opDelete k) = AList.delete k al"

definition alist_db :: "(bytes \<times> bytes) list db" where
  "alist_db = \<lparr>db_Put = (\<lambda>al k v. (AList.update k v al, None)),
     db_Get = (\<lambda>al k. case map_of al k of None \<Rightarrow> Inl LdbNotFound | Some v \<Rightarrow> Inr v),
     db_Delete = (\<lambda>al k. (AList.delete k al, None)), db_Has = (\<lambda>al k. Inr (map_of al k \<noteq> None)),
     db_Write = (\<lambda>al ops. (foldl alist_op al ops, None))\<rparr>"

definition alist_entries :: "(bytes \<times> bytes) list entries" where
  "alist_entries al p = (filter (\<lambda>e. prefix_of p (fst e)) (AList.clearjunk al), None)"

lemma map_of_alist_op: "map_of (alist_op al x) = apply_op (map_of al) x"
  by (cases x) (simp_all add: update_conv' delete_conv')

lemma map_of_alist_ops: "map_of (foldl alist_op al ops) = foldl apply_op (map_of al) ops"
  by (induction ops arbitrary: al) (simp_all add: map_of_alist_op)

lemma alist_db_spec: "db_spec alist_db map_of"
  by (auto simp: db_spec_def alist_db_def update_conv' delete_conv' map_of_alist_ops split: option.splits)

lemma alist_entries_spec: "iter_spec alist_entries map_of"
  unfolding iter_spec_def
proof (intro allI impI conjI)
  fix al :: "(bytes \<times> bytes) list" and p es e
  assume "alist_entries al p = (es, e)"
  then have es: "es = filter (\<lambda>e. prefix_of p (fst e)) (AList.clearjunk al)" and "e = None"
    by (auto simp: alist_entries_def)
  then show "e = None" "distinct (map fst es)" by (simp_all add: distinct_clearjunk distinct_map_filter)
  show "(k, v) \<in> set es \<longleftrightarrow> prefix_of p k \<and> map_of al k = Some v" for k v
    unfolding es by (simp add: map_of_eq_Some_iff [OF distinct_clearjunk, symmetric] map_of_clearjunk conj_commute)
qed

end
