(* ===== verification/Platoon.thy ===== *)
theory Platoon
  imports Block_Storage KV_Iterator
begin

text \<open>
  Vehicle platoons (service/platoon/types.go and service.go): the platoon with its members and
  validators, and the service that creates, fills, empties and dissolves platoons and keeps them in
  memory and in the store. Platoon pointers are shared with the service's map, so an operation
  changes the platoon under its id even when it then reports an error. Random identifiers and the
  clock are arguments; events given to the registered handlers are collected in a list. The mutexes
  of the service protect single map accesses and cannot block a sequential caller.
\<close>

section \<open>Platoons\<close>

type_synonym PlatoonStatus = u8

definition PlatoonStatusInactive :: PlatoonStatus where "PlatoonStatusInactive = 0"
definition PlatoonStatusActive :: PlatoonStatus where "PlatoonStatusActive = 1"
definition PlatoonStatusForming :: PlatoonStatus where "PlatoonStatusForming = 2"
definition PlatoonStatusDissolving :: PlatoonStatus where "PlatoonStatusDissolving = 3"
definition PlatoonStatusDissolved :: PlatoonStatus where "PlatoonStatusDissolved = 4"
definition PlatoonStatusUnderStaffed :: PlatoonStatus where "PlatoonStatusUnderStaffed = 5"

lemmas status_defs = PlatoonStatusInactive_def PlatoonStatusActive_def PlatoonStatusForming_def
  PlatoonStatusDissolving_def PlatoonStatusDissolved_def PlatoonStatusUnderStaffed_def

definition PlatoonStatus_String :: "PlatoonStatus \<Rightarrow> string" where
  "PlatoonStatus_String s =
     (if s = PlatoonStatusInactive then ''inactive''
      else if s = PlatoonStatusActive then ''active''
      else if s = PlatoonStatusForming then ''forming''
      else if s = PlatoonStatusDissolving then ''dissolving''
      else if s = PlatoonStatusDissolved then ''dissolved''
      else if s = PlatoonStatusUnderStaffed then ''understaffed''
      else ''unknown'')"

type_synonym MemberRole = u8

definition RoleNone :: MemberRole where "RoleNone = 0"
definition RoleLeader :: MemberRole where "RoleLeader = 1"
definition RoleValidator :: MemberRole where "RoleValidator = 2"
definition RoleFollower :: MemberRole where "RoleFollower = 3"

lemmas role_defs = RoleNone_def RoleLeader_def RoleValidator_def RoleFollower_def

definition MemberRole_String :: "MemberRole \<Rightarrow> string" where
  "MemberRole_String r =
     (if r = RoleLeader then ''leader'' else if r = RoleValidator then ''validator''
      else if r = RoleFollower then ''follower'' else ''none'')"

record platoon_params =
  MaxVehicles :: int
  TargetSpeed :: float64
  SafeDistance :: float64
  LaneID :: i64
  RouteID :: string
  EmergencyMode :: bool

definition DefaultPlatoonParams :: platoon_params where
  "DefaultPlatoonParams = \<lparr>MaxVehicles = 100, TargetSpeed = Fin 30, SafeDistance = Fin 20,
     LaneID = 0, RouteID = [], EmergencyMode = False\<rparr>"

datatype params_error = TooFewVehicles | TooManyVehicles | NegativeSpeed | DistanceTooSmall

definition PlatoonParams_Validate :: "platoon_params \<Rightarrow> params_error option" where
  "PlatoonParams_Validate p =
     (if MaxVehicles p < 4 then Some TooFewVehicles
      else if 100 < MaxVehicles p then Some TooManyVehicles
      else if fl_less (TargetSpeed p) (Fin 0) then Some NegativeSpeed
      else if fl_less (SafeDistance p) (Fin 5) then Some DistanceTooSmall
      else None)"

record platoon_member =
  VehicleID :: address
  Role :: MemberRole
  JoinedAt :: i64
  Position :: int
  MemberStatus :: string
  LastSeenAt :: i64

record platoon =
  pl_ID :: string
  pl_Name :: string
  pl_Status :: PlatoonStatus
  pl_Params :: platoon_params
  pl_LeaderID :: address
  pl_Members :: "platoon_member list"
  pl_Validators :: "address list"
  pl_CreatedAt :: i64
  pl_UpdatedAt :: i64
  pl_DissolvedAt :: i64
  pl_Blacklist :: "address list"
  pl_BlockHeight :: u64
  pl_LastActivityAt :: i64
  pl_TimeoutSecs :: i64

datatype platoon_error =
    ParamsErr params_error
  | AlreadyInPlatoon
  | Blacklisted
  | PlatoonFull
  | MemberNotFound
  | AlreadyValidator
  | PlatoonValidatorNotFound
  | PlatoonNotFound
  | NotAccepting
  | RequestNotFound
  | AlreadyProcessed
  | OnlyLeader
  | NotAMember
  | NoReplacement
  | AlreadyDissolved
  | OnlyValidator
  | MarshalFailed
  | PlatoonStoreErr storage_error

definition NewPlatoon ::
  "i64 \<Rightarrow> string \<Rightarrow> address \<Rightarrow> platoon_params \<Rightarrow> platoon_error + platoon" where
  "NewPlatoon now pid leaderID params =
     (case PlatoonParams_Validate params of
        Some e \<Rightarrow> Inl (ParamsErr e)
      | None \<Rightarrow> Inr \<lparr>pl_ID = pid, pl_Name = [], pl_Status = PlatoonStatusForming,
          pl_Params = params, pl_LeaderID = leaderID, pl_Members = [], pl_Validators = [],
          pl_CreatedAt = now, pl_UpdatedAt = now, pl_DissolvedAt = 0, pl_Blacklist = [],
          pl_BlockHeight = 0, pl_LastActivityAt = now, pl_TimeoutSecs = 300\<rparr>)"

definition IsActive :: "platoon \<Rightarrow> bool" where
  "IsActive p \<longleftrightarrow> pl_Status p = PlatoonStatusActive \<or> pl_Status p = PlatoonStatusUnderStaffed"

definition IsDissolved :: "platoon \<Rightarrow> bool" where
  "IsDissolved p \<longleftrightarrow> pl_Status p = PlatoonStatusDissolved"

definition GetMember :: "platoon \<Rightarrow> address \<Rightarrow> platoon_member option" where
  "GetMember p vehicleID = find (\<lambda>m. VehicleID m = vehicleID) (pl_Members p)"

definition HasMember :: "platoon \<Rightarrow> address \<Rightarrow> bool" where
  "HasMember p vehicleID \<longleftrightarrow> GetMember p vehicleID \<noteq> None"

definition IsBlacklisted :: "platoon \<Rightarrow> address \<Rightarrow> bool" where
  "IsBlacklisted p vehicleID = list_ex (\<lambda>i. i = vehicleID) (pl_Blacklist p)"

definition AddMember ::
  "i64 \<Rightarrow> platoon \<Rightarrow> address \<Rightarrow> MemberRole \<Rightarrow> platoon \<times> platoon_error option" where
  "AddMember now p vehicleID role =
     (if HasMember p vehicleID then (p, Some AlreadyInPlatoon)
      else if IsBlacklisted p vehicleID then (p, Some Blacklisted)
      else if MaxVehicles (pl_Params p) \<le> int (length (pl_Members p)) then (p, Some PlatoonFull)
      else (p\<lparr>pl_Members := pl_Members p @ [\<lparr>VehicleID = vehicleID, Role = role, JoinedAt = now,
                Position = int (length (pl_Members p)), MemberStatus = ''active'',
                LastSeenAt = now\<rparr>],
              pl_UpdatedAt := now, pl_LastActivityAt := now\<rparr>, None))"

definition RemoveMember ::
  "i64 \<Rightarrow> platoon \<Rightarrow> address \<Rightarrow> platoon \<times> platoon_error option" where
  "RemoveMember now p vehicleID =
     (case find_index vehicleID (map VehicleID (pl_Members p)) 0 of
        None \<Rightarrow> (p, Some MemberNotFound)
      | Some i \<Rightarrow>
          (p\<lparr>pl_Members := map (\<lambda>(j, m). m\<lparr>Position := int j\<rparr>)
                (enumerate 0 (swap_remove i (pl_Members p))),
             pl_UpdatedAt := now\<rparr>, None))"

definition GetValidatorCount :: "platoon \<Rightarrow> nat" where
  "GetValidatorCount p = length (pl_Validators p)"

definition platoon_IsValidator :: "platoon \<Rightarrow> address \<Rightarrow> bool" where
  "platoon_IsValidator p vehicleID = list_ex (\<lambda>v. v = vehicleID) (pl_Validators p)"

definition set_role :: "platoon \<Rightarrow> address \<Rightarrow> MemberRole \<Rightarrow> platoon" where
  "set_role p vehicleID role =
     p\<lparr>pl_Members := upd_first (\<lambda>m. VehicleID m = vehicleID) (\<lambda>m. m\<lparr>Role := role\<rparr>) (pl_Members p)\<rparr>"

definition platoon_AddValidator :: "platoon \<Rightarrow> address \<Rightarrow> platoon \<times> platoon_error option" where
  "platoon_AddValidator p vehicleID =
     (if platoon_IsValidator p vehicleID then (p, Some AlreadyValidator)
      else (set_role (p\<lparr>pl_Validators := pl_Validators p @ [vehicleID]\<rparr>) vehicleID RoleValidator, None))"

definition platoon_RemoveValidator :: "platoon \<Rightarrow> address \<Rightarrow> platoon \<times> platoon_error option" where
  "platoon_RemoveValidator p vehicleID =
     (case find_index vehicleID (pl_Validators p) 0 of
        None \<Rightarrow> (p, Some PlatoonValidatorNotFound)
      | Some i \<Rightarrow>
          (set_role (p\<lparr>pl_Validators := slice_remove i (pl_Validators p)\<rparr>) vehicleID RoleFollower,
           None))"

definition AddToBlacklist :: "platoon \<Rightarrow> address \<Rightarrow> platoon" where
  "AddToBlacklist p vehicleID =
     (if \<not> IsBlacklisted p vehicleID then p\<lparr>pl_Blacklist := pl_Blacklist p @ [vehicleID]\<rparr> else p)"

definition GetMemberCount :: "platoon \<Rightarrow> nat" where
  "GetMemberCount p = length (pl_Members p)"

definition CanFormConsensus :: "platoon \<Rightarrow> bool" where
  "CanFormConsensus p \<longleftrightarrow> 4 \<le> length (pl_Validators p)"

definition UpdateActivity :: "i64 \<Rightarrow> platoon \<Rightarrow> platoon" where
  "UpdateActivity now p = p\<lparr>pl_LastActivityAt := now\<rparr>"

definition IsTimedOut :: "i64 \<Rightarrow> platoon \<Rightarrow> bool" where
  "IsTimedOut now p \<longleftrightarrow> sint (pl_TimeoutSecs p) < sint (now - pl_LastActivityAt p)"

section \<open>JSON form\<close>

definition omit_empty :: "bool \<Rightarrow> string \<Rightarrow> json \<Rightarrow> (string \<times> json) list" where
  "omit_empty is_zero k j = (if is_zero then [] else [(k, j)])"

definition enc_params :: "platoon_params \<Rightarrow> json" where
  "enc_params p = JObj [(''max_vehicles'', JNum (MaxVehicles p)),
     (''target_speed'', JFloat (TargetSpeed p)), (''safe_distance'', JFloat (SafeDistance p)),
     (''lane_id'', enc_sint (LaneID p)), (''route_id'', JStr (RouteID p)),
     (''emergency_mode'', JBool (EmergencyMode p))]"

definition zero_params :: platoon_params where
  "zero_params = \<lparr>MaxVehicles = 0, TargetSpeed = Fin 0, SafeDistance = Fin 0, LaneID = 0,
     RouteID = [], EmergencyMode = False\<rparr>"

definition dec_params :: "platoon_params decoder" where
  "dec_params j = (if j = JNull then Some zero_params else if \<not> is_obj j then None else
     Option.bind (jget j ''max_vehicles'' dec_int 0) (\<lambda>n.
     Option.bind (jget j ''target_speed'' dec_float (Fin 0)) (\<lambda>v.
     Option.bind (jget j ''safe_distance'' dec_float (Fin 0)) (\<lambda>d.
     Option.bind (jget j ''lane_id'' dec_sint 0) (\<lambda>l.
     Option.bind (jget j ''route_id'' dec_string []) (\<lambda>r.
     Option.bind (jget j ''emergency_mode'' dec_bool False) (\<lambda>e.
       Some \<lparr>MaxVehicles = n, TargetSpeed = v, SafeDistance = d, LaneID = l, RouteID = r,
             EmergencyMode = e\<rparr>)))))))"

definition enc_member :: "platoon_member \<Rightarrow> json" where
  "enc_member m = JObj [(''vehicle_id'', enc_address (VehicleID m)), (''role'', enc_uint (Role m)),
     (''joined_at'', enc_sint (JoinedAt m)), (''position'', JNum (Position m)),
     (''status'', JStr (MemberStatus m)), (''last_seen_at'', enc_sint (LastSeenAt m))]"

definition dec_member :: "platoon_member decoder" where
  "dec_member j = (if \<not> is_obj j then None else
     Option.bind (jget j ''vehicle_id'' dec_address 0) (\<lambda>a.
     Option.bind (jget j ''role'' dec_uint 0) (\<lambda>r.
     Option.bind (jget j ''joined_at'' dec_sint 0) (\<lambda>t.
     Option.bind (jget j ''position'' dec_int 0) (\<lambda>n.
     Option.bind (jget j ''status'' dec_string []) (\<lambda>s.
     Option.bind (jget j ''last_seen_at'' dec_sint 0) (\<lambda>l.
       Some \<lparr>VehicleID = a, Role = r, JoinedAt = t, Position = n, MemberStatus = s,
             LastSeenAt = l\<rparr>)))))))"

definition enc_platoon :: "platoon \<Rightarrow> json" where
  "enc_platoon p = JObj (
     [(''id'', JStr (pl_ID p))] @ omit_empty (pl_Name p = []) ''name'' (JStr (pl_Name p))
     @ [(''status'', enc_uint (pl_Status p)), (''params'', enc_params (pl_Params p)),
        (''leader_id'', enc_address (pl_LeaderID p)),
        (''members'', enc_list enc_member (pl_Members p)),
        (''validators'', enc_list enc_address (pl_Validators p)),
        (''created_at'', enc_sint (pl_CreatedAt p)), (''updated_at'', enc_sint (pl_UpdatedAt p))]
     @ omit_empty (pl_DissolvedAt p = 0) ''dissolved_at'' (enc_sint (pl_DissolvedAt p))
     @ omit_empty (pl_Blacklist p = []) ''blacklist'' (enc_list enc_address (pl_Blacklist p))
     @ [(''block_height'', enc_uint (pl_BlockHeight p)),
        (''last_activity_at'', enc_sint (pl_LastActivityAt p)),
        (''timeout_secs'', enc_sint (pl_TimeoutSecs p))])"

definition zero_platoon :: platoon where
  "zero_platoon = \<lparr>pl_ID = [], pl_Name = [], pl_Status = 0, pl_Params = zero_params,
     pl_LeaderID = 0, pl_Members = [], pl_Validators = [], pl_CreatedAt = 0, pl_UpdatedAt = 0,
     pl_DissolvedAt = 0, pl_Blacklist = [], pl_BlockHeight = 0, pl_LastActivityAt = 0,
     pl_TimeoutSecs = 0\<rparr>"

text \<open>A null entry in the list of members would be a nil pointer; the model refuses such a text.\<close>

definition dec_platoon :: "platoon decoder" where
  "dec_platoon j = (if j = JNull then Some zero_platoon else if \<not> is_obj j then None else
     Option.bind (jget j ''id'' dec_string []) (\<lambda>i.
     Option.bind (jget j ''name'' dec_string []) (\<lambda>nm.
     Option.bind (jget j ''status'' dec_uint 0) (\<lambda>st.
     Option.bind (jget j ''params'' dec_params zero_params) (\<lambda>ps.
     Option.bind (jget j ''leader_id'' dec_address 0) (\<lambda>l.
     Option.bind (jget j ''members'' (dec_list dec_member) []) (\<lambda>ms.
     Option.bind (jget j ''validators'' (dec_list dec_address) []) (\<lambda>vs.
     Option.bind (jget j ''created_at'' dec_sint 0) (\<lambda>c.
     Option.bind (jget j ''updated_at'' dec_sint 0) (\<lambda>u.
     Option.bind (jget j ''dissolved_at'' dec_sint 0) (\<lambda>d.
     Option.bind (jget j ''blacklist'' (dec_list dec_address) []) (\<lambda>b.
     Option.bind (jget j ''block_height'' dec_uint 0) (\<lambda>h.
     Option.bind (jget j ''last_activity_at'' dec_sint 0) (\<lambda>a.
     Option.bind (jget j ''timeout_secs'' dec_sint 0) (\<lambda>t.
       Some \<lparr>pl_ID = i, pl_Name = nm, pl_Status = st, pl_Params = ps, pl_LeaderID = l,
             pl_Members = ms, pl_Validators = vs, pl_CreatedAt = c, pl_UpdatedAt = u,
             pl_DissolvedAt = d, pl_Blacklist = b, pl_BlockHeight = h, pl_LastActivityAt = a,
             pl_TimeoutSecs = t\<rparr>)))))))))))))))"

text \<open>Marshal refuses a float64 that is NaN or infinite.\<close>

fun fl_finite :: "float64 \<Rightarrow> bool" where
  "fl_finite (Fin _) = True"
| "fl_finite _ = False"

definition marshal_platoon :: "json_lib \<Rightarrow> platoon \<Rightarrow> bytes option" where
  "marshal_platoon J p =
     (if fl_finite (TargetSpeed (pl_Params p)) \<and> fl_finite (SafeDistance (pl_Params p))
      then Some (js_text J (enc_platoon p)) else None)"

lemma dec_enc_params [simp]:
  "\<bar>MaxVehicles p\<bar> \<le> 100 \<Longrightarrow> dec_params (enc_params p) = Some p"
  by (simp add: dec_params_def enc_params_def jget_def abs_le_iff)

lemma dec_enc_member [simp]:
  "0 \<le> Position m \<Longrightarrow> Position m \<le> 100 \<Longrightarrow> dec_member (enc_member m) = Some m"
  by (simp add: dec_member_def enc_member_def jget_def)

lemma dec_enc_platoon:
  assumes "\<bar>MaxVehicles (pl_Params p)\<bar> \<le> 100"
    and "\<And>m. m \<in> set (pl_Members p) \<Longrightarrow> 0 \<le> Position m \<and> Position m \<le> 100"
  shows "dec_platoon (enc_platoon p) = Some p"
proof -
  have "dec_list dec_member (enc_list enc_member (pl_Members p)) = Some (pl_Members p)"
    using assms(2) by (simp add: enc_list_def dec_all_map)
  with assms(1) show ?thesis
    by (cases p) (simp add: dec_platoon_def enc_platoon_def jget_def omit_empty_def)
qed

section \<open>The service\<close>

type_synonym JoinRequestStatus = u8

definition JoinStatusPending :: JoinRequestStatus where "JoinStatusPending = 0"
definition JoinStatusApproved :: JoinRequestStatus where "JoinStatusApproved = 1"
definition JoinStatusRejected :: JoinRequestStatus where "JoinStatusRejected = 2"
definition JoinStatusExpired :: JoinRequestStatus where "JoinStatusExpired = 3"

record join_request =
  jr_ID :: string
  jr_PlatoonID :: string
  jr_VehicleID :: address
  jr_Destination :: string
  jr_RequestedAt :: i64
  jr_Status :: JoinRequestStatus
  jr_ProcessedAt :: i64
  jr_ProcessedBy :: address

datatype event_type = EventPlatoonCreated | EventPlatoonDissolved | EventMemberJoined
  | EventMemberLeft | EventLeaderChanged | EventValidatorAdded | EventValidatorRemoved
  | EventParamsUpdated | EventBlacklisted

record platoon_event =
  pv_Type :: event_type
  pv_PlatoonID :: string
  pv_VehicleID :: address
  pv_Timestamp :: i64
  pv_Data :: "(string \<times> string) list"

record history_entry =
  he_Timestamp :: i64
  he_Event :: event_type
  he_VehicleID :: address
  he_OldValue :: string
  he_NewValue :: string

record 's platoon_service =
  ps_storage :: 's
  ps_platoons :: "(string, platoon) fmap"
  ps_joinRequests :: "(string, join_request) fmap"
  ps_history :: "(string, history_entry list) fmap"
  ps_events :: "platoon_event list"

definition recordHistory :: "'s platoon_service \<Rightarrow> string \<Rightarrow> history_entry \<Rightarrow> 's platoon_service" where
  "recordHistory s platoonID entry = s\<lparr>ps_history := mput (ps_history s) platoonID
     ((case mget (ps_history s) platoonID of None \<Rightarrow> [] | Some h \<Rightarrow> h) @ [entry])\<rparr>"

definition emitEvent :: "'s platoon_service \<Rightarrow> platoon_event \<Rightarrow> 's platoon_service" where
  "emitEvent s event = s\<lparr>ps_events := ps_events s @ [event]\<rparr>"

definition put_platoon :: "'s platoon_service \<Rightarrow> string \<Rightarrow> platoon \<Rightarrow> 's platoon_service" where
  "put_platoon s pid p = s\<lparr>ps_platoons := mput (ps_platoons s) pid p\<rparr>"

definition platoonKey :: "string \<Rightarrow> bytes" where
  "platoonKey pid = PrefixPlatoon @ string_bytes pid"

definition storePlatoon ::
  "json_lib \<Rightarrow> 's db \<Rightarrow> 's platoon_service \<Rightarrow> platoon \<Rightarrow> 's platoon_service \<times> platoon_error option" where
  "storePlatoon J L s p =
     (case marshal_platoon J p of
        None \<Rightarrow> (s, Some MarshalFailed)
      | Some data \<Rightarrow>
          (case Storage_Put L (ps_storage s) (platoonKey (pl_ID p)) data of
             (st, e) \<Rightarrow> (s\<lparr>ps_storage := st\<rparr>, map_option PlatoonStoreErr e)))"

definition loadPlatoonFromStorage ::
  "json_lib \<Rightarrow> 's db \<Rightarrow> 's \<Rightarrow> string \<Rightarrow> platoon option" where
  "loadPlatoonFromStorage J L st pid =
     (case Storage_Get L st (platoonKey pid) of
        Inl _ \<Rightarrow> None | Inr data \<Rightarrow> unmarshal J dec_platoon data)"

definition GetPlatoon ::
  "json_lib \<Rightarrow> 's db \<Rightarrow> 's platoon_service \<Rightarrow> string \<Rightarrow> 's platoon_service \<times> platoon option" where
  "GetPlatoon J L s pid =
     (case mget (ps_platoons s) pid of
        Some p \<Rightarrow> (s, Some p)
      | None \<Rightarrow>
          (case loadPlatoonFromStorage J L (ps_storage s) pid of
             None \<Rightarrow> (s, None)
           | Some p \<Rightarrow> (put_platoon s pid p, Some p)))"

definition hist :: "i64 \<Rightarrow> event_type \<Rightarrow> address \<Rightarrow> string \<Rightarrow> string \<Rightarrow> history_entry" where
  "hist now ev a old new =
     \<lparr>he_Timestamp = now, he_Event = ev, he_VehicleID = a, he_OldValue = old, he_NewValue = new\<rparr>"

definition pevent :: "event_type \<Rightarrow> string \<Rightarrow> address \<Rightarrow> i64 \<Rightarrow> (string \<times> string) list \<Rightarrow> platoon_event" where
  "pevent ev pid a now d =
     \<lparr>pv_Type = ev, pv_PlatoonID = pid, pv_VehicleID = a, pv_Timestamp = now, pv_Data = d\<rparr>"

definition CreatePlatoon ::
  "json_lib \<Rightarrow> 's db \<Rightarrow> i64 \<Rightarrow> string \<Rightarrow> 's platoon_service \<Rightarrow> address \<Rightarrow> platoon_params \<Rightarrow> string
     \<Rightarrow> 's platoon_service \<times> (platoon_error + platoon)" where
  "CreatePlatoon J L now pid s leaderID params name =
     (case PlatoonParams_Validate params of
        Some e \<Rightarrow> (s, Inl (ParamsErr e))
      | None \<Rightarrow>
     (case NewPlatoon now pid leaderID params of
        Inl e \<Rightarrow> (s, Inl e)
      | Inr p \<Rightarrow>
     (case AddMember now (p\<lparr>pl_Name := name\<rparr>) leaderID RoleLeader of
        (p, Some e) \<Rightarrow> (s, Inl e)
      | (p, None) \<Rightarrow>
     (case platoon_AddValidator p leaderID of
        (p, Some e) \<Rightarrow> (s, Inl e)
      | (p, None) \<Rightarrow>
          let p = p\<lparr>pl_Status := (if GetMemberCount p < 4 then PlatoonStatusForming
                                  else PlatoonStatusActive)\<rparr>;
              s = put_platoon s pid p in
          (case storePlatoon J L s p of
             (s, Some e) \<Rightarrow> (s, Inl e)
           | (s, None) \<Rightarrow>
               let s = recordHistory s pid (hist now EventPlatoonCreated leaderID [] []);
                   s = emitEvent s (pevent EventPlatoonCreated pid leaderID now [])
               in (s, Inr p))))))"

definition SubmitJoinRequest ::
  "json_lib \<Rightarrow> 's db \<Rightarrow> i64 \<Rightarrow> string \<Rightarrow> 's platoon_service \<Rightarrow> string \<Rightarrow> address \<Rightarrow> string
     \<Rightarrow> 's platoon_service \<times> (platoon_error + join_request)" where
  "SubmitJoinRequest J L now rid s platoonID vehicleID destination =
     (case GetPlatoon J L s platoonID of
        (s, None) \<Rightarrow> (s, Inl PlatoonNotFound)
      | (s, Some p) \<Rightarrow>
          if \<not> IsActive p \<and> pl_Status p \<noteq> PlatoonStatusForming then (s, Inl NotAccepting)
          else if HasMember p vehicleID then (s, Inl AlreadyInPlatoon)
          else if IsBlacklisted p vehicleID then (s, Inl Blacklisted)
          else if MaxVehicles (pl_Params p) \<le> int (GetMemberCount p) then (s, Inl PlatoonFull)
          else let req = \<lparr>jr_ID = rid, jr_PlatoonID = platoonID, jr_VehicleID = vehicleID,
                 jr_Destination = destination, jr_RequestedAt = now,
                 jr_Status = JoinStatusPending, jr_ProcessedAt = 0, jr_ProcessedBy = 0\<rparr>
            in (s\<lparr>ps_joinRequests := mput (ps_joinRequests s) rid req\<rparr>, Inr req))"

definition put_request :: "'s platoon_service \<Rightarrow> string \<Rightarrow> join_request \<Rightarrow> 's platoon_service" where
  "put_request s rid r = s\<lparr>ps_joinRequests := mput (ps_joinRequests s) rid r\<rparr>"

definition ProcessJoinRequest ::
  "json_lib \<Rightarrow> 's db \<Rightarrow> i64 \<Rightarrow> 's platoon_service \<Rightarrow> string \<Rightarrow> bool \<Rightarrow> address
     \<Rightarrow> 's platoon_service \<times> platoon_error option" where
  "ProcessJoinRequest J L now s requestID approved processorID =
     (case mget (ps_joinRequests s) requestID of
        None \<Rightarrow> (s, Some RequestNotFound)
      | Some req \<Rightarrow>
          if jr_Status req \<noteq> JoinStatusPending then (s, Some AlreadyProcessed)
          else case GetPlatoon J L s (jr_PlatoonID req) of
            (s, None) \<Rightarrow> (s, Some PlatoonNotFound)
          | (s, Some p) \<Rightarrow>
              if pl_LeaderID p \<noteq> processorID then (s, Some OnlyLeader)
              else let req = req\<lparr>jr_ProcessedAt := now, jr_ProcessedBy := processorID\<rparr> in
                if approved
                then let s = put_request s requestID (req\<lparr>jr_Status := JoinStatusApproved\<rparr>);
                         role = (if GetValidatorCount p < 7 then RoleValidator else RoleFollower) in
                  (case AddMember now p (jr_VehicleID req) role of
                     (p, Some e) \<Rightarrow> (put_platoon s (jr_PlatoonID req) p, Some e)
                   | (p, None) \<Rightarrow>
                       let p = (if role = RoleValidator then fst (platoon_AddValidator p (jr_VehicleID req))
                                else p);
                           p = (if pl_Status p = PlatoonStatusForming \<and> CanFormConsensus p
                                then p\<lparr>pl_Status := PlatoonStatusActive\<rparr> else p);
                           s = put_platoon s (jr_PlatoonID req) p in
                       (case storePlatoon J L s p of
                          (s, Some e) \<Rightarrow> (s, Some e)
                        | (s, None) \<Rightarrow>
                            let s = recordHistory s (pl_ID p)
                                  (hist now EventMemberJoined (jr_VehicleID req) [] []);
                                s = emitEvent s
                                  (pevent EventMemberJoined (pl_ID p) (jr_VehicleID req) now [])
                            in (s, None)))
                else (put_request s requestID (req\<lparr>jr_Status := JoinStatusRejected\<rparr>), None))"

definition handleLeaderLeaving ::
  "i64 \<Rightarrow> 's platoon_service \<Rightarrow> platoon \<Rightarrow> 's platoon_service \<times> platoon \<times> platoon_error option" where
  "handleLeaderLeaving now s p =
     (case (if 1 < length (pl_Validators p)
            then find (\<lambda>v. v \<noteq> pl_LeaderID p) (pl_Validators p) else None) of
        None \<Rightarrow> (s, p, Some NoReplacement)
      | Some v \<Rightarrow>
          let oldLeader = pl_LeaderID p;
              p = p\<lparr>pl_LeaderID := v\<rparr>;
              p = set_role p oldLeader RoleValidator;
              p = set_role p v RoleLeader;
              s = recordHistory s (pl_ID p)
                (hist now EventLeaderChanged 0 (Address_String oldLeader) (Address_String v));
              s = emitEvent s (pevent EventLeaderChanged (pl_ID p) 0 now
                [(''old_leader'', Address_String oldLeader), (''new_leader'', Address_String v),
                 (''reason'', ''leader_left'')])
          in (s, p, None))"

definition DissolvePlatoon ::
  "json_lib \<Rightarrow> 's db \<Rightarrow> i64 \<Rightarrow> 's platoon_service \<Rightarrow> string \<Rightarrow> string
     \<Rightarrow> 's platoon_service \<times> platoon_error option" where
  "DissolvePlatoon J L now s platoonID reason =
     (case GetPlatoon J L s platoonID of
        (s, None) \<Rightarrow> (s, Some PlatoonNotFound)
      | (s, Some p) \<Rightarrow>
          if pl_Status p = PlatoonStatusDissolved then (s, Some AlreadyDissolved)
          else let p = p\<lparr>pl_Status := PlatoonStatusDissolved, pl_DissolvedAt := now,
                         pl_UpdatedAt := now\<rparr>;
                   s = put_platoon s platoonID p in
            (case storePlatoon J L s p of
               (s, Some e) \<Rightarrow> (s, Some e)
             | (s, None) \<Rightarrow>
                 let s = recordHistory s platoonID (hist now EventPlatoonDissolved 0 reason []);
                     s = emitEvent s (pevent EventPlatoonDissolved platoonID 0 now
                       [(''reason'', reason)])
                 in (s, None)))"

definition LeavePlatoon ::
  "json_lib \<Rightarrow> 's db \<Rightarrow> i64 \<Rightarrow> 's platoon_service \<Rightarrow> string \<Rightarrow> address
     \<Rightarrow> 's platoon_service \<times> platoon_error option" where
  "LeavePlatoon J L now s platoonID vehicleID =
     (case GetPlatoon J L s platoonID of
        (s, None) \<Rightarrow> (s, Some PlatoonNotFound)
      | (s, Some p) \<Rightarrow>
          if \<not> HasMember p vehicleID then (s, Some NotAMember)
          else case (if pl_LeaderID p = vehicleID then handleLeaderLeaving now s p
                     else (s, p, None)) of
            (s, p, Some e) \<Rightarrow> (put_platoon s platoonID p, Some e)
          | (s, p, None) \<Rightarrow>
              let p = (if platoon_IsValidator p vehicleID
                       then fst (platoon_RemoveValidator p vehicleID) else p) in
              (case RemoveMember now p vehicleID of
                 (p, Some e) \<Rightarrow> (put_platoon s platoonID p, Some e)
               | (p, None) \<Rightarrow>
                   let p = (if GetMemberCount p \<le> 3 \<and> pl_Status p = PlatoonStatusActive
                            then p\<lparr>pl_Status := PlatoonStatusUnderStaffed\<rparr> else p);
                       s = put_platoon s platoonID p in
                   if GetMemberCount p = 0 then DissolvePlatoon J L now s platoonID ''last_member_left''
                   else case storePlatoon J L s p of
                     (s, Some e) \<Rightarrow> (s, Some e)
                   | (s, None) \<Rightarrow>
                       let s = recordHistory s platoonID (hist now EventMemberLeft vehicleID [] []);
                           s = emitEvent s (pevent EventMemberLeft platoonID vehicleID now [])
                       in (s, None)))"

definition AppointValidator ::
  "json_lib \<Rightarrow> 's db \<Rightarrow> i64 \<Rightarrow> 's platoon_service \<Rightarrow> string \<Rightarrow> address \<Rightarrow> address
     \<Rightarrow> 's platoon_service \<times> platoon_error option" where
  "AppointValidator J L now s platoonID vehicleID appointerID =
     (case GetPlatoon J L s platoonID of
        (s, None) \<Rightarrow> (s, Some PlatoonNotFound)
      | (s, Some p) \<Rightarrow>
          if pl_LeaderID p \<noteq> appointerID then (s, Some OnlyLeader)
          else if \<not> HasMember p vehicleID then (s, Some NotAMember)
          else if platoon_IsValidator p vehicleID then (s, Some AlreadyValidator)
          else case platoon_AddValidator p vehicleID of
            (p, Some e) \<Rightarrow> (put_platoon s platoonID p, Some e)
          | (p, None) \<Rightarrow>
              (case storePlatoon J L (put_platoon s platoonID p) p of
                 (s, Some e) \<Rightarrow> (s, Some e)
               | (s, None) \<Rightarrow>
                   (recordHistory s platoonID (hist now EventValidatorAdded vehicleID [] []), None)))"

definition DemoteValidator ::
  "json_lib \<Rightarrow> 's db \<Rightarrow> i64 \<Rightarrow> 's platoon_service \<Rightarrow> string \<Rightarrow> address \<Rightarrow> address
     \<Rightarrow> 's platoon_service \<times> platoon_error option" where
  "DemoteValidator J L now s platoonID vehicleID demoterID =
     (case GetPlatoon J L s platoonID of
        (s, None) \<Rightarrow> (s, Some PlatoonNotFound)
      | (s, Some p) \<Rightarrow>
          if pl_LeaderID p \<noteq> demoterID then (s, Some OnlyLeader)
          else if GetValidatorCount p \<le> 1 then (s, Some OnlyValidator)
          else case platoon_RemoveValidator p vehicleID of
            (p, Some e) \<Rightarrow> (put_platoon s platoonID p, Some e)
          | (p, None) \<Rightarrow>
              (case storePlatoon J L (put_platoon s platoonID p) p of
                 (s, Some e) \<Rightarrow> (s, Some e)
               | (s, None) \<Rightarrow>
                   (recordHistory s platoonID (hist now EventValidatorRemoved vehicleID [] []), None)))"

text \<open>
  \<open>make\<close> panics for a negative capacity; for others the first \<open>count\<close> members are selected (the
  selection named random takes them in order).
\<close>

definition SelectValidatorsRandomly :: "platoon \<Rightarrow> int \<Rightarrow> address list outcome" where
  "SelectValidatorsRandomly p n =
     (let n = (if int (length (pl_Members p)) < n then int (length (pl_Members p)) else n);
          n = (if 7 < n then 7 else n) in
      if n < 0 then Panic
      else Done (map (\<lambda>(i, m). VehicleID m)
             (filter (\<lambda>(i, m). int i < n) (enumerate 0 (pl_Members p)))))"

text \<open>Go visits a map in no fixed order: the order of the ids is an argument.\<close>

definition GetAllPlatoons :: "string list \<Rightarrow> 's platoon_service \<Rightarrow> platoon list" where
  "GetAllPlatoons order s = List.map_filter (mget (ps_platoons s)) order"

definition GetActivePlatoons :: "string list \<Rightarrow> 's platoon_service \<Rightarrow> platoon list" where
  "GetActivePlatoons order s = filter IsActive (GetAllPlatoons order s)"

definition GetPlatoonHistory :: "'s platoon_service \<Rightarrow> string \<Rightarrow> history_entry list" where
  "GetPlatoonHistory s platoonID =
     (case mget (ps_history s) platoonID of None \<Rightarrow> [] | Some h \<Rightarrow> h)"

definition GetVehiclePlatoons :: "string list \<Rightarrow> 's platoon_service \<Rightarrow> address \<Rightarrow> platoon list" where
  "GetVehiclePlatoons order s vehicleID =
     filter (\<lambda>p. HasMember p vehicleID) (GetAllPlatoons order s)"

definition checkTimeouts ::
  "json_lib \<Rightarrow> 's db \<Rightarrow> i64 \<Rightarrow> string list \<Rightarrow> 's platoon_service \<Rightarrow> 's platoon_service" where
  "checkTimeouts J L now order s =
     fold (\<lambda>p s. if IsActive p \<and> IsTimedOut now p
                  then fst (DissolvePlatoon J L now s (pl_ID p) ''timeout'') else s)
       (GetAllPlatoons order s) s"

text \<open>
  NewService loads the platoons that the store lists; an error is only logged. Join requests, the history and the
  handlers of events start empty.
\<close>

definition loadPlatoons ::
  "json_lib \<Rightarrow> 's entries \<Rightarrow> 's platoon_service \<Rightarrow> 's platoon_service \<times> ldb_error option" where
  "loadPlatoons J I s =
     (case for_each (\<lambda>it m. case unmarshal J dec_platoon (it_Value it) of
                        None \<Rightarrow> m
                      | Some p \<Rightarrow> mput m (pl_ID p) p)
             (NewIterator I (ps_storage s) PrefixPlatoon) (ps_platoons s) of
        (it, m) \<Rightarrow> (s\<lparr>ps_platoons := m\<rparr>, it_error it))"

definition NewPlatoonService :: "json_lib \<Rightarrow> 's entries \<Rightarrow> 's \<Rightarrow> 's platoon_service" where
  "NewPlatoonService J I st =
     fst (loadPlatoons J I \<lparr>ps_storage = st, ps_platoons = fmempty, ps_joinRequests = fmempty,
                            ps_history = fmempty, ps_events = []\<rparr>)"

section \<open>Well-formed platoons\<close>

abbreviation ids :: "platoon \<Rightarrow> address list" where
  "ids p \<equiv> map VehicleID (pl_Members p)"

definition platoon_ok :: "platoon \<Rightarrow> bool" where
  "platoon_ok p \<longleftrightarrow>
     PlatoonParams_Validate (pl_Params p) = None
     \<and> distinct (ids p) \<and> int (length (pl_Members p)) \<le> MaxVehicles (pl_Params p)
     \<and> map Position (pl_Members p) = map int [0..<length (pl_Members p)]
     \<and> distinct (pl_Validators p) \<and> set (pl_Validators p) \<subseteq> set (ids p)
     \<and> pl_LeaderID p \<in> set (ids p)"

lemma HasMember_iff: "HasMember p v \<longleftrightarrow> v \<in> set (ids p)"
  by (auto simp: HasMember_def GetMember_def find_None_iff)

lemma platoon_IsValidator_iff: "platoon_IsValidator p v \<longleftrightarrow> v \<in> set (pl_Validators p)"
  by (auto simp: platoon_IsValidator_def list_ex_iff)

lemma set_role_fields [simp]:
  "ids (set_role p v r) = ids p" "map Position (pl_Members (set_role p v r)) = map Position (pl_Members p)"
  "length (pl_Members (set_role p v r)) = length (pl_Members p)"
  "pl_Validators (set_role p v r) = pl_Validators p" "pl_LeaderID (set_role p v r) = pl_LeaderID p"
  "pl_Params (set_role p v r) = pl_Params p" "pl_Status (set_role p v r) = pl_Status p"
  "pl_ID (set_role p v r) = pl_ID p" "pl_Blacklist (set_role p v r) = pl_Blacklist p"
  by (simp_all add: set_role_def map_upd_first)

lemma set_role_ok [simp]: "platoon_ok (set_role p v r) = platoon_ok p"
  by (simp add: platoon_ok_def)

lemma platoon_ok_bounds:
  assumes "platoon_ok p"
  shows "\<bar>MaxVehicles (pl_Params p)\<bar> \<le> 100" and "m \<in> set (pl_Members p) \<Longrightarrow> 0 \<le> Position m \<and> Position m \<le> 100"
proof -
  show b: "\<bar>MaxVehicles (pl_Params p)\<bar> \<le> 100"
    using assms by (auto simp: platoon_ok_def PlatoonParams_Validate_def split: if_splits)
  assume "m \<in> set (pl_Members p)"
  then have "Position m \<in> set (map int [0..<length (pl_Members p)])"
    using assms unfolding platoon_ok_def by (metis image_eqI set_map)
  moreover have "int (length (pl_Members p)) \<le> 100" using assms b by (simp add: platoon_ok_def)
  ultimately show "0 \<le> Position m \<and> Position m \<le> 100" by auto
qed

lemma platoon_ok_roundtrip: "platoon_ok p \<Longrightarrow> dec_platoon (enc_platoon p) = Some p"
  by (rule dec_enc_platoon) (auto dest: platoon_ok_bounds)

lemma AddMember_ok:
  assumes "AddMember now p v role = (p', None)" and "platoon_ok p"
  shows "platoon_ok p' \<and> v \<in> set (ids p') \<and> v \<notin> set (ids p) \<and> pl_Status p' = pl_Status p
    \<and> pl_ID p' = pl_ID p \<and> pl_Validators p' = pl_Validators p \<and> pl_LeaderID p' = pl_LeaderID p
    \<and> set (ids p') = insert v (set (ids p))"
  using assms by (auto simp: AddMember_def platoon_ok_def HasMember_iff split: if_splits)

lemma AddMember_refused: "AddMember now p v role = (p', Some e) \<Longrightarrow> p' = p"
  by (auto simp: AddMember_def split: if_splits)

lemma platoon_AddValidator_ok:
  assumes "platoon_AddValidator p v = (p', e)" and "platoon_ok p" and "v \<in> set (ids p)"
  shows "platoon_ok p' \<and> pl_Status p' = pl_Status p \<and> pl_ID p' = pl_ID p"
  using assms
  by (auto simp: platoon_AddValidator_def platoon_IsValidator_iff split: if_splits) (auto simp: platoon_ok_def)

lemma platoon_RemoveValidator_spec:
  assumes "platoon_RemoveValidator p v = (p', e)" and "distinct (pl_Validators p)"
  shows "set (pl_Validators p') = set (pl_Validators p) - {v} \<and> distinct (pl_Validators p')
    \<and> ids p' = ids p \<and> map Position (pl_Members p') = map Position (pl_Members p)
    \<and> pl_LeaderID p' = pl_LeaderID p \<and> pl_Params p' = pl_Params p \<and> pl_Status p' = pl_Status p
    \<and> pl_ID p' = pl_ID p \<and> length (pl_Members p') = length (pl_Members p)"
proof (cases "find_index v (pl_Validators p) 0")
  case None
  with assms show ?thesis by (auto simp: platoon_RemoveValidator_def find_index_None)
next
  case (Some i)
  with find_index_Some [OF Some] have i: "i < length (pl_Validators p)" "pl_Validators p ! i = v" by auto
  then have m: "v \<in> set (pl_Validators p)" by (metis nth_mem)
  have "mset (slice_remove i (pl_Validators p)) = mset (pl_Validators p) - {#v#}"
    using slice_remove_mset [OF i(1)] i(2) by simp
  note r = mset_remove_distinct [OF this assms(2) m]
  have "p' = set_role (p\<lparr>pl_Validators := slice_remove i (pl_Validators p)\<rparr>) v RoleFollower"
    using assms(1) by (simp add: platoon_RemoveValidator_def Some)
  with r show ?thesis by simp
qed

lemma map_swap_remove: "i < length xs \<Longrightarrow> map f (swap_remove i xs) = swap_remove i (map f xs)"
  by (cases xs rule: rev_cases) (auto simp: swap_remove_def map_butlast map_update last_map)

lemma enumerate_positions:
  "map VehicleID (map (\<lambda>(j, m). m\<lparr>Position := int j\<rparr>) (enumerate n ms)) = map VehicleID ms"
  "map Position (map (\<lambda>(j, m). m\<lparr>Position := int j\<rparr>) (enumerate n ms)) = map int [n..<n + length ms]"
proof -
  show "map VehicleID (map (\<lambda>(j, m). m\<lparr>Position := int j\<rparr>) (enumerate n ms)) = map VehicleID ms"
    by (induction ms arbitrary: n) auto
  show "map Position (map (\<lambda>(j, m). m\<lparr>Position := int j\<rparr>) (enumerate n ms)) = map int [n..<n + length ms]"
  proof (induction ms arbitrary: n)
    case (Cons m ms)
    have "[n..<n + length (m # ms)] = n # [Suc n..<Suc n + length ms]"
      using upt_rec [of n "n + length (m # ms)"] by simp
    with Cons [of "Suc n"] show ?case by (simp del: upt_Suc)
  qed simp
qed

lemma RemoveMember_spec:
  assumes "distinct (ids p)" and "v \<in> set (ids p)"
  shows "\<exists>p'. RemoveMember now p v = (p', None) \<and> set (ids p') = set (ids p) - {v} \<and> distinct (ids p')
    \<and> length (pl_Members p) = Suc (length (pl_Members p'))
    \<and> map Position (pl_Members p') = map int [0..<length (pl_Members p')]
    \<and> pl_Validators p' = pl_Validators p \<and> pl_LeaderID p' = pl_LeaderID p
    \<and> pl_Params p' = pl_Params p \<and> pl_Status p' = pl_Status p \<and> pl_ID p' = pl_ID p"
proof -
  obtain i where f: "find_index v (ids p) 0 = Some i"
    using assms(2) find_index_None [of v "ids p" 0] by auto
  with find_index_Some [OF f] have i: "i < length (pl_Members p)" "ids p ! i = v" by auto
  let ?ms = "swap_remove i (pl_Members p)"
  have "mset (map VehicleID ?ms) = mset (ids p) - {#v#}"
    using swap_remove_mset [of i "ids p"] i by (simp add: map_swap_remove)
  note r = mset_remove_distinct [OF this assms]
  define ms' where "ms' = map (\<lambda>(j, m). m\<lparr>Position := int j\<rparr>) (enumerate 0 ?ms)"
  have e: "map VehicleID ms' = map VehicleID ?ms" "map Position ms' = map int [0..<length ?ms]"
    "length ms' = length ?ms"
    using enumerate_positions [of 0 ?ms] by (simp_all add: ms'_def)
  have "RemoveMember now p v = (p\<lparr>pl_Members := ms', pl_UpdatedAt := now\<rparr>, None)"
    by (simp add: RemoveMember_def f ms'_def)
  moreover have "set (map VehicleID ms') = set (ids p) - {v}" "distinct (map VehicleID ms')"
    "length (pl_Members p) = Suc (length ms')"
    using r unfolding e(1) by (simp_all add: e(3))
  ultimately show ?thesis using e(2,3) by simp
qed

end
