(* ===== verification/Platoon_Runs.thy ===== *)
theory Platoon_Runs
  imports Platoon
begin

text \<open>
  Runs of the platoon service (service/platoon/service.go): the invariant of the service and the life cycle of a
  platoon, what survives a restart, and what the service leaves alone in the store. The locale
  \<open>platoon_relation\<close> follows the operations once, for any relation between services that their common steps
  satisfy.
\<close>

section \<open>The invariant of the service and the life cycle of a platoon\<close>

inductive status_step :: "PlatoonStatus \<Rightarrow> PlatoonStatus \<Rightarrow> bool" where
  activate: "status_step PlatoonStatusForming PlatoonStatusActive"
| understaff: "status_step PlatoonStatusActive PlatoonStatusUnderStaffed"
| dissolve: "st \<noteq> PlatoonStatusDissolved \<Longrightarrow> status_step st PlatoonStatusDissolved"

inductive_simps status_step_simps: "status_step a b"

definition svc_ok ::
  "json_lib \<Rightarrow> ('s \<Rightarrow> bytes \<Rightarrow> bytes option) \<Rightarrow> 's platoon_service \<Rightarrow> bool" where
  "svc_ok J contents s \<longleftrightarrow>
     (\<forall>pid p. mget (ps_platoons s) pid = Some p \<longrightarrow> platoon_ok p \<and> pl_ID p = pid)
     \<and> (\<forall>pid v p. contents (ps_storage s) (platoonKey pid) = Some v \<longrightarrow>
          unmarshal J dec_platoon v = Some p \<longrightarrow> platoon_ok p \<and> pl_ID p = pid)"

definition evolves :: "'s platoon_service \<Rightarrow> 's platoon_service \<Rightarrow> bool" where
  "evolves s s' \<longleftrightarrow> (\<forall>pid p. mget (ps_platoons s) pid = Some p \<longrightarrow>
     (\<exists>p'. mget (ps_platoons s') pid = Some p' \<and> status_step\<^sup>*\<^sup>* (pl_Status p) (pl_Status p')))"

lemma evolves_refl [simp]: "evolves s s"
  by (auto simp: evolves_def)

lemma evolves_trans [trans]: "evolves s s' \<Longrightarrow> evolves s' s'' \<Longrightarrow> evolves s s''"
  unfolding evolves_def by (meson rtranclp_trans)

text \<open>\<open>sound s s'\<close>: from a well-formed service, a well-formed one whose platoons have moved along.\<close>

definition sound ::
  "json_lib \<Rightarrow> ('s \<Rightarrow> bytes \<Rightarrow> bytes option) \<Rightarrow> 's platoon_service \<Rightarrow> 's platoon_service \<Rightarrow> bool" where
  "sound J contents s s' \<longleftrightarrow> (svc_ok J contents s \<longrightarrow> svc_ok J contents s' \<and> evolves s s')"

lemma sound_refl [simp]: "sound J contents s s"
  by (simp add: sound_def)

lemma sound_trans [trans]: "sound J contents s s' \<Longrightarrow> sound J contents s' s'' \<Longrightarrow> sound J contents s s''"
  unfolding sound_def by (meson evolves_trans)

lemma sound_other [simp]:
  "sound J contents s (recordHistory s pid h)" "sound J contents s (emitEvent s e)"
  "sound J contents s (put_request s rid r)" "sound J contents s (s\<lparr>ps_joinRequests := q\<rparr>)"
  by (simp_all add: sound_def svc_ok_def evolves_def recordHistory_def emitEvent_def put_request_def)

lemma other_platoons [simp]:
  "ps_platoons (recordHistory s pid h) = ps_platoons s" "ps_platoons (emitEvent s e) = ps_platoons s"
  "ps_platoons (put_request s rid r) = ps_platoons s"
  "ps_platoons (put_platoon s pid p) = mput (ps_platoons s) pid p"
  by (simp_all add: recordHistory_def emitEvent_def put_request_def put_platoon_def)

lemma other_storage [simp]:
  "ps_storage (recordHistory s pid h) = ps_storage s" "ps_storage (emitEvent s e) = ps_storage s"
  "ps_storage (put_request s rid r) = ps_storage s" "ps_storage (put_platoon s pid p) = ps_storage s"
  by (simp_all add: recordHistory_def emitEvent_def put_request_def put_platoon_def)

lemma put_same:
  assumes "mget (ps_platoons s) pid = Some p"
  shows "put_platoon s pid p = s"
proof -
  have "mput (ps_platoons s) pid p = ps_platoons s" by (rule fmap_ext) (use assms in auto)
  then show ?thesis by (simp add: put_platoon_def)
qed

lemma GetPlatoon_in_map: "GetPlatoon J L s pid = (s', Some p) \<Longrightarrow> mget (ps_platoons s') pid = Some p"
  by (auto simp: GetPlatoon_def put_platoon_def split: option.splits)

lemma sound_put:
  assumes "mget (ps_platoons s) pid = Some p" and "svc_ok J contents s \<Longrightarrow> platoon_ok p' \<and> pl_ID p' = pid"
    and "status_step\<^sup>*\<^sup>* (pl_Status p) (pl_Status p')"
  shows "sound J contents s (put_platoon s pid p')"
  using assms by (auto simp: sound_def svc_ok_def evolves_def put_platoon_def)

lemma storePlatoon_frame:
  "storePlatoon J L s p = (s', e) \<Longrightarrow> ps_platoons s' = ps_platoons s \<and> ps_joinRequests s' = ps_joinRequests s"
  by (auto simp: storePlatoon_def split: option.splits prod.splits)

lemma AddMember_frame [simp]:
  "pl_Status (fst (AddMember now p v r)) = pl_Status p" "pl_ID (fst (AddMember now p v r)) = pl_ID p"
  "pl_Params (fst (AddMember now p v r)) = pl_Params p"
  by (auto simp: AddMember_def)

lemma platoon_AddValidator_frame [simp]:
  "pl_Status (fst (platoon_AddValidator p v)) = pl_Status p" "pl_ID (fst (platoon_AddValidator p v)) = pl_ID p"
  "ids (fst (platoon_AddValidator p v)) = ids p" "pl_Params (fst (platoon_AddValidator p v)) = pl_Params p"
  by (auto simp: platoon_AddValidator_def)

lemma set_status_ok [simp]: "platoon_ok (p\<lparr>pl_Status := x\<rparr>) = platoon_ok p"
  by (simp add: platoon_ok_def)

text \<open>The platoon that an approved request leaves behind when the vehicle can be added.\<close>

definition admitted :: "i64 \<Rightarrow> platoon \<Rightarrow> address \<Rightarrow> platoon" where
  "admitted now p v =
     (let role = (if GetValidatorCount p < 7 then RoleValidator else RoleFollower);
          p = fst (AddMember now p v role);
          p = (if role = RoleValidator then fst (platoon_AddValidator p v) else p)
      in if pl_Status p = PlatoonStatusForming \<and> CanFormConsensus p
         then p\<lparr>pl_Status := PlatoonStatusActive\<rparr> else p)"

lemma admitted_status: "status_step\<^sup>*\<^sup>* (pl_Status p) (pl_Status (admitted now p v))"
  by (auto simp: admitted_def Let_def intro: r_into_rtranclp status_step.activate)

lemma admitted_params: "pl_Params (admitted now p v) = pl_Params p"
  by (simp add: admitted_def Let_def)

lemma admitted_ok:
  assumes "platoon_ok p" and "snd (AddMember now p v role) = None"
  shows "platoon_ok (admitted now p v) \<and> pl_ID (admitted now p v) = pl_ID p
    \<and> v \<in> set (ids (admitted now p v))"
proof -
  define role' where "role' = (if GetValidatorCount p < 7 then RoleValidator else RoleFollower)"
  have "snd (AddMember now p v role') = None"
    using assms(2) by (simp add: AddMember_def split: if_splits)
  then obtain p1 where a: "AddMember now p v role' = (p1, None)" by (metis prod.collapse)
  note p1 = AddMember_ok [OF a assms(1)]
  define p2 where "p2 = (if role' = RoleValidator then fst (platoon_AddValidator p1 v) else p1)"
  have p2: "platoon_ok p2" "pl_ID p2 = pl_ID p1" "ids p2 = ids p1"
    using platoon_AddValidator_ok [OF prod.collapse [symmetric], of p1 v] p1 by (simp_all add: p2_def)
  have "admitted now p v = (if pl_Status p2 = PlatoonStatusForming \<and> CanFormConsensus p2
      then p2\<lparr>pl_Status := PlatoonStatusActive\<rparr> else p2)"
    by (simp only: admitted_def role'_def [symmetric] a fst_conv Let_def p2_def)
  moreover have "v \<in> set (ids p2)" unfolding p2(3) using p1 by simp
  ultimately show ?thesis using p1 p2(1,2) by simp
qed

lemma admitted_ids:
  assumes "snd (AddMember now p v role) = None"
  shows "set (ids (admitted now p v)) = insert v (set (ids p))"
proof -
  define role' where "role' = (if GetValidatorCount p < 7 then RoleValidator else RoleFollower)"
  have "snd (AddMember now p v role') = None"
    using assms by (simp add: AddMember_def split: if_splits)
  then obtain p1 where a: "AddMember now p v role' = (p1, None)" by (metis prod.collapse)
  have i: "ids p1 = ids p @ [v]" using a by (auto simp: AddMember_def split: if_splits)
  have "ids (admitted now p v) = ids p1"
    unfolding admitted_def role'_def [symmetric] a fst_conv Let_def by simp
  with i show ?thesis by simp
qed

lemma ProcessJoinRequest_admits:
  assumes "mget (ps_joinRequests s) rid = Some req" and "jr_Status req = JoinStatusPending"
    and "GetPlatoon J L s (jr_PlatoonID req) = (s1, Some p)" and "pl_LeaderID p = proc"
    and "snd (AddMember now p (jr_VehicleID req) role) = None"
    and "storePlatoon J L (put_platoon (put_request s1 rid (req\<lparr>jr_ProcessedAt := now,
        jr_ProcessedBy := proc, jr_Status := JoinStatusApproved\<rparr>)) (jr_PlatoonID req)
        (admitted now p (jr_VehicleID req))) (admitted now p (jr_VehicleID req)) = (s3, e)"
  shows "ProcessJoinRequest J L now s rid True proc = (case e of Some err \<Rightarrow> (s3, Some err)
    | None \<Rightarrow> (emitEvent (recordHistory s3 (pl_ID (admitted now p (jr_VehicleID req)))
                  (hist now EventMemberJoined (jr_VehicleID req) [] []))
               (pevent EventMemberJoined (pl_ID (admitted now p (jr_VehicleID req))) (jr_VehicleID req) now []), None))"
proof -
  define role' where "role' = (if GetValidatorCount p < 7 then RoleValidator else RoleFollower)"
  have "snd (AddMember now p (jr_VehicleID req) role') = None"
    using assms(5) by (simp add: AddMember_def split: if_splits)
  then obtain p1 where a: "AddMember now p (jr_VehicleID req) role' = (p1, None)" by (metis prod.collapse)
  note adm = admitted_def [of now p "jr_VehicleID req", unfolded Let_def, folded role'_def, unfolded a fst_conv, symmetric]
  have upd: "jr_PlatoonID (req\<lparr>jr_ProcessedAt := x, jr_ProcessedBy := y\<rparr>) = jr_PlatoonID req"
    "jr_VehicleID (req\<lparr>jr_ProcessedAt := x, jr_ProcessedBy := y\<rparr>) = jr_VehicleID req" for x y
    by simp_all
  show ?thesis
    by (simp only: ProcessJoinRequest_def assms(1-4) upd a adm assms(6) option.case prod.case Let_def simp_thms
        if_True if_False role'_def [symmetric])
qed

text \<open>The next leader is another validator; the members stay the same.\<close>

lemma handleLeaderLeaving_spec:
  assumes "handleLeaderLeaving now s p = (s', p', e)" and "platoon_ok p"
  shows "(case e of Some err \<Rightarrow> s' = s \<and> p' = p
    | None \<Rightarrow> platoon_ok p' \<and> pl_ID p' = pl_ID p \<and> pl_Status p' = pl_Status p \<and> ids p' = ids p
        \<and> pl_Validators p' = pl_Validators p \<and> pl_LeaderID p' \<noteq> pl_LeaderID p
        \<and> pl_LeaderID p' \<in> set (pl_Validators p)
        \<and> pl_Params p' = pl_Params p \<and> ps_platoons s' = ps_platoons s \<and> ps_storage s' = ps_storage s)"
proof (cases "if 1 < length (pl_Validators p) then find (\<lambda>v. v \<noteq> pl_LeaderID p) (pl_Validators p) else None")
  case None
  with assms(1) show ?thesis by (simp only: handleLeaderLeaving_def option.case prod.inject option.simps) auto
next
  case (Some v)
  then have v: "v \<noteq> pl_LeaderID p" "v \<in> set (pl_Validators p)"
    by (auto simp: find_Some_iff split: if_splits)
  have ok: "platoon_ok (p\<lparr>pl_LeaderID := v\<rparr>)" using v(2) assms(2) by (auto simp: platoon_ok_def)
  have e: "e = None" "p' = set_role (set_role (p\<lparr>pl_LeaderID := v\<rparr>) (pl_LeaderID p) RoleValidator) v RoleLeader"
    "\<exists>h ev. s' = emitEvent (recordHistory s (pl_ID p') h) ev"
    using assms(1) by (auto simp only: handleLeaderLeaving_def Some option.case Let_def prod.inject)
  have "ps_storage s' = ps_storage s" "ps_platoons s' = ps_platoons s" using e(3) by auto
  then show ?thesis unfolding e(1) using v ok by (simp add: e(2))
qed

text \<open>The platoon without a member who is not the leader.\<close>

definition departed :: "i64 \<Rightarrow> platoon \<Rightarrow> address \<Rightarrow> platoon" where
  "departed now p v =
     (let p = (if platoon_IsValidator p v then fst (platoon_RemoveValidator p v) else p);
          p = fst (RemoveMember now p v)
      in if GetMemberCount p \<le> 3 \<and> pl_Status p = PlatoonStatusActive
         then p\<lparr>pl_Status := PlatoonStatusUnderStaffed\<rparr> else p)"

lemma departed_ok:
  assumes "platoon_ok p" and "v \<in> set (ids p)" and "v \<noteq> pl_LeaderID p"
  shows "platoon_ok (departed now p v)" and "pl_ID (departed now p v) = pl_ID p"
    and "set (ids (departed now p v)) = set (ids p) - {v}"
    and "pl_LeaderID (departed now p v) = pl_LeaderID p" and "pl_Params (departed now p v) = pl_Params p"
    and "status_step\<^sup>*\<^sup>* (pl_Status p) (pl_Status (departed now p v))"
    and "GetMemberCount (departed now p v) \<noteq> 0"
    and "snd (RemoveMember now (if platoon_IsValidator p v then fst (platoon_RemoveValidator p v) else p) v) = None"
proof -
  define p1 where "p1 = (if platoon_IsValidator p v then fst (platoon_RemoveValidator p v) else p)"
  have d: "distinct (pl_Validators p)" using assms(1) by (simp add: platoon_ok_def)
  have p1: "set (pl_Validators p1) = set (pl_Validators p) - {v}" "distinct (pl_Validators p1)"
    "ids p1 = ids p" "pl_LeaderID p1 = pl_LeaderID p" "pl_Params p1 = pl_Params p"
    "pl_Status p1 = pl_Status p" "pl_ID p1 = pl_ID p" "length (pl_Members p1) = length (pl_Members p)"
    using platoon_RemoveValidator_spec [OF prod.collapse [symmetric] d, of v] d
    by (auto simp: p1_def platoon_IsValidator_iff)
  have "distinct (ids p1)" "v \<in> set (ids p1)"
    using assms(1,2) unfolding p1(3) by (simp_all add: platoon_ok_def)
  from RemoveMember_spec [OF this, of now] obtain p2 where p2: "RemoveMember now p1 v = (p2, None)"
    "set (ids p2) = set (ids p1) - {v}" "distinct (ids p2)"
    "length (pl_Members p1) = Suc (length (pl_Members p2))"
    "map Position (pl_Members p2) = map int [0..<length (pl_Members p2)]"
    "pl_Validators p2 = pl_Validators p1" "pl_LeaderID p2 = pl_LeaderID p1"
    "pl_Params p2 = pl_Params p1" "pl_Status p2 = pl_Status p1" "pl_ID p2 = pl_ID p1" by blast
  have e: "departed now p v = (if GetMemberCount p2 \<le> 3 \<and> pl_Status p2 = PlatoonStatusActive
      then p2\<lparr>pl_Status := PlatoonStatusUnderStaffed\<rparr> else p2)"
    by (simp only: departed_def p1_def [symmetric] p2(1) Let_def fst_conv)
  have i: "set (ids p2) = set (ids p) - {v}" unfolding p2(2) p1(3) ..
  have "platoon_ok p2"
    using assms p1 p2(3-10) i unfolding platoon_ok_def by (simp only: p1 p2(6-8) i) auto
  then show "platoon_ok (departed now p v)" unfolding e by simp
  show "pl_ID (departed now p v) = pl_ID p" "pl_LeaderID (departed now p v) = pl_LeaderID p"
    "pl_Params (departed now p v) = pl_Params p"
    unfolding e by (simp_all add: p1 p2)
  show "set (ids (departed now p v)) = set (ids p) - {v}" unfolding e using i by simp
  show "status_step\<^sup>*\<^sup>* (pl_Status p) (pl_Status (departed now p v))"
    unfolding e by (auto simp: p1 p2 intro: r_into_rtranclp status_step.understaff)
  have "pl_LeaderID p \<in> set (ids p2)" unfolding i using assms(1,3) by (simp add: platoon_ok_def)
  then have "pl_Members p2 \<noteq> []" by auto
  then show "GetMemberCount (departed now p v) \<noteq> 0" unfolding e by (simp add: GetMemberCount_def)
  show "snd (RemoveMember now (if platoon_IsValidator p v then fst (platoon_RemoveValidator p v) else p) v) = None"
    unfolding p1_def [symmetric] p2(1) by simp
qed

lemma LeavePlatoon_departs:
  assumes "GetPlatoon J L s pid = (s1, Some p)" and "HasMember p v"
    and "(if pl_LeaderID p = v then handleLeaderLeaving now s1 p else (s1, p, None)) = (s2, q, None)"
    and "platoon_ok q" and "v \<in> set (ids q)" and "v \<noteq> pl_LeaderID q"
    and "storePlatoon J L (put_platoon s2 pid (departed now q v)) (departed now q v) = (s3, e)"
  shows "LeavePlatoon J L now s pid v = (case e of Some err \<Rightarrow> (s3, Some err)
    | None \<Rightarrow> (emitEvent (recordHistory s3 pid (hist now EventMemberLeft v [] []))
               (pevent EventMemberLeft pid v now []), None))"
proof -
  note dep = departed_ok [OF assms(4-6), of now]
  obtain p2 where p2: "RemoveMember now (if platoon_IsValidator q v then fst (platoon_RemoveValidator q v) else q) v = (p2, None)"
    using dep(8) by (metis prod.collapse)
  note d = departed_def [of now q v, unfolded Let_def p2 fst_conv, symmetric]
  show ?thesis
    by (simp only: LeavePlatoon_def assms(1-3) option.case prod.case simp_thms if_False Let_def p2 d dep(7) assms(7))
qed

lemma platoon_RemoveValidator_refused: "platoon_RemoveValidator p v = (p', Some e) \<Longrightarrow> p' = p"
  by (auto simp: platoon_RemoveValidator_def split: option.splits)

lemma platoon_RemoveValidator_frame [simp]:
  "pl_Status (fst (platoon_RemoveValidator p v)) = pl_Status p"
  "pl_Params (fst (platoon_RemoveValidator p v)) = pl_Params p"
  by (auto simp: platoon_RemoveValidator_def split: option.splits)

lemma platoon_RemoveValidator_ok:
  assumes "platoon_RemoveValidator p v = (p', e)" and "platoon_ok p"
  shows "platoon_ok p' \<and> pl_ID p' = pl_ID p"
  using platoon_RemoveValidator_spec [OF assms(1)] assms(2)
  by (simp add: platoon_ok_def del: set_map) blast

lemma svc_okD:
  "svc_ok J contents s \<Longrightarrow> mget (ps_platoons s) pid = Some p \<Longrightarrow> platoon_ok p \<and> pl_ID p = pid"
  by (simp add: svc_ok_def)

text \<open>What CreatePlatoon stores: the leader is the only member and the only validator.\<close>

definition created :: "i64 \<Rightarrow> string \<Rightarrow> address \<Rightarrow> platoon_params \<Rightarrow> string \<Rightarrow> platoon" where
  "created now pid leader params name =
     \<lparr>pl_ID = pid, pl_Name = name, pl_Status = PlatoonStatusForming, pl_Params = params,
      pl_LeaderID = leader,
      pl_Members = [\<lparr>VehicleID = leader, Role = RoleValidator, JoinedAt = now, Position = 0,
                     MemberStatus = ''active'', LastSeenAt = now\<rparr>],
      pl_Validators = [leader], pl_CreatedAt = now, pl_UpdatedAt = now, pl_DissolvedAt = 0,
      pl_Blacklist = [], pl_BlockHeight = 0, pl_LastActivityAt = now, pl_TimeoutSecs = 300\<rparr>"

lemma created_ok: "PlatoonParams_Validate params = None \<Longrightarrow> platoon_ok (created now pid leader params name)"
  by (auto simp: platoon_ok_def created_def PlatoonParams_Validate_def split: if_splits)

lemma CreatePlatoon_result:
  assumes "PlatoonParams_Validate params = None"
    and "storePlatoon J L (put_platoon s pid (created now pid leader params name))
           (created now pid leader params name) = (s1, e)"
  shows "CreatePlatoon J L now pid s leader params name =
    (case e of Some err \<Rightarrow> (s1, Inl err)
     | None \<Rightarrow> (emitEvent (recordHistory s1 pid (hist now EventPlatoonCreated leader [] []))
                  (pevent EventPlatoonCreated pid leader now []),
                Inr (created now pid leader params name)))"
proof -
  have m: "0 < MaxVehicles params"
    using assms(1) by (auto simp: PlatoonParams_Validate_def split: if_splits)
  define q where "q = created now pid leader params name"
  define q0 where "q0 = q\<lparr>pl_Members := [], pl_Validators := [], pl_Name := []\<rparr>"
  define q1 where "q1 = q\<lparr>pl_Members := [\<lparr>VehicleID = leader, Role = RoleLeader,
     JoinedAt = now, Position = 0, MemberStatus = ''active'', LastSeenAt = now\<rparr>], pl_Validators := []\<rparr>"
  have n: "NewPlatoon now pid leader params = Inr q0"
    using assms(1) by (simp add: NewPlatoon_def created_def q_def q0_def)
  have a: "AddMember now (q0\<lparr>pl_Name := name\<rparr>) leader RoleLeader = (q1, None)"
    using m by (simp add: AddMember_def HasMember_iff IsBlacklisted_def created_def q_def q0_def q1_def)
  have v: "platoon_AddValidator q1 leader = (q, None)"
    by (simp add: platoon_AddValidator_def platoon_IsValidator_def set_role_def created_def q_def q1_def)
  have st: "q\<lparr>pl_Status := PlatoonStatusForming\<rparr> = q" "GetMemberCount q = 1"
    by (simp_all add: created_def GetMemberCount_def q_def)
  show ?thesis
    using assms(2) unfolding q_def [symmetric]
    by (simp add: CreatePlatoon_def assms(1) n a v st split: option.split)
qed

section \<open>Runs of the service\<close>

text \<open>An operation of the service; generatePlatoonID draws 8 random bytes, so a new id is not in use.\<close>

inductive platoon_step ::
  "json_lib \<Rightarrow> 's db \<Rightarrow> 's platoon_service \<Rightarrow> 's platoon_service \<Rightarrow> bool" for J L where
  create: "CreatePlatoon J L now pid s leader params name = (s', r) \<Longrightarrow>
    mget (ps_platoons s) pid = None \<Longrightarrow> platoon_step J L s s'"
| submit: "SubmitJoinRequest J L now rid s pid v dest = (s', r2) \<Longrightarrow> platoon_step J L s s'"
| process: "ProcessJoinRequest J L now s rid approved proc = (s', e) \<Longrightarrow> platoon_step J L s s'"
| leave: "LeavePlatoon J L now s pid v = (s', e) \<Longrightarrow> platoon_step J L s s'"
| disband: "DissolvePlatoon J L now s pid reason = (s', e) \<Longrightarrow> platoon_step J L s s'"
| appoint: "AppointValidator J L now s pid v a = (s', e) \<Longrightarrow> platoon_step J L s s'"
| demote: "DemoteValidator J L now s pid v a = (s', e) \<Longrightarrow> platoon_step J L s s'"
| get: "GetPlatoon J L s pid = (s', r3) \<Longrightarrow> platoon_step J L s s'"
| tick: "platoon_step J L s (checkTimeouts J L now order s)"

section \<open>Relations that every operation respects\<close>

text \<open>
  An operation looks a platoon up, which may load it, changes it without changing its parameters, puts it back and
  stores it, and then only adds to the history, the events or the requests. A relation that these steps
  respect for the platoons in \<open>T\<close> holds between the services before and after every operation whose own checks
  only let it change a platoon of \<open>T\<close>.
\<close>

locale platoon_relation_on =
  fixes J :: json_lib and L :: "'s db" and contents :: "'s \<Rightarrow> bytes \<Rightarrow> bytes option"
    and K :: "'s platoon_service \<Rightarrow> 's platoon_service \<Rightarrow> bool" and T :: "string \<Rightarrow> bool"
  assumes rel_trans: "K s s' \<Longrightarrow> K s' s'' \<Longrightarrow> K s s''"
    and rel_ill: "\<not> svc_ok J contents s \<Longrightarrow> K s s'"
    and rel_neutral: "ps_storage s' = ps_storage s \<Longrightarrow> ps_platoons s' = ps_platoons s \<Longrightarrow> K s s'"
    and rel_get: "GetPlatoon J L s pid = (s', r) \<Longrightarrow> K s s'"
    and rel_save: "svc_ok J contents s \<Longrightarrow> mget (ps_platoons s) pid = Some p \<Longrightarrow> platoon_ok p' \<Longrightarrow> pl_ID p' = pid
      \<Longrightarrow> pl_Params p' = pl_Params p \<Longrightarrow> status_step\<^sup>*\<^sup>* (pl_Status p) (pl_Status p')
      \<Longrightarrow> storePlatoon J L (put_platoon s pid p') p' = (s', e) \<Longrightarrow> T pid \<Longrightarrow> K s s'"
    and rel_new: "svc_ok J contents s \<Longrightarrow> mget (ps_platoons s) pid = None \<Longrightarrow> platoon_ok p' \<Longrightarrow> pl_ID p' = pid
      \<Longrightarrow> storePlatoon J L (put_platoon s pid p') p' = (s', e) \<Longrightarrow> T pid \<Longrightarrow> K s s'"
begin

lemma rel_refl: "K s s"
  by (rule rel_neutral) simp_all

text \<open>The common end of an operation: what follows the store touches neither the store nor the platoons.\<close>

lemma rel_saved:
  assumes "mget (ps_platoons s) pid = Some p" and "svc_ok J contents s \<Longrightarrow> platoon_ok p' \<and> pl_ID p' = pid"
    and "pl_Params p' = pl_Params p" and "status_step\<^sup>*\<^sup>* (pl_Status p) (pl_Status p')"
    and "storePlatoon J L (put_platoon s pid p') p' = (s1, e)"
    and "ps_storage s' = ps_storage s1" and "ps_platoons s' = ps_platoons s1" and "T pid"
  shows "K s s'"
proof (cases "svc_ok J contents s")
  case True
  with assms(2,8) have "K s s1" by (intro rel_save [OF True assms(1) _ _ assms(3,4,5)]) simp_all
  with rel_neutral [OF assms(6,7)] show ?thesis by (rule rel_trans [rotated])
qed (rule rel_ill)

lemma on_disband:
  assumes "DissolvePlatoon J L now s pid reason = (s', e)" and "T pid"
  shows "K s s'"
proof -
  obtain s1 r where g: "GetPlatoon J L s pid = (s1, r)" by (meson surj_pair)
  have "K s1 s'"
  proof (cases "\<exists>p. r = Some p \<and> pl_Status p \<noteq> PlatoonStatusDissolved")
    case False
    with assms(1) g rel_refl show ?thesis by (auto simp: DissolvePlatoon_def split: option.splits if_splits)
  next
    case True
    then obtain p where p: "r = Some p" "pl_Status p \<noteq> PlatoonStatusDissolved" by blast
    note in_map = GetPlatoon_in_map [OF g [unfolded p(1)]]
    let ?p = "p\<lparr>pl_Status := PlatoonStatusDissolved, pl_DissolvedAt := now, pl_UpdatedAt := now\<rparr>"
    obtain s2 e2 where st: "storePlatoon J L (put_platoon s1 pid ?p) ?p = (s2, e2)" by (meson surj_pair)
    show ?thesis
    proof (rule rel_saved [OF in_map _ _ _ st])
      show "platoon_ok ?p \<and> pl_ID ?p = pid" if "svc_ok J contents s1"
        using svc_okD [OF that in_map] by (simp add: platoon_ok_def)
      show "status_step\<^sup>*\<^sup>* (pl_Status p) (pl_Status ?p)" using p(2) by (auto intro: status_step.intros)
    qed (use assms g p st in \<open>cases e2; auto simp: DissolvePlatoon_def Let_def\<close>)+
  qed
  with rel_get [OF g] show ?thesis by (rule rel_trans)
qed

lemma on_create:
  assumes "CreatePlatoon J L now pid s leader params name = (s', r)" and "mget (ps_platoons s) pid = None" and "T pid"
  shows "K s s'"
proof (cases "PlatoonParams_Validate params = None \<and> svc_ok J contents s")
  case False
  with assms(1) rel_refl rel_ill show ?thesis by (auto simp: CreatePlatoon_def)
next
  case True
  let ?p = "created now pid leader params name"
  obtain s1 e where st: "storePlatoon J L (put_platoon s pid ?p) ?p = (s1, e)" by (meson surj_pair)
  have ok: "platoon_ok ?p" "pl_ID ?p = pid" using created_ok True by (simp_all add: created_def)
  have "K s s1" using True by (intro rel_new [OF _ assms(2) ok st assms(3)]) simp
  moreover have "K s1 s'"
    using assms(1) CreatePlatoon_result [OF _ st] True by (intro rel_neutral) (auto split: option.splits)
  ultimately show ?thesis by (rule rel_trans)
qed

lemma on_submit:
  assumes "SubmitJoinRequest J L now rid s pid v dest = (s', r)"
  shows "K s s'"
proof -
  obtain s1 q where g: "GetPlatoon J L s pid = (s1, q)" by (meson surj_pair)
  have "ps_storage s' = ps_storage s1 \<and> ps_platoons s' = ps_platoons s1"
    using assms g by (auto simp: SubmitJoinRequest_def Let_def split: option.splits if_splits)
  with rel_get [OF g] show ?thesis by (meson rel_trans rel_neutral)
qed

lemma on_process:
  assumes "ProcessJoinRequest J L now s rid approved proc = (s', e)"
    and "\<And>req p. mget (ps_joinRequests s) rid = Some req \<Longrightarrow> jr_Status req = JoinStatusPending \<Longrightarrow> approved
      \<Longrightarrow> snd (GetPlatoon J L s (jr_PlatoonID req)) = Some p \<Longrightarrow> pl_LeaderID p = proc \<Longrightarrow> T (jr_PlatoonID req)"
  shows "K s s'"
proof (cases "mget (ps_joinRequests s) rid")
  case None
  with assms(1) rel_refl show ?thesis by (simp add: ProcessJoinRequest_def)
next
  case (Some req)
  let ?pid = "jr_PlatoonID req" and ?v = "jr_VehicleID req"
  obtain s1 q where g: "GetPlatoon J L s ?pid = (s1, q)" by (meson surj_pair)
  show ?thesis
  proof (cases "\<exists>p. q = Some p \<and> pl_LeaderID p = proc \<and> jr_Status req = JoinStatusPending \<and> approved")
    case False
    then have "s' = s \<or> ps_storage s' = ps_storage s1 \<and> ps_platoons s' = ps_platoons s1"
      using assms(1) Some g by (auto simp: ProcessJoinRequest_def split: option.splits if_splits)
    with rel_get [OF g] show ?thesis by (meson rel_trans rel_neutral rel_refl)
  next
    case True
    then obtain p where p: "q = Some p" "pl_LeaderID p = proc" "jr_Status req = JoinStatusPending" approved
      by blast
    then have T: "T ?pid" using assms(2) [OF Some] g by simp
    let ?req = "req\<lparr>jr_ProcessedAt := now, jr_ProcessedBy := proc, jr_Status := JoinStatusApproved\<rparr>"
    let ?s2 = "put_request s1 rid ?req"
    let ?role = "if GetValidatorCount p < 7 then RoleValidator else RoleFollower"
    have p2: "mget (ps_platoons ?s2) ?pid = Some p" using GetPlatoon_in_map [OF g [unfolded p(1)]] by simp
    have s2: "K s ?s2" by (rule rel_trans [OF rel_get [OF g]]) (rule rel_neutral; simp)
    have "K ?s2 s'"
    proof (cases "snd (AddMember now p ?v ?role)")
      case None
      let ?p = "admitted now p ?v"
      obtain s3 e3 where st: "storePlatoon J L (put_platoon ?s2 ?pid ?p) ?p = (s3, e3)" by (meson surj_pair)
      show ?thesis
      proof (rule rel_saved [OF p2 _ admitted_params admitted_status st])
        show "platoon_ok ?p \<and> pl_ID ?p = ?pid" if "svc_ok J contents ?s2"
          using svc_okD [OF that p2] admitted_ok None by metis
      qed (use T assms(1) p(4) ProcessJoinRequest_admits [OF Some p(3) g [unfolded p(1)] p(2) None st] in
          \<open>auto split: option.splits\<close>)
    next
      case e: (Some err)
      then have a: "AddMember now p ?v ?role = (p, Some err)" by (metis AddMember_refused prod.collapse)
      then have "s' = put_platoon ?s2 ?pid p"
        using assms(1) Some g p by (auto simp: ProcessJoinRequest_def Let_def)
      with put_same [OF p2] rel_refl show ?thesis by simp
    qed
    with s2 show ?thesis by (rule rel_trans)
  qed
qed

lemma on_leave:
  assumes "LeavePlatoon J L now s pid v = (s', e)"
    and "\<And>p. snd (GetPlatoon J L s pid) = Some p \<Longrightarrow> HasMember p v \<Longrightarrow> T pid"
  shows "K s s'"
proof -
  obtain s1 r where g: "GetPlatoon J L s pid = (s1, r)" by (meson surj_pair)
  have "K s1 s'"
  proof (cases "(\<exists>p. r = Some p \<and> HasMember p v) \<and> svc_ok J contents s1")
    case False
    then have "\<not> svc_ok J contents s1 \<or> s' = s1" using assms(1) g by (auto simp: LeavePlatoon_def split: option.splits)
    with rel_refl rel_ill show ?thesis by blast
  next
    case True
    then obtain p where p: "r = Some p" "HasMember p v" by blast
    then have T: "T pid" using assms(2) g by simp
    note in_map = GetPlatoon_in_map [OF g [unfolded p(1)]]
    obtain s2 q e2 where h: "(if pl_LeaderID p = v then handleLeaderLeaving now s1 p else (s1, p, None)) = (s2, q, e2)"
      by (metis prod_cases3)
    have ok: "platoon_ok p \<and> pl_ID p = pid" using True svc_okD [OF _ in_map] by blast
    have mem: "v \<in> set (ids p)" using p(2) HasMember_iff by blast
    have step: "case e2 of Some err \<Rightarrow> s2 = s1 \<and> q = p
      | None \<Rightarrow> platoon_ok q \<and> pl_ID q = pl_ID p \<and> pl_Status q = pl_Status p \<and> ids q = ids p
        \<and> pl_LeaderID q \<noteq> v \<and> pl_Params q = pl_Params p
        \<and> ps_platoons s2 = ps_platoons s1 \<and> ps_storage s2 = ps_storage s1"
      using h ok handleLeaderLeaving_spec [of now s1 p s2 q e2] by (auto split: if_splits option.splits)
    show ?thesis
    proof (cases e2)
      case (Some err)
      with step h assms(1) g p have "s' = put_platoon s1 pid p" by (auto simp: LeavePlatoon_def)
      with put_same [OF in_map] rel_refl show ?thesis by simp
    next
      case None
      with step have q: "platoon_ok q" "pl_ID q = pl_ID p" "pl_Status q = pl_Status p" "ids q = ids p"
        "pl_LeaderID q \<noteq> v" "pl_Params q = pl_Params p" "ps_platoons s2 = ps_platoons s1"
        "ps_storage s2 = ps_storage s1" by simp_all
      have memq: "v \<in> set (ids q)" unfolding q(4) by (rule mem)
      note dep = departed_ok [OF q(1) memq q(5) [symmetric], of now]
      obtain s3 e3 where st: "storePlatoon J L (put_platoon s2 pid (departed now q v)) (departed now q v) = (s3, e3)"
        by (meson surj_pair)
      have m2: "mget (ps_platoons s2) pid = Some p" using in_map q(7) by simp
      have "K s2 s'"
        by (rule rel_saved [OF m2 _ _ _ st])
          (use T dep(1,2,5,6) q ok assms(1) LeavePlatoon_departs [OF g [unfolded p(1)] p(2) h [unfolded None] q(1) memq q(5) [symmetric] st] in
            \<open>auto split: option.splits\<close>)
      with rel_neutral [OF q(8,7)] show ?thesis by (rule rel_trans)
    qed
  qed
  with rel_get [OF g] show ?thesis by (rule rel_trans)
qed

text \<open>Both validator operations change the platoon by a function and store it.\<close>

lemma rel_change:
  assumes "mget (ps_platoons s) pid = Some p" and "svc_ok J contents s \<Longrightarrow> platoon_ok p' \<and> pl_ID p' = pid"
    and "pl_Status p' = pl_Status p" and "pl_Params p' = pl_Params p"
    and "(case storePlatoon J L (put_platoon s pid p') p' of
            (s, Some e) \<Rightarrow> (s, Some e) | (s, None) \<Rightarrow> (recordHistory s pid h, None)) = (s', e)" and "T pid"
  shows "K s s'"
proof -
  obtain s1 e1 where st: "storePlatoon J L (put_platoon s pid p') p' = (s1, e1)" by (meson surj_pair)
  have "ps_storage s' = ps_storage s1 \<and> ps_platoons s' = ps_platoons s1"
    using assms(5) st by (cases e1) auto
  with rel_saved [OF assms(1,2,4) _ st] assms(3,6) show ?thesis by simp
qed

lemma on_appoint:
  assumes "AppointValidator J L now s pid v a = (s', e)"
    and "\<And>p. snd (GetPlatoon J L s pid) = Some p \<Longrightarrow> pl_LeaderID p = a \<Longrightarrow> T pid"
  shows "K s s'"
proof -
  obtain s1 r where g: "GetPlatoon J L s pid = (s1, r)" by (meson surj_pair)
  have "K s1 s'"
  proof (cases "\<exists>p. r = Some p \<and> pl_LeaderID p = a \<and> HasMember p v \<and> \<not> platoon_IsValidator p v")
    case False
    with assms(1) g rel_refl show ?thesis by (auto simp: AppointValidator_def split: option.splits if_splits)
  next
    case True
    then obtain p where p: "r = Some p" "pl_LeaderID p = a" "HasMember p v" "\<not> platoon_IsValidator p v" by blast
    then have T: "T pid" using assms(2) g by simp
    note in_map = GetPlatoon_in_map [OF g [unfolded p(1)]]
    obtain q where q: "platoon_AddValidator p v = (q, None)" using p(4) by (simp add: platoon_AddValidator_def)
    have ok: "svc_ok J contents s1 \<Longrightarrow> platoon_ok q \<and> pl_ID q = pid"
      using platoon_AddValidator_ok [OF q] svc_okD [OF _ in_map] p(3) HasMember_iff by metis
    have fr: "pl_Status q = pl_Status p" "pl_Params q = pl_Params p"
      using platoon_AddValidator_frame [of p v] q by simp_all
    have "(case storePlatoon J L (put_platoon s1 pid q) q of
            (s, Some e) \<Rightarrow> (s, Some e) | (s, None) \<Rightarrow> (recordHistory s pid (hist now EventValidatorAdded v [] []), None)) = (s', e)"
      using assms(1) g p q by (simp add: AppointValidator_def)
    from rel_change [OF in_map ok fr this T] show ?thesis .
  qed
  with rel_get [OF g] show ?thesis by (rule rel_trans)
qed

lemma on_demote:
  assumes "DemoteValidator J L now s pid v a = (s', e)"
    and "\<And>p. snd (GetPlatoon J L s pid) = Some p \<Longrightarrow> pl_LeaderID p = a \<Longrightarrow> T pid"
  shows "K s s'"
proof -
  obtain s1 r where g: "GetPlatoon J L s pid = (s1, r)" by (meson surj_pair)
  have "K s1 s'"
  proof (cases "\<exists>p. r = Some p \<and> pl_LeaderID p = a \<and> 1 < GetValidatorCount p")
    case False
    with assms(1) g rel_refl show ?thesis by (auto simp: DemoteValidator_def split: option.splits if_splits)
  next
    case True
    then obtain p where p: "r = Some p" "pl_LeaderID p = a" "1 < GetValidatorCount p" by blast
    then have T: "T pid" using assms(2) g by simp
    note in_map = GetPlatoon_in_map [OF g [unfolded p(1)]]
    obtain q eq where q: "platoon_RemoveValidator p v = (q, eq)" by (meson surj_pair)
    show ?thesis
    proof (cases eq)
      case None
      have ok: "svc_ok J contents s1 \<Longrightarrow> platoon_ok q \<and> pl_ID q = pid"
        using platoon_RemoveValidator_ok [OF q] svc_okD [OF _ in_map] by metis
      have fr: "pl_Status q = pl_Status p" "pl_Params q = pl_Params p"
        using platoon_RemoveValidator_frame [of p v] q by simp_all
      have "(case storePlatoon J L (put_platoon s1 pid q) q of (s, Some e) \<Rightarrow> (s, Some e)
          | (s, None) \<Rightarrow> (recordHistory s pid (hist now EventValidatorRemoved v [] []), None)) = (s', e)"
        using assms(1) g p q None by (simp add: DemoteValidator_def)
      from rel_change [OF in_map ok fr this T] show ?thesis .
    next
      case (Some err)
      then have "q = p" using platoon_RemoveValidator_refused q by blast
      with Some assms(1) g p q have "s' = put_platoon s1 pid p" by (simp add: DemoteValidator_def)
      with put_same [OF in_map] rel_refl show ?thesis by simp
    qed
  qed
  with rel_get [OF g] show ?thesis by (rule rel_trans)
qed

end

text \<open>When the steps are respected for every platoon, so is every run of the service.\<close>

locale platoon_relation = platoon_relation_on J L contents K "\<lambda>_. True"
  for J :: json_lib and L :: "'s db" and contents :: "'s \<Rightarrow> bytes \<Rightarrow> bytes option"
    and K :: "'s platoon_service \<Rightarrow> 's platoon_service \<Rightarrow> bool"
begin

lemma rel_create: "CreatePlatoon J L now pid s leader params name = (s', r)
    \<Longrightarrow> mget (ps_platoons s) pid = None \<Longrightarrow> K s s'"
  and rel_submit: "SubmitJoinRequest J L now rid s pid v dest = (s', r2) \<Longrightarrow> K s s'"
  and rel_process: "ProcessJoinRequest J L now s rid approved proc = (s', e) \<Longrightarrow> K s s'"
  and rel_leave: "LeavePlatoon J L now s pid v = (s', e) \<Longrightarrow> K s s'"
  and rel_disband: "DissolvePlatoon J L now s pid reason = (s', e) \<Longrightarrow> K s s'"
  and rel_appoint: "AppointValidator J L now s pid v a = (s', e) \<Longrightarrow> K s s'"
  and rel_demote: "DemoteValidator J L now s pid v a = (s', e) \<Longrightarrow> K s s'"
  by (blast intro: on_create on_submit on_process on_leave on_disband on_appoint on_demote)+

lemma rel_tick: "K s (checkTimeouts J L now order s)"
proof -
  have "K s (fold (\<lambda>p s. if IsActive p \<and> IsTimedOut now p
      then fst (DissolvePlatoon J L now s (pl_ID p) ''timeout'') else s) ps s)" for ps
  proof (induction ps arbitrary: s)
    case (Cons p ps)
    have "K s (if IsActive p \<and> IsTimedOut now p
      then fst (DissolvePlatoon J L now s (pl_ID p) ''timeout'') else s)"
      using rel_disband [OF prod.collapse [symmetric]] rel_refl by simp
    from rel_trans [OF this Cons] show ?case by simp
  qed (simp add: rel_refl)
  then show ?thesis by (simp add: checkTimeouts_def)
qed

lemma rel_step: "platoon_step J L s s' \<Longrightarrow> K s s'"
  by (induction rule: platoon_step.induct)
    (blast intro: rel_create rel_submit rel_process rel_leave rel_disband rel_appoint rel_demote rel_get rel_tick)+

lemma rel_run: "(platoon_step J L)\<^sup>*\<^sup>* s s' \<Longrightarrow> K s s'"
  by (induction rule: rtranclp_induct) (auto intro: rel_refl rel_trans rel_step)

end

section \<open>The invariant along an operation\<close>

lemma storePlatoon_sound:
  assumes "db_spec L contents" and "json_ok J" and "storePlatoon J L s p = (s', e)" and "platoon_ok p"
  shows "sound J contents s s'"
proof (cases "marshal_platoon J p")
  case None
  with assms(3) show ?thesis by (simp add: storePlatoon_def)
next
  case (Some data)
  obtain st r where put: "Storage_Put L (ps_storage s) (platoonKey (pl_ID p)) data = (st, r)" by (meson surj_pair)
  with assms(3) Some have s': "s' = s\<lparr>ps_storage := st\<rparr>" by (simp add: storePlatoon_def)
  have d: "data = js_text J (enc_platoon p)" using Some by (simp add: marshal_platoon_def split: if_splits)
  have k: "platoonKey pid = platoonKey pid' \<longleftrightarrow> pid = pid'" for pid pid' by (simp add: platoonKey_def)
  have c: "contents st (platoonKey pid) = (if r = None \<and> pid = pl_ID p then Some data
      else contents (ps_storage s) (platoonKey pid))" for pid
    using Storage_Put_spec [OF assms(1) put] by (simp add: k)
  have "unmarshal J dec_platoon data = Some p"
    unfolding d using assms(2) platoon_ok_roundtrip [OF assms(4)] by simp
  with c assms(4) show ?thesis
    unfolding s' by (auto simp: sound_def svc_ok_def evolves_def split: if_splits)
qed

lemma GetPlatoon_sound:
  assumes "db_spec L contents" and "GetPlatoon J L s pid = (s', r)"
  shows "sound J contents s s'" and "ps_joinRequests s' = ps_joinRequests s"
    and "r = Some p \<Longrightarrow> mget (ps_platoons s') pid = Some p"
proof -
  have *: "sound J contents s s' \<and> ps_joinRequests s' = ps_joinRequests s
    \<and> (r = Some p \<longrightarrow> mget (ps_platoons s') pid = Some p)" for p
  proof (cases "mget (ps_platoons s) pid")
    case (Some q)
    with assms(2) show ?thesis by (auto simp: GetPlatoon_def)
  next
    case None
    show ?thesis
    proof (cases "loadPlatoonFromStorage J L (ps_storage s) pid")
      case (Some q)
      with assms(2) None have e: "s' = put_platoon s pid q" "r = Some q" by (auto simp: GetPlatoon_def)
      from Some obtain v where "contents (ps_storage s) (platoonKey pid) = Some v" "unmarshal J dec_platoon v = Some q"
        by (auto simp: loadPlatoonFromStorage_def Storage_Get_spec [OF assms(1)] split: option.splits)
      then have "svc_ok J contents s \<Longrightarrow> platoon_ok q \<and> pl_ID q = pid" by (simp add: svc_ok_def)
      with None show ?thesis
        unfolding e by (auto simp: sound_def svc_ok_def evolves_def put_platoon_def)
    qed (use assms(2) None in \<open>auto simp: GetPlatoon_def\<close>)
  qed
  then show "sound J contents s s'" "ps_joinRequests s' = ps_joinRequests s"
    "r = Some p \<Longrightarrow> mget (ps_platoons s') pid = Some p" by blast+
qed

text \<open>The common end of the operations: put the changed platoon back and store it.\<close>

lemma save_sound:
  assumes "db_spec L contents" and "json_ok J"
    and "mget (ps_platoons s) pid = Some p"
    and "svc_ok J contents s \<Longrightarrow> platoon_ok p' \<and> pl_ID p' = pid"
    and "status_step\<^sup>*\<^sup>* (pl_Status p) (pl_Status p')"
    and "storePlatoon J L (put_platoon s pid p') p' = (s', e)"
  shows "sound J contents s s'"
proof (cases "svc_ok J contents s")
  case True
  have "sound J contents s (put_platoon s pid p')" by (rule sound_put [OF assms(3-5)])
  moreover have "sound J contents (put_platoon s pid p') s'"
    using storePlatoon_sound [OF assms(1,2,6)] assms(4) True by blast
  ultimately show ?thesis by (rule sound_trans)
qed (simp add: sound_def)

interpretation sound: platoon_relation J L contents "\<lambda>s s'. db_spec L contents \<longrightarrow> json_ok J \<longrightarrow> sound J contents s s'"
  for J L contents
proof (unfold_locales, goal_cases)
  case 1 then show ?case by (blast intro: sound_trans)
next
  case 2 then show ?case by (simp add: sound_def)
next
  case 3 then show ?case by (simp add: sound_def svc_ok_def evolves_def)
next
  case 4 then show ?case using GetPlatoon_sound(1) by blast
next
  case (5 s pid p p' s' e)
  then show ?case using save_sound [of L contents J s pid p p' s' e] by blast
next
  case (6 s pid p' s' e)
  have "sound J contents s (put_platoon s pid p')"
    using 6(2,3,4) by (auto simp: sound_def svc_ok_def evolves_def put_platoon_def)
  with storePlatoon_sound [OF _ _ 6(5,3)] show ?case by (blast intro: sound_trans)
qed

lemmas CreatePlatoon_sound = sound.rel_create [rule_format, rotated 2]
  and SubmitJoinRequest_sound = sound.rel_submit [rule_format, rotated 1]
  and ProcessJoinRequest_sound = sound.rel_process [rule_format, rotated 1]
  and LeavePlatoon_sound = sound.rel_leave [rule_format, rotated 1]
  and DissolvePlatoon_sound = sound.rel_disband [rule_format, rotated 1]
  and AppointValidator_sound = sound.rel_appoint [rule_format, rotated 1]
  and DemoteValidator_sound = sound.rel_demote [rule_format, rotated 1]
  and platoon_run_sound = sound.rel_run [rule_format, rotated 1]

lemma status_run_final:
  assumes "status_step\<^sup>*\<^sup>* a b"
  shows "a = PlatoonStatusDissolved \<Longrightarrow> b = PlatoonStatusDissolved"
    and "a = PlatoonStatusUnderStaffed \<Longrightarrow> b \<in> {PlatoonStatusUnderStaffed, PlatoonStatusDissolved}"
  using assms by (induction rule: rtranclp_induct) (auto simp: status_step_simps status_defs)

section \<open>Properties\<close>

definition demo_platoon :: platoon where
  "demo_platoon = created 0 ''p'' 1 DefaultPlatoonParams []"

definition demo_platoons :: "(bytes \<rightharpoonup> bytes) platoon_service" where
  "demo_platoons = \<lparr>ps_storage = Map.empty, ps_platoons = mput fmempty ''p'' demo_platoon,
     ps_joinRequests = mput fmempty ''r'' \<lparr>jr_ID = ''r'', jr_PlatoonID = ''p'', jr_VehicleID = 2,
       jr_Destination = [], jr_RequestedAt = 0, jr_Status = JoinStatusPending, jr_ProcessedAt = 0,
       jr_ProcessedBy = 0\<rparr>,
     ps_history = fmempty, ps_events = []\<rparr>"

lemma default_params_ok: "PlatoonParams_Validate DefaultPlatoonParams = None"
  by (simp add: PlatoonParams_Validate_def DefaultPlatoonParams_def)

lemma demo_platoon_ok: "platoon_ok demo_platoon" "pl_ID demo_platoon = ''p''"
  by (simp_all add: demo_platoon_def created_ok default_params_ok) (simp add: created_def)

lemma demo_svc_ok: "svc_ok J (\<lambda>s. s) demo_platoons"
  by (auto simp: svc_ok_def demo_platoons_def demo_platoon_ok)

lemma demo_lookup: "mget (ps_platoons demo_platoons) ''p'' = Some demo_platoon"
  by (simp add: demo_platoons_def)

text \<open>
  C4. Every run of the platoon service keeps every platoon in memory and in the store well formed:
  parameters within their limits, members without duplicates and no more than the maximum, positions
  numbered from 0, validators without duplicates and all of them members, and the leader a member. A
  platoon stays under its id, and its status only moves along the life cycle.
\<close>

theorem platoon_service_invariant:
  assumes "db_spec L contents" and "json_ok J" and "svc_ok J contents s"
    and "(platoon_step J L)\<^sup>*\<^sup>* s s'"
  shows "svc_ok J contents s' \<and>
    (\<forall>pid p. mget (ps_platoons s) pid = Some p \<longrightarrow>
      (\<exists>p'. mget (ps_platoons s') pid = Some p' \<and> platoon_ok p' \<and> pl_ID p' = pid
        \<and> status_step\<^sup>*\<^sup>* (pl_Status p) (pl_Status p')))"
  using platoon_run_sound [OF assms(1,2,4)] assms(3) unfolding sound_def evolves_def
  by (meson svc_okD)

theorem platoon_service_invariant_witness:
  "svc_ok demo_json (\<lambda>s. s) (fst (LeavePlatoon demo_json map_db 5 demo_platoons ''p'' 1))"
proof -
  have "(platoon_step demo_json map_db)\<^sup>*\<^sup>* demo_platoons
      (fst (LeavePlatoon demo_json map_db 5 demo_platoons ''p'' 1))"
    by (intro r_into_rtranclp platoon_step.leave) (rule prod.collapse [symmetric])
  from platoon_service_invariant [OF map_db_spec demo_json_ok demo_svc_ok this] show ?thesis by blast
qed

text \<open>
  A dissolved platoon stays dissolved, and one that has become under-staffed never becomes active
  again, whatever members join it later: it stays under-staffed until it is dissolved.
\<close>

theorem platoon_status_final:
  assumes "db_spec L contents" and "json_ok J" and "svc_ok J contents s"
    and "mget (ps_platoons s) pid = Some p" and "(platoon_step J L)\<^sup>*\<^sup>* s s'"
  shows "\<exists>p'. mget (ps_platoons s') pid = Some p'
    \<and> (pl_Status p = PlatoonStatusDissolved \<longrightarrow> pl_Status p' = PlatoonStatusDissolved)
    \<and> (pl_Status p = PlatoonStatusUnderStaffed \<longrightarrow>
         pl_Status p' = PlatoonStatusUnderStaffed \<or> pl_Status p' = PlatoonStatusDissolved)"
proof -
  obtain p' where "mget (ps_platoons s') pid = Some p'" "status_step\<^sup>*\<^sup>* (pl_Status p) (pl_Status p')"
    using platoon_run_sound [OF assms(1,2,5)] assms(3,4) unfolding sound_def evolves_def by meson
  then show ?thesis using status_run_final [of "pl_Status p" "pl_Status p'"] by auto
qed

theorem platoon_status_final_witness:
  "\<exists>p'. mget (ps_platoons (fst (DissolvePlatoon demo_json map_db 5 demo_platoons ''p'' ''x''))) ''p'' = Some p'"
proof -
  have "(platoon_step demo_json map_db)\<^sup>*\<^sup>* demo_platoons
      (fst (DissolvePlatoon demo_json map_db 5 demo_platoons ''p'' ''x''))"
    by (intro r_into_rtranclp platoon_step.disband) (rule prod.collapse [symmetric])
  from platoon_status_final [OF map_db_spec demo_json_ok demo_svc_ok demo_lookup this] show ?thesis by blast
qed

lemma GetPlatoon_requests: "GetPlatoon J L s pid = (s', r) \<Longrightarrow> ps_joinRequests s' = ps_joinRequests s"
  by (auto simp: GetPlatoon_def put_platoon_def split: option.splits)

lemma request_frame [simp]:
  "ps_joinRequests (put_platoon s pid p) = ps_joinRequests s"
  "ps_joinRequests (recordHistory s pid h) = ps_joinRequests s"
  "ps_joinRequests (emitEvent s ev) = ps_joinRequests s"
  "ps_joinRequests (put_request s rid q) = mput (ps_joinRequests s) rid q"
  by (simp_all add: put_platoon_def recordHistory_def emitEvent_def put_request_def)

text \<open>
  ProcessJoinRequest without an error has processed a pending request on the word of the
  platoon's leader, and the request cannot be processed again. An approved vehicle is then a member,
  and only that vehicle was added.
\<close>

theorem join_request_result:
  assumes "svc_ok J contents s" and "db_spec L contents"
    and "ProcessJoinRequest J L now s rid approved proc = (s', None)"
  shows "\<exists>req s1 p req' p'. mget (ps_joinRequests s) rid = Some req \<and> jr_Status req = JoinStatusPending
    \<and> GetPlatoon J L s (jr_PlatoonID req) = (s1, Some p) \<and> pl_LeaderID p = proc
    \<and> mget (ps_joinRequests s') rid = Some req'
    \<and> jr_Status req' = (if approved then JoinStatusApproved else JoinStatusRejected)
    \<and> mget (ps_platoons s') (jr_PlatoonID req) = Some p'
    \<and> set (ids p') = (if approved then insert (jr_VehicleID req) (set (ids p)) else set (ids p))
    \<and> ProcessJoinRequest J L now' s' rid b proc' = (s', Some AlreadyProcessed)"
proof -
  obtain req where req: "mget (ps_joinRequests s) rid = Some req" "jr_Status req = JoinStatusPending"
    using assms(3) by (auto simp: ProcessJoinRequest_def split: option.splits if_splits)
  obtain s1 r where g: "GetPlatoon J L s (jr_PlatoonID req) = (s1, r)" by (meson surj_pair)
  obtain p where r: "r = Some p" and lead: "pl_LeaderID p = proc"
    using assms(3) req g by (auto simp: ProcessJoinRequest_def split: option.splits if_splits)
  note inmap = GetPlatoon_sound(3) [OF assms(2) g r]
  show ?thesis
  proof (cases approved)
    case False
    let ?q = "req\<lparr>jr_ProcessedAt := now, jr_ProcessedBy := proc, jr_Status := JoinStatusRejected\<rparr>"
    have e: "s' = put_request s1 rid ?q"
      using assms(3) req g r lead False by (simp add: ProcessJoinRequest_def)
    then have q: "mget (ps_joinRequests s') rid = Some ?q" "ps_platoons s' = ps_platoons s1" by simp_all
    have "ProcessJoinRequest J L now' s' rid b proc' = (s', Some AlreadyProcessed)"
      by (simp add: ProcessJoinRequest_def q(1) JoinStatusRejected_def JoinStatusPending_def)
    with q req g r lead inmap False show ?thesis by auto
  next
    case True
    let ?q = "req\<lparr>jr_ProcessedAt := now, jr_ProcessedBy := proc, jr_Status := JoinStatusApproved\<rparr>"
    let ?role = "if GetValidatorCount p < 7 then RoleValidator else RoleFollower"
    let ?p = "admitted now p (jr_VehicleID req)"
    have none: "snd (AddMember now p (jr_VehicleID req) ?role) = None"
    proof (rule ccontr)
      assume "\<not> ?thesis"
      then obtain err where "AddMember now p (jr_VehicleID req) ?role = (p, Some err)"
        by (metis AddMember_refused not_None_eq prod.collapse)
      with assms(3) req g r lead True show False by (simp add: ProcessJoinRequest_def Let_def)
    qed
    obtain s3 e3 where st: "storePlatoon J L (put_platoon (put_request s1 rid ?q) (jr_PlatoonID req) ?p) ?p = (s3, e3)"
      by (meson surj_pair)
    have e: "s' = emitEvent (recordHistory s3 (pl_ID ?p) (hist now EventMemberJoined (jr_VehicleID req) [] []))
        (pevent EventMemberJoined (pl_ID ?p) (jr_VehicleID req) now [])"
      using assms(3) True ProcessJoinRequest_admits [OF req g [unfolded r] lead none st]
      by (auto split: option.splits)
    note fr = storePlatoon_frame [OF st]
    have q: "mget (ps_joinRequests s') rid = Some ?q" "mget (ps_platoons s') (jr_PlatoonID req) = Some ?p"
      unfolding e using fr by simp_all
    have "ProcessJoinRequest J L now' s' rid b proc' = (s', Some AlreadyProcessed)"
      by (simp add: ProcessJoinRequest_def q(1) JoinStatusApproved_def JoinStatusPending_def)
    moreover have "set (ids ?p) = insert (jr_VehicleID req) (set (ids p))"
      by (rule admitted_ids [OF none])
    ultimately show ?thesis using q req g r lead True by auto
  qed
qed

theorem join_request_result_witness:
  "\<exists>s'. ProcessJoinRequest demo_json map_db 5 demo_platoons ''r'' False 1 = (s', None)
    \<and> ProcessJoinRequest demo_json map_db 6 s' ''r'' True 1 = (s', Some AlreadyProcessed)"
proof -
  have g: "GetPlatoon demo_json map_db demo_platoons ''p'' = (demo_platoons, Some demo_platoon)"
    by (simp add: GetPlatoon_def demo_lookup)
  have l: "pl_LeaderID demo_platoon = 1" by (simp add: demo_platoon_def created_def)
  obtain s' where s': "ProcessJoinRequest demo_json map_db 5 demo_platoons ''r'' False 1 = (s', None)"
    by (simp add: ProcessJoinRequest_def demo_platoons_def JoinStatusPending_def)
      (simp add: g [unfolded demo_platoons_def JoinStatusPending_def] l)
  from join_request_result [OF demo_svc_ok map_db_spec s'] s' show ?thesis by blast
qed

text \<open>
  A leader who is the only validator cannot leave: LeavePlatoon reports that there is no
  replacement and changes nothing. A platoon therefore keeps at least its leader, and LeavePlatoon
  never dissolves a platoon because its last member left.
\<close>

theorem sole_validator_cannot_leave:
  assumes "mget (ps_platoons s) pid = Some p" and "pl_LeaderID p = v" and "HasMember p v"
    and "length (pl_Validators p) \<le> 1"
  shows "LeavePlatoon J L now s pid v = (put_platoon s pid p, Some NoReplacement)"
  using assms by (simp add: LeavePlatoon_def GetPlatoon_def handleLeaderLeaving_def)

theorem sole_validator_cannot_leave_witness:
  "snd (LeavePlatoon demo_json map_db 5 demo_platoons ''p'' 1) = Some NoReplacement"
proof -
  have "pl_LeaderID demo_platoon = 1" "HasMember demo_platoon 1" "length (pl_Validators demo_platoon) \<le> 1"
    by (simp_all add: demo_platoon_def created_def HasMember_iff)
  from sole_validator_cannot_leave [OF demo_lookup this] show ?thesis by simp
qed

lemma dissolved_platoon_admits:
  "snd (ProcessJoinRequest J map_db 9
     (demo_platoons\<lparr>ps_platoons := mput fmempty ''p'' (demo_platoon\<lparr>pl_Status := PlatoonStatusDissolved\<rparr>)\<rparr>)
     ''r'' True 1) = None"
  by (simp add: ProcessJoinRequest_def GetPlatoon_def demo_platoons_def demo_platoon_def created_def
      JoinStatusPending_def AddMember_def HasMember_iff IsBlacklisted_def put_request_def
      DefaultPlatoonParams_def status_defs GetValidatorCount_def storePlatoon_def marshal_platoon_def
      map_db_def Storage_Put_def put_platoon_def Let_def set_role_def platoon_AddValidator_def
      platoon_IsValidator_def)

lemma created_leader_is_plain_validator:
  "map Role (pl_Members (created now pid leader params name)) = [RoleValidator]"
  by (simp add: created_def)

text \<open>A target speed of NaN passes validation, and the platoon stays in memory although it cannot be stored.\<close>

lemma nan_platoon_kept_in_memory:
  assumes "CreatePlatoon J L now pid s leader (DefaultPlatoonParams\<lparr>TargetSpeed := NaN\<rparr>) name = (s', r)"
  shows "r = Inl MarshalFailed \<and> mget (ps_platoons s') pid \<noteq> None"
proof -
  let ?params = "DefaultPlatoonParams\<lparr>TargetSpeed := NaN\<rparr>"
  have v: "PlatoonParams_Validate ?params = None"
    by (simp add: PlatoonParams_Validate_def DefaultPlatoonParams_def)
  have st: "storePlatoon J L (put_platoon s pid (created now pid leader ?params name))
      (created now pid leader ?params name)
    = (put_platoon s pid (created now pid leader ?params name), Some MarshalFailed)"
    by (simp add: storePlatoon_def marshal_platoon_def created_def)
  from CreatePlatoon_result [OF v st] assms show ?thesis by auto
qed

end
