(* ===== verification/Platoon_Store.thy ===== *)
theory Platoon_Store
  imports Platoon_Runs
begin

text \<open>
  The platoon service and its store (service/platoon/service.go): what NewService finds again after a restart, and
  the keys of the shared store that the service leaves alone.
\<close>

section \<open>The store mirrors the memory\<close>

text \<open>json.Marshal refuses a speed or a distance that is not finite, so such a platoon is only in memory.\<close>

definition storable :: "platoon \<Rightarrow> bool" where
  "storable p \<longleftrightarrow> fl_finite (TargetSpeed (pl_Params p)) \<and> fl_finite (SafeDistance (pl_Params p))"

definition never_fails :: "'s db \<Rightarrow> bool" where
  "never_fails L \<longleftrightarrow> (\<forall>s k v. snd (db_Put L s k v) = None)"

definition stored_as :: "json_lib \<Rightarrow> ('s \<Rightarrow> bytes \<Rightarrow> bytes option) \<Rightarrow> 's \<Rightarrow> string \<Rightarrow> platoon \<Rightarrow> bool" where
  "stored_as J contents st pid p \<longleftrightarrow>
     (\<exists>v. contents st (platoonKey pid) = Some v \<and> unmarshal J dec_platoon v = Some p)"

definition mirrored :: "json_lib \<Rightarrow> ('s \<Rightarrow> bytes \<Rightarrow> bytes option) \<Rightarrow> 's platoon_service \<Rightarrow> bool" where
  "mirrored J contents s \<longleftrightarrow> (\<forall>pid p. stored_as J contents (ps_storage s) pid p
     \<longleftrightarrow> mget (ps_platoons s) pid = Some p \<and> storable p)"

text \<open>\<open>kept\<close>: the invariant of the service holds on, and the mirror with it.\<close>

definition kept ::
  "json_lib \<Rightarrow> 's db \<Rightarrow> ('s \<Rightarrow> bytes \<Rightarrow> bytes option) \<Rightarrow> 's platoon_service \<Rightarrow> 's platoon_service \<Rightarrow> bool" where
  "kept J L contents s s' \<longleftrightarrow> (db_spec L contents \<longrightarrow> json_ok J \<longrightarrow> never_fails L \<longrightarrow> svc_ok J contents s \<longrightarrow>
     svc_ok J contents s' \<and> (mirrored J contents s \<longrightarrow> mirrored J contents s'))"

lemma stored_svc_ok:
  "svc_ok J contents s \<Longrightarrow> stored_as J contents (ps_storage s) pid p \<Longrightarrow> platoon_ok p \<and> pl_ID p = pid"
  by (auto simp: svc_ok_def stored_as_def)

lemma platoonKey_inject [simp]: "platoonKey a = platoonKey b \<longleftrightarrow> a = b"
  by (simp add: platoonKey_def)

text \<open>Putting a changed or a new platoon back and storing it.\<close>

lemma stored_after_save:
  assumes "db_spec L contents" and "json_ok J" and "never_fails L" and "platoon_ok p" and "pl_ID p = pid"
    and "storePlatoon J L (put_platoon s pid p) p = (s', e)"
  shows "stored_as J contents (ps_storage s') k q \<longleftrightarrow>
    (if storable p \<and> k = pid then q = p else stored_as J contents (ps_storage s) k q)"
proof (cases "storable p")
  case False
  then have "ps_storage s' = ps_storage s"
    using assms(6) by (auto simp: storePlatoon_def marshal_platoon_def storable_def)
  with False show ?thesis by simp
next
  case True
  let ?v = "js_text J (enc_platoon p)"
  obtain st r where put: "Storage_Put L (ps_storage s) (platoonKey pid) ?v = (st, r)" by (meson surj_pair)
  then have "r = None" using assms(3) by (auto simp: Storage_Put_def never_fails_def split: prod.splits) (metis snd_conv)
  with Storage_Put_spec [OF assms(1) put] have c: "contents st = (contents (ps_storage s))(platoonKey pid \<mapsto> ?v)"
    by simp
  have "ps_storage s' = st"
    using True put assms(5,6) by (auto simp: storePlatoon_def marshal_platoon_def storable_def)
  moreover have "unmarshal J dec_platoon ?v = Some p"
    using assms(2) platoon_ok_roundtrip [OF assms(4)] by simp
  ultimately show ?thesis using True by (auto simp: stored_as_def c)
qed

lemma mirrored_save:
  assumes "db_spec L contents" and "json_ok J" and "never_fails L" and "platoon_ok p'" and "pl_ID p' = pid"
    and "storePlatoon J L (put_platoon s pid p') p' = (s', e)"
    and "mirrored J contents s" and "\<And>p. mget (ps_platoons s) pid = Some p \<Longrightarrow> pl_Params p' = pl_Params p"
  shows "mirrored J contents s'"
proof -
  have m: "ps_platoons s' = mput (ps_platoons s) pid p'" using storePlatoon_frame [OF assms(6)] by simp
  have "storable p \<longleftrightarrow> storable p'" if "mget (ps_platoons s) pid = Some p" for p
    using assms(8) [OF that] by (simp add: storable_def)
  with assms(7) show ?thesis
    unfolding mirrored_def stored_after_save [OF assms(1-6)] m by auto
qed

interpretation kept: platoon_relation J L contents "kept J L contents" for J L contents
proof (unfold_locales, goal_cases)
  case 1 then show ?case by (simp add: kept_def)
next
  case 2 then show ?case by (simp add: kept_def)
next
  case 3 then show ?case by (simp add: kept_def svc_ok_def mirrored_def)
next
  case (4 s pid s' r)
  show ?case unfolding kept_def
  proof (intro impI conjI)
    assume *: "db_spec L contents" "json_ok J" "never_fails L" "svc_ok J contents s"
    show "svc_ok J contents s'" using GetPlatoon_sound(1) [OF *(1) 4] *(4) by (simp add: sound_def)
    assume m: "mirrored J contents s"
    have "s' = s"
    proof (cases "mget (ps_platoons s) pid = None \<and> loadPlatoonFromStorage J L (ps_storage s) pid \<noteq> None")
      case False
      with 4 show ?thesis by (auto simp: GetPlatoon_def split: option.splits)
    next
      case True
      then obtain p where "loadPlatoonFromStorage J L (ps_storage s) pid = Some p" by blast
      then have "stored_as J contents (ps_storage s) pid p"
        by (auto simp: loadPlatoonFromStorage_def Storage_Get_spec [OF *(1)] stored_as_def split: option.splits)
      with m True show ?thesis by (simp add: mirrored_def)
    qed
    with m show "mirrored J contents s'" by simp
  qed
next
  case (5 s pid p p' s' e)
  then have "db_spec L contents \<Longrightarrow> json_ok J \<Longrightarrow> svc_ok J contents s'"
    using sound.rel_save [of J contents s pid p p' L s' e] by (simp add: sound_def)
  moreover have "db_spec L contents \<Longrightarrow> json_ok J \<Longrightarrow> never_fails L \<Longrightarrow> mirrored J contents s \<Longrightarrow> mirrored J contents s'"
    using mirrored_save [OF _ _ _ 5(3,4,7)] 5(2,5) by simp
  ultimately show ?case by (simp add: kept_def)
next
  case (6 s pid p' s' e)
  then have "db_spec L contents \<Longrightarrow> json_ok J \<Longrightarrow> svc_ok J contents s'"
    using sound.rel_new [of J contents s pid p' L s' e] by (simp add: sound_def)
  moreover have "db_spec L contents \<Longrightarrow> json_ok J \<Longrightarrow> never_fails L \<Longrightarrow> mirrored J contents s \<Longrightarrow> mirrored J contents s'"
    using mirrored_save [OF _ _ _ 6(3,4,5)] 6(2) by simp
  ultimately show ?case by (simp add: kept_def)
qed

section \<open>Other keys\<close>

text \<open>\<open>same_elsewhere\<close>: the two stores agree on every key that does not start with the prefix of platoons.\<close>

definition same_elsewhere :: "('s \<Rightarrow> bytes \<Rightarrow> bytes option) \<Rightarrow> 's \<Rightarrow> 's \<Rightarrow> bool" where
  "same_elsewhere contents st st' \<longleftrightarrow> (\<forall>k. \<not> prefix_of PrefixPlatoon k \<longrightarrow> contents st' k = contents st k)"

lemma same_elsewhere_get:
  "db_spec L contents \<Longrightarrow> same_elsewhere contents st st' \<Longrightarrow> \<not> prefix_of PrefixPlatoon k
     \<Longrightarrow> Storage_Get L st' k = Storage_Get L st k"
  by (simp add: Storage_Get_spec same_elsewhere_def)

lemma storePlatoon_elsewhere:
  assumes "db_spec L contents" and "storePlatoon J L s p = (s', e)"
  shows "same_elsewhere contents (ps_storage s) (ps_storage s')"
proof (cases "marshal_platoon J p")
  case None
  with assms(2) show ?thesis by (simp add: storePlatoon_def same_elsewhere_def)
next
  case (Some data)
  obtain st r where put: "Storage_Put L (ps_storage s) (platoonKey (pl_ID p)) data = (st, r)" by (meson surj_pair)
  have "prefix_of PrefixPlatoon (platoonKey (pl_ID p))" by (simp add: prefix_of_def platoonKey_def)
  with Storage_Put_spec [OF assms(1) put] have "same_elsewhere contents (ps_storage s) st"
    by (auto simp: same_elsewhere_def)
  with assms(2) Some put show ?thesis by (auto simp: storePlatoon_def)
qed

definition keeps_elsewhere ::
  "json_lib \<Rightarrow> 's db \<Rightarrow> ('s \<Rightarrow> bytes \<Rightarrow> bytes option) \<Rightarrow> 's platoon_service \<Rightarrow> 's platoon_service \<Rightarrow> bool" where
  "keeps_elsewhere J L contents s s' \<longleftrightarrow> (db_spec L contents \<longrightarrow> json_ok J \<longrightarrow> svc_ok J contents s \<longrightarrow>
     svc_ok J contents s' \<and> same_elsewhere contents (ps_storage s) (ps_storage s'))"

interpretation elsewhere: platoon_relation J L contents "keeps_elsewhere J L contents" for J L contents
proof (unfold_locales, goal_cases)
  case 1 then show ?case by (simp add: keeps_elsewhere_def same_elsewhere_def)
next
  case 2 then show ?case by (simp add: keeps_elsewhere_def)
next
  case 3 then show ?case by (simp add: keeps_elsewhere_def same_elsewhere_def svc_ok_def)
next
  case (4 s pid s' r)
  then have "ps_storage s' = ps_storage s" by (auto simp: GetPlatoon_def split: option.splits)
  with sound.rel_get [OF 4, of contents] show ?case
    by (simp add: keeps_elsewhere_def same_elsewhere_def sound_def)
next
  case (5 s pid p p' s' e)
  then show ?case
    using sound.rel_save [of J contents s pid p p' L s' e] storePlatoon_elsewhere [OF _ 5(7)]
    by (simp add: keeps_elsewhere_def sound_def)
next
  case (6 s pid p' s' e)
  then show ?case
    using sound.rel_new [of J contents s pid p' L s' e] storePlatoon_elsewhere [OF _ 6(5)]
    by (simp add: keeps_elsewhere_def sound_def)
qed

section \<open>Other platoons\<close>

text \<open>\<open>answers_kept\<close>: outside \<open>T\<close> the service answers every question about a platoon as before.\<close>

definition answers_kept ::
  "json_lib \<Rightarrow> 's db \<Rightarrow> ('s \<Rightarrow> bytes \<Rightarrow> bytes option) \<Rightarrow> (string \<Rightarrow> bool) \<Rightarrow> 's platoon_service \<Rightarrow> 's platoon_service \<Rightarrow> bool"
where
  "answers_kept J L contents T s s' \<longleftrightarrow> (db_spec L contents \<longrightarrow> json_ok J \<longrightarrow> svc_ok J contents s \<longrightarrow>
     svc_ok J contents s' \<and> (\<forall>pid. \<not> T pid \<longrightarrow> snd (GetPlatoon J L s' pid) = snd (GetPlatoon J L s pid)))"

lemma GetPlatoon_answer:
  assumes "db_spec L contents"
  shows "snd (GetPlatoon J L s pid) = (case mget (ps_platoons s) pid of Some p \<Rightarrow> Some p
    | None \<Rightarrow> Option.bind (contents (ps_storage s) (platoonKey pid)) (unmarshal J dec_platoon))"
  by (simp add: GetPlatoon_def loadPlatoonFromStorage_def Storage_Get_spec [OF assms] split: option.split)

lemma save_answer:
  assumes "db_spec L contents" and "storePlatoon J L (put_platoon s pid p) p = (s', e)" and "pl_ID p = pid" and "k \<noteq> pid"
  shows "snd (GetPlatoon J L s' k) = snd (GetPlatoon J L s k)"
proof -
  have m: "mget (ps_platoons s') k = mget (ps_platoons s) k"
    using storePlatoon_frame [OF assms(2)] assms(4) by (simp add: put_platoon_def)
  have "contents (ps_storage s') (platoonKey k) = contents (ps_storage s) (platoonKey k)"
  proof (cases "marshal_platoon J p")
    case (Some data)
    obtain st r where put: "Storage_Put L (ps_storage s) (platoonKey pid) data = (st, r)" by (meson surj_pair)
    with assms(2,3) Some have "ps_storage s' = st" by (auto simp: storePlatoon_def put_platoon_def)
    with Storage_Put_spec [OF assms(1) put] assms(4) show ?thesis by simp
  qed (use assms(2) in \<open>auto simp: storePlatoon_def put_platoon_def\<close>)
  with m show ?thesis by (simp add: GetPlatoon_answer [OF assms(1)] split: option.split)
qed

interpretation alone: platoon_relation_on J L contents "answers_kept J L contents T" T for J L contents T
proof (unfold_locales, goal_cases)
  case 1 then show ?case by (simp add: answers_kept_def)
next
  case 2 then show ?case by (simp add: answers_kept_def)
next
  case 3 then show ?case by (simp add: answers_kept_def svc_ok_def GetPlatoon_answer split: option.split)
next
  case (4 s pid s' r)
  have "snd (GetPlatoon J L s' k) = snd (GetPlatoon J L s k)" for k
    using 4 by (cases "mget (ps_platoons s) pid"; cases "k = pid") (auto simp: GetPlatoon_def put_platoon_def split: option.splits)
  with sound.rel_get [OF 4, of contents] show ?case by (simp add: answers_kept_def sound_def)
next
  case (5 s pid p p' s' e)
  have "snd (GetPlatoon J L s' k) = snd (GetPlatoon J L s k)" if "db_spec L contents" and "\<not> T k" for k
    by (rule save_answer [OF that(1) 5(7,4)]) (use that(2) 5(8) in auto)
  moreover have "db_spec L contents \<Longrightarrow> json_ok J \<Longrightarrow> svc_ok J contents s'"
    using sound.rel_save [of J contents s pid p p' L s' e] 5(1-7) by (simp add: sound_def)
  ultimately show ?case unfolding answers_kept_def by blast
next
  case (6 s pid p' s' e)
  have "snd (GetPlatoon J L s' k) = snd (GetPlatoon J L s k)" if "db_spec L contents" and "\<not> T k" for k
    by (rule save_answer [OF that(1) 6(5,4)]) (use that(2) 6(6) in auto)
  moreover have "db_spec L contents \<Longrightarrow> json_ok J \<Longrightarrow> svc_ok J contents s'"
    using sound.rel_new [of J contents s pid p' L s' e] 6(1-5) by (simp add: sound_def)
  ultimately show ?case unfolding answers_kept_def by blast
qed

section \<open>Loading\<close>

text \<open>A store in which every platoon that decodes is well formed and under its own key.\<close>

definition store_ok :: "json_lib \<Rightarrow> ('s \<Rightarrow> bytes \<Rightarrow> bytes option) \<Rightarrow> 's \<Rightarrow> bool" where
  "store_ok J contents st \<longleftrightarrow> (\<forall>pid p. stored_as J contents st pid p \<longrightarrow> platoon_ok p \<and> pl_ID p = pid \<and> storable p)"

lemma fold_put:
  assumes "\<And>p q. p \<in> set ps \<Longrightarrow> q \<in> set ps \<Longrightarrow> f p = f q \<Longrightarrow> p = q"
  shows "mget (fold (\<lambda>p m. mput m (f p) p) ps m) k = Some p
    \<longleftrightarrow> p \<in> set ps \<and> f p = k \<or> k \<notin> f ` set ps \<and> mget m k = Some p"
  using assms
proof (induction ps arbitrary: m)
  case (Cons q ps)
  have "mget (fold (\<lambda>p m. mput m (f p) p) (q # ps) m) k = Some p \<longleftrightarrow>
    p \<in> set ps \<and> f p = k \<or> k \<notin> f ` set ps \<and> mget (mput m (f q) q) k = Some p"
    using Cons.IH [of "mput m (f q) q"] Cons.prems by simp
  also have "\<dots> \<longleftrightarrow> p \<in> set (q # ps) \<and> f p = k \<or> k \<notin> f ` set (q # ps) \<and> mget m k = Some p"
    using Cons.prems by auto
  finally show ?case .
qed simp

lemma fold_decoded:
  "fold (\<lambda>v m. case dec v of None \<Rightarrow> m | Some p \<Rightarrow> mput m (f p) p) vs m
   = fold (\<lambda>p m. mput m (f p) p) (List.map_filter dec vs) m"
  by (induction vs arbitrary: m) (auto simp: List.map_filter_simps split: option.split)

lemma decoded_set: "p \<in> set (List.map_filter dec vs) \<longleftrightarrow> (\<exists>v \<in> set vs. dec v = Some p)"
  by (auto simp: List.map_filter_def) force+

lemma string_bytes_surj: "\<exists>s. k = string_bytes s"
proof
  have "(of_char (char_of (unat b)) :: byte) = b" for b :: byte
  proof -
    have "(of_char (char_of (unat b)) :: byte) = of_nat (of_char (char_of (unat b) :: char))"
      by (rule of_nat_of_char [symmetric])
    moreover have "(of_char (char_of (unat b)) :: nat) = unat b"
    proof -
      have "unat b < 2 ^ LENGTH(8)" by (rule unsigned_less)
      then show ?thesis by (simp only: of_char_of) simp
    qed
    ultimately show ?thesis by (metis of_nat_unat ucast_id)
  qed
  then show "k = string_bytes (map (\<lambda>b. char_of (unat b)) k)"
    by (simp add: string_bytes_def comp_def)
qed

lemma platoonKey_prefix: "prefix_of PrefixPlatoon k \<longleftrightarrow> (\<exists>pid. k = platoonKey pid)"
proof
  assume "prefix_of PrefixPlatoon k"
  then have "k = PrefixPlatoon @ drop (length PrefixPlatoon) k"
    unfolding prefix_of_def by (metis append_take_drop_id)
  with string_bytes_surj [of "drop (length PrefixPlatoon) k"] show "\<exists>pid. k = platoonKey pid"
    by (auto simp: platoonKey_def)
qed (auto simp: prefix_of_def platoonKey_def)

lemma NewPlatoonService_storage [simp]: "ps_storage (NewPlatoonService J I st) = st"
  by (simp add: NewPlatoonService_def loadPlatoons_def split: prod.split)

lemma NewPlatoonService_platoons:
  assumes "iter_spec I contents" and "store_ok J contents st"
  shows "mget (ps_platoons (NewPlatoonService J I st)) pid = Some p \<longleftrightarrow> stored_as J contents st pid p"
proof -
  let ?f = "\<lambda>v m. case unmarshal J dec_platoon v of None \<Rightarrow> m | Some p \<Rightarrow> mput m (pl_ID p) p"
  let ?ps = "List.map_filter (unmarshal J dec_platoon) (iter_values I st PrefixPlatoon)"
  have loaded: "ps_platoons (NewPlatoonService J I st) = fold ?f (iter_values I st PrefixPlatoon) fmempty"
    using for_each_values [of "\<lambda>it m. case unmarshal J dec_platoon (it_Value it) of
        None \<Rightarrow> m | Some p \<Rightarrow> mput m (pl_ID p) p" ?f I st PrefixPlatoon fmempty]
    by (simp add: NewPlatoonService_def loadPlatoons_def it_Value_def split_beta)
  have mem: "q \<in> set ?ps \<longleftrightarrow> stored_as J contents st (pl_ID q) q" for q
  proof
    assume "q \<in> set ?ps"
    then obtain v where v: "v \<in> set (iter_values I st PrefixPlatoon)" "unmarshal J dec_platoon v = Some q"
      by (auto simp: decoded_set)
    from iter_values_sound [OF assms(1) v(1)] obtain k where "contents st (platoonKey k) = Some v"
      unfolding platoonKey_prefix by blast
    with v(2) have "stored_as J contents st k q" by (auto simp: stored_as_def)
    with assms(2) show "stored_as J contents st (pl_ID q) q" unfolding store_ok_def by metis
  next
    assume "stored_as J contents st (pl_ID q) q"
    then obtain v where v: "contents st (platoonKey (pl_ID q)) = Some v" "unmarshal J dec_platoon v = Some q"
      by (auto simp: stored_as_def)
    have "v \<in> set (iter_values I st PrefixPlatoon)"
      by (rule iter_values_complete [OF assms(1) _ v(1)]) (auto simp: platoonKey_prefix)
    with v(2) show "q \<in> set ?ps" by (auto simp: decoded_set)
  qed
  have "mget (fold (\<lambda>p m. mput m (pl_ID p) p) ?ps fmempty) pid = Some p \<longleftrightarrow> p \<in> set ?ps \<and> pl_ID p = pid"
    by (subst fold_put) (auto simp: mem stored_as_def)
  also have "\<dots> \<longleftrightarrow> stored_as J contents st pid p"
    using assms(2) unfolding mem store_ok_def by metis
  finally show ?thesis unfolding loaded fold_decoded .
qed

lemma NewPlatoonService_ok:
  assumes "iter_spec I contents" and "store_ok J contents st"
  shows "svc_ok J contents (NewPlatoonService J I st)" and "mirrored J contents (NewPlatoonService J I st)"
  using assms(2) unfolding svc_ok_def mirrored_def NewPlatoonService_platoons [OF assms]
  by (auto simp: store_ok_def stored_as_def)

section \<open>Properties\<close>

text \<open>
  C32. The platoons of the service survive a restart: after any run over a store that does not fail, a new
  service over the same store holds exactly the platoons that the old one held and that can be written,
  with their members, validators, leader and status as they were.
\<close>

theorem platoons_survive_restart:
  assumes "db_spec L contents" and "json_ok J" and "iter_spec I contents" and "never_fails L"
    and "store_ok J contents st" and "(platoon_step J L)\<^sup>*\<^sup>* (NewPlatoonService J I st) s"
  shows "mget (ps_platoons (NewPlatoonService J I (ps_storage s))) pid
    = (case mget (ps_platoons s) pid of None \<Rightarrow> None | Some p \<Rightarrow> if storable p then Some p else None)"
proof -
  have ok: "svc_ok J contents s" and mir: "mirrored J contents s"
    using kept.rel_run [OF assms(6), of contents] NewPlatoonService_ok [OF assms(3,5)] assms(1,2,4)
    by (simp_all add: kept_def)
  then have "store_ok J contents (ps_storage s)"
    using svc_okD [OF ok] unfolding store_ok_def mirrored_def by blast
  note again = NewPlatoonService_platoons [OF assms(3) this]
  have "mget (ps_platoons (NewPlatoonService J I (ps_storage s))) pid = Some p
      \<longleftrightarrow> mget (ps_platoons s) pid = Some p \<and> storable p" for p
    using again [of pid p] mir by (simp add: mirrored_def)
  then show ?thesis
    by (cases "mget (ps_platoons s) pid"; cases "mget (ps_platoons (NewPlatoonService J I (ps_storage s))) pid")
      (simp_all, metis+)
qed

text \<open>A run over an empty association list, in which vehicle 1 creates a platoon.\<close>

theorem platoons_survive_restart_witness:
  "\<exists>s :: (bytes \<times> bytes) list platoon_service.
    mget (ps_platoons (NewPlatoonService demo_json alist_entries (ps_storage s))) ''p''
    = Some (created 5 ''p'' 1 DefaultPlatoonParams ''x'')"
proof -
  let ?s0 = "NewPlatoonService demo_json alist_entries []" and ?p = "created 5 ''p'' 1 DefaultPlatoonParams ''x''"
  obtain s r where c: "CreatePlatoon demo_json alist_db 5 ''p'' ?s0 1 DefaultPlatoonParams ''x'' = (s, r)" by (meson surj_pair)
  have ok: "store_ok demo_json map_of []" by (simp add: store_ok_def stored_as_def)
  have none: "mget (ps_platoons ?s0) ''p'' = None"
    using NewPlatoonService_platoons [OF alist_entries_spec ok] by (metis not_None_eq ok stored_as_def map_of.simps(1) option.distinct(1))
  then have run: "(platoon_step demo_json alist_db)\<^sup>*\<^sup>* ?s0 s" using platoon_step.create [OF c] by blast
  obtain s1 e where st: "storePlatoon demo_json alist_db (put_platoon ?s0 ''p'' ?p) ?p = (s1, e)" by (meson surj_pair)
  have "mget (ps_platoons s) ''p'' = Some ?p"
    using c CreatePlatoon_result [OF default_params_ok st] storePlatoon_frame [OF st] by (auto split: option.splits)
  moreover have "storable ?p" by (simp add: storable_def created_def DefaultPlatoonParams_def)
  moreover have "never_fails alist_db" by (simp add: never_fails_def alist_db_def)
  ultimately show ?thesis
    using platoons_survive_restart [OF alist_db_spec demo_json_ok alist_entries_spec _ ok run, of "''p''"] by auto
qed

end
