(* ===== verification/State_Service.thy ===== *)
theory State_Service
  imports Block_Storage Hash_Chain Merkle_Scheme Crypto_Laws "HOL-Library.Signed_Division"
begin

text \<open>
  State traceability (service/state/types.go and service.go): events by entity, the hash-linked
  audit log and its Merkle anchors, the platoon history of vehicles, anomaly reports, statistics and
  retention. Values of Go type \<open>interface{}\<close> are JSON trees; event metadata is the list of its
  entries in the order of keys in which Marshal writes them. Generated identifiers and the clock are
  arguments. Every lock is released before the next one is taken, so they are left out; subscribers
  run in goroutines of their own and are not modelled. The audit log interprets \<open>hash_chain\<close>, the
  two root computations interpret \<open>merkle_scheme\<close>.
\<close>

section \<open>Events and audit records\<close>

type_synonym ChangeType = u8

definition ChangeTypePlatoonCreated :: ChangeType where "ChangeTypePlatoonCreated = 0"
definition ChangeTypePlatoonDissolved :: ChangeType where "ChangeTypePlatoonDissolved = 1"
definition ChangeTypeMemberJoined :: ChangeType where "ChangeTypeMemberJoined = 2"
definition ChangeTypeMemberLeft :: ChangeType where "ChangeTypeMemberLeft = 3"
definition ChangeTypeLeaderChanged :: ChangeType where "ChangeTypeLeaderChanged = 4"
definition ChangeTypeValidatorAdded :: ChangeType where "ChangeTypeValidatorAdded = 5"
definition ChangeTypeValidatorRemoved :: ChangeType where "ChangeTypeValidatorRemoved = 6"
definition ChangeTypeParamsUpdated :: ChangeType where "ChangeTypeParamsUpdated = 7"
definition ChangeTypeStatusChanged :: ChangeType where "ChangeTypeStatusChanged = 8"
definition ChangeTypeIdentityRegistered :: ChangeType where "ChangeTypeIdentityRegistered = 9"
definition ChangeTypeCertificateUpdated :: ChangeType where "ChangeTypeCertificateUpdated = 10"
definition ChangeTypeCertificateRevoked :: ChangeType where "ChangeTypeCertificateRevoked = 11"

lemmas change_type_defs = ChangeTypePlatoonCreated_def ChangeTypePlatoonDissolved_def
  ChangeTypeMemberJoined_def ChangeTypeMemberLeft_def ChangeTypeLeaderChanged_def
  ChangeTypeStatusChanged_def

definition ChangeType_String :: "ChangeType \<Rightarrow> string" where
  "ChangeType_String t =
     (if t = ChangeTypePlatoonCreated then ''platoon_created''
      else if t = ChangeTypePlatoonDissolved then ''platoon_dissolved''
      else if t = ChangeTypeMemberJoined then ''member_joined''
      else if t = ChangeTypeMemberLeft then ''member_left''
      else if t = ChangeTypeLeaderChanged then ''leader_changed''
      else if t = ChangeTypeValidatorAdded then ''validator_added''
      else if t = ChangeTypeValidatorRemoved then ''validator_removed''
      else if t = ChangeTypeParamsUpdated then ''params_updated''
      else if t = ChangeTypeStatusChanged then ''status_changed''
      else if t = ChangeTypeIdentityRegistered then ''identity_registered''
      else if t = ChangeTypeCertificateUpdated then ''certificate_updated''
      else if t = ChangeTypeCertificateRevoked then ''certificate_revoked''
      else ''unknown'')"

record event =
  ev_ID :: string
  ev_Type :: ChangeType
  ev_EntityID :: string
  ev_EntityType :: string
  ev_Timestamp :: i64
  ev_BlockHeight :: u64
  ev_TxHash :: hash
  ev_Attribute :: string
  ev_OldValue :: "json option"
  ev_NewValue :: "json option"
  ev_ActorID :: address
  ev_Metadata :: "(string \<times> json) list"

datatype state_error = EventIDRequired | EntityIDRequired | TimestampRequired | EntityNotFound

definition event_Validate :: "event \<Rightarrow> state_error option" where
  "event_Validate e =
     (if ev_ID e = [] then Some EventIDRequired
      else if ev_EntityID e = [] then Some EntityIDRequired
      else if ev_Timestamp e = 0 then Some TimestampRequired
      else None)"

definition HasOldValue :: "event \<Rightarrow> bool" where "HasOldValue e \<longleftrightarrow> ev_OldValue e \<noteq> None"
definition HasNewValue :: "event \<Rightarrow> bool" where "HasNewValue e \<longleftrightarrow> ev_NewValue e \<noteq> None"

definition opt_field :: "string \<Rightarrow> json option \<Rightarrow> (string \<times> json) list" where
  "opt_field k v = (case v of None \<Rightarrow> [] | Some j \<Rightarrow> [(k, j)])"

definition enc_event :: "event \<Rightarrow> json" where
  "enc_event e = JObj (
     [(''id'', JStr (ev_ID e)), (''type'', enc_uint (ev_Type e)), (''entity_id'', JStr (ev_EntityID e)),
      (''entity_type'', JStr (ev_EntityType e)), (''timestamp'', enc_sint (ev_Timestamp e)),
      (''block_height'', enc_uint (ev_BlockHeight e)), (''tx_hash'', enc_hash (ev_TxHash e))]
     @ (if ev_Attribute e = [] then [] else [(''attribute'', JStr (ev_Attribute e))])
     @ opt_field ''old_value'' (ev_OldValue e) @ opt_field ''new_value'' (ev_NewValue e)
     @ [(''actor_id'', enc_address (ev_ActorID e))]
     @ (if ev_Metadata e = [] then [] else [(''metadata'', JObj (ev_Metadata e))]))"

text \<open>Marshal fails on a number that is not finite; the error is dropped and no bytes are hashed.\<close>

fun js_finite :: "json \<Rightarrow> bool" where
  "js_finite (JFloat (Fin _)) = True"
| "js_finite (JFloat _) = False"
| "js_finite (JArr js) = list_all js_finite js"
| "js_finite (JObj fs) = list_all (\<lambda>(k, j). js_finite j) fs"
| "js_finite _ = True"

definition marshal_or_nil :: "json_lib \<Rightarrow> json \<Rightarrow> bytes" where
  "marshal_or_nil J j = (if js_finite j then js_text J j else [])"

definition event_CalculateHash :: "crypto \<Rightarrow> json_lib \<Rightarrow> event \<Rightarrow> hash" where
  "event_CalculateHash C J e = keccak256 C (marshal_or_nil J (enc_event e))"

record audit_record =
  ar_ID :: string
  ar_Timestamp :: i64
  ar_PrevHash :: hash
  ar_EventHash :: hash
  ar_Event :: event
  ar_MerkleRoot :: hash
  ar_BlockHeight :: u64

definition audit_json :: "audit_record \<Rightarrow> json" where
  "audit_json r = JObj [(''id'', JStr (ar_ID r)), (''timestamp'', enc_sint (ar_Timestamp r)),
     (''prev_hash'', enc_hash (ar_PrevHash r)), (''event_hash'', enc_hash (ar_EventHash r))]"

definition audit_CalculateHash :: "crypto \<Rightarrow> json_lib \<Rightarrow> audit_record \<Rightarrow> hash" where
  "audit_CalculateHash C J r = keccak256 C (js_text J (audit_json r))"

record snapshot =
  sn_Timestamp :: i64
  sn_BlockHeight :: u64
  sn_EntityID :: string
  sn_EntityType :: string
  sn_State :: "(string, json) fmap"

record vehicle_history =
  vh_VehicleID :: address
  vh_PlatoonID :: string
  vh_JoinedAt :: i64
  vh_LeftAt :: i64
  vh_Role :: string
  vh_Duration :: i64

record retention_policy =
  rp_HotStorageDays :: int
  rp_WarmStorageDays :: int
  rp_ArchiveToCloud :: bool

definition DefaultRetentionPolicy :: retention_policy where
  "DefaultRetentionPolicy = \<lparr>rp_HotStorageDays = 7, rp_WarmStorageDays = 365, rp_ArchiveToCloud = True\<rparr>"

datatype AnomalyType = AnomalyTypeFrequentJoinLeave | AnomalyTypeLeaderFrequentChange
  | AnomalyTypeSuspiciousMessagePattern | AnomalyTypeValidatorFailure | AnomalyTypeNetworkPartition

fun AnomalyType_String :: "AnomalyType \<Rightarrow> string" where
  "AnomalyType_String AnomalyTypeFrequentJoinLeave = ''frequent_join_leave''"
| "AnomalyType_String AnomalyTypeLeaderFrequentChange = ''leader_frequent_change''"
| "AnomalyType_String AnomalyTypeSuspiciousMessagePattern = ''suspicious_message_pattern''"
| "AnomalyType_String AnomalyTypeValidatorFailure = ''validator_failure''"
| "AnomalyType_String AnomalyTypeNetworkPartition = ''network_partition''"

datatype Severity = SeverityLow | SeverityMedium | SeverityHigh | SeverityCritical

fun Severity_String :: "Severity \<Rightarrow> string" where
  "Severity_String SeverityLow = ''low''"
| "Severity_String SeverityMedium = ''medium''"
| "Severity_String SeverityHigh = ''high''"
| "Severity_String SeverityCritical = ''critical''"

record anomaly =
  an_ID :: string
  an_Timestamp :: i64
  an_Type :: AnomalyType
  an_Severity :: Severity
  an_EntityID :: string
  an_Evidence :: "(string \<times> nat) list"
  an_Acknowledged :: bool

record statistics =
  st_PeriodStart :: i64
  st_PeriodEnd :: i64
  st_PlatoonsCreated :: nat
  st_PlatoonsDissolved :: nat
  st_PlatoonsActive :: nat
  st_TotalJoins :: nat
  st_TotalLeaves :: nat
  st_LeaderChanges :: nat

record archive_info =
  ai_ArchiveID :: string
  ai_EntityID :: string
  ai_StartTime :: i64
  ai_EndTime :: i64
  ai_RecordCount :: nat
  ai_MerkleRoot :: hash
  ai_ArchivedAt :: i64

section \<open>The service\<close>

record state_service =
  ss_policy :: retention_policy
  ss_events :: "(string, event list) fmap"
  ss_auditLog :: "audit_record list"
  ss_lastHash :: hash
  ss_vehicleHistory :: "(address, vehicle_history list) fmap"
  ss_anomalies :: "anomaly list"

definition NewStateService :: state_service where
  "NewStateService = \<lparr>ss_policy = DefaultRetentionPolicy, ss_events = fmempty, ss_auditLog = [],
     ss_lastHash = 0, ss_vehicleHistory = fmempty, ss_anomalies = []\<rparr>"

definition events_of :: "state_service \<Rightarrow> string \<Rightarrow> event list" where
  "events_of s entityID = (case mget (ss_events s) entityID of None \<Rightarrow> [] | Some es \<Rightarrow> es)"

definition history_of :: "state_service \<Rightarrow> address \<Rightarrow> vehicle_history list" where
  "history_of s v = (case mget (ss_vehicleHistory s) v of None \<Rightarrow> [] | Some h \<Rightarrow> h)"

definition createAuditRecord ::
  "crypto \<Rightarrow> json_lib \<Rightarrow> i64 \<Rightarrow> string \<Rightarrow> state_service \<Rightarrow> event \<Rightarrow> state_service" where
  "createAuditRecord C J now recordID s e =
     (let record = \<lparr>ar_ID = recordID, ar_Timestamp = now, ar_PrevHash = ss_lastHash s,
                    ar_EventHash = event_CalculateHash C J e, ar_Event = e, ar_MerkleRoot = 0,
                    ar_BlockHeight = 0\<rparr>
      in s\<lparr>ss_lastHash := audit_CalculateHash C J record, ss_auditLog := ss_auditLog s @ [record]\<rparr>)"

text \<open>The key of a vehicle's history: the first twenty bytes of the text of the entity id.\<close>

definition history_key :: "string \<Rightarrow> address" where
  "history_key entityID = get_be (copy_into 20 (string_bytes entityID))"

definition metadata_string :: "event \<Rightarrow> string \<Rightarrow> string" where
  "metadata_string e k = (case map_of (ev_Metadata e) k of Some (JStr t) \<Rightarrow> t | _ \<Rightarrow> [])"

definition upd_last :: "('a \<Rightarrow> bool) \<Rightarrow> ('a \<Rightarrow> 'a) \<Rightarrow> 'a list \<Rightarrow> 'a list" where
  "upd_last P f xs = rev (upd_first P f (rev xs))"

definition updateVehicleHistory :: "state_service \<Rightarrow> event \<Rightarrow> state_service" where
  "updateVehicleHistory s e =
     (if ev_Type e \<noteq> ChangeTypeMemberJoined \<and> ev_Type e \<noteq> ChangeTypeMemberLeft then s
      else let vehicleID = history_key (ev_EntityID e); platoonID = metadata_string e ''platoon_id'' in
        if ev_Type e = ChangeTypeMemberJoined
        then s\<lparr>ss_vehicleHistory := mput (ss_vehicleHistory s) vehicleID (history_of s vehicleID
               @ [\<lparr>vh_VehicleID = vehicleID, vh_PlatoonID = platoonID, vh_JoinedAt = ev_Timestamp e,
                  vh_LeftAt = 0, vh_Role = ''follower'', vh_Duration = 0\<rparr>])\<rparr>
        else if history_of s vehicleID = [] then s
        else s\<lparr>ss_vehicleHistory := mput (ss_vehicleHistory s) vehicleID
               (upd_last (\<lambda>h. vh_PlatoonID h = platoonID \<and> vh_LeftAt h = 0)
                  (\<lambda>h. h\<lparr>vh_LeftAt := ev_Timestamp e, vh_Duration := ev_Timestamp e - vh_JoinedAt h\<rparr>)
                  (history_of s vehicleID))\<rparr>)"

definition getRecentEvents :: "state_service \<Rightarrow> string \<Rightarrow> int \<Rightarrow> event list" where
  "getRecentEvents s entityID limit =
     (case mget (ss_events s) entityID of
        None \<Rightarrow> []
      | Some es \<Rightarrow> let start = int (length es) - limit; start = (if start < 0 then 0 else start)
                   in drop (nat start) es)"

definition reportAnomaly :: "state_service \<Rightarrow> anomaly \<Rightarrow> state_service" where
  "reportAnomaly s r = s\<lparr>ss_anomalies := ss_anomalies s @ [r]\<rparr>"

definition checkFrequentJoinLeave :: "i64 \<Rightarrow> string \<Rightarrow> state_service \<Rightarrow> event \<Rightarrow> state_service" where
  "checkFrequentJoinLeave now aid s e =
     (let recentEvents = getRecentEvents s (ev_EntityID e) 10;
          joinLeaveCount = length (filter (\<lambda>e. ev_Type e = ChangeTypeMemberJoined
                                              \<or> ev_Type e = ChangeTypeMemberLeft) recentEvents)
      in if 5 < joinLeaveCount
         then reportAnomaly s \<lparr>an_ID = aid, an_Timestamp = now, an_Type = AnomalyTypeFrequentJoinLeave,
                an_Severity = SeverityMedium, an_EntityID = ev_EntityID e,
                an_Evidence = [(''recent_events'', joinLeaveCount)], an_Acknowledged = False\<rparr>
         else s)"

definition checkFrequentLeaderChanges :: "i64 \<Rightarrow> string \<Rightarrow> state_service \<Rightarrow> event \<Rightarrow> state_service" where
  "checkFrequentLeaderChanges now aid s e =
     (let recentEvents = getRecentEvents s (ev_EntityID e) 20;
          leaderChangeCount = length (filter (\<lambda>e. ev_Type e = ChangeTypeLeaderChanged) recentEvents)
      in if 3 < leaderChangeCount
         then reportAnomaly s \<lparr>an_ID = aid, an_Timestamp = now, an_Type = AnomalyTypeLeaderFrequentChange,
                an_Severity = SeverityHigh, an_EntityID = ev_EntityID e,
                an_Evidence = [(''recent_changes'', leaderChangeCount)], an_Acknowledged = False\<rparr>
         else s)"

definition checkForAnomalies :: "i64 \<Rightarrow> string \<Rightarrow> state_service \<Rightarrow> event \<Rightarrow> state_service" where
  "checkForAnomalies now aid s e =
     (let s = (if ev_Type e = ChangeTypeMemberJoined \<or> ev_Type e = ChangeTypeMemberLeft
               then checkFrequentJoinLeave now aid s e else s)
      in if ev_Type e = ChangeTypeLeaderChanged then checkFrequentLeaderChanges now aid s e else s)"

text \<open>\<open>ids\<close>: the identifiers of the audit record and of an anomaly report.\<close>

definition RecordEvent ::
  "crypto \<Rightarrow> json_lib \<Rightarrow> i64 \<Rightarrow> string \<times> string \<Rightarrow> state_service \<Rightarrow> event
     \<Rightarrow> state_service \<times> state_error option" where
  "RecordEvent C J now ids s e =
     (case event_Validate e of
        Some err \<Rightarrow> (s, Some err)
      | None \<Rightarrow>
          let s = s\<lparr>ss_events := mput (ss_events s) (ev_EntityID e) (events_of s (ev_EntityID e) @ [e])\<rparr>;
              s = createAuditRecord C J now (fst ids) s e;
              s = (if ev_EntityType e = ''vehicle'' then updateVehicleHistory s e else s);
              s = checkForAnomalies now (snd ids) s e
          in (s, None))"

definition new_event :: "string \<Rightarrow> ChangeType \<Rightarrow> string \<Rightarrow> string \<Rightarrow> i64 \<Rightarrow> u64 \<Rightarrow> hash \<Rightarrow> address \<Rightarrow> event" where
  "new_event eid ty entity kind now height txHash actor =
     \<lparr>ev_ID = eid, ev_Type = ty, ev_EntityID = entity, ev_EntityType = kind, ev_Timestamp = now,
      ev_BlockHeight = height, ev_TxHash = txHash, ev_Attribute = [], ev_OldValue = None,
      ev_NewValue = None, ev_ActorID = actor, ev_Metadata = []\<rparr>"

definition RecordPlatoonCreated ::
  "crypto \<Rightarrow> json_lib \<Rightarrow> i64 \<Rightarrow> string \<Rightarrow> string \<times> string \<Rightarrow> state_service \<Rightarrow> string \<Rightarrow> address \<Rightarrow> u64 \<Rightarrow> hash
     \<Rightarrow> state_service \<times> state_error option" where
  "RecordPlatoonCreated C J now eid ids s platoonID creator blockHeight txHash =
     RecordEvent C J now ids s
       ((new_event eid ChangeTypePlatoonCreated platoonID ''platoon'' now blockHeight txHash creator)
          \<lparr>ev_Metadata := [(''creator'', JStr (Address_String creator))]\<rparr>)"

definition RecordMemberJoined ::
  "crypto \<Rightarrow> json_lib \<Rightarrow> i64 \<Rightarrow> string \<times> string \<Rightarrow> (string \<times> string) \<times> (string \<times> string) \<Rightarrow> state_service
     \<Rightarrow> string \<Rightarrow> address \<Rightarrow> u64 \<Rightarrow> hash \<Rightarrow> state_service \<times> state_error option" where
  "RecordMemberJoined C J now eids ids s platoonID vehicleID blockHeight txHash =
     (let e = (new_event (fst eids) ChangeTypeMemberJoined platoonID ''platoon'' now blockHeight txHash vehicleID)
                \<lparr>ev_Metadata := [(''vehicle_id'', JStr (Address_String vehicleID))]\<rparr> in
      case RecordEvent C J now (fst ids) s e of
        (s, Some err) \<Rightarrow> (s, Some err)
      | (s, None) \<Rightarrow>
          RecordEvent C J now (snd ids) s
            ((new_event (snd eids) ChangeTypeMemberJoined (Address_String vehicleID) ''vehicle''
                (ev_Timestamp e) blockHeight txHash vehicleID)
               \<lparr>ev_Metadata := [(''platoon_id'', JStr platoonID)]\<rparr>))"

definition RecordStatusChange ::
  "crypto \<Rightarrow> json_lib \<Rightarrow> i64 \<Rightarrow> string \<Rightarrow> string \<times> string \<Rightarrow> state_service \<Rightarrow> string \<Rightarrow> string \<Rightarrow> string
     \<Rightarrow> json option \<Rightarrow> json option \<Rightarrow> address \<Rightarrow> u64 \<Rightarrow> hash \<Rightarrow> state_service \<times> state_error option" where
  "RecordStatusChange C J now eid ids s entityID entityType attr oldValue newValue actor blockHeight txHash =
     RecordEvent C J now ids s
       ((new_event eid ChangeTypeStatusChanged entityID entityType now blockHeight txHash actor)
          \<lparr>ev_Attribute := attr, ev_OldValue := oldValue, ev_NewValue := newValue\<rparr>)"

section \<open>Queries\<close>

definition GetEvents :: "state_service \<Rightarrow> string \<Rightarrow> int \<Rightarrow> event list" where
  "GetEvents s entityID limit =
     (case mget (ss_events s) entityID of
        None \<Rightarrow> []
      | Some es \<Rightarrow>
          if limit \<le> 0 \<or> int (length es) < limit then es
          else let start = int (length es) - limit; start = (if start < 0 then 0 else start)
               in drop (nat start) es)"

definition apply_event :: "snapshot \<Rightarrow> event \<Rightarrow> snapshot" where
  "apply_event sn e =
     (let sn = (case ev_NewValue e of None \<Rightarrow> sn
                | Some v \<Rightarrow> sn\<lparr>sn_State := mput (sn_State sn) (ev_Attribute e) v\<rparr>)
      in if sn_BlockHeight sn < ev_BlockHeight e then sn\<lparr>sn_BlockHeight := ev_BlockHeight e\<rparr> else sn)"

text \<open>The first relevant event is read without a test that there is one.\<close>

definition GetStateAtTime :: "state_service \<Rightarrow> string \<Rightarrow> i64 \<Rightarrow> (state_error + snapshot) outcome" where
  "GetStateAtTime s entityID timestamp =
     (case mget (ss_events s) entityID of
        None \<Rightarrow> Done (Inl EntityNotFound)
      | Some es \<Rightarrow>
          let relevantEvents = filter (\<lambda>e. sint (ev_Timestamp e) \<le> sint timestamp) es in
          (case relevantEvents of
             [] \<Rightarrow> Panic
           | first # _ \<Rightarrow>
               Done (Inr (foldl apply_event
                 \<lparr>sn_Timestamp = timestamp, sn_BlockHeight = 0, sn_EntityID = entityID,
                  sn_EntityType = ev_EntityType first, sn_State = fmempty\<rparr> relevantEvents))))"

definition GetVehiclePlatoonHistory :: "state_service \<Rightarrow> address \<Rightarrow> vehicle_history list" where
  "GetVehiclePlatoonHistory s vehicleID =
     (case mget (ss_vehicleHistory s) vehicleID of None \<Rightarrow> [] | Some h \<Rightarrow> h)"

definition GetAnomalies :: "state_service \<Rightarrow> anomaly list" where
  "GetAnomalies s = ss_anomalies s"

section \<open>Merkle roots and anchoring\<close>

definition audit_pair :: "crypto \<Rightarrow> bytes \<Rightarrow> bytes \<Rightarrow> bytes" where
  "audit_pair C a b = put_be (keccak256 C (a @ b))"

interpretation audit_scheme: merkle_scheme "audit_pair C" "loop_root (audit_pair C)" for C
  by unfold_locales (auto simp: loop_root_level)

definition calculateMerkleRoot :: "crypto \<Rightarrow> bytes list \<Rightarrow> hash" where
  "calculateMerkleRoot C hashes =
     (if length hashes = 0 then 0
      else get_be (copy_into 32 (hd (merkle_loop (audit_pair C) hashes))))"

definition Service_calculateMerkleRoot :: "crypto \<Rightarrow> json_lib \<Rightarrow> audit_record list \<Rightarrow> hash" where
  "Service_calculateMerkleRoot C J records =
     (if length records = 0 then 0
      else let hashes = map (\<lambda>r. put_be (audit_CalculateHash C J r)) records
           in get_be (copy_into 32 (hd (merkle_loop (audit_pair C) hashes))))"

definition AnchorAuditLog :: "crypto \<Rightarrow> json_lib \<Rightarrow> state_service \<Rightarrow> u64 \<Rightarrow> state_service" where
  "AnchorAuditLog C J s blockHeight =
     (if length (ss_auditLog s) = 0 then s
      else let unanchored = filter (\<lambda>r. ar_BlockHeight r = 0) (ss_auditLog s) in
        if length unanchored = 0 then s
        else let merkleRoot = Service_calculateMerkleRoot C J unanchored in
          s\<lparr>ss_auditLog := map (\<lambda>r. if ar_BlockHeight r = 0
              then r\<lparr>ar_BlockHeight := blockHeight, ar_MerkleRoot := merkleRoot\<rparr> else r) (ss_auditLog s)\<rparr>)"

definition ArchiveToCloud ::
  "crypto \<Rightarrow> json_lib \<Rightarrow> i64 \<Rightarrow> string \<Rightarrow> state_service \<Rightarrow> string \<Rightarrow> i64 \<Rightarrow> i64 \<Rightarrow> state_error + archive_info" where
  "ArchiveToCloud C J now aid s entityID startTime endTime =
     (case mget (ss_events s) entityID of
        None \<Rightarrow> Inl EntityNotFound
      | Some es \<Rightarrow>
          let toArchive = filter (\<lambda>e. sint startTime \<le> sint (ev_Timestamp e)
                                     \<and> sint (ev_Timestamp e) \<le> sint endTime) es;
              hashes = map (\<lambda>e. put_be (event_CalculateHash C J e)) toArchive
          in Inr \<lparr>ai_ArchiveID = aid, ai_EntityID = entityID, ai_StartTime = startTime,
               ai_EndTime = endTime, ai_RecordCount = length toArchive,
               ai_MerkleRoot = calculateMerkleRoot C hashes, ai_ArchivedAt = now\<rparr>)"

section \<open>Statistics and retention\<close>

definition count_event :: "i64 \<Rightarrow> i64 \<Rightarrow> event \<Rightarrow> statistics \<times> string fset \<Rightarrow> statistics \<times> string fset" where
  "count_event periodStart periodEnd e acc = (case acc of (r, active) \<Rightarrow>
     if sint (ev_Timestamp e) < sint periodStart \<or> sint periodEnd < sint (ev_Timestamp e) then (r, active)
     else if ev_Type e = ChangeTypePlatoonCreated
       then (r\<lparr>st_PlatoonsCreated := Suc (st_PlatoonsCreated r)\<rparr>, finsert (ev_EntityID e) active)
     else if ev_Type e = ChangeTypePlatoonDissolved
       then (r\<lparr>st_PlatoonsDissolved := Suc (st_PlatoonsDissolved r)\<rparr>, active |-| {|ev_EntityID e|})
     else if ev_Type e = ChangeTypeMemberJoined
       then (r\<lparr>st_TotalJoins := Suc (st_TotalJoins r)\<rparr>, active)
     else if ev_Type e = ChangeTypeMemberLeft
       then (r\<lparr>st_TotalLeaves := Suc (st_TotalLeaves r)\<rparr>, active)
     else if ev_Type e = ChangeTypeLeaderChanged
       then (r\<lparr>st_LeaderChanges := Suc (st_LeaderChanges r)\<rparr>, active)
     else (r, active))"

text \<open>The order in which Go visits the entities is an argument.\<close>

definition GenerateStatistics :: "string list \<Rightarrow> state_service \<Rightarrow> i64 \<Rightarrow> i64 \<Rightarrow> statistics" where
  "GenerateStatistics order s periodStart periodEnd =
     (case fold (\<lambda>entity acc. fold (count_event periodStart periodEnd) (events_of s entity) acc) order
        (\<lparr>st_PeriodStart = periodStart, st_PeriodEnd = periodEnd, st_PlatoonsCreated = 0,
          st_PlatoonsDissolved = 0, st_PlatoonsActive = 0, st_TotalJoins = 0, st_TotalLeaves = 0,
          st_LeaderChanges = 0\<rparr>, {||}) of
        (r, active) \<Rightarrow> r\<lparr>st_PlatoonsActive := fcard active\<rparr>)"

definition keep_event :: "i64 \<Rightarrow> retention_policy \<Rightarrow> event \<Rightarrow> bool" where
  "keep_event now policy e \<longleftrightarrow>
     sint (now - ev_Timestamp e) sdiv (24 * 3600) \<le> rp_HotStorageDays policy"

definition enforceRetentionPolicy :: "i64 \<Rightarrow> state_service \<Rightarrow> state_service" where
  "enforceRetentionPolicy now s =
     s\<lparr>ss_events := fmmap (\<lambda>es. let toKeep = filter (keep_event now (ss_policy s)) es
                                in if length toKeep < length es then toKeep else es) (ss_events s)\<rparr>"

section \<open>The audit log\<close>

lemma enc_hash_inject: "enc_hash x = enc_hash y \<longleftrightarrow> x = y"
  by (metis dec_enc_hash option.inject)

lemma enc_sint_inject: "(enc_sint x = enc_sint y) = (x = y)"
  by (metis dec_enc_sint option.inject)

interpretation audit_chain: hash_chain "\<lambda>j. keccak256 C (js_text J j)" audit_json
    "audit_CalculateHash C J" ar_PrevHash for C J
  by unfold_locales (auto simp: audit_CalculateHash_def audit_json_def enc_hash_inject)

definition log_ok :: "crypto \<Rightarrow> json_lib \<Rightarrow> state_service \<Rightarrow> bool" where
  "log_ok C J s \<longleftrightarrow> linked (audit_CalculateHash C J) ar_PrevHash (ss_auditLog s)
     \<and> (ss_auditLog s \<noteq> [] \<longrightarrow> ar_PrevHash (hd (ss_auditLog s)) = 0)
     \<and> ss_lastHash s = (if ss_auditLog s = [] then 0 else audit_CalculateHash C J (last (ss_auditLog s)))
     \<and> (\<forall>r \<in> set (ss_auditLog s). ar_EventHash r = event_CalculateHash C J (ar_Event r))"

text \<open>An operation of the service that changes its state.\<close>

inductive state_step :: "crypto \<Rightarrow> json_lib \<Rightarrow> state_service \<Rightarrow> state_service \<Rightarrow> bool" for C J where
  record_event: "RecordEvent C J now ids s e = (s', r) \<Longrightarrow> state_step C J s s'"
| anchor: "state_step C J s (AnchorAuditLog C J s h)"
| retention: "state_step C J s (enforceRetentionPolicy now s)"

lemma log_frames [simp]:
  "ss_auditLog (updateVehicleHistory s e) = ss_auditLog s" "ss_lastHash (updateVehicleHistory s e) = ss_lastHash s"
  "ss_auditLog (checkForAnomalies t i s e) = ss_auditLog s" "ss_lastHash (checkForAnomalies t i s e) = ss_lastHash s"
  "ss_auditLog (enforceRetentionPolicy t s) = ss_auditLog s" "ss_lastHash (enforceRetentionPolicy t s) = ss_lastHash s"
  "ss_vehicleHistory (checkForAnomalies t i s e) = ss_vehicleHistory s"
  by (simp_all add: updateVehicleHistory_def checkForAnomalies_def checkFrequentJoinLeave_def
      checkFrequentLeaderChanges_def reportAnomaly_def enforceRetentionPolicy_def Let_def)

lemma createAuditRecord_ok:
  "log_ok C J s \<Longrightarrow> log_ok C J (createAuditRecord C J now i s e)"
  by (auto simp: log_ok_def createAuditRecord_def Let_def linked_snoc hd_append)

lemma log_ok_cong:
  "ss_auditLog s = ss_auditLog t \<Longrightarrow> ss_lastHash s = ss_lastHash t \<Longrightarrow> log_ok C J s = log_ok C J t"
  by (simp add: log_ok_def)

lemma RecordEvent_log:
  assumes "RecordEvent C J now ids s e = (s', r)" and "log_ok C J s"
  shows "log_ok C J s'"
proof (cases "event_Validate e")
  case None
  let ?s1 = "s\<lparr>ss_events := mput (ss_events s) (ev_EntityID e) (events_of s (ev_EntityID e) @ [e])\<rparr>"
  have "log_ok C J ?s1" using assms(2) by (simp add: log_ok_def)
  then have "log_ok C J (createAuditRecord C J now (fst ids) ?s1 e)" by (rule createAuditRecord_ok)
  moreover have "ss_auditLog s' = ss_auditLog (createAuditRecord C J now (fst ids) ?s1 e)"
    "ss_lastHash s' = ss_lastHash (createAuditRecord C J now (fst ids) ?s1 e)"
    using assms(1) None by (auto simp: RecordEvent_def Let_def)
  ultimately show ?thesis using log_ok_cong by blast
qed (use assms in \<open>simp add: RecordEvent_def\<close>)

text \<open>Anchoring changes only fields that the record hash does not cover.\<close>

lemma AnchorAuditLog_map:
  "\<exists>f. ss_auditLog (AnchorAuditLog C J s h) = map f (ss_auditLog s) \<and> ss_lastHash (AnchorAuditLog C J s h) = ss_lastHash s
    \<and> (\<forall>r. audit_json (f r) = audit_json r \<and> ar_Event (f r) = ar_Event r)"
proof -
  define root where "root = Service_calculateMerkleRoot C J (filter (\<lambda>r. ar_BlockHeight r = 0) (ss_auditLog s))"
  define f :: "audit_record \<Rightarrow> audit_record" where "f r = (if filter (\<lambda>r. ar_BlockHeight r = 0) (ss_auditLog s) \<noteq> [] \<and> ar_BlockHeight r = 0
    then r\<lparr>ar_BlockHeight := h, ar_MerkleRoot := root\<rparr> else r)" for r
  have "ss_auditLog (AnchorAuditLog C J s h) = map f (ss_auditLog s)"
    by (auto simp: AnchorAuditLog_def f_def root_def Let_def map_idI)
  moreover have "audit_json (f r) = audit_json r \<and> ar_Event (f r) = ar_Event r" for r
    by (simp add: f_def audit_json_def)
  ultimately show ?thesis by (auto simp: AnchorAuditLog_def Let_def)
qed

lemma AnchorAuditLog_ok: "log_ok C J s \<Longrightarrow> log_ok C J (AnchorAuditLog C J s h)"
proof -
  assume ok: "log_ok C J s"
  obtain f where f: "ss_auditLog (AnchorAuditLog C J s h) = map f (ss_auditLog s)"
    "ss_lastHash (AnchorAuditLog C J s h) = ss_lastHash s"
    "\<And>r. audit_json (f r) = audit_json r" "\<And>r. ar_Event (f r) = ar_Event r"
    using AnchorAuditLog_map by blast
  have d: "audit_CalculateHash C J (f r) = audit_CalculateHash C J r" for r
    by (simp add: audit_CalculateHash_def f(3))
  have p: "ar_PrevHash (f r) = ar_PrevHash r" "ar_EventHash (f r) = ar_EventHash r" for r
    using f(3) [of r] by (simp_all add: audit_json_def enc_hash_inject)
  have "audit_CalculateHash C J \<circ> f = audit_CalculateHash C J" "ar_PrevHash \<circ> f = ar_PrevHash"
    using d p by auto
  with ok show ?thesis by (auto simp: log_ok_def f linked_map hd_map last_map d p)
qed

lemma state_run_log:
  assumes "(state_step C J)\<^sup>*\<^sup>* NewStateService s"
  shows "log_ok C J s"
  using assms
proof (induction rule: rtranclp_induct)
  case base
  show ?case by (simp add: log_ok_def NewStateService_def)
next
  case (step t u)
  from step.hyps(2) step.IH show ?case
    by (induction rule: state_step.induct)
      (simp_all add: RecordEvent_log AnchorAuditLog_ok log_ok_cong [OF log_frames(5,6)])
qed

section \<open>Properties\<close>

text \<open>
  C23. The audit log is tamper evident: two services that have the same last hash and logs of the same
  length hold the same records, field by field as far as the hash covers them, and events with the
  same text, unless keccak collides on texts that the two logs contain.
\<close>

theorem audit_log_tamper_evident:
  assumes "(state_step C J)\<^sup>*\<^sup>* NewStateService s" and "(state_step C J)\<^sup>*\<^sup>* NewStateService t"
    and "ss_lastHash s = ss_lastHash t" and "length (ss_auditLog s) = length (ss_auditLog t)"
    and "inj_on (\<lambda>j. keccak256 C (js_text J j)) (audit_json ` (set (ss_auditLog s) \<union> set (ss_auditLog t)))"
    and "inj_on (keccak256 C) ((\<lambda>r. marshal_or_nil J (enc_event (ar_Event r)))
           ` (set (ss_auditLog s) \<union> set (ss_auditLog t)))"
  shows "map (\<lambda>r. (ar_ID r, ar_Timestamp r, ar_PrevHash r, ar_EventHash r)) (ss_auditLog s)
       = map (\<lambda>r. (ar_ID r, ar_Timestamp r, ar_PrevHash r, ar_EventHash r)) (ss_auditLog t)
    \<and> map (\<lambda>r. marshal_or_nil J (enc_event (ar_Event r))) (ss_auditLog s)
       = map (\<lambda>r. marshal_or_nil J (enc_event (ar_Event r))) (ss_auditLog t)"
proof -
  let ?xs = "ss_auditLog s" and ?ys = "ss_auditLog t"
  note s = state_run_log [OF assms(1), unfolded log_ok_def] and t = state_run_log [OF assms(2), unfolded log_ok_def]
  have "map audit_json ?xs = map audit_json ?ys"
    by (rule audit_chain.tamper_evident [OF assms(4)]) (use s t assms(3,4,5) in \<open>auto split: if_splits\<close>)
  then have j: "audit_json (?xs ! i) = audit_json (?ys ! i)" if "i < length ?xs" for i
    using that assms(4) by (metis length_map nth_map)
  have f: "ar_ID (?xs ! i) = ar_ID (?ys ! i) \<and> ar_Timestamp (?xs ! i) = ar_Timestamp (?ys ! i)
      \<and> ar_PrevHash (?xs ! i) = ar_PrevHash (?ys ! i) \<and> ar_EventHash (?xs ! i) = ar_EventHash (?ys ! i)"
    if "i < length ?xs" for i
    using j [OF that] by (simp add: audit_json_def enc_hash_inject enc_sint_inject)
  have e: "marshal_or_nil J (enc_event (ar_Event (?xs ! i))) = marshal_or_nil J (enc_event (ar_Event (?ys ! i)))"
    if i: "i < length ?xs" for i
  proof -
    have m: "?xs ! i \<in> set ?xs" "?ys ! i \<in> set ?ys" using i assms(4) by simp_all
    then have "event_CalculateHash C J (ar_Event (?xs ! i)) = event_CalculateHash C J (ar_Event (?ys ! i))"
      using s t f [OF i] by metis
    with m show ?thesis unfolding event_CalculateHash_def by (intro inj_onD [OF assms(6)]) auto
  qed
  show ?thesis using f e assms(4) by (simp add: list_eq_iff_nth_eq)
qed

definition demo_event :: event where
  "demo_event = new_event ''e'' ChangeTypeStatusChanged ''p'' ''platoon'' 100 1 0 7"

definition demo_traced :: state_service where
  "demo_traced = fst (RecordEvent demo_crypto demo_json 200 (''a'', ''b'') NewStateService demo_event)"

lemma demo_traced_fields:
  "ss_auditLog demo_traced = [\<lparr>ar_ID = ''a'', ar_Timestamp = 200, ar_PrevHash = 0,
     ar_EventHash = event_CalculateHash demo_crypto demo_json demo_event, ar_Event = demo_event,
     ar_MerkleRoot = 0, ar_BlockHeight = 0\<rparr>]"
  "mget (ss_events demo_traced) ''p'' = Some [demo_event]"
  by (simp_all add: demo_traced_def RecordEvent_def demo_event_def new_event_def event_Validate_def
      NewStateService_def events_of_def createAuditRecord_def Let_def checkForAnomalies_def change_type_defs)

lemma demo_traced_run: "(state_step demo_crypto demo_json)\<^sup>*\<^sup>* NewStateService demo_traced"
  unfolding demo_traced_def by (intro r_into_rtranclp state_step.record_event) (rule prod.collapse [symmetric])

theorem audit_log_tamper_evident_witness:
  "map ar_PrevHash (ss_auditLog demo_traced) = [0]
   \<and> map (\<lambda>r. (ar_ID r, ar_Timestamp r, ar_PrevHash r, ar_EventHash r)) (ss_auditLog demo_traced)
     = map (\<lambda>r. (ar_ID r, ar_Timestamp r, ar_PrevHash r, ar_EventHash r)) (ss_auditLog demo_traced)"
proof -
  have i: "inj_on f (g ` (set (ss_auditLog demo_traced) \<union> set (ss_auditLog demo_traced)))"
    for f :: "'x \<Rightarrow> hash" and g by (simp add: demo_traced_fields)
  from audit_log_tamper_evident [OF demo_traced_run demo_traced_run refl refl i i]
  show ?thesis by (simp add: demo_traced_fields(1))
qed

lemma audit_loop_32:
  assumes "\<forall>h \<in> set hs. length h = 32" and "hs \<noteq> []"
  shows "length (hd (merkle_loop (audit_pair C) hs)) = 32"
  using assms
proof (induction "length hs" arbitrary: hs rule: less_induct)
  case less
  show ?case
  proof (cases "1 < length hs")
    case True
    let ?l = "merkle_level (audit_pair C) hs"
    have p: "set (pair_up f xs) \<subseteq> range (\<lambda>(a, b). f a b)" for f :: "bytes \<Rightarrow> bytes \<Rightarrow> bytes" and xs
      by (induction f xs rule: pair_up.induct) auto
    have "\<forall>h \<in> set ?l. length h = 32"
      using p [of "audit_pair C" "pad_last hs"] by (auto simp: merkle_level_def audit_pair_def)
    moreover have "?l \<noteq> []" using True by (auto simp flip: length_greater_0_conv)
    ultimately have "length (hd (merkle_loop (audit_pair C) ?l)) = 32"
      using less.hyps [of ?l] True by simp
    with True show ?thesis by (simp add: merkle_loop_step)
  next
    case False
    with less.prems show ?thesis by (cases hs) (auto simp: merkle_loop_stop)
  qed
qed

text \<open>
  An anchor commits the records of its batch: AnchorAuditLog gives every record that had no block
  height the new height and the Merkle root of those records, and leaves the others as they are; and
  two batches of one length with the same root have the same record hashes in the same order, unless
  keccak collides on two of the pairs that are hashed.
\<close>

theorem anchor_commits_batch:
  assumes "batch = filter (\<lambda>r. ar_BlockHeight r = 0) (ss_auditLog s)"
    and "root = Service_calculateMerkleRoot C J batch"
    and "length batch = length other" and "Service_calculateMerkleRoot C J other = root"
    and "inj_on (\<lambda>(a, b). audit_pair C a b)
      (set (merkle_inputs (audit_pair C) (map (\<lambda>r. put_be (audit_CalculateHash C J r)) batch))
       \<union> set (merkle_inputs (audit_pair C) (map (\<lambda>r. put_be (audit_CalculateHash C J r)) other)))"
  shows "ss_auditLog (AnchorAuditLog C J s h) = map (\<lambda>r. if ar_BlockHeight r = 0
      then r\<lparr>ar_BlockHeight := h, ar_MerkleRoot := root\<rparr> else r) (ss_auditLog s)
    \<and> map (audit_CalculateHash C J) batch = map (audit_CalculateHash C J) other"
proof
  show "ss_auditLog (AnchorAuditLog C J s h) = map (\<lambda>r. if ar_BlockHeight r = 0
      then r\<lparr>ar_BlockHeight := h, ar_MerkleRoot := root\<rparr> else r) (ss_auditLog s)"
    unfolding assms(1,2) by (auto simp: AnchorAuditLog_def Let_def filter_empty_conv intro: map_idI [symmetric])
  let ?h = "\<lambda>r. put_be (audit_CalculateHash C J r)"
  have "map ?h batch = map ?h other"
  proof (cases "batch = []")
    case False
    let ?xs = "map ?h batch" and ?ys = "map ?h other"
    have ne: "?xs \<noteq> []" "?ys \<noteq> []" "length batch \<noteq> 0" "length other \<noteq> 0" using False assms(3) by auto
    have len: "length (hd (merkle_loop (audit_pair C) ?xs)) = 32" "length (hd (merkle_loop (audit_pair C) ?ys)) = 32"
      by (rule audit_loop_32; use ne in auto)+
    have "(get_be (hd (merkle_loop (audit_pair C) ?xs)) :: hash) = get_be (hd (merkle_loop (audit_pair C) ?ys))"
      using assms(2,4) ne(3,4) len by (simp add: Service_calculateMerkleRoot_def Let_def)
    then have "put_be (get_be (hd (merkle_loop (audit_pair C) ?xs)) :: hash)
        = put_be (get_be (hd (merkle_loop (audit_pair C) ?ys)) :: hash)" by simp
    then have "hd (merkle_loop (audit_pair C) ?xs) = hd (merkle_loop (audit_pair C) ?ys)"
      using len by (simp add: put_get_be)
    then have "loop_root (audit_pair C) ?xs = loop_root (audit_pair C) ?ys"
      using ne by (simp add: loop_root_def)
    from audit_scheme.root_binding [OF _ ne(1) this assms(5)] assms(3) show ?thesis by simp
  qed (use assms(3) in simp)
  then have "map get_be (map ?h batch) = (map get_be (map ?h other) :: hash list)" by simp
  then show "map (audit_CalculateHash C J) batch = map (audit_CalculateHash C J) other"
    by (simp add: comp_def)
qed

theorem anchor_commits_batch_witness:
  "map ar_BlockHeight (ss_auditLog (AnchorAuditLog demo_crypto demo_json demo_traced 9)) = [9]"
proof -
  let ?b = "filter (\<lambda>r. ar_BlockHeight r = 0) (ss_auditLog demo_traced)"
  have b: "?b = ss_auditLog demo_traced" "length ?b = 1" by (simp_all add: demo_traced_fields)
  have i: "inj_on f (set (merkle_inputs (audit_pair demo_crypto) (map g ?b)) \<union> set (merkle_inputs (audit_pair demo_crypto) (map g ?b)))"
    for f :: "bytes \<times> bytes \<Rightarrow> bytes" and g
    by (subst (1 2) merkle_inputs.simps) (simp add: b(2))
  from anchor_commits_batch [OF refl refl refl refl i, where h = 9] show ?thesis by (simp add: demo_traced_fields)
qed

text \<open>
  GetStateAtTime fails for an unknown entity, panics for a known one that has no event up to the
  given time, and otherwise gives each attribute the value of its last event up to that time that
  carries one, with the greatest block height of those events.
\<close>

theorem state_at_time_result:
  "GetStateAtTime s entityID t =
    (case mget (ss_events s) entityID of
       None \<Rightarrow> Done (Inl EntityNotFound)
     | Some es \<Rightarrow>
         (let past = filter (\<lambda>e. sint (ev_Timestamp e) \<le> sint t) es in
          if past = [] then Panic
          else Done (Inr \<lparr>sn_Timestamp = t,
             sn_BlockHeight = fold (\<lambda>e h. max h (ev_BlockHeight e)) past 0, sn_EntityID = entityID,
             sn_EntityType = ev_EntityType (hd past),
             sn_State = fold (\<lambda>e m. mput m (ev_Attribute e) (the (ev_NewValue e)))
               (filter (\<lambda>e. ev_NewValue e \<noteq> None) past) fmempty\<rparr>)))"
proof -
  have f: "foldl apply_event sn past
      = sn\<lparr>sn_BlockHeight := fold (\<lambda>e h. max h (ev_BlockHeight e)) past (sn_BlockHeight sn),
           sn_State := fold (\<lambda>e m. mput m (ev_Attribute e) (the (ev_NewValue e)))
               (filter (\<lambda>e. ev_NewValue e \<noteq> None) past) (sn_State sn)\<rparr>" for sn past
  proof (induction past arbitrary: sn)
    case (Cons e es)
    then show ?case by (cases "ev_NewValue e") (auto simp: apply_event_def Let_def max_def not_less)
  qed simp
  show ?thesis
  proof (cases "mget (ss_events s) entityID")
    case (Some es)
    define past where "past = filter (\<lambda>e. sint (ev_Timestamp e) \<le> sint t) es"
    show ?thesis
    proof (cases "past = []")
      case False
      then have "GetStateAtTime s entityID t = Done (Inr (foldl apply_event \<lparr>sn_Timestamp = t,
          sn_BlockHeight = 0, sn_EntityID = entityID, sn_EntityType = ev_EntityType (hd past),
          sn_State = fmempty\<rparr> past))"
        unfolding GetStateAtTime_def Some option.case Let_def past_def [symmetric]
        by (cases past) simp_all
      then show ?thesis
        using False unfolding f Some option.case Let_def past_def [symmetric] by simp
    qed (simp add: GetStateAtTime_def Some Let_def past_def)
  qed (simp add: GetStateAtTime_def)
qed

lemma updateVehicleHistory_other:
  "history_key (ev_EntityID e) \<noteq> v \<Longrightarrow> GetVehiclePlatoonHistory (updateVehicleHistory s e) v = GetVehiclePlatoonHistory s v"
  by (simp add: updateVehicleHistory_def GetVehiclePlatoonHistory_def Let_def)

lemma GetVehiclePlatoonHistory_cong:
  "ss_vehicleHistory s = ss_vehicleHistory t \<Longrightarrow> GetVehiclePlatoonHistory s v = GetVehiclePlatoonHistory t v"
  by (simp add: GetVehiclePlatoonHistory_def)

lemma RecordEvent_history:
  assumes "RecordEvent C J now ids s e = (s', r)"
    and "ev_EntityType e = ''vehicle'' \<longrightarrow> history_key (ev_EntityID e) \<noteq> v"
  shows "GetVehiclePlatoonHistory s' v = GetVehiclePlatoonHistory s v"
proof (cases "event_Validate e")
  case None
  let ?s1 = "createAuditRecord C J now (fst ids)
    (s\<lparr>ss_events := mput (ss_events s) (ev_EntityID e) (events_of s (ev_EntityID e) @ [e])\<rparr>) e"
  have h: "ss_vehicleHistory ?s1 = ss_vehicleHistory s" by (simp add: createAuditRecord_def Let_def)
  have "s' = checkForAnomalies now (snd ids) (if ev_EntityType e = ''vehicle'' then updateVehicleHistory ?s1 e else ?s1) e"
    using assms(1) None by (simp add: RecordEvent_def Let_def)
  then have "ss_vehicleHistory s' = ss_vehicleHistory (if ev_EntityType e = ''vehicle'' then updateVehicleHistory ?s1 e else ?s1)"
    by simp
  then have "GetVehiclePlatoonHistory s' v
      = GetVehiclePlatoonHistory (if ev_EntityType e = ''vehicle'' then updateVehicleHistory ?s1 e else ?s1) v"
    by (rule GetVehiclePlatoonHistory_cong)
  also have "\<dots> = GetVehiclePlatoonHistory ?s1 v" using assms(2) updateVehicleHistory_other [of e v ?s1] by simp
  also have "\<dots> = GetVehiclePlatoonHistory s v" by (rule GetVehiclePlatoonHistory_cong [OF h])
  finally show ?thesis .
qed (use assms in \<open>simp add: RecordEvent_def\<close>)

text \<open>The first byte of the key is the code of the first hexadecimal digit of the address.\<close>

lemma history_key_hd:
  assumes "hd (Address_Bytes v) \<noteq> 0x33"
  shows "history_key (Address_String v) \<noteq> v"
proof
  assume k: "history_key (Address_String v) = v"
  obtain b bs where bs: "put_be v = b # bs" using length_put_be [of v] by (cases "put_be v") auto
  have len: "length (Address_String v) = 40" by (simp add: Address_String_def)
  then have c: "length (copy_into 20 (string_bytes (Address_String v))) = 20" by simp
  have "put_be v = copy_into 20 (string_bytes (Address_String v))"
    using arg_cong [OF k, of put_be] put_get_be [where 'a = 160, of "copy_into 20 (string_bytes (Address_String v))"] c
    by (simp add: history_key_def)
  then have "b = of_char (hex_digit (unat b div 16))"
    using len by (simp add: bs copy_into_def Address_String_def string_bytes_def)
  moreover have "unat b div 16 < 16" using unat_byte_bound [of b] by simp
  ultimately have u: "unat b = (if unat b div 16 < 10 then 48 + unat b div 16 else 87 + unat b div 16)"
  proof -
    assume e: "b = of_char (hex_digit (unat b div 16))" and lt: "unat b div 16 < 16"
    define d where "d = unat b div 16"
    have small: "(of_char (hex_digit d) :: nat) < 256" by simp
    have "unat b = unat (of_nat (of_char (hex_digit d)) :: byte)"
      using arg_cong [OF e, of unat] by (simp only: of_nat_of_char d_def)
    also have "\<dots> = of_char (hex_digit d)" using small by (simp add: unat_of_nat)
    also have "\<dots> = (if d < 10 then 48 + d else 87 + d)"
      using lt by (auto simp: hex_digit_def d_def of_char_char_of_small simp del: of_char_of)
    finally show ?thesis unfolding d_def .
  qed
  then have "unat b = 51" by (auto split: if_splits)
  then have "unat b = unat (0x33 :: byte)" by simp
  then have "b = 0x33" by (simp only: word_unat_eq_iff)
  with assms bs show False by (simp add: Address_Bytes_def)
qed

text \<open>
  RecordMemberJoined files the history of a vehicle under the first twenty characters of the text
  of its address: unless the address begins with the byte 0x33, the history that
  GetVehiclePlatoonHistory returns for the vehicle does not change when it joins a platoon.
\<close>

theorem joined_vehicle_history_lost:
  assumes "RecordMemberJoined C J now eids ids s platoonID v height txHash = (s', r)"
    and "hd (Address_Bytes v) \<noteq> 0x33"
  shows "GetVehiclePlatoonHistory s' v = GetVehiclePlatoonHistory s v"
proof -
  let ?e = "(new_event (fst eids) ChangeTypeMemberJoined platoonID ''platoon'' now height txHash v)
    \<lparr>ev_Metadata := [(''vehicle_id'', JStr (Address_String v))]\<rparr>"
  let ?e2 = "(new_event (snd eids) ChangeTypeMemberJoined (Address_String v) ''vehicle'' (ev_Timestamp ?e) height txHash v)
    \<lparr>ev_Metadata := [(''platoon_id'', JStr platoonID)]\<rparr>"
  obtain s1 r1 where a: "RecordEvent C J now (fst ids) s ?e = (s1, r1)" by (meson surj_pair)
  have one: "GetVehiclePlatoonHistory s1 v = GetVehiclePlatoonHistory s v"
    by (rule RecordEvent_history [OF a]) (simp add: new_event_def)
  show ?thesis
  proof (cases r1)
    case None
    then have "RecordEvent C J now (snd ids) s1 ?e2 = (s', r)"
      using assms(1) a by (simp add: RecordMemberJoined_def Let_def)
    from RecordEvent_history [OF this, of v] history_key_hd [OF assms(2)] one
    show ?thesis by (simp add: new_event_def)
  qed (use assms(1) a one in \<open>simp add: RecordMemberJoined_def Let_def\<close>)
qed

theorem joined_vehicle_history_lost_witness:
  "\<exists>s' r. RecordMemberJoined demo_crypto demo_json 5 (''e'', ''f'') ((''a'', ''b''), (''c'', ''d''))
      NewStateService ''p'' 0 1 0 = (s', r) \<and> GetVehiclePlatoonHistory s' 0 = []"
proof -
  obtain s' r where m: "RecordMemberJoined demo_crypto demo_json 5 (''e'', ''f'') ((''a'', ''b''), (''c'', ''d''))
      NewStateService ''p'' 0 1 0 = (s', r)" by (meson surj_pair)
  have z: "nat_be n 0 = replicate n 0" for n
    by (induction n) (simp_all add: replicate_append_same)
  have "hd (Address_Bytes 0) \<noteq> 0x33"
    by (simp add: Address_Bytes_def put_be_def z)
  from joined_vehicle_history_lost [OF m this] m show ?thesis
    by (simp add: GetVehiclePlatoonHistory_def NewStateService_def)
qed

text \<open>Six members joining one platoon are reported as an anomaly of the platoon.\<close>

lemma platoon_growth_flagged:
  assumes "6 \<le> length (filter (\<lambda>e. ev_Type e = ChangeTypeMemberJoined) (getRecentEvents s (ev_EntityID e) 10))"
    and "ev_Type e = ChangeTypeMemberJoined"
  shows "\<exists>a. ss_anomalies (checkForAnomalies now aid s e) = ss_anomalies s @ [a] \<and> an_EntityID a = ev_EntityID e"
proof -
  define es where "es = getRecentEvents s (ev_EntityID e) 10"
  have "length (filter (\<lambda>e. ev_Type e = ChangeTypeMemberJoined) xs)
      \<le> length (filter (\<lambda>e. ev_Type e = ChangeTypeMemberJoined \<or> ev_Type e = ChangeTypeMemberLeft) xs)" for xs
    by (induction xs) auto
  from this [of es] assms(1) have "5 < length (filter (\<lambda>e. ev_Type e = ChangeTypeMemberJoined
      \<or> ev_Type e = ChangeTypeMemberLeft) es)"
    unfolding es_def by linarith
  then show ?thesis
    using assms(2) by (simp add: es_def checkForAnomalies_def checkFrequentJoinLeave_def reportAnomaly_def change_type_defs Let_def)
qed

text \<open>Retention drops only events that are at least eight days old and never touches the audit log.\<close>

lemma retention_keeps_recent:
  assumes "ss_policy s = DefaultRetentionPolicy" and "sint (now - ev_Timestamp e) < 8 * 24 * 3600"
    and "e \<in> set (events_of s k)"
  shows "e \<in> set (events_of (enforceRetentionPolicy now s) k)
    \<and> ss_auditLog (enforceRetentionPolicy now s) = ss_auditLog s"
proof -
  have "sint (now - ev_Timestamp e) sdiv (24 * 3600) \<le> 7"
  proof (cases "0 \<le> sint (now - ev_Timestamp e)")
    case True
    then have "sint (now - ev_Timestamp e) sdiv (24 * 3600) = sint (now - ev_Timestamp e) div 86400"
      by (simp add: signed_divide_int_def sgn_if)
    also have "\<dots> \<le> 7" using assms(2) by linarith
    finally show ?thesis .
  next
    case False
    then show ?thesis by (simp add: signed_divide_int_def sgn_if)
  qed
  then have "keep_event now (ss_policy s) e"
    using assms(1) by (simp add: keep_event_def DefaultRetentionPolicy_def)
  with assms(3) show ?thesis
    by (auto simp: enforceRetentionPolicy_def events_of_def Let_def split: option.splits)
qed

end
