(* ===== verification/Identity.thy ===== *)
theory Identity
  imports Block_Storage Crypto_Laws
begin

text \<open>
  Vehicle identities and certificates (service/identity/types.go, service.go and the controllers of
  admission.go that decide with them). Identities are kept in a cache, whose pointers the operations
  share and change, and in the store; the certificate revocation list (CRL) in memory and in the
  store. The packages crypto/x509 and encoding/pem are a parameter. The clock is an argument, as is
  the order in which Go visits a map. No method waits for a lock that its caller holds, so the
  mutexes are left out.
\<close>

section \<open>X.509 (crypto/x509, encoding/pem)\<close>

record x509_cert =
  cert_SerialNumber :: string
  cert_PKIX :: "bytes option" \<comment> \<open>what MarshalPKIXPublicKey returns for the public key\<close>
  cert_Subject :: string
  cert_Issuer :: string
  cert_NotBefore :: i64
  cert_NotAfter :: i64
  cert_DNSNames :: "string list"
  cert_EmailAddresses :: "string list"

text \<open>Verify with no key usage in the options asks for server authentication.\<close>

datatype key_usage = ExtKeyUsageClientAuth | ExtKeyUsageServerAuth

record x509_lib =
  pem_decode :: "bytes \<Rightarrow> bytes option"
  x509_parse :: "bytes \<Rightarrow> x509_cert option"
  x509_verify :: "bytes \<Rightarrow> i64 \<Rightarrow> key_usage \<Rightarrow> x509_cert \<Rightarrow> bool"

section \<open>Identities\<close>

type_synonym IdentityStatus = u8

definition IdentityStatusUnknown :: IdentityStatus where "IdentityStatusUnknown = 0"
definition IdentityStatusActive :: IdentityStatus where "IdentityStatusActive = 1"
definition IdentityStatusExpired :: IdentityStatus where "IdentityStatusExpired = 2"
definition IdentityStatusRevoked :: IdentityStatus where "IdentityStatusRevoked = 3"
definition IdentityStatusPending :: IdentityStatus where "IdentityStatusPending = 4"

lemmas identity_status_defs = IdentityStatusUnknown_def IdentityStatusActive_def
  IdentityStatusExpired_def IdentityStatusRevoked_def IdentityStatusPending_def

definition IdentityStatus_String :: "IdentityStatus \<Rightarrow> string" where
  "IdentityStatus_String s =
     (if s = IdentityStatusActive then ''active'' else if s = IdentityStatusExpired then ''expired''
      else if s = IdentityStatusRevoked then ''revoked''
      else if s = IdentityStatusPending then ''pending'' else ''unknown'')"

record identity =
  vi_VehicleID :: address
  vi_PublicKey :: bytes
  vi_Certificate :: bytes
  vi_CertificateHash :: hash
  vi_FleetID :: string
  vi_Status :: IdentityStatus
  vi_RegisteredAt :: i64
  vi_ExpiresAt :: i64
  vi_LastRotatedAt :: i64
  vi_LastSeenAt :: i64
  vi_CAName :: string
  vi_CAChainHash :: bytes

datatype identity_error =
    AlreadyRegistered
  | MissingSignature
  | RecoverFailed
  | AddressMismatch
  | PEMDecodeFailed
  | CertParseFailed
  | CertVerifyFailed
  | PublicKeyMarshalFailed
  | PublicKeyMismatch
  | CertRevoked
  | IdentityStoreErr storage_error
  | EmptyBatch
  | NoneRegistered
  | IdentityNotFound
  | IdentityNotActive IdentityStatus
  | IdentityRevoked
  | CertExpired
  | CertAlreadyRevoked
  | OldCertHashMismatch
  | CRLDecodeFailed

definition id_IsExpired :: "i64 \<Rightarrow> identity \<Rightarrow> bool" where
  "id_IsExpired now v \<longleftrightarrow> sint (vi_ExpiresAt v) < sint now"

definition NeedsRotation :: "i64 \<Rightarrow> identity \<Rightarrow> int \<Rightarrow> bool" where
  "NeedsRotation now v daysBefore =
     (let daysBefore = (if daysBefore \<le> 0 then 7 else daysBefore);
          rotationThreshold = vi_ExpiresAt v - of_int (daysBefore * 24 * 60 * 60)
      in sint rotationThreshold \<le> sint now)"

definition id_IsActive :: "i64 \<Rightarrow> identity \<Rightarrow> bool" where
  "id_IsActive now v \<longleftrightarrow> vi_Status v = IdentityStatusActive \<and> \<not> id_IsExpired now v"

definition parseCertificate :: "x509_lib \<Rightarrow> bytes \<Rightarrow> identity_error + x509_cert" where
  "parseCertificate X certPEM =
     (case pem_decode X certPEM of
        None \<Rightarrow> Inl PEMDecodeFailed
      | Some block \<Rightarrow>
          (case x509_parse X block of None \<Rightarrow> Inl CertParseFailed | Some cert \<Rightarrow> Inr cert))"

definition ParseCertificate :: "x509_lib \<Rightarrow> identity \<Rightarrow> identity_error + x509_cert" where
  "ParseCertificate X v =
     (case pem_decode X (vi_Certificate v) of
        None \<Rightarrow> Inl PEMDecodeFailed
      | Some block \<Rightarrow>
          (case x509_parse X block of None \<Rightarrow> Inl CertParseFailed | Some cert \<Rightarrow> Inr cert))"

record cert_info =
  ci_SerialNumber :: string
  ci_Subject :: string
  ci_Issuer :: string
  ci_NotBefore :: i64
  ci_NotAfter :: i64
  ci_DNSNames :: "string list"
  ci_EmailAddresses :: "string list"
  ci_PublicKey :: bytes

definition GetCertificateInfo :: "x509_lib \<Rightarrow> identity \<Rightarrow> identity_error + cert_info" where
  "GetCertificateInfo X v =
     (case ParseCertificate X v of
        Inl e \<Rightarrow> Inl e
      | Inr cert \<Rightarrow> Inr \<lparr>ci_SerialNumber = cert_SerialNumber cert, ci_Subject = cert_Subject cert,
          ci_Issuer = cert_Issuer cert, ci_NotBefore = cert_NotBefore cert,
          ci_NotAfter = cert_NotAfter cert, ci_DNSNames = cert_DNSNames cert,
          ci_EmailAddresses = cert_EmailAddresses cert, ci_PublicKey = vi_PublicKey v\<rparr>)"

section \<open>Revocation list, requests\<close>

record crl_entry =
  ce_SerialNumber :: string
  ce_RevokedAt :: i64
  ce_Reason :: string

record crl =
  crl_IssuerHash :: bytes
  crl_UpdatedAt :: i64
  crl_NextUpdate :: i64
  crl_Entries :: "crl_entry list"
  crl_Signature :: bytes

definition crl_IsRevoked :: "crl \<Rightarrow> string \<Rightarrow> bool" where
  "crl_IsRevoked c serialNumber = list_ex (\<lambda>e. ce_SerialNumber e = serialNumber) (crl_Entries c)"

record registration =
  rr_VehicleID :: address
  rr_PublicKey :: bytes
  rr_Certificate :: bytes
  rr_FleetID :: string
  rr_Signature :: bytes
  rr_Timestamp :: i64

record batch_registration =
  br_FleetID :: string
  br_Requests :: "registration list"
  br_CASignature :: bytes
  br_Timestamp :: i64

record rotation =
  ro_VehicleID :: address
  ro_NewCertificate :: bytes
  ro_OldCertHash :: hash
  ro_Signature :: bytes
  ro_Timestamp :: i64

definition VerifyRequestSignature :: "crypto \<Rightarrow> registration \<Rightarrow> identity_error option" where
  "VerifyRequestSignature C req =
     (if length (rr_Signature req) = 0 then Some MissingSignature
      else let data = Address_Bytes (rr_VehicleID req) @ rr_PublicKey req @ rr_Certificate req in
        case sig_to_pub C (keccak256 C data) (rr_Signature req) of
          None \<Rightarrow> Some RecoverFailed
        | Some pubKey \<Rightarrow>
            if pubkey_to_address C pubKey \<noteq> rr_VehicleID req then Some AddressMismatch else None)"

record online_status =
  os_VehicleID :: address
  os_IsOnline :: bool
  os_LastSeenAt :: i64
  os_LastBlockAt :: i64
  os_NetworkAddr :: string

section \<open>JSON form\<close>

definition enc_identity :: "identity \<Rightarrow> json" where
  "enc_identity v = JObj (
     [(''vehicle_id'', enc_address (vi_VehicleID v)), (''public_key'', JB64 (vi_PublicKey v)),
      (''certificate'', JB64 (vi_Certificate v)), (''certificate_hash'', enc_hash (vi_CertificateHash v))]
     @ (if vi_FleetID v = [] then [] else [(''fleet_id'', JStr (vi_FleetID v))])
     @ [(''status'', enc_uint (vi_Status v)), (''registered_at'', enc_sint (vi_RegisteredAt v)),
      (''expires_at'', enc_sint (vi_ExpiresAt v)), (''last_rotated_at'', enc_sint (vi_LastRotatedAt v)),
      (''last_seen_at'', enc_sint (vi_LastSeenAt v)), (''ca_name'', JStr (vi_CAName v)),
      (''ca_chain_hash'', JB64 (vi_CAChainHash v))])"

definition zero_identity :: identity where
  "zero_identity = \<lparr>vi_VehicleID = 0, vi_PublicKey = [], vi_Certificate = [], vi_CertificateHash = 0,
     vi_FleetID = [], vi_Status = 0, vi_RegisteredAt = 0, vi_ExpiresAt = 0, vi_LastRotatedAt = 0,
     vi_LastSeenAt = 0, vi_CAName = [], vi_CAChainHash = []\<rparr>"

definition dec_identity :: "identity decoder" where
  "dec_identity j = (if j = JNull then Some zero_identity else if \<not> is_obj j then None else
     Option.bind (jget j ''vehicle_id'' dec_address 0) (\<lambda>a.
     Option.bind (jget j ''public_key'' dec_bytes []) (\<lambda>pk.
     Option.bind (jget j ''certificate'' dec_bytes []) (\<lambda>c.
     Option.bind (jget j ''certificate_hash'' dec_hash 0) (\<lambda>h.
     Option.bind (jget j ''fleet_id'' dec_string []) (\<lambda>f.
     Option.bind (jget j ''status'' dec_uint 0) (\<lambda>st.
     Option.bind (jget j ''registered_at'' dec_sint 0) (\<lambda>r.
     Option.bind (jget j ''expires_at'' dec_sint 0) (\<lambda>e.
     Option.bind (jget j ''last_rotated_at'' dec_sint 0) (\<lambda>l.
     Option.bind (jget j ''last_seen_at'' dec_sint 0) (\<lambda>se.
     Option.bind (jget j ''ca_name'' dec_string []) (\<lambda>n.
     Option.bind (jget j ''ca_chain_hash'' dec_bytes []) (\<lambda>ch.
       Some \<lparr>vi_VehicleID = a, vi_PublicKey = pk, vi_Certificate = c, vi_CertificateHash = h,
             vi_FleetID = f, vi_Status = st, vi_RegisteredAt = r, vi_ExpiresAt = e,
             vi_LastRotatedAt = l, vi_LastSeenAt = se, vi_CAName = n, vi_CAChainHash = ch\<rparr>)))))))))))))"

definition enc_crl_entry :: "crl_entry \<Rightarrow> json" where
  "enc_crl_entry e = JObj [(''serial_number'', JStr (ce_SerialNumber e)),
     (''revoked_at'', enc_sint (ce_RevokedAt e)), (''reason'', JStr (ce_Reason e))]"

definition dec_crl_entry :: "crl_entry decoder" where
  "dec_crl_entry j = (if j = JNull then Some \<lparr>ce_SerialNumber = [], ce_RevokedAt = 0, ce_Reason = []\<rparr>
     else if \<not> is_obj j then None else
     Option.bind (jget j ''serial_number'' dec_string []) (\<lambda>s.
     Option.bind (jget j ''revoked_at'' dec_sint 0) (\<lambda>t.
     Option.bind (jget j ''reason'' dec_string []) (\<lambda>r.
       Some \<lparr>ce_SerialNumber = s, ce_RevokedAt = t, ce_Reason = r\<rparr>))))"

definition enc_crl :: "crl \<Rightarrow> json" where
  "enc_crl c = JObj [(''issuer_hash'', JB64 (crl_IssuerHash c)), (''updated_at'', enc_sint (crl_UpdatedAt c)),
     (''next_update'', enc_sint (crl_NextUpdate c)), (''entries'', enc_list enc_crl_entry (crl_Entries c)),
     (''signature'', JB64 (crl_Signature c))]"

definition empty_crl :: crl where
  "empty_crl = \<lparr>crl_IssuerHash = [], crl_UpdatedAt = 0, crl_NextUpdate = 0, crl_Entries = [],
     crl_Signature = []\<rparr>"

definition dec_crl :: "crl decoder" where
  "dec_crl j = (if j = JNull then Some empty_crl else if \<not> is_obj j then None else
     Option.bind (jget j ''issuer_hash'' dec_bytes []) (\<lambda>i.
     Option.bind (jget j ''updated_at'' dec_sint 0) (\<lambda>u.
     Option.bind (jget j ''next_update'' dec_sint 0) (\<lambda>n.
     Option.bind (jget j ''entries'' (dec_list dec_crl_entry) []) (\<lambda>es.
     Option.bind (jget j ''signature'' dec_bytes []) (\<lambda>s.
       Some \<lparr>crl_IssuerHash = i, crl_UpdatedAt = u, crl_NextUpdate = n, crl_Entries = es,
             crl_Signature = s\<rparr>))))))"

lemma dec_enc_identity [simp]: "dec_identity (enc_identity v) = Some v"
  by (cases v) (simp add: dec_identity_def enc_identity_def jget_def)

lemma dec_enc_crl_entry [simp]: "dec_crl_entry (enc_crl_entry e) = Some e"
  by (simp add: dec_crl_entry_def enc_crl_entry_def jget_def)

lemma dec_enc_crl [simp]: "dec_crl (enc_crl c) = Some c"
  by (simp add: dec_crl_def enc_crl_def jget_def)

section \<open>The service\<close>

record 's identity_service =
  is_storage :: 's
  is_crl :: crl
  is_cache :: "(address, identity) fmap"
  is_online :: "(address, online_status) fmap"
  is_caPool :: "bytes option"
  is_rotateDaysBefore :: int

definition identityKey :: "address \<Rightarrow> bytes" where
  "identityKey a = PrefixIdentity @ Address_Bytes a"

definition crlKey :: bytes where
  "crlKey = PrefixMetadata @ string_bytes ''crl''"

definition storeIdentity ::
  "json_lib \<Rightarrow> 's db \<Rightarrow> 's identity_service \<Rightarrow> identity \<Rightarrow> 's identity_service \<times> identity_error option" where
  "storeIdentity J L s v =
     (case Storage_Put L (is_storage s) (identityKey (vi_VehicleID v)) (js_text J (enc_identity v)) of
        (st, e) \<Rightarrow> (s\<lparr>is_storage := st\<rparr>, map_option IdentityStoreErr e))"

definition loadIdentityFromStorage :: "json_lib \<Rightarrow> 's db \<Rightarrow> 's \<Rightarrow> address \<Rightarrow> identity option" where
  "loadIdentityFromStorage J L st a =
     (case Storage_Get L st (identityKey a) of
        Inl _ \<Rightarrow> None | Inr data \<Rightarrow> unmarshal J dec_identity data)"

definition put_identity :: "'s identity_service \<Rightarrow> address \<Rightarrow> identity \<Rightarrow> 's identity_service" where
  "put_identity s a v = s\<lparr>is_cache := mput (is_cache s) a v\<rparr>"

definition storeCRL :: "json_lib \<Rightarrow> 's db \<Rightarrow> 's identity_service \<Rightarrow> 's identity_service \<times> identity_error option" where
  "storeCRL J L s =
     (case Storage_Put L (is_storage s) crlKey (js_text J (enc_crl (is_crl s))) of
        (st, e) \<Rightarrow> (s\<lparr>is_storage := st\<rparr>, map_option IdentityStoreErr e))"

definition loadCRL :: "json_lib \<Rightarrow> 's db \<Rightarrow> 's identity_service \<Rightarrow> 's identity_service \<times> identity_error option" where
  "loadCRL J L s =
     (case Storage_Get L (is_storage s) crlKey of
        Inl ErrNotFound \<Rightarrow> (s, None)
      | Inl e \<Rightarrow> (s, Some (IdentityStoreErr e))
      | Inr data \<Rightarrow>
          (case unmarshal J dec_crl data of
             None \<Rightarrow> (s, Some CRLDecodeFailed) | Some c \<Rightarrow> (s\<lparr>is_crl := c\<rparr>, None)))"

text \<open>The values that the iterator over the prefix returns are an argument.\<close>

definition loadIdentities :: "json_lib \<Rightarrow> bytes list \<Rightarrow> 's identity_service \<Rightarrow> 's identity_service" where
  "loadIdentities J vals s =
     fold (\<lambda>data s. case unmarshal J dec_identity data of
             None \<Rightarrow> s | Some v \<Rightarrow> put_identity s (vi_VehicleID v) v) vals s"

text \<open>Errors of the two loads are only logged.\<close>

definition NewIdentityService ::
  "json_lib \<Rightarrow> x509_lib \<Rightarrow> 's db \<Rightarrow> 's \<Rightarrow> bytes list \<Rightarrow> bytes \<Rightarrow> identity_error + 's identity_service" where
  "NewIdentityService J X L store vals caCertPEM =
     (let s = \<lparr>is_storage = store, is_crl = empty_crl, is_cache = fmempty, is_online = fmempty,
               is_caPool = None, is_rotateDaysBefore = 7\<rparr>;
          r = (if 0 < length caCertPEM
               then (case parseCertificate X caCertPEM of
                       Inl e \<Rightarrow> Inl e | Inr _ \<Rightarrow> Inr (s\<lparr>is_caPool := Some caCertPEM\<rparr>))
               else Inr s)
      in (case r of
            Inl e \<Rightarrow> Inl e
          | Inr s \<Rightarrow> Inr (fst (loadCRL J L (loadIdentities J vals s)))))"

definition id_IsRevoked :: "'s identity_service \<Rightarrow> string \<Rightarrow> bool" where
  "id_IsRevoked s serialNumber = crl_IsRevoked (is_crl s) serialNumber"

definition GetIdentity ::
  "json_lib \<Rightarrow> 's db \<Rightarrow> 's identity_service \<Rightarrow> address \<Rightarrow> 's identity_service \<times> identity option" where
  "GetIdentity J L s a =
     (case mget (is_cache s) a of
        Some v \<Rightarrow> (s, Some v)
      | None \<Rightarrow>
          (case loadIdentityFromStorage J L (is_storage s) a of
             None \<Rightarrow> (s, None) | Some v \<Rightarrow> (put_identity s a v, Some v)))"

definition RegisterVehicle ::
  "crypto \<Rightarrow> json_lib \<Rightarrow> x509_lib \<Rightarrow> 's db \<Rightarrow> i64 \<Rightarrow> 's identity_service \<Rightarrow> registration
     \<Rightarrow> 's identity_service \<times> (identity_error + identity)" where
  "RegisterVehicle C J X L now s req =
     (case GetIdentity J L s (rr_VehicleID req) of
        (s, Some _) \<Rightarrow> (s, Inl AlreadyRegistered)
      | (s, None) \<Rightarrow>
     (case VerifyRequestSignature C req of
        Some e \<Rightarrow> (s, Inl e)
      | None \<Rightarrow>
     (case parseCertificate X (rr_Certificate req) of
        Inl e \<Rightarrow> (s, Inl e)
      | Inr cert \<Rightarrow>
          if (case is_caPool s of None \<Rightarrow> False
              | Some pool \<Rightarrow> \<not> x509_verify X pool now ExtKeyUsageClientAuth cert)
          then (s, Inl CertVerifyFailed)
          else case cert_PKIX cert of
            None \<Rightarrow> (s, Inl PublicKeyMarshalFailed)
          | Some certPubKey \<Rightarrow>
              if certPubKey \<noteq> rr_PublicKey req then (s, Inl PublicKeyMismatch)
              else if id_IsRevoked s (cert_SerialNumber cert) then (s, Inl CertRevoked)
              else let v = \<lparr>vi_VehicleID = rr_VehicleID req, vi_PublicKey = rr_PublicKey req,
                     vi_Certificate = rr_Certificate req,
                     vi_CertificateHash = keccak256 C (rr_Certificate req),
                     vi_FleetID = rr_FleetID req, vi_Status = IdentityStatusActive,
                     vi_RegisteredAt = now, vi_ExpiresAt = cert_NotAfter cert,
                     vi_LastRotatedAt = now, vi_LastSeenAt = now,
                     vi_CAName = cert_Issuer cert, vi_CAChainHash = []\<rparr>
                in (case storeIdentity J L s v of
                      (s, Some e) \<Rightarrow> (s, Inl e)
                    | (s, None) \<Rightarrow> (put_identity s (vi_VehicleID v) v, Inr v)))))"

fun batch_loop ::
  "crypto \<Rightarrow> json_lib \<Rightarrow> x509_lib \<Rightarrow> 's db \<Rightarrow> i64 \<Rightarrow> string \<Rightarrow> registration list \<Rightarrow> 's identity_service
     \<Rightarrow> identity list \<Rightarrow> 's identity_service \<times> identity list" where
  "batch_loop C J X L now fleet [] s ids = (s, ids)"
| "batch_loop C J X L now fleet (req # reqs) s ids =
     (case RegisterVehicle C J X L now s (req\<lparr>rr_FleetID := fleet\<rparr>) of
        (s, Inl e) \<Rightarrow> batch_loop C J X L now fleet reqs s ids
      | (s, Inr v) \<Rightarrow> batch_loop C J X L now fleet reqs s (ids @ [v]))"

definition BatchRegisterVehicles ::
  "crypto \<Rightarrow> json_lib \<Rightarrow> x509_lib \<Rightarrow> 's db \<Rightarrow> i64 \<Rightarrow> 's identity_service \<Rightarrow> batch_registration
     \<Rightarrow> 's identity_service \<times> (identity_error + identity list)" where
  "BatchRegisterVehicles C J X L now s req =
     (if length (br_Requests req) = 0 then (s, Inl EmptyBatch)
      else case batch_loop C J X L now (br_FleetID req) (br_Requests req) s [] of
        (s, ids) \<Rightarrow> if length ids = 0 then (s, Inl NoneRegistered) else (s, Inr ids))"

definition QueryIdentity ::
  "json_lib \<Rightarrow> 's db \<Rightarrow> 's identity_service \<Rightarrow> address
     \<Rightarrow> 's identity_service \<times> (identity \<times> online_status option) option" where
  "QueryIdentity J L s a =
     (case GetIdentity J L s a of
        (s, None) \<Rightarrow> (s, None) | (s, Some v) \<Rightarrow> (s, Some (v, mget (is_online s) a)))"

definition GetPublicKey ::
  "json_lib \<Rightarrow> 's db \<Rightarrow> i64 \<Rightarrow> 's identity_service \<Rightarrow> address
     \<Rightarrow> 's identity_service \<times> (identity_error + bytes)" where
  "GetPublicKey J L now s a =
     (case GetIdentity J L s a of
        (s, None) \<Rightarrow> (s, Inl IdentityNotFound)
      | (s, Some v) \<Rightarrow> if \<not> id_IsActive now v then (s, Inl (IdentityNotActive (vi_Status v)))
                       else (s, Inr (vi_PublicKey v)))"

definition VerifyNodeAdmission ::
  "json_lib \<Rightarrow> x509_lib \<Rightarrow> 's db \<Rightarrow> i64 \<Rightarrow> 's identity_service \<Rightarrow> address
     \<Rightarrow> 's identity_service \<times> identity_error option" where
  "VerifyNodeAdmission J X L now s a =
     (case GetIdentity J L s a of
        (s, None) \<Rightarrow> (s, Some IdentityNotFound)
      | (s, Some v) \<Rightarrow>
          if vi_Status v = IdentityStatusRevoked then (s, Some IdentityRevoked)
          else if id_IsExpired now v then (s, Some CertExpired)
          else case ParseCertificate X v of
            Inl e \<Rightarrow> (s, Some e)
          | Inr cert \<Rightarrow> if id_IsRevoked s (cert_SerialNumber cert) then (s, Some CertRevoked)
                        else (s, None))"

text \<open>Revocation marks the first cached identity, in the order in which the map is visited.\<close>

definition has_serial :: "x509_lib \<Rightarrow> identity \<Rightarrow> string \<Rightarrow> bool" where
  "has_serial X v serialNumber =
     (case ParseCertificate X v of Inl _ \<Rightarrow> False | Inr cert \<Rightarrow> cert_SerialNumber cert = serialNumber)"

definition mark_revoked ::
  "json_lib \<Rightarrow> x509_lib \<Rightarrow> 's db \<Rightarrow> address list \<Rightarrow> 's identity_service \<Rightarrow> string \<Rightarrow> 's identity_service" where
  "mark_revoked J X L order s serialNumber =
     (case find (\<lambda>a. case mget (is_cache s) a of None \<Rightarrow> False
                     | Some v \<Rightarrow> has_serial X v serialNumber) order of
        None \<Rightarrow> s
      | Some a \<Rightarrow>
          (case mget (is_cache s) a of
             None \<Rightarrow> s
           | Some v \<Rightarrow> let v = v\<lparr>vi_Status := IdentityStatusRevoked\<rparr>
                       in fst (storeIdentity J L (put_identity s a v) v)))"

definition RevokeCertificate ::
  "json_lib \<Rightarrow> x509_lib \<Rightarrow> 's db \<Rightarrow> i64 \<Rightarrow> address list \<Rightarrow> 's identity_service \<Rightarrow> string \<Rightarrow> string
     \<Rightarrow> 's identity_service \<times> identity_error option" where
  "RevokeCertificate J X L now order s serialNumber reason =
     (if list_ex (\<lambda>e. ce_SerialNumber e = serialNumber) (crl_Entries (is_crl s))
      then (s, Some CertAlreadyRevoked)
      else let entry = \<lparr>ce_SerialNumber = serialNumber, ce_RevokedAt = now, ce_Reason = reason\<rparr>;
               s = s\<lparr>is_crl := (is_crl s)\<lparr>crl_Entries := crl_Entries (is_crl s) @ [entry],
                                         crl_UpdatedAt := now,
                                         crl_NextUpdate := now + 24 * 60 * 60\<rparr>\<rparr> in
        (case storeCRL J L s of
           (s, Some e) \<Rightarrow> (s, Some e)
         | (s, None) \<Rightarrow> (mark_revoked J X L order s serialNumber, None)))"

definition RotateCertificate ::
  "crypto \<Rightarrow> json_lib \<Rightarrow> x509_lib \<Rightarrow> 's db \<Rightarrow> i64 \<Rightarrow> 's identity_service \<Rightarrow> rotation
     \<Rightarrow> 's identity_service \<times> identity_error option" where
  "RotateCertificate C J X L now s req =
     (case GetIdentity J L s (ro_VehicleID req) of
        (s, None) \<Rightarrow> (s, Some IdentityNotFound)
      | (s, Some v) \<Rightarrow>
          if vi_CertificateHash v \<noteq> ro_OldCertHash req then (s, Some OldCertHashMismatch)
          else case parseCertificate X (ro_NewCertificate req) of
            Inl e \<Rightarrow> (s, Some e)
          | Inr newCert \<Rightarrow>
              if (case is_caPool s of None \<Rightarrow> False
                  | Some pool \<Rightarrow> \<not> x509_verify X pool now ExtKeyUsageServerAuth newCert)
              then (s, Some CertVerifyFailed)
              else let v = v\<lparr>vi_Certificate := ro_NewCertificate req,
                     vi_CertificateHash := keccak256 C (ro_NewCertificate req),
                     vi_ExpiresAt := cert_NotAfter newCert, vi_LastRotatedAt := now,
                     vi_Status := IdentityStatusActive\<rparr>;
                     s = put_identity s (ro_VehicleID req) v in
                (case storeIdentity J L s v of
                   (s, Some e) \<Rightarrow> (s, Some e)
                 | (s, None) \<Rightarrow> (put_identity s (vi_VehicleID v) v, None)))"

definition UpdateOnlineStatus ::
  "json_lib \<Rightarrow> 's db \<Rightarrow> i64 \<Rightarrow> 's identity_service \<Rightarrow> address \<Rightarrow> bool \<Rightarrow> string \<Rightarrow> 's identity_service" where
  "UpdateOnlineStatus J L now s a isOnline networkAddr =
     (let status = (case mget (is_online s) a of
            Some st \<Rightarrow> st
          | None \<Rightarrow> \<lparr>os_VehicleID = a, os_IsOnline = False, os_LastSeenAt = 0, os_LastBlockAt = 0,
                     os_NetworkAddr = []\<rparr>);
          status = status\<lparr>os_IsOnline := isOnline\<rparr>;
          status = (if isOnline then status\<lparr>os_LastSeenAt := now, os_NetworkAddr := networkAddr\<rparr>
                    else status);
          s = s\<lparr>is_online := mput (is_online s) a status\<rparr>
      in case GetIdentity J L s a of
           (s, None) \<Rightarrow> s
         | (s, Some v) \<Rightarrow> put_identity s a (v\<lparr>vi_LastSeenAt := now\<rparr>))"

definition GetOnlineStatus :: "'s identity_service \<Rightarrow> address \<Rightarrow> online_status option" where
  "GetOnlineStatus s a = mget (is_online s) a"

definition expire_one ::
  "json_lib \<Rightarrow> 's db \<Rightarrow> i64 \<Rightarrow> address \<Rightarrow> 's identity_service \<Rightarrow> 's identity_service" where
  "expire_one J L now a s =
     (case mget (is_cache s) a of
        None \<Rightarrow> s
      | Some v \<Rightarrow>
          if vi_Status v = IdentityStatusActive \<and> sint (vi_ExpiresAt v) < sint now
          then let v = v\<lparr>vi_Status := IdentityStatusExpired\<rparr>
               in fst (storeIdentity J L (put_identity s a v) v)
          else s)"

definition checkExpiredCertificates ::
  "json_lib \<Rightarrow> 's db \<Rightarrow> i64 \<Rightarrow> address list \<Rightarrow> 's identity_service \<Rightarrow> 's identity_service" where
  "checkExpiredCertificates J L now order s = fold (expire_one J L now) order s"

text \<open>The vehicles whose need of a new certificate is logged.\<close>

definition checkCertificatesForRotation :: "i64 \<Rightarrow> address list \<Rightarrow> 's identity_service \<Rightarrow> address list" where
  "checkCertificatesForRotation now order s =
     filter (\<lambda>a. case mget (is_cache s) a of None \<Rightarrow> False
                 | Some v \<Rightarrow> id_IsActive now v \<and> NeedsRotation now v (is_rotateDaysBefore s)) order"

section \<open>Admission (admission.go)\<close>

record connection_gater = cg_blockedPeers :: "(string, bool) fmap"

definition gater_allows :: "connection_gater \<Rightarrow> string \<Rightarrow> bool" where
  "gater_allows cg p = (case mget (cg_blockedPeers cg) p of None \<Rightarrow> True | Some b \<Rightarrow> \<not> b)"

definition BlockPeer :: "connection_gater \<Rightarrow> string \<Rightarrow> connection_gater" where
  "BlockPeer cg p = cg\<lparr>cg_blockedPeers := mput (cg_blockedPeers cg) p True\<rparr>"

definition UnblockPeer :: "connection_gater \<Rightarrow> string \<Rightarrow> connection_gater" where
  "UnblockPeer cg p = cg\<lparr>cg_blockedPeers := mdel (cg_blockedPeers cg) p\<rparr>"

definition admission_IsAllowed ::
  "json_lib \<Rightarrow> x509_lib \<Rightarrow> 's db \<Rightarrow> i64 \<Rightarrow> 's identity_service \<Rightarrow> address \<Rightarrow> bool" where
  "admission_IsAllowed J X L now s a = (snd (VerifyNodeAdmission J X L now s a) = None)"

section \<open>What every operation keeps\<close>

text \<open>
  \<open>id_ok\<close>: an identity is filed under its own vehicle, carries the hash of its certificate, and
  expires with the certificate. \<open>revoked_for_good\<close>: a serial number is in the list in memory and in
  the stored list.
\<close>

definition id_ok :: "crypto \<Rightarrow> x509_lib \<Rightarrow> address \<Rightarrow> identity \<Rightarrow> bool" where
  "id_ok C X a v \<longleftrightarrow> vi_VehicleID v = a \<and> vi_CertificateHash v = keccak256 C (vi_Certificate v)
     \<and> (\<exists>cert. parseCertificate X (vi_Certificate v) = Inr cert \<and> vi_ExpiresAt v = cert_NotAfter cert)"

definition ids_ok ::
  "crypto \<Rightarrow> json_lib \<Rightarrow> x509_lib \<Rightarrow> ('s \<Rightarrow> bytes \<Rightarrow> bytes option) \<Rightarrow> 's identity_service \<Rightarrow> bool" where
  "ids_ok C J X contents s \<longleftrightarrow>
     (\<forall>a v. mget (is_cache s) a = Some v \<longrightarrow> id_ok C X a v)
     \<and> (\<forall>a d v. contents (is_storage s) (identityKey a) = Some d \<longrightarrow>
          unmarshal J dec_identity d = Some v \<longrightarrow> id_ok C X a v)"

definition revoked_for_good ::
  "json_lib \<Rightarrow> ('s \<Rightarrow> bytes \<Rightarrow> bytes option) \<Rightarrow> 's identity_service \<Rightarrow> string \<Rightarrow> bool" where
  "revoked_for_good J contents s sn \<longleftrightarrow> id_IsRevoked s sn
     \<and> (\<exists>d c. contents (is_storage s) crlKey = Some d \<and> unmarshal J dec_crl d = Some c
          \<and> crl_IsRevoked c sn)"

definition id_keeps ::
  "crypto \<Rightarrow> json_lib \<Rightarrow> x509_lib \<Rightarrow> ('s \<Rightarrow> bytes \<Rightarrow> bytes option)
     \<Rightarrow> 's identity_service \<Rightarrow> 's identity_service \<Rightarrow> bool" where
  "id_keeps C J X contents s s' \<longleftrightarrow>
     (ids_ok C J X contents s \<longrightarrow> ids_ok C J X contents s')
     \<and> (\<forall>sn. revoked_for_good J contents s sn \<longrightarrow> revoked_for_good J contents s' sn)"

lemma id_keeps_refl [simp]: "id_keeps C J X contents s s"
  by (simp add: id_keeps_def)

lemma id_keeps_trans [trans]:
  "id_keeps C J X contents s s' \<Longrightarrow> id_keeps C J X contents s' s'' \<Longrightarrow> id_keeps C J X contents s s''"
  by (simp add: id_keeps_def)

lemma ParseCertificate_eq: "ParseCertificate X v = parseCertificate X (vi_Certificate v)"
  by (simp add: ParseCertificate_def parseCertificate_def)

lemma id_ok_update [simp]:
  "id_ok C X a (v\<lparr>vi_Status := st\<rparr>) = id_ok C X a v" "id_ok C X a (v\<lparr>vi_LastSeenAt := t\<rparr>) = id_ok C X a v"
  by (simp_all add: id_ok_def)

lemma identity_keys:
  "identityKey a = identityKey b \<longleftrightarrow> a = b" "identityKey a \<noteq> crlKey" "crlKey \<noteq> identityKey a"
  by (auto simp: identityKey_def crlKey_def prefix_defs Address_Bytes_def)

lemma put_identity_simps [simp]:
  "is_cache (put_identity s a v) = mput (is_cache s) a v" "is_storage (put_identity s a v) = is_storage s"
  "is_crl (put_identity s a v) = is_crl s" "is_caPool (put_identity s a v) = is_caPool s"
  "is_online (put_identity s a v) = is_online s"
  by (simp_all add: put_identity_def)

lemma put_identity_keeps:
  "(ids_ok C J X contents s \<Longrightarrow> id_ok C X a v) \<Longrightarrow> id_keeps C J X contents s (put_identity s a v)"
  by (simp add: id_keeps_def ids_ok_def revoked_for_good_def id_IsRevoked_def)

lemma online_keeps [simp]: "id_keeps C J X contents s (s\<lparr>is_online := m\<rparr>)"
  by (simp add: id_keeps_def ids_ok_def revoked_for_good_def id_IsRevoked_def)

lemma storeIdentity_frame:
  "storeIdentity J L s v = (s', e) \<Longrightarrow> is_cache s' = is_cache s \<and> is_crl s' = is_crl s \<and> is_caPool s' = is_caPool s"
  by (auto simp: storeIdentity_def split: prod.splits)

lemma storeIdentity_contents:
  assumes "db_spec L contents" and "storeIdentity J L s v = (s', e)"
  shows "contents (is_storage s') k = (if e = None \<and> k = identityKey (vi_VehicleID v)
      then Some (js_text J (enc_identity v)) else contents (is_storage s) k)"
proof -
  obtain st r where p: "Storage_Put L (is_storage s) (identityKey (vi_VehicleID v)) (js_text J (enc_identity v)) = (st, r)"
    by (meson surj_pair)
  with assms(2) have "s' = s\<lparr>is_storage := st\<rparr>" "e = map_option IdentityStoreErr r"
    by (simp_all add: storeIdentity_def)
  with Storage_Put_spec [OF assms(1) p] show ?thesis by auto
qed

lemma storeIdentity_keeps:
  assumes "db_spec L contents" and "json_ok J" and "storeIdentity J L s v = (s', e)"
    and "ids_ok C J X contents s \<Longrightarrow> id_ok C X (vi_VehicleID v) v"
  shows "id_keeps C J X contents s s'"
  using storeIdentity_contents [OF assms(1,3)] storeIdentity_frame [OF assms(3)] assms(2,4)
  by (simp add: id_keeps_def ids_ok_def revoked_for_good_def id_IsRevoked_def identity_keys)

lemma GetIdentity_result:
  assumes "GetIdentity J L s a = (s', r)"
  shows "is_crl s' = is_crl s \<and> is_storage s' = is_storage s \<and> is_caPool s' = is_caPool s
    \<and> mget (is_cache s') a = r \<and> (r = None \<longrightarrow> s' = s)"
  using assms by (auto simp: GetIdentity_def split: option.splits)

lemma GetIdentity_keeps:
  assumes "db_spec L contents" and "GetIdentity J L s a = (s', r)"
  shows "id_keeps C J X contents s s'"
proof (cases "mget (is_cache s) a")
  case None
  show ?thesis
  proof (cases "loadIdentityFromStorage J L (is_storage s) a")
    case (Some v)
    then obtain d where "contents (is_storage s) (identityKey a) = Some d" "unmarshal J dec_identity d = Some v"
      by (auto simp: loadIdentityFromStorage_def Storage_Get_spec [OF assms(1)] split: option.splits)
    then have "ids_ok C J X contents s \<Longrightarrow> id_ok C X a v" by (auto simp: ids_ok_def)
    with Some None assms(2) show ?thesis by (auto simp: GetIdentity_def intro: put_identity_keeps)
  qed (use None assms(2) in \<open>simp add: GetIdentity_def\<close>)
qed (use assms(2) in \<open>simp add: GetIdentity_def\<close>)

lemma cached_ok: "ids_ok C J X contents s \<Longrightarrow> mget (is_cache s) a = Some v \<Longrightarrow> id_ok C X a v"
  by (simp add: ids_ok_def)

text \<open>Changing a cached identity in place and storing it, whatever the store answers.\<close>

lemma change_identity_keeps:
  assumes "db_spec L contents" and "json_ok J"
    and "ids_ok C J X contents s \<Longrightarrow> id_ok C X a v"
  shows "id_keeps C J X contents s (fst (storeIdentity J L (put_identity s a v) v))"
proof (cases "ids_ok C J X contents s")
  case True
  then have ok: "id_ok C X a v" by (rule assms(3))
  then have a: "vi_VehicleID v = a" by (simp add: id_ok_def)
  have "id_keeps C J X contents s (put_identity s a v)" by (rule put_identity_keeps) (rule ok)
  also have "id_keeps C J X contents (put_identity s a v) (fst (storeIdentity J L (put_identity s a v) v))"
    by (rule storeIdentity_keeps [OF assms(1,2) prod.collapse [symmetric]]) (use ok a in simp)
  finally show ?thesis .
next
  case False
  obtain s1 e where st: "storeIdentity J L (put_identity s a v) v = (s1, e)" by (meson surj_pair)
  from False storeIdentity_contents [OF assms(1) st] storeIdentity_frame [OF st] show ?thesis
    by (simp add: st id_keeps_def revoked_for_good_def id_IsRevoked_def identity_keys)
qed

lemma RegisterVehicle_accepts:
  assumes "RegisterVehicle C J X L now s req = (s', Inr v)"
  shows "\<exists>cert s1. GetIdentity J L s (rr_VehicleID req) = (s, None)
    \<and> VerifyRequestSignature C req = None \<and> parseCertificate X (rr_Certificate req) = Inr cert
    \<and> (\<forall>pool. is_caPool s = Some pool \<longrightarrow> x509_verify X pool now ExtKeyUsageClientAuth cert)
    \<and> cert_PKIX cert = Some (rr_PublicKey req) \<and> \<not> id_IsRevoked s (cert_SerialNumber cert)
    \<and> v = \<lparr>vi_VehicleID = rr_VehicleID req, vi_PublicKey = rr_PublicKey req,
         vi_Certificate = rr_Certificate req, vi_CertificateHash = keccak256 C (rr_Certificate req),
         vi_FleetID = rr_FleetID req, vi_Status = IdentityStatusActive, vi_RegisteredAt = now,
         vi_ExpiresAt = cert_NotAfter cert, vi_LastRotatedAt = now, vi_LastSeenAt = now,
         vi_CAName = cert_Issuer cert, vi_CAChainHash = []\<rparr>
    \<and> storeIdentity J L s v = (s1, None) \<and> s' = put_identity s1 (rr_VehicleID req) v"
proof -
  obtain s0 r0 where g: "GetIdentity J L s (rr_VehicleID req) = (s0, r0)" by (meson surj_pair)
  have r0: "r0 = None" "s0 = s"
    using assms g GetIdentity_result [OF g] by (auto simp: RegisterVehicle_def split: option.splits)
  with g assms show ?thesis
    by (auto simp: RegisterVehicle_def Let_def split: option.splits sum.splits if_splits prod.splits)
qed

lemma RegisterVehicle_refuses:
  assumes "RegisterVehicle C J X L now s req = (s', Inl e)"
  shows "s' = fst (GetIdentity J L s (rr_VehicleID req))
    \<or> (\<exists>v e. storeIdentity J L s v = (s', Some e) \<and> vi_VehicleID v = rr_VehicleID req
         \<and> id_ok C X (rr_VehicleID req) v)"
proof -
  obtain s0 r0 where g: "GetIdentity J L s (rr_VehicleID req) = (s0, r0)" by (meson surj_pair)
  show ?thesis
  proof (cases r0)
    case (Some v)
    with assms g show ?thesis by (simp add: RegisterVehicle_def)
  next
    case None
    with GetIdentity_result [OF g] have "s0 = s" by simp
    with None g assms show ?thesis
      by (auto simp: RegisterVehicle_def Let_def id_ok_def split: option.splits sum.splits if_splits prod.splits)
  qed
qed

lemma RegisterVehicle_keeps:
  assumes "db_spec L contents" and "json_ok J" and "RegisterVehicle C J X L now s req = (s', r)"
  shows "id_keeps C J X contents s s'"
proof (cases r)
  case (Inr v)
  from RegisterVehicle_accepts [OF assms(3) [unfolded Inr]] obtain s1 where st: "storeIdentity J L s v = (s1, None)"
    and s': "s' = put_identity s1 (rr_VehicleID req) v" and ok: "id_ok C X (rr_VehicleID req) v"
    by (fastforce simp: id_ok_def)
  then have "vi_VehicleID v = rr_VehicleID req" by (simp add: id_ok_def)
  then have "id_keeps C J X contents s s1"
    using storeIdentity_keeps [OF assms(1,2) st] ok by simp
  also have "id_keeps C J X contents s1 s'" unfolding s' by (rule put_identity_keeps) (rule ok)
  finally show ?thesis .
next
  case (Inl e)
  from RegisterVehicle_refuses [OF assms(3) [unfolded Inl]] show ?thesis
    using storeIdentity_keeps [OF assms(1,2)] GetIdentity_keeps [OF assms(1) prod.collapse [symmetric]] by metis
qed

lemma batch_loop_keeps:
  assumes "db_spec L contents" and "json_ok J"
  shows "batch_loop C J X L now fleet reqs s ids = (s', ids') \<Longrightarrow> id_keeps C J X contents s s'"
proof (induction reqs arbitrary: s ids)
  case (Cons req reqs)
  obtain s1 r where reg: "RegisterVehicle C J X L now s (req\<lparr>rr_FleetID := fleet\<rparr>) = (s1, r)"
    by (meson surj_pair)
  have "id_keeps C J X contents s1 s'"
    using Cons.prems Cons.IH reg by (cases r) auto
  with RegisterVehicle_keeps [OF assms reg] show ?case by (rule id_keeps_trans)
qed simp

lemma BatchRegister_keeps:
  assumes "db_spec L contents" and "json_ok J" and "BatchRegisterVehicles C J X L now s req = (s', r)"
  shows "id_keeps C J X contents s s'"
  using assms(3) batch_loop_keeps [OF assms(1,2)]
  by (auto simp: BatchRegisterVehicles_def split: if_splits prod.splits)

lemma storeCRL_contents:
  assumes "db_spec L contents" and "storeCRL J L s = (s', e)"
  shows "is_crl s' = is_crl s \<and> is_cache s' = is_cache s \<and> contents (is_storage s') k
    = (if e = None \<and> k = crlKey then Some (js_text J (enc_crl (is_crl s))) else contents (is_storage s) k)"
proof -
  obtain st r where p: "Storage_Put L (is_storage s) crlKey (js_text J (enc_crl (is_crl s))) = (st, r)"
    by (meson surj_pair)
  with assms(2) have "s' = s\<lparr>is_storage := st\<rparr>" "e = map_option IdentityStoreErr r"
    by (simp_all add: storeCRL_def)
  with Storage_Put_spec [OF assms(1) p] show ?thesis by auto
qed

lemma mark_revoked_keeps:
  assumes "db_spec L contents" and "json_ok J"
  shows "id_keeps C J X contents s (mark_revoked J X L order s sn)"
  by (auto simp: mark_revoked_def Let_def split: option.split
      intro!: change_identity_keeps [OF assms] dest: cached_ok)

text \<open>Revocation puts the serial number into both lists and removes none.\<close>

lemma RevokeCertificate_revokes:
  assumes "db_spec L contents" and "json_ok J"
    and "RevokeCertificate J X L now order s sn reason = (s', e)"
  shows "id_keeps C J X contents s s'" and "e = None \<Longrightarrow> revoked_for_good J contents s' sn"
proof -
  define s1 where "s1 = s\<lparr>is_crl := (is_crl s)\<lparr>crl_Entries := crl_Entries (is_crl s)
      @ [\<lparr>ce_SerialNumber = sn, ce_RevokedAt = now, ce_Reason = reason\<rparr>],
      crl_UpdatedAt := now, crl_NextUpdate := now + 24 * 60 * 60\<rparr>\<rparr>"
  obtain s2 e2 where st: "storeCRL J L s1 = (s2, e2)" by (meson surj_pair)
  note c2 = storeCRL_contents [OF assms(1) st]
  have r1: "id_IsRevoked s1 x \<longleftrightarrow> id_IsRevoked s x \<or> x = sn" for x
    by (auto simp: s1_def id_IsRevoked_def crl_IsRevoked_def)
  have k2: "id_keeps C J X contents s s2"
    using c2 r1 assms(2)
    by (auto simp: id_keeps_def ids_ok_def revoked_for_good_def id_IsRevoked_def identity_keys s1_def)
  have res: "(s' = s \<and> e = Some CertAlreadyRevoked) \<or> (s' = s2 \<and> e = e2 \<and> e2 \<noteq> None)
      \<or> (e2 = None \<and> e = None \<and> s' = mark_revoked J X L order s2 sn)"
    using assms(3) st by (auto simp: RevokeCertificate_def s1_def split: if_splits option.splits)
  then show "id_keeps C J X contents s s'"
    using k2 mark_revoked_keeps [OF assms(1,2)] id_keeps_trans by (metis id_keeps_refl)
  assume "e = None"
  with res have e2: "e2 = None" and s': "s' = mark_revoked J X L order s2 sn" by auto
  have "revoked_for_good J contents s2 sn"
    using c2 [of crlKey] r1 [of sn] assms(2) e2 by (auto simp: revoked_for_good_def id_IsRevoked_def)
  then show "revoked_for_good J contents s' sn"
    using mark_revoked_keeps [OF assms(1,2), of C X s2 order sn] by (simp add: s' id_keeps_def)
qed

lemma RotateCertificate_cases:
  assumes "RotateCertificate C J X L now s req = (s', e)"
  obtains s1 r where "GetIdentity J L s (ro_VehicleID req) = (s1, r)" and "s' = s1" and "e \<noteq> None"
  | s1 v newCert v' s2 e2 where "GetIdentity J L s (ro_VehicleID req) = (s1, Some v)"
      and "vi_CertificateHash v = ro_OldCertHash req"
      and "parseCertificate X (ro_NewCertificate req) = Inr newCert"
      and "v' = v\<lparr>vi_Certificate := ro_NewCertificate req,
             vi_CertificateHash := keccak256 C (ro_NewCertificate req),
             vi_ExpiresAt := cert_NotAfter newCert, vi_LastRotatedAt := now,
             vi_Status := IdentityStatusActive\<rparr>"
      and "storeIdentity J L (put_identity s1 (ro_VehicleID req) v') v' = (s2, e2)" and "e = e2"
      and "s' = (if e2 = None then put_identity s2 (vi_VehicleID v) v' else s2)"
proof -
  obtain s1 r where g: "GetIdentity J L s (ro_VehicleID req) = (s1, r)" by (meson surj_pair)
  show ?thesis
  proof (cases "\<exists>v newCert. r = Some v \<and> vi_CertificateHash v = ro_OldCertHash req
      \<and> parseCertificate X (ro_NewCertificate req) = Inr newCert
      \<and> \<not> (case is_caPool s1 of None \<Rightarrow> False | Some pool \<Rightarrow> \<not> x509_verify X pool now ExtKeyUsageServerAuth newCert)")
    case False
    then have "s' = s1 \<and> e \<noteq> None"
      using assms g by (auto simp: RotateCertificate_def split: option.splits sum.splits if_splits)
    with g that(1) show ?thesis by blast
  next
    case True
    then obtain v newCert where v: "r = Some v" "vi_CertificateHash v = ro_OldCertHash req"
      "parseCertificate X (ro_NewCertificate req) = Inr newCert"
      "\<not> (case is_caPool s1 of None \<Rightarrow> False | Some pool \<Rightarrow> \<not> x509_verify X pool now ExtKeyUsageServerAuth newCert)"
      by blast
    define v' where "v' = v\<lparr>vi_Certificate := ro_NewCertificate req,
       vi_CertificateHash := keccak256 C (ro_NewCertificate req), vi_ExpiresAt := cert_NotAfter newCert,
       vi_LastRotatedAt := now, vi_Status := IdentityStatusActive\<rparr>"
    obtain s2 e2 where st: "storeIdentity J L (put_identity s1 (ro_VehicleID req) v') v' = (s2, e2)"
      by (meson surj_pair)
    have id: "vi_VehicleID v' = vi_VehicleID v" by (simp add: v'_def)
    have "RotateCertificate C J X L now s req = (case (s2, e2) of (s, Some e) \<Rightarrow> (s, Some e)
        | (s, None) \<Rightarrow> (put_identity s (vi_VehicleID v') v', None))"
      by (simp only: RotateCertificate_def g v st [symmetric] v'_def Let_def prod.case option.case sum.case
          simp_thms if_False)
    with assms st id have "e = e2" "s' = (if e2 = None then put_identity s2 (vi_VehicleID v) v' else s2)"
      by (auto split: option.splits)
    with that(2) [OF g [unfolded v(1)] v(2,3) v'_def st] show ?thesis by blast
  qed
qed

lemma RotateCertificate_keeps:
  assumes "db_spec L contents" and "json_ok J" and "RotateCertificate C J X L now s req = (s', e)"
  shows "id_keeps C J X contents s s'"
  using assms(3)
proof (cases rule: RotateCertificate_cases)
  case (1 s1 r)
  with GetIdentity_keeps [OF assms(1)] show ?thesis by simp
next
  case (2 s1 v newCert v' s2 e2)
  have inmap: "mget (is_cache s1) (ro_VehicleID req) = Some v" using GetIdentity_result [OF 2(1)] by simp
  have v': "id_ok C X (ro_VehicleID req) v'" if "ids_ok C J X contents s1"
    using cached_ok [OF that inmap] 2(3) by (simp add: id_ok_def 2(4))
  have a: "id_keeps C J X contents s s1" by (rule GetIdentity_keeps [OF assms(1) 2(1)])
  have b: "id_keeps C J X contents s1 s2"
  proof -
    have "id_keeps C J X contents s1 (fst (storeIdentity J L (put_identity s1 (ro_VehicleID req) v') v'))"
      by (rule change_identity_keeps [OF assms(1,2)]) (rule v')
    then show ?thesis by (simp add: 2(5))
  qed
  have c: "id_keeps C J X contents s1 (put_identity s2 (vi_VehicleID v) v')"
  proof (cases "ids_ok C J X contents s1")
    case True
    from v' [OF True] have "id_ok C X (vi_VehicleID v) v'" by (simp add: id_ok_def 2(4))
    then have "id_keeps C J X contents s2 (put_identity s2 (vi_VehicleID v) v')"
      by (intro put_identity_keeps)
    with b show ?thesis by (rule id_keeps_trans)
  next
    case False
    with b show ?thesis by (simp add: id_keeps_def revoked_for_good_def id_IsRevoked_def)
  qed
  from a b c 2(7) show ?thesis using id_keeps_trans by (metis (full_types))
qed

lemma UpdateOnlineStatus_keeps:
  assumes "db_spec L contents"
  shows "id_keeps C J X contents s (UpdateOnlineStatus J L now s a b addr)"
proof -
  define st where "st = (case mget (is_online s) a of Some st \<Rightarrow> st
    | None \<Rightarrow> \<lparr>os_VehicleID = a, os_IsOnline = False, os_LastSeenAt = 0, os_LastBlockAt = 0, os_NetworkAddr = []\<rparr>)"
  define m where "m = mput (is_online s) a (if b then st\<lparr>os_IsOnline := b, os_LastSeenAt := now, os_NetworkAddr := addr\<rparr>
    else st\<lparr>os_IsOnline := b\<rparr>)"
  obtain s1 r where g: "GetIdentity J L (s\<lparr>is_online := m\<rparr>) a = (s1, r)" by (meson surj_pair)
  have "UpdateOnlineStatus J L now s a b addr = (case GetIdentity J L (s\<lparr>is_online := m\<rparr>) a of
      (s, None) \<Rightarrow> s | (s, Some v) \<Rightarrow> put_identity s a (v\<lparr>vi_LastSeenAt := now\<rparr>))"
    by (simp only: UpdateOnlineStatus_def Let_def st_def [symmetric] m_def)
  with g have u: "UpdateOnlineStatus J L now s a b addr
      = (case r of None \<Rightarrow> s1 | Some v \<Rightarrow> put_identity s1 a (v\<lparr>vi_LastSeenAt := now\<rparr>))"
    by simp
  have "id_keeps C J X contents s s1"
    by (rule id_keeps_trans [OF online_keeps GetIdentity_keeps [OF assms g]])
  moreover have "id_keeps C J X contents s1 (put_identity s1 a (v\<lparr>vi_LastSeenAt := now\<rparr>))" if "r = Some v" for v
    using GetIdentity_result [OF g] that by (intro put_identity_keeps) (auto dest: cached_ok)
  ultimately show ?thesis unfolding u by (auto split: option.split intro: id_keeps_trans)
qed

lemma checkExpired_keeps:
  assumes "db_spec L contents" and "json_ok J"
  shows "id_keeps C J X contents s (checkExpiredCertificates J L now order s)"
proof -
  have one: "id_keeps C J X contents s (expire_one J L now a s)" for s a
    by (auto simp: expire_one_def Let_def split: option.split
        intro!: change_identity_keeps [OF assms] dest: cached_ok)
  have "id_keeps C J X contents s (fold (expire_one J L now) order s)"
    by (induction order arbitrary: s) (auto intro: id_keeps_trans one)
  then show ?thesis by (simp add: checkExpiredCertificates_def)
qed

section \<open>Runs\<close>

text \<open>
  An operation of the service, or a restart over the same store. The iterator of a restart returns
  values that the store holds under identity keys.
\<close>

inductive identity_step ::
  "crypto \<Rightarrow> json_lib \<Rightarrow> x509_lib \<Rightarrow> 's db \<Rightarrow> ('s \<Rightarrow> bytes \<Rightarrow> bytes option)
     \<Rightarrow> 's identity_service \<Rightarrow> 's identity_service \<Rightarrow> bool" for C J X L contents where
  register: "RegisterVehicle C J X L now s req = (s', r) \<Longrightarrow> identity_step C J X L contents s s'"
| batch: "BatchRegisterVehicles C J X L now s breq = (s', r2) \<Longrightarrow> identity_step C J X L contents s s'"
| revoke: "RevokeCertificate J X L now order s sn reason = (s', e) \<Longrightarrow> identity_step C J X L contents s s'"
| rotate: "RotateCertificate C J X L now s ro = (s', e) \<Longrightarrow> identity_step C J X L contents s s'"
| lookup: "GetIdentity J L s a = (s', r3) \<Longrightarrow> identity_step C J X L contents s s'"
| online: "identity_step C J X L contents s (UpdateOnlineStatus J L now s a b addr)"
| expire: "identity_step C J X L contents s (checkExpiredCertificates J L now order s)"
| restart: "NewIdentityService J X L (is_storage s) vals ca = Inr s' \<Longrightarrow>
    (\<forall>d \<in> set vals. \<exists>a. contents (is_storage s) (identityKey a) = Some d) \<Longrightarrow>
    identity_step C J X L contents s s'"

lemma loadIdentities_frame:
  "is_storage (loadIdentities J vals s) = is_storage s \<and> is_crl (loadIdentities J vals s) = is_crl s"
  unfolding loadIdentities_def by (induction vals arbitrary: s) (auto split: option.split)

lemma loadIdentities_ok:
  assumes "ids_ok C J X contents s"
    and "\<forall>d \<in> set vals. \<exists>a. contents (is_storage s) (identityKey a) = Some d"
  shows "ids_ok C J X contents (loadIdentities J vals s)"
  using assms unfolding loadIdentities_def
proof (induction vals arbitrary: s)
  case (Cons d ds)
  define s1 where "s1 = (case unmarshal J dec_identity d of None \<Rightarrow> s | Some v \<Rightarrow> put_identity s (vi_VehicleID v) v)"
  obtain a where a: "contents (is_storage s) (identityKey a) = Some d" using Cons.prems(2) by auto
  have st: "is_storage s1 = is_storage s" by (simp add: s1_def split: option.split)
  have "ids_ok C J X contents s1"
  proof (cases "unmarshal J dec_identity d")
    case (Some v)
    with a Cons.prems(1) have "id_ok C X a v" by (auto simp: ids_ok_def)
    then have "id_ok C X (vi_VehicleID v) v" by (simp add: id_ok_def)
    with Some Cons.prems(1) show ?thesis by (auto simp: s1_def ids_ok_def)
  qed (use Cons.prems(1) in \<open>simp add: s1_def\<close>)
  from Cons.IH [OF this] Cons.prems(2) st show ?case by (simp add: s1_def)
qed simp

lemma restart_keeps:
  assumes "db_spec L contents" and "NewIdentityService J X L (is_storage s) vals ca = Inr s'"
    and "\<forall>d \<in> set vals. \<exists>a. contents (is_storage s) (identityKey a) = Some d"
  shows "id_keeps C J X contents s s'"
proof -
  define s0 :: "'a identity_service" where "s0 = \<lparr>is_storage = is_storage s, is_crl = empty_crl, is_cache = fmempty,
    is_online = fmempty, is_caPool = (if ca = [] then None else Some ca), is_rotateDaysBefore = 7\<rparr>"
  have s': "s' = fst (loadCRL J L (loadIdentities J vals s0))"
    using assms(2) by (auto simp: NewIdentityService_def Let_def s0_def split: if_splits sum.splits)
  note fr = loadIdentities_frame [of J vals s0]
  have st0: "is_storage s0 = is_storage s" by (simp add: s0_def)
  have c: "is_storage s' = is_storage s \<and> is_cache s' = is_cache (loadIdentities J vals s0)
    \<and> is_crl s' = (case Option.bind (contents (is_storage s) crlKey) (unmarshal J dec_crl) of
         None \<Rightarrow> empty_crl | Some c \<Rightarrow> c)"
    using fr st0 unfolding s' loadCRL_def Storage_Get_spec [OF assms(1)]
    by (auto simp: s0_def split: option.split)
  have "ids_ok C J X contents s'" if "ids_ok C J X contents s"
  proof -
    have "ids_ok C J X contents s0" using that by (simp add: ids_ok_def s0_def)
    then have "ids_ok C J X contents (loadIdentities J vals s0)"
      by (rule loadIdentities_ok) (use assms(3) in \<open>simp add: s0_def\<close>)
    with c fr st0 show ?thesis by (simp add: ids_ok_def)
  qed
  moreover have "revoked_for_good J contents s' sn" if "revoked_for_good J contents s sn" for sn
    using that c by (auto simp: revoked_for_good_def id_IsRevoked_def)
  ultimately show ?thesis by (simp add: id_keeps_def)
qed

lemma identity_step_keeps:
  assumes "db_spec L contents" and "json_ok J"
  shows "identity_step C J X L contents s s' \<Longrightarrow> id_keeps C J X contents s s'"
proof (induction rule: identity_step.induct)
  case register then show ?case by (rule RegisterVehicle_keeps [OF assms])
next
  case batch then show ?case by (rule BatchRegister_keeps [OF assms])
next
  case revoke then show ?case by (rule RevokeCertificate_revokes(1) [OF assms])
next
  case rotate then show ?case by (rule RotateCertificate_keeps [OF assms])
next
  case lookup then show ?case by (rule GetIdentity_keeps [OF assms(1)])
next
  case online show ?case by (rule UpdateOnlineStatus_keeps [OF assms(1)])
next
  case expire show ?case by (rule checkExpired_keeps [OF assms])
next
  case restart then show ?case by (rule restart_keeps [OF assms(1)])
qed

lemma identity_run_keeps:
  assumes "db_spec L contents" and "json_ok J" and "(identity_step C J X L contents)\<^sup>*\<^sup>* s s'"
  shows "id_keeps C J X contents s s'"
  using assms(3)
  by (induction rule: rtranclp_induct) (auto intro: id_keeps_trans identity_step_keeps [OF assms(1,2)])

lemma VerifyNodeAdmission_allows:
  assumes "VerifyNodeAdmission J X L now s a = (s', None)"
  shows "\<exists>v cert. mget (is_cache s') a = Some v \<and> GetIdentity J L s a = (s', Some v)
    \<and> vi_Status v \<noteq> IdentityStatusRevoked \<and> sint now \<le> sint (vi_ExpiresAt v)
    \<and> parseCertificate X (vi_Certificate v) = Inr cert \<and> \<not> id_IsRevoked s (cert_SerialNumber cert)"
proof -
  obtain s1 r where g: "GetIdentity J L s a = (s1, r)" by (meson surj_pair)
  with GetIdentity_result [OF g] assms show ?thesis
    by (auto simp: VerifyNodeAdmission_def id_IsExpired_def ParseCertificate_eq id_IsRevoked_def
        split: option.splits sum.splits if_splits)
qed

section \<open>Properties\<close>

definition demo_x509 :: x509_lib where
  "demo_x509 = \<lparr>pem_decode = (\<lambda>b. Some b),
     x509_parse = (\<lambda>b. Some \<lparr>cert_SerialNumber = (if b = [] then ''0'' else ''1''), cert_PKIX = Some [],
       cert_Subject = [], cert_Issuer = [], cert_NotBefore = 0, cert_NotAfter = 1000,
       cert_DNSNames = [], cert_EmailAddresses = []\<rparr>),
     x509_verify = (\<lambda>_ _ _ _. True)\<rparr>"

definition demo_vehicle :: identity where
  "demo_vehicle = \<lparr>vi_VehicleID = 7, vi_PublicKey = [], vi_Certificate = [], vi_CertificateHash = 0,
     vi_FleetID = [], vi_Status = IdentityStatusActive, vi_RegisteredAt = 0, vi_ExpiresAt = 1000,
     vi_LastRotatedAt = 0, vi_LastSeenAt = 0, vi_CAName = [], vi_CAChainHash = []\<rparr>"

definition demo_identities :: "(bytes \<rightharpoonup> bytes) identity_service" where
  "demo_identities = \<lparr>is_storage = Map.empty, is_crl = empty_crl,
     is_cache = mput fmempty 7 demo_vehicle, is_online = fmempty, is_caPool = None,
     is_rotateDaysBefore = 7\<rparr>"

lemma demo_parse: "parseCertificate demo_x509 b = Inr \<lparr>cert_SerialNumber = (if b = [] then ''0'' else ''1''),
    cert_PKIX = Some [], cert_Subject = [], cert_Issuer = [], cert_NotBefore = 0, cert_NotAfter = 1000,
    cert_DNSNames = [], cert_EmailAddresses = []\<rparr>"
  by (simp add: parseCertificate_def demo_x509_def)

lemma demo_ids_ok: "ids_ok demo_crypto J demo_x509 (\<lambda>s. s) demo_identities"
  by (auto simp: ids_ok_def demo_identities_def id_ok_def demo_vehicle_def demo_parse demo_crypto_def
      demo_hash_def)

text \<open>
  C21. Revocation is permanent: once RevokeCertificate has returned without an error, the serial number
  stays revoked in every later state, across restarts over the same store, and from then on no vehicle
  is admitted and no vehicle is registered with a certificate of that serial number.
\<close>

theorem revocation_permanent:
  assumes "db_spec L contents" and "json_ok J"
    and "RevokeCertificate J X L now order s sn reason = (s1, None)"
    and "(identity_step C J X L contents)\<^sup>*\<^sup>* s1 s2"
  shows "id_IsRevoked s2 sn
    \<and> (\<forall>t a s3. VerifyNodeAdmission J X L t s2 a = (s3, None) \<longrightarrow>
         (\<exists>v. mget (is_cache s3) a = Some v \<and> \<not> has_serial X v sn))
    \<and> (\<forall>t req s3 v. RegisterVehicle C J X L t s2 req = (s3, Inr v) \<longrightarrow> \<not> has_serial X v sn)"
proof -
  have r: "id_IsRevoked s2 sn"
    using RevokeCertificate_revokes(2) [OF assms(1-3)] identity_run_keeps [OF assms(1,2,4)]
    by (simp add: id_keeps_def revoked_for_good_def)
  moreover have "\<exists>v. mget (is_cache s3) a = Some v \<and> \<not> has_serial X v sn"
    if "VerifyNodeAdmission J X L t s2 a = (s3, None)" for t a s3
    using VerifyNodeAdmission_allows [OF that] r by (auto simp: has_serial_def ParseCertificate_eq)
  moreover have "\<not> has_serial X v sn" if "RegisterVehicle C J X L t s2 req = (s3, Inr v)" for t req s3 v
    using RegisterVehicle_accepts [OF that] r by (auto simp: has_serial_def ParseCertificate_eq)
  ultimately show ?thesis by blast
qed

theorem revocation_permanent_witness:
  "\<exists>s1. RevokeCertificate demo_json demo_x509 map_db 5 [7] demo_identities ''0'' [] = (s1, None)
    \<and> id_IsRevoked (checkExpiredCertificates demo_json map_db 9 [7] s1) ''0''"
proof -
  have "snd (RevokeCertificate demo_json demo_x509 map_db 5 [7] demo_identities ''0'' []) = None"
    by (simp add: RevokeCertificate_def demo_identities_def empty_crl_def storeCRL_def Storage_Put_def map_db_def Let_def)
  then obtain s1 where s1: "RevokeCertificate demo_json demo_x509 map_db 5 [7] demo_identities ''0'' [] = (s1, None)"
    by (metis prod.collapse)
  have "(identity_step demo_crypto demo_json demo_x509 map_db (\<lambda>s. s))\<^sup>*\<^sup>* s1
      (checkExpiredCertificates demo_json map_db 9 [7] s1)"
    by (intro r_into_rtranclp identity_step.expire)
  from revocation_permanent [OF map_db_spec demo_json_ok s1 this] s1 show ?thesis by blast
qed

text \<open>
  C22. Whoever is admitted, in any state that the service reaches by operations and restarts, has an
  identity filed under its own address whose stored hash is the hash of its certificate, and that
  certificate parses, has not expired and is not in the revocation list.
\<close>

theorem admitted_has_valid_certificate:
  assumes "db_spec L contents" and "json_ok J" and "ids_ok C J X contents s"
    and "(identity_step C J X L contents)\<^sup>*\<^sup>* s s1" and "VerifyNodeAdmission J X L now s1 a = (s2, None)"
  shows "\<exists>v cert. mget (is_cache s2) a = Some v \<and> vi_VehicleID v = a
    \<and> vi_CertificateHash v = keccak256 C (vi_Certificate v)
    \<and> parseCertificate X (vi_Certificate v) = Inr cert
    \<and> sint now \<le> sint (cert_NotAfter cert) \<and> \<not> id_IsRevoked s2 (cert_SerialNumber cert)"
proof -
  have ok: "ids_ok C J X contents s1"
    using identity_run_keeps [OF assms(1,2,4)] assms(3) by (simp add: id_keeps_def)
  obtain v cert where v: "mget (is_cache s2) a = Some v" "GetIdentity J L s1 a = (s2, Some v)"
    "sint now \<le> sint (vi_ExpiresAt v)" "parseCertificate X (vi_Certificate v) = Inr cert"
    "\<not> id_IsRevoked s1 (cert_SerialNumber cert)"
    using VerifyNodeAdmission_allows [OF assms(5)] by blast
  have "ids_ok C J X contents s2" using GetIdentity_keeps [OF assms(1) v(2)] ok by (simp add: id_keeps_def)
  with v(1) have "id_ok C X a v" by (simp add: ids_ok_def)
  with v GetIdentity_result [OF v(2)] show ?thesis by (auto simp: id_ok_def id_IsRevoked_def)
qed

theorem admitted_has_valid_certificate_witness:
  "\<exists>v cert. mget (is_cache demo_identities) 7 = Some v \<and> parseCertificate demo_x509 (vi_Certificate v) = Inr cert
    \<and> \<not> id_IsRevoked demo_identities (cert_SerialNumber cert)"
proof -
  have "VerifyNodeAdmission demo_json demo_x509 map_db 5 demo_identities 7 = (demo_identities, None)"
    by (simp add: VerifyNodeAdmission_def GetIdentity_def demo_identities_def demo_vehicle_def
        identity_status_defs id_IsExpired_def ParseCertificate_eq demo_parse id_IsRevoked_def
        crl_IsRevoked_def empty_crl_def)
  from admitted_has_valid_certificate [OF map_db_spec demo_json_ok demo_ids_ok rtranclp.rtrancl_refl this]
  show ?thesis by blast
qed

text \<open>
  What a registration establishes: the vehicle was not registered before, the signature of the
  request recovers to its address, and the certificate parses, passes the CA check if there is a CA,
  carries the public key of the request and is not revoked. The new identity is then found in the
  cache and, by a service restarted over the store, in the store; a second registration is refused.
\<close>

theorem registration_result:
  assumes "db_spec L contents" and "json_ok J"
    and "RegisterVehicle C J X L now s req = (s', Inr v)"
    and "NewIdentityService J X L (is_storage s') [] ca = Inr t"
  shows "GetIdentity J L s (rr_VehicleID req) = (s, None)
    \<and> (\<exists>k cert. sig_to_pub C (keccak256 C (Address_Bytes (rr_VehicleID req) @ rr_PublicKey req
             @ rr_Certificate req)) (rr_Signature req) = Some k
         \<and> pubkey_to_address C k = rr_VehicleID req
         \<and> parseCertificate X (rr_Certificate req) = Inr cert \<and> cert_PKIX cert = Some (rr_PublicKey req)
         \<and> (\<forall>pool. is_caPool s = Some pool \<longrightarrow> x509_verify X pool now ExtKeyUsageClientAuth cert)
         \<and> \<not> id_IsRevoked s (cert_SerialNumber cert))
    \<and> snd (GetIdentity J L s' (rr_VehicleID req)) = Some v
    \<and> snd (GetIdentity J L t (rr_VehicleID req)) = Some v
    \<and> RegisterVehicle C J X L now' s' req = (s', Inl AlreadyRegistered)"
proof -
  obtain cert s1 where a: "GetIdentity J L s (rr_VehicleID req) = (s, None)"
    "VerifyRequestSignature C req = None" "parseCertificate X (rr_Certificate req) = Inr cert"
    "\<forall>pool. is_caPool s = Some pool \<longrightarrow> x509_verify X pool now ExtKeyUsageClientAuth cert"
    "cert_PKIX cert = Some (rr_PublicKey req)" "\<not> id_IsRevoked s (cert_SerialNumber cert)"
    "vi_VehicleID v = rr_VehicleID req" "storeIdentity J L s v = (s1, None)"
    "s' = put_identity s1 (rr_VehicleID req) v"
    using RegisterVehicle_accepts [OF assms(3)] by fastforce
  have sig: "\<exists>k. sig_to_pub C (keccak256 C (Address_Bytes (rr_VehicleID req) @ rr_PublicKey req
      @ rr_Certificate req)) (rr_Signature req) = Some k \<and> pubkey_to_address C k = rr_VehicleID req"
    using a(2) by (auto simp: VerifyRequestSignature_def split: option.splits if_splits)
  have g: "GetIdentity J L s' (rr_VehicleID req) = (s', Some v)" by (simp add: a(9) GetIdentity_def)
  have st: "contents (is_storage s') (identityKey (rr_VehicleID req)) = Some (js_text J (enc_identity v))"
    using storeIdentity_contents [OF assms(1) a(8)] a(7) by (simp add: a(9))
  have t: "is_storage t = is_storage s'" "is_cache t = fmempty"
    using assms(4) by (auto simp: NewIdentityService_def Let_def loadIdentities_def loadCRL_def
        split: if_splits sum.splits storage_error.splits option.splits)
  have "snd (GetIdentity J L t (rr_VehicleID req)) = Some v"
    using st assms(2) by (simp add: GetIdentity_def t loadIdentityFromStorage_def Storage_Get_spec [OF assms(1)])
  moreover have "RegisterVehicle C J X L now' s' req = (s', Inl AlreadyRegistered)"
    using g by (simp add: RegisterVehicle_def)
  ultimately show ?thesis using a sig g by auto
qed

definition demo_registration :: registration where
  "demo_registration = \<lparr>rr_VehicleID = demo_address, rr_PublicKey = [], rr_Certificate = [1],
     rr_FleetID = [], rr_Signature = put_be (demo_hash (Address_Bytes demo_address @ [1])) @ demo_key @ [0],
     rr_Timestamp = 0\<rparr>"

lemma length_demo_key: "length demo_key = 32"
  by (simp add: demo_key_def)

theorem registration_result_witness:
  "\<exists>s' v. RegisterVehicle demo_crypto demo_json demo_x509 map_db 5
       (demo_identities\<lparr>is_cache := fmempty\<rparr>) demo_registration = (s', Inr v)
     \<and> RegisterVehicle demo_crypto demo_json demo_x509 map_db 6 s' demo_registration = (s', Inl AlreadyRegistered)"
proof -
  let ?s = "demo_identities\<lparr>is_cache := fmempty\<rparr>"
  have k: "sig_to_pub demo_crypto (demo_hash (Address_Bytes demo_address @ [1]))
      (put_be (demo_hash (Address_Bytes demo_address @ [1])) @ demo_key @ [0]) = Some demo_key"
    by (simp add: demo_crypto_def length_demo_key)
  have c: "keccak256 demo_crypto = demo_hash" by (simp add: demo_crypto_def)
  have sig: "VerifyRequestSignature demo_crypto demo_registration = None"
    using k demo_key_address by (simp add: VerifyRequestSignature_def demo_registration_def c)
  have g: "GetIdentity demo_json map_db ?s (rr_VehicleID demo_registration) = (?s, None)"
    by (simp add: GetIdentity_def loadIdentityFromStorage_def Storage_Get_spec [OF map_db_spec] demo_identities_def)
  obtain s' v where r: "RegisterVehicle demo_crypto demo_json demo_x509 map_db 5 ?s demo_registration = (s', Inr v)"
    using g sig by (simp add: RegisterVehicle_def demo_parse demo_registration_def id_IsRevoked_def
        crl_IsRevoked_def demo_identities_def empty_crl_def storeIdentity_def Storage_Put_def map_db_def Let_def)
  have "\<exists>t. NewIdentityService demo_json demo_x509 map_db (is_storage s') [] [] = Inr t"
    by (simp add: NewIdentityService_def)
  then obtain t where "NewIdentityService demo_json demo_x509 map_db (is_storage s') [] [] = Inr t" by blast
  from registration_result [OF map_db_spec demo_json_ok r this] r show ?thesis by blast
qed

text \<open>
  RotateCertificate checks no signature and brings a revoked vehicle back: whoever names the hash
  of its certificate installs a new certificate, the status becomes active again, and the vehicle is
  admitted as long as the new certificate has not expired and its serial number is not in the list.
\<close>

theorem rotation_reactivates_revoked:
  assumes "mget (is_cache s) (vi_VehicleID v) = Some v" and "vi_Status v = IdentityStatusRevoked"
    and "req = \<lparr>ro_VehicleID = vi_VehicleID v, ro_NewCertificate = pem, ro_OldCertHash = vi_CertificateHash v,
      ro_Signature = sg, ro_Timestamp = ts\<rparr>"
    and "RotateCertificate C J X L now s req = (s', None)"
    and "parseCertificate X pem = Inr cert" and "sint t \<le> sint (cert_NotAfter cert)"
    and "\<not> id_IsRevoked s (cert_SerialNumber cert)"
  shows "VerifyNodeAdmission J X L t s' (vi_VehicleID v) = (s', None)
    \<and> (\<forall>sg' ts'. RotateCertificate C J X L now s (req\<lparr>ro_Signature := sg', ro_Timestamp := ts'\<rparr>) = (s', None))"
proof (intro conjI allI)
  fix sg' ts'
  show "RotateCertificate C J X L now s (req\<lparr>ro_Signature := sg', ro_Timestamp := ts'\<rparr>) = (s', None)"
  proof -
    have upd: "ro_VehicleID (req\<lparr>ro_Signature := sg', ro_Timestamp := ts'\<rparr>) = ro_VehicleID req"
      "ro_OldCertHash (req\<lparr>ro_Signature := sg', ro_Timestamp := ts'\<rparr>) = ro_OldCertHash req"
      "ro_NewCertificate (req\<lparr>ro_Signature := sg', ro_Timestamp := ts'\<rparr>) = ro_NewCertificate req"
      by simp_all
    from assms(4) show ?thesis unfolding RotateCertificate_def upd .
  qed
next
  have g: "GetIdentity J L s (ro_VehicleID req) = (s, Some v)"
    using assms(1) by (simp add: GetIdentity_def assms(3))
  from assms(4) show "VerifyNodeAdmission J X L t s' (vi_VehicleID v) = (s', None)"
  proof (cases rule: RotateCertificate_cases)
    case (1 s1 r)
    then show ?thesis by simp
  next
    case (2 s1 u newCert v' s2 e2)
    with g have u: "s1 = s" "u = v" "newCert = cert" using assms(3,5) by auto
    have s': "s' = put_identity s2 (vi_VehicleID v) v'" using 2 u by simp
    have crl: "is_crl s2 = is_crl s" using storeIdentity_frame [OF 2(5)] u by simp
    have p: "parseCertificate X (vi_Certificate v') = Inr cert" using 2(4) assms(3,5) by simp
    have x: "vi_Status v' = IdentityStatusActive" "vi_ExpiresAt v' = cert_NotAfter cert" using 2(4) u by simp_all
    show ?thesis
      using assms(6,7) crl p x
      by (simp add: s' VerifyNodeAdmission_def GetIdentity_def ParseCertificate_eq id_IsExpired_def
          id_IsRevoked_def identity_status_defs)
  qed
qed

theorem rotation_reactivates_revoked_witness:
  "\<exists>s'. VerifyNodeAdmission demo_json demo_x509 map_db 6 s' 7 = (s', None)
     \<and> RotateCertificate demo_crypto demo_json demo_x509 map_db 5
         (demo_identities\<lparr>is_cache := mput fmempty 7 (demo_vehicle\<lparr>vi_Status := IdentityStatusRevoked\<rparr>)\<rparr>)
         \<lparr>ro_VehicleID = 7, ro_NewCertificate = [1], ro_OldCertHash = 0, ro_Signature = [], ro_Timestamp = 0\<rparr> = (s', None)"
proof -
  let ?v = "demo_vehicle\<lparr>vi_Status := IdentityStatusRevoked\<rparr>"
  let ?s = "demo_identities\<lparr>is_cache := mput fmempty 7 ?v\<rparr>"
  let ?r = "\<lparr>ro_VehicleID = vi_VehicleID ?v, ro_NewCertificate = [1 :: byte], ro_OldCertHash = vi_CertificateHash ?v,
    ro_Signature = [] :: bytes, ro_Timestamp = 0 :: i64\<rparr>"
  have id: "vi_VehicleID ?v = 7" "vi_CertificateHash ?v = 0" by (simp_all add: demo_vehicle_def)
  have c: "mget (is_cache ?s) (vi_VehicleID ?v) = Some ?v" by (simp add: id)
  have "snd (RotateCertificate demo_crypto demo_json demo_x509 map_db 5 ?s ?r) = None"
    by (simp add: RotateCertificate_def GetIdentity_def id demo_parse demo_identities_def storeIdentity_def
        Storage_Put_def map_db_def Let_def)
  then obtain s' where r: "RotateCertificate demo_crypto demo_json demo_x509 map_db 5 ?s ?r = (s', None)"
    by (metis prod.collapse)
  have "\<not> id_IsRevoked ?s ''1''" by (simp add: id_IsRevoked_def crl_IsRevoked_def demo_identities_def empty_crl_def)
  with rotation_reactivates_revoked [OF c _ HOL.refl r demo_parse, of 6] r show ?thesis unfolding id by auto
qed

text \<open>The registered key need not be the signer's: certificates are public, and only the address is signed for.\<close>

lemma registered_key_not_bound_to_address:
  assumes "RegisterVehicle C J X L now s req = (s', Inr v)"
  shows "\<exists>cert k. parseCertificate X (rr_Certificate req) = Inr cert \<and> cert_PKIX cert = Some (vi_PublicKey v)
    \<and> sig_to_pub C (keccak256 C (Address_Bytes (rr_VehicleID req) @ rr_PublicKey req @ rr_Certificate req))
        (rr_Signature req) = Some k \<and> vi_VehicleID v = pubkey_to_address C k"
  using RegisterVehicle_accepts [OF assms]
  by (auto simp: VerifyRequestSignature_def split: option.splits if_splits)

end
