(* ===== verification/Shared_Store.thy ===== *)
theory Shared_Store
  imports Platoon_Store Identity Chain_State
begin

text \<open>
  Blocks, identities, the revocation list, snapshots and platoons share one LevelDB database and keep apart by the
  first byte of their keys (infra/storage/leveldb.go). What this gives between components.
\<close>

lemma foreign_keys [simp]:
  "\<not> prefix_of PrefixPlatoon (headerKey h)" "\<not> prefix_of PrefixPlatoon (blockKey h)"
  "\<not> prefix_of PrefixPlatoon (heightKey n)" "\<not> prefix_of PrefixPlatoon (txKey h)"
  "\<not> prefix_of PrefixPlatoon latestHeightKey" "\<not> prefix_of PrefixPlatoon (identityKey a)"
  "\<not> prefix_of PrefixPlatoon crlKey"
  by (simp_all add: prefix_of_def prefix_defs headerKey_def blockKey_def heightKey_def txKey_def latestHeightKey_def
      identityKey_def crlKey_def)

lemma same_elsewhere_sym: "same_elsewhere contents st st' \<Longrightarrow> same_elsewhere contents st' st"
  by (simp add: same_elsewhere_def)

lemma stored_chain_elsewhere:
  assumes "db_spec L contents" and "same_elsewhere contents st st'" and "stored_chain C cfg J L contents st bs"
  shows "stored_chain C cfg J L contents st' bs"
proof -
  have "entry_ok C cfg J L contents st' n b" if "entry_ok C cfg J L contents st n b" for n b
    by (rule entry_ok_cong [OF assms(1) that]) (use assms(2) in \<open>simp_all add: same_elsewhere_def\<close>)
  moreover have "BS_GetLatestHeight L st' = BS_GetLatestHeight L st"
    by (simp add: BS_GetLatestHeight_def same_elsewhere_get [OF assms(1,2)])
  ultimately show ?thesis using assms(3) by (simp add: stored_chain_def)
qed

text \<open>
  C33. No run of the platoon service touches what the other components read from the shared database: the
  stored chain, the transactions, the identities and the revocation list stay as they were.
\<close>

theorem platoon_runs_keep_others:
  assumes "db_spec L contents" and "json_ok J" and "svc_ok J contents s" and "(platoon_step J L)\<^sup>*\<^sup>* s s'"
  shows "stored_chain C cfg J L contents (ps_storage s') bs = stored_chain C cfg J L contents (ps_storage s) bs
    \<and> GetBlock J L (ps_storage s') h = GetBlock J L (ps_storage s) h
    \<and> BS_GetTransaction J L (ps_storage s') h = BS_GetTransaction J L (ps_storage s) h
    \<and> loadIdentityFromStorage J L (ps_storage s') a = loadIdentityFromStorage J L (ps_storage s) a
    \<and> Storage_Get L (ps_storage s') crlKey = Storage_Get L (ps_storage s) crlKey"
proof -
  have same: "same_elsewhere contents (ps_storage s) (ps_storage s')"
    using elsewhere.rel_run [OF assms(4), of contents] assms(1-3) by (simp add: keeps_elsewhere_def)
  note get = same_elsewhere_get [OF assms(1) same]
  have "stored_chain C cfg J L contents (ps_storage s') bs = stored_chain C cfg J L contents (ps_storage s) bs"
    using stored_chain_elsewhere [OF assms(1)] same same_elsewhere_sym by metis
  then show ?thesis
    unfolding GetBlock_def BS_GetTransaction_def loadIdentityFromStorage_def
      get [OF foreign_keys(1)] get [OF foreign_keys(2)] get [OF foreign_keys(4)] get [OF foreign_keys(6)] get [OF foreign_keys(7)]
    by blast
qed

theorem platoon_runs_keep_others_witness:
  "GetBlock demo_json map_db (ps_storage (fst (LeavePlatoon demo_json map_db 5 demo_platoons ''p'' 1))) 7
   = GetBlock demo_json map_db (ps_storage demo_platoons) 7"
proof -
  have "(platoon_step demo_json map_db)\<^sup>*\<^sup>* demo_platoons
      (fst (LeavePlatoon demo_json map_db 5 demo_platoons ''p'' 1))"
    by (intro r_into_rtranclp platoon_step.leave) (rule prod.collapse [symmetric])
  from platoon_runs_keep_others [OF map_db_spec demo_json_ok demo_svc_ok this] show ?thesis by blast
qed

end
