(* ===== verification/Message.thy ===== *)
theory Message
  imports Identity
begin

text \<open>
  Messages between vehicles (service/message/types.go and service.go): creation and signing, the
  verification pipeline over the identity service, sequence numbers, the audit log, the payload
  encryption and the group keys. Elliptic-curve key handling is a parameter beside \<open>crypto\<close>. The
  clock and the ephemeral key are arguments. Locks are released before any other is taken.
\<close>

section \<open>Key handling of go-ethereum/crypto\<close>

record ec_lib =
  ec_public :: "privkey \<Rightarrow> pubkey"
  from_ecdsa_pub :: "pubkey \<Rightarrow> bytes"
  unmarshal_pubkey :: "bytes \<Rightarrow> pubkey option"

definition ec_ok :: "ec_lib \<Rightarrow> bool" where
  "ec_ok E \<longleftrightarrow> (\<forall>k. unmarshal_pubkey E (from_ecdsa_pub E (ec_public E k)) = Some (ec_public E k))"

section \<open>Messages\<close>

type_synonym V2VMessageType = u8

definition MsgTypeHeartbeat :: V2VMessageType where "MsgTypeHeartbeat = 0"
definition MsgTypeControl :: V2VMessageType where "MsgTypeControl = 1"
definition MsgTypeEmergency :: V2VMessageType where "MsgTypeEmergency = 2"
definition MsgTypeStatus :: V2VMessageType where "MsgTypeStatus = 3"
definition MsgTypePlatoonControl :: V2VMessageType where "MsgTypePlatoonControl = 4"
definition MsgTypeJoinRequest :: V2VMessageType where "MsgTypeJoinRequest = 5"
definition MsgTypeJoinResponse :: V2VMessageType where "MsgTypeJoinResponse = 6"

definition v2v_MessageType_String :: "V2VMessageType \<Rightarrow> string" where
  "v2v_MessageType_String t =
     (if t = MsgTypeHeartbeat then ''heartbeat'' else if t = MsgTypeControl then ''control''
      else if t = MsgTypeEmergency then ''emergency'' else if t = MsgTypeStatus then ''status''
      else if t = MsgTypePlatoonControl then ''platoon_control''
      else if t = MsgTypeJoinRequest then ''join_request''
      else if t = MsgTypeJoinResponse then ''join_response'' else ''unknown'')"

type_synonym Priority = u8

record v2v_message =
  vm_ID :: string
  vm_Type :: V2VMessageType
  vm_Priority :: Priority
  vm_Sender :: address
  vm_Receiver :: address
  vm_SeqNum :: u64
  vm_Timestamp :: i64
  vm_Payload :: bytes
  vm_Signature :: bytes
  vm_PlatoonID :: string

definition vm_json :: "v2v_message \<Rightarrow> json" where
  "vm_json m = JObj ([(''id'', JStr (vm_ID m)), (''type'', enc_uint (vm_Type m)),
     (''priority'', enc_uint (vm_Priority m)), (''sender'', enc_address (vm_Sender m)),
     (''receiver'', enc_address (vm_Receiver m)), (''seq_num'', enc_uint (vm_SeqNum m)),
     (''timestamp'', enc_sint (vm_Timestamp m)), (''payload'', JB64 (vm_Payload m))]
     @ (if vm_PlatoonID m = [] then [] else [(''platoon_id'', JStr (vm_PlatoonID m))]))"

definition vm_CalculateHash :: "crypto \<Rightarrow> json_lib \<Rightarrow> v2v_message \<Rightarrow> hash" where
  "vm_CalculateHash C J m = keccak256 C (js_text J (vm_json m))"

datatype msg_error =
    MsgSignFailed
  | MsgMissingSignature
  | MsgSignatureLength nat
  | MsgRecoverFailed
  | SenderMismatch
  | DuplicateMessage
  | MessageExpired
  | UnknownSender
  | SenderNotAdmitted identity_error
  | SignatureInvalid msg_error
  | SequenceRejected
  | EphemeralKeyInvalid
  | NoGroupKey

definition vm_Sign :: "crypto \<Rightarrow> json_lib \<Rightarrow> v2v_message \<Rightarrow> privkey \<Rightarrow> v2v_message \<times> msg_error option" where
  "vm_Sign C J m privKey =
     (case ecdsa_sign C (vm_CalculateHash C J m) privKey of
        None \<Rightarrow> (m, Some MsgSignFailed) | Some sg \<Rightarrow> (m\<lparr>vm_Signature := sg\<rparr>, None))"

definition vm_Verify :: "crypto \<Rightarrow> json_lib \<Rightarrow> v2v_message \<Rightarrow> msg_error option" where
  "vm_Verify C J m =
     (if length (vm_Signature m) = 0 then Some MsgMissingSignature
      else if length (vm_Signature m) \<noteq> 65 then Some (MsgSignatureLength (length (vm_Signature m)))
      else case sig_to_pub C (vm_CalculateHash C J m) (vm_Signature m) of
        None \<Rightarrow> Some MsgRecoverFailed
      | Some pubKey \<Rightarrow> if pubkey_to_address C pubKey \<noteq> vm_Sender m then Some SenderMismatch else None)"

definition vm_IsExpired :: "i64 \<Rightarrow> v2v_message \<Rightarrow> bool" where
  "vm_IsExpired now m = (let diff = now - vm_Timestamp m in 30 < sint diff \<or> sint diff < - 30)"

definition IsBroadcast :: "v2v_message \<Rightarrow> bool" where
  "IsBroadcast m \<longleftrightarrow> vm_Receiver m = 0"

section \<open>Sequence numbers and deduplication\<close>

record sequence_manager = nextSeqNum :: u64

definition NewSequenceManager :: sequence_manager where
  "NewSequenceManager = \<lparr>nextSeqNum = 1\<rparr>"

definition seq_Next :: "sequence_manager \<Rightarrow> sequence_manager \<times> u64" where
  "seq_Next sm = (let n = nextSeqNum sm + 1 in (sm\<lparr>nextSeqNum := n\<rparr>, n - 1))"

definition seq_Current :: "sequence_manager \<Rightarrow> u64" where
  "seq_Current sm = nextSeqNum sm"

definition seq_Set :: "sequence_manager \<Rightarrow> u64 \<Rightarrow> sequence_manager" where
  "seq_Set sm seqNum = sm\<lparr>nextSeqNum := seqNum + 1\<rparr>"

record id_cache =
  ic_ids :: "(string, i64) fmap"
  ic_maxAge :: i64

definition NewMessageIDCache :: id_cache where
  "NewMessageIDCache = \<lparr>ic_ids = fmempty, ic_maxAge = 600\<rparr>"

definition cache_Has :: "id_cache \<Rightarrow> string \<Rightarrow> bool" where
  "cache_Has c i = mhas (ic_ids c) i"

definition cache_Add :: "i64 \<Rightarrow> id_cache \<Rightarrow> string \<Rightarrow> id_cache" where
  "cache_Add now c i = c\<lparr>ic_ids := mput (ic_ids c) i now\<rparr>"

definition cache_Cleanup :: "i64 \<Rightarrow> id_cache \<Rightarrow> id_cache" where
  "cache_Cleanup now c = c\<lparr>ic_ids := fmfilter (\<lambda>i. case mget (ic_ids c) i of
     None \<Rightarrow> True | Some t \<Rightarrow> \<not> sint (ic_maxAge c) < sint (now - t)) (ic_ids c)\<rparr>"

definition cache_Size :: "id_cache \<Rightarrow> nat" where
  "cache_Size c = mlen (ic_ids c)"

type_synonym seq_tracker = "(address, u64) fmap"

definition CheckAndUpdate :: "seq_tracker \<Rightarrow> address \<Rightarrow> u64 \<Rightarrow> seq_tracker \<times> bool" where
  "CheckAndUpdate t sender seqNum =
     (case mget t sender of
        None \<Rightarrow> (mput t sender seqNum, True)
      | Some lastSeq \<Rightarrow> if seqNum \<le> lastSeq then (t, False) else (mput t sender seqNum, True))"

definition GetLastSeq :: "seq_tracker \<Rightarrow> address \<Rightarrow> u64 option" where
  "GetLastSeq t sender = mget t sender"

section \<open>The service\<close>

record encrypted_message =
  em_Ciphertext :: bytes
  em_Nonce :: bytes
  em_EphemeralPubKey :: bytes

record audit_entry =
  ae_Timestamp :: i64
  ae_MessageID :: string
  ae_Sender :: address
  ae_Type :: V2VMessageType
  ae_Priority :: Priority
  ae_Verified :: bool
  ae_VerifyError :: "msg_error option"
  ae_PayloadHash :: hash

record verification_result =
  vr_Valid :: bool
  vr_Error :: "msg_error option"
  vr_SenderKnown :: bool
  vr_NotExpired :: bool
  vr_NotDuplicate :: bool

record 's message_service =
  ms_identity :: "'s identity_service"
  ms_seqManagers :: "(address, sequence_manager) fmap"
  ms_idCache :: id_cache
  ms_senderSeqs :: seq_tracker
  ms_auditLogs :: "audit_entry list"
  ms_maxAuditLogs :: nat

definition NewMessageService :: "'s identity_service \<Rightarrow> 's message_service" where
  "NewMessageService ids = \<lparr>ms_identity = ids, ms_seqManagers = fmempty, ms_idCache = NewMessageIDCache,
     ms_senderSeqs = fmempty, ms_auditLogs = [], ms_maxAuditLogs = 10000\<rparr>"

definition generateMessageID :: "crypto \<Rightarrow> address \<Rightarrow> u64 \<Rightarrow> string" where
  "generateMessageID C sender seqNum =
     ''0x'' @ Hash_String (keccak256 C (Address_Bytes sender @ string_bytes (decimal (unat seqNum))))"

definition GetSequenceManager :: "'s message_service \<Rightarrow> address \<Rightarrow> 's message_service \<times> sequence_manager" where
  "GetSequenceManager s sender =
     (case mget (ms_seqManagers s) sender of
        Some sm \<Rightarrow> (s, sm)
      | None \<Rightarrow> (s\<lparr>ms_seqManagers := mput (ms_seqManagers s) sender NewSequenceManager\<rparr>, NewSequenceManager))"

definition GetNextSeqNum :: "'s message_service \<Rightarrow> address \<Rightarrow> 's message_service \<times> u64" where
  "GetNextSeqNum s sender =
     (case GetSequenceManager s sender of (s, sm) \<Rightarrow>
        (case seq_Next sm of (sm, n) \<Rightarrow> (s\<lparr>ms_seqManagers := mput (ms_seqManagers s) sender sm\<rparr>, n)))"

definition CreateMessage ::
  "crypto \<Rightarrow> json_lib \<Rightarrow> i64 \<Rightarrow> 's message_service \<Rightarrow> V2VMessageType \<Rightarrow> Priority \<Rightarrow> address \<Rightarrow> address \<Rightarrow> bytes
     \<Rightarrow> string \<Rightarrow> privkey \<Rightarrow> 's message_service \<times> (msg_error + v2v_message)" where
  "CreateMessage C J now s msgType priority sender receiver payload platoonID privKey =
     (let seqMgr = (case mget (ms_seqManagers s) sender of Some sm \<Rightarrow> sm | None \<Rightarrow> NewSequenceManager);
          (seqMgr, seqNum) = seq_Next seqMgr;
          s = s\<lparr>ms_seqManagers := mput (ms_seqManagers s) sender seqMgr\<rparr>;
          msg = \<lparr>vm_ID = generateMessageID C sender seqNum, vm_Type = msgType, vm_Priority = priority,
                 vm_Sender = sender, vm_Receiver = receiver, vm_SeqNum = seqNum, vm_Timestamp = now,
                 vm_Payload = payload, vm_Signature = [], vm_PlatoonID = platoonID\<rparr>
      in case vm_Sign C J msg privKey of
           (_, Some e) \<Rightarrow> (s, Inl e) | (msg, None) \<Rightarrow> (s, Inr msg))"

definition logAudit ::
  "crypto \<Rightarrow> i64 \<Rightarrow> 's message_service \<Rightarrow> v2v_message \<Rightarrow> bool \<Rightarrow> msg_error option \<Rightarrow> 's message_service" where
  "logAudit C now s msg verified err =
     (let entry = \<lparr>ae_Timestamp = now, ae_MessageID = vm_ID msg, ae_Sender = vm_Sender msg,
            ae_Type = vm_Type msg, ae_Priority = vm_Priority msg, ae_Verified = verified,
            ae_VerifyError = err, ae_PayloadHash = keccak256 C (vm_Payload msg)\<rparr>;
          logs = ms_auditLogs s @ [entry];
          logs = (if ms_maxAuditLogs s < length logs then drop (length logs - ms_maxAuditLogs s) logs else logs)
      in s\<lparr>ms_auditLogs := logs\<rparr>)"

definition VerifyMessage ::
  "crypto \<Rightarrow> json_lib \<Rightarrow> x509_lib \<Rightarrow> 's db \<Rightarrow> i64 \<Rightarrow> 's message_service \<Rightarrow> v2v_message
     \<Rightarrow> 's message_service \<times> verification_result" where
  "VerifyMessage C J X L now s msg =
     (let result = \<lparr>vr_Valid = False, vr_Error = None, vr_SenderKnown = False, vr_NotExpired = False,
                    vr_NotDuplicate = False\<rparr>;
          refuse = (\<lambda>s result err. (logAudit C now s msg False (Some err), result\<lparr>vr_Error := Some err\<rparr>)) in
      if cache_Has (ms_idCache s) (vm_ID msg) then refuse s result DuplicateMessage
      else if vm_IsExpired now msg then refuse s result MessageExpired
      else let result = result\<lparr>vr_NotExpired := True\<rparr> in
        (case GetIdentity J L (ms_identity s) (vm_Sender msg) of
           (ids, None) \<Rightarrow> refuse (s\<lparr>ms_identity := ids\<rparr>) result UnknownSender
         | (ids, Some _) \<Rightarrow>
             let result = result\<lparr>vr_SenderKnown := True\<rparr> in
             (case VerifyNodeAdmission J X L now ids (vm_Sender msg) of
                (ids, Some e) \<Rightarrow> refuse (s\<lparr>ms_identity := ids\<rparr>) result (SenderNotAdmitted e)
              | (ids, None) \<Rightarrow>
                  let s = s\<lparr>ms_identity := ids\<rparr> in
                  (case vm_Verify C J msg of
                     Some e \<Rightarrow> refuse s result (SignatureInvalid e)
                   | None \<Rightarrow>
                       (case CheckAndUpdate (ms_senderSeqs s) (vm_Sender msg) (vm_SeqNum msg) of
                          (t, False) \<Rightarrow> refuse s result SequenceRejected
                        | (t, True) \<Rightarrow>
                            (logAudit C now (s\<lparr>ms_senderSeqs := t,
                                ms_idCache := cache_Add now (ms_idCache s) (vm_ID msg)\<rparr>) msg True None,
                             result\<lparr>vr_NotDuplicate := True, vr_Valid := True\<rparr>))))))"

fun verify_loop ::
  "crypto \<Rightarrow> json_lib \<Rightarrow> x509_lib \<Rightarrow> 's db \<Rightarrow> i64 \<Rightarrow> 's message_service \<Rightarrow> v2v_message list
     \<Rightarrow> 's message_service \<times> verification_result list" where
  "verify_loop C J X L now s [] = (s, [])"
| "verify_loop C J X L now s (m # ms) =
     (case VerifyMessage C J X L now s m of (s, r) \<Rightarrow>
        (case verify_loop C J X L now s ms of (s, rs) \<Rightarrow> (s, r # rs)))"

definition VerifyMessagesBatch ::
  "crypto \<Rightarrow> json_lib \<Rightarrow> x509_lib \<Rightarrow> 's db \<Rightarrow> i64 \<Rightarrow> 's message_service \<Rightarrow> v2v_message list
     \<Rightarrow> 's message_service \<times> verification_result list \<times> bool" where
  "VerifyMessagesBatch C J X L now s messages =
     (case verify_loop C J X L now s messages of (s, rs) \<Rightarrow> (s, rs, list_all vr_Valid rs))"

definition GetAuditLogs :: "'s message_service \<Rightarrow> int \<Rightarrow> audit_entry list" where
  "GetAuditLogs s limit =
     (let n = int (length (ms_auditLogs s));
          limit = (if limit \<le> 0 \<or> n < limit then n else limit);
          start = n - limit; start = (if start < 0 then 0 else start)
      in drop (nat start) (ms_auditLogs s))"

definition GetAuditStats :: "'s message_service \<Rightarrow> (string \<times> nat) list" where
  "GetAuditStats s =
     (let verified = length (filter ae_Verified (ms_auditLogs s));
          failed = length (filter (\<lambda>e. \<not> ae_Verified e) (ms_auditLogs s))
      in [(''total_logs'', length (ms_auditLogs s)), (''verified'', verified), (''failed'', failed)])"

section \<open>Encryption\<close>

text \<open>The loop that combines byte \<open>i\<close> with byte \<open>i mod 32\<close> of the key.\<close>

definition xor_stream :: "bytes \<Rightarrow> bytes \<Rightarrow> bytes" where
  "xor_stream key data = map (\<lambda>(i, b). xor b (key ! (i mod length key))) (enumerate 0 data)"

definition EncryptMessage ::
  "crypto \<Rightarrow> ec_lib \<Rightarrow> privkey option \<Rightarrow> bytes \<Rightarrow> bytes \<Rightarrow> encrypted_message option" where
  "EncryptMessage C E generated payload receiverPubKey =
     (case generated of
        None \<Rightarrow> None
      | Some ephemeral \<Rightarrow>
          let pub = from_ecdsa_pub E (ec_public E ephemeral);
              sharedSecret = put_be (keccak256 C (pub @ receiverPubKey))
          in Some \<lparr>em_Ciphertext = xor_stream sharedSecret payload, em_Nonce = take 16 sharedSecret,
                   em_EphemeralPubKey = pub\<rparr>)"

definition DecryptMessage ::
  "crypto \<Rightarrow> ec_lib \<Rightarrow> encrypted_message \<Rightarrow> privkey \<Rightarrow> msg_error + bytes" where
  "DecryptMessage C E encrypted privKey =
     (case unmarshal_pubkey E (em_EphemeralPubKey encrypted) of
        None \<Rightarrow> Inl EphemeralKeyInvalid
      | Some ephemeral \<Rightarrow>
          let sharedSecret = put_be (keccak256 C (from_ecdsa_pub E ephemeral
                               @ from_ecdsa_pub E (ec_public E privKey)))
          in Inr (xor_stream sharedSecret (em_Ciphertext encrypted)))"

type_synonym group_keys = "(string, bytes) fmap"

definition GenerateKey :: "crypto \<Rightarrow> group_keys \<Rightarrow> string \<Rightarrow> group_keys \<times> bytes" where
  "GenerateKey C m platoonID =
     (let key = put_be (keccak256 C (string_bytes (platoonID @ ''_group_key'')))
      in (mput m platoonID key, key))"

definition GetKey :: "group_keys \<Rightarrow> string \<Rightarrow> bytes option" where
  "GetKey m platoonID = mget m platoonID"

definition RotateKey :: "crypto \<Rightarrow> group_keys \<Rightarrow> string \<Rightarrow> group_keys \<times> bytes" where
  "RotateKey C m platoonID = GenerateKey C m platoonID"

definition EncryptForGroup :: "group_keys \<Rightarrow> string \<Rightarrow> bytes \<Rightarrow> msg_error + bytes" where
  "EncryptForGroup m platoonID plaintext =
     (case GetKey m platoonID of None \<Rightarrow> Inl NoGroupKey | Some key \<Rightarrow> Inr (xor_stream key plaintext))"

definition DecryptForGroup :: "group_keys \<Rightarrow> string \<Rightarrow> bytes \<Rightarrow> msg_error + bytes" where
  "DecryptForGroup m platoonID ciphertext =
     (case GetKey m platoonID of None \<Rightarrow> Inl NoGroupKey | Some key \<Rightarrow> Inr (xor_stream key ciphertext))"

lemma length_xor_stream [simp]: "length (xor_stream key data) = length data"
  by (simp add: xor_stream_def)

lemma xor_stream_nth:
  "i < length data \<Longrightarrow> xor_stream key data ! i = xor (data ! i) (key ! (i mod length key))"
  by (simp add: xor_stream_def nth_enumerate_eq)

lemma xor_stream_twice [simp]: "xor_stream key (xor_stream key data) = data"
  by (rule nth_equalityI) (simp_all add: xor_stream_nth xor.assoc)

section \<open>Results of VerifyMessage\<close>

lemma logAudit_fields [simp]:
  "ms_identity (logAudit C now s m b e) = ms_identity s" "ms_idCache (logAudit C now s m b e) = ms_idCache s"
  "ms_senderSeqs (logAudit C now s m b e) = ms_senderSeqs s"
  "ms_seqManagers (logAudit C now s m b e) = ms_seqManagers s"
  "ms_maxAuditLogs (logAudit C now s m b e) = ms_maxAuditLogs s"
  by (simp_all add: logAudit_def Let_def)

lemma logAudit_bound:
  "length (ms_auditLogs s) \<le> ms_maxAuditLogs s \<Longrightarrow> 0 < ms_maxAuditLogs s \<Longrightarrow>
     length (ms_auditLogs (logAudit C now s m b e)) \<le> ms_maxAuditLogs s"
  by (simp add: logAudit_def Let_def)

lemma VerifyMessage_accepts:
  assumes "VerifyMessage C J X L now s m = (s', r)" and "vr_Valid r"
  shows "\<not> cache_Has (ms_idCache s) (vm_ID m) \<and> \<not> vm_IsExpired now m \<and> vm_Verify C J m = None
    \<and> (\<exists>ids1 v ids2 t. GetIdentity J L (ms_identity s) (vm_Sender m) = (ids1, Some v)
         \<and> VerifyNodeAdmission J X L now ids1 (vm_Sender m) = (ids2, None) \<and> ms_identity s' = ids2
         \<and> CheckAndUpdate (ms_senderSeqs s) (vm_Sender m) (vm_SeqNum m) = (t, True)
         \<and> ms_senderSeqs s' = t \<and> ms_idCache s' = cache_Add now (ms_idCache s) (vm_ID m))"
  using assms unfolding VerifyMessage_def Let_def
  by (auto split: if_splits option.splits prod.splits bool.splits)

lemma VerifyMessage_refuses:
  assumes "VerifyMessage C J X L now s m = (s', r)" and "\<not> vr_Valid r"
  shows "ms_senderSeqs s' = ms_senderSeqs s \<and> ms_idCache s' = ms_idCache s \<and> vr_Error r \<noteq> None"
  using assms unfolding VerifyMessage_def Let_def
  by (auto split: if_splits option.splits prod.splits bool.splits)

lemma VerifyMessage_other:
  assumes "VerifyMessage C J X L now s m = (s', r)"
  shows "ms_maxAuditLogs s' = ms_maxAuditLogs s \<and> ms_seqManagers s' = ms_seqManagers s
    \<and> (length (ms_auditLogs s) \<le> ms_maxAuditLogs s \<longrightarrow> 0 < ms_maxAuditLogs s \<longrightarrow>
        length (ms_auditLogs s') \<le> ms_maxAuditLogs s)"
proof -
  have "\<exists>t b e. s' = logAudit C now t m b e \<and> ms_maxAuditLogs t = ms_maxAuditLogs s
      \<and> ms_seqManagers t = ms_seqManagers s \<and> ms_auditLogs t = ms_auditLogs s"
    using assms unfolding VerifyMessage_def Let_def
    by (auto split: if_splits option.splits prod.splits bool.splits) fastforce+
  then show ?thesis using logAudit_bound by (metis logAudit_fields(4,5))
qed

section \<open>Runs\<close>

text \<open>
  A run of the service with the messages it has accepted, in order. Other operations create messages,
  expire the cache of identifiers, or change the identity service.
\<close>

inductive msg_run ::
  "crypto \<Rightarrow> json_lib \<Rightarrow> x509_lib \<Rightarrow> 's db \<Rightarrow> 's message_service \<Rightarrow> v2v_message list \<Rightarrow> 's message_service \<Rightarrow> bool"
  for C J X L s0 where
  start: "msg_run C J X L s0 [] s0"
| verify: "msg_run C J X L s0 acc s \<Longrightarrow> VerifyMessage C J X L now s m = (s', r) \<Longrightarrow>
    msg_run C J X L s0 (if vr_Valid r then acc @ [m] else acc) s'"
| create: "msg_run C J X L s0 acc s \<Longrightarrow> CreateMessage C J now s ty pr a b pl pid k = (s', rc) \<Longrightarrow>
    msg_run C J X L s0 acc s'"
| cleanup: "msg_run C J X L s0 acc s \<Longrightarrow>
    msg_run C J X L s0 acc (s\<lparr>ms_idCache := cache_Cleanup now (ms_idCache s)\<rparr>)"
| other: "msg_run C J X L s0 acc s \<Longrightarrow> msg_run C J X L s0 acc (s\<lparr>ms_identity := ids\<rparr>)"

definition later_seq :: "v2v_message \<Rightarrow> v2v_message \<Rightarrow> bool" where
  "later_seq a b \<longleftrightarrow> vm_Sender a = vm_Sender b \<longrightarrow> vm_SeqNum a < vm_SeqNum b"

definition tracked :: "'s message_service \<Rightarrow> v2v_message list \<Rightarrow> bool" where
  "tracked s acc \<longleftrightarrow> sorted_wrt later_seq acc
     \<and> (\<forall>m \<in> set acc. \<exists>n. mget (ms_senderSeqs s) (vm_Sender m) = Some n \<and> vm_SeqNum m \<le> n)
     \<and> length (ms_auditLogs s) \<le> ms_maxAuditLogs s \<and> 0 < ms_maxAuditLogs s"

lemma CreateMessage_fields:
  "CreateMessage C J now s ty pr a b pl pid k = (s', r) \<Longrightarrow>
     ms_senderSeqs s' = ms_senderSeqs s \<and> ms_auditLogs s' = ms_auditLogs s \<and> ms_maxAuditLogs s' = ms_maxAuditLogs s"
  by (auto simp: CreateMessage_def seq_Next_def Let_def split: option.splits prod.splits)

lemma msg_run_tracked:
  assumes "msg_run C J X L (NewMessageService ids) acc s"
  shows "tracked s acc"
  using assms
proof (induction rule: msg_run.induct)
  case start
  show ?case by (simp add: tracked_def NewMessageService_def)
next
  case (verify acc s now m s' r)
  note o = VerifyMessage_other [OF verify.hyps(2)]
  show ?case
  proof (cases "vr_Valid r")
    case False
    with VerifyMessage_refuses [OF verify.hyps(2)] verify.IH o show ?thesis by (simp add: tracked_def)
  next
    case True
    obtain t where t: "CheckAndUpdate (ms_senderSeqs s) (vm_Sender m) (vm_SeqNum m) = (t, True)" "ms_senderSeqs s' = t"
      using VerifyMessage_accepts [OF verify.hyps(2) True] by blast
    have t': "t = mput (ms_senderSeqs s) (vm_Sender m) (vm_SeqNum m)"
      "mget (ms_senderSeqs s) (vm_Sender m) = Some n \<Longrightarrow> n < vm_SeqNum m" for n
      using t(1) by (auto simp: CheckAndUpdate_def split: option.splits if_splits)
    have later: "later_seq a m" if "a \<in> set acc" for a
      using verify.IH that t'(2) unfolding tracked_def later_seq_def by (metis order_le_less_trans)
    have le: "\<exists>n. mget t (vm_Sender a) = Some n \<and> vm_SeqNum a \<le> n" if "a \<in> set acc" for a
      using verify.IH that later [OF that] unfolding tracked_def later_seq_def t'(1)
      by (cases "vm_Sender a = vm_Sender m") (auto intro: less_imp_le)
    show ?thesis using verify.IH o later le True t(2) t'(1) by (auto simp: tracked_def sorted_wrt_append)
  qed
next
  case (create acc s now ty pr a b pl pid k s' rc)
  with CreateMessage_fields [OF create.hyps(2)] show ?case by (simp add: tracked_def)
qed (simp_all add: tracked_def)

section \<open>Properties\<close>

text \<open>
  C24. No message is accepted twice: in every run of the service the accepted messages of a sender have
  strictly increasing sequence numbers, also after the cache of message identifiers has been cleaned
  up, and the audit log never exceeds its limit.
\<close>

theorem no_replay:
  assumes "msg_run C J X L (NewMessageService ids) acc s"
  shows "sorted_wrt (\<lambda>a b. vm_Sender a = vm_Sender b \<longrightarrow> vm_SeqNum a < vm_SeqNum b) acc \<and> distinct acc
    \<and> length (ms_auditLogs s) \<le> ms_maxAuditLogs s"
proof -
  have t: "tracked s acc" by (rule msg_run_tracked [OF assms])
  have "distinct xs" if "sorted_wrt later_seq xs" for xs
    using that by (induction xs) (auto simp: later_seq_def)
  with t show ?thesis unfolding tracked_def later_seq_def by blast
qed

definition demo_v2v :: v2v_message where
  "demo_v2v = \<lparr>vm_ID = ''m'', vm_Type = MsgTypeStatus, vm_Priority = 1, vm_Sender = 7, vm_Receiver = 0,
     vm_SeqNum = 1, vm_Timestamp = 0, vm_Payload = [], vm_Signature = [], vm_PlatoonID = []\<rparr>"

theorem no_replay_witness:
  "\<exists>acc s. msg_run demo_crypto demo_json demo_x509 map_db (NewMessageService demo_identities) acc s \<and> distinct acc"
proof -
  obtain s' r where v: "VerifyMessage demo_crypto demo_json demo_x509 map_db 5 (NewMessageService demo_identities) demo_v2v = (s', r)"
    by (meson surj_pair)
  from msg_run.verify [OF msg_run.start v]
  have run: "msg_run demo_crypto demo_json demo_x509 map_db (NewMessageService demo_identities)
      (if vr_Valid r then [] @ [demo_v2v] else []) s'" .
  from no_replay [OF run] run show ?thesis by blast
qed

text \<open>
  C25. An accepted message is authentic: it was sent within 30 seconds of the clock, its signature of 65
  bytes recovers to the address of its sender, and the sender is admitted, with a certificate that
  parses, has not expired and is not revoked. A refused message leaves no trace in the sequence
  numbers and the cache of identifiers.
\<close>

theorem accepted_message_authentic:
  assumes "VerifyMessage C J X L now s m = (s', r)" and "db_spec L contents"
    and "ids_ok C J X contents (ms_identity s)"
  shows "(vr_Valid r \<longrightarrow> \<bar>sint (now - vm_Timestamp m)\<bar> \<le> 30 \<and> length (vm_Signature m) = 65
      \<and> (\<exists>k. sig_to_pub C (vm_CalculateHash C J m) (vm_Signature m) = Some k
           \<and> pubkey_to_address C k = vm_Sender m)
      \<and> (\<exists>v cert. mget (is_cache (ms_identity s')) (vm_Sender m) = Some v \<and> vi_VehicleID v = vm_Sender m
           \<and> parseCertificate X (vi_Certificate v) = Inr cert \<and> sint now \<le> sint (cert_NotAfter cert)
           \<and> \<not> id_IsRevoked (ms_identity s') (cert_SerialNumber cert)))
    \<and> (\<not> vr_Valid r \<longrightarrow> ms_senderSeqs s' = ms_senderSeqs s \<and> ms_idCache s' = ms_idCache s \<and> vr_Error r \<noteq> None)"
proof (cases "vr_Valid r")
  case False
  with VerifyMessage_refuses [OF assms(1)] show ?thesis by simp
next
  case True
  obtain ids1 v0 ids2 where a: "\<not> vm_IsExpired now m" "vm_Verify C J m = None"
    "GetIdentity J L (ms_identity s) (vm_Sender m) = (ids1, Some v0)"
    "VerifyNodeAdmission J X L now ids1 (vm_Sender m) = (ids2, None)" "ms_identity s' = ids2"
    using VerifyMessage_accepts [OF assms(1) True] by blast
  have ok1: "ids_ok C J X contents ids1"
    using GetIdentity_keeps [OF assms(2) a(3), of C X] assms(3) by (simp add: id_keeps_def)
  obtain v cert where v: "mget (is_cache ids2) (vm_Sender m) = Some v"
    "GetIdentity J L ids1 (vm_Sender m) = (ids2, Some v)" "sint now \<le> sint (vi_ExpiresAt v)"
    "parseCertificate X (vi_Certificate v) = Inr cert" "\<not> id_IsRevoked ids1 (cert_SerialNumber cert)"
    using VerifyNodeAdmission_allows [OF a(4)] by blast
  have "ids_ok C J X contents ids2"
    using GetIdentity_keeps [OF assms(2) v(2), of C X] ok1 by (simp add: id_keeps_def)
  from cached_ok [OF this v(1)] v have id: "vi_VehicleID v = vm_Sender m" "vi_ExpiresAt v = cert_NotAfter cert"
    by (auto simp: id_ok_def)
  have crl: "id_IsRevoked ids2 x = id_IsRevoked ids1 x" for x
    using GetIdentity_result [OF v(2)] by (simp add: id_IsRevoked_def)
  have "\<bar>sint (now - vm_Timestamp m)\<bar> \<le> 30" using a(1) by (auto simp: vm_IsExpired_def Let_def)
  moreover have "length (vm_Signature m) = 65 \<and> (\<exists>k. sig_to_pub C (vm_CalculateHash C J m) (vm_Signature m) = Some k
      \<and> pubkey_to_address C k = vm_Sender m)"
    using a(2) by (auto simp: vm_Verify_def split: if_splits option.splits)
  moreover have "\<exists>v cert. mget (is_cache (ms_identity s')) (vm_Sender m) = Some v \<and> vi_VehicleID v = vm_Sender m
      \<and> parseCertificate X (vi_Certificate v) = Inr cert \<and> sint now \<le> sint (cert_NotAfter cert)
      \<and> \<not> id_IsRevoked (ms_identity s') (cert_SerialNumber cert)"
    using v id crl a(5) by auto
  ultimately show ?thesis using True by simp
qed

theorem accepted_message_authentic_witness:
  "\<exists>s' r. VerifyMessage demo_crypto demo_json demo_x509 map_db 5 (NewMessageService demo_identities) demo_v2v = (s', r)
    \<and> (\<not> vr_Valid r \<longrightarrow> vr_Error r \<noteq> None)"
proof -
  obtain s' r where v: "VerifyMessage demo_crypto demo_json demo_x509 map_db 5 (NewMessageService demo_identities) demo_v2v = (s', r)"
    by (meson surj_pair)
  have "ids_ok demo_crypto demo_json demo_x509 (\<lambda>s. s) (ms_identity (NewMessageService demo_identities))"
    using demo_ids_ok by (simp add: NewMessageService_def)
  from accepted_message_authentic [OF v map_db_spec this] v show ?thesis by blast
qed

text \<open>
  C26. The encryption hides nothing: what EncryptMessage produces for a receiver's public key decrypts
  with the receiver's private key, but the key stream is the digest of two public keys, the ephemeral
  one that travels with the message and the receiver's own. Whoever sees the message and knows the
  receiver's public key computes the same payload with no private key at all. The nonce that is sent
  along is the first half of that key stream.
\<close>

theorem encryption_readable_by_anyone:
  assumes "ec_ok E"
    and "EncryptMessage C E (Some ephemeral) payload (from_ecdsa_pub E (ec_public E k)) = Some em"
  shows "DecryptMessage C E em k = Inr payload
    \<and> xor_stream (put_be (keccak256 C (em_EphemeralPubKey em @ from_ecdsa_pub E (ec_public E k)))) (em_Ciphertext em) = payload
    \<and> em_Nonce em = take 16 (put_be (keccak256 C (em_EphemeralPubKey em @ from_ecdsa_pub E (ec_public E k))))"
  using assms by (auto simp: EncryptMessage_def DecryptMessage_def ec_ok_def Let_def)

definition demo_ec :: ec_lib where
  "demo_ec = \<lparr>ec_public = (\<lambda>k. k), from_ecdsa_pub = (\<lambda>p. p), unmarshal_pubkey = Some\<rparr>"

theorem encryption_readable_by_anyone_witness:
  "\<exists>em. EncryptMessage demo_crypto demo_ec (Some [1, 2]) [3, 4, 5] [6] = Some em \<and> DecryptMessage demo_crypto demo_ec em [6] = Inr [3, 4, 5]"
proof -
  have ok: "ec_ok demo_ec" by (simp add: ec_ok_def demo_ec_def)
  obtain em where em: "EncryptMessage demo_crypto demo_ec (Some [1, 2]) [3, 4, 5] [6] = Some em"
    by (auto simp: EncryptMessage_def Let_def)
  from em have em': "EncryptMessage demo_crypto demo_ec (Some [1, 2]) [3, 4, 5] (from_ecdsa_pub demo_ec (ec_public demo_ec [6])) = Some em"
    by (simp add: demo_ec_def)
  from encryption_readable_by_anyone [OF ok em'] em show ?thesis by blast
qed

text \<open>The group key is a function of the platoon's identifier; RotateKey gives the same key again.\<close>

lemma rotate_keeps_key:
  assumes "GenerateKey C m p = (m1, key)"
  shows "RotateKey C m1 p = (m1, key) \<and> key = put_be (keccak256 C (string_bytes (p @ ''_group_key'')))"
proof -
  have "mput (mput m p x) p x = mput m p x" for x by (rule fmap_ext) simp
  with assms show ?thesis by (auto simp: RotateKey_def GenerateKey_def Let_def)
qed

lemma group_round_trip:
  "EncryptForGroup m p x = Inr c \<Longrightarrow> DecryptForGroup m p c = Inr x"
  by (auto simp: EncryptForGroup_def DecryptForGroup_def split: option.splits)

text \<open>
  An identifier that was accepted from one sender blocks every message with the same identifier,
  whoever sent it: the identifier is chosen by the sender of the message, it is covered by that
  sender's signature only, and the identifiers of honest senders can be computed in advance.
\<close>

lemma accepted_id_blocks_others:
  assumes "VerifyMessage C J X L now s m = (s1, r)" and "vr_Valid r" and "vm_ID m' = vm_ID m"
  shows "\<not> vr_Valid (snd (VerifyMessage C J X L later s1 m'))
    \<and> vr_Error (snd (VerifyMessage C J X L later s1 m')) = Some DuplicateMessage"
proof -
  have "ms_idCache s1 = cache_Add now (ms_idCache s) (vm_ID m)"
    using VerifyMessage_accepts [OF assms(1,2)] by blast
  then have "cache_Has (ms_idCache s1) (vm_ID m')"
    using assms(3) by (simp add: cache_Has_def cache_Add_def mhas_def)
  then show ?thesis by (simp add: VerifyMessage_def Let_def)
qed

text \<open>A message that CreateMessage signs passes Verify exactly when the key belongs to the sender.\<close>

lemma created_message_verifies:
  assumes "CreateMessage C J now s ty pr a b pl pid k = (s', Inr m)"
    and "ecdsa_correct C pub_of" and "length (vm_Signature m) = 65"
  shows "vm_Verify C J m = None \<longleftrightarrow> pubkey_to_address C (pub_of k) = a"
proof -
  have h: "vm_CalculateHash C J (m\<lparr>vm_Signature := []\<rparr>) = vm_CalculateHash C J m"
    by (simp add: vm_CalculateHash_def vm_json_def)
  have m: "vm_Sender m = a" "ecdsa_sign C (vm_CalculateHash C J (m\<lparr>vm_Signature := []\<rparr>)) k = Some (vm_Signature m)"
    using assms(1) by (auto simp: CreateMessage_def vm_Sign_def Let_def split: option.splits prod.splits)
  from ecdsa_correctD [OF assms(2) m(2)] assms(3) m(1) h show ?thesis
    by (auto simp: vm_Verify_def)
qed

end
