(* ===== verification/Executor.thy ===== *)
theory Executor
  imports Platoon_Store State_Service Identity
begin

text \<open>
  Execution of committed blocks (core/executor/executor.go) over the platoon and identity services, and
  the builder of its transactions (transaction_builder.go). The clock and the random identifier that a
  service call draws are the environment of a transaction; they differ from node to node.
\<close>

section \<open>Transaction types of the executor\<close>

text \<open>Not the numbering of \<open>blockchain.TxType\<close>, although the field \<open>Type\<close> of a transaction carries both.\<close>

type_synonym TransactionType = u8

definition TxTypeRegisterIdentity :: TransactionType where "TxTypeRegisterIdentity = 0"
definition TxTypeUpdateCertificate :: TransactionType where "TxTypeUpdateCertificate = 1"
definition TxTypeCreatePlatoon :: TransactionType where "TxTypeCreatePlatoon = 2"
definition TxTypeJoinPlatoon :: TransactionType where "TxTypeJoinPlatoon = 3"
definition TxTypeApproveJoin :: TransactionType where "TxTypeApproveJoin = 4"
definition TxTypeLeavePlatoon :: TransactionType where "TxTypeLeavePlatoon = 5"
definition TxTypeDissolvePlatoon :: TransactionType where "TxTypeDissolvePlatoon = 6"
definition TxTypeAppointValidator :: TransactionType where "TxTypeAppointValidator = 7"
definition TxTypeDemoteValidator :: TransactionType where "TxTypeDemoteValidator = 8"
definition TxTypeVerifyMessage :: TransactionType where "TxTypeVerifyMessage = 9"

lemmas exec_type_defs = TxTypeRegisterIdentity_def TxTypeUpdateCertificate_def TxTypeCreatePlatoon_def
  TxTypeJoinPlatoon_def TxTypeApproveJoin_def TxTypeLeavePlatoon_def TxTypeDissolvePlatoon_def
  TxTypeAppointValidator_def TxTypeDemoteValidator_def TxTypeVerifyMessage_def

section \<open>State and environment\<close>

record 's executor =
  ex_platoon :: "'s platoon_service"
  ex_identity :: "'s identity_service"
  ex_state :: state_service

definition NewExecutor :: "'s platoon_service \<Rightarrow> 's identity_service \<Rightarrow> state_service \<Rightarrow> 's executor" where
  "NewExecutor p i st = \<lparr>ex_platoon = p, ex_identity = i, ex_state = st\<rparr>"

record exec_env =
  ee_now :: i64
  ee_id :: string

text \<open>The libraries the services call, as one parameter.\<close>

record 's libs =
  lib_C :: crypto
  lib_J :: json_lib
  lib_X :: x509_lib
  lib_L :: "'s db"

datatype exec_error =
    ParamsUnmarshal
  | RegisterFailed identity_error
  | CreateFailed platoon_error
  | SubmitFailed platoon_error
  | ApproveFailed platoon_error
  | LeaveFailed platoon_error
  | ExecPlatoonNotFound
  | OnlyLeaderDissolves
  | DissolveFailed platoon_error
  | AppointFailed platoon_error
  | DemoteFailed platoon_error

section \<open>Parameters of the transactions\<close>

definition dec_fields :: "json \<Rightarrow> (json \<Rightarrow> 'a option) \<Rightarrow> 'a option" where
  "dec_fields j f = (if j = JNull then f (JObj []) else if \<not> is_obj j then None else f j)"

definition dec_register :: "(bytes \<times> bytes) decoder" where
  "dec_register j = dec_fields j (\<lambda>j.
     Option.bind (jget j ''public_key'' dec_bytes []) (\<lambda>k.
     Option.bind (jget j ''certificate'' dec_bytes []) (\<lambda>c. Some (k, c))))"

record create_params =
  cp_Name :: string
  cp_SafeDistance :: float64
  cp_MaxSize :: int
  cp_TargetSpeed :: float64
  cp_Validators :: "address list"

definition dec_create :: "create_params decoder" where
  "dec_create j = dec_fields j (\<lambda>j.
     Option.bind (jget j ''name'' dec_string []) (\<lambda>n.
     Option.bind (jget j ''safe_distance'' dec_float (Fin 0)) (\<lambda>d.
     Option.bind (jget j ''max_size'' dec_int 0) (\<lambda>m.
     Option.bind (jget j ''target_speed'' dec_float (Fin 0)) (\<lambda>v.
     Option.bind (jget j ''validators'' (dec_list dec_address) []) (\<lambda>vs.
       Some \<lparr>cp_Name = n, cp_SafeDistance = d, cp_MaxSize = m, cp_TargetSpeed = v, cp_Validators = vs\<rparr>))))))"

definition dec_two_strings :: "string \<Rightarrow> string \<Rightarrow> (string \<times> string) decoder" where
  "dec_two_strings k1 k2 j = dec_fields j (\<lambda>j.
     Option.bind (jget j k1 dec_string []) (\<lambda>a. Option.bind (jget j k2 dec_string []) (\<lambda>b. Some (a, b))))"

definition dec_approve :: "(string \<times> bool) decoder" where
  "dec_approve j = dec_fields j (\<lambda>j.
     Option.bind (jget j ''request_id'' dec_string []) (\<lambda>r.
     Option.bind (jget j ''approved'' dec_bool False) (\<lambda>b. Some (r, b))))"

definition dec_leave :: "string decoder" where
  "dec_leave j = dec_fields j (\<lambda>j. jget j ''platoon_id'' dec_string [])"

definition dec_validator_change :: "(string \<times> address) decoder" where
  "dec_validator_change j = dec_fields j (\<lambda>j.
     Option.bind (jget j ''platoon_id'' dec_string []) (\<lambda>p.
     Option.bind (jget j ''vehicle_id'' dec_address 0) (\<lambda>v. Some (p, v))))"

section \<open>Execution\<close>

definition executeRegisterIdentity ::
  "'s libs \<Rightarrow> exec_env \<Rightarrow> 's executor \<Rightarrow> tx \<Rightarrow> 's executor \<times> exec_error option" where
  "executeRegisterIdentity B env ex tx =
     (case unmarshal (lib_J B) dec_register (tx_Data tx) of
        None \<Rightarrow> (ex, Some ParamsUnmarshal)
      | Some (pk, cert) \<Rightarrow>
          let req = \<lparr>rr_VehicleID = tx_From tx, rr_PublicKey = pk, rr_Certificate = cert, rr_FleetID = [],
                     rr_Signature = [], rr_Timestamp = 0\<rparr> in
          (case RegisterVehicle (lib_C B) (lib_J B) (lib_X B) (lib_L B) (ee_now env) (ex_identity ex) req of
             (s, Inl e) \<Rightarrow> (ex\<lparr>ex_identity := s\<rparr>, Some (RegisterFailed e))
           | (s, Inr v) \<Rightarrow> (ex\<lparr>ex_identity := s\<rparr>, None)))"

fun appoint_all ::
  "json_lib \<Rightarrow> 's db \<Rightarrow> i64 \<Rightarrow> string \<Rightarrow> address \<Rightarrow> address list \<Rightarrow> 's platoon_service \<Rightarrow> 's platoon_service" where
  "appoint_all J L now pid from [] s = s"
| "appoint_all J L now pid from (v # vs) s =
     appoint_all J L now pid from vs (fst (AppointValidator J L now s pid v from))"

definition executeCreatePlatoon ::
  "'s libs \<Rightarrow> exec_env \<Rightarrow> 's executor \<Rightarrow> tx \<Rightarrow> 's executor \<times> exec_error option" where
  "executeCreatePlatoon B env ex tx =
     (case unmarshal (lib_J B) dec_create (tx_Data tx) of
        None \<Rightarrow> (ex, Some ParamsUnmarshal)
      | Some cp \<Rightarrow>
          let pp = \<lparr>MaxVehicles = cp_MaxSize cp, TargetSpeed = cp_TargetSpeed cp,
                    SafeDistance = cp_SafeDistance cp, LaneID = 0, RouteID = [], EmergencyMode = False\<rparr> in
          (case CreatePlatoon (lib_J B) (lib_L B) (ee_now env) (ee_id env) (ex_platoon ex) (tx_From tx) pp (cp_Name cp) of
             (s, Inl e) \<Rightarrow> (ex\<lparr>ex_platoon := s\<rparr>, Some (CreateFailed e))
           | (s, Inr p) \<Rightarrow>
               (ex\<lparr>ex_platoon := appoint_all (lib_J B) (lib_L B) (ee_now env) (pl_ID p) (tx_From tx)
                                    (cp_Validators cp) s\<rparr>, None)))"

definition executeJoinPlatoon ::
  "'s libs \<Rightarrow> exec_env \<Rightarrow> 's executor \<Rightarrow> tx \<Rightarrow> 's executor \<times> exec_error option" where
  "executeJoinPlatoon B env ex tx =
     (case unmarshal (lib_J B) (dec_two_strings ''platoon_id'' ''destination'') (tx_Data tx) of
        None \<Rightarrow> (ex, Some ParamsUnmarshal)
      | Some (pid, dest) \<Rightarrow>
          (case SubmitJoinRequest (lib_J B) (lib_L B) (ee_now env) (ee_id env) (ex_platoon ex) pid (tx_From tx) dest of
             (s, Inl e) \<Rightarrow> (ex\<lparr>ex_platoon := s\<rparr>, Some (SubmitFailed e))
           | (s, Inr r) \<Rightarrow> (ex\<lparr>ex_platoon := s\<rparr>, None)))"

definition platoon_call ::
  "('e \<Rightarrow> exec_error) \<Rightarrow> 's executor \<Rightarrow> 's platoon_service \<times> 'e option \<Rightarrow> 's executor \<times> exec_error option" where
  "platoon_call err ex r = (ex\<lparr>ex_platoon := fst r\<rparr>, map_option err (snd r))"

definition executeApproveJoin ::
  "'s libs \<Rightarrow> exec_env \<Rightarrow> 's executor \<Rightarrow> tx \<Rightarrow> 's executor \<times> exec_error option" where
  "executeApproveJoin B env ex tx =
     (case unmarshal (lib_J B) dec_approve (tx_Data tx) of
        None \<Rightarrow> (ex, Some ParamsUnmarshal)
      | Some (rid, approved) \<Rightarrow> platoon_call ApproveFailed ex
          (ProcessJoinRequest (lib_J B) (lib_L B) (ee_now env) (ex_platoon ex) rid approved (tx_From tx)))"

definition executeLeavePlatoon ::
  "'s libs \<Rightarrow> exec_env \<Rightarrow> 's executor \<Rightarrow> tx \<Rightarrow> 's executor \<times> exec_error option" where
  "executeLeavePlatoon B env ex tx =
     (case unmarshal (lib_J B) dec_leave (tx_Data tx) of
        None \<Rightarrow> (ex, Some ParamsUnmarshal)
      | Some pid \<Rightarrow> platoon_call LeaveFailed ex
          (LeavePlatoon (lib_J B) (lib_L B) (ee_now env) (ex_platoon ex) pid (tx_From tx)))"

definition executeDissolvePlatoon ::
  "'s libs \<Rightarrow> exec_env \<Rightarrow> 's executor \<Rightarrow> tx \<Rightarrow> 's executor \<times> exec_error option" where
  "executeDissolvePlatoon B env ex tx =
     (case unmarshal (lib_J B) (dec_two_strings ''platoon_id'' ''reason'') (tx_Data tx) of
        None \<Rightarrow> (ex, Some ParamsUnmarshal)
      | Some (pid, reason) \<Rightarrow>
          (case GetPlatoon (lib_J B) (lib_L B) (ex_platoon ex) pid of
             (s, None) \<Rightarrow> (ex\<lparr>ex_platoon := s\<rparr>, Some ExecPlatoonNotFound)
           | (s, Some p) \<Rightarrow>
               if pl_LeaderID p \<noteq> tx_From tx then (ex\<lparr>ex_platoon := s\<rparr>, Some OnlyLeaderDissolves)
               else platoon_call DissolveFailed ex
                      (DissolvePlatoon (lib_J B) (lib_L B) (ee_now env) s pid reason)))"

definition executeAppointValidator ::
  "'s libs \<Rightarrow> exec_env \<Rightarrow> 's executor \<Rightarrow> tx \<Rightarrow> 's executor \<times> exec_error option" where
  "executeAppointValidator B env ex tx =
     (case unmarshal (lib_J B) dec_validator_change (tx_Data tx) of
        None \<Rightarrow> (ex, Some ParamsUnmarshal)
      | Some (pid, v) \<Rightarrow> platoon_call AppointFailed ex
          (AppointValidator (lib_J B) (lib_L B) (ee_now env) (ex_platoon ex) pid v (tx_From tx)))"

definition executeDemoteValidator ::
  "'s libs \<Rightarrow> exec_env \<Rightarrow> 's executor \<Rightarrow> tx \<Rightarrow> 's executor \<times> exec_error option" where
  "executeDemoteValidator B env ex tx =
     (case unmarshal (lib_J B) dec_validator_change (tx_Data tx) of
        None \<Rightarrow> (ex, Some ParamsUnmarshal)
      | Some (pid, v) \<Rightarrow> platoon_call DemoteFailed ex
          (DemoteValidator (lib_J B) (lib_L B) (ee_now env) (ex_platoon ex) pid v (tx_From tx)))"

definition ExecuteTransaction ::
  "'s libs \<Rightarrow> exec_env \<Rightarrow> 's executor \<Rightarrow> tx \<Rightarrow> 's executor \<times> exec_error option" where
  "ExecuteTransaction B env ex tx =
     (let t = tx_Type tx in
      if t = TxTypeRegisterIdentity then executeRegisterIdentity B env ex tx
      else if t = TxTypeCreatePlatoon then executeCreatePlatoon B env ex tx
      else if t = TxTypeJoinPlatoon then executeJoinPlatoon B env ex tx
      else if t = TxTypeApproveJoin then executeApproveJoin B env ex tx
      else if t = TxTypeLeavePlatoon then executeLeavePlatoon B env ex tx
      else if t = TxTypeDissolvePlatoon then executeDissolvePlatoon B env ex tx
      else if t = TxTypeAppointValidator then executeAppointValidator B env ex tx
      else if t = TxTypeDemoteValidator then executeDemoteValidator B env ex tx
      else (ex, None))"

text \<open>
  Errors are logged; the block counts as executed. The environment of the transaction at index \<open>i\<close> is
  \<open>envs i\<close>.
\<close>

fun execute_all :: "'s libs \<Rightarrow> (nat \<Rightarrow> exec_env) \<Rightarrow> nat \<Rightarrow> tx list \<Rightarrow> 's executor \<Rightarrow> 's executor" where
  "execute_all B envs i [] ex = ex"
| "execute_all B envs i (tx # txs) ex =
     execute_all B envs (Suc i) txs (fst (ExecuteTransaction B (envs i) ex tx))"

definition ExecuteBlock ::
  "'s libs \<Rightarrow> (nat \<Rightarrow> exec_env) \<Rightarrow> 's executor \<Rightarrow> block \<Rightarrow> 's executor \<times> exec_error option" where
  "ExecuteBlock B envs ex block = (execute_all B envs 0 (blk_Transactions block) ex, None)"

section \<open>The transaction builder\<close>

record builder = tb_nonce :: u64

definition NewTransactionBuilder :: "u64 \<Rightarrow> builder" where
  "NewTransactionBuilder nanos = \<lparr>tb_nonce = nanos\<rparr>"

definition build_tx :: "crypto \<Rightarrow> i64 \<Rightarrow> builder \<Rightarrow> TransactionType \<Rightarrow> address \<Rightarrow> bytes \<Rightarrow> builder \<times> tx" where
  "build_tx C now b t from data =
     (let n = tb_nonce b + 1;
          tx = zero_tx\<lparr>tx_Type := t, tx_From := from, tx_To := 0, tx_Value := 0, tx_Data := data,
                       tx_Nonce := n, tx_Timestamp := now\<rparr>
      in (b\<lparr>tb_nonce := n\<rparr>, tx\<lparr>tx_Hash := Transaction_CalculateHash C tx\<rparr>))"

text \<open>Marshal fails for a float64 that is not finite; the error is dropped and the data empty.\<close>

definition BuildCreatePlatoonTx ::
  "crypto \<Rightarrow> json_lib \<Rightarrow> i64 \<Rightarrow> builder \<Rightarrow> address \<Rightarrow> string \<Rightarrow> float64 \<Rightarrow> int \<Rightarrow> float64 \<Rightarrow> address list \<Rightarrow> builder \<times> tx" where
  "BuildCreatePlatoonTx C J now b from name safeDistance maxSize targetSpeed validators =
     build_tx C now b TxTypeCreatePlatoon from
       (if fl_finite safeDistance \<and> fl_finite targetSpeed
        then js_text J (JObj [(''name'', JStr name), (''safe_distance'', JFloat safeDistance),
               (''max_size'', JNum maxSize), (''target_speed'', JFloat targetSpeed),
               (''validators'', enc_list enc_address validators)])
        else [])"

definition BuildJoinPlatoonTx ::
  "crypto \<Rightarrow> json_lib \<Rightarrow> i64 \<Rightarrow> builder \<Rightarrow> address \<Rightarrow> string \<Rightarrow> string \<Rightarrow> builder \<times> tx" where
  "BuildJoinPlatoonTx C J now b from platoonID destination =
     build_tx C now b TxTypeJoinPlatoon from
       (js_text J (JObj [(''platoon_id'', JStr platoonID), (''destination'', JStr destination)]))"

definition BuildApproveJoinTx ::
  "crypto \<Rightarrow> json_lib \<Rightarrow> i64 \<Rightarrow> builder \<Rightarrow> address \<Rightarrow> string \<Rightarrow> bool \<Rightarrow> builder \<times> tx" where
  "BuildApproveJoinTx C J now b from requestID approved =
     build_tx C now b TxTypeApproveJoin from
       (js_text J (JObj [(''request_id'', JStr requestID), (''approved'', JBool approved)]))"

definition BuildLeavePlatoonTx :: "crypto \<Rightarrow> json_lib \<Rightarrow> i64 \<Rightarrow> builder \<Rightarrow> address \<Rightarrow> string \<Rightarrow> builder \<times> tx" where
  "BuildLeavePlatoonTx C J now b from platoonID =
     build_tx C now b TxTypeLeavePlatoon from (js_text J (JObj [(''platoon_id'', JStr platoonID)]))"

definition BuildDissolvePlatoonTx :: "crypto \<Rightarrow> json_lib \<Rightarrow> i64 \<Rightarrow> builder \<Rightarrow> address \<Rightarrow> string \<Rightarrow> builder \<times> tx" where
  "BuildDissolvePlatoonTx C J now b from platoonID =
     build_tx C now b TxTypeDissolvePlatoon from
       (js_text J (JObj [(''platoon_id'', JStr platoonID), (''reason'', JStr ''leader_requested'')]))"

definition BuildAppointValidatorTx ::
  "crypto \<Rightarrow> json_lib \<Rightarrow> i64 \<Rightarrow> builder \<Rightarrow> address \<Rightarrow> string \<Rightarrow> address \<Rightarrow> builder \<times> tx" where
  "BuildAppointValidatorTx C J now b from platoonID vehicleID =
     build_tx C now b TxTypeAppointValidator from
       (js_text J (JObj [(''platoon_id'', JStr platoonID), (''vehicle_id'', enc_address vehicleID)]))"

definition BuildRegisterIdentityTx ::
  "crypto \<Rightarrow> json_lib \<Rightarrow> i64 \<Rightarrow> builder \<Rightarrow> address \<Rightarrow> bytes \<Rightarrow> bytes \<Rightarrow> builder \<times> tx" where
  "BuildRegisterIdentityTx C J now b from publicKey certificate =
     build_tx C now b TxTypeRegisterIdentity from
       (js_text J (JObj [(''public_key'', JB64 publicKey), (''certificate'', JB64 certificate)]))"

section \<open>Execution keeps the services well formed\<close>

lemma platoon_call_result [simp]:
  "ex_platoon (fst (platoon_call err ex r)) = fst r" "ex_identity (fst (platoon_call err ex r)) = ex_identity ex"
  "snd (platoon_call err ex r) = None \<longleftrightarrow> snd r = None"
  by (simp_all add: platoon_call_def)

lemma appoint_all_sound:
  assumes "db_spec L contents" and "json_ok J"
  shows "sound J contents s (appoint_all J L now pid from vs s)"
proof (induction vs arbitrary: s)
  case (Cons v vs)
  from sound_trans [OF AppointValidator_sound [OF assms prod.collapse [symmetric]] Cons] show ?case by simp
qed simp

definition exec_sound ::
  "'s libs \<Rightarrow> ('s \<Rightarrow> bytes \<Rightarrow> bytes option) \<Rightarrow> 's executor \<Rightarrow> 's executor \<Rightarrow> bool" where
  "exec_sound B contents ex ex' \<longleftrightarrow> sound (lib_J B) contents (ex_platoon ex) (ex_platoon ex')
     \<and> id_keeps (lib_C B) (lib_J B) (lib_X B) contents (ex_identity ex) (ex_identity ex')"

lemma exec_sound_refl [simp]: "exec_sound B contents ex ex"
  by (simp add: exec_sound_def)

lemma exec_sound_trans: "exec_sound B contents a b \<Longrightarrow> exec_sound B contents b c \<Longrightarrow> exec_sound B contents a c"
  unfolding exec_sound_def by (blast intro: sound_trans id_keeps_trans)

lemma exec_sound_call:
  "sound (lib_J B) contents (ex_platoon ex) (fst r) \<Longrightarrow> exec_sound B contents ex (fst (platoon_call err ex r))"
  by (simp add: exec_sound_def)

lemma exec_sound_platoon:
  "sound (lib_J B) contents (ex_platoon ex) s \<Longrightarrow> exec_sound B contents ex (ex\<lparr>ex_platoon := s\<rparr>)"
  by (simp add: exec_sound_def)

lemma executeRegisterIdentity_sound:
  assumes "db_spec (lib_L B) contents" and "json_ok (lib_J B)"
  shows "exec_sound B contents ex (fst (executeRegisterIdentity B env ex tx))"
  using RegisterVehicle_keeps [OF assms]
  by (auto simp: executeRegisterIdentity_def exec_sound_def Let_def split: option.split prod.split sum.split)

lemma executeCreatePlatoon_sound:
  assumes "db_spec (lib_L B) contents" and "json_ok (lib_J B)"
    and "mget (ps_platoons (ex_platoon ex)) (ee_id env) = None"
  shows "exec_sound B contents ex (fst (executeCreatePlatoon B env ex tx))"
proof (cases "unmarshal (lib_J B) dec_create (tx_Data tx)")
  case (Some cp)
  define pp where "pp = \<lparr>MaxVehicles = cp_MaxSize cp, TargetSpeed = cp_TargetSpeed cp,
    SafeDistance = cp_SafeDistance cp, LaneID = 0, RouteID = [], EmergencyMode = False\<rparr>"
  obtain s r where c: "CreatePlatoon (lib_J B) (lib_L B) (ee_now env) (ee_id env) (ex_platoon ex) (tx_From tx) pp (cp_Name cp) = (s, r)"
    by (meson surj_pair)
  have "sound (lib_J B) contents (ex_platoon ex) s" using CreatePlatoon_sound [OF assms(1,2) c assms(3)] .
  from this sound_trans [OF this appoint_all_sound [OF assms(1,2)]] show ?thesis
    by (cases r) (simp_all add: executeCreatePlatoon_def Some c [unfolded pp_def] exec_sound_platoon Let_def)
qed (simp add: executeCreatePlatoon_def)

lemma executeJoinPlatoon_sound:
  assumes "db_spec (lib_L B) contents" and "json_ok (lib_J B)"
  shows "exec_sound B contents ex (fst (executeJoinPlatoon B env ex tx))"
  using SubmitJoinRequest_sound [OF assms]
  by (auto simp: executeJoinPlatoon_def exec_sound_def split: option.split prod.split sum.split)

lemma executeDissolvePlatoon_sound:
  assumes "db_spec (lib_L B) contents" and "json_ok (lib_J B)"
  shows "exec_sound B contents ex (fst (executeDissolvePlatoon B env ex tx))"
proof (cases "unmarshal (lib_J B) (dec_two_strings ''platoon_id'' ''reason'') (tx_Data tx)")
  case (Some pr)
  obtain pid reason where pr: "pr = (pid, reason)" by (meson surj_pair)
  obtain s r where g: "GetPlatoon (lib_J B) (lib_L B) (ex_platoon ex) pid = (s, r)" by (meson surj_pair)
  note gs = GetPlatoon_sound(1) [OF assms(1) g]
  have "sound (lib_J B) contents (ex_platoon ex) (fst (DissolvePlatoon (lib_J B) (lib_L B) (ee_now env) s pid reason))"
    by (rule sound_trans [OF gs]) (rule DissolvePlatoon_sound [OF assms prod.collapse [symmetric]])
  with gs show ?thesis
    by (cases r) (auto simp: executeDissolvePlatoon_def Some pr g exec_sound_call exec_sound_platoon)
qed (simp add: executeDissolvePlatoon_def)

lemma ExecuteTransaction_sound:
  assumes "db_spec (lib_L B) contents" and "json_ok (lib_J B)"
    and "mget (ps_platoons (ex_platoon ex)) (ee_id env) = None"
  shows "exec_sound B contents ex (fst (ExecuteTransaction B env ex tx))"
proof -
  note calls = exec_sound_call ProcessJoinRequest_sound [OF assms(1,2) prod.collapse [symmetric]]
    LeavePlatoon_sound [OF assms(1,2) prod.collapse [symmetric]]
    AppointValidator_sound [OF assms(1,2) prod.collapse [symmetric]]
    DemoteValidator_sound [OF assms(1,2) prod.collapse [symmetric]]
  have "exec_sound B contents ex (fst (executeApproveJoin B env ex tx))"
    by (auto simp: executeApproveJoin_def calls split: option.split prod.split)
  moreover have "exec_sound B contents ex (fst (executeLeavePlatoon B env ex tx))"
    by (auto simp: executeLeavePlatoon_def calls split: option.split)
  moreover have "exec_sound B contents ex (fst (executeAppointValidator B env ex tx))"
    by (auto simp: executeAppointValidator_def calls split: option.split prod.split)
  moreover have "exec_sound B contents ex (fst (executeDemoteValidator B env ex tx))"
    by (auto simp: executeDemoteValidator_def calls split: option.split prod.split)
  ultimately show ?thesis
    using executeRegisterIdentity_sound [OF assms(1,2)] executeCreatePlatoon_sound [OF assms]
      executeJoinPlatoon_sound [OF assms(1,2)] executeDissolvePlatoon_sound [OF assms(1,2)]
    by (simp add: ExecuteTransaction_def Let_def)
qed

section \<open>What a transaction may change\<close>

text \<open>
  The platoons that the checks of the code let a transaction change: the one it creates, under the identifier the
  node has drawn; the one of a pending request that its sender approves as the leader; the one it names, if its
  sender leads it, or leaves it as a member.
\<close>

definition may_change :: "'s libs \<Rightarrow> exec_env \<Rightarrow> 's executor \<Rightarrow> tx \<Rightarrow> string \<Rightarrow> bool" where
  "may_change B env ex tx pid \<longleftrightarrow>
     tx_Type tx = TxTypeCreatePlatoon \<and> pid = ee_id env
   \<or> (\<exists>p. snd (GetPlatoon (lib_J B) (lib_L B) (ex_platoon ex) pid) = Some p \<and>
        (tx_Type tx = TxTypeApproveJoin \<and> pl_LeaderID p = tx_From tx
         \<and> (\<exists>rid req. unmarshal (lib_J B) dec_approve (tx_Data tx) = Some (rid, True)
              \<and> mget (ps_joinRequests (ex_platoon ex)) rid = Some req \<and> jr_Status req = JoinStatusPending
              \<and> jr_PlatoonID req = pid)
       \<or> tx_Type tx = TxTypeDissolvePlatoon \<and> pl_LeaderID p = tx_From tx
         \<and> (\<exists>reason. unmarshal (lib_J B) (dec_two_strings ''platoon_id'' ''reason'') (tx_Data tx) = Some (pid, reason))
       \<or> (tx_Type tx = TxTypeAppointValidator \<or> tx_Type tx = TxTypeDemoteValidator) \<and> pl_LeaderID p = tx_From tx
         \<and> (\<exists>v. unmarshal (lib_J B) dec_validator_change (tx_Data tx) = Some (pid, v))
       \<or> tx_Type tx = TxTypeLeavePlatoon \<and> HasMember p (tx_From tx)
         \<and> unmarshal (lib_J B) dec_leave (tx_Data tx) = Some pid))"

lemma appoint_all_alone:
  assumes "T pid"
  shows "answers_kept J L contents T s (appoint_all J L now pid from vs s)"
proof (induction vs arbitrary: s)
  case (Cons v vs)
  have "answers_kept J L contents T s (fst (AppointValidator J L now s pid v from))"
    by (rule alone.on_appoint [OF prod.collapse [symmetric]]) (rule assms)
  from alone.rel_trans [OF this Cons] show ?case by simp
qed (simp add: alone.rel_refl)

lemma ExecuteTransaction_alone:
  assumes "mget (ps_platoons (ex_platoon ex)) (ee_id env) = None"
  shows "answers_kept (lib_J B) (lib_L B) contents (may_change B env ex tx) (ex_platoon ex)
    (ex_platoon (fst (ExecuteTransaction B env ex tx)))"
    (is "?K (ex_platoon ex) (ex_platoon (fst ?r))")
proof -
  let ?s = "ex_platoon ex" and ?T = "may_change B env ex tx" and ?J = "lib_J B" and ?L = "lib_L B"
  note refl = alone.rel_refl [where T = ?T] and eq = prod.collapse [symmetric]
  have create: "?K ?s (ex_platoon (fst (executeCreatePlatoon B env ex tx)))" if "tx_Type tx = TxTypeCreatePlatoon"
  proof (cases "unmarshal ?J dec_create (tx_Data tx)")
    case (Some cp)
    have T: "?T (ee_id env)" using that by (simp add: may_change_def)
    define pp where "pp = \<lparr>MaxVehicles = cp_MaxSize cp, TargetSpeed = cp_TargetSpeed cp,
      SafeDistance = cp_SafeDistance cp, LaneID = 0, RouteID = [], EmergencyMode = False\<rparr>"
    obtain s r where c: "CreatePlatoon ?J ?L (ee_now env) (ee_id env) ?s (tx_From tx) pp (cp_Name cp) = (s, r)"
      by (meson surj_pair)
    have "?K ?s s" by (rule alone.on_create [where T = ?T, OF c assms T])
    show ?thesis
    proof (cases r)
      case (Inl e)
      with \<open>?K ?s s\<close> show ?thesis by (simp add: executeCreatePlatoon_def Some c [unfolded pp_def] Let_def)
    next
      case (Inr p)
      with c have "pl_ID p = ee_id env"
        by (auto simp: CreatePlatoon_def NewPlatoon_def Let_def AddMember_def platoon_AddValidator_def
            split: option.splits sum.splits prod.splits if_splits)
      with \<open>?K ?s s\<close> Inr alone.rel_trans [OF _ appoint_all_alone [where T = ?T, OF T]] show ?thesis
        by (simp add: executeCreatePlatoon_def Some c [unfolded pp_def] Let_def)
    qed
  qed (simp add: executeCreatePlatoon_def refl)
  have join: "?K ?s (ex_platoon (fst (executeJoinPlatoon B env ex tx)))"
    using alone.on_submit [where T = ?T] refl
    by (auto simp: executeJoinPlatoon_def split: option.split prod.split sum.split)
  have approve: "?K ?s (ex_platoon (fst (executeApproveJoin B env ex tx)))" if "tx_Type tx = TxTypeApproveJoin"
  proof (cases "unmarshal ?J dec_approve (tx_Data tx)")
    case (Some ra)
    have "?K ?s (fst (ProcessJoinRequest ?J ?L (ee_now env) ?s (fst ra) (snd ra) (tx_From tx)))"
      by (rule alone.on_process [OF eq]) (use that Some in \<open>cases ra; auto simp: may_change_def\<close>)
    then show ?thesis by (simp add: executeApproveJoin_def Some split_beta)
  qed (simp add: executeApproveJoin_def refl)
  have leave: "?K ?s (ex_platoon (fst (executeLeavePlatoon B env ex tx)))" if "tx_Type tx = TxTypeLeavePlatoon"
  proof (cases "unmarshal ?J dec_leave (tx_Data tx)")
    case (Some pid)
    have "?K ?s (fst (LeavePlatoon ?J ?L (ee_now env) ?s pid (tx_From tx)))"
      by (rule alone.on_leave [OF eq]) (use that Some in \<open>auto simp: may_change_def exec_type_defs\<close>)
    then show ?thesis by (simp add: executeLeavePlatoon_def Some)
  qed (simp add: executeLeavePlatoon_def refl)
  have disband: "?K ?s (ex_platoon (fst (executeDissolvePlatoon B env ex tx)))" if "tx_Type tx = TxTypeDissolvePlatoon"
  proof (cases "unmarshal ?J (dec_two_strings ''platoon_id'' ''reason'') (tx_Data tx)")
    case (Some pr)
    obtain pid reason where pr: "pr = (pid, reason)" by (meson surj_pair)
    obtain s r where g: "GetPlatoon ?J ?L ?s pid = (s, r)" by (meson surj_pair)
    note got = alone.rel_get [where T = ?T, OF g]
    show ?thesis
    proof (cases "\<exists>p. r = Some p \<and> pl_LeaderID p = tx_From tx")
      case True
      then have "?T pid" using that g Some pr by (auto simp: may_change_def exec_type_defs)
      then have "?K s (fst (DissolvePlatoon ?J ?L (ee_now env) s pid reason))" by (rule alone.on_disband [OF eq])
      with True alone.rel_trans [OF got] show ?thesis by (auto simp: executeDissolvePlatoon_def Some pr g)
    next
      case False
      with got show ?thesis by (cases r) (auto simp: executeDissolvePlatoon_def Some pr g)
    qed
  qed (simp add: executeDissolvePlatoon_def refl)
  have appoint: "?K ?s (ex_platoon (fst (executeAppointValidator B env ex tx)))" if "tx_Type tx = TxTypeAppointValidator"
  proof (cases "unmarshal ?J dec_validator_change (tx_Data tx)")
    case (Some pv)
    have "?K ?s (fst (AppointValidator ?J ?L (ee_now env) ?s (fst pv) (snd pv) (tx_From tx)))"
      by (rule alone.on_appoint [OF eq]) (use that Some in \<open>cases pv; auto simp: may_change_def exec_type_defs\<close>)
    then show ?thesis by (simp add: executeAppointValidator_def Some split_beta)
  qed (simp add: executeAppointValidator_def refl)
  have demote: "?K ?s (ex_platoon (fst (executeDemoteValidator B env ex tx)))" if "tx_Type tx = TxTypeDemoteValidator"
  proof (cases "unmarshal ?J dec_validator_change (tx_Data tx)")
    case (Some pv)
    have "?K ?s (fst (DemoteValidator ?J ?L (ee_now env) ?s (fst pv) (snd pv) (tx_From tx)))"
      by (rule alone.on_demote [OF eq]) (use that Some in \<open>cases pv; auto simp: may_change_def exec_type_defs\<close>)
    then show ?thesis by (simp add: executeDemoteValidator_def Some split_beta)
  qed (simp add: executeDemoteValidator_def refl)
  have register: "ex_platoon (fst (executeRegisterIdentity B env ex tx)) = ?s"
    by (auto simp: executeRegisterIdentity_def Let_def split: option.split prod.split sum.split)
  show ?thesis
    using create join approve leave disband appoint demote refl by (auto simp: ExecuteTransaction_def Let_def register)
qed

text \<open>Join requests are made by a join and answered by an approval, and nothing else changes one.\<close>

lemma storePlatoon_requests [simp]: "ps_joinRequests (fst (storePlatoon J L s p)) = ps_joinRequests s"
  using storePlatoon_frame [of J L s p] by (metis prod.collapse)

lemma GetPlatoon_requests' [simp]: "ps_joinRequests (fst (GetPlatoon J L s pid)) = ps_joinRequests s"
  using GetPlatoon_requests [of J L s pid] by (metis prod.collapse)

lemma requests_kept_create: "ps_joinRequests (fst (CreatePlatoon J L now pid s leader params name)) = ps_joinRequests s"
proof (cases "PlatoonParams_Validate params")
  case None
  let ?p = "created now pid leader params name"
  obtain s1 e where st: "storePlatoon J L (put_platoon s pid ?p) ?p = (s1, e)" by (meson surj_pair)
  with CreatePlatoon_result [OF None st] storePlatoon_frame [OF st] show ?thesis by (cases e) simp_all
qed (simp add: CreatePlatoon_def)

lemma requests_kept_disband: "ps_joinRequests (fst (DissolvePlatoon J L now s pid reason)) = ps_joinRequests s"
  by (auto simp: DissolvePlatoon_def Let_def dest!: storePlatoon_frame GetPlatoon_requests
      split: option.split prod.split)

lemma requests_kept_appoint: "ps_joinRequests (fst (AppointValidator J L now s pid v a)) = ps_joinRequests s"
  by (auto simp: AppointValidator_def dest!: storePlatoon_frame GetPlatoon_requests split: option.split prod.split)

lemma requests_kept_demote: "ps_joinRequests (fst (DemoteValidator J L now s pid v a)) = ps_joinRequests s"
  by (auto simp: DemoteValidator_def dest!: storePlatoon_frame GetPlatoon_requests split: option.split prod.split)

lemma handleLeaderLeaving_requests: "ps_joinRequests (fst (handleLeaderLeaving now s p)) = ps_joinRequests s"
  by (simp add: handleLeaderLeaving_def Let_def split: option.split)

lemma requests_kept_leave: "ps_joinRequests (fst (LeavePlatoon J L now s pid v)) = ps_joinRequests s"
proof -
  obtain s1 r where g: "GetPlatoon J L s pid = (s1, r)" by (meson surj_pair)
  note s1 = GetPlatoon_requests [OF g]
  show ?thesis
  proof (cases "\<exists>p. r = Some p \<and> HasMember p v")
    case False
    with s1 show ?thesis by (auto simp: LeavePlatoon_def g split: option.split)
  next
    case True
    then obtain p where p: "r = Some p" "HasMember p v" by blast
    obtain s2 q e where h: "(if pl_LeaderID p = v then handleLeaderLeaving now s1 p else (s1, p, None)) = (s2, q, e)"
      by (metis prod_cases3)
    then have s2: "ps_joinRequests s2 = ps_joinRequests s"
      using handleLeaderLeaving_requests [of now s1 p] s1 by (auto split: if_splits)
    obtain q2 e2 where rm: "RemoveMember now (if platoon_IsValidator q v then fst (platoon_RemoveValidator q v) else q) v
        = (q2, e2)" by (meson surj_pair)
    let ?q = "if GetMemberCount q2 \<le> 3 \<and> pl_Status q2 = PlatoonStatusActive
      then q2\<lparr>pl_Status := PlatoonStatusUnderStaffed\<rparr> else q2"
    obtain s3 e3 where st: "storePlatoon J L (put_platoon s2 pid ?q) ?q = (s3, e3)" by (meson surj_pair)
    then have s3: "ps_joinRequests s3 = ps_joinRequests s" using storePlatoon_frame [OF st] s2 by simp
    show ?thesis
    proof (cases "e = None \<and> e2 = None")
      case True
      have "LeavePlatoon J L now s pid v = (if GetMemberCount ?q = 0
          then DissolvePlatoon J L now (put_platoon s2 pid ?q) pid ''last_member_left''
          else case e3 of Some x \<Rightarrow> (s3, Some x) | None \<Rightarrow>
            (emitEvent (recordHistory s3 pid (hist now EventMemberLeft v [] [])) (pevent EventMemberLeft pid v now []), None))"
        unfolding LeavePlatoon_def g p(1) prod.case option.case h
        using True by (cases "GetMemberCount ?q = 0") (simp_all add: p(2) rm st Let_def split del: if_split split: option.split)
      then show ?thesis using s2 s3 by (cases e3) (simp_all add: requests_kept_disband)
    next
      case False
      then show ?thesis
        unfolding LeavePlatoon_def g p(1) prod.case option.case h
        by (cases e; cases e2) (simp_all add: p(2) s2 rm Let_def split del: if_split)
    qed
  qed
qed

lemma requests_kept_appoint_all: "ps_joinRequests (appoint_all J L now pid from vs s) = ps_joinRequests s"
  by (induction vs arbitrary: s) (simp_all add: requests_kept_appoint)

lemma SubmitJoinRequest_requests:
  "k \<noteq> rid \<Longrightarrow> mget (ps_joinRequests (fst (SubmitJoinRequest J L now rid s pid v dest))) k = mget (ps_joinRequests s) k"
  by (auto simp: SubmitJoinRequest_def Let_def dest!: GetPlatoon_requests split: option.split prod.split)

lemma ProcessJoinRequest_requests:
  assumes "mget (ps_joinRequests (fst (ProcessJoinRequest J L now s rid approved proc))) k \<noteq> mget (ps_joinRequests s) k"
  shows "k = rid \<and> (\<exists>req p. mget (ps_joinRequests s) rid = Some req \<and> jr_Status req = JoinStatusPending
    \<and> snd (GetPlatoon J L s (jr_PlatoonID req)) = Some p \<and> pl_LeaderID p = proc)"
  using assms
  by (auto simp: ProcessJoinRequest_def Let_def
      dest!: storePlatoon_frame GetPlatoon_requests split: option.splits prod.splits if_splits)

definition may_answer :: "'s libs \<Rightarrow> exec_env \<Rightarrow> 's executor \<Rightarrow> tx \<Rightarrow> string \<Rightarrow> bool" where
  "may_answer B env ex tx rid \<longleftrightarrow>
     tx_Type tx = TxTypeJoinPlatoon \<and> rid = ee_id env
   \<or> tx_Type tx = TxTypeApproveJoin \<and> (\<exists>approved req p.
       unmarshal (lib_J B) dec_approve (tx_Data tx) = Some (rid, approved)
       \<and> mget (ps_joinRequests (ex_platoon ex)) rid = Some req \<and> jr_Status req = JoinStatusPending
       \<and> snd (GetPlatoon (lib_J B) (lib_L B) (ex_platoon ex) (jr_PlatoonID req)) = Some p \<and> pl_LeaderID p = tx_From tx)"

lemma requests_kept_execute:
  "ps_joinRequests (ex_platoon (fst (executeRegisterIdentity B env ex tx))) = ps_joinRequests (ex_platoon ex)"
  "ps_joinRequests (ex_platoon (fst (executeCreatePlatoon B env ex tx))) = ps_joinRequests (ex_platoon ex)"
  "ps_joinRequests (ex_platoon (fst (executeLeavePlatoon B env ex tx))) = ps_joinRequests (ex_platoon ex)"
  "ps_joinRequests (ex_platoon (fst (executeDissolvePlatoon B env ex tx))) = ps_joinRequests (ex_platoon ex)"
  "ps_joinRequests (ex_platoon (fst (executeAppointValidator B env ex tx))) = ps_joinRequests (ex_platoon ex)"
  "ps_joinRequests (ex_platoon (fst (executeDemoteValidator B env ex tx))) = ps_joinRequests (ex_platoon ex)"
proof -
  show "ps_joinRequests (ex_platoon (fst (executeRegisterIdentity B env ex tx))) = ps_joinRequests (ex_platoon ex)"
    by (auto simp: executeRegisterIdentity_def Let_def split: option.split prod.split sum.split)
  show "ps_joinRequests (ex_platoon (fst (executeCreatePlatoon B env ex tx))) = ps_joinRequests (ex_platoon ex)"
  proof (cases "unmarshal (lib_J B) dec_create (tx_Data tx)")
    case (Some cp)
    define pp where "pp = \<lparr>MaxVehicles = cp_MaxSize cp, TargetSpeed = cp_TargetSpeed cp,
      SafeDistance = cp_SafeDistance cp, LaneID = 0, RouteID = [], EmergencyMode = False\<rparr>"
    obtain s r where c: "CreatePlatoon (lib_J B) (lib_L B) (ee_now env) (ee_id env) (ex_platoon ex) (tx_From tx) pp
        (cp_Name cp) = (s, r)" by (meson surj_pair)
    then have "ps_joinRequests s = ps_joinRequests (ex_platoon ex)" by (metis fst_conv requests_kept_create)
    then show ?thesis
      by (cases r) (simp_all add: executeCreatePlatoon_def Some c [unfolded pp_def] Let_def requests_kept_appoint_all)
  qed (simp add: executeCreatePlatoon_def)
  show "ps_joinRequests (ex_platoon (fst (executeLeavePlatoon B env ex tx))) = ps_joinRequests (ex_platoon ex)"
    by (simp add: executeLeavePlatoon_def requests_kept_leave split: option.split)
  show "ps_joinRequests (ex_platoon (fst (executeDissolvePlatoon B env ex tx))) = ps_joinRequests (ex_platoon ex)"
    by (auto simp: executeDissolvePlatoon_def requests_kept_disband dest!: GetPlatoon_requests
        split: option.split prod.split)
  show "ps_joinRequests (ex_platoon (fst (executeAppointValidator B env ex tx))) = ps_joinRequests (ex_platoon ex)"
    by (auto simp: executeAppointValidator_def requests_kept_appoint split: option.split prod.split)
  show "ps_joinRequests (ex_platoon (fst (executeDemoteValidator B env ex tx))) = ps_joinRequests (ex_platoon ex)"
    by (auto simp: executeDemoteValidator_def requests_kept_demote split: option.split prod.split)
qed

lemma ExecuteTransaction_requests:
  assumes "mget (ps_joinRequests (ex_platoon (fst (ExecuteTransaction B env ex tx)))) rid
    \<noteq> mget (ps_joinRequests (ex_platoon ex)) rid"
  shows "may_answer B env ex tx rid"
proof -
  from assms consider
      (joins) "tx_Type tx = TxTypeJoinPlatoon" "ExecuteTransaction B env ex tx = executeJoinPlatoon B env ex tx"
    | (answers) "tx_Type tx = TxTypeApproveJoin" "ExecuteTransaction B env ex tx = executeApproveJoin B env ex tx"
    by (simp add: ExecuteTransaction_def Let_def requests_kept_execute split: if_splits)
  then show ?thesis
  proof cases
    case joins
    from assms obtain pd where pd: "unmarshal (lib_J B) (dec_two_strings ''platoon_id'' ''destination'') (tx_Data tx) = Some pd"
      by (cases "unmarshal (lib_J B) (dec_two_strings ''platoon_id'' ''destination'') (tx_Data tx)")
        (simp_all add: joins executeJoinPlatoon_def)
    obtain s r where j: "SubmitJoinRequest (lib_J B) (lib_L B) (ee_now env) (ee_id env) (ex_platoon ex) (fst pd)
        (tx_From tx) (snd pd) = (s, r)" by (meson surj_pair)
    with assms have "mget (ps_joinRequests s) rid \<noteq> mget (ps_joinRequests (ex_platoon ex)) rid"
      by (cases r) (simp_all add: joins executeJoinPlatoon_def pd split_beta)
    with j have "rid = ee_id env" by (metis SubmitJoinRequest_requests fst_conv)
    with joins show ?thesis by (simp add: may_answer_def)
  next
    case answers
    from assms obtain ra where ra: "unmarshal (lib_J B) dec_approve (tx_Data tx) = Some ra"
      by (cases "unmarshal (lib_J B) dec_approve (tx_Data tx)") (simp_all add: answers executeApproveJoin_def)
    with assms ProcessJoinRequest_requests [of "lib_J B" "lib_L B" "ee_now env" "ex_platoon ex" "fst ra" "snd ra" "tx_From tx" rid]
    have "rid = fst ra \<and> (\<exists>req p. mget (ps_joinRequests (ex_platoon ex)) (fst ra) = Some req
        \<and> jr_Status req = JoinStatusPending
        \<and> snd (GetPlatoon (lib_J B) (lib_L B) (ex_platoon ex) (jr_PlatoonID req)) = Some p \<and> pl_LeaderID p = tx_From tx)"
      by (simp add: answers executeApproveJoin_def split_beta)
    with answers(1) ra show ?thesis unfolding may_answer_def by (cases ra) auto
  qed
qed

section \<open>Blocks\<close>

lemma execute_all_append:
  "execute_all B envs i (xs @ ys) ex = execute_all B envs (i + length xs) ys (execute_all B envs i xs ex)"
  by (induction xs arbitrary: i ex) simp_all

text \<open>An unused identifier that is not the one drawn stays unused.\<close>

lemma ExecuteTransaction_unused:
  assumes "db_spec (lib_L B) contents" and "json_ok (lib_J B)" and "svc_ok (lib_J B) contents (ex_platoon ex)"
    and "mget (ps_platoons (ex_platoon ex)) (ee_id env) = None" and "k \<noteq> ee_id env"
    and "snd (GetPlatoon (lib_J B) (lib_L B) (ex_platoon ex) k) = None"
  shows "snd (GetPlatoon (lib_J B) (lib_L B) (ex_platoon (fst (ExecuteTransaction B env ex tx))) k) = None"
proof -
  have "\<not> may_change B env ex tx k" using assms(5,6) by (simp add: may_change_def)
  with ExecuteTransaction_alone [OF assms(4), of B contents tx] assms(1-3,6) show ?thesis by (simp add: answers_kept_def)
qed

lemma unused_not_held: "snd (GetPlatoon J L s pid) = None \<Longrightarrow> mget (ps_platoons s) pid = None"
  by (cases "mget (ps_platoons s) pid") (simp_all add: GetPlatoon_def)

lemma execute_all_sound:
  assumes "db_spec (lib_L B) contents" and "json_ok (lib_J B)" and "svc_ok (lib_J B) contents (ex_platoon ex)"
    and "inj_on (\<lambda>j. ee_id (envs j)) {i..<i + length txs}"
    and "\<forall>j \<in> {i..<i + length txs}. snd (GetPlatoon (lib_J B) (lib_L B) (ex_platoon ex) (ee_id (envs j))) = None"
  shows "exec_sound B contents ex (execute_all B envs i txs ex)"
  using assms(3-5)
proof (induction txs arbitrary: i ex)
  case (Cons tx txs)
  let ?ex = "fst (ExecuteTransaction B (envs i) ex tx)"
  have free: "mget (ps_platoons (ex_platoon ex)) (ee_id (envs i)) = None"
    using Cons.prems(3) by (intro unused_not_held [of "lib_J B" "lib_L B"]) simp
  note first = ExecuteTransaction_sound [OF assms(1,2) free, of tx]
  have "exec_sound B contents ?ex (execute_all B envs (Suc i) txs ?ex)"
  proof (rule Cons.IH)
    show "svc_ok (lib_J B) contents (ex_platoon ?ex)" using first Cons.prems(1) by (simp add: exec_sound_def sound_def)
    show "inj_on (\<lambda>j. ee_id (envs j)) {Suc i..<Suc i + length txs}"
      using Cons.prems(2) by (rule inj_on_subset) auto
    show "\<forall>j \<in> {Suc i..<Suc i + length txs}. snd (GetPlatoon (lib_J B) (lib_L B) (ex_platoon ?ex) (ee_id (envs j))) = None"
    proof
      fix j assume j: "j \<in> {Suc i..<Suc i + length txs}"
      then have "ee_id (envs j) \<noteq> ee_id (envs i)" using Cons.prems(2) by (auto dest: inj_onD)
      with j show "snd (GetPlatoon (lib_J B) (lib_L B) (ex_platoon ?ex) (ee_id (envs j))) = None"
        using Cons.prems(1,3) by (intro ExecuteTransaction_unused [OF assms(1,2) _ free]) auto
    qed
  qed
  from exec_sound_trans [OF first this] show ?case by simp
qed simp

section \<open>Dissolving\<close>

text \<open>Whether or not the store takes the change, the platoon is dissolved in memory.\<close>

lemma DissolvePlatoon_dissolves:
  assumes "GetPlatoon J L s pid = (s1, Some p)"
  shows "\<exists>p'. mget (ps_platoons (fst (DissolvePlatoon J L now s pid reason))) pid = Some p'
    \<and> pl_Status p' = PlatoonStatusDissolved \<and> pl_LeaderID p' = pl_LeaderID p \<and> ids p' = ids p"
proof (cases "pl_Status p = PlatoonStatusDissolved")
  case True
  with GetPlatoon_in_map [OF assms] show ?thesis by (simp add: DissolvePlatoon_def assms)
next
  case False
  let ?p = "p\<lparr>pl_Status := PlatoonStatusDissolved, pl_DissolvedAt := now, pl_UpdatedAt := now\<rparr>"
  obtain s2 e where st: "storePlatoon J L (put_platoon s1 pid ?p) ?p = (s2, e)" by (meson surj_pair)
  then have "mget (ps_platoons s2) pid = Some ?p" using storePlatoon_frame [OF st] by (simp add: put_platoon_def)
  with False st show ?thesis by (cases e) (simp_all add: DissolvePlatoon_def assms Let_def)
qed

section \<open>Joining and approving\<close>

lemma SubmitJoinRequest_accepts:
  assumes "mget (ps_platoons s) pid = Some p" and "IsActive p \<or> pl_Status p = PlatoonStatusForming"
    and "v \<notin> set (ids p)" and "\<not> IsBlacklisted p v" and "int (GetMemberCount p) < MaxVehicles (pl_Params p)"
  shows "SubmitJoinRequest J L now rid s pid v dest =
    (put_request s rid \<lparr>jr_ID = rid, jr_PlatoonID = pid, jr_VehicleID = v, jr_Destination = dest,
       jr_RequestedAt = now, jr_Status = JoinStatusPending, jr_ProcessedAt = 0, jr_ProcessedBy = 0\<rparr>,
     Inr \<lparr>jr_ID = rid, jr_PlatoonID = pid, jr_VehicleID = v, jr_Destination = dest,
       jr_RequestedAt = now, jr_Status = JoinStatusPending, jr_ProcessedAt = 0, jr_ProcessedBy = 0\<rparr>)"
  using assms by (auto simp: SubmitJoinRequest_def GetPlatoon_def HasMember_iff put_request_def Let_def)

lemma AddMember_possible:
  assumes "v \<notin> set (ids p)" and "\<not> IsBlacklisted p v" and "int (GetMemberCount p) < MaxVehicles (pl_Params p)"
  shows "snd (AddMember now p v role) = None"
  using assms by (auto simp: AddMember_def HasMember_iff GetMemberCount_def)

lemma approve_admits:
  assumes "mget (ps_joinRequests s) rid = Some req" and "jr_Status req = JoinStatusPending"
    and "mget (ps_platoons s) (jr_PlatoonID req) = Some p" and "pl_LeaderID p = proc"
    and "snd (AddMember now p (jr_VehicleID req) RoleValidator) = None"
  shows "mget (ps_platoons (fst (ProcessJoinRequest J L now s rid True proc))) (jr_PlatoonID req)
    = Some (admitted now p (jr_VehicleID req))"
proof -
  have g: "GetPlatoon J L s (jr_PlatoonID req) = (s, Some p)" using assms(3) by (simp add: GetPlatoon_def)
  obtain s3 e where st: "storePlatoon J L (put_platoon (put_request s rid (req\<lparr>jr_ProcessedAt := now,
      jr_ProcessedBy := proc, jr_Status := JoinStatusApproved\<rparr>)) (jr_PlatoonID req)
      (admitted now p (jr_VehicleID req))) (admitted now p (jr_VehicleID req)) = (s3, e)" by (meson surj_pair)
  from ProcessJoinRequest_admits [OF assms(1,2) g assms(4,5) st] storePlatoon_frame [OF st] show ?thesis
    by (cases e) simp_all
qed

lemma ProcessJoinRequest_by_leader:
  assumes "snd (ProcessJoinRequest J L now s rid approved proc) = None"
  shows "\<exists>req p. mget (ps_joinRequests s) rid = Some req \<and> jr_Status req = JoinStatusPending
    \<and> snd (GetPlatoon J L s (jr_PlatoonID req)) = Some p \<and> pl_LeaderID p = proc"
proof -
  obtain req where req: "mget (ps_joinRequests s) rid = Some req" "jr_Status req = JoinStatusPending"
    using assms by (auto simp: ProcessJoinRequest_def split: option.splits if_splits)
  obtain s1 r where g: "GetPlatoon J L s (jr_PlatoonID req) = (s1, r)" by (meson surj_pair)
  with assms req show ?thesis by (auto simp: ProcessJoinRequest_def split: option.splits if_splits)
qed

lemma built_join:
  assumes "json_ok (lib_J B)"
  shows "ExecuteTransaction B env ex (snd (BuildJoinPlatoonTx C (lib_J B) now b v pid dest)) =
    (case SubmitJoinRequest (lib_J B) (lib_L B) (ee_now env) (ee_id env) (ex_platoon ex) pid v dest of
       (s, Inl e) \<Rightarrow> (ex\<lparr>ex_platoon := s\<rparr>, Some (SubmitFailed e))
     | (s, Inr r) \<Rightarrow> (ex\<lparr>ex_platoon := s\<rparr>, None))"
  by (simp add: ExecuteTransaction_def BuildJoinPlatoonTx_def build_tx_def exec_type_defs Let_def zero_tx_def
      executeJoinPlatoon_def assms dec_two_strings_def dec_fields_def jget_def)

lemma built_approve:
  assumes "json_ok (lib_J B)"
  shows "ExecuteTransaction B env ex (snd (BuildApproveJoinTx C (lib_J B) now b a rid approved)) =
    platoon_call ApproveFailed ex (ProcessJoinRequest (lib_J B) (lib_L B) (ee_now env) (ex_platoon ex) rid approved a)"
  by (simp add: ExecuteTransaction_def BuildApproveJoinTx_def build_tx_def exec_type_defs Let_def zero_tx_def
      executeApproveJoin_def assms dec_approve_def dec_fields_def jget_def)

section \<open>Properties\<close>

text \<open>
  C18. Executing a block runs its transactions one after the other, each once, and keeps the services well formed:
  from the first transaction to the last, and after one that failed, every platoon, in memory and in the store,
  keeps the platoon invariant and moves only along its life cycle, every identity keeps the identity invariant, and
  a revoked certificate stays revoked. The identifiers that the node draws during the block are assumed to be
  pairwise different and unused.
\<close>

theorem execution_keeps_services:
  assumes "db_spec (lib_L B) contents" and "json_ok (lib_J B)"
    and "svc_ok (lib_J B) contents (ex_platoon ex)"
    and "ids_ok (lib_C B) (lib_J B) (lib_X B) contents (ex_identity ex)"
    and "txs = blk_Transactions block" and "ExecuteBlock B envs ex block = (ex', r)"
    and "inj_on (\<lambda>i. ee_id (envs i)) {..<length txs}"
    and "\<forall>i < length txs. snd (GetPlatoon (lib_J B) (lib_L B) (ex_platoon ex) (ee_id (envs i))) = None"
  shows "r = None \<and> (\<exists>at. at 0 = ex \<and> at (length txs) = ex'
    \<and> (\<forall>i < length txs. at (Suc i) = fst (ExecuteTransaction B (envs i) (at i) (txs ! i)))
    \<and> (\<forall>i \<le> length txs. svc_ok (lib_J B) contents (ex_platoon (at i))
        \<and> ids_ok (lib_C B) (lib_J B) (lib_X B) contents (ex_identity (at i))
        \<and> (\<forall>pid p. mget (ps_platoons (ex_platoon ex)) pid = Some p \<longrightarrow>
            (\<exists>p'. mget (ps_platoons (ex_platoon (at i))) pid = Some p' \<and> status_step\<^sup>*\<^sup>* (pl_Status p) (pl_Status p')))
        \<and> (\<forall>sn. revoked_for_good (lib_J B) contents (ex_identity ex) sn \<longrightarrow>
            revoked_for_good (lib_J B) contents (ex_identity (at i)) sn)))"
proof -
  define at where "at i = execute_all B envs 0 (take i txs) ex" for i
  have "at (length txs) = ex'" and "r = None" using assms(5,6) by (simp_all add: ExecuteBlock_def at_def)
  moreover have "at 0 = ex" by (simp add: at_def)
  moreover have "at (Suc i) = fst (ExecuteTransaction B (envs i) (at i) (txs ! i))" if "i < length txs" for i
    using that by (simp add: at_def take_Suc_conv_app_nth execute_all_append)
  moreover have "exec_sound B contents ex (at i)" if "i \<le> length txs" for i
    unfolding at_def using assms(7,8) that
    by (intro execute_all_sound [OF assms(1-3)]) (auto elim!: inj_on_subset)
  ultimately show ?thesis
    using assms(3,4) by (intro conjI exI [of _ at]) (auto simp: exec_sound_def sound_def evolves_def id_keeps_def)
qed

definition demo_libs :: "(bytes \<rightharpoonup> bytes) libs" where
  "demo_libs = \<lparr>lib_C = demo_crypto, lib_J = demo_json, lib_X = demo_x509, lib_L = map_db\<rparr>"

definition demo_exec :: "(bytes \<rightharpoonup> bytes) executor" where
  "demo_exec = NewExecutor demo_platoons demo_identities NewStateService"

lemma demo_libs_ok: "db_spec (lib_L demo_libs) (\<lambda>s. s)" "json_ok (lib_J demo_libs)"
  by (simp_all add: demo_libs_def map_db_spec demo_json_ok)

definition demo_exec_block :: block where
  "demo_exec_block = \<lparr>blk_Header = zero_header, blk_Transactions =
     [demo_tx, snd (BuildDissolvePlatoonTx demo_crypto demo_json 5 \<lparr>tb_nonce = 0\<rparr> 1 ''p'')]\<rparr>"

lemma demo_unused: "pid \<noteq> ''p'' \<Longrightarrow> snd (GetPlatoon demo_json map_db demo_platoons pid) = None"
  by (simp add: GetPlatoon_answer [OF map_db_spec] demo_platoons_def)

theorem execution_keeps_services_witness:
  "svc_ok (lib_J demo_libs) (\<lambda>s. s) (ex_platoon (fst (ExecuteBlock demo_libs
     (\<lambda>i. \<lparr>ee_now = 5, ee_id = (if i = 0 then ''x'' else ''y'')\<rparr>) demo_exec demo_exec_block)))"
proof -
  let ?envs = "\<lambda>i :: nat. \<lparr>ee_now = 5, ee_id = (if i = 0 then ''x'' else ''y'')\<rparr>"
  let ?txs = "blk_Transactions demo_exec_block"
  obtain ex' r where e: "ExecuteBlock demo_libs ?envs demo_exec demo_exec_block = (ex', r)" by (meson surj_pair)
  have two: "length ?txs = 2" by (simp add: demo_exec_block_def)
  have inj: "inj_on (\<lambda>i. ee_id (?envs i)) {..<length ?txs}"
    unfolding two by (auto simp: inj_on_def less_2_cases_iff)
  have new: "\<forall>i < length ?txs. snd (GetPlatoon (lib_J demo_libs) (lib_L demo_libs) (ex_platoon demo_exec) (ee_id (?envs i))) = None"
    by (simp add: demo_libs_def demo_exec_def NewExecutor_def demo_unused)
  have ok: "svc_ok (lib_J demo_libs) (\<lambda>s. s) (ex_platoon demo_exec)"
    "ids_ok (lib_C demo_libs) (lib_J demo_libs) (lib_X demo_libs) (\<lambda>s. s) (ex_identity demo_exec)"
    using demo_svc_ok demo_ids_ok by (simp_all add: demo_exec_def NewExecutor_def demo_libs_def)
  from execution_keeps_services [OF demo_libs_ok ok refl e inj new] obtain at where
    "at (length ?txs) = ex'" and "\<forall>i \<le> length ?txs. svc_ok (lib_J demo_libs) (\<lambda>s. s) (ex_platoon (at i))" by blast
  with e show ?thesis by auto
qed

text \<open>
  C12. Every change that a transaction makes was authorised by the platoon's own rules, whether it returns an error or
  not. If the service answers differently about a platoon afterwards, the transaction created that platoon under the
  identifier just drawn; or it approved a pending request to join it and its sender leads it; or it named it in a
  dissolution, an appointment or a demotion and its sender leads it; or its sender left it and was a member. If a
  join request is different afterwards, it was made by a join under the identifier drawn, or answered by the leader
  of the platoon it is for. No other transaction changes a platoon or a request.
\<close>

theorem executed_changes_authorized:
  assumes "db_spec (lib_L B) contents" and "json_ok (lib_J B)" and "svc_ok (lib_J B) contents (ex_platoon ex)"
    and "mget (ps_platoons (ex_platoon ex)) (ee_id env) = None" and "ExecuteTransaction B env ex tx = (ex', r)"
    and "asked = (\<lambda>e pid. snd (GetPlatoon (lib_J B) (lib_L B) (ex_platoon e) pid))"
  shows "(asked ex' pid \<noteq> asked ex pid \<longrightarrow>
      tx_Type tx = TxTypeCreatePlatoon \<and> pid = ee_id env
    \<or> (\<exists>p. asked ex pid = Some p \<and>
         (tx_Type tx = TxTypeApproveJoin \<and> pl_LeaderID p = tx_From tx
          \<and> (\<exists>rid req. unmarshal (lib_J B) dec_approve (tx_Data tx) = Some (rid, True)
               \<and> mget (ps_joinRequests (ex_platoon ex)) rid = Some req \<and> jr_Status req = JoinStatusPending
               \<and> jr_PlatoonID req = pid)
        \<or> tx_Type tx = TxTypeDissolvePlatoon \<and> pl_LeaderID p = tx_From tx
          \<and> (\<exists>reason. unmarshal (lib_J B) (dec_two_strings ''platoon_id'' ''reason'') (tx_Data tx) = Some (pid, reason))
        \<or> (tx_Type tx = TxTypeAppointValidator \<or> tx_Type tx = TxTypeDemoteValidator) \<and> pl_LeaderID p = tx_From tx
          \<and> (\<exists>v. unmarshal (lib_J B) dec_validator_change (tx_Data tx) = Some (pid, v))
        \<or> tx_Type tx = TxTypeLeavePlatoon \<and> HasMember p (tx_From tx)
          \<and> unmarshal (lib_J B) dec_leave (tx_Data tx) = Some pid)))
    \<and> (mget (ps_joinRequests (ex_platoon ex')) rid \<noteq> mget (ps_joinRequests (ex_platoon ex)) rid \<longrightarrow>
      tx_Type tx = TxTypeJoinPlatoon \<and> rid = ee_id env
    \<or> tx_Type tx = TxTypeApproveJoin \<and> (\<exists>approved req p.
        unmarshal (lib_J B) dec_approve (tx_Data tx) = Some (rid, approved)
        \<and> mget (ps_joinRequests (ex_platoon ex)) rid = Some req \<and> jr_Status req = JoinStatusPending
        \<and> asked ex (jr_PlatoonID req) = Some p \<and> pl_LeaderID p = tx_From tx))"
proof -
  have "ex' = fst (ExecuteTransaction B env ex tx)" using assms(5) by simp
  with ExecuteTransaction_alone [OF assms(4), of B contents tx] ExecuteTransaction_requests [of B env ex tx rid] assms(1-3)
  have "asked ex' pid \<noteq> asked ex pid \<longrightarrow> may_change B env ex tx pid"
    and "mget (ps_joinRequests (ex_platoon ex')) rid \<noteq> mget (ps_joinRequests (ex_platoon ex)) rid
      \<longrightarrow> may_answer B env ex tx rid"
    by (auto simp: answers_kept_def assms(6))
  then show ?thesis unfolding may_change_def may_answer_def assms(6) by blast
qed

theorem executed_changes_authorized_witness:
  "\<exists>ex' p. ExecuteTransaction demo_libs \<lparr>ee_now = 5, ee_id = ''n''\<rparr> demo_exec
      (snd (BuildDissolvePlatoonTx demo_crypto demo_json 5 \<lparr>tb_nonce = 0\<rparr> 1 ''p'')) = (ex', None)
    \<and> snd (GetPlatoon demo_json map_db (ex_platoon ex') ''p'') \<noteq> snd (GetPlatoon demo_json map_db demo_platoons ''p'')
    \<and> snd (GetPlatoon demo_json map_db demo_platoons ''p'') = Some p \<and> pl_LeaderID p = 1"
proof -
  let ?tx = "snd (BuildDissolvePlatoonTx demo_crypto demo_json 5 \<lparr>tb_nonce = 0\<rparr> 1 ''p'')"
  let ?env = "\<lparr>ee_now = 5 :: i64, ee_id = ''n''\<rparr>"
  have t: "tx_Type ?tx = TxTypeDissolvePlatoon" "tx_From ?tx = 1"
    and u: "unmarshal demo_json (dec_two_strings ''platoon_id'' ''reason'') (tx_Data ?tx) = Some (''p'', ''leader_requested'')"
    by (simp_all add: BuildDissolvePlatoonTx_def build_tx_def Let_def demo_json_ok dec_two_strings_def dec_fields_def jget_def)
  have g: "GetPlatoon demo_json map_db demo_platoons ''p'' = (demo_platoons, Some demo_platoon)"
    by (simp add: GetPlatoon_def demo_lookup)
  have l: "pl_LeaderID demo_platoon = 1" by (simp add: demo_platoon_def created_def)
  have "snd (Storage_Put map_db st k v) = None" for st k v by (simp add: Storage_Put_def map_db_def)
  then have st: "snd (storePlatoon demo_json map_db z (demo_platoon\<lparr>pl_Status := x, pl_DissolvedAt := y, pl_UpdatedAt := y\<rparr>)) = None" for z x y
    by (simp add: storePlatoon_def marshal_platoon_def demo_platoon_def created_def DefaultPlatoonParams_def split_beta)
  have n: "pl_Status demo_platoon \<noteq> PlatoonStatusDissolved" by (simp add: demo_platoon_def created_def status_defs)
  let ?d = "DissolvePlatoon demo_json map_db 5 demo_platoons ''p'' ''leader_requested''"
  have "snd ?d = None"
    using st [where z = "put_platoon demo_platoons ''p'' (demo_platoon\<lparr>pl_Status := PlatoonStatusDissolved, pl_DissolvedAt := 5, pl_UpdatedAt := 5\<rparr>)"
        and x = PlatoonStatusDissolved and y = 5] n
    by (auto simp: DissolvePlatoon_def g Let_def split: prod.split option.split)
  then have e: "ExecuteTransaction demo_libs ?env demo_exec ?tx = (demo_exec\<lparr>ex_platoon := fst ?d\<rparr>, None)"
    by (simp add: ExecuteTransaction_def t exec_type_defs executeDissolvePlatoon_def u demo_libs_def
        demo_exec_def NewExecutor_def g l platoon_call_def)
  have lib: "lib_J demo_libs = demo_json" "lib_L demo_libs = map_db" "ex_platoon demo_exec = demo_platoons"
    by (simp_all add: demo_libs_def demo_exec_def NewExecutor_def)
  have ok: "svc_ok (lib_J demo_libs) (\<lambda>s. s) (ex_platoon demo_exec)"
    and new: "mget (ps_platoons (ex_platoon demo_exec)) (ee_id ?env) = None"
    using demo_svc_ok by (simp_all add: lib demo_platoons_def)
  have changed: "snd (GetPlatoon demo_json map_db (fst ?d) ''p'') \<noteq> snd (GetPlatoon demo_json map_db demo_platoons ''p'')"
    using DissolvePlatoon_dissolves [OF g, of 5 "''leader_requested''"] n by (auto simp: g) (auto simp: GetPlatoon_def)
  with executed_changes_authorized [OF demo_libs_ok ok new e refl, THEN conjunct1, of "''p''"] t show ?thesis
    by (auto simp: e lib exec_type_defs)
qed

text \<open>
  Replicas that execute the same block diverge: the identifier of a join request is drawn at random
  by each node. A block in which a vehicle asks to join and the leader approves the request by the
  identifier one node has drawn admits the vehicle on that node; on a node that has drawn another
  identifier the approval fails, the vehicle is no member, and both report the block as executed.
\<close>

theorem replicas_diverge:
  assumes "json_ok (lib_J B)" and "mget (ps_platoons (ex_platoon ex)) pid = Some p"
    and "IsActive p \<or> pl_Status p = PlatoonStatusForming" and "v \<notin> set (ids p)" and "\<not> IsBlacklisted p v"
    and "int (GetMemberCount p) < MaxVehicles (pl_Params p)" and "pl_LeaderID p = leader"
    and "mget (ps_joinRequests (ex_platoon ex)) (ee_id (envs 0)) = None" and "ee_id (envs' 0) \<noteq> ee_id (envs 0)"
    and "blk_Transactions block = [snd (BuildJoinPlatoonTx C (lib_J B) now b v pid dest),
      snd (BuildApproveJoinTx C (lib_J B) now b' leader (ee_id (envs 0)) True)]"
    and "ExecuteBlock B envs ex block = (ex1, r1)" and "ExecuteBlock B envs' ex block = (ex2, r2)"
  shows "r1 = None \<and> r2 = None
    \<and> (\<exists>p1. mget (ps_platoons (ex_platoon ex1)) pid = Some p1 \<and> v \<in> set (ids p1))
    \<and> mget (ps_platoons (ex_platoon ex2)) pid = Some p"
proof -
  note sub = SubmitJoinRequest_accepts [OF assms(2-6)]
  have add: "snd (AddMember now' p v RoleValidator) = None" for now'
    by (rule AddMember_possible [OF assms(4-6)])
  let ?req = "\<lambda>e. \<lparr>jr_ID = ee_id e, jr_PlatoonID = pid, jr_VehicleID = v, jr_Destination = dest,
    jr_RequestedAt = ee_now e, jr_Status = JoinStatusPending, jr_ProcessedAt = 0, jr_ProcessedBy = 0\<rparr>"
  let ?s = "\<lambda>e. put_request (ex_platoon ex) (ee_id e) (?req e)"
  have e1: "ex_platoon ex1 = fst (ProcessJoinRequest (lib_J B) (lib_L B) (ee_now (envs 1)) (?s (envs 0)) (ee_id (envs 0)) True leader)"
    using assms(11) by (simp add: ExecuteBlock_def assms(10) built_join [OF assms(1)] built_approve [OF assms(1)] sub)
      (auto simp: platoon_call_def)
  have e2: "ex_platoon ex2 = fst (ProcessJoinRequest (lib_J B) (lib_L B) (ee_now (envs' 1)) (?s (envs' 0)) (ee_id (envs 0)) True leader)"
    using assms(12) by (simp add: ExecuteBlock_def assms(10) built_join [OF assms(1)] built_approve [OF assms(1)] sub)
      (auto simp: platoon_call_def)
  have "mget (ps_platoons (ex_platoon ex1)) pid = Some (admitted (ee_now (envs 1)) p v)"
    unfolding e1 using approve_admits [of "?s (envs 0)" "ee_id (envs 0)" "?req (envs 0)" p leader "ee_now (envs 1)" "lib_J B" "lib_L B"]
      assms(2,7) add by simp
  moreover have "v \<in> set (ids (admitted (ee_now (envs 1)) p v))" using admitted_ids [OF add] by simp
  moreover have "mget (ps_platoons (ex_platoon ex2)) pid = Some p"
    unfolding e2 using assms(2,8,9) by (simp add: ProcessJoinRequest_def)
  ultimately show ?thesis using assms(11,12) by (simp add: ExecuteBlock_def)
qed

theorem replicas_diverge_witness:
  "\<exists>ex1 ex2 block p1. ExecuteBlock demo_libs (\<lambda>_. \<lparr>ee_now = 5, ee_id = ''x''\<rparr>) demo_exec block = (ex1, None)
    \<and> ExecuteBlock demo_libs (\<lambda>_. \<lparr>ee_now = 5, ee_id = ''y''\<rparr>) demo_exec block = (ex2, None)
    \<and> mget (ps_platoons (ex_platoon ex1)) ''p'' = Some p1 \<and> 9 \<in> set (ids p1)
    \<and> mget (ps_platoons (ex_platoon ex2)) ''p'' = Some demo_platoon"
proof -
  let ?block = "\<lparr>blk_Header = zero_header, blk_Transactions =
    [snd (BuildJoinPlatoonTx demo_crypto (lib_J demo_libs) 5 \<lparr>tb_nonce = 0\<rparr> 9 ''p'' []),
     snd (BuildApproveJoinTx demo_crypto (lib_J demo_libs) 5 \<lparr>tb_nonce = 0\<rparr> 1 ''x'' True)]\<rparr>"
  let ?e1 = "\<lambda>_ :: nat. \<lparr>ee_now = 5 :: i64, ee_id = ''x''\<rparr>" and ?e2 = "\<lambda>_ :: nat. \<lparr>ee_now = 5 :: i64, ee_id = ''y''\<rparr>"
  obtain ex1 r1 where a: "ExecuteBlock demo_libs ?e1 demo_exec ?block = (ex1, r1)" by (meson surj_pair)
  obtain ex2 r2 where b: "ExecuteBlock demo_libs ?e2 demo_exec ?block = (ex2, r2)" by (meson surj_pair)
  have p: "mget (ps_platoons (ex_platoon demo_exec)) ''p'' = Some demo_platoon"
    by (simp add: demo_exec_def NewExecutor_def demo_lookup)
  have q: "IsActive demo_platoon \<or> pl_Status demo_platoon = PlatoonStatusForming" "9 \<notin> set (ids demo_platoon)"
    "\<not> IsBlacklisted demo_platoon 9" "int (GetMemberCount demo_platoon) < MaxVehicles (pl_Params demo_platoon)"
    "pl_LeaderID demo_platoon = 1"
    by (simp_all add: demo_platoon_def created_def IsBlacklisted_def GetMemberCount_def DefaultPlatoonParams_def)
  have n: "mget (ps_joinRequests (ex_platoon demo_exec)) (ee_id (?e1 0)) = None"
    by (simp add: demo_exec_def NewExecutor_def demo_platoons_def)
  have d: "ee_id (?e2 0) \<noteq> ee_id (?e1 0)" by simp
  have t: "blk_Transactions ?block = [snd (BuildJoinPlatoonTx demo_crypto (lib_J demo_libs) 5 \<lparr>tb_nonce = 0\<rparr> 9 ''p'' []),
     snd (BuildApproveJoinTx demo_crypto (lib_J demo_libs) 5 \<lparr>tb_nonce = 0\<rparr> 1 (ee_id (?e1 0)) True)]" by simp
  from replicas_diverge [OF demo_libs_ok(2) p q n d t a b] a b show ?thesis by blast
qed

text \<open>
  No transaction ever registers an identity: the executor passes a request without a signature, so
  every register transaction fails, and what the identity service knows of any vehicle and the
  platoons are unchanged.
\<close>

theorem executed_registration_fails:
  assumes "tx_Type tx = TxTypeRegisterIdentity" and "ExecuteTransaction B env ex tx = (ex', r)"
  shows "r \<noteq> None \<and> ex_platoon ex' = ex_platoon ex \<and> is_storage (ex_identity ex') = is_storage (ex_identity ex)
    \<and> snd (GetIdentity (lib_J B) (lib_L B) (ex_identity ex') a) = snd (GetIdentity (lib_J B) (lib_L B) (ex_identity ex) a)"
proof (cases "unmarshal (lib_J B) dec_register (tx_Data tx)")
  case None
  with assms show ?thesis by (auto simp: ExecuteTransaction_def exec_type_defs executeRegisterIdentity_def)
next
  case (Some pc)
  obtain pk cert where pc: "pc = (pk, cert)" by (meson surj_pair)
  obtain s q where g: "GetIdentity (lib_J B) (lib_L B) (ex_identity ex) (tx_From tx) = (s, q)" by (meson surj_pair)
  have same: "is_storage s = is_storage (ex_identity ex)"
    "snd (GetIdentity (lib_J B) (lib_L B) s a) = snd (GetIdentity (lib_J B) (lib_L B) (ex_identity ex) a)"
    using g by (auto simp: GetIdentity_def put_identity_def split: option.splits if_splits)
  have "ex' = ex\<lparr>ex_identity := s\<rparr> \<and> r \<noteq> None"
    using assms Some pc g
    by (auto simp: ExecuteTransaction_def exec_type_defs executeRegisterIdentity_def RegisterVehicle_def
        VerifyRequestSignature_def Let_def split: option.splits)
  with same show ?thesis by simp
qed

theorem executed_registration_fails_witness:
  "snd (ExecuteTransaction demo_libs \<lparr>ee_now = 5, ee_id = ''n''\<rparr> demo_exec
     (snd (BuildRegisterIdentityTx demo_crypto demo_json 5 \<lparr>tb_nonce = 0\<rparr> 1 [1] [2]))) \<noteq> None"
proof -
  let ?tx = "snd (BuildRegisterIdentityTx demo_crypto demo_json 5 \<lparr>tb_nonce = 0\<rparr> 1 [1] [2])"
  have "tx_Type ?tx = TxTypeRegisterIdentity" by (simp add: BuildRegisterIdentityTx_def build_tx_def Let_def)
  from executed_registration_fails [OF this prod.collapse [symmetric]] show ?thesis by blast
qed

text \<open>
  Built transactions execute as they were meant: for every operation of the builder, executing the
  transaction it builds is the call of the service with the builder's arguments and its sender. The
  data of each transaction decodes to exactly the parameters that were encoded.
\<close>

theorem built_transactions_execute:
  assumes "json_ok (lib_J B)" and "fl_finite d" and "fl_finite v" and "- (2 ^ 63) \<le> m" and "m < 2 ^ 63"
  shows "ExecuteTransaction B env ex (snd (BuildLeavePlatoonTx C (lib_J B) now b a pid)) = platoon_call LeaveFailed ex
      (LeavePlatoon (lib_J B) (lib_L B) (ee_now env) (ex_platoon ex) pid a)
    \<and> ExecuteTransaction B env ex (snd (BuildAppointValidatorTx C (lib_J B) now b a pid x)) = platoon_call AppointFailed ex
      (AppointValidator (lib_J B) (lib_L B) (ee_now env) (ex_platoon ex) pid x a)
    \<and> (GetPlatoon (lib_J B) (lib_L B) (ex_platoon ex) pid = (s, Some p) \<longrightarrow> pl_LeaderID p = a \<longrightarrow>
      ExecuteTransaction B env ex (snd (BuildDissolvePlatoonTx C (lib_J B) now b a pid)) = platoon_call DissolveFailed ex
        (DissolvePlatoon (lib_J B) (lib_L B) (ee_now env) s pid ''leader_requested''))
    \<and> unmarshal (lib_J B) dec_create (tx_Data (snd (BuildCreatePlatoonTx C (lib_J B) now b a name d m v vs)))
      = Some \<lparr>cp_Name = name, cp_SafeDistance = d, cp_MaxSize = m, cp_TargetSpeed = v, cp_Validators = vs\<rparr>
    \<and> unmarshal (lib_J B) dec_register (tx_Data (snd (BuildRegisterIdentityTx C (lib_J B) now b a pk cert))) = Some (pk, cert)"
proof (intro conjI impI)
  show "ExecuteTransaction B env ex (snd (BuildLeavePlatoonTx C (lib_J B) now b a pid)) = platoon_call LeaveFailed ex
      (LeavePlatoon (lib_J B) (lib_L B) (ee_now env) (ex_platoon ex) pid a)"
    by (simp add: ExecuteTransaction_def BuildLeavePlatoonTx_def build_tx_def exec_type_defs Let_def
        executeLeavePlatoon_def assms dec_leave_def dec_fields_def jget_def)
  show "ExecuteTransaction B env ex (snd (BuildAppointValidatorTx C (lib_J B) now b a pid x)) = platoon_call AppointFailed ex
      (AppointValidator (lib_J B) (lib_L B) (ee_now env) (ex_platoon ex) pid x a)"
    by (simp add: ExecuteTransaction_def BuildAppointValidatorTx_def build_tx_def exec_type_defs Let_def
        executeAppointValidator_def assms dec_validator_change_def dec_fields_def jget_def)
  show "ExecuteTransaction B env ex (snd (BuildDissolvePlatoonTx C (lib_J B) now b a pid)) = platoon_call DissolveFailed ex
      (DissolvePlatoon (lib_J B) (lib_L B) (ee_now env) s pid ''leader_requested'')"
    if "GetPlatoon (lib_J B) (lib_L B) (ex_platoon ex) pid = (s, Some p)" and "pl_LeaderID p = a"
    using that by (simp add: ExecuteTransaction_def BuildDissolvePlatoonTx_def build_tx_def exec_type_defs Let_def
        executeDissolvePlatoon_def assms dec_two_strings_def dec_fields_def jget_def)
  show "unmarshal (lib_J B) dec_create (tx_Data (snd (BuildCreatePlatoonTx C (lib_J B) now b a name d m v vs)))
      = Some \<lparr>cp_Name = name, cp_SafeDistance = d, cp_MaxSize = m, cp_TargetSpeed = v, cp_Validators = vs\<rparr>"
    using assms(2-5) by (simp add: BuildCreatePlatoonTx_def build_tx_def Let_def assms(1) dec_create_def dec_fields_def jget_def)
  show "unmarshal (lib_J B) dec_register (tx_Data (snd (BuildRegisterIdentityTx C (lib_J B) now b a pk cert))) = Some (pk, cert)"
    by (simp add: BuildRegisterIdentityTx_def build_tx_def Let_def assms(1) dec_register_def dec_fields_def jget_def)
qed

theorem built_transactions_execute_witness:
  "fst (ExecuteTransaction demo_libs \<lparr>ee_now = 5, ee_id = ''n''\<rparr> demo_exec
      (snd (BuildLeavePlatoonTx demo_crypto (lib_J demo_libs) 5 \<lparr>tb_nonce = 0\<rparr> 1 ''p'')))
    = demo_exec\<lparr>ex_platoon := fst (LeavePlatoon demo_json map_db 5 demo_platoons ''p'' 1)\<rparr>"
proof -
  have "fl_finite (Fin 0)" by simp
  from built_transactions_execute [OF demo_libs_ok(2) this this, where m = 0] show ?thesis
    by (simp add: platoon_call_def demo_libs_def demo_exec_def NewExecutor_def)
qed

text \<open>Validators named at creation are never appointed, as they are not members yet.\<close>

lemma appoint_all_no_members:
  assumes "mget (ps_platoons s) pid = Some p" and "pl_LeaderID p = a" and "set (ids p) = {a}" and "a \<in> set (pl_Validators p)"
  shows "appoint_all J L now pid a vs s = s"
proof (induction vs)
  case (Cons v vs)
  have "fst (AppointValidator J L now s pid v a) = s"
    using assms by (auto simp: AppointValidator_def GetPlatoon_def HasMember_iff platoon_IsValidator_iff)
  with Cons show ?case by simp
qed simp

text \<open>A transaction of the type the chain calls a dissolution is executed as a departure.\<close>

lemma chain_dissolve_executes_leave:
  assumes "tx_Type tx = TxTypePlatoonDissolve"
  shows "ExecuteTransaction B env ex tx = executeLeavePlatoon B env ex tx"
  using assms by (simp add: ExecuteTransaction_def exec_type_defs TxTypePlatoonDissolve_def)

end
