(* ===== verification/API.thy ===== *)
theory API
  imports Executor Tx_Pool Chain
begin

text \<open>
  The REST interface (app/api/server.go, auth.go): authentication by JSON web tokens, the handlers over the
  chain, the pool and the services, and the table of routes. gorilla/mux and golang-jwt are parameters:
  which variables a path template gives for a path, and how a token is signed and parsed. A body is one
  JSON text. What is handed to jsonResponse is a value; its JSON text is not modelled. The rate limiter
  is in Rate_Limit; the web socket is in Web_Socket.
\<close>

section \<open>Numbers in a request (package strconv)\<close>

fun digits_value :: "string \<Rightarrow> int \<Rightarrow> int option" where
  "digits_value [] n = Some n"
| "digits_value (c # s) n =
     (let d = (of_char c :: int) - 48 in if 0 \<le> d \<and> d \<le> 9 then digits_value s (10 * n + d) else None)"

definition go_ParseUint :: "string \<Rightarrow> u64 option" where
  "go_ParseUint s =
     (if s = [] then None
      else case digits_value s 0 of None \<Rightarrow> None | Some n \<Rightarrow> if n < 2 ^ 64 then Some (of_int n) else None)"

text \<open>Atoi and ParseInt with the error dropped: zero for a text that is no number, the nearest bound out of range.\<close>

definition go_Atoi :: "string \<Rightarrow> int" where
  "go_Atoi s =
     (let neg = (s \<noteq> [] \<and> hd s = CHR ''-''); t = (if s \<noteq> [] \<and> hd s \<in> {CHR ''-'', CHR ''+''} then tl s else s) in
      if t = [] then 0
      else case digits_value t 0 of
        None \<Rightarrow> 0
      | Some n \<Rightarrow> if neg then max (- (2 ^ 63)) (- n) else min (2 ^ 63 - 1) n)"

section \<open>Authentication\<close>

record claims =
  cl_VehicleID :: string
  cl_Address :: string
  cl_Role :: string
  cl_ExpiresAt :: int
  cl_IssuedAt :: int
  cl_NotBefore :: int
  cl_Issuer :: string
  cl_Subject :: string

text \<open>
  \<open>jwt_parse\<close> gets the key function of the call (the key for a token whose method is an HMAC or not) and
  the time in seconds. \<open>jwt_ok\<close>: a token is accepted with the key it was signed with, while it is valid.
\<close>

record jwt_lib =
  jwt_sign :: "bytes \<Rightarrow> claims \<Rightarrow> string"
  jwt_parse :: "(bool \<Rightarrow> bytes option) \<Rightarrow> int \<Rightarrow> string \<Rightarrow> claims option"

definition jwt_ok :: "jwt_lib \<Rightarrow> bool" where
  "jwt_ok T \<longleftrightarrow> (\<forall>key c keyf now. keyf True = Some key \<longrightarrow>
     jwt_parse T keyf now (jwt_sign T key c) = (if cl_NotBefore c \<le> now \<and> now < cl_ExpiresAt c then Some c else None))"

definition jwtSecret :: bytes where
  "jwtSecret = string_bytes ''v2v-blockchain-secret-key-change-in-production''"

definition tokenExpiration :: int where
  "tokenExpiration = 24 * 3600"

definition GenerateToken :: "jwt_lib \<Rightarrow> int \<Rightarrow> string \<Rightarrow> address \<Rightarrow> string \<Rightarrow> string" where
  "GenerateToken T now vehicleID a role =
     jwt_sign T jwtSecret \<lparr>cl_VehicleID = vehicleID, cl_Address = Address_String a, cl_Role = role,
       cl_ExpiresAt = now + tokenExpiration, cl_IssuedAt = now, cl_NotBefore = now, cl_Issuer = ''v2v-blockchain'',
       cl_Subject = vehicleID\<rparr>"

definition ParseToken :: "jwt_lib \<Rightarrow> int \<Rightarrow> string \<Rightarrow> claims option" where
  "ParseToken T now tokenString = jwt_parse T (\<lambda>hmac. if hmac then Some jwtSecret else None) now tokenString"

record request =
  rq_method :: string
  rq_path :: string
  rq_auth :: string
  rq_query :: "string \<Rightarrow> string"
  rq_body :: bytes
  rq_claims :: "claims option"

text \<open>\<open>strings.SplitN(s, " ", 2)\<close>, and the case-insensitive test of the scheme.\<close>

definition split_scheme :: "string \<Rightarrow> (string \<times> string) option" where
  "split_scheme s =
     (let a = takeWhile (\<lambda>c. c \<noteq> CHR '' '') s in if length a = length s then None else Some (a, drop (Suc (length a)) s))"

definition lower_char :: "char \<Rightarrow> char" where
  "lower_char c = (if 65 \<le> (of_char c :: nat) \<and> (of_char c :: nat) \<le> 90 then char_of ((of_char c :: nat) + 32) else c)"

definition bearer_token :: "string \<Rightarrow> string option" where
  "bearer_token authHeader =
     (case split_scheme authHeader of
        None \<Rightarrow> None
      | Some (scheme, token) \<Rightarrow> if map lower_char scheme \<noteq> ''bearer'' then None else Some token)"

datatype api_error =
    Msg string
  | ChainErr chain_error
  | StoreErr' blockstore_error
  | PoolErr pool_error
  | StateErr state_error

datatype body =
    BError api_error
  | BStatus string
  | BBlock block
  | BBlocks "block list" int int
  | BSubmitted hash
  | BTx tx string
  | BPending "tx list"
  | BPlatoons "platoon list"
  | BPlatoon platoon
  | BMembers "platoon_member list"
  | BHistory "history_entry list"
  | BIdentity identity
  | BNotImplemented string
  | BNodeStatus u64 hash
  | BStats "(string \<times> int) list"
  | BEvents "event list"
  | BSnapshot snapshot
  | BEmpty

record response =
  rs_status :: nat
  rs_body :: body

definition jsonResponse :: "nat \<Rightarrow> body \<Rightarrow> response" where
  "jsonResponse st b = \<lparr>rs_status = st, rs_body = b\<rparr>"

definition errorResponse :: "nat \<Rightarrow> api_error \<Rightarrow> response" where
  "errorResponse st e = jsonResponse st (BError e)"

record 's api_server =
  sv_bc :: "'s blockchain"
  sv_txPool :: txpool
  sv_identity :: "'s identity_service"
  sv_platoon :: "'s platoon_service"
  sv_consensus :: bool
  sv_state :: state_service
  sv_builder :: builder

type_synonym 's handler_reply = "('s api_server \<times> response) outcome option"
type_synonym 's handler_fun = "request \<Rightarrow> 's api_server \<Rightarrow> 's handler_reply"

definition reply :: "'s api_server \<Rightarrow> response \<Rightarrow> 's handler_reply" where
  "reply sv r = Some (Done (sv, r))"

definition authMiddleware :: "jwt_lib \<Rightarrow> int \<Rightarrow> 's handler_fun \<Rightarrow> 's handler_fun" where
  "authMiddleware T now handler r sv =
     (if rq_auth r = [] then reply sv (errorResponse 401 (Msg ''missing authorization header''))
      else case bearer_token (rq_auth r) of
        None \<Rightarrow> reply sv (errorResponse 401 (Msg ''invalid authorization header format''))
      | Some tokenString \<Rightarrow>
          (case ParseToken T now tokenString of
             None \<Rightarrow> reply sv (errorResponse 401 (Msg ''invalid or expired token''))
           | Some c \<Rightarrow> handler (r\<lparr>rq_claims := Some c\<rparr>) sv))"

definition optionalAuthMiddleware :: "jwt_lib \<Rightarrow> int \<Rightarrow> 's handler_fun \<Rightarrow> 's handler_fun" where
  "optionalAuthMiddleware T now handler r sv =
     (if rq_auth r = [] then handler r sv
      else case bearer_token (rq_auth r) of
        None \<Rightarrow> handler r sv
      | Some tokenString \<Rightarrow>
          (case ParseToken T now tokenString of
             None \<Rightarrow> handler r sv
           | Some c \<Rightarrow> handler (r\<lparr>rq_claims := Some c\<rparr>) sv))"

definition GetClaimsFromContext :: "request \<Rightarrow> claims option" where
  "GetClaimsFromContext r = rq_claims r"

definition GetVehicleIDFromContext :: "request \<Rightarrow> string option" where
  "GetVehicleIDFromContext r = map_option cl_VehicleID (rq_claims r)"

definition requireRole :: "string list \<Rightarrow> 's handler_fun \<Rightarrow> 's handler_fun" where
  "requireRole allowedRoles handler r sv =
     (case GetClaimsFromContext r of
        None \<Rightarrow> reply sv (errorResponse 401 (Msg ''unauthorized''))
      | Some c \<Rightarrow> if cl_Role c \<in> set allowedRoles then handler r sv
                  else reply sv (errorResponse 403 (Msg ''forbidden: insufficient permissions'')))"

section \<open>Handlers of the chain\<close>

definition handleHealth :: "'s handler_fun" where
  "handleHealth r sv = reply sv (jsonResponse 200 (BStatus ''healthy''))"

definition handleReady :: "'s handler_fun" where
  "handleReady r sv =
     (if sv_consensus sv then reply sv (jsonResponse 200 (BStatus ''ready''))
      else reply sv (jsonResponse 503 (BStatus ''not ready'')))"

definition handleGetLatestBlock :: "'s libs \<Rightarrow> 's handler_fun" where
  "handleGetLatestBlock B r sv = Some (obind (GetLatestBlock (lib_J B) (lib_L B) (sv_bc sv)) (\<lambda>b.
     Done (sv, case b of Inl e \<Rightarrow> errorResponse 404 (ChainErr e) | Inr block \<Rightarrow> jsonResponse 200 (BBlock block))))"

definition handleGetBlockByHeight :: "'s libs \<Rightarrow> string \<Rightarrow> 's handler_fun" where
  "handleGetBlockByHeight B heightStr r sv =
     (case go_ParseUint heightStr of
        None \<Rightarrow> reply sv (errorResponse 400 (Msg ''invalid height''))
      | Some height \<Rightarrow> Some (obind (GetBlockByHeight (lib_J B) (lib_L B) (sv_bc sv) height) (\<lambda>b.
          Done (sv, case b of Inl e \<Rightarrow> errorResponse 404 (StoreErr' e) | Inr block \<Rightarrow> jsonResponse 200 (BBlock block)))))"

definition handleGetBlockByHash :: "'s libs \<Rightarrow> string \<Rightarrow> 's handler_fun" where
  "handleGetBlockByHash B hashStr r sv =
     (case HexToHash hashStr of
        Inl _ \<Rightarrow> reply sv (errorResponse 400 (Msg ''invalid hash''))
      | Inr h \<Rightarrow> Some (obind (GetBlockByHash (lib_J B) (lib_L B) (sv_bc sv) h) (\<lambda>b.
          Done (sv, case b of Inl e \<Rightarrow> errorResponse 404 (StoreErr' e) | Inr block \<Rightarrow> jsonResponse 200 (BBlock block)))))"

text \<open>The int \<open>offset + limit\<close> wraps.\<close>

definition handleGetBlocks :: "'s libs \<Rightarrow> 's handler_fun" where
  "handleGetBlocks B r sv =
     (let limit = go_Atoi (rq_query r ''limit''); limit = (if limit \<le> 0 \<or> 100 < limit then 20 else limit);
          offset = go_Atoi (rq_query r ''offset''); offset = (if offset < 0 then 0 else offset) in
      case GetLatestBlock (lib_J B) (lib_L B) (sv_bc sv) of
        Blocked \<Rightarrow> Some Blocked
      | Panic \<Rightarrow> Some Panic
      | Done (Inl e) \<Rightarrow> reply sv (errorResponse 500 (ChainErr e))
      | Done (Inr latest) \<Rightarrow>
          let stop = sint (of_int (offset + limit) :: i64);
              height = sint (hdr_Height (blk_Header latest));
              stop = (if height < stop then height else stop) in
          map_option (\<lambda>res. obind res (\<lambda>b. Done (sv, case b of
              Inl e \<Rightarrow> errorResponse 500 (ChainErr e)
            | Inr blocks \<Rightarrow> jsonResponse 200 (BBlocks blocks limit offset))))
            (GetBlocksRange (lib_J B) (lib_L B) (sv_bc sv) (of_int offset) (of_int stop)))"

section \<open>Handlers of the pool\<close>

definition handleSubmitTransaction :: "'s libs \<Rightarrow> int \<Rightarrow> 's handler_fun" where
  "handleSubmitTransaction B now r sv =
     (case unmarshal (lib_J B) dec_tx (rq_body r) of
        None \<Rightarrow> reply sv (errorResponse 400 (Msg ''invalid transaction format''))
      | Some tx \<Rightarrow>
          (case AddTx (lib_C B) now (sv_txPool sv) tx 5 of
             (p, Some e) \<Rightarrow> reply (sv\<lparr>sv_txPool := p\<rparr>) (errorResponse 400 (PoolErr e))
           | (p, None) \<Rightarrow> reply (sv\<lparr>sv_txPool := p\<rparr>) (jsonResponse 201 (BSubmitted (tx_Hash tx)))))"

definition handleGetTransaction :: "'s libs \<Rightarrow> string \<Rightarrow> 's handler_fun" where
  "handleGetTransaction B hashStr r sv =
     (case HexToHash hashStr of
        Inl _ \<Rightarrow> reply sv (errorResponse 400 (Msg ''invalid hash''))
      | Inr h \<Rightarrow>
          (case GetTx (sv_txPool sv) h of
             Some tx \<Rightarrow> reply sv (jsonResponse 200 (BTx tx ''pending''))
           | None \<Rightarrow> Some (obind (GetTransaction (lib_J B) (lib_L B) (sv_bc sv) h) (\<lambda>t.
               Done (sv, case t of Inl e \<Rightarrow> errorResponse 404 (StoreErr' e)
                         | Inr tx \<Rightarrow> jsonResponse 200 (BTx tx ''confirmed''))))))"

definition handleGetPendingTransactions :: "'s handler_fun" where
  "handleGetPendingTransactions r sv =
     (let limit = go_Atoi (rq_query r ''limit''); limit = (if limit \<le> 0 \<or> 100 < limit then 20 else limit) in
      Some (obind (TxPool_GetPending (sv_txPool sv) limit) (\<lambda>(p, txs).
        Done (sv\<lparr>sv_txPool := p\<rparr>, jsonResponse 200 (BPending txs)))))"

section \<open>Handlers of the services\<close>

text \<open>
  \<open>string(p.Status)\<close> converts a number to the one-character string of that code point, not to its name.
  \<open>order\<close> is the order in which Go visits the map of platoons.
\<close>

definition status_string :: "PlatoonStatus \<Rightarrow> string" where
  "status_string st = [char_of (unat st)]"

definition handleGetPlatoons :: "string list \<Rightarrow> 's handler_fun" where
  "handleGetPlatoons order r sv =
     (let status = rq_query r ''status''; platoons = GetAllPlatoons order (sv_platoon sv);
          platoons = (if status \<noteq> [] then filter (\<lambda>p. status_string (pl_Status p) = status) platoons else platoons)
      in reply sv (jsonResponse 200 (BPlatoons platoons)))"

definition handleGetPlatoon :: "'s libs \<Rightarrow> string \<Rightarrow> 's handler_fun" where
  "handleGetPlatoon B platoonID r sv =
     (case GetPlatoon (lib_J B) (lib_L B) (sv_platoon sv) platoonID of
        (s, None) \<Rightarrow> reply (sv\<lparr>sv_platoon := s\<rparr>) (errorResponse 404 (Msg ''platoon not found''))
      | (s, Some p) \<Rightarrow> reply (sv\<lparr>sv_platoon := s\<rparr>) (jsonResponse 200 (BPlatoon p)))"

definition handleGetPlatoonMembers :: "'s libs \<Rightarrow> string \<Rightarrow> 's handler_fun" where
  "handleGetPlatoonMembers B platoonID r sv =
     (case GetPlatoon (lib_J B) (lib_L B) (sv_platoon sv) platoonID of
        (s, None) \<Rightarrow> reply (sv\<lparr>sv_platoon := s\<rparr>) (errorResponse 404 (Msg ''platoon not found''))
      | (s, Some p) \<Rightarrow> reply (sv\<lparr>sv_platoon := s\<rparr>) (jsonResponse 200 (BMembers (pl_Members p))))"

definition handleGetPlatoonHistory :: "string \<Rightarrow> 's handler_fun" where
  "handleGetPlatoonHistory platoonID r sv =
     reply sv (jsonResponse 200 (BHistory (GetPlatoonHistory (sv_platoon sv) platoonID)))"

definition handleGetIdentity :: "'s libs \<Rightarrow> string \<Rightarrow> 's handler_fun" where
  "handleGetIdentity B idStr r sv =
     (case HexToAddress idStr of
        Inl _ \<Rightarrow> reply sv (errorResponse 400 (Msg ''invalid address''))
      | Inr a \<Rightarrow>
          (case GetIdentity (lib_J B) (lib_L B) (sv_identity sv) a of
             (s, None) \<Rightarrow> reply (sv\<lparr>sv_identity := s\<rparr>) (errorResponse 404 (Msg ''identity not found''))
           | (s, Some v) \<Rightarrow> reply (sv\<lparr>sv_identity := s\<rparr>) (jsonResponse 200 (BIdentity v))))"

definition handleListIdentities :: "'s handler_fun" where
  "handleListIdentities r sv = reply sv (jsonResponse 200 (BNotImplemented ''list identities not implemented''))"

text \<open>The error of GetLatestBlock is dropped and the block, nil then, is read.\<close>

definition handleNodeStatus :: "'s libs \<Rightarrow> 's handler_fun" where
  "handleNodeStatus B r sv = Some (obind (GetLatestBlock (lib_J B) (lib_L B) (sv_bc sv)) (\<lambda>b.
     case b of Inl e \<Rightarrow> Panic
     | Inr latest \<Rightarrow> Done (sv, jsonResponse 200 (BNodeStatus (hdr_Height (blk_Header latest)) (hdr_Hash (blk_Header latest))))))"

definition handleNodePeers :: "'s handler_fun" where
  "handleNodePeers r sv = reply sv (jsonResponse 200 (BNotImplemented ''network module not implemented''))"

definition handleNodeStats :: "'s handler_fun" where
  "handleNodeStats r sv = reply sv (jsonResponse 200 (BStats (TxPool_GetStats (sv_txPool sv))))"

definition handleGetStateEvents :: "string \<Rightarrow> 's handler_fun" where
  "handleGetStateEvents entityID r sv =
     (let limit = go_Atoi (rq_query r ''limit''); limit = (if limit \<le> 0 then 50 else limit) in
      reply sv (jsonResponse 200 (BEvents (GetEvents (sv_state sv) entityID limit))))"

definition handleGetStateHistory :: "i64 \<Rightarrow> string \<Rightarrow> 's handler_fun" where
  "handleGetStateHistory now entityID r sv =
     (let timestamp = of_int (go_Atoi (rq_query r ''timestamp'')); timestamp = (if timestamp = 0 then now else timestamp) in
      Some (obind (GetStateAtTime (sv_state sv) entityID timestamp) (\<lambda>s.
        Done (sv, case s of Inl e \<Rightarrow> errorResponse 404 (StateErr e) | Inr sn \<Rightarrow> jsonResponse 200 (BSnapshot sn)))))"

definition handleGetAuditLogs :: "'s handler_fun" where
  "handleGetAuditLogs r sv = reply sv (jsonResponse 200 (BNotImplemented ''audit logs not implemented''))"

section \<open>Handlers that submit platoon transactions\<close>

text \<open>The common end of the four handlers: the transaction goes to the pool. \<open>now\<close> is the clock of the pool.\<close>

definition submit_built :: "'s libs \<Rightarrow> int \<Rightarrow> int \<Rightarrow> 's api_server \<Rightarrow> builder \<times> tx \<Rightarrow> 's handler_reply" where
  "submit_built B now priority sv built =
     (let sv = sv\<lparr>sv_builder := fst built\<rparr>; tx = snd built in
      case AddTx (lib_C B) now (sv_txPool sv) tx priority of
        (p, Some e) \<Rightarrow> reply (sv\<lparr>sv_txPool := p\<rparr>) (errorResponse 400 (PoolErr e))
      | (p, None) \<Rightarrow> reply (sv\<lparr>sv_txPool := p\<rparr>) (jsonResponse 201 (BSubmitted (tx_Hash tx))))"

definition dec_from :: "address decoder" where
  "dec_from j = dec_fields j (\<lambda>j. jget j ''from'' dec_address 0)"

definition dec_create_request :: "(create_params \<times> address) decoder" where
  "dec_create_request j = dec_fields j (\<lambda>j.
     Option.bind (dec_create j) (\<lambda>c. Option.bind (jget j ''from'' dec_address 0) (\<lambda>a. Some (c, a))))"

definition dec_join_request :: "(address \<times> string) decoder" where
  "dec_join_request j = dec_fields j (\<lambda>j.
     Option.bind (jget j ''from'' dec_address 0) (\<lambda>a.
     Option.bind (jget j ''destination'' dec_string []) (\<lambda>d. Some (a, d))))"

definition handleCreatePlatoon :: "'s libs \<Rightarrow> i64 \<Rightarrow> int \<Rightarrow> 's handler_fun" where
  "handleCreatePlatoon B unixNow now r sv =
     (case unmarshal (lib_J B) dec_create_request (rq_body r) of
        None \<Rightarrow> reply sv (errorResponse 400 (Msg ''invalid request format''))
      | Some (c, from) \<Rightarrow> submit_built B now 10 sv
          (BuildCreatePlatoonTx (lib_C B) (lib_J B) unixNow (sv_builder sv) from (cp_Name c) (cp_SafeDistance c)
             (cp_MaxSize c) (cp_TargetSpeed c) (cp_Validators c)))"

definition handleJoinPlatoon :: "'s libs \<Rightarrow> i64 \<Rightarrow> int \<Rightarrow> string \<Rightarrow> 's handler_fun" where
  "handleJoinPlatoon B unixNow now platoonID r sv =
     (case unmarshal (lib_J B) dec_join_request (rq_body r) of
        None \<Rightarrow> reply sv (errorResponse 400 (Msg ''invalid request format''))
      | Some (from, dest) \<Rightarrow> submit_built B now 8 sv
          (BuildJoinPlatoonTx (lib_C B) (lib_J B) unixNow (sv_builder sv) from platoonID dest))"

definition handleLeavePlatoon :: "'s libs \<Rightarrow> i64 \<Rightarrow> int \<Rightarrow> string \<Rightarrow> 's handler_fun" where
  "handleLeavePlatoon B unixNow now platoonID r sv =
     (case unmarshal (lib_J B) dec_from (rq_body r) of
        None \<Rightarrow> reply sv (errorResponse 400 (Msg ''invalid request format''))
      | Some from \<Rightarrow> submit_built B now 8 sv
          (BuildLeavePlatoonTx (lib_C B) (lib_J B) unixNow (sv_builder sv) from platoonID))"

definition handleDissolvePlatoon :: "'s libs \<Rightarrow> i64 \<Rightarrow> int \<Rightarrow> string \<Rightarrow> 's handler_fun" where
  "handleDissolvePlatoon B unixNow now platoonID r sv =
     (case unmarshal (lib_J B) dec_from (rq_body r) of
        None \<Rightarrow> reply sv (errorResponse 400 (Msg ''invalid request format''))
      | Some from \<Rightarrow> submit_built B now 10 sv
          (BuildDissolvePlatoonTx (lib_C B) (lib_J B) unixNow (sv_builder sv) from platoonID))"

section \<open>Routes and middleware\<close>

datatype endpoint =
    Health | Ready | LatestBlock | BlockByHeight | BlockByHash | Blocks | TransactionByHash | PendingTransactions
  | Platoons | PlatoonById | PlatoonMembers | PlatoonHistory | IdentityById | Identities | NodeStatus | NodePeers
  | NodeStats | StateEvents | StateHistory | AuditLogs | SubmitTransaction | CreatePlatoonTx | JoinPlatoonTx
  | LeavePlatoonTx | DissolvePlatoonTx

datatype guard = Open | OptionalAuth | Authenticated

record route =
  rt_method :: string
  rt_path :: string
  rt_guard :: guard
  rt_endpoint :: endpoint

definition public_route :: "string \<Rightarrow> endpoint \<Rightarrow> route" where
  "public_route path ep = \<lparr>rt_method = ''GET'', rt_path = ''/api/v1'' @ path, rt_guard = OptionalAuth, rt_endpoint = ep\<rparr>"

definition protected_route :: "string \<Rightarrow> endpoint \<Rightarrow> route" where
  "protected_route path ep = \<lparr>rt_method = ''POST'', rt_path = ''/api/v1'' @ path, rt_guard = Authenticated, rt_endpoint = ep\<rparr>"

text \<open>In the order of setupRoutes, without the route of the web socket.\<close>

definition routes :: "route list" where
  "routes =
     [\<lparr>rt_method = ''GET'', rt_path = ''/health'', rt_guard = Open, rt_endpoint = Health\<rparr>,
      \<lparr>rt_method = ''GET'', rt_path = ''/ready'', rt_guard = Open, rt_endpoint = Ready\<rparr>,
      public_route ''/blocks/latest'' LatestBlock,
      public_route ''/blocks/{height}'' BlockByHeight,
      public_route ''/blocks/hash/{hash}'' BlockByHash,
      public_route ''/blocks'' Blocks,
      public_route ''/transactions/{hash}'' TransactionByHash,
      public_route ''/transactions/pending'' PendingTransactions,
      public_route ''/platoons'' Platoons,
      public_route ''/platoons/{id}'' PlatoonById,
      public_route ''/platoons/{id}/members'' PlatoonMembers,
      public_route ''/platoons/{id}/history'' PlatoonHistory,
      public_route ''/identities/{id}'' IdentityById,
      public_route ''/identities'' Identities,
      public_route ''/node/status'' NodeStatus,
      public_route ''/node/peers'' NodePeers,
      public_route ''/node/stats'' NodeStats,
      public_route ''/state/{entity}/events'' StateEvents,
      public_route ''/state/{entity}/history'' StateHistory,
      public_route ''/audit/logs'' AuditLogs,
      protected_route ''/transactions'' SubmitTransaction,
      protected_route ''/platoons'' CreatePlatoonTx,
      protected_route ''/platoons/{id}/join'' JoinPlatoonTx,
      protected_route ''/platoons/{id}/leave'' LeavePlatoonTx,
      protected_route ''/platoons/{id}/dissolve'' DissolvePlatoonTx]"

text \<open>
  mux: the variables of a template for a path, if it matches, and the status of a request that no route
  matches. Routes are tried in the order in which they were added, and middleware runs on a match only. The path of
  a request is the decoded one; a path that mux answers with a redirect to its clean form is left out.
\<close>

record mux_lib =
  mux_match :: "string \<Rightarrow> string \<Rightarrow> (string \<Rightarrow> string) option"
  mux_unmatched :: "string \<Rightarrow> string \<Rightarrow> nat"

fun first_match :: "mux_lib \<Rightarrow> request \<Rightarrow> route list \<Rightarrow> (route \<times> (string \<Rightarrow> string)) option" where
  "first_match M r [] = None"
| "first_match M r (rt # rts) =
     (if rq_method r \<noteq> rt_method rt then first_match M r rts
      else case mux_match M (rt_path rt) (rq_path r) of
        None \<Rightarrow> first_match M r rts
      | Some vars \<Rightarrow> Some (rt, vars))"

text \<open>The clock in nanoseconds and in seconds, and the order of the map of platoons.\<close>

record api_env =
  av_now :: int
  av_unix :: i64
  av_order :: "string list"

definition endpoint_handler :: "'s libs \<Rightarrow> api_env \<Rightarrow> endpoint \<Rightarrow> (string \<Rightarrow> string) \<Rightarrow> 's handler_fun" where
  "endpoint_handler B env ep vars =
     (case ep of
        Health \<Rightarrow> handleHealth
      | Ready \<Rightarrow> handleReady
      | LatestBlock \<Rightarrow> handleGetLatestBlock B
      | BlockByHeight \<Rightarrow> handleGetBlockByHeight B (vars ''height'')
      | BlockByHash \<Rightarrow> handleGetBlockByHash B (vars ''hash'')
      | Blocks \<Rightarrow> handleGetBlocks B
      | TransactionByHash \<Rightarrow> handleGetTransaction B (vars ''hash'')
      | PendingTransactions \<Rightarrow> handleGetPendingTransactions
      | Platoons \<Rightarrow> handleGetPlatoons (av_order env)
      | PlatoonById \<Rightarrow> handleGetPlatoon B (vars ''id'')
      | PlatoonMembers \<Rightarrow> handleGetPlatoonMembers B (vars ''id'')
      | PlatoonHistory \<Rightarrow> handleGetPlatoonHistory (vars ''id'')
      | IdentityById \<Rightarrow> handleGetIdentity B (vars ''id'')
      | Identities \<Rightarrow> handleListIdentities
      | NodeStatus \<Rightarrow> handleNodeStatus B
      | NodePeers \<Rightarrow> handleNodePeers
      | NodeStats \<Rightarrow> handleNodeStats
      | StateEvents \<Rightarrow> handleGetStateEvents (vars ''entity'')
      | StateHistory \<Rightarrow> handleGetStateHistory (av_unix env) (vars ''entity'')
      | AuditLogs \<Rightarrow> handleGetAuditLogs
      | SubmitTransaction \<Rightarrow> handleSubmitTransaction B (av_now env)
      | CreatePlatoonTx \<Rightarrow> handleCreatePlatoon B (av_unix env) (av_now env)
      | JoinPlatoonTx \<Rightarrow> handleJoinPlatoon B (av_unix env) (av_now env) (vars ''id'')
      | LeavePlatoonTx \<Rightarrow> handleLeavePlatoon B (av_unix env) (av_now env) (vars ''id'')
      | DissolvePlatoonTx \<Rightarrow> handleDissolvePlatoon B (av_unix env) (av_now env) (vars ''id''))"

definition recoveryMiddleware :: "'s handler_fun \<Rightarrow> 's handler_fun" where
  "recoveryMiddleware handler r sv =
     (if handler r sv = Some Panic then reply sv (errorResponse 500 (Msg ''internal server error'')) else handler r sv)"

definition corsMiddleware :: "'s handler_fun \<Rightarrow> 's handler_fun" where
  "corsMiddleware handler r sv =
     (if rq_method r = ''OPTIONS'' then reply sv (jsonResponse 200 BEmpty) else handler r sv)"

definition guarded :: "jwt_lib \<Rightarrow> int \<Rightarrow> guard \<Rightarrow> 's handler_fun \<Rightarrow> 's handler_fun" where
  "guarded T now g handler =
     (case g of Open \<Rightarrow> handler | OptionalAuth \<Rightarrow> optionalAuthMiddleware T now handler
      | Authenticated \<Rightarrow> authMiddleware T now handler)"

definition serve :: "'s libs \<Rightarrow> jwt_lib \<Rightarrow> mux_lib \<Rightarrow> api_env \<Rightarrow> 's handler_fun" where
  "serve B T M env r sv =
     (case first_match M r routes of
        None \<Rightarrow> reply sv (jsonResponse (mux_unmatched M (rq_method r) (rq_path r)) BEmpty)
      | Some (rt, vars) \<Rightarrow>
          recoveryMiddleware (corsMiddleware (guarded T (sint (av_unix env)) (rt_guard rt)
            (endpoint_handler B env (rt_endpoint rt) vars))) r sv)"

section \<open>What the handlers leave unchanged\<close>

lemma first_match_sound: "first_match M r rts = Some (rt, vars) \<Longrightarrow> rt \<in> set rts \<and> rt_method rt = rq_method r"
  by (induction rts) (auto split: if_splits option.splits)

lemma reply_iff [simp]: "reply sv x = Some (Done y) \<longleftrightarrow> y = (sv, x)" "reply sv x \<noteq> Some Panic" "reply sv x \<noteq> None"
  by (auto simp: reply_def)

text \<open>An endpoint that takes a POST request, and one whose reply leaves the pending transactions as they are.\<close>

definition posts :: "endpoint \<Rightarrow> bool" where
  "posts ep \<longleftrightarrow> ep \<in> {SubmitTransaction, CreatePlatoonTx, JoinPlatoonTx, LeavePlatoonTx, DissolvePlatoonTx}"

definition reads_only :: "'s handler_fun \<Rightarrow> bool" where
  "reads_only handler \<longleftrightarrow> (\<forall>r sv sv' resp. handler r sv = Some (Done (sv', resp)) \<longrightarrow>
     tp_pending (sv_txPool sv') = tp_pending (sv_txPool sv))"

lemma reads_onlyI:
  "(\<And>r sv sv' resp. handler r sv = Some (Done (sv', resp)) \<Longrightarrow> tp_pending (sv_txPool sv') = tp_pending (sv_txPool sv))
     \<Longrightarrow> reads_only handler"
  by (auto simp: reads_only_def)

lemma obind_same: "obind x (\<lambda>b. Done (sv, f b)) = Done (sv', resp) \<longleftrightarrow> sv' = sv \<and> (\<exists>b. x = Done b \<and> resp = f b)"
  by (cases x) auto

lemma obind_read: "obind x (\<lambda>b. case b of Inl e \<Rightarrow> Panic | Inr v \<Rightarrow> Done (sv, f v)) = Done (sv', resp) \<Longrightarrow> sv' = sv"
  by (cases x) (auto split: sum.splits)

lemma reads_only_chain:
  "reads_only handleHealth" "reads_only handleReady" "reads_only (handleGetLatestBlock B)"
  "reads_only (handleGetBlockByHeight B n)" "reads_only (handleGetBlockByHash B h)" "reads_only (handleGetBlocks B)"
  by (auto intro!: reads_onlyI simp: handleHealth_def handleReady_def handleGetLatestBlock_def handleGetBlockByHeight_def
      handleGetBlockByHash_def handleGetBlocks_def obind_same Let_def
      split: option.splits sum.splits outcome.splits if_splits)

lemma reads_only_pool:
  "reads_only (handleGetTransaction B h)" "reads_only handleGetPendingTransactions" "reads_only handleNodeStats"
proof -
  show "reads_only handleGetPendingTransactions"
    by (auto intro!: reads_onlyI simp: handleGetPendingTransactions_def Let_def TxPool_GetPending_def obind_eq_Done split_beta
        split: if_splits)
qed (auto intro!: reads_onlyI simp: handleGetTransaction_def handleNodeStats_def obind_same split: option.splits sum.splits)

lemma reads_only_services:
  "reads_only (handleGetPlatoons ord)" "reads_only (handleGetPlatoon B i)" "reads_only (handleGetPlatoonMembers B i)"
  "reads_only (handleGetPlatoonHistory i)" "reads_only (handleGetIdentity B i)" "reads_only handleListIdentities"
  "reads_only (handleNodeStatus B)" "reads_only handleNodePeers" "reads_only (handleGetStateEvents e)"
  "reads_only (handleGetStateHistory now e)" "reads_only handleGetAuditLogs"
  by (auto intro!: reads_onlyI dest!: obind_read simp: handleGetPlatoons_def handleGetPlatoon_def handleGetPlatoonMembers_def
      handleGetPlatoonHistory_def handleGetIdentity_def handleListIdentities_def handleNodeStatus_def handleNodePeers_def
      handleGetStateEvents_def handleGetStateHistory_def handleGetAuditLogs_def obind_same Let_def
      split: option.splits sum.splits prod.splits)

lemma endpoint_reads_only: "\<not> posts ep \<Longrightarrow> reads_only (endpoint_handler B env ep vars)"
  by (cases ep) (simp_all add: posts_def endpoint_handler_def reads_only_chain reads_only_pool reads_only_services)

lemma route_guarded: "rt \<in> set routes \<Longrightarrow> posts (rt_endpoint rt) \<Longrightarrow> rt_guard rt = Authenticated \<and> rt_method rt = ''POST''"
  by (auto simp: routes_def public_route_def protected_route_def posts_def)

section \<open>An instance for witnesses\<close>

definition claims_tuple :: "claims \<Rightarrow> string \<times> string \<times> string \<times> int \<times> int \<times> int \<times> string \<times> string" where
  "claims_tuple c = (cl_VehicleID c, cl_Address c, cl_Role c, cl_ExpiresAt c, cl_IssuedAt c, cl_NotBefore c, cl_Issuer c, cl_Subject c)"

lemma claims_tuple_inject: "claims_tuple c = claims_tuple d \<longleftrightarrow> c = d"
  by (cases c; cases d) (simp add: claims_tuple_def)

text \<open>A token is the number of the key and the claims, in unary.\<close>

definition demo_jwt :: jwt_lib where
  "demo_jwt = \<lparr>jwt_sign = (\<lambda>k c. replicate (to_nat (k, claims_tuple c)) CHR ''t''),
     jwt_parse = (\<lambda>keyf now s. case from_nat (length s) of (k, v, a, ro, e, i, n, iss, sub) \<Rightarrow>
       if keyf True = Some k \<and> n \<le> now \<and> now < e
       then Some \<lparr>cl_VehicleID = v, cl_Address = a, cl_Role = ro, cl_ExpiresAt = e, cl_IssuedAt = i, cl_NotBefore = n,
                  cl_Issuer = iss, cl_Subject = sub\<rparr> else None)\<rparr>"

lemma demo_jwt_ok: "jwt_ok demo_jwt"
  by (simp add: jwt_ok_def demo_jwt_def claims_tuple_def)

definition demo_server :: "(bytes \<rightharpoonup> bytes) api_server" where
  "demo_server = \<lparr>sv_bc = demo_bc, sv_txPool = NewTxPool demo_pool_cfg, sv_identity = demo_identities,
     sv_platoon = demo_platoons, sv_consensus = True, sv_state = NewStateService, sv_builder = \<lparr>tb_nonce = 0\<rparr>\<rparr>"

text \<open>A mux for which the template of the dissolution matches every path.\<close>

definition demo_mux :: mux_lib where
  "demo_mux = \<lparr>mux_match = (\<lambda>t p. if t = ''/api/v1/platoons/{id}/dissolve'' then Some (\<lambda>_. ''p'') else None),
     mux_unmatched = (\<lambda>m p. 404)\<rparr>"


lemma bearer_token_prefix: "bearer_token (''Bearer '' @ tok) = Some tok"
proof -
  have "takeWhile (\<lambda>c. c \<noteq> CHR '' '') (''Bearer '' @ tok) = ''Bearer''" by simp
  moreover have "map lower_char ''Bearer'' = ''bearer''" by code_simp
  ultimately show ?thesis by (simp add: bearer_token_def split_scheme_def Let_def)
qed

lemma GetLatestBlock_readable:
  "readable bc \<Longrightarrow> GetLatestBlock J L bc =
     (if bc_latestHeight bc = 0 then Done (Inl NoBlocksInChain)
      else Done (map_sum StoreErr id (BS_GetBlockByHeight J L (bc_store bc) (bc_latestHeight bc))))"
  by (simp add: GetLatestBlock_def with_RLock_readable GetBlockByHeight_def)

lemma GetBlocksRange_zero:
  assumes "db_spec L contents" and "chain_ok C J L contents bc bs" and "readable bc"
    and "contents (bc_store bc) (heightKey 0) = None" and "k \<le> length bs" and "k \<le> 100" and "length bs < 2 ^ 45"
  shows "GetBlocksRange J L bc 0 (of_nat k) = Some (Done (Inl (RangeErr 0 (BlockNotFoundAtHeight 0))))"
proof -
  let ?bc = "bc\<lparr>bc_mu := (bc_mu bc)\<lparr>readers_held := Suc (readers_held (bc_mu bc))\<rparr>\<rparr>"
  have h: "bc_latestHeight bc = of_nat (length bs)" using assms(2) by (simp add: chain_ok_def)
  have u: "unat (of_nat k :: u64) = k" "unat (of_nat (length bs) :: u64) = length bs" using assms(6,7) by simp_all
  have cut: "\<not> (of_nat (length bs) :: u64) < of_nat k" using assms(5) by (simp add: word_less_nat_alt u)
  have "(of_nat k :: u64) + 1 = of_nat (Suc k)" by simp
  moreover have "unat (of_nat (Suc k) :: u64) = Suc k" using assms(6) by (intro unat_of_nat_u64) simp
  ultimately have cap: "make_ptrs_ok (of_nat k - 0 + 1)" using assms(6) by (simp add: make_ptrs_ok_def add.commute)
  have "GetBlockByHeight J L ?bc 0 = Done (Inl (BlockNotFoundAtHeight 0))"
    using assms(3,4) by (simp add: reads_readable BS_GetBlockByHeight_def Storage_Get_spec [OF assms(1)])
  then have "range_loop (GetBlockByHeight J L ?bc) 0 (of_nat k) [] = Some (Done (Inl (RangeErr 0 (BlockNotFoundAtHeight 0))))"
    by (subst range_loop.simps) simp
  with assms(3) cut cap show ?thesis by (simp add: GetBlocksRange_def rw_RLock_def h Let_def)
qed

lemma Dissolve_built:
  "snd (BuildDissolvePlatoonTx C J now b a pid) = tx \<Longrightarrow>
     tx_Signature tx = [] \<and> tx_From tx = a \<and> Transaction_CalculateHash C tx = tx_Hash tx"
  by (auto simp: BuildDissolvePlatoonTx_def build_tx_def zero_tx_def Let_def Transaction_CalculateHash_def Transaction_Serialize_def)

definition demo_request :: request where
  "demo_request = \<lparr>rq_method = ''POST'', rq_path = ''/'', rq_auth = ''Bearer '' @ GenerateToken demo_jwt 5 ''v'' 9 ''member'',
     rq_query = (\<lambda>_. []), rq_body = js_text demo_json (JObj [(''from'', enc_address 1)]), rq_claims = None\<rparr>"

lemma demo_token: "\<exists>c. ParseToken demo_jwt 5 (GenerateToken demo_jwt 5 ''v'' 9 ''member'') = Some c"
  using demo_jwt_ok by (simp add: ParseToken_def GenerateToken_def jwt_ok_def tokenExpiration_def)

lemma demo_bearer: "bearer_token (rq_auth demo_request) = Some (GenerateToken demo_jwt 5 ''v'' 9 ''member'')"
  unfolding demo_request_def request.select_convs by (rule bearer_token_prefix)

lemma demo_from: "unmarshal demo_json dec_from (rq_body demo_request) = Some 1"
  by (simp add: demo_request_def demo_json_ok dec_from_def dec_fields_def jget_def)

lemma demo_found: "GetPlatoon demo_json map_db demo_platoons ''p'' = (demo_platoons, Some demo_platoon)"
  by (simp add: GetPlatoon_def demo_lookup)

lemma demo_leader: "pl_LeaderID demo_platoon = 1"
  by (simp add: demo_platoon_def created_def)

lemma demo_room: "\<not> HasTx (sv_txPool demo_server) h" "int (Size (sv_txPool demo_server)) < pc_MaxSize (tp_config (sv_txPool demo_server))"
  "int (mlen (sender_txs (sv_txPool demo_server) a)) < pc_MaxTxPerAccount (tp_config (sv_txPool demo_server))"
  by (simp_all add: demo_server_def NewTxPool_def HasTx_def Size_def sender_txs_def demo_pool_cfg_def DefaultTxPoolConfig_def)

lemma dissolve_request_accepted:
  assumes "json_ok (lib_J B)" and "unmarshal (lib_J B) dec_from (rq_body r) = Some (pl_LeaderID p)"
    and "bearer_token (rq_auth r) = Some tok" and "ParseToken T now tok = Some c"
    and "snd (BuildDissolvePlatoonTx (lib_C B) (lib_J B) unixNow (sv_builder sv) (pl_LeaderID p) pid) = tx"
    and "\<not> HasTx (sv_txPool sv) (tx_Hash tx)" and "int (Size (sv_txPool sv)) < pc_MaxSize (tp_config (sv_txPool sv))"
    and "int (mlen (sender_txs (sv_txPool sv) (pl_LeaderID p))) < pc_MaxTxPerAccount (tp_config (sv_txPool sv))"
    and "GetPlatoon (lib_J B) (lib_L B) (ex_platoon ex) pid = (s, Some p)"
  shows "\<exists>sv'. authMiddleware T now (handleDissolvePlatoon B unixNow poolNow pid) r sv
      = Some (Done (sv', jsonResponse 201 (BSubmitted (tx_Hash tx))))
    \<and> GetTx (sv_txPool sv') (tx_Hash tx) = Some tx \<and> tx_Signature tx = [] \<and> tx_From tx = pl_LeaderID p
    \<and> ExecuteTransaction B env ex tx = platoon_call DissolveFailed ex
        (DissolvePlatoon (lib_J B) (lib_L B) (ee_now env) s pid ''leader_requested'')"
proof -
  let ?b = "BuildDissolvePlatoonTx (lib_C B) (lib_J B) unixNow (sv_builder sv) (pl_LeaderID p) pid"
  note t = Dissolve_built [OF assms(5)]
  obtain q where a: "AddTx (lib_C B) poolNow (sv_txPool sv) tx 10 = (q, None)"
    and q: "GetTx q (tx_Hash tx) = Some tx"
    using t assms(6-8) by (auto simp: AddTx_def validateTx_def Hash_Equals_def HasTx_def Size_def GetTx_def Let_def)
  have ne: "rq_auth r \<noteq> []" using assms(3) by (auto simp: bearer_token_def split_scheme_def)
  have "authMiddleware T now (handleDissolvePlatoon B unixNow poolNow pid) r sv
      = Some (Done (sv\<lparr>sv_builder := fst ?b, sv_txPool := q\<rparr>, jsonResponse 201 (BSubmitted (tx_Hash tx))))"
    using ne assms(2-5) a
    by (simp add: authMiddleware_def handleDissolvePlatoon_def submit_built_def reply_def Let_def)
  moreover have "ExecuteTransaction B env ex tx = platoon_call DissolveFailed ex
        (DissolvePlatoon (lib_J B) (lib_L B) (ee_now env) s pid ''leader_requested'')"
    unfolding assms(5) [symmetric] using assms(1,9)
    by (simp add: ExecuteTransaction_def BuildDissolvePlatoonTx_def build_tx_def exec_type_defs Let_def
        executeDissolvePlatoon_def dec_two_strings_def dec_fields_def jget_def)
  ultimately show ?thesis using q t by (intro exI conjI) (assumption | simp)+
qed

lemma DissolvePlatoon_stored:
  assumes "GetPlatoon J L s pid = (s1, Some p)" and "pl_Status p \<noteq> PlatoonStatusDissolved" and "storable p"
    and "never_fails L"
  shows "snd (DissolvePlatoon J L now s pid reason) = None"
proof -
  let ?p = "p\<lparr>pl_Status := PlatoonStatusDissolved, pl_DissolvedAt := now, pl_UpdatedAt := now\<rparr>"
  obtain s2 e where st: "storePlatoon J L (put_platoon s1 pid ?p) ?p = (s2, e)" by (meson surj_pair)
  have "snd (Storage_Put L st k v) = None" for st k v
    using assms(4) by (auto simp: Storage_Put_def never_fails_def split: prod.splits) (metis snd_conv)
  moreover have "marshal_platoon J ?p \<noteq> None" using assms(3) by (simp add: marshal_platoon_def storable_def)
  ultimately have "e = None"
    using st by (auto simp: storePlatoon_def split: prod.splits option.splits) (metis snd_conv)+
  with st assms(1,2) show ?thesis by (simp add: DissolvePlatoon_def Let_def)
qed

definition demo_dissolve_tx :: tx where
  "demo_dissolve_tx = snd (BuildDissolvePlatoonTx demo_crypto demo_json 5 \<lparr>tb_nonce = 0\<rparr> 1 ''p'')"

lemma demo_parts: "lib_J demo_libs = demo_json" "lib_C demo_libs = demo_crypto" "lib_L demo_libs = map_db"
    "ex_platoon demo_exec = demo_platoons" "sv_builder demo_server = \<lparr>tb_nonce = 0\<rparr>" "sv_bc demo_server = demo_bc"
  by (simp_all add: demo_libs_def demo_exec_def NewExecutor_def demo_server_def)

lemma demo_from_leader: "unmarshal (lib_J demo_libs) dec_from (rq_body demo_request) = Some (pl_LeaderID demo_platoon)"
  by (simp only: demo_parts demo_from demo_leader)

lemma demo_dissolve_tx_built: "snd (BuildDissolvePlatoonTx (lib_C demo_libs) (lib_J demo_libs) 5 (sv_builder demo_server)
    (pl_LeaderID demo_platoon) ''p'') = demo_dissolve_tx"
  by (simp only: demo_parts demo_leader demo_dissolve_tx_def)

lemma demo_exec_found: "GetPlatoon (lib_J demo_libs) (lib_L demo_libs) (ex_platoon demo_exec) ''p'' = (demo_platoons, Some demo_platoon)"
  unfolding demo_parts by (rule demo_found)

lemma demo_dissolve:
  assumes "ParseToken demo_jwt 5 (GenerateToken demo_jwt 5 ''v'' 9 ''member'') = Some c"
  shows "\<exists>sv'. authMiddleware demo_jwt 5 (handleDissolvePlatoon demo_libs 5 5 ''p'') demo_request demo_server
      = Some (Done (sv', jsonResponse 201 (BSubmitted (tx_Hash demo_dissolve_tx)))) \<and> HasTx (sv_txPool sv') (tx_Hash demo_dissolve_tx)"
proof -
  note d = dissolve_request_accepted [where unixNow = 5 and poolNow = 5 and env = "\<lparr>ee_now = 5, ee_id = []\<rparr>" and ex = demo_exec,
      OF demo_libs_ok(2) demo_from_leader demo_bearer assms demo_dissolve_tx_built demo_room demo_exec_found]
  have "GetTx p h = Some tx \<Longrightarrow> HasTx p h" for p h tx by (auto simp: GetTx_def HasTx_def)
  with d show ?thesis by blast
qed

text \<open>
  C14. Only an authenticated request submits a transaction: whenever serving a request changes the set of
  pending transactions, the request is a POST whose Authorization header carries a token that parses
  under the server's key.
\<close>

theorem api_changes_authenticated:
  assumes "serve B T M env r sv = Some (Done (sv', resp))" and "tp_pending (sv_txPool sv') \<noteq> tp_pending (sv_txPool sv)"
  shows "rq_method r = ''POST'' \<and> (\<exists>tok c. bearer_token (rq_auth r) = Some tok
    \<and> ParseToken T (sint (av_unix env)) tok = Some c)"
proof -
  obtain rt vars where m: "first_match M r routes = Some (rt, vars)"
    using assms by (cases "first_match M r routes") (auto simp: serve_def)
  let ?h = "endpoint_handler B env (rt_endpoint rt) vars"
  let ?g = "guarded T (sint (av_unix env)) (rt_guard rt) ?h"
  have g: "?g r sv = Some (Done (sv', resp))"
    using assms m by (auto simp: serve_def recoveryMiddleware_def corsMiddleware_def split: if_splits)
  have p: "posts (rt_endpoint rt)"
  proof (rule ccontr)
    assume "\<not> posts (rt_endpoint rt)"
    then have "reads_only ?h" by (rule endpoint_reads_only)
    then have "reads_only ?g"
      unfolding guarded_def reads_only_def
      by (cases "rt_guard rt") (auto simp: optionalAuthMiddleware_def authMiddleware_def split: option.splits if_splits)
    with g assms(2) show False by (auto simp: reads_only_def)
  qed
  with m have "rt_guard rt = Authenticated" and "rq_method r = ''POST''"
    using first_match_sound [OF m] route_guarded by force+
  with g assms(2) show ?thesis
    by (auto simp: guarded_def authMiddleware_def split: if_splits option.splits)
qed

theorem api_changes_authenticated_witness:
  "\<exists>sv' resp env. serve demo_libs demo_jwt demo_mux env demo_request demo_server = Some (Done (sv', resp))
     \<and> av_unix env = 5 \<and> rq_method demo_request = ''POST''
     \<and> (\<exists>c. ParseToken demo_jwt 5 (GenerateToken demo_jwt 5 ''v'' 9 ''member'') = Some c)"
proof -
  let ?env = "\<lparr>av_now = 5, av_unix = 5 :: i64, av_order = []\<rparr>" and ?tok = "GenerateToken demo_jwt 5 ''v'' 9 ''member''"
  obtain c where c: "ParseToken demo_jwt 5 ?tok = Some c" using demo_token by blast
  obtain sv' where s: "authMiddleware demo_jwt 5 (handleDissolvePlatoon demo_libs 5 5 ''p'') demo_request demo_server
      = Some (Done (sv', jsonResponse 201 (BSubmitted (tx_Hash demo_dissolve_tx))))"
    and n: "HasTx (sv_txPool sv') (tx_Hash demo_dissolve_tx)"
    using demo_dissolve [OF c] by blast
  have "first_match demo_mux demo_request routes = Some (protected_route ''/platoons/{id}/dissolve'' DissolvePlatoonTx, \<lambda>_. ''p'')"
    by (simp add: routes_def public_route_def protected_route_def demo_mux_def demo_request_def)
  then have r: "serve demo_libs demo_jwt demo_mux ?env demo_request demo_server = Some (Done (sv', jsonResponse 201
      (BSubmitted (tx_Hash demo_dissolve_tx))))"
    using s by (simp add: serve_def recoveryMiddleware_def corsMiddleware_def guarded_def protected_route_def
        endpoint_handler_def) (simp add: demo_request_def)
  have "tp_pending (sv_txPool sv') \<noteq> tp_pending (sv_txPool demo_server)"
    using n demo_room(1) by (auto simp: HasTx_def)
  from api_changes_authenticated [OF r this] r c show ?thesis by (intro exI conjI) auto
qed

text \<open>
  C15. Authentication does not say who acts: with a valid token of any vehicle, a request to dissolve a
  platoon that names its leader as the sender puts an unsigned transaction of the leader into the
  pool, provided the pool has room for it and for one more transaction of the leader and does not hold its hash
  yet. When an executor that knows the platoon executes that transaction, the platoon is dissolved in the platoon
  service; if it was not dissolved before, its parameters are finite and the store takes the write, the execution
  reports no error.
\<close>

theorem anyone_dissolves_a_platoon:
  assumes "json_ok (lib_J B)" and "unmarshal (lib_J B) dec_from (rq_body r) = Some (pl_LeaderID p)"
    and "bearer_token (rq_auth r) = Some tok" and "ParseToken T now tok = Some c"
    and "snd (BuildDissolvePlatoonTx (lib_C B) (lib_J B) unixNow (sv_builder sv) (pl_LeaderID p) pid) = tx"
    and "\<not> HasTx (sv_txPool sv) (tx_Hash tx)" and "int (Size (sv_txPool sv)) < pc_MaxSize (tp_config (sv_txPool sv))"
    and "int (mlen (sender_txs (sv_txPool sv) (pl_LeaderID p))) < pc_MaxTxPerAccount (tp_config (sv_txPool sv))"
    and "GetPlatoon (lib_J B) (lib_L B) (ex_platoon ex) pid = (s, Some p)"
    and "ExecuteTransaction B env ex tx = (ex', e)"
  shows "(\<exists>sv'. authMiddleware T now (handleDissolvePlatoon B unixNow poolNow pid) r sv
      = Some (Done (sv', jsonResponse 201 (BSubmitted (tx_Hash tx))))
    \<and> GetTx (sv_txPool sv') (tx_Hash tx) = Some tx \<and> tx_Signature tx = [] \<and> tx_From tx = pl_LeaderID p)
    \<and> (\<exists>p'. GetPlatoon (lib_J B) (lib_L B) (ex_platoon ex') pid = (ex_platoon ex', Some p')
        \<and> pl_Status p' = PlatoonStatusDissolved \<and> ids p' = ids p)
    \<and> (pl_Status p \<noteq> PlatoonStatusDissolved \<longrightarrow> storable p \<longrightarrow> never_fails (lib_L B) \<longrightarrow> e = None)"
proof -
  note accepted = dissolve_request_accepted [OF assms(1-9), where env = env and poolNow = poolNow]
  let ?d = "DissolvePlatoon (lib_J B) (lib_L B) (ee_now env) s pid ''leader_requested''"
  have ex': "ex' = ex\<lparr>ex_platoon := fst ?d\<rparr>" and e: "e = map_option DissolveFailed (snd ?d)"
    using accepted assms(10) by (auto simp: platoon_call_def)
  have g: "GetPlatoon (lib_J B) (lib_L B) s pid = (s, Some p)"
    using GetPlatoon_in_map [OF assms(9)] by (simp add: GetPlatoon_def)
  obtain p' where "mget (ps_platoons (fst ?d)) pid = Some p'" "pl_Status p' = PlatoonStatusDissolved" "ids p' = ids p"
    using DissolvePlatoon_dissolves [OF g] by blast
  moreover from this have "GetPlatoon (lib_J B) (lib_L B) (fst ?d) pid = (fst ?d, Some p')" by (simp add: GetPlatoon_def)
  moreover have "snd ?d = None" if "pl_Status p \<noteq> PlatoonStatusDissolved" "storable p" "never_fails (lib_L B)"
    using DissolvePlatoon_stored [OF g that] .
  ultimately show ?thesis using accepted by (auto simp: ex' e)
qed

theorem anyone_dissolves_a_platoon_witness:
  "(\<exists>sv'. authMiddleware demo_jwt 5 (handleDissolvePlatoon demo_libs 5 5 ''p'') demo_request demo_server
      = Some (Done (sv', jsonResponse 201 (BSubmitted (tx_Hash demo_dissolve_tx))))
    \<and> tx_Signature demo_dissolve_tx = [] \<and> tx_From demo_dissolve_tx = 1)
    \<and> (\<exists>ex' p'. ExecuteTransaction demo_libs \<lparr>ee_now = 5, ee_id = []\<rparr> demo_exec demo_dissolve_tx = (ex', None)
        \<and> snd (GetPlatoon demo_json map_db (ex_platoon ex') ''p'') = Some p' \<and> pl_Status p' = PlatoonStatusDissolved)"
proof -
  obtain c where c: "ParseToken demo_jwt 5 (GenerateToken demo_jwt 5 ''v'' 9 ''member'') = Some c" using demo_token by blast
  obtain ex' e where e: "ExecuteTransaction demo_libs \<lparr>ee_now = 5, ee_id = []\<rparr> demo_exec demo_dissolve_tx = (ex', e)"
    by (meson surj_pair)
  note d = anyone_dissolves_a_platoon [where unixNow = 5 and poolNow = 5,
      OF demo_libs_ok(2) demo_from_leader demo_bearer c demo_dissolve_tx_built demo_room demo_exec_found e]
  have "pl_Status demo_platoon \<noteq> PlatoonStatusDissolved" "storable demo_platoon" "never_fails (lib_L demo_libs)"
    by (simp_all add: demo_platoon_def created_def status_defs storable_def DefaultPlatoonParams_def never_fails_def
        demo_libs_def map_db_def)
  with d e show ?thesis unfolding demo_leader demo_parts by auto
qed

text \<open>
  A token that the server issues opens the protected handlers for a day and no longer, and the
  handler sees the vehicle the token was issued for.
\<close>

theorem token_valid_for_a_day:
  assumes "jwt_ok T" and "rq_auth r = ''Bearer '' @ GenerateToken T t0 v a role"
  shows "\<exists>c. cl_VehicleID c = v \<and> cl_Address c = Address_String a \<and> cl_Role c = role
    \<and> authMiddleware T now handler r sv =
       (if t0 \<le> now \<and> now < t0 + 24 * 3600 then handler (r\<lparr>rq_claims := Some c\<rparr>) sv
        else reply sv (errorResponse 401 (Msg ''invalid or expired token'')))"
proof -
  let ?c = "\<lparr>cl_VehicleID = v, cl_Address = Address_String a, cl_Role = role, cl_ExpiresAt = t0 + tokenExpiration,
    cl_IssuedAt = t0, cl_NotBefore = t0, cl_Issuer = ''v2v-blockchain'', cl_Subject = v\<rparr>"
  have "ParseToken T now (GenerateToken T t0 v a role) = (if t0 \<le> now \<and> now < t0 + tokenExpiration then Some ?c else None)"
    using assms(1) by (simp add: ParseToken_def GenerateToken_def jwt_ok_def)
  then have "authMiddleware T now handler r sv =
       (if t0 \<le> now \<and> now < t0 + 24 * 3600 then handler (r\<lparr>rq_claims := Some ?c\<rparr>) sv
        else reply sv (errorResponse 401 (Msg ''invalid or expired token'')))"
    using assms(2) bearer_token_prefix [of "GenerateToken T t0 v a role"]
    by (simp add: authMiddleware_def tokenExpiration_def)
  then show ?thesis by (intro exI [of _ ?c]) simp
qed

theorem token_valid_for_a_day_witness:
  "authMiddleware demo_jwt 100000 handleHealth demo_request demo_server
     = reply demo_server (errorResponse 401 (Msg ''invalid or expired token''))"
proof -
  have "rq_auth demo_request = ''Bearer '' @ GenerateToken demo_jwt 5 ''v'' 9 ''member''" by (simp add: demo_request_def)
  from token_valid_for_a_day [OF demo_jwt_ok this, of 100000 handleHealth demo_server] show ?thesis by auto
qed

text \<open>
  What GET /blocks returns, for a stored chain without a block at height 0: nothing but an error for the
  default offset 0 and for an offset beyond the head, and otherwise the blocks from \<open>offset\<close> to
  \<open>offset + limit\<close>, one more than the limit.
\<close>

theorem get_blocks_result:
  assumes "db_spec (lib_L B) contents" and "chain_ok (lib_C B) (lib_J B) (lib_L B) contents (sv_bc sv) bs"
    and "\<not> writer_held (bc_mu (sv_bc sv))" and "contents (bc_store (sv_bc sv)) (heightKey 0) = None"
    and "length bs < 2 ^ 45" and "go_Atoi (rq_query r ''offset'') < 2 ^ 62"
    and "limit = (let n = go_Atoi (rq_query r ''limit'') in if n \<le> 0 \<or> 100 < n then 20 else n)"
    and "offset = max 0 (go_Atoi (rq_query r ''offset''))"
  shows "handleGetBlocks B r sv = reply sv
    (if bs = [] then errorResponse 500 (ChainErr NoBlocksInChain)
     else if offset = 0 then errorResponse 500 (ChainErr (RangeErr 0 (BlockNotFoundAtHeight 0)))
     else if int (length bs) < offset then errorResponse 500 (ChainErr InvalidRange)
     else jsonResponse 200 (BBlocks (take (Suc (min (nat (offset + limit)) (length bs)) - nat offset)
                                      (drop (nat offset - 1) bs)) limit offset))"
proof (cases "bs = []")
  case True
  have r: "readable (sv_bc sv)" using assms(3) by simp
  from True assms(2) have "GetLatestBlock (lib_J B) (lib_L B) (sv_bc sv) = Done (Inl NoBlocksInChain)"
    by (simp add: GetLatestBlock_readable [OF r] chain_ok_def)
  with True show ?thesis by (simp add: handleGetBlocks_def Let_def)
next
  case False
  let ?bc = "sv_bc sv" and ?J = "lib_J B" and ?L = "lib_L B" and ?n = "length bs"
  define stop where "stop = min (offset + limit) (int ?n)"
  have r: "readable ?bc" using assms(3) by simp
  have st: "stored_chain (lib_C B) (bc_config ?bc) ?J ?L contents (bc_store ?bc) bs" and h: "bc_latestHeight ?bc = of_nat ?n"
    using assms(2) by (simp_all add: chain_ok_def)
  have lim: "1 \<le> limit" "limit \<le> 100" using assms(7) by (auto simp: Let_def)
  have off: "0 \<le> offset" "offset < 2 ^ 62" using assms(6,8) by auto
  have pos: "(of_nat ?n :: u64) \<noteq> 0"
    using assms(5) False of_nat_u64_eq [of ?n 0] by simp
  have latest: "GetLatestBlock ?J ?L ?bc = Done (Inr (last bs))"
    using stored_chain_height [OF assms(1) st, of ?n] False pos
    by (simp add: GetLatestBlock_readable [OF r] h last_conv_nth)
  have "entry_ok (lib_C B) (bc_config ?bc) ?J ?L contents (bc_store ?bc) (of_nat ?n) (last bs)"
    using st False unfolding stored_chain_def by (metis Suc_pred' diff_less last_conv_nth length_greater_0_conv zero_less_one)
  then have hl: "hdr_Height (blk_Header (last bs)) = of_nat ?n" by (simp add: entry_ok_def)
  have s1: "sint (of_nat ?n :: u64) = int ?n"
    using assms(5) by (simp add: sint_u64)
  have s2: "sint (of_int (offset + limit) :: i64) = offset + limit"
    using off lim by (subst signed_of_int) (simp add: signed_take_bit_int_eq_self)
  have stop: "(if sint (hdr_Height (blk_Header (last bs))) < sint (of_int (offset + limit) :: i64)
      then sint (hdr_Height (blk_Header (last bs))) else sint (of_int (offset + limit) :: i64)) = stop"
    unfolding hl s1 s2 stop_def by simp
  have l: "(if go_Atoi (rq_query r ''limit'') \<le> 0 \<or> 100 < go_Atoi (rq_query r ''limit'') then 20
      else go_Atoi (rq_query r ''limit'')) = limit" using assms(7) by (simp add: Let_def)
  have o: "(if go_Atoi (rq_query r ''offset'') < 0 then 0 else go_Atoi (rq_query r ''offset'')) = offset"
    using assms(8) by auto
  have eq: "handleGetBlocks B r sv = map_option (\<lambda>res. obind res (\<lambda>b. Done (sv, case b of
              Inl e \<Rightarrow> errorResponse 500 (ChainErr e)
            | Inr blocks \<Rightarrow> jsonResponse 200 (BBlocks blocks limit offset))))
            (GetBlocksRange ?J ?L ?bc (of_int offset) (of_int stop))"
    unfolding handleGetBlocks_def Let_def l o latest outcome.case sum.case by (simp only: stop)
  consider "offset = 0" | "0 < offset" "int ?n < offset" | "0 < offset" "offset \<le> int ?n" using off(1) by linarith
  then show ?thesis
  proof cases
    case 1
    have "nat stop \<le> 100" "nat stop \<le> ?n" "of_int stop = (of_nat (nat stop) :: u64)" using lim 1 by (simp_all add: stop_def)
    then have "GetBlocksRange ?J ?L ?bc 0 (of_int stop) = Some (Done (Inl (RangeErr 0 (BlockNotFoundAtHeight 0))))"
      using GetBlocksRange_zero [OF assms(1-4), of "nat stop"] assms(5) by simp
    with False 1 show ?thesis by (simp add: eq reply_def)
  next
    case 2
    with blocks_range_result [OF assms(1,2,3,5), of "nat offset" "nat stop"] off lim False show ?thesis
      by (simp add: eq reply_def stop_def nat_less_iff)
  next
    case 3
    then have m: "min (nat stop) ?n = min (nat (offset + limit)) ?n" "\<not> nat stop < nat offset" "\<not> Suc ?n < nat offset"
      using lim by (auto simp: stop_def)
    have "GetBlocksRange ?J ?L ?bc (of_int offset) (of_int stop)
        = Some (Done (Inr (take (Suc (min (nat (offset + limit)) ?n) - nat offset) (drop (nat offset - 1) bs))))"
      using blocks_range_result [OF assms(1,2,3,5), of "nat offset" "nat stop"] 3 off lim m assms(5)
      by (simp add: stop_def nat_less_iff)
    with False 3 show ?thesis by (simp add: eq reply_def)
  qed
qed

theorem get_blocks_result_witness:
  "handleGetBlocks demo_libs demo_request demo_server
     = reply demo_server (errorResponse 500 (ChainErr NoBlocksInChain))"
proof -
  have ok: "chain_ok (lib_C demo_libs) (lib_J demo_libs) (lib_L demo_libs) (\<lambda>s. s) (sv_bc demo_server) []"
    using demo_bc_ok unfolding demo_parts .
  have r: "\<not> writer_held (bc_mu (sv_bc demo_server))" "bc_store (sv_bc demo_server) (heightKey 0) = None"
    by (simp_all add: demo_parts demo_bc_def free_lock_def)
  have q: "go_Atoi (rq_query demo_request x) = 0" for x by (simp add: demo_request_def go_Atoi_def)
  show ?thesis
    using get_blocks_result [where r = demo_request and limit = 20 and offset = 0 and contents = "\<lambda>s. s", OF demo_libs_ok(1) ok r] by (simp add: q)
qed

section \<open>Smaller facts\<close>

text \<open>
  The route of the pending transactions is registered after one whose template matches its path; and no
  route takes OPTIONS, so the preflight branch of the CORS middleware is never run.
\<close>

lemma first_match_earlier:
  assumes "rt \<in> set rts" and "rt_method rt = rq_method r" and "mux_match M (rt_path rt) (rq_path r) \<noteq> None"
  shows "\<exists>rt' \<in> set rts. \<exists>vars. first_match M r (rts @ later) = Some (rt', vars)"
  using assms by (induction rts) (auto split: option.split)

lemma pending_route_shadowed:
  assumes "mux_match M ''/api/v1/transactions/{hash}'' (rq_path r) \<noteq> None"
  shows "first_match M r routes \<noteq> Some (public_route ''/transactions/pending'' PendingTransactions, vars)"
proof
  assume p: "first_match M r routes = Some (public_route ''/transactions/pending'' PendingTransactions, vars)"
  let ?rt = "public_route ''/transactions/{hash}'' TransactionByHash"
  have "?rt \<in> set (take 7 routes)" by (simp add: routes_def)
  moreover have "rt_method ?rt = rq_method r" using first_match_sound [OF p] by (simp add: public_route_def)
  moreover have "mux_match M (rt_path ?rt) (rq_path r) \<noteq> None" using assms by (simp add: public_route_def)
  ultimately obtain rt' v where m: "rt' \<in> set (take 7 routes)" "first_match M r (take 7 routes @ drop 7 routes) = Some (rt', v)"
    using first_match_earlier [of ?rt] by blast
  with p have "rt' = public_route ''/transactions/pending'' PendingTransactions" by simp
  with m(1) show False by (auto simp: routes_def public_route_def)
qed

lemma preflight_unmatched: "rq_method r = ''OPTIONS'' \<Longrightarrow> first_match M r routes = None"
  by (simp add: routes_def public_route_def protected_route_def)

text \<open>A filter by the name of a status finds nothing: a status becomes a one-character string.\<close>

lemma status_filter_empty:
  assumes "1 < length (rq_query r ''status'')"
  shows "handleGetPlatoons ord r sv = reply sv (jsonResponse 200 (BPlatoons []))"
proof -
  have "[c] \<noteq> rq_query r ''status''" for c using assms by (metis length_Cons list.size(3) less_irrefl One_nat_def)
  moreover have "rq_query r ''status'' \<noteq> []" using assms by auto
  ultimately show ?thesis by (simp add: handleGetPlatoons_def status_string_def Let_def)
qed

lemma node_status_panics:
  assumes "readable (sv_bc sv)" and "bc_latestHeight (sv_bc sv) = 0"
  shows "handleNodeStatus B r sv = Some Panic"
  using assms by (simp add: handleNodeStatus_def GetLatestBlock_readable)

end
