(* ===== verification/Go_Float.thy ===== *)
theory Go_Float
  imports V2V_Prelude "HOL-Library.Log_Nat"
begin

text \<open>
  Arithmetic of float64 where every result is finite and in the normal range: an operation is the
  exact one on rationals followed by \<open>f64\<close>, the rounding to 53 binary digits with ties to even. What
  the clients use of it is the locale \<open>rounding\<close>.
\<close>

section \<open>Rounding\<close>

text \<open>The exponent of the power of two at or below a positive number.\<close>

definition binade :: "rat \<Rightarrow> int" where
  "binade x = (let (p, q) = quotient_of x; k = int (floorlog 2 (nat p)) - int (floorlog 2 (nat q))
     in if 2 powi k \<le> x then k else k - 1)"

definition round_even :: "rat \<Rightarrow> int" where
  "round_even y = (let n = \<lfloor>y\<rfloor>; d = y - of_int n in
     if d < 1 / 2 then n else if 1 / 2 < d then n + 1 else if even n then n else n + 1)"

definition f64 :: "rat \<Rightarrow> rat" where
  "f64 x = (if x = 0 then 0
     else let u = 2 powi (binade \<bar>x\<bar> - 52); r = of_int (round_even (\<bar>x\<bar> / u)) * u in if x < 0 then - r else r)"

lemma powi_diff: "(2::rat) powi (i - j) = 2 powi i / 2 powi j"
  by (simp add: power_int_diff)

lemma powi_add: "(2::rat) powi (i + j) = 2 powi i * 2 powi j"
  by (simp add: power_int_add)

lemma powi_digits:
  assumes "0 < p" and "2 ^ (a - 1) \<le> nat p" and "nat p < 2 ^ a" and "0 < a"
  shows "(2::rat) powi (int a - 1) \<le> of_int p \<and> of_int p < (2::rat) powi (int a)"
proof -
  have n: "int (nat p) = p" and i: "int a - 1 = int (a - 1)" using assms(1,4) by simp_all
  have "int (2 ^ (a - 1)) \<le> int (nat p)" "int (nat p) < int (2 ^ a)"
    using assms(2,3) by (simp_all only: of_nat_le_iff of_nat_less_iff)
  then have "(of_int (2 ^ (a - 1)) :: rat) \<le> of_int p" "(of_int p :: rat) < of_int (2 ^ a)"
    unfolding n of_int_le_iff of_int_less_iff by (simp_all only: of_nat_power of_nat_numeral)
  then show ?thesis unfolding i power_int_of_nat by (simp only: of_int_power of_int_numeral)
qed

lemma binade_bounds:
  assumes "0 < x"
  shows "2 powi (binade x) \<le> x" and "x < 2 powi (binade x + 1)"
proof -
  obtain p q where pq: "quotient_of x = (p, q)" by (cases "quotient_of x")
  have x: "x = of_int p / of_int q" and q: "0 < q" using pq quotient_of_div quotient_of_denom_pos by blast+
  have p: "0 < p" using assms x q by (simp add: zero_less_divide_iff)
  let ?a = "floorlog 2 (nat p)" and ?b = "floorlog 2 (nat q)"
  have a: "2 ^ (?a - 1) \<le> nat p" "nat p < 2 ^ ?a" "0 < ?a" using p floorlog_bounds [of "nat p" 2]
    by (simp_all add: floorlog_def)
  have b: "2 ^ (?b - 1) \<le> nat q" "nat q < 2 ^ ?b" "0 < ?b" using q floorlog_bounds [of "nat q" 2]
    by (simp_all add: floorlog_def)
  define k where "k = int ?a - int ?b"
  have P: "(2::rat) powi (int ?a - 1) \<le> of_int p" "of_int p < (2::rat) powi (int ?a)"
    and Q: "(2::rat) powi (int ?b - 1) \<le> of_int q" "of_int q < (2::rat) powi (int ?b)"
    using powi_digits [OF p a] powi_digits [OF q b] by blast+
  have "(2::rat) powi (k - 1) = 2 powi (int ?a - 1) / 2 powi (int ?b)"
    unfolding powi_diff [symmetric] by (intro arg_cong [where f = "(powi) 2"]) (simp add: k_def)
  also have "\<dots> \<le> of_int p / of_int q"
    using P Q q p by (intro frac_le) simp_all
  finally have lo: "2 powi (k - 1) \<le> x" by (simp add: x)
  have "of_int p / of_int q < 2 powi (int ?a) / (2::rat) powi (int ?b - 1)"
    using P Q p by (intro frac_less) simp_all
  also have "\<dots> = 2 powi (k + 1)"
    unfolding powi_diff [symmetric] by (intro arg_cong [where f = "(powi) 2"]) (simp add: k_def)
  finally have hi: "x < 2 powi (k + 1)" by (simp add: x)
  have bk: "binade x = (if 2 powi k \<le> x then k else k - 1)" by (simp add: binade_def pq k_def)
  show "2 powi (binade x) \<le> x" "x < 2 powi (binade x + 1)" using lo hi by (auto simp: bk)
qed

lemma round_even_cases: "of_int (round_even y) = (of_int \<lfloor>y\<rfloor> :: rat) \<and> y - of_int \<lfloor>y\<rfloor> \<le> 1 / 2
    \<or> of_int (round_even y) = (of_int \<lfloor>y\<rfloor> + 1 :: rat) \<and> 1 / 2 \<le> y - of_int \<lfloor>y\<rfloor>"
  by (auto simp: round_even_def Let_def)

lemma round_even_bounds: "y - 1 / 2 \<le> of_int (round_even y)" "of_int (round_even y) \<le> y + 1 / 2"
  using round_even_cases [of y] floor_correct [of y] by linarith+

lemma round_even_int [simp]: "round_even (of_int n) = n"
  by (simp add: round_even_def)

lemma round_even_mono:
  assumes "x \<le> y" shows "round_even x \<le> round_even y"
proof (cases "\<lfloor>x\<rfloor> = \<lfloor>y\<rfloor>")
  case True
  with assms show ?thesis by (auto simp: round_even_def Let_def)
next
  case False
  with assms have "\<lfloor>x\<rfloor> + 1 \<le> \<lfloor>y\<rfloor>" using floor_mono [OF assms] by simp
  moreover have "round_even x \<le> \<lfloor>x\<rfloor> + 1" "\<lfloor>y\<rfloor> \<le> round_even y" by (auto simp: round_even_def Let_def)
  ultimately show ?thesis by linarith
qed

section \<open>What the clients use\<close>

lemma f64_zero [simp]: "f64 0 = 0"
  by (simp add: f64_def)

lemma f64_pos:
  assumes "0 < x" defines "u \<equiv> 2 powi (binade x - 52)"
  shows "f64 x = of_int (round_even (x / u)) * u" and "0 < u" and "2 ^ 52 \<le> x / u" and "x / u < 2 ^ 53"
proof -
  show "f64 x = of_int (round_even (x / u)) * u" using assms(1) by (simp add: f64_def u_def Let_def)
  show u: "0 < u" by (simp add: u_def)
  have e: "2 ^ 52 * u = 2 powi (binade x)" "2 ^ 53 * u = 2 powi (binade x + 1)"
    by (simp_all add: u_def powi_diff powi_add)
  show "2 ^ 52 \<le> x / u" "x / u < 2 ^ 53"
    using binade_bounds [OF assms(1)] u unfolding pos_le_divide_eq [OF u] pos_divide_less_eq [OF u] e by blast+
qed

lemma f64_error:
  assumes "0 \<le> x"
  shows "x - x / 2 ^ 53 \<le> f64 x" and "f64 x \<le> x + x / 2 ^ 53"
proof -
  have "x - x / 2 ^ 53 \<le> f64 x \<and> f64 x \<le> x + x / 2 ^ 53"
  proof (cases "x = 0")
    case False
    with assms have x: "0 < x" by simp
    define u where "u = (2::rat) powi (binade x - 52)"
    note f = f64_pos [OF x, folded u_def]
    have "x = x / u * u" using f(2) by simp
    moreover have "(x / u - 1 / 2) * u \<le> f64 x" "f64 x \<le> (x / u + 1 / 2) * u"
      using round_even_bounds [of "x / u"] f(2) unfolding f(1) by (simp_all only: mult_right_mono less_imp_le)
    moreover have "u / 2 \<le> x / 2 ^ 53" using f(2,3) by (simp add: field_simps)
    ultimately show ?thesis by (simp add: algebra_simps)
  qed simp
  then show "x - x / 2 ^ 53 \<le> f64 x" "f64 x \<le> x + x / 2 ^ 53" by blast+
qed

lemma f64_nonneg: "0 \<le> x \<Longrightarrow> 0 \<le> f64 x"
  using f64_error(1) [of x] by (simp add: field_simps)

lemma f64_within: 
  assumes "0 < x" shows "2 powi (binade x) \<le> f64 x" and "f64 x \<le> 2 powi (binade x + 1)"
proof -
  define u where "u = (2::rat) powi (binade x - 52)"
  note f = f64_pos [OF assms, folded u_def]
  have "round_even (of_int (2 ^ 52)) \<le> round_even (x / u)" "round_even (x / u) \<le> round_even (of_int (2 ^ 53))"
    using f(3,4) by (intro round_even_mono; simp)+
  then have r: "2 ^ 52 \<le> round_even (x / u)" "round_even (x / u) \<le> 2 ^ 53" unfolding round_even_int .
  then have "(of_int (2 ^ 52) :: rat) \<le> of_int (round_even (x / u))" "of_int (round_even (x / u)) \<le> (of_int (2 ^ 53) :: rat)"
    by (simp_all only: of_int_le_iff)
  moreover have "2 ^ 52 * u = 2 powi (binade x)" "2 ^ 53 * u = 2 powi (binade x + 1)"
    by (simp_all add: u_def powi_diff powi_add)
  ultimately show "2 powi (binade x) \<le> f64 x" "f64 x \<le> 2 powi (binade x + 1)"
    using f(1,2) mult_right_mono [of _ _ u] by fastforce+
qed

lemma binade_mono:
  assumes "0 < x" and "x \<le> y" shows "binade x \<le> binade y"
proof (rule ccontr)
  assume "\<not> binade x \<le> binade y"
  then have "(2::rat) powi (binade y + 1) \<le> 2 powi (binade x)" by (intro power_int_increasing) simp_all
  with binade_bounds(1) [OF assms(1)] binade_bounds(2) [of y] assms show False by linarith
qed

lemma f64_mono:
  assumes "0 \<le> x" and "x \<le> y" shows "f64 x \<le> f64 y"
proof (cases "x = 0")
  case True
  with assms show ?thesis by (simp add: f64_nonneg)
next
  case False
  with assms have x: "0 < x" and y: "0 < y" by simp_all
  show ?thesis
  proof (cases "binade x = binade y")
    case True
    have "x / 2 powi (binade y - 52) \<le> y / 2 powi (binade y - 52)"
      using assms(2) by (simp add: divide_right_mono)
    then show ?thesis unfolding f64_pos(1) [OF x] f64_pos(1) [OF y] True
      by (simp add: mult_right_mono round_even_mono)
  next
    case False
    then have "(2::rat) powi (binade x + 1) \<le> 2 powi (binade y)"
      using binade_mono [OF x assms(2)] by (intro power_int_increasing) simp_all
    with f64_within(2) [OF x] f64_within(1) [OF y] show ?thesis by linarith
  qed
qed

text \<open>A multiple of the unit of its binade is unchanged; so are the whole numbers of at most 53 digits.\<close>

lemma f64_exact:
  assumes "0 < x" and "x / 2 powi (binade x - 52) = of_int n"
  shows "f64 x = x"
proof -
  have "x = of_int n * 2 powi (binade x - 52)"
    using assms(2) by (simp add: divide_eq_eq)
  then show ?thesis using f64_pos(1) [OF assms(1)] assms(2) by simp
qed

lemma f64_of_int:
  assumes "0 \<le> n" and "n < 2 ^ 53" shows "f64 (of_int n) = of_int n"
proof (cases "n = 0")
  case False
  let ?x = "of_int n :: rat"
  have x: "0 < ?x" using assms(1) False by simp
  have "binade ?x < 53"
  proof (rule ccontr)
    assume "\<not> binade ?x < 53"
    then have "(2::rat) powi 53 \<le> 2 powi (binade ?x)" by (intro power_int_increasing) simp_all
    also have "\<dots> \<le> ?x" by (rule binade_bounds(1) [OF x])
    finally have "(of_int (2 ^ 53) :: rat) \<le> of_int n" by simp
    with assms(2) show False unfolding of_int_le_iff by simp
  qed
  then have e: "binade ?x - 52 = - int (nat (52 - binade ?x))" by simp
  have "of_int n / (2::rat) powi (- int k) = of_int (n * 2 ^ k)" for k
    by (simp add: power_int_minus field_simps)
  then have "?x / 2 powi (binade ?x - 52) = of_int (n * 2 ^ nat (52 - binade ?x))"
    by (subst e)
  then show ?thesis by (rule f64_exact [OF x])
qed simp

section \<open>The interface\<close>

locale rounding =
  fixes rnd :: "rat \<Rightarrow> rat"
  assumes rnd_mono: "0 \<le> x \<Longrightarrow> x \<le> y \<Longrightarrow> rnd x \<le> rnd y"
    and rnd_int: "0 \<le> n \<Longrightarrow> n < 2 ^ 53 \<Longrightarrow> rnd (of_int n) = of_int n"
    and rnd_below: "0 \<le> x \<Longrightarrow> x - x / 2 ^ 53 \<le> rnd x"
    and rnd_above: "0 \<le> x \<Longrightarrow> rnd x \<le> x + x / 2 ^ 53"
begin

lemma rnd_nonneg: "0 \<le> x \<Longrightarrow> 0 \<le> rnd x"
  using rnd_below [of x] by (simp add: field_simps)

lemma rnd_factor: "0 \<le> x \<Longrightarrow> rnd x \<le> x * (1 + 1 / 2 ^ 53)"
  using rnd_above [of x] by (simp only: distrib_left mult_1_right times_divide_eq_right)

lemma rnd_at_most: "0 \<le> x \<Longrightarrow> x \<le> of_int n \<Longrightarrow> n < 2 ^ 53 \<Longrightarrow> rnd x \<le> of_int n"
  using rnd_mono [of x "of_int n"] rnd_int [of n] by (metis of_int_0_le_iff order_trans)

lemma rnd_at_least: "0 \<le> n \<Longrightarrow> of_int n \<le> x \<Longrightarrow> n < 2 ^ 53 \<Longrightarrow> of_int n \<le> rnd x"
  using rnd_mono [of "of_int n" x] rnd_int [of n] by simp

text \<open>
  A bucket of at most \<open>b\<close> tokens that gains \<open>c\<close> and loses one where it holds one: what it hands out and
  keeps exceeds what it had by \<open>c\<close> and two rounding errors of the size of \<open>b\<close>.
\<close>

lemma bucket_step:
  assumes "0 \<le> t" and "0 \<le> c" and "0 \<le> b" and "b < 2 ^ 53"
  defines "t1 \<equiv> min (rnd (t + c)) (of_int b)"
  defines "t2 \<equiv> if 1 \<le> t1 then rnd (t1 - 1) else t1"
  shows "0 \<le> t2" and "t2 \<le> of_int b" and "t2 + (if 1 \<le> t1 then 1 else 0) \<le> min (t + c) (of_int b) + 2 * of_int b / 2 ^ 53"
proof -
  have b: "(0::rat) \<le> of_int b" using assms(3) by simp
  have t1: "0 \<le> t1" "t1 \<le> of_int b" using rnd_nonneg [of "t + c"] assms(1,2) b by (simp_all add: t1_def)
  have gain: "t1 \<le> min (t + c) (of_int b) + of_int b / 2 ^ 53"
  proof (cases "t + c \<le> of_int b")
    case True
    then have "(t + c) / 2 ^ 53 \<le> of_int b / 2 ^ 53" by (simp add: divide_right_mono)
    moreover have "t1 \<le> rnd (t + c)" by (simp add: t1_def)
    ultimately have "t1 \<le> t + c + of_int b / 2 ^ 53" using rnd_above [of "t + c"] assms(1,2) by linarith
    with True show ?thesis by (simp only: min_absorb1)
  next
    case False
    moreover have "(0::rat) \<le> of_int b / 2 ^ 53" using b by simp
    ultimately show ?thesis using t1(2) by (simp add: min_def)
  qed
  have "0 \<le> t2 \<and> t2 \<le> of_int b \<and> t2 + (if 1 \<le> t1 then 1 else 0) \<le> t1 + of_int b / 2 ^ 53"
  proof (cases "1 \<le> t1")
    case True
    have "(t1 - 1) / 2 ^ 53 \<le> of_int b / 2 ^ 53" using t1(2) by (intro divide_right_mono) simp_all
    then have "rnd (t1 - 1) + 1 \<le> t1 + of_int b / 2 ^ 53" using rnd_above [of "t1 - 1"] True by linarith
    moreover have "rnd (t1 - 1) \<le> of_int b" using True t1(2) assms(4) by (intro rnd_at_most) simp_all
    moreover have "t2 = rnd (t1 - 1)" using True by (simp add: t2_def)
    ultimately show ?thesis using True rnd_nonneg [of "t1 - 1"] by simp
  qed (use t1 b in \<open>simp add: t2_def\<close>)
  with gain show "0 \<le> t2" "t2 \<le> of_int b" "t2 + (if 1 \<le> t1 then 1 else 0) \<le> min (t + c) (of_int b) + 2 * of_int b / 2 ^ 53"
    by simp_all
qed

end

interpretation f64: rounding f64
  by unfold_locales (rule f64_mono f64_of_int f64_error; assumption)+

end
