(* ===== verification/Rate_Limit.thy ===== *)
theory Rate_Limit
  imports API Go_Float "HOL-Library.Signed_Division"
begin

text \<open>
  The rate limiter of the REST interface (app/api/ratelimit.go): a token bucket in float64 for each
  client address, the clean-up of idle clients, and the middleware. Instants are monotonic readings in
  nanoseconds and an argument of each call. net.ParseIP, with the text its result prints as, is a parameter.
\<close>

section \<open>Durations and float64\<close>

text \<open>\<open>d.Seconds()\<close>, and the conversion of a float64 to an int64, which drops the fraction.\<close>

definition duration_Seconds :: "int \<Rightarrow> rat" where
  "duration_Seconds d = f64 (f64 (of_int (d sdiv 10 ^ 9)) + f64 (f64 (of_int (d smod 10 ^ 9)) / 10 ^ 9))"

definition go_trunc :: "rat \<Rightarrow> int" where
  "go_trunc x = (if 0 \<le> x then \<lfloor>x\<rfloor> else - \<lfloor>- x\<rfloor>)"

text \<open>\<open>time.Duration(x) * time.Second\<close>, a product of int64 values.\<close>

definition whole_seconds :: "rat \<Rightarrow> int" where
  "whole_seconds x = sint (of_int (go_trunc x) * of_int (10 ^ 9) :: i64)"

section \<open>The limiter\<close>

record client_limiter =
  cl_tokens :: rat
  cl_lastUpdate :: int

record rate_limiter =
  rl_clients :: "(string, client_limiter) fmap"
  rl_requestsPerMinute :: int
  rl_burstSize :: int
  rl_cleanupInterval :: int
  rl_stopClosed :: bool

definition NewRateLimiter :: "int \<Rightarrow> rate_limiter" where
  "NewRateLimiter requestsPerMinute =
     (let n = (if requestsPerMinute \<le> 0 then 1000 else requestsPerMinute) in
      \<lparr>rl_clients = fmempty, rl_requestsPerMinute = n, rl_burstSize = n,
       rl_cleanupInterval = 5 * 60 * 10 ^ 9, rl_stopClosed = False\<rparr>)"

definition RateLimiter_Stop :: "rate_limiter \<Rightarrow> rate_limiter outcome" where
  "RateLimiter_Stop rl = (if rl_stopClosed rl then Panic else Done (rl\<lparr>rl_stopClosed := True\<rparr>))"

text \<open>\<open>t0\<close> is the instant at which a new client is created.\<close>

definition getOrCreateLimiter :: "int \<Rightarrow> rate_limiter \<Rightarrow> string \<Rightarrow> rate_limiter \<times> client_limiter" where
  "getOrCreateLimiter t0 rl ip =
     (case mget (rl_clients rl) ip of
        Some l \<Rightarrow> (rl, l)
      | None \<Rightarrow>
          let l = \<lparr>cl_tokens = f64 (of_int (rl_burstSize rl)), cl_lastUpdate = t0\<rparr>
          in (rl\<lparr>rl_clients := mput (rl_clients rl) ip l\<rparr>, l))"

definition token_rate :: "rate_limiter \<Rightarrow> rat" where
  "token_rate rl = f64 (f64 (of_int (rl_requestsPerMinute rl)) / 60)"

definition allow :: "int \<Rightarrow> int \<Rightarrow> rate_limiter \<Rightarrow> string \<Rightarrow> rate_limiter \<times> bool \<times> int \<times> int" where
  "allow t0 now rl ip =
     (let (rl, l) = getOrCreateLimiter t0 rl ip;
          elapsed = go_time_sub now (cl_lastUpdate l);
          rate = token_rate rl;
          burst = f64 (of_int (rl_burstSize rl));
          tokens = f64 (cl_tokens l + f64 (duration_Seconds elapsed * rate));
          tokens = (if burst < tokens then burst else tokens)
      in if 1 \<le> tokens
         then let tokens = f64 (tokens - 1)
              in (rl\<lparr>rl_clients := mput (rl_clients rl) ip \<lparr>cl_tokens = tokens, cl_lastUpdate = now\<rparr>\<rparr>,
                  True, go_trunc tokens, whole_seconds (f64 (f64 (burst - tokens) / rate)))
         else (rl\<lparr>rl_clients := mput (rl_clients rl) ip \<lparr>cl_tokens = tokens, cl_lastUpdate = now\<rparr>\<rparr>,
               False, 0, whole_seconds (f64 (f64 (1 - tokens) / rate))))"

text \<open>One tick of cleanup: the clients that have been idle for more than ten minutes are deleted.\<close>

definition cleanup_tick :: "int \<Rightarrow> rate_limiter \<Rightarrow> rate_limiter" where
  "cleanup_tick now rl = rl\<lparr>rl_clients := fmfilter (\<lambda>ip. case mget (rl_clients rl) ip of
     None \<Rightarrow> False | Some l \<Rightarrow> \<not> 10 * 60 * 10 ^ 9 < go_time_sub now (cl_lastUpdate l)) (rl_clients rl)\<rparr>"

section \<open>The address of a client\<close>

fun last_colon :: "string \<Rightarrow> nat \<Rightarrow> nat option" where
  "last_colon [] i = None"
| "last_colon (c # s) i =
     (case last_colon s (Suc i) of Some j \<Rightarrow> Some j | None \<Rightarrow> if c = CHR '':'' then Some i else None)"

text \<open>The host that net.SplitHostPort finds in \<open>host:port\<close> or \<open>[host]:port\<close>.\<close>

definition SplitHostPort :: "string \<Rightarrow> string option" where
  "SplitHostPort hostport =
     (case last_colon hostport 0 of
        None \<Rightarrow> None
      | Some i \<Rightarrow>
          if hd hostport = CHR ''['' then
            (case find_index (CHR '']'') hostport 0 of
               None \<Rightarrow> None
             | Some stop \<Rightarrow>
                 if Suc stop = length hostport then None
                 else if Suc stop = i
                   then if CHR ''['' \<in> set (drop 1 hostport) \<or> CHR '']'' \<in> set (drop (Suc stop) hostport) then None
                        else Some (drop 1 (take stop hostport))
                 else None)
          else if CHR '':'' \<in> set (take i hostport) then None
          else if CHR ''['' \<in> set hostport \<or> CHR '']'' \<in> set hostport then None
          else Some (take i hostport))"

record client_info =
  ci_forwardedFor :: string
  ci_realIP :: string
  ci_remoteAddr :: string

definition getClientIP :: "(string \<Rightarrow> string option) \<Rightarrow> client_info \<Rightarrow> string" where
  "getClientIP parseIP r =
     (case (if ci_forwardedFor r \<noteq> [] then parseIP (ci_forwardedFor r) else None) of
        Some ip \<Rightarrow> ip
      | None \<Rightarrow>
          (case (if ci_realIP r \<noteq> [] then parseIP (ci_realIP r) else None) of
             Some ip \<Rightarrow> ip
           | None \<Rightarrow>
               (case SplitHostPort (ci_remoteAddr r) of None \<Rightarrow> ci_remoteAddr r | Some host \<Rightarrow> host)))"

section \<open>The middleware\<close>

text \<open>The number in the header Retry-After, if the request is refused.\<close>

record limit_headers =
  lh_limit :: int
  lh_remaining :: int

datatype 'r limited = Served 'r | TooManyRequests int

definition rateLimitMiddleware ::
  "(string \<Rightarrow> string option) \<Rightarrow> int \<Rightarrow> int \<Rightarrow> client_info \<Rightarrow> 'r \<Rightarrow> rate_limiter option
     \<Rightarrow> rate_limiter option \<times> limit_headers option \<times> 'r limited" where
  "rateLimitMiddleware parseIP t0 now r nxt limiter =
     (case limiter of
        None \<Rightarrow> (None, None, Served nxt)
      | Some rl \<Rightarrow>
          (case allow t0 now rl (getClientIP parseIP r) of
             (rl', allowed, remaining, retryAfter) \<Rightarrow>
               (Some rl', Some \<lparr>lh_limit = rl_requestsPerMinute rl, lh_remaining = remaining\<rparr>,
                if \<not> allowed then TooManyRequests (go_trunc (duration_Seconds retryAfter)) else Served nxt)))"

text \<open>
  The router with the limiter, in the order of setupMiddleware: recovery, CORS, the limiter, the guard of
  the route. Requests that no route matches do not reach it.
\<close>

definition serve_limited ::
  "'s libs \<Rightarrow> jwt_lib \<Rightarrow> mux_lib \<Rightarrow> (string \<Rightarrow> string option) \<Rightarrow> int \<Rightarrow> int \<Rightarrow> api_env \<Rightarrow> client_info \<Rightarrow> request
     \<Rightarrow> 's api_server \<times> rate_limiter \<Rightarrow> (rate_limiter \<times> 's handler_reply limited)" where
  "serve_limited B T M parseIP t0 now env ci r s =
     (case s of (sv, rl) \<Rightarrow>
        if first_match M r routes = None \<or> rq_method r = ''OPTIONS'' then (rl, Served (serve B T M env r sv))
        else case rateLimitMiddleware parseIP t0 now ci (serve B T M env r sv) (Some rl) of
          (limiter, _, res) \<Rightarrow> (case limiter of None \<Rightarrow> rl | Some rl \<Rightarrow> rl, res))"

section \<open>What a call does\<close>

lemma burst_exact:
  assumes "0 < rl_burstSize rl" and "rl_burstSize rl < 2 ^ 53"
  shows "f64 (of_int (rl_burstSize rl)) = of_int (rl_burstSize rl)"
  using assms by (intro f64.rnd_int) simp_all

text \<open>What a client has before a request: its record, or a full bucket.\<close>

definition client_of :: "int \<Rightarrow> rate_limiter \<Rightarrow> string \<Rightarrow> client_limiter" where
  "client_of t0 rl ip = (case mget (rl_clients rl) ip of
     Some l \<Rightarrow> l | None \<Rightarrow> \<lparr>cl_tokens = f64 (of_int (rl_burstSize rl)), cl_lastUpdate = t0\<rparr>)"

text \<open>The tokens of a client at an instant, before one is taken.\<close>

definition refilled :: "int \<Rightarrow> int \<Rightarrow> rate_limiter \<Rightarrow> string \<Rightarrow> rat" where
  "refilled t0 now rl ip =
     min (f64 (cl_tokens (client_of t0 rl ip)
            + f64 (duration_Seconds (go_time_sub now (cl_lastUpdate (client_of t0 rl ip))) * token_rate rl)))
         (f64 (of_int (rl_burstSize rl)))"

lemma allow_eq:
  "allow t0 now rl ip =
     (let tokens = refilled t0 now rl ip;
          left = (if 1 \<le> tokens then f64 (tokens - 1) else tokens)
      in (rl\<lparr>rl_clients := mput (rl_clients rl) ip \<lparr>cl_tokens = left, cl_lastUpdate = now\<rparr>\<rparr>,
          1 \<le> tokens, if 1 \<le> tokens then go_trunc left else 0,
          whole_seconds (f64 (f64 ((if 1 \<le> tokens then f64 (of_int (rl_burstSize rl)) else 1) - left) / token_rate rl))))"
proof (cases "mget (rl_clients rl) ip")
  case None
  have "token_rate (rl\<lparr>rl_clients := x\<rparr>) = token_rate rl" for x by (simp add: token_rate_def)
  with None show ?thesis
    by (auto simp: allow_def getOrCreateLimiter_def refilled_def client_of_def Let_def min_def not_less)
next
  case (Some l)
  then show ?thesis
    by (auto simp: allow_def getOrCreateLimiter_def refilled_def client_of_def Let_def min_def not_less)
qed

lemma allow_config [simp]:
  "rl_burstSize (fst (allow t0 now rl ip)) = rl_burstSize rl"
  "rl_requestsPerMinute (fst (allow t0 now rl ip)) = rl_requestsPerMinute rl"
  "token_rate (fst (allow t0 now rl ip)) = token_rate rl"
  by (simp_all add: allow_eq Let_def token_rate_def)

lemma allow_other: "ip \<noteq> ip' \<Longrightarrow> mget (rl_clients (fst (allow t0 now rl ip'))) ip = mget (rl_clients rl) ip"
  by (simp add: allow_eq Let_def)

section \<open>Invariant\<close>

definition limiter_ok :: "int \<Rightarrow> rate_limiter \<Rightarrow> bool" where
  "limiter_ok t rl \<longleftrightarrow> 0 < rl_burstSize rl \<and> rl_burstSize rl < 2 ^ 53 \<and> rl_requestsPerMinute rl = rl_burstSize rl
     \<and> (\<forall>ip l. mget (rl_clients rl) ip = Some l \<longrightarrow>
          0 \<le> cl_tokens l \<and> cl_tokens l \<le> of_int (rl_burstSize rl) \<and> cl_lastUpdate l \<le> t)"

lemma NewRateLimiter_ok: "n < 2 ^ 53 \<Longrightarrow> limiter_ok t (NewRateLimiter n)"
  by (simp add: limiter_ok_def NewRateLimiter_def Let_def)

lemma limiter_ok_later: "limiter_ok t rl \<Longrightarrow> t \<le> t' \<Longrightarrow> limiter_ok t' rl"
  unfolding limiter_ok_def by (meson order_trans)

lemma limiter_burst:
  assumes "limiter_ok t rl" shows "f64 (of_int (rl_burstSize rl)) = of_int (rl_burstSize rl)"
  using assms burst_exact unfolding limiter_ok_def by blast

lemma client_ok:
  assumes "limiter_ok t rl" and "t \<le> t0"
  shows "0 \<le> cl_tokens (client_of t0 rl ip)" and "cl_tokens (client_of t0 rl ip) \<le> of_int (rl_burstSize rl)"
    and "cl_lastUpdate (client_of t0 rl ip) \<le> t0"
  using assms limiter_burst [OF assms(1)] unfolding limiter_ok_def client_of_def
  by (auto split: option.split intro: order_trans)

lemma seconds_split: "0 \<le> d \<Longrightarrow> d sdiv 10 ^ 9 = d div 10 ^ 9 \<and> d smod 10 ^ 9 = d mod (10 ^ 9 :: int)"
  by (simp add: signed_divide_int_def signed_modulo_int_def sgn_if)

lemma duration_Seconds_bounds:
  assumes "0 \<le> d" and "d < 2 ^ 63"
  shows "0 \<le> duration_Seconds d" and "duration_Seconds d \<le> of_int d / 10 ^ 9 * (1 + 1 / 2 ^ 53) ^ 2"
    and "of_int (d div 10 ^ 9) \<le> duration_Seconds d"
proof -
  let ?s = "d div 10 ^ 9" and ?n = "d mod 10 ^ 9" and ?u = "1 / 2 ^ 53 :: rat"
  define y where "y = f64 (of_int ?n / 10 ^ 9)"
  have s: "0 \<le> ?s" "?s < 2 ^ 53" and n: "0 \<le> ?n" "?n < 2 ^ 53"
    using assms pos_mod_bound [of "10 ^ 9 :: int" d] by auto
  have eq: "duration_Seconds d = f64 (of_int ?s + y)"
    using seconds_split [OF assms(1)] f64.rnd_int [OF s] f64.rnd_int [OF n] by (simp add: duration_Seconds_def y_def)
  have y: "0 \<le> y" "y \<le> of_int ?n / 10 ^ 9 * (1 + ?u)"
    using f64.rnd_nonneg [of "of_int ?n / 10 ^ 9"] f64.rnd_above [of "of_int ?n / 10 ^ 9"] n
    by (simp_all add: y_def algebra_simps)
  have z: "0 \<le> of_int ?s + y" using s y(1) by simp
  show "0 \<le> duration_Seconds d" unfolding eq using z by (rule f64.rnd_nonneg)
  show "of_int ?s \<le> duration_Seconds d" unfolding eq using s y(1) by (intro f64.rnd_at_least) simp_all
  have "of_int d = (of_int (?s * 10 ^ 9 + ?n) :: rat)" by (simp only: div_mult_mod_eq)
  also have "\<dots> = of_int ?s * 10 ^ 9 + of_int ?n" by (simp only: of_int_add of_int_mult of_int_power of_int_numeral)
  finally have d: "of_int d / 10 ^ 9 = of_int ?s + of_int ?n / (10 ^ 9 :: rat)" by (simp add: add_divide_distrib)
  have "of_int ?s + y \<le> (of_int ?s + of_int ?n / 10 ^ 9) * (1 + ?u)"
    using y(2) s by (simp add: algebra_simps)
  then have "(of_int ?s + y) * (1 + ?u) \<le> (of_int ?s + of_int ?n / 10 ^ 9) * (1 + ?u) * (1 + ?u)"
    by (intro mult_right_mono) simp_all
  moreover have "f64 (of_int ?s + y) \<le> (of_int ?s + y) * (1 + ?u)"
    by (rule f64.rnd_factor [OF z])
  ultimately show "duration_Seconds d \<le> of_int d / 10 ^ 9 * (1 + ?u) ^ 2"
    unfolding eq d power2_eq_square mult.assoc [symmetric] by (rule order_trans [rotated])
qed

lemma token_rate_bounds:
  assumes "limiter_ok t rl"
  shows "of_int (rl_burstSize rl) / 60 * (1 - 1 / 2 ^ 53) \<le> token_rate rl"
    and "token_rate rl \<le> of_int (rl_burstSize rl) / 60 * (1 + 1 / 2 ^ 53)" and "0 < token_rate rl"
proof -
  let ?x = "of_int (rl_burstSize rl) / 60 :: rat"
  have x: "0 < ?x" and r: "token_rate rl = f64 ?x"
    using assms limiter_burst [OF assms] by (simp_all add: token_rate_def limiter_ok_def)
  show "?x * (1 - 1 / 2 ^ 53) \<le> token_rate rl" "token_rate rl \<le> ?x * (1 + 1 / 2 ^ 53)"
    unfolding r using f64.rnd_below [of ?x] f64.rnd_above [of ?x] x by (simp_all add: algebra_simps)
  moreover have "0 < ?x * (1 - 1 / 2 ^ 53)" using x by simp
  ultimately show "0 < token_rate rl" by linarith
qed

lemma go_time_sub_nonneg: "u \<le> t \<Longrightarrow> 0 \<le> go_time_sub t u \<and> go_time_sub t u \<le> t - u \<and> go_time_sub t u < 2 ^ 63"
  by (auto simp: go_time_sub_def)

text \<open>What a client gains in a time, and the most it can gain.\<close>

definition gain :: "rate_limiter \<Rightarrow> int \<Rightarrow> rat" where
  "gain rl d = f64 (duration_Seconds d * token_rate rl)"

definition top_rate :: "rate_limiter \<Rightarrow> rat" where
  "top_rate rl = of_int (rl_requestsPerMinute rl) / (60 * 10 ^ 9) * (1 + 1 / 2 ^ 50)"

definition slack :: "rate_limiter \<Rightarrow> rat" where
  "slack rl = 2 * of_int (rl_burstSize rl) / 2 ^ 53"

lemma gain_bounds:
  assumes "limiter_ok t rl" and "0 \<le> d" and "d < 2 ^ 63"
  shows "0 \<le> gain rl d" and "gain rl d \<le> of_int d * top_rate rl"
proof -
  let ?u = "1 / 2 ^ 53 :: rat" and ?b = "of_int (rl_burstSize rl) :: rat"
  note s = duration_Seconds_bounds [OF assms(2,3)] and r = token_rate_bounds [OF assms(1)]
  have b: "0 < ?b" using assms(1) by (simp add: limiter_ok_def)
  let ?p = "duration_Seconds d * token_rate rl"
  have p: "0 \<le> ?p" using s(1) r(3) by simp
  show "0 \<le> gain rl d" unfolding gain_def using p by (rule f64.rnd_nonneg)
  have "?p \<le> (of_int d / 10 ^ 9 * (1 + ?u) ^ 2) * (?b / 60 * (1 + ?u))"
    using s(1,2) r(2,3) assms(2) by (intro mult_mono) simp_all
  then have "?p * (1 + ?u) \<le> (of_int d / 10 ^ 9 * (1 + ?u) ^ 2) * (?b / 60 * (1 + ?u)) * (1 + ?u)"
    by (intro mult_right_mono) simp_all
  also have "\<dots> = of_int d * (?b / (60 * 10 ^ 9)) * (1 + ?u) ^ 4" by (simp add: power_numeral_reduce)
  also have "\<dots> \<le> of_int d * (?b / (60 * 10 ^ 9)) * (1 + 1 / 2 ^ 50)"
    using assms(2) b by (intro mult_left_mono) (simp_all add: power_divide)
  finally have "?p * (1 + ?u) \<le> of_int d * top_rate rl"
    using assms(1) by (simp add: top_rate_def limiter_ok_def mult.assoc)
  moreover have "gain rl d \<le> ?p * (1 + ?u)"
    unfolding gain_def by (rule f64.rnd_factor [OF p])
  ultimately show "gain rl d \<le> of_int d * top_rate rl" by linarith
qed

text \<open>After ten minutes a bucket is full.\<close>

lemma gain_full:
  assumes "limiter_ok t rl" and "600 * 10 ^ 9 \<le> d" and "d < 2 ^ 63"
  shows "of_int (rl_burstSize rl) \<le> gain rl d"
proof -
  let ?b = "of_int (rl_burstSize rl) :: rat"
  have b: "0 < rl_burstSize rl" "rl_burstSize rl < 2 ^ 53" using assms(1) by (simp_all add: limiter_ok_def)
  have "600 \<le> d div 10 ^ 9" using zdiv_mono1 [OF assms(2), of "10 ^ 9"] by simp
  then have "(600 :: rat) \<le> of_int (d div 10 ^ 9)" by simp
  with duration_Seconds_bounds(3) [of d] assms(2,3) have s: "600 \<le> duration_Seconds d" by force
  have "600 * (?b / 60 * (1 - 1 / 2 ^ 53)) \<le> duration_Seconds d * token_rate rl"
    using s token_rate_bounds [OF assms(1)] b by (intro mult_mono) simp_all
  moreover have "?b \<le> 600 * (?b / 60 * (1 - 1 / 2 ^ 53))" using b by simp
  ultimately have "?b \<le> duration_Seconds d * token_rate rl" by linarith
  then show ?thesis unfolding gain_def using b by (intro f64.rnd_at_least) simp_all
qed

lemma refilled_gain:
  "refilled t0 now rl ip = min (f64 (cl_tokens (client_of t0 rl ip)
     + gain rl (go_time_sub now (cl_lastUpdate (client_of t0 rl ip))))) (f64 (of_int (rl_burstSize rl)))"
  by (simp add: refilled_def gain_def)

text \<open>One request keeps the invariant and pays for what it admits.\<close>

lemma allow_step:
  assumes "limiter_ok t rl" and "t \<le> t0" and "t0 \<le> now"
  shows "limiter_ok now (fst (allow t0 now rl ip))"
    and "\<exists>l'. mget (rl_clients (fst (allow t0 now rl ip))) ip = Some l' \<and> cl_lastUpdate l' = now
       \<and> cl_tokens l' + (if fst (snd (allow t0 now rl ip)) then 1 else 0)
          \<le> min (cl_tokens (client_of t0 rl ip) + of_int (now - cl_lastUpdate (client_of t0 rl ip)) * top_rate rl) (of_int (rl_burstSize rl))
             + slack rl"
proof -
  let ?l = "client_of t0 rl ip" and ?b = "rl_burstSize rl"
  let ?c = "gain rl (go_time_sub now (cl_lastUpdate ?l))"
  note c = client_ok [OF assms(1,2), of ip]
  have b: "0 < ?b" "?b < 2 ^ 53" and fb: "f64 (of_int ?b) = of_int ?b"
    using assms(1) limiter_burst [OF assms(1)] by (simp_all add: limiter_ok_def)
  have "cl_lastUpdate ?l \<le> now" using c(3) assms(3) by linarith
  note d = go_time_sub_nonneg [OF this]
  have g: "0 \<le> ?c" "?c \<le> of_int (go_time_sub now (cl_lastUpdate ?l)) * top_rate rl"
    using gain_bounds [OF assms(1)] d by blast+
  have "0 \<le> top_rate rl" using assms(1) by (simp add: top_rate_def limiter_ok_def)
  then have g2: "?c \<le> of_int (now - cl_lastUpdate ?l) * top_rate rl"
    using g(2) d by (meson mult_right_mono of_int_le_iff order_trans)
  have r: "refilled t0 now rl ip = min (f64 (cl_tokens ?l + ?c)) (of_int ?b)" by (simp add: refilled_gain fb)
  note s = f64.bucket_step [OF c(1) g(1) less_imp_le [OF b(1)] b(2), folded r]
  have l: "mget (rl_clients (fst (allow t0 now rl ip))) ip = Some \<lparr>cl_tokens = (if 1 \<le> refilled t0 now rl ip
      then f64 (refilled t0 now rl ip - 1) else refilled t0 now rl ip), cl_lastUpdate = now\<rparr>"
    by (simp add: allow_eq Let_def)
  show "limiter_ok now (fst (allow t0 now rl ip))"
  proof -
    have "0 \<le> cl_tokens m \<and> cl_tokens m \<le> of_int ?b \<and> cl_lastUpdate m \<le> now"
      if "mget (rl_clients (fst (allow t0 now rl ip))) i = Some m" for i m
    proof (cases "i = ip")
      case True
      with that l s(1,2) show ?thesis by force
    next
      case False
      with that have "mget (rl_clients rl) i = Some m" by (simp add: allow_other)
      with assms show ?thesis unfolding limiter_ok_def by force
    qed
    with assms(1) show ?thesis by (simp add: limiter_ok_def)
  qed
  have "min (cl_tokens ?l + ?c) (of_int ?b) \<le> min (cl_tokens ?l + of_int (now - cl_lastUpdate ?l) * top_rate rl) (of_int ?b)"
    using g2 by (simp add: min_def)
  moreover have "fst (snd (allow t0 now rl ip)) \<longleftrightarrow> 1 \<le> refilled t0 now rl ip" by (simp add: allow_eq Let_def)
  ultimately show "\<exists>l'. mget (rl_clients (fst (allow t0 now rl ip))) ip = Some l' \<and> cl_lastUpdate l' = now
       \<and> cl_tokens l' + (if fst (snd (allow t0 now rl ip)) then 1 else 0)
          \<le> min (cl_tokens ?l + of_int (now - cl_lastUpdate ?l) * top_rate rl) (of_int ?b) + slack rl"
    using s(3) l by (intro exI conjI) (assumption, simp, simp add: slack_def)
qed

section \<open>Sequences of requests\<close>

text \<open>A request is the instant of a possible new client, the instant of the count, and the address.\<close>

type_synonym limit_request = "int \<times> int \<times> string"

fun allow_run :: "limit_request list \<Rightarrow> rate_limiter \<Rightarrow> rate_limiter \<times> (bool \<times> int \<times> int) list" where
  "allow_run [] rl = (rl, [])"
| "allow_run ((t0, now, ip) # rs) rl =
     (case allow t0 now rl ip of (rl, res) \<Rightarrow> case allow_run rs rl of (rl, ress) \<Rightarrow> (rl, res # ress))"

lemma allow_run_snd:
  "snd (allow_run ((t0, now, ip) # rs) rl) = snd (allow t0 now rl ip) # snd (allow_run rs (fst (allow t0 now rl ip)))"
  by (simp add: split_beta)

fun in_order :: "int \<Rightarrow> limit_request list \<Rightarrow> int \<Rightarrow> bool" where
  "in_order t [] t' \<longleftrightarrow> t \<le> t'"
| "in_order t ((t0, now, ip) # rs) t' \<longleftrightarrow> t \<le> t0 \<and> t0 \<le> now \<and> in_order now rs t'"

fun admissions :: "string \<Rightarrow> limit_request list \<Rightarrow> rate_limiter \<Rightarrow> nat" where
  "admissions ip [] rl = 0"
| "admissions ip ((t0, now, ip') # rs) rl =
     (if ip' = ip \<and> fst (snd (allow t0 now rl ip')) then 1 else 0) + admissions ip rs (fst (allow t0 now rl ip'))"

lemma in_order_le: "in_order t rs t' \<Longrightarrow> t \<le> t'"
  by (induction t rs t' rule: in_order.induct) auto

lemma top_rate_allow [simp]: "top_rate (fst (allow t0 now rl ip)) = top_rate rl"
  by (simp add: top_rate_def)

lemma slack_allow [simp]: "slack (fst (allow t0 now rl ip)) = slack rl"
  by (simp add: slack_def)

lemma top_rate_nonneg: "limiter_ok t rl \<Longrightarrow> 0 \<le> top_rate rl"
  by (simp add: top_rate_def limiter_ok_def)

text \<open>A known client: what it holds and gains pays for what it is admitted.\<close>

lemma admitted_known:
  assumes "limiter_ok t rl" and "in_order t rs t'" and "mget (rl_clients rl) ip = Some l"
  shows "of_nat (admissions ip rs rl) \<le> cl_tokens l + of_int (t' - cl_lastUpdate l) * top_rate rl
           + of_nat (length rs) * slack rl"
  using assms
proof (induction rs arbitrary: t rl l)
  case Nil
  from Nil have "0 \<le> cl_tokens l" "cl_lastUpdate l \<le> t" "t \<le> t'" by (auto simp: limiter_ok_def)
  then have "0 \<le> of_int (t' - cl_lastUpdate l) * top_rate rl" "0 \<le> cl_tokens l"
    using top_rate_nonneg [OF Nil(1)] by simp_all
  then show ?case by simp
next
  case (Cons r rs)
  obtain t0 now i where r: "r = (t0, now, i)" by (cases r)
  let ?rl = "fst (allow t0 now rl i)" and ?e = "slack rl :: rat"
  have t: "t \<le> t0" "t0 \<le> now" and o: "in_order now rs t'" using Cons.prems(2) by (simp_all add: r)
  note s = allow_step [OF Cons.prems(1) t]
  have e: "0 \<le> ?e" using Cons.prems(1) by (simp add: limiter_ok_def slack_def)
  have k: "0 \<le> top_rate rl" by (rule top_rate_nonneg [OF Cons.prems(1)])
  show ?case
  proof (cases "i = ip")
    case False
    then have "mget (rl_clients ?rl) ip = Some l" using Cons.prems(3) by (simp add: allow_other)
    from Cons.IH [OF s(1) o this] False e show ?thesis by (simp add: r algebra_simps)
  next
    case True
    have l: "client_of t0 rl ip = l" using Cons.prems(3) by (simp add: client_of_def)
    obtain l' where l': "mget (rl_clients ?rl) ip = Some l'" "cl_lastUpdate l' = now"
      "cl_tokens l' + (if fst (snd (allow t0 now rl ip)) then 1 else 0)
          \<le> cl_tokens l + of_int (now - cl_lastUpdate l) * top_rate rl + ?e"
      using s(2) [of ip] True l by auto
    have "of_int (now - cl_lastUpdate l) * top_rate rl + of_int (t' - now) * top_rate rl
        = of_int (t' - cl_lastUpdate l) * top_rate rl" by (simp add: algebra_simps)
    with Cons.IH [OF s(1) o l'(1)] l'(2,3) True show ?thesis
      by (cases "fst (snd (allow t0 now rl ip))") (simp_all add: r algebra_simps)
  qed
qed

section \<open>Properties\<close>

text \<open>
  C34. In any window, however the requests of all clients interleave, a client is admitted no more than the
  size of the burst plus the requests of the configured rate for the length of the window; float64
  adds a relative error of at most 2 to the -50 to the rate, and two units in the last place of the
  burst for each request.
\<close>

theorem admissions_bounded:
  assumes "limiter_ok t rl" and "in_order t rs t'"
  shows "(of_nat (admissions ip rs rl) :: rat) \<le> of_int (rl_burstSize rl)
     + of_int (t' - t) / 10 ^ 9 * (of_int (rl_requestsPerMinute rl) / 60) * (1 + 1 / 2 ^ 50)
     + of_nat (length rs) * (2 * of_int (rl_burstSize rl) / 2 ^ (53 :: nat))"
proof -
  have "of_nat (admissions ip rs rl) \<le> of_int (rl_burstSize rl) + of_int (t' - t) * top_rate rl + of_nat (length rs) * slack rl"
    using assms
  proof (induction rs arbitrary: t rl)
    case Nil
    then have "0 \<le> of_int (t' - t) * top_rate rl" "(0 :: rat) \<le> of_int (rl_burstSize rl)"
      using top_rate_nonneg [OF Nil(1)] by (simp_all add: limiter_ok_def)
    then show ?case by simp
  next
    case (Cons r rs)
    obtain t0 now i where r: "r = (t0, now, i)" by (cases r)
    let ?rl = "fst (allow t0 now rl i)"
    have t: "t \<le> t0" "t0 \<le> now" and o: "in_order now rs t'" using Cons.prems(2) by (simp_all add: r)
    note s = allow_step [OF Cons.prems(1) t, of i]
    have e: "0 \<le> slack rl" using Cons.prems(1) by (simp add: limiter_ok_def slack_def)
    have w: "of_int (t' - now) * top_rate rl \<le> of_int (t' - t) * top_rate rl"
      using t top_rate_nonneg [OF Cons.prems(1)] by (intro mult_right_mono) simp_all
    show ?case
    proof (cases "i = ip")
      case False
      with Cons.IH [OF s(1) o] e w show ?thesis by (simp add: r algebra_simps)
    next
      case True
      obtain l' where l': "mget (rl_clients ?rl) ip = Some l'" "cl_lastUpdate l' = now"
        "cl_tokens l' + (if fst (snd (allow t0 now rl ip)) then 1 else 0) \<le> of_int (rl_burstSize rl) + slack rl"
        using s(2) True by auto
      from admitted_known [OF s(1) o l'(1)] l'(2,3) True w show ?thesis
        by (cases "fst (snd (allow t0 now rl ip))") (simp_all add: r algebra_simps)
    qed
  qed
  moreover have eq: "of_int (t' - t) / 10 ^ 9 * (of_int (rl_requestsPerMinute rl) / 60) * (1 + 1 / 2 ^ 50)
      = of_int (t' - t) * top_rate rl" unfolding top_rate_def by (simp only: times_divide_times_eq times_divide_eq_left
        times_divide_eq_right mult_ac divide_divide_eq_left)
  ultimately show ?thesis unfolding eq slack_def by blast
qed

theorem admissions_bounded_witness:
  "(of_nat (admissions ''a'' [(0, 0, ''a''), (5, 6, ''b''), (6, 9, ''a'')] (NewRateLimiter 60)) :: rat)
     \<le> 60 + 9 / 10 ^ 9 * (1 + 1 / 2 ^ 50) + 3 * (120 / 2 ^ 53)"
  using admissions_bounded [OF NewRateLimiter_ok [of 60 0], of "[(0, 0, ''a''), (5, 6, ''b''), (6, 9, ''a'')]" 9 "''a''"]
  by (simp add: NewRateLimiter_def Let_def)

text \<open>
  Two limiters that differ only in clients that have been idle until their bucket is full: each is forgotten
  by the second one, and whatever follows they answer alike.
\<close>

definition forgot :: "int \<Rightarrow> rate_limiter \<Rightarrow> rate_limiter \<Rightarrow> bool" where
  "forgot t rl rl' \<longleftrightarrow> limiter_ok t rl \<and> limiter_ok t rl' \<and> rl_burstSize rl' = rl_burstSize rl
     \<and> rl_requestsPerMinute rl' = rl_requestsPerMinute rl
     \<and> (\<forall>ip. mget (rl_clients rl') ip = mget (rl_clients rl) ip
          \<or> mget (rl_clients rl') ip = None
            \<and> (\<exists>l. mget (rl_clients rl) ip = Some l \<and> 600 * 10 ^ 9 < go_time_sub t (cl_lastUpdate l)))"

lemma refilled_full:
  assumes "limiter_ok t rl" and "t \<le> t0" and "t0 \<le> now"
    and "mget (rl_clients rl) ip = None
      \<or> (\<exists>l. mget (rl_clients rl) ip = Some l \<and> 600 * 10 ^ 9 < go_time_sub t (cl_lastUpdate l))"
  shows "refilled t0 now rl ip = of_int (rl_burstSize rl)"
proof -
  let ?l = "client_of t0 rl ip" and ?b = "rl_burstSize rl"
  let ?d = "go_time_sub now (cl_lastUpdate ?l)"
  note c = client_ok [OF assms(1,2), of ip]
  have b: "0 < ?b" "?b < 2 ^ 53" and fb: "f64 (of_int ?b) = of_int ?b"
    using assms(1) limiter_burst [OF assms(1)] by (simp_all add: limiter_ok_def)
  have "cl_lastUpdate ?l \<le> now" using c(3) assms(3) by linarith
  note d = go_time_sub_nonneg [OF this]
  have g: "0 \<le> gain rl ?d" using gain_bounds(1) [OF assms(1)] d by blast
  from assms(4) have "of_int ?b \<le> cl_tokens ?l + gain rl ?d"
  proof
    assume "mget (rl_clients rl) ip = None"
    with g fb show ?thesis by (simp add: client_of_def)
  next
    assume "\<exists>l. mget (rl_clients rl) ip = Some l \<and> 600 * 10 ^ 9 < go_time_sub t (cl_lastUpdate l)"
    then obtain l where l: "mget (rl_clients rl) ip = Some l" "600 * 10 ^ 9 < go_time_sub t (cl_lastUpdate l)" by blast
    then have "600 * 10 ^ 9 \<le> ?d" using assms(2,3) by (simp add: client_of_def go_time_sub_def)
    from gain_full [OF assms(1) this] d c(1) show ?thesis by linarith
  qed
  then have "of_int ?b \<le> f64 (cl_tokens ?l + gain rl ?d)" using b by (intro f64.rnd_at_least) simp_all
  then show ?thesis by (simp add: refilled_gain fb)
qed

lemma forgot_step:
  assumes "forgot t rl rl'" and "t \<le> t0" and "t0 \<le> now"
  shows "snd (allow t0 now rl' ip) = snd (allow t0 now rl ip)"
    and "forgot now (fst (allow t0 now rl ip)) (fst (allow t0 now rl' ip))"
proof -
  have ok: "limiter_ok t rl" "limiter_ok t rl'" and conf: "rl_burstSize rl' = rl_burstSize rl"
    "rl_requestsPerMinute rl' = rl_requestsPerMinute rl"
    using assms(1) by (simp_all add: forgot_def)
  have rate: "token_rate rl' = token_rate rl" by (simp add: token_rate_def conf)
  have eq: "refilled t0 now rl' ip = refilled t0 now rl ip"
  proof (cases "mget (rl_clients rl') ip = mget (rl_clients rl) ip")
    case True
    show ?thesis unfolding refilled_def client_of_def conf rate True by (rule refl)
  next
    case False
    with assms(1) have f: "mget (rl_clients rl') ip = None"
      "\<exists>l. mget (rl_clients rl) ip = Some l \<and> 600 * 10 ^ 9 < go_time_sub t (cl_lastUpdate l)"
      unfolding forgot_def by blast+
    then show ?thesis
      using refilled_full [OF ok(1) assms(2,3), of ip] refilled_full [OF ok(2) assms(2,3), of ip] conf by simp
  qed
  show "snd (allow t0 now rl' ip) = snd (allow t0 now rl ip)"
    by (simp add: allow_eq Let_def eq conf rate)
  have same: "mget (rl_clients (fst (allow t0 now rl' ip))) ip = mget (rl_clients (fst (allow t0 now rl ip))) ip"
    by (simp add: allow_eq Let_def eq)
  have old: "go_time_sub t u \<le> go_time_sub now u" for u using assms(2,3) by (simp add: go_time_sub_def)
  have "mget (rl_clients (fst (allow t0 now rl' ip))) i = mget (rl_clients (fst (allow t0 now rl ip))) i
      \<or> mget (rl_clients (fst (allow t0 now rl' ip))) i = None
        \<and> (\<exists>l. mget (rl_clients (fst (allow t0 now rl ip))) i = Some l \<and> 600 * 10 ^ 9 < go_time_sub now (cl_lastUpdate l))" for i
  proof (cases "i = ip")
    case True
    with same show ?thesis by simp
  next
    case False
    with assms(1) old show ?thesis unfolding forgot_def allow_other [OF False] by (meson less_le_trans)
  qed
  then show "forgot now (fst (allow t0 now rl ip)) (fst (allow t0 now rl' ip))"
    using allow_step(1) [OF ok(1) assms(2,3)] allow_step(1) [OF ok(2) assms(2,3)] conf unfolding forgot_def by simp
qed

lemma forgot_run:
  assumes "forgot t rl rl'" and "in_order t rs t'"
  shows "snd (allow_run rs rl') = snd (allow_run rs rl)"
  using assms
proof (induction rs arbitrary: t rl rl')
  case (Cons r rs)
  obtain t0 now i where r: "r = (t0, now, i)" by (cases r)
  with Cons.prems(2) have t: "t \<le> t0" "t0 \<le> now" and o: "in_order now rs t'" by simp_all
  note s = forgot_step [OF Cons.prems(1) t, of i]
  from s(1) Cons.IH [OF s(2) o] show ?case unfolding r allow_run_snd by simp
qed simp

text \<open>
  C35. Deleting idle clients is not observable: whatever requests follow, every one gets the same answer,
  the same number of requests left and the same time to wait as without the clean-up.
\<close>

theorem cleanup_unobservable:
  assumes "limiter_ok t rl" and "in_order t rs t'"
  shows "snd (allow_run rs (cleanup_tick t rl)) = snd (allow_run rs rl)"
proof (rule forgot_run [OF _ assms(2)])
  have "limiter_ok t (cleanup_tick t rl)"
    using assms(1) by (auto simp: limiter_ok_def cleanup_tick_def)
  with assms(1) show "forgot t rl (cleanup_tick t rl)"
    unfolding forgot_def by (auto simp: cleanup_tick_def split: option.splits)
qed

definition demo_idle :: rate_limiter where
  "demo_idle = (NewRateLimiter 1000)\<lparr>rl_clients := fmap_of_list [(''a'', \<lparr>cl_tokens = 0, cl_lastUpdate = 0\<rparr>)]\<rparr>"

lemma demo_idle_ok: "limiter_ok 0 demo_idle"
  by (simp add: limiter_ok_def demo_idle_def NewRateLimiter_def Let_def)

theorem cleanup_unobservable_witness:
  "snd (allow_run [(7 * 10 ^ 11, 7 * 10 ^ 11, ''a'')] (cleanup_tick (7 * 10 ^ 11) demo_idle))
     = snd (allow_run [(7 * 10 ^ 11, 7 * 10 ^ 11, ''a'')] demo_idle)
   \<and> mget (rl_clients (cleanup_tick (7 * 10 ^ 11) demo_idle)) ''a'' \<noteq> mget (rl_clients demo_idle) ''a''"
proof -
  have ok: "limiter_ok (7 * 10 ^ 11) demo_idle" by (rule limiter_ok_later [OF demo_idle_ok]) simp
  have "in_order (7 * 10 ^ 11) [(7 * 10 ^ 11, 7 * 10 ^ 11, ''a'')] (7 * 10 ^ 11)" by simp
  from cleanup_unobservable [OF ok this] show ?thesis
    by (simp add: cleanup_tick_def demo_idle_def go_time_sub_def)
qed

text \<open>
  A client that sets the header X-Forwarded-For itself is never limited: requests from one connection
  that each carry another valid address there are all served, and each leaves a record behind.
\<close>

fun middleware_run ::
  "(string \<Rightarrow> string option) \<Rightarrow> (int \<times> int \<times> client_info) list \<Rightarrow> rate_limiter option
     \<Rightarrow> rate_limiter option \<times> unit limited list" where
  "middleware_run parseIP [] rl = (rl, [])"
| "middleware_run parseIP ((t0, now, ci) # rs) rl =
     (case rateLimitMiddleware parseIP t0 now ci () rl of (rl', _, res) \<Rightarrow>
        (case middleware_run parseIP rs rl' of (rl'', ress) \<Rightarrow> (rl'', res # ress)))"

lemma new_client_allowed:
  assumes "limiter_ok t rl" and "t \<le> t0" and "t0 \<le> now" and "mget (rl_clients rl) ip = None"
  shows "fst (snd (allow t0 now rl ip))" and "mlen (rl_clients (fst (allow t0 now rl ip))) = Suc (mlen (rl_clients rl))"
proof -
  have "refilled t0 now rl ip = of_int (rl_burstSize rl)" using assms by (intro refilled_full) blast+
  moreover have "0 < rl_burstSize rl" using assms(1) by (simp add: limiter_ok_def)
  ultimately show "fst (snd (allow t0 now rl ip))" by (simp add: allow_eq Let_def)
  show "mlen (rl_clients (fst (allow t0 now rl ip))) = Suc (mlen (rl_clients rl))"
    using assms(4) by (simp add: allow_eq Let_def mlen_put mhas_def)
qed

lemma forwarded_address: "ci_forwardedFor ci \<noteq> [] \<Longrightarrow> parseIP (ci_forwardedFor ci) = Some ip \<Longrightarrow> getClientIP parseIP ci = ip"
  by (simp add: getClientIP_def)

lemma middleware_served:
  assumes "allow t0 now rl (getClientIP parseIP ci) = (rl', True, n, d)"
  shows "\<exists>h. rateLimitMiddleware parseIP t0 now ci x (Some rl) = (Some rl', h, Served x)"
  using assms by (simp add: rateLimitMiddleware_def)

theorem forged_addresses_never_limited:
  assumes "limiter_ok t rl" and "in_order t (map (\<lambda>(t0, now, ci). (t0, now, ci_forwardedFor ci)) rs) t'"
    and "\<forall>(t0, now, ci) \<in> set rs. ci_forwardedFor ci \<noteq> [] \<and> parseIP (ci_forwardedFor ci) \<noteq> None"
    and "distinct (map (\<lambda>(t0, now, ci). parseIP (ci_forwardedFor ci)) rs)"
    and "\<forall>(t0, now, ci) \<in> set rs. \<forall>ip. parseIP (ci_forwardedFor ci) = Some ip \<longrightarrow> mget (rl_clients rl) ip = None"
  shows "\<exists>rl'. middleware_run parseIP rs (Some rl) = (Some rl', replicate (length rs) (Served ()))
    \<and> mlen (rl_clients rl') = mlen (rl_clients rl) + length rs"
  using assms
proof (induction rs arbitrary: t rl)
  case (Cons r rs)
  obtain t0 now ci where r: "r = (t0, now, ci)" by (cases r)
  have t: "t \<le> t0" "t0 \<le> now" and o: "in_order now (map (\<lambda>(t0, now, ci). (t0, now, ci_forwardedFor ci)) rs) t'"
    using Cons.prems(2) by (simp_all add: r)
  obtain ip where ip: "parseIP (ci_forwardedFor ci) = Some ip" and ci: "getClientIP parseIP ci = ip"
    using Cons.prems(3) forwarded_address [of ci parseIP] by (auto simp: r)
  have new: "mget (rl_clients rl) ip = None" using Cons.prems(5) ip by (simp add: r)
  obtain rl' n d where a: "allow t0 now rl ip = (rl', True, n, d)"
    using new_client_allowed(1) [OF Cons.prems(1) t new] by (metis fst_conv prod.exhaust_sel)
  have ok: "limiter_ok now rl'" using allow_step(1) [OF Cons.prems(1) t, of ip] by (simp add: a)
  have len: "mlen (rl_clients rl') = Suc (mlen (rl_clients rl))"
    using new_client_allowed(2) [OF Cons.prems(1) t new] by (simp add: a)
  have rest: "\<forall>(t0, now, ci) \<in> set rs. \<forall>i. parseIP (ci_forwardedFor ci) = Some i \<longrightarrow> mget (rl_clients rl') i = None"
  proof -
    have "mget (rl_clients rl') i = None" if "(t1, n1, c1) \<in> set rs" "parseIP (ci_forwardedFor c1) = Some i" for t1 n1 c1 i
    proof -
      have "Some i \<in> set (map (\<lambda>(t0, now, ci). parseIP (ci_forwardedFor ci)) rs)"
        using that by force
      moreover have "Some ip \<notin> set (map (\<lambda>(t0, now, ci). parseIP (ci_forwardedFor ci)) rs)"
        using Cons.prems(4) ip by (simp add: r)
      ultimately have "i \<noteq> ip" by blast
      then have "mget (rl_clients rl') i = mget (rl_clients rl) i" using allow_other [of i ip t0 now rl] by (simp add: a)
      with Cons.prems(5) that show ?thesis by auto
    qed
    then show ?thesis by auto
  qed
  obtain rl'' where IH: "middleware_run parseIP rs (Some rl') = (Some rl'', replicate (length rs) (Served ()))"
    "mlen (rl_clients rl'') = mlen (rl_clients rl') + length rs"
    using Cons.IH [OF ok o _ _ rest] Cons.prems(3,4) unfolding r by auto
  obtain h where "rateLimitMiddleware parseIP t0 now ci () (Some rl) = (Some rl', h, Served ())"
    using middleware_served [where x = "()", OF a [folded ci]] by blast
  with IH len show ?case by (simp add: r)
qed simp

theorem forged_addresses_never_limited_witness:
  "\<exists>rl'. middleware_run Some
       [(0, 0, \<lparr>ci_forwardedFor = ''a'', ci_realIP = [], ci_remoteAddr = ''c:1''\<rparr>),
        (0, 0, \<lparr>ci_forwardedFor = ''b'', ci_realIP = [], ci_remoteAddr = ''c:1''\<rparr>)] (Some (NewRateLimiter 1))
     = (Some rl', [Served (), Served ()]) \<and> mlen (rl_clients rl') = 2"
  using forged_addresses_never_limited [OF NewRateLimiter_ok [of 1 0],
      of "[(0, 0, \<lparr>ci_forwardedFor = ''a'', ci_realIP = [], ci_remoteAddr = ''c:1''\<rparr>),
        (0, 0, \<lparr>ci_forwardedFor = ''b'', ci_realIP = [], ci_remoteAddr = ''c:1''\<rparr>)]" 0 Some]
  by (simp add: NewRateLimiter_def numeral_2_eq_2)

text \<open>
  C36. At more than one request a second, which includes the rate the server is created with, a refused
  client is always told to try again after zero seconds: the time to wait is cut to whole seconds before
  it is made a duration.
\<close>

theorem refused_retry_at_once:
  assumes "limiter_ok t rl" and "61 \<le> rl_requestsPerMinute rl" and "t \<le> t0" and "t0 \<le> now"
    and "rateLimitMiddleware parseIP t0 now ci nxt (Some rl) = (rl1, h, TooManyRequests retry)"
  shows "retry = 0"
proof -
  let ?ip = "getClientIP parseIP ci" and ?b = "of_int (rl_burstSize rl) :: rat"
  have b: "rl_requestsPerMinute rl = rl_burstSize rl" using assms(1) by (simp add: limiter_ok_def)
  let ?t = "refilled t0 now rl ?ip"
  have no: "\<not> 1 \<le> ?t" and retry: "retry = go_trunc (duration_Seconds (whole_seconds (f64 (f64 (1 - ?t) / token_rate rl))))"
    using assms(5) by (auto simp: rateLimitMiddleware_def allow_eq Let_def split: if_splits)
  have "mget (rl_clients (fst (allow t0 now rl ?ip))) ?ip = Some \<lparr>cl_tokens = ?t, cl_lastUpdate = now\<rparr>"
    using no by (simp add: allow_eq Let_def)
  with allow_step(1) [OF assms(1,3,4), of ?ip] have t: "0 \<le> ?t" unfolding limiter_ok_def by fastforce
  define x where "x = f64 (1 - ?t)"
  have x: "0 \<le> x" "x \<le> 1" using f64.rnd_nonneg [of "1 - ?t"] f64.rnd_at_most [of "1 - ?t" 1] t no by (simp_all add: x_def)
  have "(61 :: rat) \<le> ?b" using assms(2) unfolding b by simp
  then have "101 / 100 \<le> ?b / 60 * (1 - 1 / 2 ^ 53)" by (simp add: field_simps)
  with token_rate_bounds(1) [OF assms(1)] have r: "101 / 100 \<le> token_rate rl" by linarith
  have q: "0 \<le> x / token_rate rl" "x / token_rate rl \<le> 1 / (101 / 100)"
    using x r by (simp, intro frac_le) simp_all
  define y where "y = f64 (x / token_rate rl)"
  have "x / token_rate rl / 2 ^ 53 \<le> 1 / (101 / 100) / 2 ^ 53" using q(2) by (intro divide_right_mono) simp_all
  then have "y < 1" using f64.rnd_above [OF q(1)] q(2) unfolding y_def by simp
  moreover have "0 \<le> y" using f64.rnd_nonneg [OF q(1)] by (simp add: y_def)
  ultimately have "go_trunc y = 0" by (simp add: go_trunc_def floor_eq_iff)
  then show ?thesis unfolding retry x_def [symmetric] y_def [symmetric]
    by (simp add: whole_seconds_def duration_Seconds_def go_trunc_def)
qed

theorem refused_retry_at_once_witness:
  "\<exists>rl1 h retry. rateLimitMiddleware Some 0 0 \<lparr>ci_forwardedFor = ''a'', ci_realIP = [], ci_remoteAddr = ''c:1''\<rparr> () (Some demo_idle)
     = (rl1, h, TooManyRequests retry) \<and> retry = 0"
proof -
  let ?ci = "\<lparr>ci_forwardedFor = ''a'', ci_realIP = [], ci_remoteAddr = ''c:1''\<rparr>"
  have "refilled 0 0 demo_idle ''a'' = 0"
    by (simp add: refilled_def client_of_def demo_idle_def go_time_sub_def duration_Seconds_def NewRateLimiter_def f64.rnd_nonneg)
  then obtain rl1 h retry where r: "rateLimitMiddleware Some 0 0 ?ci () (Some demo_idle) = (rl1, h, TooManyRequests retry)"
    by (simp add: rateLimitMiddleware_def allow_eq getClientIP_def)
  have "61 \<le> rl_requestsPerMinute demo_idle" by (simp add: demo_idle_def NewRateLimiter_def)
  from refused_retry_at_once [OF demo_idle_ok this _ _ r] r show ?thesis by (intro exI conjI) auto
qed

section \<open>Smaller facts\<close>

text \<open>Requests of one instant: exactly a full burst of them is admitted.\<close>

lemma same_instant:
  assumes "limiter_ok t rl" and "mget (rl_clients rl) ip = Some \<lparr>cl_tokens = of_int k, cl_lastUpdate = t\<rparr>"
  shows "fst (snd (allow t t rl ip)) \<longleftrightarrow> 1 \<le> k"
    and "mget (rl_clients (fst (allow t t rl ip))) ip = Some \<lparr>cl_tokens = of_int (if 1 \<le> k then k - 1 else k), cl_lastUpdate = t\<rparr>"
proof -
  have k: "0 \<le> k" "k \<le> rl_burstSize rl" and b: "0 < rl_burstSize rl" "rl_burstSize rl < 2 ^ 53"
    using assms unfolding limiter_ok_def by force+
  have "gain rl 0 = 0" by (simp add: gain_def duration_Seconds_def)
  moreover have f: "f64 (of_int k) = of_int k" "f64 (of_int (k - 1)) = of_int (k - 1)" if "1 \<le> k"
    using k b that by (intro f64.rnd_int; simp)+
  moreover have "f64 (of_int k) = of_int k" using k b by (intro f64.rnd_int) simp_all
  ultimately have r: "refilled t t rl ip = of_int k"
    using assms(2) k b limiter_burst [OF assms(1)] by (simp add: refilled_gain client_of_def go_time_sub_def)
  have one: "(1 :: rat) \<le> of_int k \<longleftrightarrow> 1 \<le> k" by simp
  show "fst (snd (allow t t rl ip)) \<longleftrightarrow> 1 \<le> k" by (simp add: allow_eq Let_def r)
  show "mget (rl_clients (fst (allow t t rl ip))) ip = Some \<lparr>cl_tokens = of_int (if 1 \<le> k then k - 1 else k), cl_lastUpdate = t\<rparr>"
    using f(2) by (simp add: allow_eq Let_def r one)
qed

lemma burst_of_known:
  assumes "limiter_ok t rl" and "mget (rl_clients rl) ip = Some \<lparr>cl_tokens = of_int k, cl_lastUpdate = t\<rparr>"
  shows "admissions ip (replicate n (t, t, ip)) rl = min n (nat k)"
  using assms
proof (induction n arbitrary: rl k)
  case (Suc n)
  note s = same_instant [OF Suc.prems] and ok = allow_step(1) [OF Suc.prems(1), of t t ip]
  have "0 \<le> k" using Suc.prems unfolding limiter_ok_def by force
  then show ?case using Suc.IH [OF ok s(2)] s(1) by (cases "1 \<le> k") (auto simp: nat_diff_distrib)
qed simp

lemma burst_then_refused:
  assumes "limiter_ok t rl" and "mget (rl_clients rl) ip = None"
  shows "admissions ip (replicate n (t, t, ip)) rl = min n (nat (rl_burstSize rl))"
proof (cases n)
  case (Suc m)
  have r: "refilled t t rl ip = of_int (rl_burstSize rl)" using refilled_full [OF assms(1), of t t ip] assms(2) by simp
  have b: "0 < rl_burstSize rl" "rl_burstSize rl < 2 ^ 53" using assms(1) by (simp_all add: limiter_ok_def)
  have "f64 (of_int (rl_burstSize rl - 1)) = of_int (rl_burstSize rl - 1)" using b by (intro f64.rnd_int) simp_all
  then have "mget (rl_clients (fst (allow t t rl ip))) ip = Some \<lparr>cl_tokens = of_int (rl_burstSize rl - 1), cl_lastUpdate = t\<rparr>"
    using b by (simp add: allow_eq Let_def r)
  from burst_of_known [OF allow_step(1) [OF assms(1)] this] new_client_allowed(1) [OF assms(1) _ _ assms(2), of t t]
  show ?thesis using b by (simp add: Suc nat_diff_distrib)
qed simp

end
