(* ===== verification/Network.thy ===== *)
theory Network
  imports V2V_Prelude
begin

text \<open>
  The peer-to-peer host, the discovery of peers and the partition detector (service/network/host.go,
  discovery.go, partition.go). libp2p is a parameter: a record of the calls the code makes, over an unknown
  state of the network; \<open>net_spec\<close> is what closing a connection does to the list of
  connected peers. The clock is an argument, one instant per call, in nanoseconds. Start and
  Stop of the host are in Host_Life, the loops in Service_Loops.
\<close>

section \<open>libp2p\<close>

type_synonym peer_id = string
type_synonym multiaddr = bytes

record 'n net_lib =
  nl_Peers :: "'n \<Rightarrow> peer_id list"
  nl_Connectedness :: "'n \<Rightarrow> peer_id \<Rightarrow> nat"
  nl_Connect :: "'n \<Rightarrow> peer_id \<Rightarrow> multiaddr list \<Rightarrow> 'n \<times> bool"
  nl_ClosePeer :: "'n \<Rightarrow> peer_id \<Rightarrow> 'n \<times> bool"
  nl_Addrs :: "'n \<Rightarrow> peer_id \<Rightarrow> multiaddr list"
  nl_RoutingTable :: "'n \<Rightarrow> peer_id list"
  nl_NewMultiaddr :: "string \<Rightarrow> multiaddr option"
  nl_AddrInfo :: "multiaddr \<Rightarrow> (peer_id \<times> multiaddr list) option"

text \<open>The constant \<open>network.Connected\<close>.\<close>

definition Connected :: nat where
  "Connected = 1"

section \<open>The host\<close>

record peer_info =
  pi_ID :: peer_id
  pi_Multiaddrs :: "multiaddr list"
  pi_ConnectedAt :: int
  pi_Direction :: nat

record 'n p2p_host =
  h_net :: 'n
  h_self :: peer_id
  h_peers :: "(peer_id, peer_info) fmap"
  h_minConn :: int
  h_maxConn :: int
  h_bootstrap :: "string list"
  h_discovery :: "bool option"

text \<open>\<open>h_discovery\<close> is None while there is no discovery service, and otherwise whether it has a DHT.\<close>

datatype host_error = AddrParseFailed | ConnectFailed peer_id

definition host_Connect :: "'n net_lib \<Rightarrow> 'n p2p_host \<Rightarrow> multiaddr \<Rightarrow> 'n p2p_host \<times> host_error option" where
  "host_Connect L h addr =
     (case nl_AddrInfo L addr of
        None \<Rightarrow> (h, Some AddrParseFailed)
      | Some (p, addrs) \<Rightarrow>
          (case nl_Connect L (h_net h) p addrs of
             (n, ok) \<Rightarrow> (h\<lparr>h_net := n\<rparr>, if ok then None else Some (ConnectFailed p))))"

text \<open>The order in which Go visits the map of peers is the argument \<open>order\<close>.\<close>

definition GetPeers :: "peer_id list \<Rightarrow> 'n p2p_host \<Rightarrow> peer_info list" where
  "GetPeers order h = List.map_filter (mget (h_peers h)) order"

definition PeerCount :: "'n net_lib \<Rightarrow> 'n p2p_host \<Rightarrow> int" where
  "PeerCount L h = int (length (nl_Peers L (h_net h)))"

text \<open>The two notifications of setupConnectionHandlers.\<close>

definition ConnectedF :: "'n net_lib \<Rightarrow> int \<Rightarrow> nat \<Rightarrow> peer_id \<Rightarrow> 'n p2p_host \<Rightarrow> 'n p2p_host" where
  "ConnectedF L now direction p h =
     h\<lparr>h_peers := mput (h_peers h) p \<lparr>pi_ID = p, pi_Multiaddrs = nl_Addrs L (h_net h) p, pi_ConnectedAt = now,
                                     pi_Direction = direction\<rparr>\<rparr>"

definition DisconnectedF :: "peer_id \<Rightarrow> 'n p2p_host \<Rightarrow> 'n p2p_host" where
  "DisconnectedF p h = h\<lparr>h_peers := mdel (h_peers h) p\<rparr>"

fun connect_all :: "'n net_lib \<Rightarrow> string list \<Rightarrow> 'n p2p_host \<Rightarrow> 'n p2p_host" where
  "connect_all L [] h = h"
| "connect_all L (addr # addrs) h =
     (case nl_NewMultiaddr L addr of
        None \<Rightarrow> connect_all L addrs h
      | Some maddr \<Rightarrow> connect_all L addrs (fst (host_Connect L h maddr)))"

definition connectToBootstrapPeers :: "'n net_lib \<Rightarrow> 'n p2p_host \<Rightarrow> 'n p2p_host \<times> host_error option" where
  "connectToBootstrapPeers L h = (connect_all L (h_bootstrap h) h, None)"

fun parseListenAddrs :: "'n net_lib \<Rightarrow> string list \<Rightarrow> string + multiaddr list" where
  "parseListenAddrs L [] = Inr []"
| "parseListenAddrs L (addr # addrs) =
     (case nl_NewMultiaddr L addr of
        None \<Rightarrow> Inl addr
      | Some maddr \<Rightarrow> map_sum id (\<lambda>ms. maddr # ms) (parseListenAddrs L addrs))"

section \<open>Discovery\<close>

fun dht_connect :: "'n net_lib \<Rightarrow> peer_id list \<Rightarrow> 'n p2p_host \<Rightarrow> 'n p2p_host" where
  "dht_connect L [] h = h"
| "dht_connect L (p # ps) h =
     (if p = h_self h then dht_connect L ps h
      else if nl_Connectedness L (h_net h) p = Connected then dht_connect L ps h
      else let addrs = nl_Addrs L (h_net h) p in
        if length addrs = 0 then dht_connect L ps h
        else dht_connect L ps (h\<lparr>h_net := fst (nl_Connect L (h_net h) p addrs)\<rparr>))"

definition FindPeersViaDHT :: "'n net_lib \<Rightarrow> 'n p2p_host \<Rightarrow> 'n p2p_host" where
  "FindPeersViaDHT L h =
     (if h_discovery h \<noteq> Some True then h else dht_connect L (nl_RoutingTable L (h_net h)) h)"

definition findPeers :: "'n net_lib \<Rightarrow> 'n p2p_host \<Rightarrow> 'n p2p_host" where
  "findPeers L h = (if h_minConn h \<le> PeerCount L h then h else h)"

definition GetRoutingTableSize :: "'n net_lib \<Rightarrow> 'n p2p_host \<Rightarrow> int" where
  "GetRoutingTableSize L h =
     (if h_discovery h \<noteq> Some True then 0 else int (length (nl_RoutingTable L (h_net h))))"

definition FindPeers :: "'n net_lib \<Rightarrow> 'n p2p_host \<Rightarrow> peer_id list option" where
  "FindPeers L h = (if h_discovery h \<noteq> Some True then None else Some (nl_RoutingTable L (h_net h)))"

definition HandlePeerFound :: "'n net_lib \<Rightarrow> 'n p2p_host \<Rightarrow> peer_id \<Rightarrow> multiaddr list \<Rightarrow> 'n p2p_host" where
  "HandlePeerFound L h p addrs =
     (if p = h_self h then h
      else if nl_Connectedness L (h_net h) p = Connected then h
      else h\<lparr>h_net := fst (nl_Connect L (h_net h) p addrs)\<rparr>)"

text \<open>The loop of maintainConnections closes \<open>peers[i]\<close> while \<open>i\<close> is below both bounds.\<close>

function trim_loop :: "'n net_lib \<Rightarrow> peer_id list \<Rightarrow> nat \<Rightarrow> 'n p2p_host \<Rightarrow> 'n p2p_host" where
  "trim_loop L peers i h =
     (if int i < int (length peers) - h_maxConn h \<and> i < length peers
      then trim_loop L peers (Suc i) (h\<lparr>h_net := fst (nl_ClosePeer L (h_net h) (peers ! i))\<rparr>)
      else h)"
  by pat_completeness auto

termination
  by (relation "measure (\<lambda>(L, peers, i, h). length peers - i)") auto

declare trim_loop.simps [simp del]

definition maintainConnections :: "'n net_lib \<Rightarrow> 'n p2p_host \<Rightarrow> 'n p2p_host" where
  "maintainConnections L h =
     (let peerCount = PeerCount L h in
      if peerCount < h_minConn h
      then (if h_discovery h = Some True then FindPeersViaDHT L h else h)
      else if h_maxConn h < peerCount then trim_loop L (nl_Peers L (h_net h)) 0 h
      else h)"

section \<open>The partition detector\<close>

datatype PartitionState = StateConnected | StatePartitioned | StateRecovering

fun PartitionState_String :: "PartitionState \<Rightarrow> string" where
  "PartitionState_String StateConnected = ''connected''"
| "PartitionState_String StatePartitioned = ''partitioned''"
| "PartitionState_String StateRecovering = ''recovering''"

definition MinPeersForConnected :: int where "MinPeersForConnected = 2"
definition PartitionCheckInterval :: int where "PartitionCheckInterval = 10 * 10 ^ 9"
definition PartitionRecoveryTimeout :: int where "PartitionRecoveryTimeout = 30 * 10 ^ 9"
definition MaxPartitionDuration :: int where "MaxPartitionDuration = 5 * 60 * 10 ^ 9"

record partition_detector =
  pd_state :: PartitionState
  pd_partitionStart :: int
  pd_lastPeerCount :: int
  pd_checkInterval :: int
  pd_stopClosed :: bool
  pd_hasPartitionCallback :: bool
  pd_hasRecoveryCallback :: bool

datatype callback = OnPartitionDetected | OnRecoveryComplete

definition NewPartitionDetector :: partition_detector where
  "NewPartitionDetector = \<lparr>pd_state = StateConnected, pd_partitionStart = 0, pd_lastPeerCount = 0,
     pd_checkInterval = PartitionCheckInterval, pd_stopClosed = False, pd_hasPartitionCallback = False,
     pd_hasRecoveryCallback = False\<rparr>"

text \<open>Closing a closed channel panics.\<close>

definition pd_Stop :: "partition_detector \<Rightarrow> partition_detector outcome" where
  "pd_Stop pd = (if pd_stopClosed pd then Panic else Done (pd\<lparr>pd_stopClosed := True\<rparr>))"

definition pd_GetState :: "partition_detector \<Rightarrow> PartitionState" where
  "pd_GetState pd = pd_state pd"

definition IsPartitioned :: "partition_detector \<Rightarrow> bool" where
  "IsPartitioned pd \<longleftrightarrow> pd_GetState pd = StatePartitioned"

definition SetPartitionCallback :: "bool \<Rightarrow> partition_detector \<Rightarrow> partition_detector" where
  "SetPartitionCallback cb pd = pd\<lparr>pd_hasPartitionCallback := cb\<rparr>"

definition SetRecoveryCallback :: "bool \<Rightarrow> partition_detector \<Rightarrow> partition_detector" where
  "SetRecoveryCallback cb pd = pd\<lparr>pd_hasRecoveryCallback := cb\<rparr>"

fun refresh_each :: "'n net_lib \<Rightarrow> peer_info list \<Rightarrow> 'n p2p_host \<Rightarrow> 'n p2p_host" where
  "refresh_each L [] h = h"
| "refresh_each L (info # infos) h =
     (if nl_Connectedness L (h_net h) (pi_ID info) = nl_Connectedness L (h_net h) (pi_ID info) then refresh_each L infos h
      else case pi_Multiaddrs info of
        [] \<Rightarrow> refresh_each L infos h
      | addr # _ \<Rightarrow> refresh_each L infos (fst (host_Connect L h addr)))"

definition refreshPeerConnections :: "'n net_lib \<Rightarrow> peer_id list \<Rightarrow> 'n p2p_host \<Rightarrow> 'n p2p_host" where
  "refreshPeerConnections L order h = refresh_each L (GetPeers order h) h"

definition attemptRecovery ::
  "'n net_lib \<Rightarrow> peer_id list \<Rightarrow> 'n p2p_host \<Rightarrow> partition_detector \<Rightarrow> 'n p2p_host \<times> partition_detector" where
  "attemptRecovery L order h pd =
     (if pd_state pd = StateRecovering then (h, pd)
      else let pd = pd\<lparr>pd_state := StateRecovering\<rparr>;
               h = fst (connectToBootstrapPeers L h);
               h = (if h_discovery h \<noteq> None then FindPeersViaDHT L h else h)
           in (refreshPeerConnections L order h, pd))"

definition setPartitioned ::
  "'n net_lib \<Rightarrow> peer_id list \<Rightarrow> int \<Rightarrow> 'n p2p_host \<Rightarrow> partition_detector
     \<Rightarrow> 'n p2p_host \<times> partition_detector \<times> callback list" where
  "setPartitioned L order now h pd =
     (let pd = pd\<lparr>pd_state := StatePartitioned, pd_partitionStart := now\<rparr>;
          evs = (if pd_hasPartitionCallback pd then [OnPartitionDetected] else []);
          (h, pd) = attemptRecovery L order h pd
      in (h, pd, evs))"

definition setRecovered :: "partition_detector \<Rightarrow> partition_detector \<times> callback list" where
  "setRecovered pd =
     (let prevState = pd_state pd; pd = pd\<lparr>pd_state := StateConnected\<rparr> in
      (pd, if prevState \<noteq> StateConnected \<and> pd_hasRecoveryCallback pd then [OnRecoveryComplete] else []))"

definition checkPartition ::
  "'n net_lib \<Rightarrow> peer_id list \<Rightarrow> int \<Rightarrow> 'n p2p_host \<Rightarrow> partition_detector
     \<Rightarrow> 'n p2p_host \<times> partition_detector \<times> callback list" where
  "checkPartition L order now h pd =
     (let peerCount = PeerCount L h;
          (h, pd, evs) =
            (case pd_state pd of
               StateConnected \<Rightarrow>
                 if peerCount < MinPeersForConnected \<and> pd_lastPeerCount pd < MinPeersForConnected
                 then setPartitioned L order now h pd else (h, pd, [])
             | StatePartitioned \<Rightarrow>
                 if MinPeersForConnected \<le> peerCount then (h, setRecovered pd)
                 else if MaxPartitionDuration < go_time_sub now (pd_partitionStart pd)
                   then (case attemptRecovery L order h pd of (h, pd) \<Rightarrow> (h, pd, []))
                 else (h, pd, [])
             | StateRecovering \<Rightarrow>
                 if MinPeersForConnected \<le> peerCount then (h, setRecovered pd)
                 else if PartitionRecoveryTimeout < go_time_sub now (pd_partitionStart pd)
                   then setPartitioned L order now h pd
                 else (h, pd, []))
      in (h, pd\<lparr>pd_lastPeerCount := peerCount\<rparr>, evs))"

record partition_stats =
  pst_State :: string
  pst_PeerCount :: int
  pst_PartitionTime :: int
  pst_IsPartitioned :: bool

definition GetPartitionStats :: "'n net_lib \<Rightarrow> 'n p2p_host \<Rightarrow> partition_detector \<Rightarrow> partition_stats" where
  "GetPartitionStats L h pd = \<lparr>pst_State = PartitionState_String (pd_state pd), pst_PeerCount = PeerCount L h,
     pst_PartitionTime = pd_partitionStart pd, pst_IsPartitioned = (pd_state pd = StatePartitioned)\<rparr>"

record network_stats =
  ns_PeerCount :: int
  ns_ConnectedPeers :: "peer_info list"
  ns_MinConnections :: int
  ns_MaxConnections :: int
  ns_PartitionStats :: "partition_stats option"

definition GetNetworkStats ::
  "'n net_lib \<Rightarrow> peer_id list \<Rightarrow> 'n p2p_host \<Rightarrow> partition_detector option \<Rightarrow> network_stats" where
  "GetNetworkStats L order h d = \<lparr>ns_PeerCount = PeerCount L h, ns_ConnectedPeers = GetPeers order h,
     ns_MinConnections = h_minConn h, ns_MaxConnections = h_maxConn h,
     ns_PartitionStats = map_option (GetPartitionStats L h) d\<rparr>"

section \<open>One check of the detector\<close>

lemma refresh_each_idle [simp]: "refresh_each L infos h = h"
  by (induction infos) simp_all

lemma attemptRecovery_detector:
  "snd (attemptRecovery L order h pd) = pd\<lparr>pd_state := StateRecovering\<rparr>"
  by (cases pd) (simp add: attemptRecovery_def Let_def)

lemma setPartitioned_detector:
  "fst (snd (setPartitioned L order now h pd)) = pd\<lparr>pd_state := StateRecovering, pd_partitionStart := now\<rparr>"
  "snd (snd (setPartitioned L order now h pd)) = (if pd_hasPartitionCallback pd then [OnPartitionDetected] else [])"
  by (simp_all add: setPartitioned_def split_beta attemptRecovery_detector Let_def)

text \<open>The detector at rest: never partitioned. One check as a function of the number of peers and the clock.\<close>

definition next_detector :: "int \<Rightarrow> int \<Rightarrow> partition_detector \<Rightarrow> partition_detector" where
  "next_detector n now pd =
     (let lost = n < 2 \<and> (if pd_state pd = StateConnected then pd_lastPeerCount pd < 2
                           else PartitionRecoveryTimeout < go_time_sub now (pd_partitionStart pd))
      in pd\<lparr>pd_state := (if 2 \<le> n then StateConnected else if lost then StateRecovering else pd_state pd),
            pd_partitionStart := (if lost then now else pd_partitionStart pd), pd_lastPeerCount := n\<rparr>)"

lemma checkPartition_detector:
  assumes "pd_state pd \<noteq> StatePartitioned"
  shows "fst (snd (checkPartition L order now h pd)) = next_detector (PeerCount L h) now pd"
  using assms
  by (cases pd; cases "pd_state pd")
    (simp_all add: checkPartition_def next_detector_def MinPeersForConnected_def setPartitioned_detector split_beta
      setRecovered_def Let_def)

text \<open>Runs: between two checks the host and its network may change in any way, and callbacks may be set.\<close>

inductive pd_run :: "'n net_lib \<Rightarrow> partition_detector \<Rightarrow> bool" for L where
  start: "pd_run L NewPartitionDetector"
| check: "pd_run L pd \<Longrightarrow> pd_run L (fst (snd (checkPartition L order now h pd)))"
| callbacks: "pd_run L pd \<Longrightarrow> pd_run L (SetPartitionCallback a (SetRecoveryCallback b pd))"
| stop: "pd_run L pd \<Longrightarrow> pd_Stop pd = Done pd' \<Longrightarrow> pd_run L pd'"

lemma pd_run_state: "pd_run L pd \<Longrightarrow> pd_state pd \<noteq> StatePartitioned"
proof (induction rule: pd_run.induct)
  case (check pd order now h)
  then show ?case by (simp add: checkPartition_detector next_detector_def Let_def)
qed (auto simp: NewPartitionDetector_def SetPartitionCallback_def SetRecoveryCallback_def pd_Stop_def split: if_splits)

section \<open>Trimming\<close>

text \<open>What libp2p promises of closing: exactly the peer named leaves.\<close>

definition net_spec :: "'n net_lib \<Rightarrow> bool" where
  "net_spec L \<longleftrightarrow> (\<forall>n. distinct (nl_Peers L n))
     \<and> (\<forall>n p. snd (nl_ClosePeer L n p) \<longrightarrow> set (nl_Peers L (fst (nl_ClosePeer L n p))) = set (nl_Peers L n) - {p})
     \<and> (\<forall>n p. \<not> snd (nl_ClosePeer L n p) \<longrightarrow> set (nl_Peers L (fst (nl_ClosePeer L n p))) = set (nl_Peers L n))"

lemma trim_loop_peers:
  assumes "net_spec L" and "\<And>n p. snd (nl_ClosePeer L n p)" and "h_maxConn h = int m" and "i \<le> length peers - m"
  shows "set (nl_Peers L (h_net (trim_loop L peers i h)))
    = set (nl_Peers L (h_net h)) - set (drop i (take (length peers - m) peers))"
  using assms(3,4)
proof (induction "length peers - m - i" arbitrary: i h)
  case 0
  then show ?case by (subst trim_loop.simps) simp
next
  case (Suc k)
  then have i: "i < length peers - m" by simp
  let ?h = "h\<lparr>h_net := fst (nl_ClosePeer L (h_net h) (peers ! i))\<rparr>"
  have "drop i (take (length peers - m) peers) = peers ! i # drop (Suc i) (take (length peers - m) peers)"
    using i by (simp add: Cons_nth_drop_Suc [symmetric])
  moreover have "set (nl_Peers L (h_net ?h)) = set (nl_Peers L (h_net h)) - {peers ! i}"
    using assms(1,2) by (simp add: net_spec_def)
  moreover have "trim_loop L peers i h = trim_loop L peers (Suc i) ?h"
    using i Suc.prems(1) by (subst trim_loop.simps) simp
  moreover have "set (nl_Peers L (h_net (trim_loop L peers (Suc i) ?h)))
    = set (nl_Peers L (h_net ?h)) - set (drop (Suc i) (take (length peers - m) peers))"
    using Suc i by (intro Suc.hyps(1)) simp_all
  ultimately show ?case by auto
qed

section \<open>Properties\<close>

text \<open>
  The detector in every run: after a check its state is connected if there are two peers or more, and
  with fewer it is recovering once two checks in a row have found fewer; it is never found partitioned
  by a caller between checks, so \<open>IsPartitioned\<close> is always false.
\<close>

theorem partition_check_result:
  assumes "pd_run L pd"
  shows "let pd' = fst (snd (checkPartition L order now h pd)); n = PeerCount L h in
    pd_GetState pd' = (if 2 \<le> n then StateConnected
                       else if pd_state pd = StateRecovering \<or> pd_lastPeerCount pd < 2 then StateRecovering
                       else StateConnected)
    \<and> \<not> IsPartitioned pd \<and> \<not> pst_IsPartitioned (GetPartitionStats L h pd)"
  using pd_run_state [OF assms]
  by (cases "pd_state pd")
    (auto simp: checkPartition_detector next_detector_def pd_GetState_def IsPartitioned_def GetPartitionStats_def Let_def)

text \<open>A network that is a list of connected peers, in which every call succeeds.\<close>

definition list_net :: "peer_id list net_lib" where
  "list_net = \<lparr>nl_Peers = remdups, nl_Connectedness = (\<lambda>n p. if p \<in> set n then 1 else 0),
     nl_Connect = (\<lambda>n p addrs. (p # n, True)), nl_ClosePeer = (\<lambda>n p. (filter (\<lambda>q. q \<noteq> p) n, True)),
     nl_Addrs = (\<lambda>n p. [[0]]), nl_RoutingTable = (\<lambda>n. n), nl_NewMultiaddr = (\<lambda>s. Some (string_bytes s)),
     nl_AddrInfo = (\<lambda>a. Some (''x'', [a]))\<rparr>"

definition demo_host :: "peer_id list \<Rightarrow> peer_id list p2p_host" where
  "demo_host ps = \<lparr>h_net = ps, h_self = ''self'', h_peers = fmempty, h_minConn = 1, h_maxConn = 2,
     h_bootstrap = [], h_discovery = None\<rparr>"

theorem partition_check_result_witness:
  "pd_run list_net NewPartitionDetector
   \<and> pd_GetState (fst (snd (checkPartition list_net [] 0 (demo_host [''a'']) NewPartitionDetector))) = StateRecovering"
  using partition_check_result [OF pd_run.start, of list_net "[]" 0 "demo_host [''a'']"] pd_run.start [of list_net]
  by (simp add: Let_def PeerCount_def list_net_def demo_host_def NewPartitionDetector_def)

text \<open>
  A series of checks of one detector, each with the clock and the host it finds: the host each check leaves behind
  and the callbacks it starts.
\<close>

fun run_checks ::
  "'n net_lib \<Rightarrow> peer_id list \<Rightarrow> (int \<times> 'n p2p_host) list \<Rightarrow> partition_detector \<Rightarrow> ('n p2p_host \<times> callback list) list" where
  "run_checks L order [] pd = []"
| "run_checks L order ((now, h) # rest) pd =
     (case checkPartition L order now h pd of (h', pd', evs) \<Rightarrow> (h', evs) # run_checks L order rest pd')"

text \<open>
  The checks at which an attempt is due: the first one, and every one more than PartitionRecoveryTimeout after the
  last attempt.
\<close>

fun recovery_due :: "int option \<Rightarrow> int list \<Rightarrow> bool list" where
  "recovery_due prev [] = []"
| "recovery_due None (t # ts) = True # recovery_due (Some t) ts"
| "recovery_due (Some t0) (t # ts) =
     (if PartitionRecoveryTimeout < t - t0 then True # recovery_due (Some t) ts else False # recovery_due (Some t0) ts)"

lemma length_recovery_due [simp]: "length (recovery_due prev ts) = length ts"
  by (induction prev ts rule: recovery_due.induct) simp_all

text \<open>A tick that comes 30 seconds after the attempt is too early by the comparison of the code, a later one is not.\<close>

lemma recovery_due_ticks:
  "recovery_due None (map (\<lambda>k. k * PartitionCheckInterval) [0, 1, 2, 3, 4]) = [True, False, False, False, True]"
  "recovery_due None (map (\<lambda>k. k * (PartitionCheckInterval + 1)) [0, 1, 2, 3, 4]) = [True, False, False, True, False]"
  by (simp_all add: PartitionCheckInterval_def PartitionRecoveryTimeout_def)

text \<open>No attempt is further away than the first check that finds the timeout passed.\<close>

lemma recovery_due_later:
  assumes "k < length ts" and "PartitionRecoveryTimeout < ts ! k - t0"
  shows "\<exists>i \<le> k. recovery_due (Some t0) ts ! i"
  using assms
proof (induction ts arbitrary: k)
  case (Cons t ts)
  show ?case
  proof (cases "PartitionRecoveryTimeout < t - t0")
    case False
    with Cons.prems obtain k' where k: "k = Suc k'" by (cases k) auto
    with Cons obtain i where "i \<le> k'" "recovery_due (Some t0) ts ! i" by auto
    with k False show ?thesis by (intro exI [of _ "Suc i"]) simp
  qed (auto intro: exI [of _ 0])
qed simp

lemma recovery_due_again:
  assumes "j < k" and "k < length ts" and "recovery_due prev ts ! j" and "PartitionRecoveryTimeout < ts ! k - ts ! j"
  shows "\<exists>i. j < i \<and> i \<le> k \<and> recovery_due prev ts ! i"
  using assms
proof (induction ts arbitrary: prev j k)
  case (Cons t ts)
  obtain k' where k: "k = Suc k'" using Cons.prems(1) by (cases k) auto
  define now where "now = hd (recovery_due prev (t # ts))"
  define then' where "then' = (if now then Some t else prev)"
  have rd: "recovery_due prev (t # ts) = now # recovery_due then' ts"
    by (cases prev) (simp_all add: now_def then'_def)
  have "\<exists>i. j \<le> i \<and> i \<le> k' \<and> recovery_due then' ts ! i"
  proof (cases j)
    case 0
    with Cons.prems(3) rd have "then' = Some t" by (simp add: then'_def)
    with recovery_due_later [of k' ts t] Cons.prems(2,4) k 0 show ?thesis by auto
  next
    case (Suc j')
    with Cons.IH [of j' k' then'] Cons.prems k rd show ?thesis by (auto simp: Suc_le_eq)
  qed
  then obtain i where "j \<le> i" "i \<le> k'" "recovery_due then' ts ! i" by blast
  with k show ?case unfolding rd by (intro exI [of _ "Suc i"]) simp
qed simp

text \<open>What an attempt does to the network: it dials the bootstrap peers and then the peers of the routing table.\<close>

definition bootstrap_peers :: "'n net_lib \<Rightarrow> string list \<Rightarrow> (peer_id \<times> multiaddr list) list" where
  "bootstrap_peers L addrs = List.map_filter (\<lambda>a. Option.bind (nl_NewMultiaddr L a) (nl_AddrInfo L)) addrs"

lemma connect_all_dials:
  "connect_all L addrs h = h\<lparr>h_net := fold (\<lambda>(p, as) n. fst (nl_Connect L n p as)) (bootstrap_peers L addrs) (h_net h)\<rparr>"
proof (induction addrs arbitrary: h)
  case (Cons a addrs)
  then show ?case
    by (auto simp: bootstrap_peers_def map_filter_simps host_Connect_def split: option.split prod.split)
qed (simp add: bootstrap_peers_def map_filter_simps)

definition dialed :: "'n net_lib \<Rightarrow> 'n p2p_host \<Rightarrow> 'n p2p_host" where
  "dialed L h = FindPeersViaDHT L
     (h\<lparr>h_net := fold (\<lambda>(p, as) n. fst (nl_Connect L n p as)) (bootstrap_peers L (h_bootstrap h)) (h_net h)\<rparr>)"

lemma attemptRecovery_dials:
  "pd_state pd \<noteq> StateRecovering \<Longrightarrow> fst (attemptRecovery L order h pd) = dialed L h"
  by (cases "h_discovery h") (simp_all add: attemptRecovery_def dialed_def connectToBootstrapPeers_def connect_all_dials refreshPeerConnections_def
      FindPeersViaDHT_def Let_def)

lemma late_enough: "PartitionRecoveryTimeout < go_time_sub now t0 \<longleftrightarrow> PartitionRecoveryTimeout < now - t0"
  by (auto simp: go_time_sub_def PartitionRecoveryTimeout_def)

text \<open>One check that finds fewer than two peers, of a detector that is new or recovering.\<close>

lemma check_few:
  assumes "PeerCount L h < 2" and "pd_state pd = StateRecovering \<or> pd_state pd = StateConnected \<and> pd_lastPeerCount pd < 2"
    and "due \<longleftrightarrow> (pd_state pd = StateRecovering \<longrightarrow> PartitionRecoveryTimeout < now - pd_partitionStart pd)"
  shows "\<exists>pd'. checkPartition L order now h pd = (if due then dialed L h else h, pd',
      if due \<and> pd_hasPartitionCallback pd then [OnPartitionDetected] else [])
    \<and> pd_state pd' = StateRecovering \<and> pd_partitionStart pd' = (if due then now else pd_partitionStart pd)
    \<and> pd_hasPartitionCallback pd' = pd_hasPartitionCallback pd"
  using assms
  by (auto simp: checkPartition_def MinPeersForConnected_def setPartitioned_def attemptRecovery_dials late_enough
      attemptRecovery_detector split_beta Let_def split: PartitionState.splits)

lemma recovering_checks:
  assumes "\<forall>c \<in> set cs. PeerCount L (snd c) < 2"
    and "case prev of None \<Rightarrow> pd_state pd = StateConnected \<and> pd_lastPeerCount pd < 2
      | Some t \<Rightarrow> pd_state pd = StateRecovering \<and> pd_partitionStart pd = t"
  shows "run_checks L order cs pd = map2 (\<lambda>c due. (if due then dialed L (snd c) else snd c,
      if due \<and> pd_hasPartitionCallback pd then [OnPartitionDetected] else [])) cs (recovery_due prev (map fst cs))"
  using assms
proof (induction cs arbitrary: pd prev)
  case (Cons c cs)
  obtain now h where c: "c = (now, h)" by (cases c)
  define due where "due = (pd_state pd = StateRecovering \<longrightarrow> PartitionRecoveryTimeout < now - pd_partitionStart pd)"
  obtain pd' where pd': "checkPartition L order now h pd = (if due then dialed L h else h, pd',
      if due \<and> pd_hasPartitionCallback pd then [OnPartitionDetected] else [])"
    "pd_state pd' = StateRecovering" "pd_partitionStart pd' = (if due then now else pd_partitionStart pd)"
    "pd_hasPartitionCallback pd' = pd_hasPartitionCallback pd"
    using check_few [of L h pd due now order] Cons.prems c by (auto simp: due_def split: option.splits)
  have rd: "recovery_due prev (map fst (c # cs)) = due # recovery_due (Some (pd_partitionStart pd')) (map fst cs)"
    using Cons.prems(2) by (cases prev) (simp_all add: c due_def pd'(3))
  have "run_checks L order cs pd' = map2 (\<lambda>c due. (if due then dialed L (snd c) else snd c,
      if due \<and> pd_hasPartitionCallback pd then [OnPartitionDetected] else [])) cs
      (recovery_due (Some (pd_partitionStart pd')) (map fst cs))"
    using Cons.IH [of pd' "Some (pd_partitionStart pd')"] Cons.prems(1) pd'(2,4) by simp
  with rd pd'(1) show ?case by (simp add: c)
qed simp

text \<open>
  C31. A lost network is not given up. Let every check of a new detector find fewer than two peers, at whatever
  instants the checks come. Then the first check attempts to recover, and after an attempt the first check more than
  30 seconds later does so again, and no other. An attempt dials every bootstrap peer whose address is valid and then
  the peers of the DHT routing table, and starts the callback for partitions if there is one; a check without an
  attempt leaves the host as it is.
\<close>

theorem recovery_retried:
  assumes "\<forall>c \<in> set cs. PeerCount L (snd c) < 2" and "due = recovery_due None (map fst cs)"
    and "checks = run_checks L order cs (SetPartitionCallback cb NewPartitionDetector)" and "k < length cs"
  shows "length checks = length cs \<and> due ! 0
    \<and> fst (checks ! k) = (let h = snd (cs ! k) in if due ! k then FindPeersViaDHT L (h\<lparr>h_net :=
          fold (\<lambda>(p, as) n. fst (nl_Connect L n p as)) (bootstrap_peers L (h_bootstrap h)) (h_net h)\<rparr>) else h)
    \<and> snd (checks ! k) = (if due ! k \<and> cb then [OnPartitionDetected] else [])
    \<and> (\<forall>j < k. due ! j \<longrightarrow> PartitionRecoveryTimeout < fst (cs ! k) - fst (cs ! j) \<longrightarrow> (\<exists>i. j < i \<and> i \<le> k \<and> due ! i))"
proof -
  have r: "checks = map2 (\<lambda>c due. (if due then dialed L (snd c) else snd c,
      if due \<and> cb then [OnPartitionDetected] else [])) cs due"
    using recovering_checks [OF assms(1), of "SetPartitionCallback cb NewPartitionDetector" None order]
    unfolding assms(2,3) by (simp add: SetPartitionCallback_def NewPartitionDetector_def)
  have len: "length due = length cs" by (simp add: assms(2))
  have "due ! 0" using assms(2,4) by (cases cs) auto
  moreover have "\<exists>i. j < i \<and> i \<le> k \<and> due ! i"
    if "j < k" "due ! j" "PartitionRecoveryTimeout < fst (cs ! k) - fst (cs ! j)" for j
    using recovery_due_again [of j k "map fst cs" None] that assms(2,4) by simp
  ultimately show ?thesis using assms(4) len by (simp add: r Let_def dialed_def)
qed

theorem recovery_retried_witness:
  "fst (run_checks list_net [] (map (\<lambda>t. (t, demo_host []\<lparr>h_bootstrap := [''b'']\<rparr>)) [0, 10 ^ 10, 31 * 10 ^ 9])
     (SetPartitionCallback True NewPartitionDetector) ! 2) = demo_host [''x'']\<lparr>h_bootstrap := [''b'']\<rparr>"
proof -
  let ?cs = "map (\<lambda>t. (t, demo_host []\<lparr>h_bootstrap := [''b'']\<rparr>)) [0, 10 ^ 10, 31 * 10 ^ 9]"
  have few: "\<forall>c \<in> set ?cs. PeerCount list_net (snd c) < 2" by (simp add: PeerCount_def list_net_def demo_host_def)
  show ?thesis
    using recovery_retried [OF few refl refl, of 2 "[]" True]
    by (simp add: PartitionRecoveryTimeout_def bootstrap_peers_def map_filter_simps list_net_def demo_host_def
        FindPeersViaDHT_def)
qed

text \<open>
  Maintenance keeps the number of peers within the maximum: when every close succeeds and the
  minimum is not above the maximum, at most \<open>maxConn\<close> peers stay connected, all of them were
  connected before, and none is closed while the maximum is kept.
\<close>

theorem maintenance_keeps_maximum:
  assumes "net_spec L" and "\<And>n p. snd (nl_ClosePeer L n p)" and "h_maxConn h = int m"
    and "h_minConn h \<le> PeerCount L h"
  shows "let h' = maintainConnections L h in
    PeerCount L h' = min (PeerCount L h) (int m) \<and> set (nl_Peers L (h_net h')) \<subseteq> set (nl_Peers L (h_net h))
    \<and> (PeerCount L h \<le> int m \<longrightarrow> h' = h)"
proof (cases "PeerCount L h \<le> int m")
  case True
  with assms(3,4) show ?thesis by (simp add: maintainConnections_def Let_def)
next
  case False
  let ?ps = "nl_Peers L (h_net h)"
  have len: "m < length ?ps" using False by (simp add: PeerCount_def)
  have h': "maintainConnections L h = trim_loop L ?ps 0 h"
    using False assms(3,4) by (simp add: maintainConnections_def Let_def)
  have d: "distinct (nl_Peers L n)" for n using assms(1) by (simp add: net_spec_def)
  have s: "set (nl_Peers L (h_net (trim_loop L ?ps 0 h))) = set ?ps - set (take (length ?ps - m) ?ps)"
    using trim_loop_peers [OF assms(1,2,3), of 0 ?ps] by simp
  have "card (set ?ps - set (take (length ?ps - m) ?ps)) = length ?ps - (length ?ps - m)"
    using d by (subst card_Diff_subset) (auto simp: distinct_card distinct_take dest: in_set_takeD)
  then have "length (nl_Peers L (h_net (trim_loop L ?ps 0 h))) = m"
    using s d len by (metis distinct_card diff_diff_cancel less_imp_le)
  with s h' False show ?thesis by (auto simp: PeerCount_def Let_def)
qed

lemma list_net_spec: "net_spec list_net"
  by (auto simp: net_spec_def list_net_def)

theorem maintenance_keeps_maximum_witness:
  "PeerCount list_net (maintainConnections list_net (demo_host [''a'', ''b'', ''c''])) = 2"
proof -
  have "snd (nl_ClosePeer list_net n p)" for n p by (simp add: list_net_def)
  from maintenance_keeps_maximum [OF list_net_spec this, of "demo_host [''a'', ''b'', ''c'']" 2] show ?thesis
    by (simp add: PeerCount_def demo_host_def list_net_def Let_def)
qed

text \<open>
  A peer with two connections is forgotten when one of them closes, and the discovery loop never
  opens a connection.
\<close>

lemma second_connection_forgotten:
  "mget (h_peers (DisconnectedF p (ConnectedF L t d p (ConnectedF L t' d' p h)))) p = None"
  by (simp add: ConnectedF_def DisconnectedF_def)

lemma discovery_loop_idle: "findPeers L h = h"
  by (simp add: findPeers_def)

lemma refresh_never_reconnects: "refreshPeerConnections L order h = h"
  by (simp add: refreshPeerConnections_def)

lemma pd_Stop_twice: "pd_Stop pd = Done pd' \<Longrightarrow> pd_Stop pd' = Panic"
  by (auto simp: pd_Stop_def split: if_splits)

end
