(* ===== verification/Gossip.thy ===== *)
theory Gossip
  imports Block_Storage
begin

text \<open>
  Publishing and receiving over pubsub (service/network/gossip.go). The pubsub library is a parameter, a
  record of the calls the code makes over an unknown state. A message that arrives is one call of
  \<open>messageHandler\<close>; a panic of a handler ends the process, because it runs in a goroutine of its own.
\<close>

section \<open>The service\<close>

record 'n pubsub_lib =
  ps_Join :: "'n \<Rightarrow> string \<Rightarrow> 'n \<times> bool"
  ps_Subscribe :: "'n \<Rightarrow> string \<Rightarrow> 'n \<times> bool"
  ps_Publish :: "'n \<Rightarrow> string \<Rightarrow> bytes \<Rightarrow> 'n \<times> bool"
  ps_Cancel :: "'n \<Rightarrow> string \<Rightarrow> 'n"
  ps_Close :: "'n \<Rightarrow> string \<Rightarrow> 'n"
  ps_ListPeers :: "'n \<Rightarrow> string \<Rightarrow> string list"

definition TopicBlocks :: string where "TopicBlocks = ''v2v-blocks''"
definition TopicTransactions :: string where "TopicTransactions = ''v2v-transactions''"
definition TopicConsensus :: string where "TopicConsensus = ''v2v-consensus''"

text \<open>
  \<open>gs_handlers\<close> tells which handler the goroutine of a subscription runs. The last three fields are not in the
  code: they are what the service holds, the open topics and subscriptions of pubsub and the topics whose
  goroutine \<open>messageHandler\<close> runs.
\<close>

datatype topic_handler = HandleBlock | HandleTransaction | HandleConsensus

record 'n gossip_service =
  gs_self :: string
  gs_topics :: "string fset"
  gs_handlers :: "(string, topic_handler) fmap"
  gs_cancelled :: bool
  gs_net :: 'n
  gs_joined :: "string fset"
  gs_subscribed :: "string fset"
  gs_running :: "string fset"

datatype gossip_error =
    JoinFailed string
  | SubscribeFailed string
  | NotSubscribed string
  | PublishFailed string

definition NewGossipService :: "'n \<Rightarrow> string \<Rightarrow> 'n gossip_service" where
  "NewGossipService net self = \<lparr>gs_self = self, gs_topics = {||}, gs_handlers = fmempty, gs_cancelled = False, gs_net = net,
     gs_joined = {||}, gs_subscribed = {||}, gs_running = {||}\<rparr>"

definition SubscribeTopic ::
  "'n pubsub_lib \<Rightarrow> 'n gossip_service \<Rightarrow> string \<Rightarrow> topic_handler \<Rightarrow> 'n gossip_service \<times> gossip_error option" where
  "SubscribeTopic L g topicName handler =
     (if topicName |\<in>| gs_topics g then (g, None)
      else case ps_Join L (gs_net g) topicName of
        (n, False) \<Rightarrow> (g\<lparr>gs_net := n\<rparr>, Some (JoinFailed topicName))
      | (n, True) \<Rightarrow>
          (case ps_Subscribe L n topicName of
             (n, False) \<Rightarrow> (g\<lparr>gs_net := ps_Close L n topicName\<rparr>, Some (SubscribeFailed topicName))
           | (n, True) \<Rightarrow> (g\<lparr>gs_net := n, gs_topics := finsert topicName (gs_topics g),
                            gs_handlers := mput (gs_handlers g) topicName handler, gs_joined := finsert topicName (gs_joined g),
                            gs_subscribed := finsert topicName (gs_subscribed g),
                            gs_running := finsert topicName (gs_running g)\<rparr>, None)))"

definition gossip_Start :: "'n pubsub_lib \<Rightarrow> 'n gossip_service \<Rightarrow> 'n gossip_service \<times> gossip_error option" where
  "gossip_Start L g =
     (case SubscribeTopic L g TopicBlocks HandleBlock of
        (g, Some e) \<Rightarrow> (g, Some e)
      | (g, None) \<Rightarrow>
          (case SubscribeTopic L g TopicTransactions HandleTransaction of
             (g, Some e) \<Rightarrow> (g, Some e)
           | (g, None) \<Rightarrow> SubscribeTopic L g TopicConsensus HandleConsensus))"

text \<open>
  Stop visits the subscriptions and the topics in the orders given. Closing a topic that still has a subscription is
  an error of pubsub, which Stop does not look at. The goroutines are not waited for: \<open>handler_leaves\<close> is one of them
  that finds its context cancelled.
\<close>

definition sub_Cancel :: "'n pubsub_lib \<Rightarrow> string \<Rightarrow> 'n gossip_service \<Rightarrow> 'n gossip_service" where
  "sub_Cancel L t g = g\<lparr>gs_net := ps_Cancel L (gs_net g) t, gs_subscribed := gs_subscribed g |-| {|t|}\<rparr>"

definition topic_Close :: "'n pubsub_lib \<Rightarrow> string \<Rightarrow> 'n gossip_service \<Rightarrow> 'n gossip_service" where
  "topic_Close L t g = g\<lparr>gs_net := ps_Close L (gs_net g) t,
     gs_joined := (if t |\<in>| gs_subscribed g then gs_joined g else gs_joined g |-| {|t|})\<rparr>"

definition gossip_Stop :: "'n pubsub_lib \<Rightarrow> string list \<Rightarrow> string list \<Rightarrow> 'n gossip_service \<Rightarrow> 'n gossip_service" where
  "gossip_Stop L subs topics g =
     fold (topic_Close L) topics (fold (sub_Cancel L) subs (g\<lparr>gs_cancelled := True\<rparr>))"

inductive handler_leaves :: "'n gossip_service \<Rightarrow> 'n gossip_service \<Rightarrow> bool" where
  "gs_cancelled g \<Longrightarrow> t |\<in>| gs_running g \<Longrightarrow> handler_leaves g (g\<lparr>gs_running := gs_running g |-| {|t|}\<rparr>)"

section \<open>Publishing\<close>

definition enc_block_message :: "block \<Rightarrow> string \<Rightarrow> i64 \<Rightarrow> json" where
  "enc_block_message b peer ts = JObj [(''block'', enc_block b), (''peer_id'', JStr peer), (''timestamp'', enc_sint ts)]"

definition enc_tx_message :: "tx \<Rightarrow> string \<Rightarrow> i64 \<Rightarrow> json" where
  "enc_tx_message tx peer ts = JObj [(''transaction'', enc_tx tx), (''peer_id'', JStr peer), (''timestamp'', enc_sint ts)]"

definition publish :: "'n pubsub_lib \<Rightarrow> 'n gossip_service \<Rightarrow> string \<Rightarrow> bytes \<Rightarrow> 'n gossip_service \<times> gossip_error option" where
  "publish L g topic data =
     (if topic |\<notin>| gs_topics g then (g, Some (NotSubscribed topic))
      else case ps_Publish L (gs_net g) topic data of
        (n, ok) \<Rightarrow> (g\<lparr>gs_net := n\<rparr>, if ok then None else Some (PublishFailed topic)))"

definition PublishBlock :: "json_lib \<Rightarrow> 'n pubsub_lib \<Rightarrow> 'n gossip_service \<Rightarrow> block \<Rightarrow> 'n gossip_service \<times> gossip_error option" where
  "PublishBlock J L g block =
     publish L g TopicBlocks (js_text J (enc_block_message block (gs_self g) (hdr_Timestamp (blk_Header block))))"

definition PublishTransaction :: "json_lib \<Rightarrow> 'n pubsub_lib \<Rightarrow> 'n gossip_service \<Rightarrow> tx \<Rightarrow> 'n gossip_service \<times> gossip_error option" where
  "PublishTransaction J L g tx =
     publish L g TopicTransactions (js_text J (enc_tx_message tx (gs_self g) (tx_Timestamp tx)))"

definition PublishConsensusMessage :: "'n pubsub_lib \<Rightarrow> 'n gossip_service \<Rightarrow> bytes \<Rightarrow> 'n gossip_service \<times> gossip_error option" where
  "PublishConsensusMessage L g data = publish L g TopicConsensus data"

definition gossip_GetPeerCount :: "'n pubsub_lib \<Rightarrow> 'n gossip_service \<Rightarrow> string \<Rightarrow> int" where
  "gossip_GetPeerCount L g topic =
     (if topic |\<notin>| gs_topics g then 0 else int (length (ps_ListPeers L (gs_net g) topic)))"

section \<open>Receiving\<close>

text \<open>Pointers of the messages are options: \<open>null\<close> and a missing field leave them nil.\<close>

record gossip_block =
  gb_Header :: "header option"
  gb_Transactions :: "tx option list"

definition dec_gossip_block :: "gossip_block decoder" where
  "dec_gossip_block j =
     (if \<not> is_obj j then None
      else Option.bind (jget j ''header'' (dec_ptr dec_header) None) (\<lambda>h.
        Option.bind (jget j ''transactions'' (dec_list (dec_ptr dec_tx)) []) (\<lambda>txs.
          Some \<lparr>gb_Header = h, gb_Transactions = txs\<rparr>)))"

record 'b gossip_message =
  gm_content :: "'b option"
  gm_PeerID :: string
  gm_Timestamp :: i64

definition dec_message :: "string \<Rightarrow> 'b decoder \<Rightarrow> 'b gossip_message decoder" where
  "dec_message field dec j =
     (if j = JNull then Some \<lparr>gm_content = None, gm_PeerID = [], gm_Timestamp = 0\<rparr>
      else if \<not> is_obj j then None
      else Option.bind (jget j field (dec_ptr dec) None) (\<lambda>c.
        Option.bind (jget j ''peer_id'' dec_string []) (\<lambda>p.
        Option.bind (jget j ''timestamp'' dec_sint 0) (\<lambda>t.
          Some \<lparr>gm_content = c, gm_PeerID = p, gm_Timestamp = t\<rparr>))))"

text \<open>
  What a handler logs is its only effect. The arguments of the log call are evaluated whatever the
  log level, so a nil pointer panics.
\<close>

datatype gossip_log =
    LogUndecodable
  | LogBlock hash u64 string
  | LogTransaction hash string
  | LogConsensus nat

definition handleBlockMessage :: "json_lib \<Rightarrow> bytes \<Rightarrow> gossip_log outcome" where
  "handleBlockMessage J data =
     (case unmarshal J (dec_message ''block'' dec_gossip_block) data of
        None \<Rightarrow> Done LogUndecodable
      | Some msg \<Rightarrow>
          (case gm_content msg of
             None \<Rightarrow> Panic
           | Some b \<Rightarrow>
               (case gb_Header b of
                  None \<Rightarrow> Panic
                | Some h \<Rightarrow> Done (LogBlock (hdr_Hash h) (hdr_Height h) (gm_PeerID msg)))))"

definition handleTransactionMessage :: "json_lib \<Rightarrow> bytes \<Rightarrow> gossip_log outcome" where
  "handleTransactionMessage J data =
     (case unmarshal J (dec_message ''transaction'' dec_tx) data of
        None \<Rightarrow> Done LogUndecodable
      | Some msg \<Rightarrow>
          (case gm_content msg of
             None \<Rightarrow> Panic
           | Some tx \<Rightarrow> Done (LogTransaction (tx_Hash tx) (gm_PeerID msg))))"

text \<open>The consensus handler, if there is one, changes the state \<open>'e\<close> of the consensus engine; its error is logged.\<close>

definition handleConsensusMessage ::
  "('e \<Rightarrow> bytes \<Rightarrow> ('e \<times> bool) outcome) option \<Rightarrow> bytes \<Rightarrow> 'e \<Rightarrow> 'e outcome" where
  "handleConsensusMessage handler data e =
     (case handler of None \<Rightarrow> Done e | Some f \<Rightarrow> obind (f e data) (\<lambda>r. Done (fst r)))"

definition messageHandler ::
  "json_lib \<Rightarrow> ('e \<Rightarrow> bytes \<Rightarrow> ('e \<times> bool) outcome) option \<Rightarrow> 'n gossip_service \<Rightarrow> topic_handler \<Rightarrow> string \<Rightarrow> bytes
     \<Rightarrow> 'e \<Rightarrow> 'e outcome" where
  "messageHandler J consensusHandler g handler receivedFrom data e =
     (if gs_cancelled g then Done e
      else if receivedFrom = gs_self g then Done e
      else case handler of
        HandleBlock \<Rightarrow> obind (handleBlockMessage J data) (\<lambda>_. Done e)
      | HandleTransaction \<Rightarrow> obind (handleTransactionMessage J data) (\<lambda>_. Done e)
      | HandleConsensus \<Rightarrow> handleConsensusMessage consensusHandler data e)"

section \<open>Subscriptions\<close>

text \<open>The topics of the service are the ones with a handler, and a topic keeps its handler.\<close>

definition gossip_ok :: "'n gossip_service \<Rightarrow> bool" where
  "gossip_ok g \<longleftrightarrow> fmdom (gs_handlers g) = gs_topics g
     \<and> (\<forall>t \<in> {(TopicBlocks, HandleBlock), (TopicTransactions, HandleTransaction), (TopicConsensus, HandleConsensus)}.
          fst t |\<in>| gs_topics g \<longrightarrow> mget (gs_handlers g) (fst t) = Some (snd t))"

lemma topics_distinct [simp]:
  "TopicBlocks \<noteq> TopicTransactions" "TopicBlocks \<noteq> TopicConsensus" "TopicTransactions \<noteq> TopicConsensus"
  "TopicTransactions \<noteq> TopicBlocks" "TopicConsensus \<noteq> TopicBlocks" "TopicConsensus \<noteq> TopicTransactions"
  by (simp_all add: TopicBlocks_def TopicTransactions_def TopicConsensus_def)

lemma SubscribeTopic_result:
  assumes "SubscribeTopic L g t h = (g', e)"
  shows "gs_self g' = gs_self g \<and> gs_topics g' = (if e = None then finsert t (gs_topics g) else gs_topics g)
    \<and> gs_handlers g' = (if e = None \<and> t |\<notin>| gs_topics g then mput (gs_handlers g) t h else gs_handlers g)"
  using assms by (auto simp: SubscribeTopic_def split: if_splits prod.splits bool.splits)

lemma gossip_Start_topics:
  assumes "gossip_Start L (NewGossipService net self) = (g, None)"
  shows "gossip_ok g \<and> gs_topics g = {|TopicBlocks, TopicTransactions, TopicConsensus|} \<and> gs_self g = self"
proof -
  obtain g1 e1 where 1: "SubscribeTopic L (NewGossipService net self) TopicBlocks HandleBlock = (g1, e1)" by force
  obtain g2 e2 where 2: "SubscribeTopic L g1 TopicTransactions HandleTransaction = (g2, e2)" by force
  have e: "e1 = None" "e2 = None" and 3: "SubscribeTopic L g2 TopicConsensus HandleConsensus = (g, None)"
    using assms 1 2 by (auto simp: gossip_Start_def split: option.splits)
  show ?thesis
    using SubscribeTopic_result [OF 1] SubscribeTopic_result [OF 2] SubscribeTopic_result [OF 3] e
    by (auto simp: gossip_ok_def NewGossipService_def)
qed

section \<open>What the service holds\<close>

text \<open>While it runs, the service holds a topic, a subscription and a goroutine for each of its topics.\<close>

definition holds_topics :: "'n gossip_service \<Rightarrow> bool" where
  "holds_topics g \<longleftrightarrow> gs_joined g = gs_topics g \<and> gs_subscribed g = gs_topics g \<and> gs_running g = gs_topics g"

lemma SubscribeTopic_holds:
  assumes "SubscribeTopic L g t h = (g', e)" and "holds_topics g"
  shows "holds_topics g' \<and> gs_cancelled g' = gs_cancelled g"
proof -
  obtain n ok where j: "ps_Join L (gs_net g) t = (n, ok)" by (meson surj_pair)
  obtain n2 ok2 where u: "ps_Subscribe L n t = (n2, ok2)" by (meson surj_pair)
  have "g' = fst (SubscribeTopic L g t h)" using assms(1) by simp
  then show ?thesis
    using assms(2) by (cases ok; cases ok2) (simp_all add: SubscribeTopic_def j u holds_topics_def)
qed

lemma gossip_Start_holds:
  assumes "gossip_Start L (NewGossipService net self) = (g, e)"
  shows "holds_topics g \<and> \<not> gs_cancelled g"
proof -
  have new: "holds_topics (NewGossipService net self) \<and> \<not> gs_cancelled (NewGossipService net self)"
    by (simp add: NewGossipService_def holds_topics_def)
  obtain g1 e1 where 1: "SubscribeTopic L (NewGossipService net self) TopicBlocks HandleBlock = (g1, e1)" by force
  obtain g2 e2 where 2: "SubscribeTopic L g1 TopicTransactions HandleTransaction = (g2, e2)" by force
  obtain g3 e3 where 3: "SubscribeTopic L g2 TopicConsensus HandleConsensus = (g3, e3)" by force
  note h1 = SubscribeTopic_holds [OF 1] and h2 = SubscribeTopic_holds [OF 2] and h3 = SubscribeTopic_holds [OF 3]
  have "g = g1 \<or> g = g2 \<or> g = g3" using assms by (cases e1; cases e2) (simp_all add: gossip_Start_def 1 2 3)
  moreover have "holds_topics g1 \<and> \<not> gs_cancelled g1" using h1 new by blast
  moreover from this have "holds_topics g2 \<and> \<not> gs_cancelled g2" using h2 by blast
  moreover from this have "holds_topics g3 \<and> \<not> gs_cancelled g3" using h3 by blast
  ultimately show ?thesis by blast
qed

lemma fold_Cancel:
  "gs_subscribed (fold (sub_Cancel L) ts g) = gs_subscribed g |-| fset_of_list ts"
  "gs_joined (fold (sub_Cancel L) ts g) = gs_joined g" "gs_running (fold (sub_Cancel L) ts g) = gs_running g"
  "gs_cancelled (fold (sub_Cancel L) ts g) = gs_cancelled g"
  by (induction ts arbitrary: g) (auto simp: sub_Cancel_def)

lemma fold_Close:
  assumes "gs_subscribed g = {||}"
  shows "gs_subscribed (fold (topic_Close L) ts g) = {||}"
    and "gs_joined (fold (topic_Close L) ts g) = gs_joined g |-| fset_of_list ts"
    and "gs_running (fold (topic_Close L) ts g) = gs_running g"
    and "gs_cancelled (fold (topic_Close L) ts g) = gs_cancelled g"
  using assms by (induction ts arbitrary: g) (auto simp: topic_Close_def)

text \<open>A Stop that visits every subscription and then every topic leaves only the goroutines, which can leave.\<close>

lemma gossip_Stop_holds:
  assumes "holds_topics g" and "set subs = fset (gs_topics g)" and "set topics = fset (gs_topics g)"
  shows "gs_cancelled (gossip_Stop L subs topics g) \<and> gs_joined (gossip_Stop L subs topics g) = {||}
    \<and> gs_subscribed (gossip_Stop L subs topics g) = {||} \<and> gs_running (gossip_Stop L subs topics g) = gs_topics g"
proof -
  have all: "fset_of_list subs = gs_topics g" "fset_of_list topics = gs_topics g"
    using assms(2,3) by (simp_all add: fset_of_list.rep_eq fset_inject [symmetric])
  have "gs_subscribed (fold (sub_Cancel L) subs (g\<lparr>gs_cancelled := True\<rparr>)) = {||}"
    using assms(1) by (simp add: fold_Cancel all holds_topics_def)
  from fold_Close [OF this] show ?thesis
    using assms(1) by (simp add: gossip_Stop_def fold_Cancel all holds_topics_def)
qed

section \<open>Properties\<close>

lemma dec_all_ptr: "(\<And>x. dec (enc x) = Some x) \<Longrightarrow> (\<And>x. enc x \<noteq> JNull) \<Longrightarrow>
    dec_all (dec_ptr dec) (map enc xs) = Some (map Some xs)"
  by (induction xs) (simp_all add: dec_ptr_def)

lemma dec_block_message:
  "dec_message ''block'' dec_gossip_block (enc_block_message b p t)
    = Some \<lparr>gm_content = Some \<lparr>gb_Header = Some (blk_Header b), gb_Transactions = map Some (blk_Transactions b)\<rparr>,
        gm_PeerID = p, gm_Timestamp = t\<rparr>"
proof -
  have "dec_all (dec_ptr dec_tx) (map enc_tx (blk_Transactions b)) = Some (map Some (blk_Transactions b))"
    by (rule dec_all_ptr) (rule dec_enc_tx, simp add: enc_tx_def)
  moreover have "enc_header h \<noteq> JNull" for h by (simp add: enc_header_def)
  ultimately show ?thesis
    by (simp add: dec_message_def enc_block_message_def enc_block_def jget_def dec_ptr_def dec_gossip_block_def enc_list_def)
qed

text \<open>
  A block that a started node publishes reaches a peer as it was: the bytes handed to the topic of
  the blocks make the peer's handler log the hash and the height of the block and the identifier of
  the sender.
\<close>

theorem published_block_received:
  assumes "json_ok J" and "gossip_Start L (NewGossipService net self) = (g, None)"
    and "PublishBlock J L g b = (g', None)"
  shows "\<exists>data. ps_Publish L (gs_net g) TopicBlocks data = (gs_net g', True)
    \<and> handleBlockMessage J data = Done (LogBlock (hdr_Hash (blk_Header b)) (hdr_Height (blk_Header b)) self)"
proof -
  let ?data = "js_text J (enc_block_message b self (hdr_Timestamp (blk_Header b)))"
  have g: "TopicBlocks |\<in>| gs_topics g" "gs_self g = self" using gossip_Start_topics [OF assms(2)] by auto
  then have "ps_Publish L (gs_net g) TopicBlocks ?data = (gs_net g', True)"
    using assms(3) by (auto simp: PublishBlock_def publish_def split: prod.splits if_splits)
  moreover have r: "handleBlockMessage J ?data = Done (LogBlock (hdr_Hash (blk_Header b)) (hdr_Height (blk_Header b)) self)"
    by (simp add: handleBlockMessage_def assms(1) dec_block_message)
  ultimately show ?thesis by blast
qed

text \<open>A pubsub that keeps the published messages.\<close>

definition list_pubsub :: "(string \<times> bytes) list pubsub_lib" where
  "list_pubsub = \<lparr>ps_Join = (\<lambda>n t. (n, True)), ps_Subscribe = (\<lambda>n t. (n, True)), ps_Publish = (\<lambda>n t d. ((t, d) # n, True)),
     ps_Cancel = (\<lambda>n t. n), ps_Close = (\<lambda>n t. n), ps_ListPeers = (\<lambda>n t. [])\<rparr>"

lemma demo_gossip: "\<exists>g. gossip_Start list_pubsub (NewGossipService [] self) = (g, None)"
  by (simp add: gossip_Start_def SubscribeTopic_def NewGossipService_def list_pubsub_def)

theorem published_block_received_witness:
  "\<exists>g g' data. PublishBlock demo_json list_pubsub g demo_block = (g', None)
     \<and> gs_net g' = (TopicBlocks, data) # gs_net g
     \<and> handleBlockMessage demo_json data = Done (LogBlock (hdr_Hash (blk_Header demo_block)) (hdr_Height (blk_Header demo_block)) ''a'')"
proof -
  obtain g where g: "gossip_Start list_pubsub (NewGossipService [] ''a'') = (g, None)" using demo_gossip by blast
  then have "TopicBlocks |\<in>| gs_topics g" using gossip_Start_topics by fastforce
  then have "snd (PublishBlock demo_json list_pubsub g demo_block) = None"
    by (simp add: PublishBlock_def publish_def list_pubsub_def)
  then obtain g' where p: "PublishBlock demo_json list_pubsub g demo_block = (g', None)" by (metis prod.collapse)
  from published_block_received [OF demo_json_ok g p] obtain data where
    "ps_Publish list_pubsub (gs_net g) TopicBlocks data = (gs_net g', True)"
    "handleBlockMessage demo_json data = Done (LogBlock (hdr_Hash (blk_Header demo_block)) (hdr_Height (blk_Header demo_block)) ''a'')"
    by blast
  moreover have "ps_Publish list_pubsub n t d = ((t, d) # n, True)" for n t d by (simp add: list_pubsub_def)
  ultimately show ?thesis using p by (metis prod.inject)
qed

text \<open>
  Any peer can stop a node with one message. On the topic of the blocks the text of an empty object, or
  of a block without a header, panics in the handler, and so does an empty object on the topic of the
  transactions; a text that is not JSON is ignored.
\<close>

theorem empty_message_crashes:
  assumes "json_ok J" and "from \<noteq> gs_self g" and "\<not> gs_cancelled g"
    and "data \<in> {JObj [], JNull, JObj [(''block'', JNull)], JObj [(''block'', JObj [(''header'', JNull)])]}"
  shows "messageHandler J H g HandleBlock from (js_text J data) e = Panic
    \<and> messageHandler J H g HandleTransaction from (js_text J (JObj [])) e = Panic
    \<and> (js_parse J junk = None \<longrightarrow> messageHandler J H g HandleBlock from junk e = Done e)"
proof -
  have "handleBlockMessage J (js_text J data) = Panic"
    using assms(4) by (elim insertE emptyE) (simp_all add: handleBlockMessage_def assms(1) dec_message_def dec_gossip_block_def dec_ptr_def jget_def)
  moreover have "handleTransactionMessage J (js_text J (JObj [])) = Panic"
    by (simp add: handleTransactionMessage_def assms(1) dec_message_def jget_def)
  moreover have "js_parse J junk = None \<longrightarrow> handleBlockMessage J junk = Done LogUndecodable"
    by (simp add: handleBlockMessage_def unmarshal_def)
  ultimately show ?thesis using assms(2,3) by (simp add: messageHandler_def)
qed

theorem empty_message_crashes_witness:
  "\<exists>g :: (string \<times> bytes) list gossip_service. gs_self g = ''a''
     \<and> messageHandler demo_json None g HandleBlock ''b'' (js_text demo_json (JObj [])) () = Panic"
proof -
  obtain g where g: "gossip_Start list_pubsub (NewGossipService [] ''a'') = (g, None)" using demo_gossip by blast
  have s: "gs_self g = ''a''" using gossip_Start_topics [OF g] by simp
  let ?g = "g\<lparr>gs_cancelled := False\<rparr>"
  have "''b'' \<noteq> gs_self ?g" "\<not> gs_cancelled ?g" by (simp_all add: s)
  from empty_message_crashes [OF demo_json_ok this, THEN conjunct1, of "JObj []" None "()"]
  have "messageHandler demo_json None ?g HandleBlock ''b'' (js_text demo_json (JObj [])) () = Panic" by blast
  moreover have "gs_self ?g = ''a''" by (simp add: s)
  ultimately show ?thesis by blast
qed

end
