(* ===== verification/Configuration.thy ===== *)
theory Configuration
  imports Chain
begin

text \<open>
  The configuration (app/config/config.go) and the decisions of the logger (pkg/logger/logger.go). The library
  viper is a parameter: reading the file, and filling the struct from the defaults, the file and the
  environment. The tags of the struct are the keys of \<open>config_of\<close>.
\<close>

section \<open>The configuration\<close>

record NodeConfig =
  node_ID :: string
  node_Role :: string
  node_DataDir :: string
  node_ListenAddr :: string

record NetworkConfig =
  net_BootstrapPeers :: "string list"
  net_MaxConnections :: int
  net_MinConnections :: int
  net_DHTEnabled :: bool
  net_MDNSEnabled :: bool

record BlockchainConfig =
  chain_GenesisBlock :: bool
  chain_BlockInterval :: int
  chain_MaxTxPerBlock :: int
  chain_MaxBlockSize :: int
  chain_LightClient :: bool

record ConsensusConfig =
  cons_Type :: string
  cons_ViewTimeout :: int
  cons_BlockTimeout :: int
  cons_MinValidators :: int

record APIConfig =
  api_Enabled :: bool
  api_HTTPHost :: string
  api_HTTPPort :: int
  api_WebSocketEnabled :: bool
  api_CORSOrigins :: "string list"
  api_RateLimit :: int

record LogConfig =
  log_Level :: string
  log_Format :: string
  log_Output :: string
  log_File :: string
  log_MaxSize :: int
  log_MaxBackups :: int
  log_MaxAge :: int

record CertificateConfig =
  crt_CertFile :: string
  crt_KeyFile :: string
  crt_CAFile :: string
  crt_AutoRotate :: bool
  crt_RotateDaysBefore :: int

record StorageConfig =
  stor_Type :: string
  stor_Path :: string
  stor_CacheSize :: int
  stor_Compression :: bool

record MetricsConfig =
  metr_Enabled :: bool
  metr_PrometheusPort :: int
  metr_Namespace :: string

record Config =
  cfg_Node :: NodeConfig
  cfg_Network :: NetworkConfig
  cfg_Blockchain :: BlockchainConfig
  cfg_Consensus :: ConsensusConfig
  cfg_API :: APIConfig
  cfg_Log :: LogConfig
  cfg_Certificate :: CertificateConfig
  cfg_Storage :: StorageConfig
  cfg_Metrics :: MetricsConfig

section \<open>Settings\<close>

datatype setting = SStr string | SInt int | SBool bool | SList "string list"

type_synonym settings = "(string \<times> setting) list"

text \<open>A field without a setting is zero; one of the wrong kind is an error.\<close>

definition get_str :: "settings \<Rightarrow> string \<Rightarrow> string option" where
  "get_str s k = (case map_of s k of None \<Rightarrow> Some [] | Some (SStr v) \<Rightarrow> Some v | Some _ \<Rightarrow> None)"

definition get_int :: "settings \<Rightarrow> string \<Rightarrow> int option" where
  "get_int s k = (case map_of s k of None \<Rightarrow> Some 0 | Some (SInt v) \<Rightarrow> Some v | Some _ \<Rightarrow> None)"

definition get_bool :: "settings \<Rightarrow> string \<Rightarrow> bool option" where
  "get_bool s k = (case map_of s k of None \<Rightarrow> Some False | Some (SBool v) \<Rightarrow> Some v | Some _ \<Rightarrow> None)"

definition get_list :: "settings \<Rightarrow> string \<Rightarrow> string list option" where
  "get_list s k = (case map_of s k of None \<Rightarrow> Some [] | Some (SList v) \<Rightarrow> Some v | Some _ \<Rightarrow> None)"

definition node_of :: "settings \<Rightarrow> NodeConfig option" where
  "node_of s =
     Option.bind (get_str s ''node.id'') (\<lambda>i.
     Option.bind (get_str s ''node.role'') (\<lambda>r.
     Option.bind (get_str s ''node.data_dir'') (\<lambda>d.
     Option.bind (get_str s ''node.listen_addr'') (\<lambda>l.
       Some \<lparr>node_ID = i, node_Role = r, node_DataDir = d, node_ListenAddr = l\<rparr>))))"

definition network_of :: "settings \<Rightarrow> NetworkConfig option" where
  "network_of s =
     Option.bind (get_list s ''network.bootstrap_peers'') (\<lambda>b.
     Option.bind (get_int s ''network.max_connections'') (\<lambda>x.
     Option.bind (get_int s ''network.min_connections'') (\<lambda>n.
     Option.bind (get_bool s ''network.dht_enabled'') (\<lambda>d.
     Option.bind (get_bool s ''network.mdns_enabled'') (\<lambda>m.
       Some \<lparr>net_BootstrapPeers = b, net_MaxConnections = x, net_MinConnections = n, net_DHTEnabled = d,
             net_MDNSEnabled = m\<rparr>)))))"

definition blockchain_of :: "settings \<Rightarrow> BlockchainConfig option" where
  "blockchain_of s =
     Option.bind (get_bool s ''blockchain.genesis_block'') (\<lambda>g.
     Option.bind (get_int s ''blockchain.block_interval'') (\<lambda>i.
     Option.bind (get_int s ''blockchain.max_tx_per_block'') (\<lambda>t.
     Option.bind (get_int s ''blockchain.max_block_size'') (\<lambda>z.
     Option.bind (get_bool s ''blockchain.light_client'') (\<lambda>l.
       Some \<lparr>chain_GenesisBlock = g, chain_BlockInterval = i, chain_MaxTxPerBlock = t, chain_MaxBlockSize = z,
             chain_LightClient = l\<rparr>)))))"

definition consensus_of :: "settings \<Rightarrow> ConsensusConfig option" where
  "consensus_of s =
     Option.bind (get_str s ''consensus.type'') (\<lambda>t.
     Option.bind (get_int s ''consensus.view_timeout'') (\<lambda>v.
     Option.bind (get_int s ''consensus.block_timeout'') (\<lambda>b.
     Option.bind (get_int s ''consensus.min_validators'') (\<lambda>m.
       Some \<lparr>cons_Type = t, cons_ViewTimeout = v, cons_BlockTimeout = b, cons_MinValidators = m\<rparr>))))"

definition api_of :: "settings \<Rightarrow> APIConfig option" where
  "api_of s =
     Option.bind (get_bool s ''api.enabled'') (\<lambda>e.
     Option.bind (get_str s ''api.http_host'') (\<lambda>h.
     Option.bind (get_int s ''api.http_port'') (\<lambda>p.
     Option.bind (get_bool s ''api.websocket_enabled'') (\<lambda>w.
     Option.bind (get_list s ''api.cors_origins'') (\<lambda>c.
     Option.bind (get_int s ''api.rate_limit'') (\<lambda>r.
       Some \<lparr>api_Enabled = e, api_HTTPHost = h, api_HTTPPort = p, api_WebSocketEnabled = w, api_CORSOrigins = c,
             api_RateLimit = r\<rparr>))))))"

definition log_of :: "settings \<Rightarrow> LogConfig option" where
  "log_of s =
     Option.bind (get_str s ''log.level'') (\<lambda>l.
     Option.bind (get_str s ''log.format'') (\<lambda>f.
     Option.bind (get_str s ''log.output'') (\<lambda>u.
     Option.bind (get_str s ''log.file'') (\<lambda>p.
     Option.bind (get_int s ''log.max_size'') (\<lambda>z.
     Option.bind (get_int s ''log.max_backups'') (\<lambda>b.
     Option.bind (get_int s ''log.max_age'') (\<lambda>a.
       Some \<lparr>log_Level = l, log_Format = f, log_Output = u, log_File = p, log_MaxSize = z, log_MaxBackups = b,
             log_MaxAge = a\<rparr>)))))))"

definition certificate_of :: "settings \<Rightarrow> CertificateConfig option" where
  "certificate_of s =
     Option.bind (get_str s ''certificate.cert_file'') (\<lambda>c.
     Option.bind (get_str s ''certificate.key_file'') (\<lambda>k.
     Option.bind (get_str s ''certificate.ca_file'') (\<lambda>a.
     Option.bind (get_bool s ''certificate.auto_rotate'') (\<lambda>r.
     Option.bind (get_int s ''certificate.rotate_days_before'') (\<lambda>d.
       Some \<lparr>crt_CertFile = c, crt_KeyFile = k, crt_CAFile = a, crt_AutoRotate = r, crt_RotateDaysBefore = d\<rparr>)))))"

definition storage_of :: "settings \<Rightarrow> StorageConfig option" where
  "storage_of s =
     Option.bind (get_str s ''storage.type'') (\<lambda>t.
     Option.bind (get_str s ''storage.path'') (\<lambda>p.
     Option.bind (get_int s ''storage.cache_size'') (\<lambda>c.
     Option.bind (get_bool s ''storage.compression'') (\<lambda>z.
       Some \<lparr>stor_Type = t, stor_Path = p, stor_CacheSize = c, stor_Compression = z\<rparr>))))"

definition metrics_of :: "settings \<Rightarrow> MetricsConfig option" where
  "metrics_of s =
     Option.bind (get_bool s ''metrics.enabled'') (\<lambda>e.
     Option.bind (get_int s ''metrics.prometheus_port'') (\<lambda>p.
     Option.bind (get_str s ''metrics.namespace'') (\<lambda>n.
       Some \<lparr>metr_Enabled = e, metr_PrometheusPort = p, metr_Namespace = n\<rparr>)))"

definition config_of :: "settings \<Rightarrow> Config option" where
  "config_of s =
     Option.bind (node_of s) (\<lambda>n.
     Option.bind (network_of s) (\<lambda>w.
     Option.bind (blockchain_of s) (\<lambda>b.
     Option.bind (consensus_of s) (\<lambda>c.
     Option.bind (api_of s) (\<lambda>a.
     Option.bind (log_of s) (\<lambda>l.
     Option.bind (certificate_of s) (\<lambda>k.
     Option.bind (storage_of s) (\<lambda>t.
     Option.bind (metrics_of s) (\<lambda>m.
       Some \<lparr>cfg_Node = n, cfg_Network = w, cfg_Blockchain = b, cfg_Consensus = c, cfg_API = a, cfg_Log = l, cfg_Certificate = k, cfg_Storage = t,
             cfg_Metrics = m\<rparr>)))))))))"

section \<open>Loading\<close>

text \<open>
  What SetDefault, SetConfigFile and the others have told viper. \<open>vp_read\<close> and \<open>vp_unmarshal\<close> are the library;
  \<open>vp_defaults_only\<close> is what it documents for a run with no file and no variable of the environment.
\<close>

datatype config_source = ConfigFile string | ConfigSearch string string "string list"

record viper =
  v_defaults :: settings
  v_source :: config_source
  v_envPrefix :: string
  v_envReplace :: "(string \<times> string) list"
  v_automaticEnv :: bool

datatype read_error = ConfigFileNotFound | ReadFailed

record 'f viper_lib =
  vp_read :: "viper \<Rightarrow> read_error + 'f"
  vp_unmarshal :: "viper \<Rightarrow> 'f option \<Rightarrow> Config option"

definition vp_defaults_only :: "'f viper_lib \<Rightarrow> bool" where
  "vp_defaults_only V \<longleftrightarrow> (\<forall>v name kind paths. v_source v = ConfigSearch name kind paths \<longrightarrow> vp_read V v = Inl ConfigFileNotFound)
     \<and> (\<forall>v. config_of (v_defaults v) \<noteq> None \<longrightarrow> vp_unmarshal V v None = config_of (v_defaults v))"

definition setDefaults :: settings where
  "setDefaults =
     [(''node.role'', SStr ''follower''), (''node.data_dir'', SStr ''./data''),
      (''node.listen_addr'', SStr ''/ip4/0.0.0.0/tcp/10001''),
      (''network.max_connections'', SInt 12), (''network.min_connections'', SInt 8),
      (''network.dht_enabled'', SBool True), (''network.mdns_enabled'', SBool True),
      (''blockchain.genesis_block'', SBool True), (''blockchain.block_interval'', SInt 1000),
      (''blockchain.max_tx_per_block'', SInt 100), (''blockchain.max_block_size'', SInt 1048576),
      (''blockchain.light_client'', SBool False),
      (''consensus.type'', SStr ''pbft''), (''consensus.view_timeout'', SInt 10000),
      (''consensus.block_timeout'', SInt 5000), (''consensus.min_validators'', SInt 4),
      (''api.enabled'', SBool True), (''api.http_host'', SStr ''0.0.0.0''), (''api.http_port'', SInt 8080),
      (''api.websocket_enabled'', SBool True), (''api.cors_origins'', SList [''*'']), (''api.rate_limit'', SInt 1000),
      (''log.level'', SStr ''info''), (''log.format'', SStr ''json''), (''log.output'', SStr ''stdout''),
      (''log.max_size'', SInt 100), (''log.max_backups'', SInt 10), (''log.max_age'', SInt 30),
      (''certificate.auto_rotate'', SBool True), (''certificate.rotate_days_before'', SInt 7),
      (''storage.type'', SStr ''leveldb''), (''storage.path'', SStr ''./data/chaindb''),
      (''storage.cache_size'', SInt 64), (''storage.compression'', SBool True),
      (''metrics.enabled'', SBool True), (''metrics.prometheus_port'', SInt 9090),
      (''metrics.namespace'', SStr ''v2v_blockchain'')]"

datatype config_error =
    InvalidRole string
  | InvalidConsensusType string
  | MinAboveMax
  | InvalidLogLevel string

definition Config_Validate :: "Config \<Rightarrow> config_error option" where
  "Config_Validate c =
     (if node_Role (cfg_Node c) \<notin> {''leader'', ''validator'', ''follower''}
      then Some (InvalidRole (node_Role (cfg_Node c)))
      else if cons_Type (cfg_Consensus c) \<notin> {''pbft''}
      then Some (InvalidConsensusType (cons_Type (cfg_Consensus c)))
      else if net_MaxConnections (cfg_Network c) < net_MinConnections (cfg_Network c) then Some MinAboveMax
      else if log_Level (cfg_Log c) \<notin> {''debug'', ''info'', ''warn'', ''error''}
      then Some (InvalidLogLevel (log_Level (cfg_Log c)))
      else None)"

datatype load_error = ReadConfigFailed | UnmarshalFailed | ValidationFailed config_error

definition Load :: "'f viper_lib \<Rightarrow> string \<Rightarrow> load_error + Config" where
  "Load V configPath =
     (let v = \<lparr>v_defaults = setDefaults,
               v_source = (if configPath \<noteq> [] then ConfigFile configPath
                 else ConfigSearch ''config'' ''yaml'' [''./configs'', ''.'', ''/etc/v2v-blockchain/'']),
               v_envPrefix = ''V2V'', v_envReplace = [(''.'', ''_'')], v_automaticEnv = True\<rparr>;
          file = (case vp_read V v of
                    Inl ConfigFileNotFound \<Rightarrow> Inr None
                  | Inl ReadFailed \<Rightarrow> Inl ReadConfigFailed
                  | Inr f \<Rightarrow> Inr (Some f))
      in (case file of
            Inl e \<Rightarrow> Inl e
          | Inr f \<Rightarrow>
              (case vp_unmarshal V v f of
                 None \<Rightarrow> Inl UnmarshalFailed
               | Some cfg \<Rightarrow>
                   (case Config_Validate cfg of Some e \<Rightarrow> Inl (ValidationFailed e) | None \<Rightarrow> Inr cfg))))"

section \<open>Derived values\<close>

text \<open>\<open>%d\<close> of an int.\<close>

definition print_int :: "int \<Rightarrow> string" where
  "print_int n = (if n < 0 then CHR ''-'' # decimal (nat (- n)) else decimal (nat n))"

definition GetHTTPAddr :: "Config \<Rightarrow> string" where
  "GetHTTPAddr c = api_HTTPHost (cfg_API c) @ '':'' @ print_int (api_HTTPPort (cfg_API c))"

text \<open>Milliseconds as a time.Duration, an int64 in nanoseconds.\<close>

definition milliseconds :: "int \<Rightarrow> int" where
  "milliseconds n = sint (of_int n * of_int (10 ^ 6) :: i64)"

definition GetBlockInterval :: "Config \<Rightarrow> int" where
  "GetBlockInterval c = milliseconds (chain_BlockInterval (cfg_Blockchain c))"

definition GetViewTimeout :: "Config \<Rightarrow> int" where
  "GetViewTimeout c = milliseconds (cons_ViewTimeout (cfg_Consensus c))"

text \<open>What NewBlockchain reads of its configuration.\<close>

definition chain_config_of :: "BlockchainConfig \<Rightarrow> chain_config" where
  "chain_config_of c = \<lparr>cc_MaxBlockSize = chain_MaxBlockSize c, cc_MaxTxPerBlock = chain_MaxTxPerBlock c,
     cc_GenesisBlock = chain_GenesisBlock c\<rparr>"

section \<open>The logger\<close>

text \<open>
  zapcore.ParseLevel, filepath.Dir and os.MkdirAll are parameters. A logger is described by what \<open>New\<close> gives zap: the
  level, the encoders and where the lines go.
\<close>

datatype encoder = JSONEncoder | ConsoleEncoder

datatype level_encoder = CapitalLevel | CapitalColorLevel

datatype sink = Stdout | RotatedFile string int int int

record 'l logger_conf =
  lo_level :: 'l
  lo_encoder :: encoder
  lo_levelEncoder :: level_encoder
  lo_sink :: sink

definition logger_New ::
  "(string \<Rightarrow> 'l option) \<Rightarrow> 'l \<Rightarrow> (string \<Rightarrow> string) \<Rightarrow> (string \<Rightarrow> bool) \<Rightarrow> LogConfig \<Rightarrow> 'l logger_conf option" where
  "logger_New parseLevel infoLevel dir mkdirAll cfg =
     (let level = (case parseLevel (log_Level cfg) of None \<Rightarrow> infoLevel | Some l \<Rightarrow> l);
          levels = (if log_Format cfg = ''console'' then CapitalColorLevel else CapitalLevel);
          enc = (if log_Format cfg = ''json'' then JSONEncoder else ConsoleEncoder)
      in if log_Output cfg = ''file'' \<and> log_File cfg \<noteq> []
         then if \<not> mkdirAll (dir (log_File cfg)) then None
              else Some \<lparr>lo_level = level, lo_encoder = enc, lo_levelEncoder = levels,
                lo_sink = RotatedFile (log_File cfg) (log_MaxSize cfg) (log_MaxBackups cfg) (log_MaxAge cfg)\<rparr>
         else Some \<lparr>lo_level = level, lo_encoder = enc, lo_levelEncoder = levels, lo_sink = Stdout\<rparr>)"

section \<open>Properties\<close>

text \<open>The configuration that the defaults describe.\<close>

definition default_config :: Config where
  "default_config = \<lparr>
     cfg_Node = \<lparr>node_ID = [], node_Role = ''follower'', node_DataDir = ''./data'',
       node_ListenAddr = ''/ip4/0.0.0.0/tcp/10001''\<rparr>,
     cfg_Network = \<lparr>net_BootstrapPeers = [], net_MaxConnections = 12, net_MinConnections = 8, net_DHTEnabled = True,
       net_MDNSEnabled = True\<rparr>,
     cfg_Blockchain = \<lparr>chain_GenesisBlock = True, chain_BlockInterval = 1000, chain_MaxTxPerBlock = 100,
       chain_MaxBlockSize = 1048576, chain_LightClient = False\<rparr>,
     cfg_Consensus = \<lparr>cons_Type = ''pbft'', cons_ViewTimeout = 10000, cons_BlockTimeout = 5000, cons_MinValidators = 4\<rparr>,
     cfg_API = \<lparr>api_Enabled = True, api_HTTPHost = ''0.0.0.0'', api_HTTPPort = 8080, api_WebSocketEnabled = True,
       api_CORSOrigins = [''*''], api_RateLimit = 1000\<rparr>,
     cfg_Log = \<lparr>log_Level = ''info'', log_Format = ''json'', log_Output = ''stdout'', log_File = [], log_MaxSize = 100,
       log_MaxBackups = 10, log_MaxAge = 30\<rparr>,
     cfg_Certificate = \<lparr>crt_CertFile = [], crt_KeyFile = [], crt_CAFile = [], crt_AutoRotate = True,
       crt_RotateDaysBefore = 7\<rparr>,
     cfg_Storage = \<lparr>stor_Type = ''leveldb'', stor_Path = ''./data/chaindb'', stor_CacheSize = 64, stor_Compression = True\<rparr>,
     cfg_Metrics = \<lparr>metr_Enabled = True, metr_PrometheusPort = 9090, metr_Namespace = ''v2v_blockchain''\<rparr>\<rparr>"

lemmas get_defs = get_str_def get_int_def get_bool_def get_list_def

lemma sections_of_defaults:
  "node_of setDefaults = Some (cfg_Node default_config)"
  "network_of setDefaults = Some (cfg_Network default_config)"
  "blockchain_of setDefaults = Some (cfg_Blockchain default_config)"
  "consensus_of setDefaults = Some (cfg_Consensus default_config)"
  "api_of setDefaults = Some (cfg_API default_config)"
  "log_of setDefaults = Some (cfg_Log default_config)"
  "certificate_of setDefaults = Some (cfg_Certificate default_config)"
  "storage_of setDefaults = Some (cfg_Storage default_config)"
  "metrics_of setDefaults = Some (cfg_Metrics default_config)"
  by code_simp+

lemma config_of_defaults: "config_of setDefaults = Some default_config"
  unfolding config_of_def sections_of_defaults by (simp add: default_config_def)

text \<open>
  Without a configuration file and environment, Load returns the configuration of the defaults; with
  it, the chain over an empty database never opens: the default asks for a genesis block, and adding that
  waits for the chain's own lock.
\<close>

theorem default_config_blocks_chain:
  assumes "vp_defaults_only V" and "db_spec L contents"
    and "stored_chain C (chain_config_of (cfg_Blockchain default_config)) J L contents s []"
  shows "Load V [] = Inr default_config \<and> GetBlockInterval default_config = 10 ^ 9
    \<and> GetViewTimeout default_config = 10 * 10 ^ 9 \<and> GetHTTPAddr default_config = ''0.0.0.0:8080''
    \<and> NewBlockchain C J L now (chain_config_of (cfg_Blockchain default_config)) s = Blocked"
proof (intro conjI)
  have "Config_Validate default_config = None" by (simp add: Config_Validate_def default_config_def)
  with assms(1) show "Load V [] = Inr default_config"
    by (simp add: Load_def Let_def vp_defaults_only_def config_of_defaults)
  show "GetBlockInterval default_config = 10 ^ 9" "GetViewTimeout default_config = 10 * 10 ^ 9"
    by (simp_all add: GetBlockInterval_def GetViewTimeout_def milliseconds_def default_config_def)
  have "decimal 8 = [hex_digit 8]" by (subst decimal.simps) simp
  then have "decimal 80 = [hex_digit 8, hex_digit 0]" by (subst decimal.simps) simp
  then have "decimal 808 = [hex_digit 8, hex_digit 0, hex_digit 8]" by (subst decimal.simps) simp
  then have "decimal 8080 = [hex_digit 8, hex_digit 0, hex_digit 8, hex_digit 0]" by (subst decimal.simps) simp
  moreover have "hex_digit 8 = CHR ''8''" "hex_digit 0 = CHR ''0''" by code_simp+
  ultimately have "print_int 8080 = ''8080''" by (simp add: print_int_def)
  then show "GetHTTPAddr default_config = ''0.0.0.0:8080''" by (simp add: GetHTTPAddr_def default_config_def)
  show "NewBlockchain C J L now (chain_config_of (cfg_Blockchain default_config)) s = Blocked"
    using NewBlockchain_reopen [OF assms(2,3)] by (simp add: chain_config_of_def default_config_def)
qed

definition demo_viper :: "unit viper_lib" where
  "demo_viper = \<lparr>vp_read = (\<lambda>_. Inl ConfigFileNotFound), vp_unmarshal = (\<lambda>v _. config_of (v_defaults v))\<rparr>"

lemma demo_viper_ok: "vp_defaults_only demo_viper"
  by (simp add: vp_defaults_only_def demo_viper_def)

theorem default_config_blocks_chain_witness:
  "Load demo_viper [] = Inr default_config
   \<and> NewBlockchain demo_crypto demo_json map_db 5 (chain_config_of (cfg_Blockchain default_config)) Map.empty = Blocked"
proof -
  have "stored_chain demo_crypto (chain_config_of (cfg_Blockchain default_config)) demo_json map_db (\<lambda>s. s) Map.empty []"
    by (simp add: stored_chain_def BS_GetLatestHeight_def Storage_Get_spec [OF map_db_spec])
  from default_config_blocks_chain [OF demo_viper_ok map_db_spec this, of 5] show ?thesis by blast
qed

text \<open>
  What a loaded configuration satisfies, and what Validate does not ask for: intervals, ports and limits may be
  zero, negative or out of range.
\<close>

lemma loaded_config_checked:
  assumes "Load V path = Inr cfg"
  shows "node_Role (cfg_Node cfg) \<in> {''leader'', ''validator'', ''follower''}" and "cons_Type (cfg_Consensus cfg) = ''pbft''"
    and "net_MinConnections (cfg_Network cfg) \<le> net_MaxConnections (cfg_Network cfg)"
    and "log_Level (cfg_Log cfg) \<in> {''debug'', ''info'', ''warn'', ''error''}"
proof -
  have "Config_Validate cfg = None"
    using assms by (auto simp: Load_def Let_def split: option.splits sum.splits)
  then show "node_Role (cfg_Node cfg) \<in> {''leader'', ''validator'', ''follower''}" "cons_Type (cfg_Consensus cfg) = ''pbft''"
    "net_MinConnections (cfg_Network cfg) \<le> net_MaxConnections (cfg_Network cfg)"
    "log_Level (cfg_Log cfg) \<in> {''debug'', ''info'', ''warn'', ''error''}"
    by (auto simp: Config_Validate_def split: if_splits)
qed

lemma negative_interval_accepted:
  "Config_Validate (default_config\<lparr>cfg_Blockchain := (cfg_Blockchain default_config)\<lparr>chain_BlockInterval := - 5\<rparr>,
     cfg_API := (cfg_API default_config)\<lparr>api_HTTPPort := - 1\<rparr>\<rparr>) = None"
  by (simp add: Config_Validate_def default_config_def)

lemma unknown_format_is_console:
  "logger_New parseLevel info dir mkdirAll ((cfg_Log default_config)\<lparr>log_Format := []\<rparr>)
     = Some \<lparr>lo_level = (case parseLevel ''info'' of None \<Rightarrow> info | Some l \<Rightarrow> l), lo_encoder = ConsoleEncoder,
             lo_levelEncoder = CapitalLevel, lo_sink = Stdout\<rparr>"
  by (simp add: logger_New_def default_config_def)

end
