(* ===== verification/Command_Line.thy ===== *)
theory Command_Line
  imports API
begin

text \<open>
  The commands of v2v-node that print (cmd/v2v-node: main.go, platoon.go, identity.go, query.go, status.go): the
  tree of commands with their flags, and what each command writes. cobra picks the command and fills the flags;
  an invocation is one call of a RunE function with the values of its flags. Reading a file is a parameter.
\<close>

section \<open>The tree of commands\<close>

datatype flag_value = FString string | FInt int | FUint u64 | FFloat float64 | FBool bool | FStrings "string list"

record flag =
  flag_name :: string
  flag_default :: flag_value
  flag_required :: bool

datatype command = Command (cmd_use: string) (cmd_flags: "flag list") (cmd_args: "nat option") (cmd_sub: "command list")

definition optional :: "string \<Rightarrow> flag_value \<Rightarrow> flag" where
  "optional name v = \<lparr>flag_name = name, flag_default = v, flag_required = False\<rparr>"

definition required :: "string \<Rightarrow> flag" where
  "required name = \<lparr>flag_name = name, flag_default = FString [], flag_required = True\<rparr>"

definition newStartCmd :: command where
  "newStartCmd = Command ''start'' [optional ''api-port'' (FInt 8080), optional ''p2p-port'' (FInt 10000),
     optional ''bootstrap'' (FStrings []), optional ''validator'' (FBool False)] None []"

definition newIdentityRegisterCmd :: command where
  "newIdentityRegisterCmd =
     Command ''register'' [required ''vehicle-id'', required ''public-key'', required ''cert'', required ''fleet-id''] None []"

definition newIdentityRotateCmd :: command where
  "newIdentityRotateCmd = Command ''rotate'' [required ''vehicle-id'', required ''new-cert''] None []"

definition newIdentityStatusCmd :: command where
  "newIdentityStatusCmd = Command ''status [vehicle-id]'' [] (Some 1) []"

definition newIdentityListCmd :: command where
  "newIdentityListCmd = Command ''list'' [] None []"

definition newIdentityCmd :: command where
  "newIdentityCmd = Command ''identity'' [] None
     [newIdentityRegisterCmd, newIdentityRotateCmd, newIdentityStatusCmd, newIdentityListCmd]"

definition newPlatoonCreateCmd :: command where
  "newPlatoonCreateCmd = Command ''create'' [required ''platoon-id'', required ''leader'', optional ''min-gap'' (FFloat (Fin 2)),
     optional ''max-size'' (FInt 8), optional ''target-speed'' (FFloat (Fin 30)), optional ''validators'' (FStrings [])] None []"

definition newPlatoonJoinCmd :: command where
  "newPlatoonJoinCmd = Command ''join'' [required ''platoon-id'', required ''vehicle-id''] None []"

definition newPlatoonLeaveCmd :: command where
  "newPlatoonLeaveCmd = Command ''leave'' [required ''platoon-id'', required ''vehicle-id''] None []"

definition newPlatoonDissolveCmd :: command where
  "newPlatoonDissolveCmd = Command ''dissolve'' [required ''platoon-id'', optional ''reason'' (FString ''manual'')] None []"

definition newPlatoonListCmd :: command where
  "newPlatoonListCmd = Command ''list'' [optional ''status'' (FString [])] None []"

definition newPlatoonStatusCmd :: command where
  "newPlatoonStatusCmd = Command ''status [platoon-id]'' [] (Some 1) []"

definition newPlatoonCmd :: command where
  "newPlatoonCmd = Command ''platoon'' [] None [newPlatoonCreateCmd, newPlatoonJoinCmd, newPlatoonLeaveCmd,
     newPlatoonDissolveCmd, newPlatoonListCmd, newPlatoonStatusCmd]"

definition newQueryBlockCmd :: command where
  "newQueryBlockCmd = Command ''block'' [optional ''height'' (FUint 0), optional ''hash'' (FString []),
     optional ''latest'' (FBool False)] None []"

definition newQueryTxCmd :: command where
  "newQueryTxCmd = Command ''tx'' [optional ''hash'' (FString []), optional ''pending'' (FBool False)] None []"

definition newQueryIdentityCmd :: command where
  "newQueryIdentityCmd = Command ''identity'' [optional ''vehicle-id'' (FString []), optional ''list'' (FBool False)] None []"

definition newQueryPlatoonCmd :: command where
  "newQueryPlatoonCmd = Command ''platoon'' [optional ''platoon-id'' (FString []), optional ''list'' (FBool False),
     optional ''members'' (FBool False), optional ''history'' (FBool False)] None []"

definition newQueryCmd :: command where
  "newQueryCmd = Command ''query'' [] None [newQueryBlockCmd, newQueryTxCmd, newQueryIdentityCmd, newQueryPlatoonCmd]"

definition newStatusCmd :: command where
  "newStatusCmd = Command ''status'' [] None []"

definition newVersionCmd :: command where
  "newVersionCmd = Command ''version'' [] None []"

definition main_rootCmd :: command where
  "main_rootCmd = Command ''v2v-node'' [optional ''config'' (FString []), optional ''data-dir'' (FString ''./data''),
     optional ''log-level'' (FString ''info'')] None
     [newStartCmd, newIdentityCmd, newPlatoonCmd, newQueryCmd, newStatusCmd, newVersionCmd]"

section \<open>What the commands print\<close>

text \<open>
  Lines, or the text of a JSON value; MarshalIndent writes the keys of a map in their order, and its error for a
  number that is not finite is dropped, so that an empty line is printed.
\<close>

datatype cli_output = Lines "string list" | JSONText "json option"

datatype cli_error = ReadCertificateFailed | InvalidPublicKey

definition submission :: "string \<Rightarrow> (string \<times> json) list \<Rightarrow> json" where
  "submission action req = JObj [(''action'', JStr action),
     (''note'', JStr ''Submit this request via API: POST /api/v1/transactions''), (''request'', JObj req)]"

definition runPlatoonCreate :: "string \<Rightarrow> string \<Rightarrow> float64 \<Rightarrow> int \<Rightarrow> float64 \<Rightarrow> string list \<Rightarrow> cli_output" where
  "runPlatoonCreate platoonID leaderID minGap maxSize targetSpeed validatorIDs =
     JSONText (if fl_finite minGap \<and> fl_finite targetSpeed
       then Some (submission ''create_platoon''
         [(''action'', JStr ''create_platoon''), (''leader_id'', JStr leaderID), (''max_size'', JNum maxSize),
          (''min_gap'', JFloat minGap), (''platoon_id'', JStr platoonID), (''target_speed'', JFloat targetSpeed),
          (''validators'', if validatorIDs = [] then JNull else enc_list JStr validatorIDs)])
       else None)"

definition runPlatoonJoin :: "string \<Rightarrow> string \<Rightarrow> cli_output" where
  "runPlatoonJoin platoonID vehicleID =
     JSONText (Some (submission ''join_platoon'' [(''platoon_id'', JStr platoonID), (''vehicle_id'', JStr vehicleID)]))"

definition runPlatoonLeave :: "string \<Rightarrow> string \<Rightarrow> cli_output" where
  "runPlatoonLeave platoonID vehicleID =
     JSONText (Some (submission ''leave_platoon'' [(''platoon_id'', JStr platoonID), (''vehicle_id'', JStr vehicleID)]))"

definition runPlatoonDissolve :: "string \<Rightarrow> string \<Rightarrow> cli_output" where
  "runPlatoonDissolve platoonID reason =
     JSONText (Some (submission ''dissolve_platoon'' [(''platoon_id'', JStr platoonID), (''reason'', JStr reason)]))"

definition runPlatoonList :: "string \<Rightarrow> cli_output" where
  "runPlatoonList status = Lines ([''Listing platoons'']
     @ (if status \<noteq> [] then [''Filter: status='' @ status] else [])
     @ [''Query via API: GET /api/v1/platoons''])"

definition runPlatoonStatus :: "string \<Rightarrow> cli_output" where
  "runPlatoonStatus platoonID = Lines [''Getting status for platoon: '' @ platoonID,
     ''Query via API: GET /api/v1/platoons/'' @ platoonID]"

definition runIdentityRegister ::
  "(string \<Rightarrow> bytes option) \<Rightarrow> string \<Rightarrow> string \<Rightarrow> string \<Rightarrow> string \<Rightarrow> cli_error + cli_output" where
  "runIdentityRegister readFile vehicleID publicKey certificate fleetID =
     (case readFile certificate of
        None \<Rightarrow> Inl ReadCertificateFailed
      | Some _ \<Rightarrow>
          (case hex_decode publicKey of
             None \<Rightarrow> Inl InvalidPublicKey
           | Some _ \<Rightarrow> Inr (JSONText (Some (submission ''register_identity''
               [(''certificate'', JStr ''<certificate data>''), (''fleet_id'', JStr fleetID),
                (''public_key'', JStr publicKey), (''vehicle_id'', JStr vehicleID)])))))"

definition runIdentityRotate :: "(string \<Rightarrow> bytes option) \<Rightarrow> string \<Rightarrow> string \<Rightarrow> cli_error + cli_output" where
  "runIdentityRotate readFile vehicleID newCertificate =
     (case readFile newCertificate of
        None \<Rightarrow> Inl ReadCertificateFailed
      | Some _ \<Rightarrow> Inr (JSONText (Some (submission ''rotate_certificate''
          [(''new_certificate'', JStr ''<certificate data>''), (''vehicle_id'', JStr vehicleID)]))))"

definition runIdentityStatus :: "string \<Rightarrow> cli_output" where
  "runIdentityStatus vehicleID = Lines [''Checking identity status for: '' @ vehicleID,
     ''Query via API: GET /api/v1/identities/'' @ vehicleID]"

definition runIdentityList :: cli_output where
  "runIdentityList = Lines [''Listing registered identities'', ''Query via API: GET /api/v1/identities'']"

definition runQueryBlock :: "u64 \<Rightarrow> string \<Rightarrow> bool \<Rightarrow> cli_output" where
  "runQueryBlock height hash latest = Lines
     (if latest then [''Querying latest block'', ''API: GET /api/v1/blocks/latest'']
      else if hash \<noteq> [] then [''Querying block by hash: '' @ hash, ''API: GET /api/v1/blocks/hash/'' @ hash]
      else if 0 < height then [''Querying block at height: '' @ decimal (unat height),
                               ''API: GET /api/v1/blocks/'' @ decimal (unat height)]
      else [''Querying recent blocks'', ''API: GET /api/v1/blocks''])"

definition runQueryTx :: "string \<Rightarrow> bool \<Rightarrow> cli_output" where
  "runQueryTx hash pending = Lines
     (if pending then [''Querying pending transactions'', ''API: GET /api/v1/transactions/pending'']
      else if hash \<noteq> [] then [''Querying transaction: '' @ hash, ''API: GET /api/v1/transactions/'' @ hash]
      else [''Please specify --hash or --pending''])"

definition runQueryIdentity :: "string \<Rightarrow> bool \<Rightarrow> cli_output" where
  "runQueryIdentity vehicleID listAll = Lines
     (if listAll then [''Listing all identities'', ''API: GET /api/v1/identities'']
      else if vehicleID \<noteq> [] then [''Querying identity: '' @ vehicleID, ''API: GET /api/v1/identities/'' @ vehicleID]
      else [''Please specify --vehicle-id or --list''])"

definition runQueryPlatoon :: "string \<Rightarrow> bool \<Rightarrow> bool \<Rightarrow> bool \<Rightarrow> cli_output" where
  "runQueryPlatoon platoonID listAll members history = Lines
     (if listAll then [''Listing all platoons'', ''API: GET /api/v1/platoons'']
      else if platoonID \<noteq> []
      then (if members then [''Getting members for platoon: '' @ platoonID,
                             ''API: GET /api/v1/platoons/'' @ platoonID @ ''/members'']
            else if history then [''Getting history for platoon: '' @ platoonID,
                                  ''API: GET /api/v1/platoons/'' @ platoonID @ ''/history'']
            else [''Querying platoon: '' @ platoonID, ''API: GET /api/v1/platoons/'' @ platoonID])
      else [''Please specify --platoon-id or --list''])"

definition runStatus :: cli_output where
  "runStatus = Lines
     [''V2V Blockchain Node Status'', ''=========================='', [], ''API Endpoints:'',
      ''  GET  /health                    - Health check'',
      ''  GET  /ready                     - Readiness check'',
      ''  GET  /api/v1/node/status        - Node status'',
      ''  GET  /api/v1/node/peers         - Connected peers'',
      ''  GET  /api/v1/node/stats         - Node statistics'', [], ''Block APIs:'',
      ''  GET  /api/v1/blocks/latest      - Latest block'',
      ''  GET  /api/v1/blocks/{height}    - Block by height'',
      ''  GET  /api/v1/blocks/hash/{hash} - Block by hash'',
      ''  GET  /api/v1/blocks             - List blocks'', [], ''Transaction APIs:'',
      ''  POST /api/v1/transactions       - Submit transaction'',
      ''  GET  /api/v1/transactions/{hash} - Get transaction'',
      ''  GET  /api/v1/transactions/pending - Pending transactions'', [], ''Platoon APIs:'',
      ''  GET  /api/v1/platoons           - List platoons'',
      ''  GET  /api/v1/platoons/{id}      - Get platoon'',
      ''  GET  /api/v1/platoons/{id}/members - Get members'',
      ''  GET  /api/v1/platoons/{id}/history - Get history'', [], ''Identity APIs:'',
      ''  GET  /api/v1/identities         - List identities'',
      ''  GET  /api/v1/identities/{id}    - Get identity'', [], ''WebSocket:'',
      ''  WS   /ws                        - Real-time updates'', []]"

definition runVersion :: "string \<Rightarrow> string \<Rightarrow> string \<Rightarrow> cli_output" where
  "runVersion version buildTime gitCommit = Lines
     [''V2V Blockchain Node'', ''Version:    '' @ version, ''Build Time: '' @ buildTime, ''Git Commit: '' @ gitCommit]"

text \<open>A text that is no address gives the zero address: the error of DecodeString is dropped.\<close>

fun decoded_prefix :: "string \<Rightarrow> bytes" where
  "decoded_prefix (c # d # cs) =
     (case (hex_val c, hex_val d) of (Some a, Some b) \<Rightarrow> of_nat (16 * a + b) # decoded_prefix cs | _ \<Rightarrow> [])"
| "decoded_prefix _ = []"

definition parseAddress :: "string \<Rightarrow> address" where
  "parseAddress s =
     (let s = (if take 2 s = ''0x'' then drop 2 s else s)
      in if length s = 40 then let data = decoded_prefix s in get_be (data @ replicate (20 - length data) 0) else 0)"

section \<open>One call of a RunE function\<close>

datatype invocation =
    PlatoonCreate string string float64 int float64 "string list"
  | PlatoonJoin string string
  | PlatoonLeave string string
  | PlatoonDissolve string string
  | PlatoonList string
  | PlatoonStatus string
  | IdentityRegister string string string string
  | IdentityRotate string string
  | IdentityStatus string
  | IdentityList
  | QueryBlock u64 string bool
  | QueryTx string bool
  | QueryIdentity string bool
  | QueryPlatoon string bool bool bool
  | NodeStatusText
  | VersionText string string string

definition run_cli :: "(string \<Rightarrow> bytes option) \<Rightarrow> invocation \<Rightarrow> cli_error + cli_output" where
  "run_cli readFile c =
     (case c of
        PlatoonCreate p l g m t vs \<Rightarrow> Inr (runPlatoonCreate p l g m t vs)
      | PlatoonJoin p v \<Rightarrow> Inr (runPlatoonJoin p v)
      | PlatoonLeave p v \<Rightarrow> Inr (runPlatoonLeave p v)
      | PlatoonDissolve p r \<Rightarrow> Inr (runPlatoonDissolve p r)
      | PlatoonList st \<Rightarrow> Inr (runPlatoonList st)
      | PlatoonStatus p \<Rightarrow> Inr (runPlatoonStatus p)
      | IdentityRegister v k c f \<Rightarrow> runIdentityRegister readFile v k c f
      | IdentityRotate v c \<Rightarrow> runIdentityRotate readFile v c
      | IdentityStatus v \<Rightarrow> Inr (runIdentityStatus v)
      | IdentityList \<Rightarrow> Inr runIdentityList
      | QueryBlock n h l \<Rightarrow> Inr (runQueryBlock n h l)
      | QueryTx h p \<Rightarrow> Inr (runQueryTx h p)
      | QueryIdentity v l \<Rightarrow> Inr (runQueryIdentity v l)
      | QueryPlatoon p l m h \<Rightarrow> Inr (runQueryPlatoon p l m h)
      | NodeStatusText \<Rightarrow> Inr runStatus
      | VersionText v b g \<Rightarrow> Inr (runVersion v b g))"

section \<open>The printed requests and the API\<close>

lemma submitted_body: "run_cli readFile c = Inr (JSONText (Some j)) \<Longrightarrow> \<exists>action req. j = submission action req"
  by (auto simp: run_cli_def runPlatoonCreate_def runPlatoonJoin_def runPlatoonLeave_def runPlatoonDissolve_def
      runPlatoonList_def runPlatoonStatus_def runIdentityRegister_def runIdentityRotate_def runIdentityStatus_def
      runIdentityList_def runQueryBlock_def runQueryTx_def runQueryIdentity_def runQueryPlatoon_def runStatus_def
      runVersion_def split: invocation.splits option.splits if_splits)

lemma submission_is_zero: "dec_tx (submission action req) = Some zero_tx"
  by (simp add: dec_tx_def submission_def jget_def zero_tx_def)

text \<open>
  C38. Whatever request a command prints, POST /api/v1/transactions, to which its note sends the user, refuses it:
  the text names none of the fields of a transaction, so it is read as the transaction that is zero in
  every field, whose hash is not zero.
\<close>

theorem printed_requests_refused:
  assumes "Transaction_CalculateHash (lib_C B) zero_tx \<noteq> 0"
    and "run_cli readFile c = Inr (JSONText (Some j))" and "js_parse (lib_J B) (rq_body r) = Some j"
  shows "\<exists>e. handleSubmitTransaction B now r sv = reply sv (errorResponse 400 (PoolErr e))"
proof -
  obtain action req where j: "j = submission action req" using submitted_body [OF assms(2)] by blast
  have "unmarshal (lib_J B) dec_tx (rq_body r) = Some zero_tx"
    by (simp add: unmarshal_def assms(3) j submission_is_zero)
  moreover have "validateTx (lib_C B) p zero_tx = Some ErrInvalidTx" for p
    using assms(1) by (simp add: validateTx_def Hash_Equals_def zero_tx_def)
  then have "\<exists>e. AddTx (lib_C B) now p zero_tx 5 = (p, Some e)" for p by (simp add: AddTx_def)
  then obtain e where "AddTx (lib_C B) now (sv_txPool sv) zero_tx 5 = (sv_txPool sv, Some e)" by blast
  ultimately show ?thesis by (intro exI [of _ e]) (simp add: handleSubmitTransaction_def)
qed

theorem printed_requests_refused_witness:
  "\<exists>e. handleSubmitTransaction (demo_libs\<lparr>lib_C := demo_crypto\<lparr>keccak256 := \<lambda>_. 5\<rparr>\<rparr>) 5
     (demo_request\<lparr>rq_body := js_text demo_json (submission ''leave_platoon''
        [(''platoon_id'', JStr ''p''), (''vehicle_id'', JStr ''2'')])\<rparr>) demo_server
   = reply demo_server (errorResponse 400 (PoolErr e))"
proof (rule printed_requests_refused)
  show "Transaction_CalculateHash (lib_C (demo_libs\<lparr>lib_C := demo_crypto\<lparr>keccak256 := \<lambda>_. 5\<rparr>\<rparr>)) zero_tx \<noteq> 0"
    by (simp add: Transaction_CalculateHash_def)
  show "run_cli (\<lambda>_. None) (PlatoonLeave ''p'' ''2'')
    = Inr (JSONText (Some (submission ''leave_platoon'' [(''platoon_id'', JStr ''p''), (''vehicle_id'', JStr ''2'')])))"
    by (simp add: run_cli_def runPlatoonLeave_def)
qed (simp add: demo_libs_def json_okD [OF demo_json_ok])

section \<open>The printed queries and the routes\<close>

text \<open>What gorilla/mux documents: a template matches segment by segment, and a variable takes one that is not empty.\<close>

fun segments :: "string \<Rightarrow> string list" where
  "segments [] = [[]]"
| "segments (c # s) = (if c = CHR ''/'' then [] # segments s
     else case segments s of [] \<Rightarrow> [[c]] | x # xs \<Rightarrow> (c # x) # xs)"

fun match_segments :: "string list \<Rightarrow> string list \<Rightarrow> (string \<times> string) list option" where
  "match_segments [] [] = Some []"
| "match_segments (t # ts) (s # ss) =
     (if t \<noteq> [] \<and> hd t = CHR ''{''
      then if s = [] then None else map_option ((#) (butlast (tl t), s)) (match_segments ts ss)
      else if t = s then match_segments ts ss else None)"
| "match_segments _ _ = None"

definition match_template :: "string \<Rightarrow> string \<Rightarrow> (string \<Rightarrow> string) option" where
  "match_template t p = map_option (\<lambda>vs k. case map_of vs k of None \<Rightarrow> [] | Some v \<Rightarrow> v)
     (match_segments (segments t) (segments p))"

text \<open>
  mux looks at the path of the URL with its escapes decoded. A path that is not clean it answers with a redirect to
  the clean one before it tries the routes (setupRoutes does not turn this off), so only clean paths are matched.
\<close>

definition clean_path :: "string \<Rightarrow> bool" where
  "clean_path p \<longleftrightarrow> p \<noteq> [] \<and> hd p = CHR ''/''
     \<and> (\<forall>x \<in> set (butlast (tl (segments p))). x \<noteq> [] \<and> x \<noteq> ''.'' \<and> x \<noteq> ''..'')
     \<and> last (segments p) \<noteq> ''.'' \<and> last (segments p) \<noteq> ''..''"

definition mux_spec :: "mux_lib \<Rightarrow> bool" where
  "mux_spec M \<longleftrightarrow> (\<forall>t p. clean_path p \<longrightarrow> mux_match M t p = match_template t p)"

text \<open>The path of a printed URL as net/http reads it: up to the query or the fragment, with the escapes decoded.\<close>

fun percent_decode :: "string \<Rightarrow> string option" where
  "percent_decode [] = Some []"
| "percent_decode (c # s) =
     (if c \<noteq> CHR ''%'' then map_option ((#) c) (percent_decode s)
      else case s of
        a # b # s' \<Rightarrow> (case (hex_val a, hex_val b) of
            (Some x, Some y) \<Rightarrow> map_option ((#) (char_of (16 * x + y))) (percent_decode s')
          | _ \<Rightarrow> None)
      | _ \<Rightarrow> None)"

definition url_path :: "string \<Rightarrow> string option" where
  "url_path u = percent_decode (takeWhile (\<lambda>c. c \<noteq> CHR ''?'' \<and> c \<noteq> CHR ''#'') u)"

lemma url_path_plain:
  assumes "\<forall>c \<in> set u. c \<noteq> CHR ''?'' \<and> c \<noteq> CHR ''#'' \<and> c \<noteq> CHR ''%''"
  shows "url_path u = Some u"
proof -
  have "takeWhile (\<lambda>c. c \<noteq> CHR ''?'' \<and> c \<noteq> CHR ''#'') u = u" using assms by (induction u) auto
  moreover have "percent_decode u = Some u" using assms by (induction u) auto
  ultimately show ?thesis unfolding url_path_def by (simp only:)
qed

text \<open>The characters of a URL that no parser changes, and the names made of them that are one clean segment.\<close>

definition unreserved :: "char \<Rightarrow> bool" where
  "unreserved c \<longleftrightarrow> c \<in> set ''ABCDEFGHIJKLMNOPQRSTUVWXYZabcdefghijklmnopqrstuvwxyz0123456789-._~''"

definition plain_name :: "string \<Rightarrow> bool" where
  "plain_name s \<longleftrightarrow> s \<noteq> [] \<and> s \<noteq> ''.'' \<and> s \<noteq> ''..'' \<and> (\<forall>c \<in> set s. unreserved c)"

lemma unreserved_not:
  "unreserved c \<Longrightarrow> c \<noteq> CHR ''/'' \<and> c \<noteq> CHR ''?'' \<and> c \<noteq> CHR ''#'' \<and> c \<noteq> CHR ''%''"
proof -
  have "\<not> unreserved (CHR ''/'')" "\<not> unreserved (CHR ''?'')" "\<not> unreserved (CHR ''#'')" "\<not> unreserved (CHR ''%'')"
    by code_simp+
  then show "unreserved c \<Longrightarrow> c \<noteq> CHR ''/'' \<and> c \<noteq> CHR ''?'' \<and> c \<noteq> CHR ''#'' \<and> c \<noteq> CHR ''%''" by blast
qed

lemma plain_nameD:
  assumes "plain_name s"
  shows "CHR ''/'' \<notin> set s" and "s \<noteq> []" and "s \<noteq> ''.''" and "s \<noteq> ''..''"
    and "CHR ''?'' \<notin> set s" and "CHR ''#'' \<notin> set s" and "CHR ''%'' \<notin> set s"
  using assms unreserved_not by (auto simp: plain_name_def)

lemma segments_plain: "CHR ''/'' \<notin> set s \<Longrightarrow> segments s = [s]"
  by (induction s) auto

lemma segments_slash: "CHR ''/'' \<notin> set s \<Longrightarrow> segments (s @ CHR ''/'' # t) = s # segments t"
  by (induction s) auto

lemma decimal_digits: "c \<in> set (decimal n) \<Longrightarrow> hex_val c \<noteq> None"
proof (induction n rule: decimal.induct)
  case (1 n)
  show ?case
  proof (cases "n < 10")
    case True
    with 1(2) have "c = hex_digit n" by (subst (asm) decimal.simps) simp
    with True show ?thesis using hex_val_digit [of n] by simp
  next
    case False
    with 1(2) have "c \<in> set (decimal (n div 10)) \<or> c = hex_digit (n mod 10)" by (subst (asm) decimal.simps) auto
    moreover have "n mod 10 < 16" using mod_less_divisor [of 10 n] by linarith
    ultimately show ?thesis using 1(1) [OF False] hex_val_digit [of "n mod 10"] by auto
  qed
qed

lemma decimal_plain: "CHR ''/'' \<notin> set (decimal n)"
proof -
  have "hex_val (CHR ''/'') = None" by code_simp
  then show ?thesis using decimal_digits by metis
qed

lemma decimal_nonempty: "decimal n \<noteq> []"
  by (subst decimal.simps) simp

lemmas route_defs = routes_def public_route_def protected_route_def match_template_def

text \<open>The path that the last line of a query names.\<close>

definition get_path :: "string \<Rightarrow> string option" where
  "get_path line =
     (if take 9 line = ''API: GET '' then Some (drop 9 line)
      else if take 19 line = ''Query via API: GET '' then Some (drop 19 line) else None)"

text \<open>The endpoint that the words of a query ask for.\<close>

fun asks_for :: "invocation \<Rightarrow> endpoint option" where
  "asks_for (PlatoonList st) = Some Platoons"
| "asks_for (PlatoonStatus p) = Some PlatoonById"
| "asks_for (IdentityStatus v) = Some IdentityById"
| "asks_for IdentityList = Some Identities"
| "asks_for (QueryBlock n h l) = Some (if l then LatestBlock else if h \<noteq> [] then BlockByHash
     else if 0 < n then BlockByHeight else Blocks)"
| "asks_for (QueryTx h p) = (if p then Some PendingTransactions else if h \<noteq> [] then Some TransactionByHash else None)"
| "asks_for (QueryIdentity v l) = (if l then Some Identities else if v \<noteq> [] then Some IdentityById else None)"
| "asks_for (QueryPlatoon p l m h) = (if l then Some Platoons else if p = [] then None
     else Some (if m then PlatoonMembers else if h then PlatoonHistory else PlatoonById))"
| "asks_for _ = None"

text \<open>The name in a query, which may hold no slash and may not be empty where a path ends in it.\<close>

fun query_name :: "invocation \<Rightarrow> string" where
  "query_name (PlatoonStatus p) = p"
| "query_name (IdentityStatus v) = v"
| "query_name (QueryBlock n h l) = (if h \<noteq> [] then h else ''n'')"
| "query_name (QueryTx h p) = (if h \<noteq> [] then h else ''n'')"
| "query_name (QueryIdentity v l) = (if v \<noteq> [] then v else ''n'')"
| "query_name (QueryPlatoon p l m h) = (if p \<noteq> [] then p else ''n'')"
| "query_name _ = ''n''"

text \<open>The route that a request reaches, and for some the hash in its path.\<close>

definition reaches :: "mux_lib \<Rightarrow> request \<Rightarrow> endpoint \<Rightarrow> string option \<Rightarrow> bool" where
  "reaches M r ep h \<longleftrightarrow> (case first_match M r routes of
     None \<Rightarrow> False
   | Some (rt, vars) \<Rightarrow> rt_endpoint rt = ep \<and> (h = None \<or> h = Some (vars ''hash'')))"

lemma reaches_any: "reaches M r ep h \<Longrightarrow> reaches M r ep None"
  by (auto simp: reaches_def split: option.splits)

text \<open>Each form of path reaches its route.\<close>

lemmas path_simps = route_defs segments_plain segments_slash decimal_plain decimal_nonempty

lemma platoon_paths:
  assumes "mux_match M = match_template" and "rq_method r = ''GET''" and "CHR ''/'' \<notin> set p" and "p \<noteq> []"
  shows "rq_path r = ''/api/v1/platoons/'' @ p \<Longrightarrow>
      reaches M r PlatoonById None"
    and "rq_path r = ''/api/v1/platoons/'' @ p @ ''/members'' \<Longrightarrow>
      reaches M r PlatoonMembers None"
    and "rq_path r = ''/api/v1/platoons/'' @ p @ ''/history'' \<Longrightarrow>
      reaches M r PlatoonHistory None"
    and "rq_path r = ''/api/v1/identities/'' @ p \<Longrightarrow>
      reaches M r IdentityById None"
    and "rq_path r = ''/api/v1/blocks/hash/'' @ p \<Longrightarrow>
      reaches M r BlockByHash None"
    and "rq_path r = ''/api/v1/transactions/'' @ p \<Longrightarrow>
      reaches M r TransactionByHash (Some p)"
    and "rq_path r = ''/api/v1/blocks/'' @ p \<Longrightarrow> p \<noteq> ''latest'' \<Longrightarrow>
      reaches M r BlockByHeight None"
  using assms by (simp_all add: path_simps reaches_def)

lemma fixed_paths:
  assumes "mux_match M = match_template" and "rq_method r = ''GET''"
  shows "rq_path r = ''/api/v1/platoons'' \<Longrightarrow>
      reaches M r Platoons None"
    and "rq_path r = ''/api/v1/identities'' \<Longrightarrow>
      reaches M r Identities None"
    and "rq_path r = ''/api/v1/blocks'' \<Longrightarrow>
      reaches M r Blocks None"
    and "rq_path r = ''/api/v1/blocks/latest'' \<Longrightarrow>
      reaches M r LatestBlock None"
    and "rq_path r = ''/api/v1/transactions/pending'' \<Longrightarrow>
      reaches M r TransactionByHash (Some ''pending'')"
  using assms by (simp_all add: path_simps reaches_def)

lemma decimal_not_latest: "decimal n \<noteq> ''latest''"
proof
  assume "decimal n = ''latest''"
  then have "CHR ''l'' \<in> set (decimal n)" by simp
  moreover have "hex_val (CHR ''l'') = None" by code_simp
  ultimately show False using decimal_digits by metis
qed

definition documented_mux :: mux_lib where
  "documented_mux = \<lparr>mux_match = match_template, mux_unmatched = (\<lambda>m p. 404)\<rparr>"

lemma documented: "mux_match documented_mux = match_template"
  by (simp add: documented_mux_def)

lemma reaches_documented:
  assumes "mux_spec M" and "clean_path (rq_path r)"
  shows "reaches M r = reaches documented_mux r"
proof -
  have "first_match M r rts = first_match documented_mux r rts" for rts
    using assms by (induction rts) (auto simp: mux_spec_def documented split: option.split)
  then show ?thesis by (simp add: reaches_def fun_eq_iff)
qed

text \<open>A printed path is clean, and net/http reads it as it is printed.\<close>

lemma decimal_in_url: "c \<in> set (decimal n) \<Longrightarrow> c \<noteq> CHR ''?'' \<and> c \<noteq> CHR ''#'' \<and> c \<noteq> CHR ''%'' \<and> c \<noteq> CHR ''.''"
proof -
  have "hex_val (CHR ''?'') = None" "hex_val (CHR ''#'') = None" "hex_val (CHR ''%'') = None" "hex_val (CHR ''.'') = None"
    by code_simp+
  then show "c \<in> set (decimal n) \<Longrightarrow> ?thesis" using decimal_digits by metis
qed

definition plain_url :: "string \<Rightarrow> bool" where
  "plain_url u \<longleftrightarrow> clean_path u \<and> (\<forall>c \<in> set u. c \<noteq> CHR ''?'' \<and> c \<noteq> CHR ''#'' \<and> c \<noteq> CHR ''%'')"

lemma fixed_urls:
  "plain_url ''/api/v1/platoons''" "plain_url ''/api/v1/identities''" "plain_url ''/api/v1/blocks''"
  "plain_url ''/api/v1/blocks/latest''" "plain_url ''/api/v1/transactions/pending''"
  by (simp_all add: plain_url_def clean_path_def)

lemma named_urls:
  assumes "plain_name p"
  shows "plain_url (''/api/v1/platoons/'' @ p)" and "plain_url (''/api/v1/platoons/'' @ p @ ''/members'')"
    and "plain_url (''/api/v1/platoons/'' @ p @ ''/history'')" and "plain_url (''/api/v1/identities/'' @ p)"
    and "plain_url (''/api/v1/blocks/hash/'' @ p)" and "plain_url (''/api/v1/transactions/'' @ p)"
proof -
  note d = plain_nameD(1-4) [OF assms]
  have c: "\<forall>c \<in> set p. c \<noteq> CHR ''?'' \<and> c \<noteq> CHR ''#'' \<and> c \<noteq> CHR ''%''"
    using assms unreserved_not by (auto simp: plain_name_def)
  show "plain_url (''/api/v1/platoons/'' @ p)" and "plain_url (''/api/v1/platoons/'' @ p @ ''/members'')"
    and "plain_url (''/api/v1/platoons/'' @ p @ ''/history'')" and "plain_url (''/api/v1/identities/'' @ p)"
    and "plain_url (''/api/v1/blocks/hash/'' @ p)" and "plain_url (''/api/v1/transactions/'' @ p)"
    by (simp_all add: plain_url_def clean_path_def segments_plain segments_slash d c ball_Un)
qed

lemma plain_url_height: "plain_url (''/api/v1/blocks/'' @ decimal n)"
proof -
  have "decimal n \<noteq> ''.''" "decimal n \<noteq> ''..''" using decimal_in_url [of "CHR ''.''" n] by auto
  then show ?thesis
    using decimal_in_url by (auto simp: plain_url_def clean_path_def segments_plain decimal_plain)
qed

lemma printed_plain:
  assumes "run_cli readFile c = Inr (Lines ls)" and "get_path (last ls) = Some u" and "plain_name (query_name c)"
  shows "plain_url u"
proof (cases c)
  case (QueryBlock n h l)
  have "u = (if l then ''/api/v1/blocks/latest'' else if h \<noteq> [] then ''/api/v1/blocks/hash/'' @ h
      else if 0 < n then ''/api/v1/blocks/'' @ decimal (unat n) else ''/api/v1/blocks'')"
    using assms(1,2) by (auto simp: QueryBlock run_cli_def runQueryBlock_def get_path_def split: if_splits)
  with assms(3) show ?thesis
    using fixed_urls named_urls(5) [of h] plain_url_height by (cases "h = []") (simp_all add: QueryBlock)
next
  case (QueryTx h p)
  have "u = (if p then ''/api/v1/transactions/pending'' else ''/api/v1/transactions/'' @ h)" "p \<or> h \<noteq> []"
    using assms(1,2) by (auto simp: QueryTx run_cli_def runQueryTx_def get_path_def split: if_splits)
  with assms(3) show ?thesis using fixed_urls named_urls(6) [of h] by (cases "h = []") (simp_all add: QueryTx)
next
  case (QueryIdentity v l)
  with assms fixed_urls(2) named_urls(4) show ?thesis
    by (auto simp: run_cli_def runQueryIdentity_def get_path_def split: if_splits)
next
  case (QueryPlatoon p l m h)
  with assms fixed_urls(1) named_urls(1-3) show ?thesis
    by (auto simp: run_cli_def runQueryPlatoon_def get_path_def split: if_splits)
next
  case (PlatoonStatus p)
  with assms named_urls(1) show ?thesis by (auto simp: run_cli_def runPlatoonStatus_def get_path_def)
next
  case (IdentityStatus v)
  with assms named_urls(4) show ?thesis by (auto simp: run_cli_def runIdentityStatus_def get_path_def)
qed (use assms fixed_urls(1,2) in
    \<open>auto simp: run_cli_def runPlatoonCreate_def runPlatoonJoin_def runPlatoonLeave_def runPlatoonDissolve_def
      runPlatoonList_def runIdentityRegister_def runIdentityRotate_def runIdentityList_def runStatus_def runVersion_def
      get_path_def split: if_splits option.splits\<close>)

lemma printed_reaches:
  assumes "mux_match M = match_template" and "rq_method r = ''GET''"
    and "run_cli readFile c = Inr (Lines ls)" and "get_path (last ls) = Some (rq_path r)"
    and "CHR ''/'' \<notin> set (query_name c)" and "query_name c \<noteq> []"
  shows "(case c of QueryTx h True \<Rightarrow> reaches M r TransactionByHash (Some ''pending'')
    | _ \<Rightarrow> (\<exists>ep. asks_for c = Some ep \<and> reaches M r ep None))"
proof (cases c)
  case (QueryBlock n h l)
  have p: "CHR ''/'' \<notin> set h" using assms(5) by (auto simp: QueryBlock split: if_splits)
  have path: "rq_path r = (if l then ''/api/v1/blocks/latest'' else if h \<noteq> [] then ''/api/v1/blocks/hash/'' @ h
      else if 0 < n then ''/api/v1/blocks/'' @ decimal (unat n) else ''/api/v1/blocks'')"
    using assms(3,4) by (auto simp: QueryBlock run_cli_def runQueryBlock_def get_path_def split: if_splits)
  consider "l" | "\<not> l" "h \<noteq> []" | "\<not> l" "h = []" "0 < n" | "\<not> l" "h = []" "\<not> 0 < n" by blast
  then have "reaches M r (the (asks_for c)) None"
  proof cases
    case 1
    then show ?thesis using fixed_paths(4) [OF assms(1,2)] path by (simp add: QueryBlock)
  next
    case 2
    then show ?thesis using platoon_paths(5) [OF assms(1,2) p] path by (simp add: QueryBlock)
  next
    case 3
    then have "rq_path r = ''/api/v1/blocks/'' @ decimal (unat n)" using path by simp
    from platoon_paths(7) [OF assms(1,2) decimal_plain decimal_nonempty this decimal_not_latest] 3
    show ?thesis by (simp add: QueryBlock)
  next
    case 4
    then show ?thesis using fixed_paths(3) [OF assms(1,2)] path by (simp add: QueryBlock)
  qed
  then show ?thesis by (simp add: QueryBlock)
next
  case (QueryTx h p)
  have path: "rq_path r = (if p then ''/api/v1/transactions/pending'' else ''/api/v1/transactions/'' @ h)" "p \<or> h \<noteq> []"
    using assms(3,4) by (auto simp: QueryTx run_cli_def runQueryTx_def get_path_def split: if_splits)
  show ?thesis
  proof (cases p)
    case True
    then show ?thesis using fixed_paths(5) [OF assms(1,2)] path by (simp add: QueryTx)
  next
    case False
    then have h: "CHR ''/'' \<notin> set h" "h \<noteq> []" using assms(5) path(2) by (auto simp: QueryTx)
    with False platoon_paths(6) [OF assms(1,2) h] path show ?thesis by (simp add: QueryTx reaches_any)
  qed
next
  case (QueryIdentity v l)
  with assms fixed_paths(2) [OF assms(1,2)] platoon_paths(4) [OF assms(1,2)] show ?thesis
    by (auto simp: run_cli_def runQueryIdentity_def get_path_def split: if_splits)
next
  case (QueryPlatoon p l m h)
  with assms fixed_paths(1) [OF assms(1,2)] platoon_paths(1-3) [OF assms(1,2)] show ?thesis
    by (auto simp: run_cli_def runQueryPlatoon_def get_path_def split: if_splits)
next
  case (PlatoonStatus p)
  with assms platoon_paths(1) [OF assms(1,2)] show ?thesis
    by (auto simp: run_cli_def runPlatoonStatus_def get_path_def)
next
  case (IdentityStatus v)
  with assms platoon_paths(4) [OF assms(1,2)] show ?thesis
    by (auto simp: run_cli_def runIdentityStatus_def get_path_def)
qed (use assms fixed_paths(1,2) [OF assms(1,2)] in
    \<open>auto simp: run_cli_def runPlatoonCreate_def runPlatoonJoin_def runPlatoonLeave_def runPlatoonDissolve_def
      runPlatoonList_def runIdentityRegister_def runIdentityRotate_def runIdentityList_def runStatus_def runVersion_def
      get_path_def split: if_splits option.splits\<close>)

text \<open>
  C39. The path that a query command prints reaches the endpoint that answers the query, when it is requested as
  net/http and mux read it: cut at the query and the fragment, with its escapes decoded, answered by a redirect
  unless it is clean, and matched segment by segment. This holds for every name that consists of letters, digits and
  the characters - . _ ~ and is not . or .., as hashes, addresses and the identifiers of platoons do. Only the query
  for the pending transactions does not: it reaches the handler of a single transaction, with the hash \<open>pending\<close>.
\<close>

theorem printed_queries_routed:
  assumes "mux_spec M" and "rq_method r = ''GET''"
    and "run_cli readFile c = Inr (Lines ls)" and "Option.bind (get_path (last ls)) url_path = Some (rq_path r)"
    and "plain_name (query_name c)"
  shows "clean_path (rq_path r) \<and> (case c of QueryTx h True \<Rightarrow> reaches M r TransactionByHash (Some ''pending'')
    | _ \<Rightarrow> (\<exists>ep. asks_for c = Some ep \<and> reaches M r ep None))"
proof -
  from assms(4) obtain u where u: "get_path (last ls) = Some u" "url_path u = Some (rq_path r)"
    by (cases "get_path (last ls)") auto
  have plain: "plain_url u" by (rule printed_plain [OF assms(3) u(1) assms(5)])
  then have path: "rq_path r = u" using url_path_plain [of u] u(2) by (simp add: plain_url_def)
  with plain have clean: "clean_path (rq_path r)" by (simp add: plain_url_def)
  from printed_reaches [OF documented assms(2,3) u(1) [folded path]] plain_nameD(1,2) [OF assms(5)]
  show ?thesis using clean unfolding reaches_documented [OF assms(1) clean] by blast
qed

theorem printed_queries_routed_witness:
  "reaches documented_mux (demo_request\<lparr>rq_method := ''GET'', rq_path := ''/api/v1/platoons/p1/members''\<rparr>) PlatoonMembers None"
proof -
  let ?r = "demo_request\<lparr>rq_method := ''GET'', rq_path := ''/api/v1/platoons/p1/members''\<rparr>" and ?c = "QueryPlatoon ''p1'' False True False"
  obtain ls where ls: "run_cli (\<lambda>_. None) ?c = Inr (Lines ls)" "Option.bind (get_path (last ls)) url_path = Some (rq_path ?r)"
    by (simp add: run_cli_def runQueryPlatoon_def get_path_def url_path_def)
  have m: "mux_spec documented_mux" by (simp add: mux_spec_def documented_mux_def)
  have p: "plain_name (query_name ?c)" by (simp add: plain_name_def unreserved_def)
  show ?thesis using printed_queries_routed [OF m _ ls p] by simp
qed

text \<open>A name with a question mark loses what follows it, and the name .. is redirected to another path.\<close>

lemma names_not_plain:
  "url_path ''/api/v1/platoons/a?b/members'' = Some ''/api/v1/platoons/a''"
  "\<not> clean_path ''/api/v1/platoons/../members''"
  by (simp_all add: url_path_def clean_path_def)

text \<open>The query for the pending transactions is answered like one for a hash that is no hash.\<close>

lemma pending_query_answer:
  "handleGetTransaction B ''pending'' r sv = reply sv (errorResponse 400 (Msg ''invalid hash''))"
proof -
  have "hex_decode ''pending'' = None" by code_simp
  then have "HexToHash ''pending'' = Inl HexError" by (simp add: HexToHash_def)
  then show ?thesis by (simp add: handleGetTransaction_def)
qed

text \<open>The default of --min-gap is below the distance that the platoon service asks for.\<close>

lemma default_gap_refused:
  "map_option flag_default (find (\<lambda>f. flag_name f = ''min-gap'') (cmd_flags newPlatoonCreateCmd)) = Some (FFloat (Fin 2))
   \<and> PlatoonParams_Validate (DefaultPlatoonParams\<lparr>SafeDistance := Fin 2\<rparr>) = Some DistanceTooSmall"
  by (simp add: newPlatoonCreateCmd_def required_def optional_def PlatoonParams_Validate_def DefaultPlatoonParams_def)

text \<open>A text of the wrong length is the zero address.\<close>

lemma parseAddress_silent: "length s < 40 \<Longrightarrow> parseAddress s = 0"
  by (auto simp: parseAddress_def Let_def)

end
