(* ===== verification/Web_Socket.thy ===== *)
theory Web_Socket
  imports Rate_Limit "HOL-Library.Sublist"
begin

text \<open>
  The web socket of the API and the life of its server (app/api/server.go). A connection is known by a name; gorilla's
  upgrade and whether a write succeeds are arguments. Every Start adds a goroutine of the broadcaster; while there is
  one, as in the program, which starts its server once, it is one step for each message it takes from the channel.
\<close>

datatype ws_message = NewBlockMsg block | NewTransactionMsg tx | PlatoonEventMsg string json

datatype ws_reply = Connected | Subscribed string

record 'c hub =
  hb_clients :: "'c list"
  hb_broadcast :: "ws_message list"
  hb_broadcasters :: nat
  hb_stopClosed :: bool
  hb_sent :: "('c \<times> ws_message) list"

definition new_hub :: "'c hub" where
  "new_hub = \<lparr>hb_clients = [], hb_broadcast = [], hb_broadcasters = 0, hb_stopClosed = False, hb_sent = []\<rparr>"

section \<open>Connections\<close>

text \<open>An upgraded connection joins the map and is greeted; it leaves when reading from it fails.\<close>

definition ws_open :: "bool \<Rightarrow> 'c \<Rightarrow> 'c hub \<Rightarrow> 'c hub \<times> ws_reply option" where
  "ws_open upgraded c h =
     (if \<not> upgraded then (h, None)
      else (h\<lparr>hb_clients := (if c \<in> set (hb_clients h) then hb_clients h else hb_clients h @ [c])\<rparr>, Some Connected))"

definition ws_read :: "string option \<Rightarrow> ws_reply option" where
  "ws_read msgType =
     (if msgType = Some ''subscribe_blocks'' then Some (Subscribed ''blocks'')
      else if msgType = Some ''subscribe_transactions'' then Some (Subscribed ''transactions'')
      else if msgType = Some ''subscribe_platoons'' then Some (Subscribed ''platoons'')
      else None)"

definition ws_close :: "'c \<Rightarrow> 'c hub \<Rightarrow> 'c hub" where
  "ws_close c h = h\<lparr>hb_clients := removeAll c (hb_clients h)\<rparr>"

section \<open>Broadcasts\<close>

text \<open>The channel holds 100 messages; a message that finds it full is dropped.\<close>

definition offer :: "ws_message \<Rightarrow> 'c hub \<Rightarrow> 'c hub" where
  "offer m h = (if length (hb_broadcast h) < 100 then h\<lparr>hb_broadcast := hb_broadcast h @ [m]\<rparr> else h)"

definition BroadcastBlock :: "block \<Rightarrow> 'c hub \<Rightarrow> 'c hub" where
  "BroadcastBlock b = offer (NewBlockMsg b)"

definition BroadcastTransaction :: "tx \<Rightarrow> 'c hub \<Rightarrow> 'c hub" where
  "BroadcastTransaction tx = offer (NewTransactionMsg tx)"

definition BroadcastPlatoonEvent :: "string \<Rightarrow> json \<Rightarrow> 'c hub \<Rightarrow> 'c hub" where
  "BroadcastPlatoonEvent eventType data = offer (PlatoonEventMsg eventType data)"

text \<open>
  The clients are copied under the lock and written to one after the other, in the order in which Go visits the
  map; one whose write fails is removed.
\<close>

definition deliver :: "('c \<Rightarrow> bool) \<Rightarrow> ws_message \<Rightarrow> 'c list \<Rightarrow> 'c hub \<Rightarrow> 'c hub" where
  "deliver writes m clients h =
     fold (\<lambda>c h. if writes c then h\<lparr>hb_sent := hb_sent h @ [(c, m)]\<rparr> else ws_close c h) clients h"

definition broadcaster_step :: "('c \<Rightarrow> bool) \<Rightarrow> ('c list \<Rightarrow> 'c list) \<Rightarrow> 'c hub \<Rightarrow> 'c hub" where
  "broadcaster_step writes visit h =
     (case hb_broadcast h of
        m # ms \<Rightarrow> if 0 < hb_broadcasters h then deliver writes m (visit (hb_clients h)) (h\<lparr>hb_broadcast := ms\<rparr>) else h
      | [] \<Rightarrow> h)"

text \<open>With the stop channel closed a goroutine may take that case and return.\<close>

definition broadcaster_stops :: "'c hub \<Rightarrow> 'c hub" where
  "broadcaster_stops h = (if hb_stopClosed h then h\<lparr>hb_broadcasters := hb_broadcasters h - 1\<rparr> else h)"

section \<open>The server\<close>

text \<open>Start sets another broadcaster and the HTTP server going, whose errors are only logged.\<close>

definition Server_Start :: "'c hub \<Rightarrow> 'c hub" where
  "Server_Start h = h\<lparr>hb_broadcasters := Suc (hb_broadcasters h)\<rparr>"

text \<open>Stop closes the stop channel, stops the limiter and shuts the HTTP server down, which may fail.\<close>

definition Server_Stop :: "string option \<Rightarrow> 'c hub \<times> rate_limiter option \<Rightarrow> (('c hub \<times> rate_limiter option) \<times> string option) outcome" where
  "Server_Stop shutdown s =
     (case s of (h, limiter) \<Rightarrow>
        if hb_stopClosed h then Panic
        else let h = h\<lparr>hb_stopClosed := True\<rparr> in
          (case limiter of
             None \<Rightarrow> Done ((h, None), shutdown)
           | Some rl \<Rightarrow> obind (RateLimiter_Stop rl) (\<lambda>rl. Done ((h, Some rl), shutdown))))"

section \<open>Runs\<close>

text \<open>
  A run of the hub and the messages that were offered in it. The server is started when no broadcaster runs: two of
  them would take turns at the channel and write to the connections concurrently.
\<close>

inductive hub_run :: "'c hub \<Rightarrow> ws_message list \<Rightarrow> bool" where
  start: "hub_run new_hub []"
| starts: "hub_run h ms \<Longrightarrow> hb_broadcasters h = 0 \<Longrightarrow> hub_run (Server_Start h) ms"
| opens: "hub_run h ms \<Longrightarrow> hub_run (fst (ws_open upgraded c h)) ms"
| closes: "hub_run h ms \<Longrightarrow> hub_run (ws_close c h) ms"
| block: "hub_run h ms \<Longrightarrow> hub_run (BroadcastBlock b h) (ms @ [NewBlockMsg b])"
| transaction: "hub_run h ms \<Longrightarrow> hub_run (BroadcastTransaction t h) (ms @ [NewTransactionMsg t])"
| event: "hub_run h ms \<Longrightarrow> hub_run (BroadcastPlatoonEvent ty d h) (ms @ [PlatoonEventMsg ty d])"
| delivery: "hub_run h ms \<Longrightarrow> (\<And>cs. mset (visit cs) = mset cs) \<Longrightarrow> hub_run (broadcaster_step writes visit h) ms"
| stopping: "hub_run h ms \<Longrightarrow> hub_run (broadcaster_stops h) ms"
| stop: "hub_run h ms \<Longrightarrow> Server_Stop e (h, rl) = Done ((h', rl'), r) \<Longrightarrow> hub_run h' ms"

definition received :: "'c \<Rightarrow> 'c hub \<Rightarrow> ws_message list" where
  "received c h = map snd (filter (\<lambda>(c', m). c' = c) (hb_sent h))"

definition hub_ok :: "ws_message list \<Rightarrow> 'c hub \<Rightarrow> bool" where
  "hub_ok ms h \<longleftrightarrow> distinct (hb_clients h) \<and> length (hb_broadcast h) \<le> 100
     \<and> (\<forall>c. subseq (received c h @ hb_broadcast h) ms)"

lemma hub_ok_offer:
  assumes "hub_ok ms h"
  shows "hub_ok (ms @ [m]) (offer m h)"
proof -
  have old: "subseq (received c h @ hb_broadcast h) ms" for c using assms by (simp add: hub_ok_def)
  have "subseq ((received c h @ hb_broadcast h) @ [m]) (ms @ [m])" for c
    by (rule list_emb_append_mono [OF old]) simp
  moreover have "subseq (received c h @ hb_broadcast h) (ms @ [m])" for c by (rule list_emb_prefix [OF old])
  moreover have "received c (h\<lparr>hb_broadcast := q\<rparr>) = received c h" for c q by (simp add: received_def)
  ultimately show ?thesis using assms by (simp add: hub_ok_def offer_def)
qed

lemma deliver_sent:
  "distinct clients \<Longrightarrow> received c (deliver writes m clients h)
     = received c h @ (if c \<in> set clients \<and> writes c then [m] else [])"
  unfolding deliver_def
  by (induction clients arbitrary: h) (auto simp: received_def ws_close_def)

lemma deliver_other:
  "distinct (hb_clients h) \<Longrightarrow> distinct (hb_clients (deliver writes m clients h))"
  "hb_broadcast (deliver writes m clients h) = hb_broadcast h"
  unfolding deliver_def
  by (induction clients arbitrary: h) (auto simp: ws_close_def distinct_removeAll)

lemma hub_ok_delivery:
  assumes "hub_ok ms h" and "\<And>cs. mset (visit cs) = mset cs"
  shows "hub_ok ms (broadcaster_step writes visit h)"
proof (cases "hb_broadcast h = [] \<or> hb_broadcasters h = 0")
  case True
  with assms(1) show ?thesis by (auto simp: broadcaster_step_def split: list.split)
next
  case False
  then obtain m rest where b: "hb_broadcast h = m # rest" and r: "0 < hb_broadcasters h" by (meson neq_Nil_conv neq0_conv)
  let ?h = "h\<lparr>hb_broadcast := rest\<rparr>"
  have e: "broadcaster_step writes visit h = deliver writes m (visit (hb_clients h)) ?h"
    by (simp add: broadcaster_step_def b r)
  have d: "distinct (visit (hb_clients h))"
    using assms mset_eq_imp_distinct_iff unfolding hub_ok_def by blast
  have rec: "received c ?h = received c h" for c by (simp add: received_def)
  have one: "subseq (received c h @ m # rest) ms" for c using assms(1) b by (simp add: hub_ok_def)
  have "subseq (received c h @ rest) (received c h @ m # rest)" for c
    by (rule list_emb_append_mono) (simp_all add: list_emb_Cons)
  then have none: "subseq (received c h @ rest) ms" for c using one by (rule subseq_order.trans)
  have "subseq (received c (deliver writes m (visit (hb_clients h)) ?h) @ rest) ms" for c
    using one none unfolding deliver_sent [OF d] rec by simp
  then show ?thesis
    unfolding e using assms(1) by (simp add: hub_ok_def deliver_other b)
qed

text \<open>
  C40. Every connection gets a part of the broadcast messages, each at most once and in the order in which they
  were broadcast, whatever connections come and go and whichever writes fail; never more than 100
  messages wait, and those that find the channel full reach no one.
\<close>

theorem clients_see_broadcasts_in_order:
  assumes "hub_run h ms"
  shows "subseq (received c h) ms \<and> length (hb_broadcast h) \<le> 100"
proof -
  have "hub_ok ms h"
    using assms
  proof induction
    case start
    then show ?case by (simp add: hub_ok_def new_hub_def received_def)
  next
    case (delivery h ms visit writes)
    then show ?case by (simp add: hub_ok_delivery)
  next
    case (stop h ms e rl h' rl' r)
    then have "h' = h\<lparr>hb_stopClosed := True\<rparr>"
      by (auto simp: Server_Stop_def Let_def obind_eq_Done split: if_splits option.splits)
    with stop.IH show ?case by (simp add: hub_ok_def received_def)
  qed (auto simp: BroadcastBlock_def BroadcastTransaction_def BroadcastPlatoonEvent_def hub_ok_offer,
      auto simp: hub_ok_def Server_Start_def ws_open_def ws_close_def broadcaster_stops_def received_def distinct_removeAll)
  then have "subseq (received c h @ hb_broadcast h) ms" "length (hb_broadcast h) \<le> 100" by (simp_all add: hub_ok_def)
  moreover have "subseq (received c h) (received c h @ hb_broadcast h)" by (rule list_emb_prefix) simp
  ultimately show ?thesis using subseq_order.trans by blast
qed

theorem clients_see_broadcasts_in_order_witness:
  "subseq (received (1 :: nat) (broadcaster_step (\<lambda>c. True) id (BroadcastPlatoonEvent ''joined'' JNull
     (fst (ws_open True 1 (Server_Start new_hub)))))) [PlatoonEventMsg ''joined'' JNull]"
proof -
  have "hub_run (broadcaster_step (\<lambda>c. True) id (BroadcastPlatoonEvent ''joined'' JNull
     (fst (ws_open True (1 :: nat) (Server_Start new_hub))))) ([] @ [PlatoonEventMsg ''joined'' JNull])"
    by (intro hub_run.delivery hub_run.event hub_run.opens hub_run.starts hub_run.start) (simp_all add: new_hub_def)
  from clients_see_broadcasts_in_order [OF this] show ?thesis by simp
qed

text \<open>A second Stop closes a closed channel.\<close>

lemma server_stops_once:
  "Server_Stop e (h, rl) = Done ((h', rl'), r) \<Longrightarrow> Server_Stop e' (h', rl') = Panic"
  by (auto simp: Server_Stop_def Let_def obind_eq_Done split: if_splits option.splits)

end
