(* ===== verification/Host_Life.thy ===== *)
theory Host_Life
  imports Network Gossip Configuration
begin

text \<open>
  Creating, starting and stopping the peer-to-peer host (service/network/host.go, discovery.go). The calls of libp2p
  and whether they succeed are a parameter. What a process holds while it runs, its loops and its open handles,
  is counted in \<open>held\<close>; the topics, subscriptions and goroutines of pubsub are fields of the gossip service. A loop
  whose context is cancelled leaves in a step of its own, \<open>loop_leaves\<close>, at any time after the cancellation.
\<close>

section \<open>The libraries\<close>

datatype dht_mode = ModeServer | ModeClient

datatype libp2p_option =
    OptIdentity
  | OptListenAddrs "multiaddr list"
  | OptDefaultTransports
  | OptDefaultMuxers
  | OptDefaultSecurity
  | OptNATPortMap
  | OptPing
  | OptProtocolVersion string
  | OptConnectionGater

record ('n, 'g) p2p_lib =
  pl_net :: "'n net_lib"
  pl_pubsub :: "'g pubsub_lib"
  pl_GenerateKey :: bool
  pl_New :: "libp2p_option list \<Rightarrow> ('n \<times> peer_id) option"
  pl_newDHT :: "'n \<Rightarrow> dht_mode \<Rightarrow> bool"
  pl_Bootstrap :: "'n \<Rightarrow> bool"
  pl_startMDNS :: "'n \<Rightarrow> bool"
  pl_newGossipSub :: "'n \<Rightarrow> 'g option"
  pl_closeHost :: "'n \<Rightarrow> bool"

section \<open>The host and its parts\<close>

record discovery_service =
  ds_DHT :: "dht_mode option"
  ds_mdns :: bool
  ds_isRunning :: bool

record held =
  hd_host :: bool
  hd_discoveryLoops :: nat
  hd_detectionLoops :: nat
  hd_managers :: nat
  hd_dhts :: nat
  hd_mdns :: nat

definition nothing_held :: held where
  "nothing_held = \<lparr>hd_host = False, hd_discoveryLoops = 0, hd_detectionLoops = 0, hd_managers = 0, hd_dhts = 0, hd_mdns = 0\<rparr>"

record ('n, 'g) network_host =
  nh_p2p :: "'n p2p_host"
  nh_config :: NetworkConfig
  nh_discovery :: "discovery_service option"
  nh_gossip :: "'g gossip_service option"
  nh_detector :: "partition_detector option"
  nh_cancelled :: bool
  nh_held :: held

text \<open>The host as the functions of Network see it: with its discovery service, as far as they look at it.\<close>

definition the_host :: "('n, 'g) network_host \<Rightarrow> 'n p2p_host" where
  "the_host h = (nh_p2p h)\<lparr>h_discovery := map_option (\<lambda>d. ds_DHT d \<noteq> None) (nh_discovery h)\<rparr>"

section \<open>Creating\<close>

datatype new_host_error = HostKeyFailed | BadListenAddr string | Libp2pFailed

definition generateOrLoadKey :: "('n, 'g) p2p_lib \<Rightarrow> bool" where
  "generateOrLoadKey L = pl_GenerateKey L"

definition NewHost :: "('n, 'g) p2p_lib \<Rightarrow> Config \<Rightarrow> new_host_error + ('n, 'g) network_host" where
  "NewHost L cfg =
     (if \<not> generateOrLoadKey L then Inl HostKeyFailed
      else case parseListenAddrs (pl_net L) [node_ListenAddr (cfg_Node cfg)] of
        Inl addr \<Rightarrow> Inl (BadListenAddr addr)
      | Inr listenAddrs \<Rightarrow>
          let opts = [OptIdentity, OptListenAddrs listenAddrs, OptDefaultTransports, OptDefaultMuxers, OptDefaultSecurity,
                      OptNATPortMap, OptPing, OptProtocolVersion ''1.0.0'']
          in (case pl_New L opts of
                None \<Rightarrow> Inl Libp2pFailed
              | Some (net, self) \<Rightarrow> Inr \<lparr>
                  nh_p2p = \<lparr>h_net = net, h_self = self, h_peers = fmempty,
                    h_minConn = net_MinConnections (cfg_Network cfg), h_maxConn = net_MaxConnections (cfg_Network cfg),
                    h_bootstrap = net_BootstrapPeers (cfg_Network cfg), h_discovery = None\<rparr>,
                  nh_config = cfg_Network cfg, nh_discovery = None, nh_gossip = None, nh_detector = None,
                  nh_cancelled = False, nh_held = nothing_held\<lparr>hd_host := True\<rparr>\<rparr>))"

section \<open>The discovery service\<close>

datatype discovery_error = DHTCreateFailed | DHTBootstrapFailed | MDNSFailed

definition NewDiscoveryService :: discovery_service where
  "NewDiscoveryService = \<lparr>ds_DHT = None, ds_mdns = False, ds_isRunning = False\<rparr>"

text \<open>A node without bootstrap peers serves the DHT, the others are clients.\<close>

definition setupDHT ::
  "('n, 'g) p2p_lib \<Rightarrow> ('n, 'g) network_host \<Rightarrow> discovery_service
     \<Rightarrow> ('n, 'g) network_host \<times> discovery_service \<times> discovery_error option" where
  "setupDHT L h d =
     (let mode = (if net_BootstrapPeers (nh_config h) = [] then ModeServer else ModeClient); net = h_net (nh_p2p h)
      in if \<not> pl_newDHT L net mode then (h, d, Some DHTCreateFailed)
         else let d = d\<lparr>ds_DHT := Some mode\<rparr>; h = h\<lparr>nh_held := (nh_held h)\<lparr>hd_dhts := Suc (hd_dhts (nh_held h))\<rparr>\<rparr>
           in if \<not> pl_Bootstrap L net then (h, d, Some DHTBootstrapFailed) else (h, d, None))"

definition setupMDNS ::
  "('n, 'g) p2p_lib \<Rightarrow> ('n, 'g) network_host \<Rightarrow> discovery_service
     \<Rightarrow> ('n, 'g) network_host \<times> discovery_service \<times> discovery_error option" where
  "setupMDNS L h d =
     (if \<not> pl_startMDNS L (h_net (nh_p2p h)) then (h, d, Some MDNSFailed)
      else (h\<lparr>nh_held := (nh_held h)\<lparr>hd_mdns := Suc (hd_mdns (nh_held h))\<rparr>\<rparr>, d\<lparr>ds_mdns := True\<rparr>, None))"

definition start_discoveryLoop :: "('n, 'g) network_host \<Rightarrow> ('n, 'g) network_host" where
  "start_discoveryLoop h = h\<lparr>nh_held := (nh_held h)\<lparr>hd_discoveryLoops := Suc (hd_discoveryLoops (nh_held h))\<rparr>\<rparr>"

definition discovery_Start ::
  "('n, 'g) p2p_lib \<Rightarrow> ('n, 'g) network_host \<Rightarrow> discovery_service
     \<Rightarrow> ('n, 'g) network_host \<times> discovery_service \<times> discovery_error option" where
  "discovery_Start L h d =
     (if ds_isRunning d then (h, d, None)
      else case (if net_DHTEnabled (nh_config h) then setupDHT L h d else (h, d, None)) of
        (h, d, Some e) \<Rightarrow> (h, d, Some e)
      | (h, d, None) \<Rightarrow>
          (case (if net_MDNSEnabled (nh_config h) then setupMDNS L h d else (h, d, None)) of
             (h, d, Some e) \<Rightarrow> (h, d, Some e)
           | (h, d, None) \<Rightarrow> (start_discoveryLoop h, d\<lparr>ds_isRunning := True\<rparr>, None)))"

text \<open>Stop waits until the loop of the service has left; errors of closing are only logged.\<close>

definition discovery_Stop ::
  "('n, 'g) network_host \<Rightarrow> discovery_service \<Rightarrow> ('n, 'g) network_host \<times> discovery_service" where
  "discovery_Stop h d =
     (if \<not> ds_isRunning d then (h, d)
      else let k = nh_held h in
        (h\<lparr>nh_held := k\<lparr>hd_discoveryLoops := hd_discoveryLoops k - 1,
           hd_dhts := hd_dhts k - (if ds_DHT d \<noteq> None then 1 else 0),
           hd_mdns := hd_mdns k - (if ds_mdns d then 1 else 0)\<rparr>\<rparr>,
         d\<lparr>ds_isRunning := False\<rparr>))"

text \<open>Advertise changes nothing; the error it gives without a DHT is only logged by the host.\<close>

definition Advertise :: "discovery_service \<Rightarrow> bool" where
  "Advertise d = (ds_DHT d \<noteq> None)"

section \<open>Starting and stopping the host\<close>

datatype host_start_error =
    DiscoveryStartFailed discovery_error
  | GossipCreateFailed
  | GossipStartFailed gossip_error

definition start_gossip ::
  "('n, 'g) p2p_lib \<Rightarrow> ('n, 'g) network_host \<Rightarrow> ('n, 'g) network_host \<times> host_start_error option" where
  "start_gossip L h =
     (case pl_newGossipSub L (h_net (nh_p2p h)) of
        None \<Rightarrow> (h, Some GossipCreateFailed)
      | Some g \<Rightarrow>
          (case gossip_Start (pl_pubsub L) (NewGossipService g (h_self (nh_p2p h))) of
             (g, e) \<Rightarrow> (h\<lparr>nh_gossip := Some g\<rparr>, map_option GossipStartFailed e)))"

definition start_detector :: "('n, 'g) network_host \<Rightarrow> ('n, 'g) network_host" where
  "start_detector h = h\<lparr>nh_detector := Some NewPartitionDetector,
     nh_held := (nh_held h)\<lparr>hd_detectionLoops := Suc (hd_detectionLoops (nh_held h))\<rparr>\<rparr>"

definition start_manager :: "('n, 'g) network_host \<Rightarrow> ('n, 'g) network_host" where
  "start_manager h = h\<lparr>nh_held := (nh_held h)\<lparr>hd_managers := Suc (hd_managers (nh_held h))\<rparr>\<rparr>"

definition host_Start ::
  "('n, 'g) p2p_lib \<Rightarrow> ('n, 'g) network_host \<Rightarrow> ('n, 'g) network_host \<times> host_start_error option" where
  "host_Start L h =
     (case discovery_Start L h NewDiscoveryService of
        (h, d, Some e) \<Rightarrow> (h\<lparr>nh_discovery := Some d\<rparr>, Some (DiscoveryStartFailed e))
      | (h, d, None) \<Rightarrow>
          (case start_gossip L (h\<lparr>nh_discovery := Some d\<rparr>) of
             (h, Some e) \<Rightarrow> (h, Some e)
           | (h, None) \<Rightarrow>
               let h = start_manager (start_detector h)
               in (if net_BootstrapPeers (nh_config h) \<noteq> []
                   then h\<lparr>nh_p2p := fst (connectToBootstrapPeers (pl_net L) (the_host h))\<rparr> else h, None)))"

text \<open>
  Stop cancels the context of the host, stops the parts, and waits for the connection manager until it has left or
  ten seconds have passed: \<open>inTime\<close> tells which. The orders are the ones in which Go visits the subscriptions and topics.
\<close>

definition cancel_host :: "('n, 'g) network_host \<Rightarrow> ('n, 'g) network_host" where
  "cancel_host h = h\<lparr>nh_cancelled := True\<rparr>"

definition stop_detector :: "('n, 'g) network_host \<Rightarrow> ('n, 'g) network_host outcome" where
  "stop_detector h =
     (case nh_detector h of
        None \<Rightarrow> Done h
      | Some pd \<Rightarrow> obind (pd_Stop pd) (\<lambda>pd. Done (h\<lparr>nh_detector := Some pd,
          nh_held := (nh_held h)\<lparr>hd_detectionLoops := hd_detectionLoops (nh_held h) - 1\<rparr>\<rparr>)))"

definition host_Stop ::
  "('n, 'g) p2p_lib \<Rightarrow> bool \<Rightarrow> string list \<Rightarrow> string list \<Rightarrow> ('n, 'g) network_host
     \<Rightarrow> (('n, 'g) network_host \<times> bool) outcome" where
  "host_Stop L inTime subs topics h =
     (let h = cancel_host h;
          h = h\<lparr>nh_gossip := map_option (gossip_Stop (pl_pubsub L) subs topics) (nh_gossip h)\<rparr>
      in obind (stop_detector h) (\<lambda>h.
         let h = (case nh_discovery h of
                    None \<Rightarrow> h
                  | Some d \<Rightarrow> (case discovery_Stop h d of (h, d) \<Rightarrow> h\<lparr>nh_discovery := Some d\<rparr>));
             h = (if inTime then h\<lparr>nh_held := (nh_held h)\<lparr>hd_managers := 0\<rparr>\<rparr> else h);
             closed = pl_closeHost L (h_net (nh_p2p h))
         in Done (if closed then h\<lparr>nh_held := (nh_held h)\<lparr>hd_host := False\<rparr>\<rparr> else h, closed)))"

section \<open>What goes on between the start and the stop\<close>

text \<open>
  The ticks of connectionManager, detectionLoop and discoveryLoop, the notifications of libp2p, and what the network
  and pubsub do by themselves. A loop ticks while it runs.
\<close>

inductive host_step :: "('n, 'g) p2p_lib \<Rightarrow> ('n, 'g) network_host \<Rightarrow> ('n, 'g) network_host \<Rightarrow> bool" for L where
  manager: "0 < hd_managers (nh_held h) \<Longrightarrow>
    host_step L h (h\<lparr>nh_p2p := maintainConnections (pl_net L) (the_host h)\<rparr>)"
| detection: "0 < hd_detectionLoops (nh_held h) \<Longrightarrow> nh_detector h = Some pd \<Longrightarrow>
    checkPartition (pl_net L) order now (the_host h) pd = (p, pd', evs) \<Longrightarrow>
    host_step L h (h\<lparr>nh_p2p := p, nh_detector := Some pd'\<rparr>)"
| discovery: "0 < hd_discoveryLoops (nh_held h) \<Longrightarrow>
    host_step L h (h\<lparr>nh_p2p := findPeers (pl_net L) (the_host h)\<rparr>)"
| connected: "host_step L h (h\<lparr>nh_p2p := ConnectedF (pl_net L) now dir p (nh_p2p h)\<rparr>)"
| disconnected: "host_step L h (h\<lparr>nh_p2p := DisconnectedF p (nh_p2p h)\<rparr>)"
| network: "host_step L h (h\<lparr>nh_p2p := (nh_p2p h)\<lparr>h_net := n\<rparr>\<rparr>)"
| pubsub: "nh_gossip h = Some g \<Longrightarrow> host_step L h (h\<lparr>nh_gossip := Some (g\<lparr>gs_net := n\<rparr>)\<rparr>)"

text \<open>A loop leaves once its context is cancelled; the context of the gossip service is derived from the host's.\<close>

inductive loop_leaves :: "('n, 'g) network_host \<Rightarrow> ('n, 'g) network_host \<Rightarrow> bool" where
  manager: "nh_cancelled h \<Longrightarrow> 0 < hd_managers (nh_held h) \<Longrightarrow>
    loop_leaves h (h\<lparr>nh_held := (nh_held h)\<lparr>hd_managers := hd_managers (nh_held h) - 1\<rparr>\<rparr>)"
| discovery: "nh_cancelled h \<Longrightarrow> 0 < hd_discoveryLoops (nh_held h) \<Longrightarrow>
    loop_leaves h (h\<lparr>nh_held := (nh_held h)\<lparr>hd_discoveryLoops := hd_discoveryLoops (nh_held h) - 1\<rparr>\<rparr>)"
| handler: "nh_gossip h = Some g \<Longrightarrow> handler_leaves g g' \<Longrightarrow> loop_leaves h (h\<lparr>nh_gossip := Some g'\<rparr>)"

text \<open>What no step of a running host touches.\<close>

definition same_gossip :: "'g gossip_service \<Rightarrow> 'g gossip_service \<Rightarrow> bool" where
  "same_gossip g g' \<longleftrightarrow> gs_topics g' = gs_topics g \<and> gs_cancelled g' = gs_cancelled g \<and> gs_joined g' = gs_joined g
     \<and> gs_subscribed g' = gs_subscribed g \<and> gs_running g' = gs_running g"

definition same_parts :: "('n, 'g) network_host \<Rightarrow> ('n, 'g) network_host \<Rightarrow> bool" where
  "same_parts h h' \<longleftrightarrow> nh_held h' = nh_held h \<and> nh_discovery h' = nh_discovery h \<and> nh_cancelled h' = nh_cancelled h
     \<and> map_option pd_stopClosed (nh_detector h') = map_option pd_stopClosed (nh_detector h)
     \<and> rel_option same_gossip (nh_gossip h) (nh_gossip h')"

lemma checkPartition_channel:
  "checkPartition L order now h pd = (h', pd', evs) \<Longrightarrow> pd_stopClosed pd' = pd_stopClosed pd"
  by (auto simp: checkPartition_def setPartitioned_def attemptRecovery_def setRecovered_def Let_def
      split: PartitionState.splits if_splits prod.splits)

lemma host_step_parts: "host_step L h h' \<Longrightarrow> same_parts h h'"
  by (induction rule: host_step.induct)
    (auto simp: same_parts_def same_gossip_def rel_option_reflI dest: checkPartition_channel)

lemma same_parts_trans: "same_parts a b \<Longrightarrow> same_parts b c \<Longrightarrow> same_parts a c"
  by (cases "nh_gossip a"; cases "nh_gossip b"; cases "nh_gossip c") (simp_all add: same_parts_def same_gossip_def)

lemma host_run_parts: "(host_step L)\<^sup>*\<^sup>* h h' \<Longrightarrow> same_parts h h'"
proof (induction rule: rtranclp_induct)
  case base
  show ?case by (simp add: same_parts_def same_gossip_def rel_option_reflI)
next
  case (step y z)
  then show ?case by (blast intro: same_parts_trans host_step_parts)
qed

section \<open>What a start holds\<close>

lemma discovery_Start_result:
  assumes "discovery_Start L h NewDiscoveryService = (h', d, e)"
  shows "nh_config h' = nh_config h \<and> nh_cancelled h' = nh_cancelled h \<and> nh_p2p h' = nh_p2p h
    \<and> hd_host (nh_held h') = hd_host (nh_held h) \<and> hd_detectionLoops (nh_held h') = hd_detectionLoops (nh_held h)
    \<and> hd_managers (nh_held h') = hd_managers (nh_held h)"
    and "e = None \<Longrightarrow> ds_isRunning d \<and> (ds_DHT d \<noteq> None \<longleftrightarrow> net_DHTEnabled (nh_config h))
      \<and> (ds_mdns d \<longleftrightarrow> net_MDNSEnabled (nh_config h))
      \<and> hd_discoveryLoops (nh_held h') = Suc (hd_discoveryLoops (nh_held h))
      \<and> hd_dhts (nh_held h') = hd_dhts (nh_held h) + of_bool (ds_DHT d \<noteq> None)
      \<and> hd_mdns (nh_held h') = hd_mdns (nh_held h) + of_bool (ds_mdns d)"
  using assms
  by (auto simp: discovery_Start_def NewDiscoveryService_def setupDHT_def setupMDNS_def start_discoveryLoop_def Let_def
      split: if_splits option.splits prod.splits)

lemma start_gossip_started:
  assumes "start_gossip L h = (h', None)"
  shows "\<exists>g. nh_gossip h' = Some g \<and> holds_topics g \<and> \<not> gs_cancelled g
    \<and> gs_topics g = {|TopicBlocks, TopicTransactions, TopicConsensus|}"
proof -
  obtain n where n: "pl_newGossipSub L (h_net (nh_p2p h)) = Some n"
    using assms by (auto simp: start_gossip_def split: option.splits)
  obtain g e where g: "gossip_Start (pl_pubsub L) (NewGossipService n (h_self (nh_p2p h))) = (g, e)" by (meson surj_pair)
  with assms n have "e = None" "h' = h\<lparr>nh_gossip := Some g\<rparr>" by (auto simp: start_gossip_def)
  with gossip_Start_holds [OF g] gossip_Start_topics [OF g [unfolded \<open>e = None\<close>]] show ?thesis by simp
qed

lemma start_gossip_result:
  assumes "start_gossip L h = (h', e)"
  shows "nh_held h' = nh_held h \<and> nh_discovery h' = nh_discovery h \<and> nh_cancelled h' = nh_cancelled h
    \<and> nh_config h' = nh_config h \<and> nh_detector h' = nh_detector h"
  using assms by (auto simp: start_gossip_def split: option.splits prod.splits)

lemma NewHost_result:
  assumes "NewHost L cfg = Inr h"
  shows "nh_held h = nothing_held\<lparr>hd_host := True\<rparr> \<and> \<not> nh_cancelled h \<and> nh_config h = cfg_Network cfg"
  using assms by (auto simp: NewHost_def split: if_splits sum.splits option.splits)

text \<open>A start without an error: its service, its detector, its topics, and one more of each loop.\<close>

lemma host_Start_parts:
  assumes "host_Start L h = (h', None)"
  obtains d g where "nh_discovery h' = Some d" and "ds_isRunning d" and "nh_cancelled h' = nh_cancelled h"
    and "map_option pd_stopClosed (nh_detector h') = Some False"
    and "nh_gossip h' = Some g" and "holds_topics g" and "\<not> gs_cancelled g"
    and "gs_topics g = {|TopicBlocks, TopicTransactions, TopicConsensus|}"
    and "nh_held h' = (nh_held h)\<lparr>hd_discoveryLoops := Suc (hd_discoveryLoops (nh_held h)),
           hd_detectionLoops := Suc (hd_detectionLoops (nh_held h)), hd_managers := Suc (hd_managers (nh_held h)),
           hd_dhts := hd_dhts (nh_held h) + of_bool (ds_DHT d \<noteq> None),
           hd_mdns := hd_mdns (nh_held h) + of_bool (ds_mdns d)\<rparr>"
proof -
  obtain h1 d e where 1: "discovery_Start L h NewDiscoveryService = (h1, d, e)" by (metis prod_cases3)
  with assms have e: "e = None" by (cases e) (simp_all add: host_Start_def)
  obtain h2 e2 where 2: "start_gossip L (h1\<lparr>nh_discovery := Some d\<rparr>) = (h2, e2)" by force
  from assms 1 2 have e2: "e2 = None" unfolding e by (cases e2) (simp_all add: host_Start_def)
  define h3 where "h3 = start_manager (start_detector h2)"
  have h': "nh_held h' = nh_held h3 \<and> nh_discovery h' = nh_discovery h3 \<and> nh_cancelled h' = nh_cancelled h3
      \<and> nh_detector h' = nh_detector h3 \<and> nh_gossip h' = nh_gossip h3"
    using assms 1 2 unfolding e e2 by (auto simp: host_Start_def h3_def Let_def split: if_splits)
  note r1 = discovery_Start_result(1) [OF 1] and r2 = discovery_Start_result(2) [OF 1 e]
    and r3 = start_gossip_result [OF 2]
  obtain g where g: "nh_gossip h2 = Some g" "holds_topics g" "\<not> gs_cancelled g"
    "gs_topics g = {|TopicBlocks, TopicTransactions, TopicConsensus|}"
    using start_gossip_started [OF 2 [unfolded e2]] by blast
  have h3: "nh_discovery h3 = Some d" "nh_cancelled h3 = nh_cancelled h" "nh_detector h3 = Some NewPartitionDetector"
    "nh_gossip h3 = Some g"
    "nh_held h3 = (nh_held h1)\<lparr>hd_detectionLoops := Suc (hd_detectionLoops (nh_held h1)),
       hd_managers := Suc (hd_managers (nh_held h1))\<rparr>"
    using r1 r3 g by (simp_all add: h3_def start_manager_def start_detector_def)
  show ?thesis
  proof (rule that [of d g])
    show "nh_discovery h' = Some d" "nh_cancelled h' = nh_cancelled h" "nh_gossip h' = Some g" using h' h3 by simp_all
    show "ds_isRunning d" using r2 by simp
    show "map_option pd_stopClosed (nh_detector h') = Some False" using h' h3 by (simp add: NewPartitionDetector_def)
    show "nh_held h' = (nh_held h)\<lparr>hd_discoveryLoops := Suc (hd_discoveryLoops (nh_held h)),
           hd_detectionLoops := Suc (hd_detectionLoops (nh_held h)), hd_managers := Suc (hd_managers (nh_held h)),
           hd_dhts := hd_dhts (nh_held h) + of_bool (ds_DHT d \<noteq> None),
           hd_mdns := hd_mdns (nh_held h) + of_bool (ds_mdns d)\<rparr>"
      using h' h3(5) r1 r2 by (simp add: held.equality)
  qed (rule g)+
qed

text \<open>What stopping gives back.\<close>

lemma host_Stop_held:
  assumes "nh_discovery h = Some d" and "ds_isRunning d" and "map_option pd_stopClosed (nh_detector h) = Some False"
    and "pl_closeHost L (h_net (nh_p2p h))"
  obtains h' where "host_Stop L inTime subs topics h = Done (h', True)" and "nh_cancelled h'"
    and "nh_gossip h' = map_option (gossip_Stop (pl_pubsub L) subs topics) (nh_gossip h)"
    and "nh_held h' = \<lparr>hd_host = False, hd_discoveryLoops = hd_discoveryLoops (nh_held h) - 1,
           hd_detectionLoops = hd_detectionLoops (nh_held h) - 1,
           hd_managers = (if inTime then 0 else hd_managers (nh_held h)),
           hd_dhts = hd_dhts (nh_held h) - of_bool (ds_DHT d \<noteq> None),
           hd_mdns = hd_mdns (nh_held h) - of_bool (ds_mdns d)\<rparr>"
    and "map_option pd_stopClosed (nh_detector h') = Some True"
proof -
  from assms(3) obtain pd where pd: "nh_detector h = Some pd" "\<not> pd_stopClosed pd" by auto
  let ?held = "\<lparr>hd_host = False, hd_discoveryLoops = hd_discoveryLoops (nh_held h) - 1,
           hd_detectionLoops = hd_detectionLoops (nh_held h) - 1,
           hd_managers = (if inTime then 0 else hd_managers (nh_held h)),
           hd_dhts = hd_dhts (nh_held h) - of_bool (ds_DHT d \<noteq> None),
           hd_mdns = hd_mdns (nh_held h) - of_bool (ds_mdns d)\<rparr>"
  let ?h' = "h\<lparr>nh_cancelled := True, nh_gossip := map_option (gossip_Stop (pl_pubsub L) subs topics) (nh_gossip h),
    nh_detector := Some (pd\<lparr>pd_stopClosed := True\<rparr>), nh_discovery := Some (d\<lparr>ds_isRunning := False\<rparr>), nh_held := ?held\<rparr>"
  have "host_Stop L inTime subs topics h = Done (?h', True)"
    using assms pd
    by (cases "nh_held h"; cases inTime; cases "ds_DHT d"; cases "ds_mdns d")
      (simp_all add: host_Stop_def cancel_host_def stop_detector_def pd_Stop_def discovery_Stop_def Let_def)
  then show ?thesis by (rule that) simp_all
qed

lemma host_Stop_twice:
  assumes "map_option pd_stopClosed (nh_detector h) = Some True"
  shows "host_Stop L inTime subs topics h = Panic"
  using assms by (auto simp: host_Stop_def cancel_host_def stop_detector_def pd_Stop_def Let_def)

section \<open>After a stop\<close>

text \<open>A stopped host holds nothing but goroutines that may leave: its connection manager and its message handlers.\<close>

definition holds_nothing :: "('n, 'g) network_host \<Rightarrow> bool" where
  "holds_nothing h \<longleftrightarrow> nh_held h = nothing_held
     \<and> (\<forall>g. nh_gossip h = Some g \<longrightarrow> gs_joined g = {||} \<and> gs_subscribed g = {||} \<and> gs_running g = {||})"

definition only_loops :: "('n, 'g) network_host \<Rightarrow> bool" where
  "only_loops h \<longleftrightarrow> nh_cancelled h \<and> \<not> hd_host (nh_held h) \<and> hd_discoveryLoops (nh_held h) = 0
     \<and> hd_detectionLoops (nh_held h) = 0 \<and> hd_dhts (nh_held h) = 0 \<and> hd_mdns (nh_held h) = 0
     \<and> (\<forall>g. nh_gossip h = Some g \<longrightarrow> gs_cancelled g \<and> gs_joined g = {||} \<and> gs_subscribed g = {||})"

text \<open>Ticks, notifications and the network go on while the loops leave.\<close>

definition stopped_step :: "('n, 'g) p2p_lib \<Rightarrow> ('n, 'g) network_host \<Rightarrow> ('n, 'g) network_host \<Rightarrow> bool" where
  "stopped_step L h h' \<longleftrightarrow> host_step L h h' \<or> loop_leaves h h'"

lemma loop_leaves_only: "loop_leaves h h' \<Longrightarrow> only_loops h \<Longrightarrow> only_loops h'"
  by (induction rule: loop_leaves.induct) (auto simp: only_loops_def elim!: handler_leaves.cases)

lemma same_parts_only: "same_parts h h' \<Longrightarrow> only_loops h \<Longrightarrow> only_loops h'"
  by (cases "nh_gossip h"; cases "nh_gossip h'") (auto simp: only_loops_def same_parts_def same_gossip_def)

lemma stopped_only: "(stopped_step L)\<^sup>*\<^sup>* h h' \<Longrightarrow> only_loops h \<Longrightarrow> only_loops h'"
  by (induction rule: rtranclp_induct)
    (auto simp: stopped_step_def intro: loop_leaves_only same_parts_only host_step_parts)

lemma none_left:
  assumes "only_loops h" and "\<nexists>h'. loop_leaves h h'"
  shows "holds_nothing h"
proof -
  have "hd_managers (nh_held h) = 0"
    using assms loop_leaves.manager [of h] by (auto simp: only_loops_def)
  with assms(1) have "nh_held h = nothing_held"
    by (cases "nh_held h") (simp add: only_loops_def nothing_held_def)
  moreover have "gs_running g = {||}" if "nh_gossip h = Some g" for g
  proof (rule ccontr)
    assume "gs_running g \<noteq> {||}"
    then obtain t where "t |\<in>| gs_running g" by auto
    moreover have "gs_cancelled g" using assms(1) that by (simp add: only_loops_def)
    ultimately show False using assms(2) loop_leaves.handler [OF that handler_leaves.intros] by blast
  qed
  ultimately show ?thesis using assms(1) by (simp add: holds_nothing_def only_loops_def)
qed

definition loops_left :: "('n, 'g) network_host \<Rightarrow> nat" where
  "loops_left h = hd_managers (nh_held h) + hd_discoveryLoops (nh_held h)
     + (case nh_gossip h of None \<Rightarrow> 0 | Some g \<Rightarrow> fcard (gs_running g))"

lemma loop_leaves_fewer: "loop_leaves h h' \<Longrightarrow> loops_left h' < loops_left h"
proof (induction rule: loop_leaves.induct)
  case (handler h g g')
  from handler(2) obtain t where "t |\<in>| gs_running g" "g' = g\<lparr>gs_running := gs_running g |-| {|t|}\<rparr>"
    by (auto elim: handler_leaves.cases)
  then have "fcard (gs_running g') < fcard (gs_running g)"
    using fcard_fminus1_less [of t "gs_running g"] by simp
  with handler(1) show ?case by (simp add: loops_left_def)
qed (simp_all add: loops_left_def)

lemma all_leave: "only_loops h \<Longrightarrow> \<exists>h'. loop_leaves\<^sup>*\<^sup>* h h' \<and> holds_nothing h'"
proof (induction "loops_left h" arbitrary: h rule: less_induct)
  case less
  show ?case
  proof (cases "\<exists>h'. loop_leaves h h'")
    case True
    then obtain h' where h': "loop_leaves h h'" by blast
    from less.hyps [OF loop_leaves_fewer [OF h'] loop_leaves_only [OF h' less.prems]] h' show ?thesis
      by (blast intro: converse_rtranclp_into_rtranclp)
  qed (use none_left less.prems in blast)
qed

section \<open>Properties\<close>

text \<open>
  C30. A host that was created and started and ran for any time gives everything back when it is stopped, provided
  libp2p closes without an error. When Stop returns, the DHT, mDNS and the libp2p host are closed, the loops of discovery and of the detector have ended, and
  every subscription is cancelled and every topic closed, if Stop visits all the entries of its two maps. Only
  goroutines with a cancelled context may be left: the three message handlers, which Stop does not wait for, and the
  connection manager if it did not end in ten seconds. Whatever happens after that, they can leave, each departure
  leaves fewer of them, and once none is left nothing is held. A second Stop closes a closed channel and panics.
\<close>

theorem stopped_host_holds_nothing:
  assumes "NewHost L cfg = Inr h0" and "host_Start L h0 = (h1, None)" and "(host_step L)\<^sup>*\<^sup>* h1 h"
    and "pl_closeHost L (h_net (nh_p2p h))"
    and "\<forall>g. nh_gossip h = Some g \<longrightarrow> set subs = fset (gs_topics g) \<and> set topics = fset (gs_topics g)"
  shows "\<exists>h' g'. host_Stop L inTime subs topics h = Done (h', True)
    \<and> nh_held h' = nothing_held\<lparr>hd_managers := if inTime then 0 else 1\<rparr>
    \<and> nh_gossip h' = Some g' \<and> gs_joined g' = {||} \<and> gs_subscribed g' = {||}
    \<and> gs_running g' = {|TopicBlocks, TopicTransactions, TopicConsensus|}
    \<and> (\<forall>h''. (stopped_step L)\<^sup>*\<^sup>* h' h'' \<longrightarrow> ((\<nexists>x. loop_leaves h'' x) \<longrightarrow> holds_nothing h'')
         \<and> (\<forall>x. loop_leaves h'' x \<longrightarrow> loops_left x < loops_left h'')
         \<and> (\<exists>x. loop_leaves\<^sup>*\<^sup>* h'' x \<and> holds_nothing x))
    \<and> host_Stop L inTime' subs' topics' h' = Panic"
proof -
  note h0 = NewHost_result [OF assms(1)]
  obtain d g where d: "nh_discovery h1 = Some d" "ds_isRunning d"
    "map_option pd_stopClosed (nh_detector h1) = Some False"
    "nh_held h1 = (nh_held h0)\<lparr>hd_discoveryLoops := Suc (hd_discoveryLoops (nh_held h0)),
           hd_detectionLoops := Suc (hd_detectionLoops (nh_held h0)), hd_managers := Suc (hd_managers (nh_held h0)),
           hd_dhts := hd_dhts (nh_held h0) + of_bool (ds_DHT d \<noteq> None),
           hd_mdns := hd_mdns (nh_held h0) + of_bool (ds_mdns d)\<rparr>"
    and g: "nh_gossip h1 = Some g" "holds_topics g" "gs_topics g = {|TopicBlocks, TopicTransactions, TopicConsensus|}"
    by (rule host_Start_parts [OF assms(2)]) blast
  have same: "same_parts h1 h" using assms(3) by (rule host_run_parts)
  then obtain k where k: "nh_gossip h = Some k" "same_gossip g k"
    using g(1) by (cases "nh_gossip h") (simp_all add: same_parts_def)
  have h: "nh_discovery h = Some d" "map_option pd_stopClosed (nh_detector h) = Some False" "nh_held h = nh_held h1"
    using d same by (simp_all add: same_parts_def)
  obtain h' where stop: "host_Stop L inTime subs topics h = Done (h', True)" and cancelled: "nh_cancelled h'"
    and gossip: "nh_gossip h' = map_option (gossip_Stop (pl_pubsub L) subs topics) (nh_gossip h)"
    and held: "nh_held h' = \<lparr>hd_host = False, hd_discoveryLoops = hd_discoveryLoops (nh_held h) - 1,
           hd_detectionLoops = hd_detectionLoops (nh_held h) - 1,
           hd_managers = (if inTime then 0 else hd_managers (nh_held h)),
           hd_dhts = hd_dhts (nh_held h) - of_bool (ds_DHT d \<noteq> None),
           hd_mdns = hd_mdns (nh_held h) - of_bool (ds_mdns d)\<rparr>"
    and closed: "map_option pd_stopClosed (nh_detector h') = Some True"
    by (rule host_Stop_held [OF h(1) d(2) h(2) assms(4)])
  let ?g' = "gossip_Stop (pl_pubsub L) subs topics k"
  have "holds_topics k" and topics: "gs_topics k = {|TopicBlocks, TopicTransactions, TopicConsensus|}"
    using k(2) g by (simp_all add: same_gossip_def holds_topics_def)
  with gossip_Stop_holds [of k subs topics "pl_pubsub L"] assms(5) k(1)
  have g': "gs_cancelled ?g'" "gs_joined ?g' = {||}" "gs_subscribed ?g' = {||}" "gs_running ?g' = gs_topics k" by auto
  have held': "nh_held h' = nothing_held\<lparr>hd_managers := if inTime then 0 else 1\<rparr>"
    unfolding held h(3) d(4) using h0 by (simp add: nothing_held_def)
  have "only_loops h'" using cancelled g' by (simp add: only_loops_def held' nothing_held_def gossip k(1))
  then have "((\<nexists>x. loop_leaves h'' x) \<longrightarrow> holds_nothing h'') \<and> (\<exists>x. loop_leaves\<^sup>*\<^sup>* h'' x \<and> holds_nothing x)"
    if "(stopped_step L)\<^sup>*\<^sup>* h' h''" for h'' using stopped_only [OF that] none_left all_leave by blast
  with stop held' gossip k(1) g' topics host_Stop_twice [OF closed] loop_leaves_fewer show ?thesis by auto
qed

definition demo_p2p :: "(peer_id list, (string \<times> bytes) list) p2p_lib" where
  "demo_p2p = \<lparr>pl_net = list_net, pl_pubsub = list_pubsub, pl_GenerateKey = True, pl_New = (\<lambda>_. Some ([], ''self'')),
     pl_newDHT = (\<lambda>_ _. True), pl_Bootstrap = (\<lambda>_. True), pl_startMDNS = (\<lambda>_. True),
     pl_newGossipSub = (\<lambda>_. Some []), pl_closeHost = (\<lambda>_. True)\<rparr>"

lemma demo_host_starts:
  "\<exists>h0 h1. NewHost demo_p2p cfg = Inr h0 \<and> host_Start demo_p2p h0 = (h1, None)"
proof -
  obtain g where g: "gossip_Start list_pubsub (NewGossipService [] ''self'') = (g, None)" using demo_gossip by blast
  let ?h0 = "projr (NewHost demo_p2p cfg)"
  have n: "NewHost demo_p2p cfg = Inr ?h0" by (simp add: NewHost_def demo_p2p_def generateOrLoadKey_def list_net_def)
  have p: "nh_p2p ?h0 = \<lparr>h_net = [], h_self = ''self'', h_peers = fmempty,
                    h_minConn = net_MinConnections (cfg_Network cfg), h_maxConn = net_MaxConnections (cfg_Network cfg),
                    h_bootstrap = net_BootstrapPeers (cfg_Network cfg), h_discovery = None\<rparr>"
    by (simp add: NewHost_def demo_p2p_def generateOrLoadKey_def list_net_def)
  obtain h1 d e where 1: "discovery_Start demo_p2p ?h0 NewDiscoveryService = (h1, d, e)" by (metis prod_cases3)
  then have e: "e = None"
    by (auto simp: discovery_Start_def NewDiscoveryService_def setupDHT_def setupMDNS_def demo_p2p_def Let_def split: if_splits)
  have p1: "h_net (nh_p2p h1) = []" "h_self (nh_p2p h1) = ''self''"
    using discovery_Start_result(1) [OF 1] p by simp_all
  have "pl_newGossipSub demo_p2p = (\<lambda>_. Some [])" "pl_pubsub demo_p2p = list_pubsub" by (simp_all add: demo_p2p_def)
  then have "start_gossip demo_p2p (h1\<lparr>nh_discovery := Some d\<rparr>)
      = (h1\<lparr>nh_discovery := Some d, nh_gossip := Some g\<rparr>, None)"
    using g by (simp add: start_gossip_def p1)
  then have "snd (host_Start demo_p2p ?h0) = None" by (simp add: host_Start_def 1 e Let_def)
  with n show ?thesis by (metis prod.collapse)
qed

theorem stopped_host_holds_nothing_witness:
  "\<exists>h h'. host_Stop demo_p2p False [TopicConsensus, TopicBlocks, TopicTransactions]
       [TopicBlocks, TopicTransactions, TopicConsensus] h = Done (h', True)
     \<and> nh_held h \<noteq> nothing_held \<and> hd_managers (nh_held h') = 1 \<and> (\<exists>x. loop_leaves\<^sup>*\<^sup>* h' x \<and> holds_nothing x)"
proof -
  let ?subs = "[TopicConsensus, TopicBlocks, TopicTransactions]" and ?topics = "[TopicBlocks, TopicTransactions, TopicConsensus]"
  obtain h0 h1 where h: "NewHost demo_p2p default_config = Inr h0" "host_Start demo_p2p h0 = (h1, None)"
    using demo_host_starts by blast
  have held: "nh_held h1 \<noteq> nothing_held"
    and all: "\<forall>g. nh_gossip h1 = Some g \<longrightarrow> set ?subs = fset (gs_topics g) \<and> set ?topics = fset (gs_topics g)"
    by (rule host_Start_parts [OF h(2)]; use NewHost_result [OF h(1)] in \<open>auto simp: nothing_held_def\<close>)+
  have "pl_closeHost demo_p2p (h_net (nh_p2p h1))" by (simp add: demo_p2p_def)
  from stopped_host_holds_nothing [OF h rtranclp.rtrancl_refl this all, of False False "[]" "[]"] obtain h' where
    "host_Stop demo_p2p False ?subs ?topics h1 = Done (h', True)" "nh_held h' = nothing_held\<lparr>hd_managers := 1\<rparr>"
    "\<forall>h''. (stopped_step demo_p2p)\<^sup>*\<^sup>* h' h'' \<longrightarrow> (\<exists>x. loop_leaves\<^sup>*\<^sup>* h'' x \<and> holds_nothing x)"
    by auto
  with held show ?thesis by (intro exI [of _ h1] exI [of _ h']) auto
qed

text \<open>A start that fails after the discovery service runs leaves its loop running and the DHT and the host open.\<close>

lemma failed_start_keeps_running:
  assumes "NewHost L cfg = Inr h0" and "host_Start L h0 = (h1, Some e)" and "\<And>x. e \<noteq> DiscoveryStartFailed x"
  shows "hd_host (nh_held h1) \<and> hd_discoveryLoops (nh_held h1) = 1
    \<and> hd_dhts (nh_held h1) = of_bool (net_DHTEnabled (cfg_Network cfg))"
proof -
  note h0 = NewHost_result [OF assms(1)]
  obtain h2 d e2 where 1: "discovery_Start L h0 NewDiscoveryService = (h2, d, e2)" by (metis prod_cases3)
  with assms(2,3) have e2: "e2 = None" by (cases e2) (auto simp: host_Start_def)
  from assms(2) have "nh_held h1 = nh_held h2"
    by (cases "start_gossip L (h2\<lparr>nh_discovery := Some d\<rparr>)")
      (auto simp: host_Start_def 1 e2 Let_def dest: start_gossip_result split: option.splits)
  with discovery_Start_result(1) [OF 1] discovery_Start_result(2) [OF 1 e2] h0 show ?thesis by (auto simp: nothing_held_def)
qed

text \<open>A bootstrap that fails leaves the new DHT open.\<close>

lemma failed_bootstrap_keeps_DHT:
  assumes "NewHost L cfg = Inr h0" and "net_DHTEnabled (cfg_Network cfg)"
    and "host_Start L h0 = (h1, Some (DiscoveryStartFailed DHTBootstrapFailed))"
  shows "hd_dhts (nh_held h1) = 1 \<and> map_option ds_isRunning (nh_discovery h1) = Some False"
proof -
  obtain h2 d e2 where 1: "discovery_Start L h0 NewDiscoveryService = (h2, d, e2)" by (metis prod_cases3)
  obtain h3 e3 where 2: "start_gossip L (h2\<lparr>nh_discovery := Some d\<rparr>) = (h3, e3)" by force
  have "e3 \<noteq> Some (DiscoveryStartFailed x)" for x
    using 2 by (auto simp: start_gossip_def split: option.splits prod.splits)
  with assms(3) 2 have "e2 = Some DHTBootstrapFailed" "h1 = h2\<lparr>nh_discovery := Some d\<rparr>"
    by (cases e2; cases e3; simp add: host_Start_def 1 Let_def)+
  with 1 assms(2) NewHost_result [OF assms(1)] show ?thesis
    by (auto simp: discovery_Start_def NewDiscoveryService_def setupDHT_def setupMDNS_def nothing_held_def Let_def
        split: if_splits option.splits)
qed

text \<open>libp2p is given no connection gater, so admission is never asked about a connection.\<close>

lemma no_connection_gater:
  assumes "\<And>opts. OptConnectionGater \<notin> set opts \<Longrightarrow> pl_New L opts = pl_New L' opts"
    and "L' = L\<lparr>pl_New := pl_New L'\<rparr>"
  shows "NewHost L' cfg = NewHost L cfg"
proof -
  have "pl_New L' [OptIdentity, OptListenAddrs a, OptDefaultTransports, OptDefaultMuxers, OptDefaultSecurity,
      OptNATPortMap, OptPing, OptProtocolVersion v] = pl_New L [OptIdentity, OptListenAddrs a, OptDefaultTransports,
      OptDefaultMuxers, OptDefaultSecurity, OptNATPortMap, OptPing, OptProtocolVersion v]" for a v
    using assms(1) by simp
  moreover have "pl_net L' = pl_net L" "pl_GenerateKey L' = pl_GenerateKey L"
    by (subst assms(2), simp)+
  ultimately show ?thesis
    by (simp add: NewHost_def generateOrLoadKey_def Let_def cong: sum.case_cong)
qed

end
