(* ===== verification/Node_Start.thy ===== *)
theory Node_Start
  imports Web_Socket PBFT_Timers Host_Life Message
begin

text \<open>
  The start command (cmd/v2v-node/start.go): how a node is put together over one database, in which order its parts
  are closed, and what a node does once it runs. libp2p is a parameter, as in Host_Life, and so are the key that is drawn,
  the clock and what LevelDB lists.
\<close>

section \<open>The identity of a node\<close>

text \<open>
  ecdsa.GenerateKey on P-256 gives the bytes of the private key and the marshalled public key; the address is the
  end of the latter.
\<close>

definition generateNodeIdentity :: "(bytes \<times> bytes) option \<Rightarrow> (bytes \<times> address) option" where
  "generateNodeIdentity key = map_option (\<lambda>(privateKeyBytes, publicKeyBytes).
     (privateKeyBytes,
      if 20 \<le> length publicKeyBytes then get_be (drop (length publicKeyBytes - 20) publicKeyBytes) else 0)) key"

section \<open>Starting\<close>

datatype start_error =
    LoggerFailed
  | StorageFailed open_error
  | BlockchainFailed chain_error
  | IdentityFailed identity_error
  | KeyFailed
  | HostFailed new_host_error
  | HostStartFailed host_start_error

text \<open>The deferred calls, in the order in which they run when runStart returns.\<close>

datatype closer = StoreClose | StateStop | MessageStop | PoolStop | HostStop | EngineStop | ServerStop

record start_flags =
  sf_logLevel :: string
  sf_dataDir :: string
  sf_apiPort :: int
  sf_p2pPort :: int
  sf_bootstrap :: "string list"
  sf_validator :: bool

record ('s, 'n, 'g) start_env =
  se_parseLevel :: "string \<Rightarrow> int option"
  se_dir :: "string \<Rightarrow> string"
  se_mkdirAll :: "string \<Rightarrow> bool"
  se_openFile :: "string \<Rightarrow> leveldb_options \<Rightarrow> 's option"
  se_entries :: "'s entries"
  se_key :: "(bytes \<times> bytes) option"
  se_p2p :: "('n, 'g) p2p_lib"
  se_now :: int
  se_unix :: i64

record server_config =
  sc_Host :: string
  sc_Port :: int
  sc_ReadTimeout :: int
  sc_WriteTimeout :: int

definition DefaultServerConfig :: server_config where
  "DefaultServerConfig = \<lparr>sc_Host = ''0.0.0.0'', sc_Port = 8080, sc_ReadTimeout = 30 * 10 ^ 9,
     sc_WriteTimeout = 30 * 10 ^ 9\<rparr>"

record ('s, 'n, 'g) node =
  nd_server :: "'s api_server"
  nd_serverConfig :: server_config
  nd_limiter :: rate_limiter
  nd_hub :: "nat hub"
  nd_messages :: "'s message_service"
  nd_engine :: "'s running option"
  nd_host :: "('n, 'g) network_host"

text \<open>The API server holds the chain, the pool, the services and whether there is an engine.\<close>

definition NewServer ::
  "server_config \<Rightarrow> 's blockchain \<Rightarrow> txpool \<Rightarrow> 's identity_service \<Rightarrow> 's platoon_service \<Rightarrow> bool \<Rightarrow> state_service
     \<Rightarrow> u64 \<Rightarrow> 's api_server \<times> rate_limiter \<times> nat hub" where
  "NewServer config bc pool idService platoons consensus state nanos =
     (\<lparr>sv_bc = bc, sv_txPool = pool, sv_identity = idService, sv_platoon = platoons, sv_consensus = consensus,
       sv_state = state, sv_builder = NewTransactionBuilder nanos\<rparr>, NewRateLimiter 1000, new_hub)"

definition zero_certificate :: CertificateConfig where
  "zero_certificate = \<lparr>crt_CertFile = [], crt_KeyFile = [], crt_CAFile = [], crt_AutoRotate = False, crt_RotateDaysBefore = 0\<rparr>"

text \<open>The configuration that runStart writes for the host; every other section is zero.\<close>

definition host_config :: "address \<Rightarrow> int \<Rightarrow> string list \<Rightarrow> Config" where
  "host_config addr p2pPort bootstrap = \<lparr>
     cfg_Node = \<lparr>node_ID = Address_String addr, node_Role = ''validator'', node_DataDir = [],
       node_ListenAddr = ''/ip4/0.0.0.0/tcp/'' @ print_int p2pPort\<rparr>,
     cfg_Network = \<lparr>net_BootstrapPeers = bootstrap, net_MaxConnections = 50, net_MinConnections = 1,
       net_DHTEnabled = True, net_MDNSEnabled = False\<rparr>,
     cfg_Blockchain = \<lparr>chain_GenesisBlock = False, chain_BlockInterval = 0, chain_MaxTxPerBlock = 0,
       chain_MaxBlockSize = 0, chain_LightClient = False\<rparr>,
     cfg_Consensus = \<lparr>cons_Type = [], cons_ViewTimeout = 0, cons_BlockTimeout = 0, cons_MinValidators = 0\<rparr>,
     cfg_API = \<lparr>api_Enabled = False, api_HTTPHost = [], api_HTTPPort = 0, api_WebSocketEnabled = False,
       api_CORSOrigins = [], api_RateLimit = 0\<rparr>,
     cfg_Log = \<lparr>log_Level = [], log_Format = [], log_Output = [], log_File = [], log_MaxSize = 0, log_MaxBackups = 0,
       log_MaxAge = 0\<rparr>,
     cfg_Certificate = zero_certificate,
     cfg_Storage = \<lparr>stor_Type = [], stor_Path = [], stor_CacheSize = 0, stor_Compression = False\<rparr>,
     cfg_Metrics = \<lparr>metr_Enabled = False, metr_PrometheusPort = 0, metr_Namespace = []\<rparr>\<rparr>"

text \<open>The engine of a validator: it is the only validator of its set, and its messages go to itself and the host.\<close>

definition start_engine ::
  "int \<Rightarrow> address \<Rightarrow> bytes \<Rightarrow> 's blockchain \<Rightarrow> bool \<Rightarrow> 's running option outcome" where
  "start_engine now addr key bc validator =
     (if \<not> validator then Done None
      else obind (new_running addr key bc [addr] (Some DefaultPBFTConfig)) (\<lambda>n.
        Done (Some (engine_Start now (SetBroadcastFunc n)))))"

text \<open>The part of runStart after the chain: services, host, engine and API server.\<close>

definition start_services ::
  "'s libs \<Rightarrow> ('s, 'n, 'g) start_env \<Rightarrow> start_flags \<Rightarrow> 's \<Rightarrow> 's blockchain
     \<Rightarrow> ((start_error + ('s, 'n, 'g) node) \<times> closer list) outcome" where
  "start_services B E F store bc =
     (case NewIdentityService (lib_J B) (lib_X B) (lib_L B) store
             (iter_values (se_entries E) store PrefixIdentity) [] of
        Inl e \<Rightarrow> Done (Inl (IdentityFailed e), [StoreClose])
      | Inr idService \<Rightarrow>
          let platoons = NewPlatoonService (lib_J B) (se_entries E) store;
              msgs = NewMessageService idService;
              closers = [PoolStop, MessageStop, StateStop, StoreClose]
          in (case generateNodeIdentity (se_key E) of
                None \<Rightarrow> Done (Inl KeyFailed, closers)
              | Some (key, addr) \<Rightarrow>
                  (case NewHost (se_p2p E) (host_config addr (sf_p2pPort F) (sf_bootstrap F)) of
                     Inl e \<Rightarrow> Done (Inl (HostFailed e), closers)
                   | Inr host \<Rightarrow>
                       (case host_Start (se_p2p E) host of
                          (host, Some e) \<Rightarrow> Done (Inl (HostStartFailed e), closers)
                        | (host, None) \<Rightarrow>
                            obind (start_engine (se_now E) addr key bc (sf_validator F)) (\<lambda>engine.
                              let closers = (if sf_validator F then [EngineStop] else []) @ HostStop # closers;
                                  apiConfig = DefaultServerConfig\<lparr>sc_Port := sf_apiPort F\<rparr>
                              in (case NewServer apiConfig bc (NewTxPool DefaultTxPoolConfig) idService platoons
                                         (engine \<noteq> None) NewStateService (of_int (se_now E)) of
                                    (server, limiter, hub) \<Rightarrow>
                                      Done (Inr \<lparr>nd_server = server, nd_serverConfig = apiConfig, nd_limiter = limiter,
                                                 nd_hub = Server_Start hub, nd_messages = msgs, nd_engine = engine,
                                                 nd_host = host\<rparr>,
                                            ServerStop # closers)))))))"

definition runStart ::
  "'s libs \<Rightarrow> ('s, 'n, 'g) start_env \<Rightarrow> start_flags \<Rightarrow> ((start_error + ('s, 'n, 'g) node) \<times> closer list) outcome" where
  "runStart B E F =
     (case logger_New (se_parseLevel E) 0 (se_dir E) (se_mkdirAll E)
             \<lparr>log_Level = sf_logLevel F, log_Format = [], log_Output = ''stdout'', log_File = [], log_MaxSize = 0,
              log_MaxBackups = 0, log_MaxAge = 0\<rparr> of
        None \<Rightarrow> Done (Inl LoggerFailed, [])
      | Some _ \<Rightarrow>
     (case NewLevelDBStorage (se_mkdirAll E) (se_openFile E) (sf_dataDir F) 0 False of
        Inl e \<Rightarrow> Done (Inl (StorageFailed e), [])
      | Inr store \<Rightarrow>
     obind (NewBlockchain (lib_C B) (lib_J B) (lib_L B) (se_unix E)
              \<lparr>cc_MaxBlockSize = 0, cc_MaxTxPerBlock = 0, cc_GenesisBlock = False\<rparr> store) (\<lambda>(store, r).
     (case r of
        Inl e \<Rightarrow> Done (Inl (BlockchainFailed e), [StoreClose])
      | Inr bc \<Rightarrow> start_services B E F store bc))))"

section \<open>A running node\<close>

text \<open>
  A request to the API, the two timers of the engine, a message of the network, and what the host does. Engine and
  server hold the same chain.
\<close>

inductive node_step ::
  "'s libs \<Rightarrow> jwt_lib \<Rightarrow> mux_lib \<Rightarrow> ('n, 'g) p2p_lib \<Rightarrow> ('s, 'n, 'g) node \<Rightarrow> ('s, 'n, 'g) node \<Rightarrow> bool" for B T M N where
  api: "serve B T M env r (nd_server n) = Some (Done (sv', resp)) \<Longrightarrow> node_step B T M N n (n\<lparr>nd_server := sv'\<rparr>)"
| block_timer: "nd_engine n = Some e \<Longrightarrow> block_tick (lib_C B) (lib_J B) (lib_L B) unix e = Done e' \<Longrightarrow>
    node_step B T M N n (n\<lparr>nd_engine := Some e', nd_server := (nd_server n)\<lparr>sv_bc := pe_bc (rn_engine e')\<rparr>\<rparr>)"
| view_timer: "nd_engine n = Some e \<Longrightarrow> view_timer_fires (lib_C B) (lib_J B) (lib_L B) now unix e = Done e' \<Longrightarrow>
    node_step B T M N n (n\<lparr>nd_engine := Some e', nd_server := (nd_server n)\<lparr>sv_bc := pe_bc (rn_engine e')\<rparr>\<rparr>)"
| consensus: "nd_engine n = Some e \<Longrightarrow> receive_msg (lib_C B) (lib_J B) (lib_L B) now unix e msg = Done (e', r2) \<Longrightarrow>
    node_step B T M N n (n\<lparr>nd_engine := Some e', nd_server := (nd_server n)\<lparr>sv_bc := pe_bc (rn_engine e')\<rparr>\<rparr>)"
| host: "host_step N (nd_host n) h \<Longrightarrow> node_step B T M N n (n\<lparr>nd_host := h\<rparr>)"

inductive_cases node_stepE: "node_step B T M N n n'"

section \<open>What no step changes\<close>

definition same_chain :: "'s handler_fun \<Rightarrow> bool" where
  "same_chain handler \<longleftrightarrow> (\<forall>r sv sv' resp. handler r sv = Some (Done (sv', resp)) \<longrightarrow> sv_bc sv' = sv_bc sv)"

lemma same_chainI:
  "(\<And>r sv sv' resp. handler r sv = Some (Done (sv', resp)) \<Longrightarrow> sv_bc sv' = sv_bc sv) \<Longrightarrow> same_chain handler"
  by (auto simp: same_chain_def)

lemma same_chain_queries:
  "same_chain handleHealth" "same_chain handleReady" "same_chain (handleGetLatestBlock B)"
  "same_chain (handleGetBlockByHeight B n)" "same_chain (handleGetBlockByHash B h)" "same_chain (handleGetBlocks B)"
  by (auto intro!: same_chainI simp: handleHealth_def handleReady_def handleGetLatestBlock_def handleGetBlockByHeight_def
      handleGetBlockByHash_def handleGetBlocks_def obind_same Let_def
      split: option.splits sum.splits outcome.splits if_splits)

lemma same_chain_pool:
  "same_chain (handleGetTransaction B h)" "same_chain handleGetPendingTransactions" "same_chain handleNodeStats"
proof -
  show "same_chain handleGetPendingTransactions"
    by (auto intro!: same_chainI simp: handleGetPendingTransactions_def Let_def obind_eq_Done split_beta)
qed (auto intro!: same_chainI simp: handleGetTransaction_def handleNodeStats_def obind_same split: option.splits sum.splits)

lemma same_chain_services:
  "same_chain (handleGetPlatoons ord)" "same_chain (handleGetPlatoon B i)" "same_chain (handleGetPlatoonMembers B i)"
  "same_chain (handleGetPlatoonHistory i)" "same_chain (handleGetIdentity B i)" "same_chain handleListIdentities"
  "same_chain (handleNodeStatus B)" "same_chain handleNodePeers" "same_chain (handleGetStateEvents e)"
  "same_chain (handleGetStateHistory now e)" "same_chain handleGetAuditLogs"
  by (auto intro!: same_chainI dest!: obind_read simp: handleGetPlatoons_def handleGetPlatoon_def handleGetPlatoonMembers_def
      handleGetPlatoonHistory_def handleGetIdentity_def handleListIdentities_def handleNodeStatus_def handleNodePeers_def
      handleGetStateEvents_def handleGetStateHistory_def handleGetAuditLogs_def obind_same Let_def
      split: option.splits sum.splits prod.splits)

lemma same_chain_posts:
  "same_chain (handleSubmitTransaction B now)" "same_chain (handleCreatePlatoon B unix now)"
  "same_chain (handleJoinPlatoon B unix now i)" "same_chain (handleLeavePlatoon B unix now i)"
  "same_chain (handleDissolvePlatoon B unix now i)"
  by (auto intro!: same_chainI simp: handleSubmitTransaction_def handleCreatePlatoon_def handleJoinPlatoon_def
      handleLeavePlatoon_def handleDissolvePlatoon_def submit_built_def Let_def split: option.splits prod.splits sum.splits)

lemma same_chain_endpoint: "same_chain (endpoint_handler B env ep vars)"
  by (cases ep) (simp_all add: endpoint_handler_def same_chain_queries same_chain_pool same_chain_services same_chain_posts)

lemma same_chain_serve: "same_chain (serve B T M env)"
proof (rule same_chainI)
  fix r sv sv' resp
  assume "serve B T M env r sv = Some (Done (sv', resp))"
  then show "sv_bc sv' = sv_bc sv"
    using same_chain_endpoint [of B env, unfolded same_chain_def, rule_format]
    by (auto simp: serve_def recoveryMiddleware_def corsMiddleware_def guarded_def authMiddleware_def
        optionalAuthMiddleware_def split: option.splits if_splits guard.splits prod.splits)
qed

text \<open>
  The chain is the one of the start, and the engine's own pools stay empty: nothing in the program hands a
  transaction of the API to SubmitTransaction.
\<close>

definition idle_engine :: "crypto \<Rightarrow> json_lib \<Rightarrow> address list \<Rightarrow> 's blockchain \<Rightarrow> 's running \<Rightarrow> bool" where
  "idle_engine C J V bc n \<longleftrightarrow> pbft_core C J V bc (rn_engine n) \<and> pe_requestPool (rn_engine n) = []
     \<and> pe_highPriorityPool (rn_engine n) = [] \<and> 0 \<le> pe_MaxTxPerBlock (rn_engine n)"

lemma idle_engineI:
  assumes "idle_engine C J V bc n" and "keeps C J V bc (rn_engine n) (rn_engine n')"
    and "same_pools (rn_engine n) (rn_engine n')"
  shows "idle_engine C J V bc n'"
  using assms by (simp add: idle_engine_def keeps_def same_pools_def)

lemma idle_block_tick:
  assumes "idle_engine C J V bc n"
  shows "block_tick C J L unix n = Done n"
  using assms by (simp add: block_tick_def ProposeBlock_empty idle_engine_def)

lemma idle_view_timer:
  assumes "idle_engine C J V bc n" and "view_timer_fires C J L now unix n = Done n'"
  shows "idle_engine C J V bc n'"
  using assms(2)
  by (auto simp: view_timer_fires_def obind_eq_Done assms(1) split: option.splits if_splits
      intro!: idle_engineI [OF assms(1)] dest: initiateViewChange_keeps initiateViewChange_quiet)

lemma idle_receive:
  assumes "idle_engine C J V bc n" and "receive_msg C J L now unix n msg = Done (n', r)"
  shows "idle_engine C J V bc n'"
  using assms(2)
  by (auto simp: receive_msg_def obind_eq_Done Let_def startViewChangeTimer_def split: if_splits
      intro!: idle_engineI [OF assms(1)] dest: engine.handler_keeps [OF refl] own.quiet [OF refl])

definition idle_node :: "'s libs \<Rightarrow> 's blockchain \<Rightarrow> address list \<Rightarrow> ('s, 'n, 'g) node \<Rightarrow> bool" where
  "idle_node B bc V n \<longleftrightarrow> sv_bc (nd_server n) = bc
     \<and> (\<forall>e. nd_engine n = Some e \<longrightarrow> idle_engine (lib_C B) (lib_J B) V bc e)"

lemma idle_node_step:
  assumes "node_step B T M N n n'" and "idle_node B bc V n"
  shows "idle_node B bc V n'"
  using assms(1)
proof (rule node_stepE)
  fix env r sv' resp
  assume "serve B T M env r (nd_server n) = Some (Done (sv', resp))" and n': "n' = n\<lparr>nd_server := sv'\<rparr>"
  then have "sv_bc sv' = sv_bc (nd_server n)" using same_chain_serve unfolding same_chain_def by blast
  with assms(2) n' show ?thesis by (simp add: idle_node_def)
next
  fix e unix e'
  assume "nd_engine n = Some e" "block_tick (lib_C B) (lib_J B) (lib_L B) unix e = Done e'"
    "n' = n\<lparr>nd_engine := Some e', nd_server := (nd_server n)\<lparr>sv_bc := pe_bc (rn_engine e')\<rparr>\<rparr>"
  with assms(2) idle_block_tick [of "lib_C B" "lib_J B" V bc e "lib_L B" unix] show ?thesis
    by (auto simp: idle_node_def idle_engine_def pbft_core_def)
next
  fix e now unix e'
  assume a: "nd_engine n = Some e" "view_timer_fires (lib_C B) (lib_J B) (lib_L B) now unix e = Done e'"
    "n' = n\<lparr>nd_engine := Some e', nd_server := (nd_server n)\<lparr>sv_bc := pe_bc (rn_engine e')\<rparr>\<rparr>"
  then have "idle_engine (lib_C B) (lib_J B) V bc e'" using assms(2) idle_view_timer by (auto simp: idle_node_def)
  with a(3) show ?thesis by (simp add: idle_node_def idle_engine_def pbft_core_def)
next
  fix e now unix msg e' r2
  assume a: "nd_engine n = Some e" "receive_msg (lib_C B) (lib_J B) (lib_L B) now unix e msg = Done (e', r2)"
    "n' = n\<lparr>nd_engine := Some e', nd_server := (nd_server n)\<lparr>sv_bc := pe_bc (rn_engine e')\<rparr>\<rparr>"
  then have "idle_engine (lib_C B) (lib_J B) V bc e'" using assms(2) idle_receive by (auto simp: idle_node_def)
  with a(3) show ?thesis by (simp add: idle_node_def idle_engine_def pbft_core_def)
next
  fix h assume "n' = n\<lparr>nd_host := h\<rparr>"
  with assms(2) show ?thesis by (simp add: idle_node_def)
qed

lemma idle_node_run:
  assumes "(node_step B T M N)\<^sup>*\<^sup>* n n'" and "idle_node B bc V n"
  shows "idle_node B bc V n'"
  using assms by (induction rule: rtranclp_induct) (auto dest: idle_node_step)

section \<open>What a start gives\<close>

lemma runStart_node:
  assumes "runStart B E F = Done (Inr n, cl)"
  obtains path opts store store' bc key addr where "se_openFile E path opts = Some store"
    and "NewBlockchain (lib_C B) (lib_J B) (lib_L B) (se_unix E)
           \<lparr>cc_MaxBlockSize = 0, cc_MaxTxPerBlock = 0, cc_GenesisBlock = False\<rparr> store = Done (store', Inr bc)"
    and "sv_bc (nd_server n) = bc"
    and "start_engine (se_now E) addr key bc (sf_validator F) = Done (nd_engine n)"
    and "cl = ServerStop # (if sf_validator F then [EngineStop] else [])
           @ [HostStop, PoolStop, MessageStop, StateStop, StoreClose]"
proof -
  from assms obtain store where store: "NewLevelDBStorage (se_mkdirAll E) (se_openFile E) (sf_dataDir F) 0 False = Inr store"
    by (auto simp: runStart_def split: option.splits sum.splits)
  from store obtain path opts where o: "se_openFile E path opts = Some store"
    by (auto simp: NewLevelDBStorage_def Let_def split: if_splits option.splits)
  let ?cfg = "\<lparr>cc_MaxBlockSize = 0, cc_MaxTxPerBlock = 0, cc_GenesisBlock = False\<rparr>"
  from assms store obtain store' r where
    "NewBlockchain (lib_C B) (lib_J B) (lib_L B) (se_unix E) ?cfg store = Done (store', r)"
    and "(case r of Inl e \<Rightarrow> Done (Inl (BlockchainFailed e), [StoreClose]) | Inr bc \<Rightarrow> start_services B E F store' bc)
      = Done (Inr n, cl)"
    by (auto simp: runStart_def obind_eq_Done split: option.splits)
  then obtain bc where c: "NewBlockchain (lib_C B) (lib_J B) (lib_L B) (se_unix E) ?cfg store = Done (store', Inr bc)"
    and st: "start_services B E F store' bc = Done (Inr n, cl)"
    by (cases r) auto
  from st obtain key addr idService where k: "generateNodeIdentity (se_key E) = Some (key, addr)"
    and i: "NewIdentityService (lib_J B) (lib_X B) (lib_L B) store' (iter_values (se_entries E) store' PrefixIdentity) [] = Inr idService"
    by (auto simp: start_services_def Let_def split: sum.splits option.splits)
  show ?thesis
    by (rule that [OF o c])
      (use st in \<open>auto simp: start_services_def k i NewServer_def obind_eq_Done Let_def
         split: if_splits sum.splits prod.splits option.splits\<close>)
qed

lemma fresh_blockchain:
  assumes "db_spec L contents" and "contents store latestHeightKey = None" and "\<not> cc_GenesisBlock cfg"
    and "NewBlockchain C J L now cfg store = Done (store', Inr bc)"
  shows "bc = \<lparr>bc_config = cfg, bc_store = store, bc_latestHash = 0, bc_latestHeight = 0, bc_mu = free_lock\<rparr>"
  using assms by (auto simp: NewBlockchain_def BS_GetLatestHeight_def Storage_Get_spec [OF assms(1)] Let_def)

lemma start_engine_idle:
  assumes "start_engine now addr key bc validator = Done (Some e)"
  shows "idle_engine C J [addr] bc e"
proof -
  from assms obtain n where n: "new_running addr key bc [addr] (Some DefaultPBFTConfig) = Done n"
    and e: "e = engine_Start now (SetBroadcastFunc n)"
    by (auto simp: start_engine_def obind_eq_Done split: if_splits)
  from n obtain g where g: "NewPBFTEngine addr key bc [addr] (cf_MaxTxPerBlock DefaultPBFTConfig) = Done g"
    and r: "rn_engine n = g" by (auto simp: new_running_def obind_eq_Done)
  have "rn_engine e = g\<lparr>pe_broadcastSet := True\<rparr>"
    by (simp add: e engine_Start_def mainLoop_def startBlockTimer_def startViewChangeTimer_def SetBroadcastFunc_def Let_def r)
  moreover have "pbft_core C J [addr] bc g" using NewPBFTEngine_core [OF g] by blast
  moreover have "pe_requestPool g = []" "pe_highPriorityPool g = []" "pe_MaxTxPerBlock g = 100"
    using g by (auto simp: NewPBFTEngine_def DefaultPBFTConfig_def)
  ultimately show ?thesis by (simp add: idle_engine_def pbft_core_def)
qed

section \<open>Properties\<close>

text \<open>
  C28. A node that is started over a fresh database never has a block, whatever requests it serves, whatever
  messages it receives and however its timers fire: its chain stays at height 0, a tick of the block timer
  changes nothing although transactions may be pending in the pool of the API, and GET /node/status
  panics all along.
\<close>

theorem started_node_never_has_a_block:
  assumes "db_spec (lib_L B) contents"
    and "\<And>path opts st. se_openFile E path opts = Some st \<Longrightarrow> contents st latestHeightKey = None"
    and "runStart B E F = Done (Inr n0, closers)" and "(node_step B T M N)\<^sup>*\<^sup>* n0 n"
  shows "bc_latestHeight (sv_bc (nd_server n)) = 0
    \<and> (\<forall>e unix. nd_engine n = Some e \<longrightarrow> block_tick (lib_C B) (lib_J B) (lib_L B) unix e = Done e)
    \<and> handleNodeStatus B r (nd_server n) = Some Panic"
proof -
  obtain path opts store store' bc key addr where s: "se_openFile E path opts = Some store"
    "NewBlockchain (lib_C B) (lib_J B) (lib_L B) (se_unix E)
           \<lparr>cc_MaxBlockSize = 0, cc_MaxTxPerBlock = 0, cc_GenesisBlock = False\<rparr> store = Done (store', Inr bc)"
    "sv_bc (nd_server n0) = bc" "start_engine (se_now E) addr key bc (sf_validator F) = Done (nd_engine n0)"
    by (rule runStart_node [OF assms(3)])
  have bc: "bc_latestHeight bc = 0" "readable bc"
    using fresh_blockchain [OF assms(1) assms(2) [OF s(1)] _ s(2)] by (simp_all add: free_lock_def)
  have "idle_node B bc [addr] n0" using s(3,4) start_engine_idle by (auto simp: idle_node_def)
  with assms(4) have n: "idle_node B bc [addr] n" by (rule idle_node_run)
  then have "sv_bc (nd_server n) = bc" by (simp add: idle_node_def)
  with n bc node_status_panics [of "nd_server n"] idle_block_tick show ?thesis by (auto simp: idle_node_def)
qed

definition demo_start :: "(bytes \<rightharpoonup> bytes, peer_id list, (string \<times> bytes) list) start_env" where
  "demo_start = \<lparr>se_parseLevel = (\<lambda>_. Some 0), se_dir = id, se_mkdirAll = (\<lambda>_. True),
     se_openFile = (\<lambda>_ _. Some Map.empty), se_entries = (\<lambda>_ _. ([], None)), se_key = Some ([], demo_key),
     se_p2p = demo_p2p, se_now = 0, se_unix = 0\<rparr>"

definition demo_flags :: start_flags where
  "demo_flags = \<lparr>sf_logLevel = ''info'', sf_dataDir = ''./data'', sf_apiPort = 8080, sf_p2pPort = 10000,
     sf_bootstrap = [], sf_validator = True\<rparr>"

lemma demo_start_runs: "\<exists>n closers. runStart demo_libs demo_start demo_flags = Done (Inr n, closers) \<and> nd_engine n \<noteq> None"
proof -
  have c: "NewBlockchain (lib_C demo_libs) (lib_J demo_libs) (lib_L demo_libs) 0
      \<lparr>cc_MaxBlockSize = 0, cc_MaxTxPerBlock = 0, cc_GenesisBlock = False\<rparr> Map.empty
    = Done (Map.empty, Inr \<lparr>bc_config = \<lparr>cc_MaxBlockSize = 0, cc_MaxTxPerBlock = 0, cc_GenesisBlock = False\<rparr>,
        bc_store = Map.empty, bc_latestHash = 0, bc_latestHeight = 0, bc_mu = free_lock\<rparr>)"
    by (simp add: NewBlockchain_def BS_GetLatestHeight_def Storage_Get_spec [OF demo_libs_ok(1)] Let_def)
  obtain addr where k: "generateNodeIdentity (Some ([], demo_key)) = Some ([], addr)"
    by (simp add: generateNodeIdentity_def)
  obtain h0 h1 where h: "NewHost demo_p2p (host_config addr 10000 []) = Inr h0" "host_Start demo_p2p h0 = (h1, None)"
    using demo_host_starts by blast
  show ?thesis
    by (simp add: runStart_def logger_New_def NewLevelDBStorage_def c start_services_def NewIdentityService_def k h
        demo_start_def demo_flags_def start_engine_def new_running_def NewPBFTEngine_def NewServer_def Let_def)
qed

theorem started_node_never_has_a_block_witness:
  "\<exists>n :: (bytes \<rightharpoonup> bytes, peer_id list, (string \<times> bytes) list) node. handleNodeStatus demo_libs demo_request (nd_server n) = Some Panic \<and> bc_latestHeight (sv_bc (nd_server n)) = 0
     \<and> nd_engine n \<noteq> None"
proof -
  obtain n closers where n: "runStart demo_libs demo_start demo_flags = Done (Inr n, closers)" "nd_engine n \<noteq> None"
    using demo_start_runs by blast
  have fresh: "(\<lambda>s. s) st latestHeightKey = None" if "se_openFile demo_start p opts = Some st" for p opts st
    using that by (auto simp: demo_start_def)
  have "bc_latestHeight (sv_bc (nd_server n)) = 0
    \<and> (\<forall>e unix. nd_engine n = Some e \<longrightarrow> block_tick (lib_C demo_libs) (lib_J demo_libs) (lib_L demo_libs) unix e = Done e)
    \<and> handleNodeStatus demo_libs demo_request (nd_server n) = Some Panic"
    by (rule started_node_never_has_a_block [where contents = "\<lambda>s. s" and T = demo_jwt and M = demo_mux and N = demo_p2p, OF _ _ n(1)])
      (use demo_libs_ok(1) fresh in auto)
  with n(2) show ?thesis by (intro exI [of _ n]) simp
qed

text \<open>
  The deferred calls of a node that has started run in the opposite order of their registration, so the store is
  closed last; the platoon and the identity service are never stopped, and their loops go on with a closed store.
\<close>

lemma node_closers:
  "runStart B E F = Done (Inr n, cl) \<Longrightarrow>
     cl = ServerStop # (if sf_validator F then [EngineStop] else []) @ [HostStop, PoolStop, MessageStop, StateStop, StoreClose]"
  by (erule runStart_node)

text \<open>A start that fails before the store is open closes nothing; every later failure closes the store last.\<close>

lemma failed_services_close:
  assumes "start_services B E F store bc = Done (Inl e, cl)"
  shows "cl \<noteq> [] \<and> last cl = StoreClose"
  using assms by (auto simp: start_services_def NewServer_def obind_eq_Done Let_def split: option.splits sum.splits prod.splits if_splits)

lemma failed_start_closes:
  assumes "runStart B E F = Done (Inl e, cl)"
  shows "(cl = [] \<and> (e = LoggerFailed \<or> (\<exists>x. e = StorageFailed x))) \<or> (cl \<noteq> [] \<and> last cl = StoreClose)"
proof (cases "NewLevelDBStorage (se_mkdirAll E) (se_openFile E) (sf_dataDir F) 0 False")
  case (Inl x)
  with assms show ?thesis by (auto simp: runStart_def split: option.splits)
next
  case (Inr s0)
  show ?thesis
  proof (cases "cl = []")
    case True
    have "e = LoggerFailed"
    proof (rule ccontr)
      assume "e \<noteq> LoggerFailed"
      with assms Inr True obtain store r where "(case r of Inl e \<Rightarrow> Done (Inl (BlockchainFailed e), [StoreClose])
          | Inr bc \<Rightarrow> start_services B E F store bc) = Done (Inl e, [])"
        by (auto simp: runStart_def obind_eq_Done split: option.splits)
      then show False by (cases r) (auto dest: failed_services_close)
    qed
    with True show ?thesis by simp
  next
    case False
    with assms Inr obtain store r where "(case r of Inl e \<Rightarrow> Done (Inl (BlockchainFailed e), [StoreClose])
        | Inr bc \<Rightarrow> start_services B E F store bc) = Done (Inl e, cl)"
      by (auto simp: runStart_def obind_eq_Done split: option.splits)
    then show ?thesis by (cases r) (auto dest: failed_services_close)
  qed
qed

text \<open>The address of a node is not a hash: it is the end of the public key that is drawn.\<close>

lemma node_address:
  assumes "length pub = 65"
  shows "generateNodeIdentity (Some (priv, pub)) = Some (priv, get_be (drop 45 pub))"
  using assms by (simp add: generateNodeIdentity_def)

end
