(* ===== verification/Service_Loops.thy ===== *)
theory Service_Loops
  imports Platoon_Store Message Tx_Pool State_Service Header_Sync Host_Life
begin

text \<open>
  The background loops of the services and the end of a service. All loops have the same form: a select over a channel
  that Stop closes (or a context) and a ticker. What a loop finds at each of its selects is a list of wake-ups.
\<close>

section \<open>A ticker loop\<close>

text \<open>A tick carries what its body reads: the clock and the order in which Go visits a map.\<close>

datatype 'a wake = Stopped | Tick 'a

fun ticker_loop :: "('a \<Rightarrow> 's \<Rightarrow> 's) \<Rightarrow> 'a wake list \<Rightarrow> 's \<Rightarrow> 's \<times> bool" where
  "ticker_loop body [] s = (s, False)"
| "ticker_loop body (Stopped # ws) s = (s, True)"
| "ticker_loop body (Tick a # ws) s = ticker_loop body ws (body a s)"

text \<open>The second component tells whether the loop has returned; until then it waits for its next wake-up.\<close>

lemma ticker_loop_returns: "snd (ticker_loop body ws s) \<longleftrightarrow> Stopped \<in> set ws"
  by (induction body ws s rule: ticker_loop.induct) auto

lemma ticker_loop_final:
  "Stopped \<in> set ws \<Longrightarrow> ticker_loop body (ws @ ws') s = ticker_loop body ws s"
  by (induction body ws s rule: ticker_loop.induct) auto

lemma ticker_loop_ticks: "fst (ticker_loop body (map Tick as) s) = fold body as s"
  by (induction as arbitrary: s) auto

lemma ticker_loop_inv:
  "P s \<Longrightarrow> (\<And>a s. P s \<Longrightarrow> P (body a s)) \<Longrightarrow> P (fst (ticker_loop body ws s))"
  by (induction body ws s rule: ticker_loop.induct) auto

section \<open>The loops of the program\<close>

definition platoon_timeoutChecker ::
  "json_lib \<Rightarrow> 's db \<Rightarrow> (i64 \<times> string list) wake list \<Rightarrow> 's platoon_service \<Rightarrow> 's platoon_service \<times> bool" where
  "platoon_timeoutChecker J L = ticker_loop (\<lambda>(now, order). checkTimeouts J L now order)"

definition checkLeaderFailures :: "'s platoon_service \<Rightarrow> 's platoon_service" where
  "checkLeaderFailures s = s"

definition leaderFailureChecker :: "unit wake list \<Rightarrow> 's platoon_service \<Rightarrow> 's platoon_service \<times> bool" where
  "leaderFailureChecker = ticker_loop (\<lambda>_. checkLeaderFailures)"

definition expirationChecker ::
  "json_lib \<Rightarrow> 's db \<Rightarrow> (i64 \<times> address list) wake list \<Rightarrow> 's identity_service \<Rightarrow> 's identity_service \<times> bool" where
  "expirationChecker J L = ticker_loop (\<lambda>(now, order). checkExpiredCertificates J L now order)"

text \<open>The vehicles that rotationChecker logs are collected beside the service, which it does not change.\<close>

definition rotationChecker ::
  "(i64 \<times> address list) wake list \<Rightarrow> 's identity_service \<times> address list \<Rightarrow> ('s identity_service \<times> address list) \<times> bool" where
  "rotationChecker = ticker_loop (\<lambda>(now, order) (s, logged). (s, logged @ checkCertificatesForRotation now order s))"

definition pool_cleanupLoop :: "int wake list \<Rightarrow> txpool \<Rightarrow> txpool \<times> bool" where
  "pool_cleanupLoop = ticker_loop cleanupExpired"

definition message_cleanupLoop :: "i64 wake list \<Rightarrow> 's message_service \<Rightarrow> 's message_service \<times> bool" where
  "message_cleanupLoop = ticker_loop (\<lambda>now s. s\<lparr>ms_idCache := cache_Cleanup now (ms_idCache s)\<rparr>)"

text \<open>The tick of batchAnchorLoop has no body: nothing is anchored unless AnchorAuditLog is called.\<close>

definition batchAnchorLoop :: "unit wake list \<Rightarrow> state_service \<Rightarrow> state_service \<times> bool" where
  "batchAnchorLoop = ticker_loop (\<lambda>_ s. s)"

definition retentionPolicyLoop :: "i64 wake list \<Rightarrow> state_service \<Rightarrow> state_service \<times> bool" where
  "retentionPolicyLoop = ticker_loop enforceRetentionPolicy"

definition detectionLoop ::
  "'n net_lib \<Rightarrow> (peer_id list \<times> int) wake list \<Rightarrow> 'n p2p_host \<times> partition_detector \<Rightarrow> ('n p2p_host \<times> partition_detector) \<times> bool" where
  "detectionLoop L = ticker_loop (\<lambda>(order, now) (h, pd). case checkPartition L order now h pd of (h, pd, evs) \<Rightarrow> (h, pd))"

definition connectionManager :: "'n net_lib \<Rightarrow> unit wake list \<Rightarrow> 'n p2p_host \<Rightarrow> 'n p2p_host \<times> bool" where
  "connectionManager L = ticker_loop (\<lambda>_. maintainConnections L)"

text \<open>discoveryLoop looks for peers once before its first select.\<close>

definition discoveryLoop :: "'n net_lib \<Rightarrow> unit wake list \<Rightarrow> 'n p2p_host \<Rightarrow> 'n p2p_host \<times> bool" where
  "discoveryLoop L ws h = ticker_loop (\<lambda>_. findPeers L) ws (findPeers L h)"

text \<open>
  The tick of syncLoop collects the error of SyncOnce, which is only logged; a call that does not return ends the list.
\<close>

definition syncLoop ::
  "(nat \<Rightarrow> bool) wake list \<Rightarrow> 's header_sync \<times> sync_error option option list
     \<Rightarrow> ('s header_sync \<times> sync_error option option list) \<times> bool" where
  "syncLoop = ticker_loop (\<lambda>ctxDone (hs, rs). (hs, rs @ [SyncOnce ctxDone hs]))"

section \<open>A service with its loops\<close>

text \<open>
  Start sets the loops going, \<open>lv_running\<close> holds those that have not returned. Stop closes the channel, which
  panics when it is closed, and waits until none runs; calls and ticks go on meanwhile.
\<close>

record 's live =
  lv_state :: 's
  lv_stopClosed :: bool
  lv_running :: "nat set"

definition new_live :: "'s \<Rightarrow> nat \<Rightarrow> 's live" where
  "new_live s n = \<lparr>lv_state = s, lv_stopClosed = False, lv_running = {..<n}\<rparr>"

definition Stop_begins :: "'s live \<Rightarrow> 's live outcome" where
  "Stop_begins x = (if lv_stopClosed x then Panic else Done (x\<lparr>lv_stopClosed := True\<rparr>))"

definition Stop_returns :: "'s live \<Rightarrow> bool" where
  "Stop_returns x \<longleftrightarrow> lv_stopClosed x \<and> lv_running x = {}"

inductive life_step :: "('s \<Rightarrow> 's \<Rightarrow> bool) \<Rightarrow> ('s \<Rightarrow> 's \<Rightarrow> bool) list \<Rightarrow> 's live \<Rightarrow> 's live \<Rightarrow> bool" for op ticks where
  call: "op (lv_state x) s \<Longrightarrow> life_step op ticks x (x\<lparr>lv_state := s\<rparr>)"
| tick: "i \<in> lv_running x \<Longrightarrow> i < length ticks \<Longrightarrow> (ticks ! i) (lv_state x) s \<Longrightarrow> life_step op ticks x (x\<lparr>lv_state := s\<rparr>)"
| leave: "i \<in> lv_running x \<Longrightarrow> lv_stopClosed x \<Longrightarrow> life_step op ticks x (x\<lparr>lv_running := lv_running x - {i}\<rparr>)"
| stop: "Stop_begins x = Done x' \<Longrightarrow> life_step op ticks x x'"

inductive_cases life_stepE: "life_step op ticks x x'"

text \<open>The contract of a service: calls and ticks keep its invariant.\<close>

locale looped_service =
  fixes op :: "'s \<Rightarrow> 's \<Rightarrow> bool" and ticks :: "('s \<Rightarrow> 's \<Rightarrow> bool) list" and inv :: "'s \<Rightarrow> bool"
  assumes op_inv: "op s s' \<Longrightarrow> inv s \<Longrightarrow> inv s'"
    and tick_inv: "t \<in> set ticks \<Longrightarrow> t s s' \<Longrightarrow> inv s \<Longrightarrow> inv s'"
begin

lemma life_inv:
  assumes "(life_step op ticks)\<^sup>*\<^sup>* x x'" and "inv (lv_state x)"
  shows "inv (lv_state x')"
  using assms
proof (induction rule: rtranclp_induct)
  case (step y z)
  then have "inv (lv_state y)" by simp
  with step(2) show ?case
    by (elim life_stepE) (auto simp: Stop_begins_def dest: op_inv tick_inv [OF nth_mem] split: if_splits)
qed

lemma running_decreases:
  assumes "(life_step op ticks)\<^sup>*\<^sup>* x x'"
  shows "lv_running x' \<subseteq> lv_running x \<and> (lv_stopClosed x \<longrightarrow> lv_stopClosed x')"
  using assms
proof (induction rule: rtranclp_induct)
  case (step y z)
  from step(2) have "lv_running z \<subseteq> lv_running y \<and> (lv_stopClosed y \<longrightarrow> lv_stopClosed z)"
    by (elim life_stepE) (auto simp: Stop_begins_def split: if_splits)
  with step(3) show ?case by blast
qed simp

text \<open>Stop can always return, without any further call or tick: no loop waits for another.\<close>

lemma wait_ends:
  assumes "finite (lv_running x)" and "lv_stopClosed x"
  shows "(life_step op ticks)\<^sup>*\<^sup>* x (x\<lparr>lv_running := {}\<rparr>) \<and> Stop_returns (x\<lparr>lv_running := {}\<rparr>)"
proof -
  have "(life_step op ticks)\<^sup>*\<^sup>* (x\<lparr>lv_running := R\<rparr>) (x\<lparr>lv_running := {}\<rparr>)" if "finite R" for R
    using that
  proof (induction R)
    case (insert i R)
    have "life_step op ticks (x\<lparr>lv_running := insert i R\<rparr>)
        (x\<lparr>lv_running := insert i R\<rparr>\<lparr>lv_running := lv_running (x\<lparr>lv_running := insert i R\<rparr>) - {i}\<rparr>)"
      by (rule life_step.leave) (simp_all add: assms(2))
    then have "life_step op ticks (x\<lparr>lv_running := insert i R\<rparr>) (x\<lparr>lv_running := R\<rparr>)" using insert(2) by simp
    then show ?case using insert(3) by (rule converse_rtranclp_into_rtranclp)
  qed simp
  from this [OF assms(1)] show ?thesis using assms(2) by (simp add: Stop_returns_def)
qed

text \<open>Once Stop has returned, every change is a call.\<close>

lemma quiet:
  assumes "(life_step op ticks)\<^sup>*\<^sup>* x x'" and "Stop_returns x"
  shows "op\<^sup>*\<^sup>* (lv_state x) (lv_state x') \<and> Stop_returns x'"
  using assms
proof (induction rule: rtranclp_induct)
  case (step y z)
  then have y: "op\<^sup>*\<^sup>* (lv_state x) (lv_state y)" "Stop_returns y" by simp_all
  from step(2) y(2) have "(lv_state z = lv_state y \<or> op (lv_state y) (lv_state z)) \<and> Stop_returns z"
    by (elim life_stepE) (auto simp: Stop_returns_def Stop_begins_def split: if_splits)
  with y(1) show ?case by (metis rtranclp.rtrancl_into_rtrancl)
qed simp

lemma second_stop_panics: "(life_step op ticks)\<^sup>*\<^sup>* x x' \<Longrightarrow> lv_stopClosed x \<Longrightarrow> Stop_begins x' = Panic"
  using running_decreases by (simp add: Stop_begins_def)

end

section \<open>The services\<close>

definition platoon_ticks :: "json_lib \<Rightarrow> 's db \<Rightarrow> ('s platoon_service \<Rightarrow> 's platoon_service \<Rightarrow> bool) list" where
  "platoon_ticks J L =
     [\<lambda>s s'. \<exists>now order. s' = checkTimeouts J L now order s, \<lambda>s s'. s' = checkLeaderFailures s]"

interpretation platoon_life: looped_service "platoon_step J L" "platoon_ticks J L"
    "\<lambda>s. db_spec L contents \<longrightarrow> json_ok J \<longrightarrow> svc_ok J contents s" for J L contents
proof (unfold_locales, goal_cases)
  case (1 s s')
  then show ?case using platoon_run_sound [of L contents J s s'] by (auto simp: sound_def)
next
  case (2 t s s')
  have "sound J contents s (checkTimeouts J L now order s)" if "db_spec L contents" "json_ok J" for now order
    using that by (rule platoon_run_sound) (rule r_into_rtranclp, rule platoon_step.tick)
  with 2 show ?case by (auto simp: sound_def platoon_ticks_def checkLeaderFailures_def)
qed

definition identity_ticks :: "json_lib \<Rightarrow> 's db \<Rightarrow> ('s identity_service \<Rightarrow> 's identity_service \<Rightarrow> bool) list" where
  "identity_ticks J L = [\<lambda>s s'. \<exists>now order. s' = checkExpiredCertificates J L now order s, \<lambda>s s'. s' = s]"

interpretation identity_life: looped_service "identity_step C J X L contents" "identity_ticks J L"
    "\<lambda>s. db_spec L contents \<longrightarrow> json_ok J \<longrightarrow> ids_ok C J X contents s" for C J X L contents
proof (unfold_locales, goal_cases)
  case (1 s s')
  then show ?case using identity_step_keeps [of L contents J C X s s'] by (auto simp: id_keeps_def)
next
  case (2 t s s')
  then show ?case using checkExpired_keeps [of L contents J C X s] by (auto simp: id_keeps_def identity_ticks_def)
qed

definition pool_ticks :: "(txpool \<Rightarrow> txpool \<Rightarrow> bool) list" where
  "pool_ticks = [\<lambda>p p'. \<exists>now. p' = cleanupExpired now p]"

interpretation pool_life: looped_service "pool_step C" pool_ticks "pool_inv C" for C
  by unfold_locales (auto simp: pool_ticks_def intro: pool_step_inv cleanupExpired_inv)

definition state_ticks :: "(state_service \<Rightarrow> state_service \<Rightarrow> bool) list" where
  "state_ticks = [\<lambda>s s'. s' = s, \<lambda>s s'. \<exists>now. s' = enforceRetentionPolicy now s]"

lemma state_step_log: "state_step C J s s' \<Longrightarrow> log_ok C J s \<Longrightarrow> log_ok C J s'"
  by (induction rule: state_step.induct) (simp_all add: RecordEvent_log AnchorAuditLog_ok log_ok_cong [OF log_frames(5,6)])

interpretation state_life: looped_service "state_step C J" state_ticks "log_ok C J" for C J
  by unfold_locales (auto simp: state_ticks_def intro: state_step_log state_step.retention)

text \<open>A stopped pool hands out, adds and removes as before, but expires nothing by itself.\<close>

lemma stopped_pool:
  "(life_step (pool_step C) pool_ticks)\<^sup>*\<^sup>* (new_live (NewTxPool cfg) 1) x \<Longrightarrow> pool_inv C (lv_state x)"
  using pool_life.life_inv [of C "new_live (NewTxPool cfg) 1" x] by (simp add: new_live_def NewTxPool_inv)

end
