(* ===== verification/Service_Ids.thy ===== *)
theory Service_Ids
  imports Platoon State_Service Configuration
begin

text \<open>
  The identifiers that the services draw (service/state/service.go, service/platoon/service.go), the subscribers of
  state events, and the compression of archived data. Random bytes, the clock and gzip are arguments.
\<close>

section \<open>Identifiers of the state service\<close>

definition letters :: string where
  "letters = ''abcdefghijklmnopqrstuvwxyz0123456789''"

text \<open>One reading of the clock in nanoseconds for each character.\<close>

definition randomString :: "nat list \<Rightarrow> string" where
  "randomString nanos = map (\<lambda>t. letters ! (t mod length letters)) nanos"

definition state_id :: "string \<Rightarrow> int \<Rightarrow> nat list \<Rightarrow> string" where
  "state_id prefix now nanos = prefix @ ''-'' @ print_int now @ ''-'' @ randomString nanos"

definition generateEventID :: "int \<Rightarrow> nat list \<Rightarrow> string" where
  "generateEventID = state_id ''EVT''"

definition generateRecordID :: "int \<Rightarrow> nat list \<Rightarrow> string" where
  "generateRecordID = state_id ''AUD''"

definition generateAnomalyID :: "int \<Rightarrow> nat list \<Rightarrow> string" where
  "generateAnomalyID = state_id ''ANM''"

definition generateArchiveID :: "int \<Rightarrow> nat list \<Rightarrow> string" where
  "generateArchiveID = state_id ''ARC''"

lemma letters_length [simp]: "length letters = 36"
  by (simp add: letters_def)

text \<open>
  Within one tick of the clock all characters are equal, so a clock that is no finer than the loop gives at most
  36 different identifiers a second.
\<close>

lemma random_repeats: "randomString (replicate n t) = replicate n (letters ! (t mod 36))"
  by (simp add: randomString_def map_replicate_const [symmetric])

lemma few_ids_a_second: "card (range (\<lambda>t. generateEventID now (replicate 8 t))) \<le> 36"
proof -
  have "range (\<lambda>t. generateEventID now (replicate 8 t))
    \<subseteq> (\<lambda>i. ''EVT'' @ ''-'' @ print_int now @ ''-'' @ replicate 8 (letters ! i)) ` {..<36}"
    by (auto simp: generateEventID_def state_id_def random_repeats)
  then have "card (range (\<lambda>t. generateEventID now (replicate 8 t)))
    \<le> card ((\<lambda>i. ''EVT'' @ ''-'' @ print_int now @ ''-'' @ replicate 8 (letters ! i)) ` {..<36})"
    by (intro card_mono) simp_all
  also have "\<dots> \<le> card {..<36 :: nat}" by (rule card_image_le) simp
  finally show ?thesis by simp
qed

section \<open>Identifiers of platoons and requests\<close>

definition generatePlatoonID :: "bytes \<Rightarrow> string" where
  "generatePlatoonID rnd = ''PLT-'' @ hex_encode rnd"

definition generateRequestID :: "bytes \<Rightarrow> string" where
  "generateRequestID rnd = ''REQ-'' @ hex_encode rnd"

text \<open>Different random bytes give different identifiers, and a platoon never has the one of a request.\<close>

lemma ids_apart:
  "generatePlatoonID a = generatePlatoonID b \<longleftrightarrow> a = b" "generateRequestID a = generateRequestID b \<longleftrightarrow> a = b"
  "generatePlatoonID a \<noteq> generateRequestID b"
proof -
  have h: "hex_encode a = hex_encode b \<longleftrightarrow> a = b" using hex_decode_encode by (metis option.inject)
  show "generatePlatoonID a = generatePlatoonID b \<longleftrightarrow> a = b" "generateRequestID a = generateRequestID b \<longleftrightarrow> a = b"
    "generatePlatoonID a \<noteq> generateRequestID b"
    by (simp_all add: generatePlatoonID_def generateRequestID_def h)
qed

section \<open>Subscribers\<close>

text \<open>Subscribers are known by their names; each notification starts one goroutine for each of them.\<close>

definition Subscribe :: "'h \<Rightarrow> 'h list \<Rightarrow> 'h list" where
  "Subscribe handler subscribers = subscribers @ [handler]"

definition notifySubscribers :: "event \<Rightarrow> 'h list \<Rightarrow> ('h \<times> event) list" where
  "notifySubscribers e subscribers = map (\<lambda>h. (h, e)) subscribers"

lemma every_subscriber_notified:
  "set (notifySubscribers e (fold Subscribe hs [])) = set hs \<times> {e}"
proof -
  have "fold Subscribe hs xs = xs @ hs" for xs by (induction hs arbitrary: xs) (simp_all add: Subscribe_def)
  then show ?thesis by (auto simp: notifySubscribers_def)
qed

section \<open>Compression\<close>

record gzip_lib =
  gz_Write :: "bytes \<Rightarrow> bytes option"
  gz_Close :: "bytes \<Rightarrow> bytes option"
  gz_NewReader :: "bytes \<Rightarrow> bytes option"
  gz_ReadFrom :: "bytes \<Rightarrow> bytes option"

text \<open>The buffer after the data was written, and after the writer was closed.\<close>

definition CompressData :: "gzip_lib \<Rightarrow> bytes \<Rightarrow> bytes option" where
  "CompressData G data = (case gz_Write G data of None \<Rightarrow> None | Some buf \<Rightarrow> gz_Close G buf)"

definition DecompressData :: "gzip_lib \<Rightarrow> bytes \<Rightarrow> bytes option" where
  "DecompressData G data = (case gz_NewReader G data of None \<Rightarrow> None | Some r \<Rightarrow> gz_ReadFrom G r)"

text \<open>A closed stream is read back whole; one that is cut off is an error of the reader.\<close>

definition gzip_spec :: "gzip_lib \<Rightarrow> bool" where
  "gzip_spec G \<longleftrightarrow> (\<forall>data buf z. gz_Write G data = Some buf \<longrightarrow> gz_Close G buf = Some z \<longrightarrow>
     (\<exists>r. gz_NewReader G z = Some r \<and> gz_ReadFrom G r = Some data))"

lemma decompress_compress:
  "gzip_spec G \<Longrightarrow> CompressData G data = Some z \<Longrightarrow> DecompressData G z = Some data"
  by (fastforce simp: gzip_spec_def CompressData_def DecompressData_def split: option.splits)

end
