(* ===== verification/Chain_Figures.thy ===== *)
theory Chain_Figures
  imports Go_Float Header_Sync Chain_State
begin

text \<open>
  The figures that the node shows of its chain: the progress of a synchronisation (blockchain/sync.go) and the
  averages of the chain state (blockchain/state.go), in float64.
\<close>

text \<open>The conversion float64(n) of an unsigned number.\<close>

definition float_of_u64 :: "u64 \<Rightarrow> rat" where
  "float_of_u64 n = f64 (of_nat (unat n))"

lemma float_of_u64_mono:
  assumes "m \<le> n"
  shows "float_of_u64 m \<le> float_of_u64 n"
proof -
  have "unat m \<le> unat n" using assms by (simp add: word_le_nat_alt)
  then have "(of_nat (unat m) :: rat) \<le> of_nat (unat n)" by (simp only: of_nat_le_iff)
  then show ?thesis unfolding float_of_u64_def by (rule f64_mono [OF of_nat_0_le_iff])
qed

lemma float_of_u64_nonneg [simp]: "0 \<le> float_of_u64 n"
  unfolding float_of_u64_def by (rule f64_nonneg [OF of_nat_0_le_iff])

lemma float_of_u64_exact:
  assumes "unat n < 2 ^ 53"
  shows "float_of_u64 n = of_nat (unat n)"
proof -
  have "f64 (of_int (int (unat n))) = of_int (int (unat n))"
    using assms by (intro f64_of_int) (simp_all only: of_nat_0_le_iff of_nat_less_numeral_power_cancel_iff)
  then show ?thesis unfolding float_of_u64_def of_int_of_nat_eq .
qed

lemma float_of_u64_pos: "0 < n \<Longrightarrow> 0 < float_of_u64 n"
  using float_of_u64_mono [of 1 n] float_of_u64_exact [of 1] by (simp add: word_le_nat_alt word_less_nat_alt)

section \<open>The progress of a synchronisation\<close>

record SyncProgress =
  StartingHeight :: u64
  CurrentHeight :: u64
  TargetHeight :: u64
  Progress :: rat

definition GetProgress :: "'s header_sync \<Rightarrow> SyncProgress" where
  "GetProgress hs =
     (let localHeight = lc_GetLatestHeight (hs_lightClient hs); targetHeight = localHeight + 1000;
          progress = (if 0 < targetHeight
                      then f64 (f64 (float_of_u64 localHeight / float_of_u64 targetHeight) * 100) else 0)
      in \<lparr>StartingHeight = 0, CurrentHeight = localHeight, TargetHeight = targetHeight, Progress = progress\<rparr>)"

text \<open>As long as the target does not wrap, the progress is a percentage.\<close>

lemma progress_percent:
  assumes "unat (lc_GetLatestHeight (hs_lightClient hs)) + 1000 < 2 ^ 64"
  shows "0 \<le> Progress (GetProgress hs) \<and> Progress (GetProgress hs) \<le> 100"
proof -
  let ?h = "lc_GetLatestHeight (hs_lightClient hs)"
  have t: "unat (?h + 1000) = unat ?h + 1000" using assms by (simp add: unat_word_ariths)
  then have pos: "0 < ?h + 1000" and le: "?h \<le> ?h + 1000" by (simp_all add: word_less_nat_alt word_le_nat_alt)
  let ?q = "float_of_u64 ?h / float_of_u64 (?h + 1000)"
  have q: "0 \<le> ?q" "?q \<le> 1"
    using float_of_u64_mono [OF le] float_of_u64_pos [OF pos] by (simp_all add: divide_le_eq_1)
  have one: "f64 1 = 1" and hundred: "f64 100 = 100" using f64_of_int [of 1] f64_of_int [of 100] by simp_all
  have p: "0 \<le> f64 ?q" "f64 ?q \<le> 1" using f64_nonneg [OF q(1)] f64_mono [OF q] one by simp_all
  have "0 \<le> f64 (f64 ?q * 100)" "f64 (f64 ?q * 100) \<le> 100"
    using f64_nonneg [of "f64 ?q * 100"] f64_mono [of "f64 ?q * 100" 100] p hundred by simp_all
  then show ?thesis using pos by (simp add: GetProgress_def Let_def)
qed

text \<open>The target is always a thousand blocks ahead: a client at height 1000 that has all headers reports 50 percent.\<close>

lemma progress_never_complete:
  assumes "lc_GetLatestHeight (hs_lightClient hs) = 1000"
  shows "Progress (GetProgress hs) = 50"
proof -
  have f: "float_of_u64 1000 = 1000" "float_of_u64 2000 = 2000"
    using float_of_u64_exact [of 1000] float_of_u64_exact [of 2000] by simp_all
  have "binade (1 / 2) = - 1" by code_simp
  then have half: "f64 (1 / 2) = 1 / 2"
    by (intro f64_exact [of _ "2 ^ 52"]) (simp_all add: power_int_def field_simps)
  have "f64 (f64 (1 / 2) * 100) = 50" unfolding half using f64_of_int [of 50] by simp
  then show ?thesis by (simp add: GetProgress_def assms f Let_def)
qed

section \<open>Statistics of the chain\<close>

record ChainStats =
  BlockCount :: u64
  TransactionCount :: u64
  AvgBlockTime :: rat
  AvgTxPerBlock :: rat

definition chain_GetStats :: "'s chain_state \<Rightarrow> ChainStats" where
  "chain_GetStats cs =
     \<lparr>BlockCount = cs_latestHeight cs, TransactionCount = cs_totalTxCount cs, AvgBlockTime = 0,
      AvgTxPerBlock = (if 0 < cs_latestHeight cs
        then f64 (float_of_u64 (cs_totalTxCount cs) / float_of_u64 (cs_latestHeight cs)) else 0)\<rparr>"

text \<open>An average that is a whole number is exact below 2^53 transactions.\<close>

lemma average_exact:
  assumes "unat (cs_totalTxCount cs) = k * unat (cs_latestHeight cs)" and "unat (cs_totalTxCount cs) < 2 ^ 53"
    and "0 < cs_latestHeight cs" and "unat (cs_latestHeight cs) < 2 ^ 53"
  shows "AvgTxPerBlock (chain_GetStats cs) = of_nat k"
proof -
  have h: "0 < unat (cs_latestHeight cs)" using assms(3) by (simp add: word_less_nat_alt)
  then have "k \<le> k * unat (cs_latestHeight cs)" by simp
  then have k: "k < 2 ^ 53" using assms(1,2) by linarith
  have "float_of_u64 (cs_totalTxCount cs) / float_of_u64 (cs_latestHeight cs) = of_nat k"
    unfolding float_of_u64_exact [OF assms(2)] float_of_u64_exact [OF assms(4)] assms(1) of_nat_mult
    using h by (simp only: nonzero_mult_div_cancel_right of_nat_eq_0_iff)
  moreover have "f64 (of_nat k) = of_nat k" using f64_of_int [of "int k"] k by simp
  ultimately show ?thesis using assms(3) by (simp add: chain_GetStats_def)
qed

end
