(* ===== verification/Admission.thy ===== *)
theory Admission
  imports Identity
begin

text \<open>
  The hooks of service/identity/admission.go as gaters of libp2p connections. libp2p asks a gater in stages; a
  connection is made when every stage that applies to its direction allows it.
\<close>

section \<open>The interface of libp2p\<close>

record connmgr_gater =
  InterceptPeerDial :: "string \<Rightarrow> bool"
  InterceptAddrDial :: "string \<Rightarrow> bytes \<Rightarrow> bool"
  InterceptAccept :: "bytes \<Rightarrow> bool"
  InterceptSecured :: "bool \<Rightarrow> string \<Rightarrow> bytes \<Rightarrow> bool"
  InterceptUpgraded :: "string \<Rightarrow> bool \<times> nat"

text \<open>The documented order of the stages, for a peer at an address.\<close>

definition dial_allowed :: "connmgr_gater \<Rightarrow> string \<Rightarrow> bytes \<Rightarrow> bool" where
  "dial_allowed g p a \<longleftrightarrow> InterceptPeerDial g p \<and> InterceptAddrDial g p a \<and> InterceptSecured g True p a
     \<and> fst (InterceptUpgraded g p)"

definition accept_allowed :: "connmgr_gater \<Rightarrow> string \<Rightarrow> bytes \<Rightarrow> bool" where
  "accept_allowed g p a \<longleftrightarrow> InterceptAccept g a \<and> InterceptSecured g False p a \<and> fst (InterceptUpgraded g p)"

section \<open>The gaters of the program\<close>

text \<open>The admission controller holds the identity service and never asks it.\<close>

definition NewAdmissionController :: "'s identity_service \<Rightarrow> connmgr_gater" where
  "NewAdmissionController ids = \<lparr>InterceptPeerDial = (\<lambda>p. True), InterceptAddrDial = (\<lambda>p a. True),
     InterceptAccept = (\<lambda>a. True), InterceptSecured = (\<lambda>d p a. True), InterceptUpgraded = (\<lambda>p. (True, 0))\<rparr>"

definition NewConnectionGater :: connection_gater where
  "NewConnectionGater = \<lparr>cg_blockedPeers = fmempty\<rparr>"

definition cg_gater :: "connection_gater \<Rightarrow> connmgr_gater" where
  "cg_gater cg = \<lparr>InterceptPeerDial = gater_allows cg, InterceptAddrDial = (\<lambda>p a. gater_allows cg p),
     InterceptAccept = (\<lambda>a. True), InterceptSecured = (\<lambda>d p a. gater_allows cg p), InterceptUpgraded = (\<lambda>p. (True, 0))\<rparr>"

definition AuthenticatePeer ::
  "json_lib \<Rightarrow> x509_lib \<Rightarrow> 's db \<Rightarrow> i64 \<Rightarrow> 's identity_service \<Rightarrow> address \<Rightarrow> 's identity_service \<times> identity_error option" where
  "AuthenticatePeer J X L now s a = VerifyNodeAdmission J X L now s a"

section \<open>What they allow\<close>

text \<open>The admission controller lets every peer in, registered or not.\<close>

lemma everyone_admitted:
  "dial_allowed (NewAdmissionController ids) p a \<and> accept_allowed (NewAdmissionController ids) p a"
  by (simp add: dial_allowed_def accept_allowed_def NewAdmissionController_def)

text \<open>
  The connection gater keeps out exactly the peers that were blocked last, in both directions; an incoming
  connection is refused only after its handshake.
\<close>

fun gater_calls :: "(string \<times> bool) list \<Rightarrow> connection_gater \<Rightarrow> connection_gater" where
  "gater_calls [] cg = cg"
| "gater_calls ((p, block) # cs) cg = gater_calls cs (if block then BlockPeer cg p else UnblockPeer cg p)"

lemma gater_allows_calls:
  "gater_allows (gater_calls cs cg) p
     = (case filter (\<lambda>c. fst c = p) cs of [] \<Rightarrow> gater_allows cg p | xs \<Rightarrow> \<not> snd (last xs))"
proof (induction cs arbitrary: cg)
  case (Cons c cs)
  obtain q b where c: "c = (q, b)" by (cases c)
  have "gater_allows (if b then BlockPeer cg q else UnblockPeer cg q) p = (if q = p then \<not> b else gater_allows cg p)"
    by (simp add: gater_allows_def BlockPeer_def UnblockPeer_def)
  with Cons [of "if b then BlockPeer cg q else UnblockPeer cg q"] show ?case
    by (auto simp: c split: list.splits)
qed simp

lemma blocked_peers_kept_out:
  "dial_allowed (cg_gater (gater_calls cs NewConnectionGater)) p a
     \<longleftrightarrow> (filter (\<lambda>c. fst c = p) cs = [] \<or> \<not> snd (last (filter (\<lambda>c. fst c = p) cs)))"
  "accept_allowed (cg_gater cg) p a \<longleftrightarrow> dial_allowed (cg_gater cg) p a"
  by (auto simp: dial_allowed_def accept_allowed_def cg_gater_def gater_allows_calls NewConnectionGater_def
      gater_allows_def [of "\<lparr>cg_blockedPeers = fmempty\<rparr>"] split: list.splits)

end
