(* ===== verification/Logger.thy ===== *)
theory Logger
  imports Configuration
begin

text \<open>
  The functions of pkg/logger/logger.go over zap, which is a parameter: a record of the calls the code makes, over
  unknown loggers, fields and output. The default logger is a variable of the package.
\<close>

datatype level = DebugLevel | InfoLevel | WarnLevel | ErrorLevel | FatalLevel

record ('z, 's, 'f, 'v, 'w) zap_lib =
  zl_NewProduction :: "'z option"
  zl_NewDevelopment :: "'z option"
  zl_New :: "LogConfig \<Rightarrow> 'z option"
  zl_Sugar :: "'z \<Rightarrow> 's"
  zl_With :: "'z \<Rightarrow> 'f list \<Rightarrow> 'z"
  zs_With :: "'s \<Rightarrow> 'f list \<Rightarrow> 's"
  zl_Named :: "'z \<Rightarrow> string \<Rightarrow> 'z"
  zs_Named :: "'s \<Rightarrow> string \<Rightarrow> 's"
  zl_Sync :: "'z \<Rightarrow> 'w \<Rightarrow> 'w \<times> bool"
  zl_Log :: "level \<Rightarrow> 'z \<Rightarrow> string \<Rightarrow> 'f list \<Rightarrow> 'w \<Rightarrow> 'w"
  zs_Logf :: "level \<Rightarrow> 's \<Rightarrow> string \<Rightarrow> 'v list \<Rightarrow> 'w \<Rightarrow> 'w"
  zf_Any :: "string \<Rightarrow> 'v \<Rightarrow> 'f"
  zf_Error :: "string option \<Rightarrow> 'f"

text \<open>A call that logs returns, unless its level is fatal: then the process exits.\<close>

datatype 'w logged = Logged 'w | Exits 'w

section \<open>Loggers\<close>

record ('z, 's) logger =
  lg_Logger :: 'z
  lg_sugar :: 's

definition wrap :: "('z, 's, 'f, 'v, 'w) zap_lib \<Rightarrow> 'z \<Rightarrow> ('z, 's) logger" where
  "wrap Z z = \<lparr>lg_Logger = z, lg_sugar = zl_Sugar Z z\<rparr>"

definition logger_of_config :: "('z, 's, 'f, 'v, 'w) zap_lib \<Rightarrow> LogConfig \<Rightarrow> ('z, 's) logger option" where
  "logger_of_config Z cfg = map_option (wrap Z) (zl_New Z cfg)"

definition NewDevelopment :: "('z, 's, 'f, 'v, 'w) zap_lib \<Rightarrow> ('z, 's) logger option" where
  "NewDevelopment Z = map_option (wrap Z) (zl_NewDevelopment Z)"

definition NewProduction :: "('z, 's, 'f, 'v, 'w) zap_lib \<Rightarrow> ('z, 's) logger option" where
  "NewProduction Z = map_option (wrap Z) (zl_NewProduction Z)"

definition logger_Sugar :: "('z, 's) logger \<Rightarrow> 's" where
  "logger_Sugar l = lg_sugar l"

definition fieldsToArgs :: "'f list \<Rightarrow> 'f list" where
  "fieldsToArgs fs = map (\<lambda>f. f) fs"

definition logger_With :: "('z, 's, 'f, 'v, 'w) zap_lib \<Rightarrow> ('z, 's) logger \<Rightarrow> 'f list \<Rightarrow> ('z, 's) logger" where
  "logger_With Z l fs =
     \<lparr>lg_Logger = zl_With Z (lg_Logger l) fs, lg_sugar = zs_With Z (lg_sugar l) (fieldsToArgs fs)\<rparr>"

definition logger_Named :: "('z, 's, 'f, 'v, 'w) zap_lib \<Rightarrow> ('z, 's) logger \<Rightarrow> string \<Rightarrow> ('z, 's) logger" where
  "logger_Named Z l name = \<lparr>lg_Logger = zl_Named Z (lg_Logger l) name, lg_sugar = zs_Named Z (lg_sugar l) name\<rparr>"

definition logger_Sync :: "('z, 's, 'f, 'v, 'w) zap_lib \<Rightarrow> ('z, 's) logger \<Rightarrow> 'w \<Rightarrow> 'w \<times> bool" where
  "logger_Sync Z l w = zl_Sync Z (lg_Logger l) w"

definition WithError :: "('z, 's, 'f, 'v, 'w) zap_lib \<Rightarrow> ('z, 's) logger \<Rightarrow> string option \<Rightarrow> ('z, 's) logger" where
  "WithError Z l err = logger_With Z l [zf_Error Z err]"

definition WithField :: "('z, 's, 'f, 'v, 'w) zap_lib \<Rightarrow> ('z, 's) logger \<Rightarrow> string \<Rightarrow> 'v \<Rightarrow> ('z, 's) logger" where
  "WithField Z l key val = logger_With Z l [zf_Any Z key val]"

text \<open>The list is the map in the order in which Go visits it.\<close>

definition WithFields :: "('z, 's, 'f, 'v, 'w) zap_lib \<Rightarrow> ('z, 's) logger \<Rightarrow> (string \<times> 'v) list \<Rightarrow> ('z, 's) logger" where
  "WithFields Z l fs = logger_With Z l (map (\<lambda>(k, v). zf_Any Z k v) fs)"

section \<open>Logging\<close>

definition ended :: "level \<Rightarrow> 'w \<Rightarrow> 'w logged" where
  "ended lv w = (if lv = FatalLevel then Exits w else Logged w)"

text \<open>A method of a logger that is nil dereferences it.\<close>

definition log_at ::
  "('z, 's, 'f, 'v, 'w) zap_lib \<Rightarrow> level \<Rightarrow> ('z, 's) logger option \<Rightarrow> string \<Rightarrow> 'f list \<Rightarrow> 'w \<Rightarrow> 'w logged outcome" where
  "log_at Z lv l msg fs w =
     (case l of None \<Rightarrow> Panic | Some lg \<Rightarrow> Done (ended lv (zl_Log Z lv (lg_Logger lg) msg fs w)))"

definition logf_at ::
  "('z, 's, 'f, 'v, 'w) zap_lib \<Rightarrow> level \<Rightarrow> ('z, 's) logger option \<Rightarrow> string \<Rightarrow> 'v list \<Rightarrow> 'w \<Rightarrow> 'w logged outcome" where
  "logf_at Z lv l template args w =
     (case l of None \<Rightarrow> Panic | Some lg \<Rightarrow> Done (ended lv (zs_Logf Z lv (lg_sugar lg) template args w)))"

section \<open>The default logger\<close>

definition InitDefault ::
  "('z, 's, 'f, 'v, 'w) zap_lib \<Rightarrow> LogConfig \<Rightarrow> ('z, 's) logger option \<Rightarrow> ('z, 's) logger option \<times> bool" where
  "InitDefault Z cfg d = (case logger_of_config Z cfg of None \<Rightarrow> (d, False) | Some l \<Rightarrow> (Some l, True))"

definition SetDefault :: "('z, 's) logger option \<Rightarrow> ('z, 's) logger option \<Rightarrow> ('z, 's) logger option" where
  "SetDefault l d = l"

text \<open>The variable afterwards, which is what is returned; the error of NewProduction is dropped.\<close>

definition GetDefault :: "('z, 's, 'f, 'v, 'w) zap_lib \<Rightarrow> ('z, 's) logger option \<Rightarrow> ('z, 's) logger option" where
  "GetDefault Z d = (case d of None \<Rightarrow> NewProduction Z | Some l \<Rightarrow> Some l)"

definition package_log ::
  "('z, 's, 'f, 'v, 'w) zap_lib \<Rightarrow> level \<Rightarrow> string \<Rightarrow> 'f list \<Rightarrow> ('z, 's) logger option \<times> 'w
     \<Rightarrow> (('z, 's) logger option \<times> 'w logged) outcome" where
  "package_log Z lv msg fs s =
     (case s of (d, w) \<Rightarrow> let l = GetDefault Z d in obind (log_at Z lv l msg fs w) (\<lambda>r. Done (l, r)))"

definition package_logf ::
  "('z, 's, 'f, 'v, 'w) zap_lib \<Rightarrow> level \<Rightarrow> string \<Rightarrow> 'v list \<Rightarrow> ('z, 's) logger option \<times> 'w
     \<Rightarrow> (('z, 's) logger option \<times> 'w logged) outcome" where
  "package_logf Z lv template args s =
     (case s of (d, w) \<Rightarrow> let l = GetDefault Z d in obind (logf_at Z lv l template args w) (\<lambda>r. Done (l, r)))"

section \<open>A logger and its sugared twin\<close>

text \<open>What zap documents: a sugared logger is derived as the plain one it was made of.\<close>

definition zap_spec :: "('z, 's, 'f, 'v, 'w) zap_lib \<Rightarrow> bool" where
  "zap_spec Z \<longleftrightarrow> (\<forall>z fs. zl_Sugar Z (zl_With Z z fs) = zs_With Z (zl_Sugar Z z) fs)
     \<and> (\<forall>z n. zl_Sugar Z (zl_Named Z z n) = zs_Named Z (zl_Sugar Z z) n)"

definition twin :: "('z, 's, 'f, 'v, 'w) zap_lib \<Rightarrow> ('z, 's) logger \<Rightarrow> bool" where
  "twin Z l \<longleftrightarrow> lg_sugar l = zl_Sugar Z (lg_Logger l)"

text \<open>Every logger that the package makes logs formatted messages with the fields and the name of its plain ones.\<close>

inductive made :: "('z, 's, 'f, 'v, 'w) zap_lib \<Rightarrow> ('z, 's) logger \<Rightarrow> bool" for Z where
  config: "logger_of_config Z cfg = Some l \<Longrightarrow> made Z l"
| development: "NewDevelopment Z = Some l \<Longrightarrow> made Z l"
| production: "NewProduction Z = Some l \<Longrightarrow> made Z l"
| extended: "made Z l \<Longrightarrow> made Z (logger_With Z l fs)"
| named: "made Z l \<Longrightarrow> made Z (logger_Named Z l n)"
| error: "made Z l \<Longrightarrow> made Z (WithError Z l e)"
| field: "made Z l \<Longrightarrow> made Z (WithField Z l k v)"
| several: "made Z l \<Longrightarrow> made Z (WithFields Z l kvs)"

lemma made_twin: "made Z l \<Longrightarrow> zap_spec Z \<Longrightarrow> twin Z l"
  by (induction rule: made.induct)
    (auto simp: twin_def zap_spec_def logger_of_config_def NewDevelopment_def NewProduction_def wrap_def logger_With_def
      logger_Named_def WithError_def WithField_def WithFields_def fieldsToArgs_def)

section \<open>The default logger in use\<close>

text \<open>
  Before a default is set, the functions of the package log in production form; when that logger cannot be made,
  they panic. A successful InitDefault replaces it, a failed one leaves what was there.
\<close>

lemma default_logger:
  "package_log Z lv msg fs (None, w) = (case zl_NewProduction Z of None \<Rightarrow> Panic
     | Some z \<Rightarrow> Done (Some (wrap Z z), ended lv (zl_Log Z lv z msg fs w)))"
  "package_log Z lv msg fs (Some l, w) = Done (Some l, ended lv (zl_Log Z lv (lg_Logger l) msg fs w))"
  "InitDefault Z cfg d = (Some l, True) \<Longrightarrow>
     package_log Z lv msg fs (fst (InitDefault Z cfg d), w) = Done (Some l, ended lv (zl_Log Z lv (lg_Logger l) msg fs w))"
  "\<not> snd (InitDefault Z cfg d) \<Longrightarrow> fst (InitDefault Z cfg d) = d"
  by (auto simp: package_log_def log_at_def GetDefault_def NewProduction_def wrap_def InitDefault_def Let_def
      split: option.splits)

lemma fatal_exits: "package_log Z FatalLevel msg fs s = Done (l, r) \<Longrightarrow> \<exists>w. r = Exits w"
  by (cases s) (auto simp: package_log_def log_at_def ended_def Let_def split: option.splits)

end
