(* ===== verification/Spec2Isabelle.thy ===== *)
theory Spec2Isabelle
  imports Chain Chain_State Merkle Block_Validator Light_Client Header_Sync Fork PBFT_Timers Tx_Pool Platoon_Store State_Service
    Shared_Store Message Executor API Rate_Limit Network Gossip KV_Iterator Configuration Command_Line Web_Socket
    Node_Start Service_Loops Service_Ids Chain_Figures Admission Logger
begin

text \<open>
  Verification library for v2v-blockchain, a permissioned block chain for vehicle platoons written
  in Go. This theory imports the others and holds the overview.

  \<^bold>\<open>The program.\<close> A node receives signed transactions (internal/core/txpool), orders them into
  blocks with PBFT (internal/core/consensus), appends blocks to a chain kept in LevelDB
  (internal/core/blockchain, internal/infra/storage), executes committed blocks (internal/core/executor)
  on the services for platoons and identities (internal/service), and offers all of it over REST
  (internal/app/api). Nodes find each other and exchange messages over libp2p
  (internal/service/network). The services store their records in the same database under their own
  key prefixes.

  \<^bold>\<open>Theories.\<close>
  \<^item> V2V_Prelude: machine types, outcomes of a call (value, panic, wait for ever), Go maps, encodings,
    read/write locks, the interface \<open>crypto\<close> of go-ethereum/crypto. Go_JSON: encoding/json as value
    trees. Crypto_Laws: what is assumed of ECDSA over secp256k1, whose digests count modulo the order
    of the group, and an instance for witnesses.
  \<^item> Chain_Types (blockchain/types.go, hash.go): hashes, headers, transactions, blocks, their wire
    format and signatures. Merkle_Scheme and Merkle (merkle.go): trees, proofs and their soundness.
  \<^item> KV_Storage (infra/storage/leveldb.go): the wrapper over a LevelDB handle \<open>db\<close> with its laws
    \<open>db_spec\<close>. KV_Iterator: opening and closing it and iterating over a prefix. Block_Storage (storage.go): blocks under hash, height and transaction keys.
  \<^item> Hash_Chain: hash-linked lists as a locale. Chain (chain.go): the chain, its lock and the stored
    chain as an invariant. Chain_State (state.go): the head, the counter, caches and snapshots, which
    follow the chain. Chain_Figures (state.go, sync.go): averages and progress, over Go_Float.
    Block_Validator (validator.go): the checks of a block and what they accept.
  \<^item> Light_Client (lightclient.go): headers in memory as a refinement of a linked list. Header_Sync
    (sync.go): the synchronisation loops over it. Fork (fork.go): detection, resolution and
    reorganisation over the chain.
  \<^item> Consensus_Types (consensus/types.go), PBFT (pbft.go, checkpoint.go): messages, validator sets,
    vote records, the handlers, view changes, checkpoints. PBFT_Timers (pbft.go): the engine with its
    timers, start and stop, and its runs.
  \<^item> Go_Heap: container/heap over a locale for the order. Tx_Pool (txpool/pool.go): the pool.
  \<^item> Platoon (service/platoon): platoons and the service that keeps them. Platoon_Runs: its invariant
    and the life cycle of a platoon, over a locale for relations that every operation respects.
    Platoon_Store: what survives a restart. Shared_Store: what the service leaves alone in the database.
  \<^item> Identity (service/identity): identities, the revocation list, registration, admission, rotation.
    Admission (admission.go): the gaters of connections.
  \<^item> State_Service (service/state): events, the audit chain and its anchors, histories, anomalies.
    Service_Ids: the identifiers it draws, its subscribers, compression.
  \<^item> Service_Loops: the background loops of all services as one ticker loop each, and the end of a service
    as a locale that the services interpret.
  \<^item> Message (service/message): signed messages and their verification over Identity.
  \<^item> Executor (core/executor): what a block does to the services, transaction by transaction, which changes
    of platoons and join requests are authorised, and the builder of transactions.
  \<^item> Network (network/host.go, discovery.go, partition.go) and Gossip (network/gossip.go): the host,
    discovery, the partition detector and pubsub over libp2p. Host_Life: creating, starting and stopping
    the host and its parts, and what they hold: handles, loops, and the topics, subscriptions and goroutines of
    the gossip service, which are fields of the records that the code does not have. API (app/api/server.go, auth.go): tokens,
    middleware, routes and handlers over the chain, the pool and the services. Rate_Limit
    (ratelimit.go): the token bucket, over Go_Float, the rounding of float64.
    Web_Socket (server.go): connections, broadcasts, and the start and stop of the server.
  \<^item> Command_Line (cmd/v2v-node): the tree of commands, what each prints, and where the printed requests
    and queries lead, as net/http decodes a URL and mux matches a clean path. Node_Start (start.go): how a node is put together and closed, and what it does then.
  \<^item> Configuration (app/config/config.go, pkg/logger/logger.go): settings, defaults, validation, and
    what they make of the chain; the logger that a configuration describes. Logger: its functions over zap.

  \<^bold>\<open>Correspondence.\<close> A struct is a record whose fields carry a prefix of the type; a method is a
  function that takes the receiver and returns it changed, with an error as an option or a sum. A
  mutex that a single caller could wait for is a field of the state (\<open>rwlock\<close>), and such a wait is
  the outcome \<open>Blocked\<close>; locks that are taken and released around code without calls are left out.
  Times, random identifiers and what a channel or a context answers are arguments. The order in which Go
  visits a map, or the entry a full cache evicts, is an argument or, where the result does not depend
  on it, the increasing order of keys. Libraries are records of the calls the code makes
  (\<open>crypto\<close>, \<open>json_lib\<close>, \<open>db\<close>, \<open>x509_lib\<close>, \<open>net_lib\<close>, \<open>pubsub_lib\<close>, \<open>jwt_lib\<close>, \<open>mux_lib\<close>); what
  their documentation promises is a named predicate on them (\<open>json_ok\<close>, \<open>db_spec\<close>, \<open>ecdsa_correct\<close>,
  \<open>net_spec\<close>, \<open>jwt_ok\<close>), and each has an instance for the witnesses.

  \<^bold>\<open>Bounds and fuel.\<close> uint64, uint32 and uint8 values are words and wrap; int64 values are words
  read with \<open>sint\<close>; an int that is a length or a small count is an \<open>int\<close> or \<open>nat\<close>. The only fuel is
  the depth of \<open>wired\<close>, the engine that handles its own messages: depth three is enough for every
  message (\<open>wired_depth_three\<close>). Loops that count a uint64 up to a bound, or walk a chain by its hashes,
  are partial functions whose value None means that they do not return; the theorems about them
  state that they do.

  \<^bold>\<open>Not modelled.\<close> libp2p, pubsub, gzip, zap, viper, cobra, gorilla and LevelDB are parameters, whose success
  is an argument where the code looks at it. Log lines and the JSON text of the answers of the API are left out.
  A background loop is modelled by what it finds at each of its selects. Concurrency between
  goroutines is modelled as sequences of whole calls.
\<close>

end
